(* ===== verification/Prelude.thy ===== *)
theory Prelude
  imports Main "HOL-Library.Signed_Division" "HOL-Library.Log_Nat"
begin

text \<open>
  Shared vocabulary of the development: the collections of rewrite rules the component
  theories fill, the error monad in which a C++ \<^verbatim>\<open>throw\<close> is a value, the fixed-width
  integer ranges of the sources (\<^verbatim>\<open>int32_t\<close>, \<^verbatim>\<open>int64_t\<close>) and the rounding of an
  integer to a floating-point significand, which the constant folder relies on when it
  computes in \<^verbatim>\<open>long double\<close>.
\<close>

named_theorems sbind_simps \<open>rewrite rules for the error monad\<close>
named_theorems rng_simps \<open>unfolding of the fixed-width integer ranges\<close>

section \<open>Errors as values\<close>

text \<open>
  \<open>sbind\<close> sequences fallible computations: the left summand is the exception a C++
  \<^verbatim>\<open>throw\<close> raises, which skips everything after it.
\<close>

fun sbind :: "'e + 'a \<Rightarrow> ('a \<Rightarrow> 'e + 'b) \<Rightarrow> 'e + 'b" where
  "sbind (Inl e) f = Inl e"
| "sbind (Inr a) f = f a"

lemma sbind_cong [fundef_cong]:
  "m = m' \<Longrightarrow> (\<And>x. m' = Inr x \<Longrightarrow> f x = g x) \<Longrightarrow> sbind m f = sbind m' g"
  by (cases m') simp_all

lemma sbind_Inr_iff [sbind_simps]:
  "sbind m f = Inr b \<longleftrightarrow> (\<exists>a. m = Inr a \<and> f a = Inr b)"
  by (cases m) auto

lemma sbind_Inl_iff [sbind_simps]:
  "sbind m f = Inl e \<longleftrightarrow> m = Inl e \<or> (\<exists>a. m = Inr a \<and> f a = Inl e)"
  by (cases m) auto

lemma sbind_Inr_right [simp]: "sbind m Inr = m"
  by (cases m) auto

lemma sbind_assoc [sbind_simps]:
  "sbind (sbind m f) g = sbind m (\<lambda>x. sbind (f x) g)"
  by (cases m) auto

text \<open>A guard that throws: \<^verbatim>\<open>if (!c) throw e;\<close>.\<close>

definition require :: "bool \<Rightarrow> 'e \<Rightarrow> 'e + unit" where
  "require c e = (if c then Inr () else Inl e)"

lemma require_Inr_iff [sbind_simps]: "require c e = Inr u \<longleftrightarrow> c"
  by (simp add: require_def)

lemma require_Inl_iff [sbind_simps]: "require c e = Inl e' \<longleftrightarrow> \<not> c \<and> e' = e"
  by (auto simp: require_def)

lemma require_simps [simp]: "require True e = Inr ()" "require False e = Inl e"
  by (simp_all add: require_def)

text \<open>A loop that may throw in its body, over a list.\<close>

fun smap :: "('a \<Rightarrow> 'e + 'b) \<Rightarrow> 'a list \<Rightarrow> 'e + 'b list" where
  "smap f [] = Inr []"
| "smap f (x # xs) = sbind (f x) (\<lambda>y. sbind (smap f xs) (\<lambda>ys. Inr (y # ys)))"

lemma smap_Inr_iff: "smap f xs = Inr ys \<longleftrightarrow> list_all2 (\<lambda>x y. f x = Inr y) xs ys"
  by (induction xs arbitrary: ys) (auto simp: sbind_simps list_all2_Cons1)

lemma smap_total: "(\<And>x. x \<in> set xs \<Longrightarrow> f x = Inr (g x)) \<Longrightarrow> smap f xs = Inr (map g xs)"
  by (induction xs) auto

fun sfold :: "('a \<Rightarrow> 's \<Rightarrow> 'e + 's) \<Rightarrow> 'a list \<Rightarrow> 's \<Rightarrow> 'e + 's" where
  "sfold f [] s = Inr s"
| "sfold f (x # xs) s = sbind (f x s) (sfold f xs)"

lemma sfold_append: "sfold f (xs @ ys) s = sbind (sfold f xs s) (sfold f ys)"
proof (induction xs arbitrary: s)
  case (Cons x xs)
  then show ?case by (cases "f x s") auto
qed simp

text \<open>An invariant of the loop body is an invariant of the loop.\<close>

lemma sfold_invariant:
  assumes "sfold f xs s = Inr t" and "P s"
    and "\<And>x s t. x \<in> set xs \<Longrightarrow> P s \<Longrightarrow> f x s = Inr t \<Longrightarrow> P t"
  shows "P t"
  using assms
proof (induction xs arbitrary: s)
  case Nil
  then show ?case by simp
next
  case (Cons x xs)
  from Cons.prems(1) obtain s' where s': "f x s = Inr s'" "sfold f xs s' = Inr t"
    by (auto simp: sbind_simps)
  have "P s'" using Cons.prems(2,3) s'(1) by auto
  then show ?case using Cons.IH [OF s'(2)] Cons.prems(3) by (meson list.set_intros(2))
qed

section \<open>Fixed-width integers\<close>

definition is_i32 :: "int \<Rightarrow> bool" where
  [rng_simps]: "is_i32 v \<longleftrightarrow> - (2 ^ 31) \<le> v \<and> v < 2 ^ 31"

definition is_i64 :: "int \<Rightarrow> bool" where
  [rng_simps]: "is_i64 v \<longleftrightarrow> - (2 ^ 63) \<le> v \<and> v < 2 ^ 63"

text \<open>The value an \<^verbatim>\<open>int64_t\<close> holds after a computation whose exact result is \<open>v\<close>.\<close>

definition i64 :: "int \<Rightarrow> int" where
  "i64 v = signed_take_bit 63 v"

lemma i64_id [simp]: "is_i64 v \<Longrightarrow> i64 v = v"
  by (simp add: i64_def is_i64_def signed_take_bit_int_eq_self)

lemma is_i64_i64 [simp]: "is_i64 (i64 v)"
  unfolding i64_def is_i64_def
  using signed_take_bit_int_greater_eq_minus_exp [of 63 v] signed_take_bit_int_less_exp [of 63 v]
  by simp

text \<open>The value an \<^verbatim>\<open>int\<close> holds after a computation whose exact result is \<open>v\<close>.\<close>

definition i32 :: "int \<Rightarrow> int" where
  "i32 v = signed_take_bit 31 v"

lemma i32_id [simp]: "is_i32 v \<Longrightarrow> i32 v = v"
  by (simp add: i32_def is_i32_def signed_take_bit_int_eq_self)

lemma i32_mod: "i32 v = i32 w \<longleftrightarrow> v mod 2 ^ 32 = w mod 2 ^ 32"
  unfolding i32_def signed_take_bit_eq_iff_take_bit_eq by (simp add: take_bit_eq_mod)

lemma i32_succ [simp]: "i32 (i32 v + 1) = i32 (v + 1)"
  and i32_pred [simp]: "i32 (i32 v - 1) = i32 (v - 1)"
proof -
  have "i32 v mod 2 ^ 32 = v mod 2 ^ 32"
    using i32_mod [of "i32 v" v] by (simp add: i32_def)
  then show "i32 (i32 v + 1) = i32 (v + 1)" "i32 (i32 v - 1) = i32 (v - 1)"
    unfolding i32_mod by (metis mod_add_left_eq, metis mod_diff_left_eq)
qed

lemma i32_succ' [simp]: "i32 (1 + i32 v) = i32 (1 + v)"
  using i32_succ [of v] by (simp only: add.commute)

lemma i32_small [simp]: "i32 0 = 0" "i32 1 = 1"
  by (simp_all add: is_i32_def)

lemma i32_eq_0: "i32 v = 0 \<Longrightarrow> 0 \<le> v \<Longrightarrow> v < 2 ^ 32 \<Longrightarrow> v = 0"
  using i32_mod [of v 0] by (simp add: i32_def)

lemma is_i32_is_i64: "is_i32 v \<Longrightarrow> is_i64 v"
  by (simp add: rng_simps)

section \<open>Rounding an integer to a significand of \<open>p\<close> bits\<close>

text \<open>
  The conversion of an integer to a binary floating-point format with a \<open>p\<close>-bit
  significand, rounding to nearest with ties to even: \<open>p = 53\<close> is \<^verbatim>\<open>double\<close>,
  \<open>p = 64\<close> the extended \<^verbatim>\<open>long double\<close> of x86. The exponent range is not modelled:
  the values rounded here are below \<open>2 ^ 127\<close> in magnitude.
\<close>

definition round_bits :: "nat \<Rightarrow> int \<Rightarrow> int" where
  "round_bits p x =
     (let a = \<bar>x\<bar>; e = nat (bitlen a) - p; q = a div 2 ^ e; r = a mod 2 ^ e;
          up = (e > 0 \<and> (2 ^ (e - 1) < r \<or> (r = 2 ^ (e - 1) \<and> odd q)))
      in sgn x * ((if up then q + 1 else q) * 2 ^ e))"

lemma round_bits_small:
  assumes "\<bar>x\<bar> < 2 ^ p"
  shows "round_bits p x = x"
proof -
  have "nat (bitlen \<bar>x\<bar>) - p = 0"
    using assms bitlen_le_iff_power [of "\<bar>x\<bar>" "int p"] by (simp add: nat_le_iff)
  then show ?thesis by (simp add: round_bits_def mult_sgn_abs)
qed

lemma round_bits_exp:
  assumes "0 < p"
  shows "round_bits p (2 ^ p) = 2 ^ p" and "round_bits p (- (2 ^ p)) = - (2 ^ p)"
proof -
  obtain k where p: "p = Suc k" using assms by (cases p) auto
  have "bitlen (2 ^ p + 0) = int (p + 1)" by (rule bitlen_twopow_add_eq) simp_all
  then have e: "nat (bitlen (2 ^ p)) - p = 1" by simp
  then show "round_bits p (2 ^ p) = 2 ^ p" and "round_bits p (- (2 ^ p)) = - (2 ^ p)"
    unfolding round_bits_def abs_minus_cancel abs_power2 Let_def
    by (simp_all add: power_abs e) (simp_all add: p)
qed

text \<open>Every integer up to \<open>2 ^ p\<close> in magnitude is represented exactly.\<close>

lemma round_bits_exact:
  assumes "0 < p" "\<bar>x\<bar> \<le> 2 ^ p"
  shows "round_bits p x = x"
proof -
  consider "\<bar>x\<bar> < 2 ^ p" | "x = 2 ^ p" | "x = - (2 ^ p)"
    using assms(2) by linarith
  then show ?thesis
    using round_bits_small [of x p] round_bits_exp [OF assms(1)] by cases simp_all
qed

text \<open>Rounding never brings a value beyond \<open>2 ^ p\<close> back below it.\<close>

lemma round_bits_large:
  assumes "2 ^ p \<le> x" "0 < p" shows "2 ^ p \<le> round_bits p x"
proof -
  have pos: "0 < x" using assms(1) by (smt (verit) zero_less_power)
  define e where "e = nat (bitlen x) - p"
  have b: "2 ^ (nat (bitlen x) - 1) \<le> x"
  proof -
    have "nat (bitlen x - 1) = nat (bitlen x) - 1" by linarith
    then show ?thesis using bitlen_bounds [OF pos] by simp
  qed
  have "int p + 1 \<le> bitlen x"
    using assms(1) by (simp add: bitlen_ge_iff_power nat_add_distrib)
  then have pe: "p \<le> nat (bitlen x) - 1" and ep: "e \<le> nat (bitlen x) - 1"
    using assms(2) by (simp_all add: e_def)
  have split: "(2::int) ^ (nat (bitlen x) - 1) = 2 ^ (nat (bitlen x) - 1 - e) * 2 ^ e"
    using ep by (simp add: power_add [symmetric])
  with b have "2 ^ (nat (bitlen x) - 1 - e) * 2 ^ e \<le> x" by simp
  then have "2 ^ (nat (bitlen x) - 1 - e) \<le> x div 2 ^ e"
    using zdiv_mono1 [of "2 ^ (nat (bitlen x) - 1 - e) * 2 ^ e" x "2 ^ e"] by simp
  then have "2 ^ (nat (bitlen x) - 1 - e) * 2 ^ e \<le> x div 2 ^ e * 2 ^ e"
    by (rule mult_right_mono) simp
  then have "(2::int) ^ (nat (bitlen x) - 1) \<le> x div 2 ^ e * 2 ^ e"
    by (simp only: split)
  moreover have "(2::int) ^ p \<le> 2 ^ (nat (bitlen x) - 1)"
    using pe by (simp add: power_increasing)
  moreover have "x div 2 ^ e * 2 ^ e \<le> round_bits p x"
    using pos by (simp add: round_bits_def e_def Let_def)
  ultimately show ?thesis by linarith
qed

lemma round_bits_minus: "round_bits p (- x) = - round_bits p x"
  by (simp add: round_bits_def Let_def)

section \<open>Decimal text\<close>

text \<open>
  \<^verbatim>\<open>std::to_string\<close> on integers: the decimal digits, most significant first, with a
  minus sign in front of a negative number.
\<close>

definition digit_char :: "nat \<Rightarrow> char" where
  "digit_char d = char_of (48 + d)"

fun show_nat :: "nat \<Rightarrow> string" where
  "show_nat n = (if n < 10 then [digit_char n] else show_nat (n div 10) @ [digit_char (n mod 10)])"

declare show_nat.simps [simp del]

definition to_string :: "int \<Rightarrow> string" where
  "to_string v = (if v < 0 then CHR ''-'' # show_nat (nat (- v)) else show_nat (nat v))"

definition read_nat :: "string \<Rightarrow> nat" where
  "read_nat = foldl (\<lambda>n c. 10 * n + (of_char c - 48)) 0"

lemma of_char_digit: "d < 10 \<Longrightarrow> of_char (digit_char d) = (48 + d :: nat)"
  by (simp add: digit_char_def)

lemma read_show_nat: "read_nat (show_nat n) = n"
proof (induction n rule: show_nat.induct)
  case (1 n)
  show ?case
  proof (cases "n < 10")
    case True
    then show ?thesis by (subst show_nat.simps) (simp add: read_nat_def of_char_digit)
  next
    case False
    with 1 have "read_nat (show_nat (n div 10)) = n div 10" by simp
    then show ?thesis using False
      by (subst show_nat.simps) (simp add: read_nat_def of_char_digit)
  qed
qed

lemma show_nat_digits: "c \<in> set (show_nat n) \<Longrightarrow> \<exists>d<10. c = digit_char d"
proof (induction n rule: show_nat.induct)
  case (1 n)
  show ?case
  proof (cases "n < 10")
    case True
    then show ?thesis using 1(2) by (subst (asm) show_nat.simps) auto
  next
    case False
    have "n mod 10 < 10" by simp
    then show ?thesis using 1 False by (subst (asm) (2) show_nat.simps) fastforce
  qed
qed

lemma digit_not_minus: "d < 10 \<Longrightarrow> digit_char d \<noteq> CHR ''-''"
proof
  assume d: "d < 10" and "digit_char d = CHR ''-''"
  then have "of_char (digit_char d) = (45 :: nat)" by simp
  then show False using of_char_digit [OF d] by simp
qed

lemma show_nat_inject [simp]: "show_nat m = show_nat n \<longleftrightarrow> m = n"
  by (metis read_show_nat)

lemma show_nat_not_minus: "show_nat n \<noteq> CHR ''-'' # s"
  using show_nat_digits [of "CHR ''-''" n] digit_not_minus by force

lemma to_string_inject [simp]: "to_string v = to_string w \<longleftrightarrow> v = w"
  using show_nat_not_minus by (auto simp: to_string_def) metis+

section \<open>Lists\<close>

lemma map_idI2: "(\<And>x. x \<in> set xs \<Longrightarrow> f x = x) \<Longrightarrow> map f xs = xs"
  by (induction xs) auto

lemma concat_map_single: "(\<And>x. x \<in> set xs \<Longrightarrow> f x = [x]) \<Longrightarrow> concat (map f xs) = xs"
  by (induction xs) auto

lemma list_all2_list_all_imp:
  "list_all2 Q xs ys \<Longrightarrow> (\<And>x y. Q x y \<Longrightarrow> p x \<Longrightarrow> p y) \<Longrightarrow> list_all p xs \<Longrightarrow> list_all p ys"
  by (induction rule: list_all2_induct) auto

lemma list_all2_list_all_right:
  "list_all2 Q xs ys \<Longrightarrow> (\<And>x y. Q x y \<Longrightarrow> p y) \<Longrightarrow> list_all p ys"
  by (induction rule: list_all2_induct) auto

lemma list_update_numeral [simp]: "(x # xs)[numeral v := y] = x # xs[pred_numeral v := y]"
  by (simp add: numeral_eq_Suc)

lemma list_all_concat_map:
  "list_all p (concat (map g xs)) \<longleftrightarrow> list_all (\<lambda>x. list_all p (g x)) xs"
  by (induction xs) auto

section \<open>Text\<close>

text \<open>A loop that writes a separator before every element but the first.\<close>

fun join_with :: "string \<Rightarrow> string list \<Rightarrow> string" where
  "join_with sep [] = []"
| "join_with sep [x] = x"
| "join_with sep (x # y # xs) = x @ sep @ join_with sep (y # xs)"

end
