(* ===== verification/Base_Device.thy ===== *)
theory Base_Device
  imports Prelude
begin

text \<open>
  Devices, targets and virtual devices: \<^verbatim>\<open>src/base/device.cc\<close>, \<^verbatim>\<open>include/base/device_api.h\<close>,
  \<^verbatim>\<open>src/base/target.cc\<close> and \<^verbatim>\<open>src/base/virtual_device.cc\<close>. A thrown
  \<^verbatim>\<open>std::runtime_error\<close> is the value \<open>Inl (RuntimeError message)\<close>.

  Devices and targets are compared by their fields everywhere in the source, so they are
  values. A virtual device is also compared by address, when it is the key of a map; it
  carries the address of its node.
\<close>

text \<open>
  \<open>OutOfRange\<close> is a read past the end of a container and \<open>DivisionByZero\<close> an integer division by
  zero. \<open>NoFuel\<close> is the value of a recursion cut short by its bound; no whole call returns it.
\<close>

datatype cpp_error = RuntimeError string | OutOfRange | DivisionByZero | NoFuel

type_synonym 'a res = "cpp_error + 'a"

abbreviation throw :: "string \<Rightarrow> 'a res" where
  "throw msg \<equiv> Inl (RuntimeError msg)"

section \<open>Devices\<close>

text \<open>The type code is an \<^verbatim>\<open>int\<close>: a device read from a file can have any code.\<close>

record Device =
  dev_type :: int
  dev_id :: int

definition kCPU :: int where "kCPU = 0"
definition kGPU :: int where "kGPU = 1"
definition kOpenCL :: int where "kOpenCL = 2"
definition kMetal :: int where "kMetal = 3"
definition kUnknown :: int where "kUnknown = 99"

definition DeviceToString :: "Device \<Rightarrow> string" where
  "DeviceToString d =
     ''Device('' @
     (if dev_type d = kCPU then ''CPU'' else if dev_type d = kGPU then ''GPU''
      else if dev_type d = kOpenCL then ''OpenCL'' else if dev_type d = kMetal then ''Metal''
      else if dev_type d = kUnknown then ''Unknown'' else '''') @
     '', id='' @ to_string (dev_id d) @ '')''"

text \<open>
  The device manager holds one device object per type and number; an entry is the address of
  the object and its contents, and \<open>p\<close> is the address of a new object.
\<close>

type_synonym DeviceManager = "(string \<times> nat \<times> Device) list"

definition GetOrCreate ::
  "nat \<Rightarrow> int \<Rightarrow> int \<Rightarrow> DeviceManager \<Rightarrow> (nat \<times> Device) \<times> DeviceManager" where
  "GetOrCreate p type_code i devices =
     (let key = to_string type_code @ ''_'' @ to_string i in
      case map_of devices key of
        Some obj \<Rightarrow> (obj, devices)
      | None \<Rightarrow>
          let obj = (p, \<lparr>dev_type = type_code, dev_id = i\<rparr>) in (obj, (key, obj) # devices))"

record DeviceAttributes =
  da_exists :: int
  da_max_threads_per_block :: int
  da_warp_size :: int
  da_max_shared_memory_per_block :: int
  da_compute_version :: string
  da_device_name :: string
  da_max_clock_rate_khz :: int
  da_max_registers_per_block :: int
  da_api_version :: int
  da_driver_version :: int
  da_l2_cache_size_bytes :: int
  da_total_global_memory :: int
  da_available_global_memory :: int
  da_max_shared_memory_per_multiprocessor :: int
  da_max_registers_per_multiprocessor :: int
  da_max_threads_per_multiprocessor :: int
  da_compute_version_major :: int
  da_compute_version_minor :: int
  da_multi_processor_count :: int
  da_arch :: string

definition default_attributes :: DeviceAttributes where
  "default_attributes = \<lparr>da_exists = 0, da_max_threads_per_block = 1, da_warp_size = 1,
     da_max_shared_memory_per_block = 0, da_compute_version = ''0.0'', da_device_name = '''',
     da_max_clock_rate_khz = 0, da_max_registers_per_block = 0, da_api_version = 0,
     da_driver_version = 0, da_l2_cache_size_bytes = 0, da_total_global_memory = 0,
     da_available_global_memory = 0, da_max_shared_memory_per_multiprocessor = 0,
     da_max_registers_per_multiprocessor = 0, da_max_threads_per_multiprocessor = 0,
     da_compute_version_major = 0, da_compute_version_minor = 0, da_multi_processor_count = 1,
     da_arch = ''''\<rparr>"

section \<open>Targets\<close>

record Target =
  tgt_kind :: string
  tgt_device_type :: int
  tgt_device_id :: int
  tgt_attrs :: DeviceAttributes

definition TargetToString :: "Target option \<Rightarrow> string" where
  "TargetToString t =
     (case t of
        None \<Rightarrow> ''Target(undefined)''
      | Some n \<Rightarrow> ''Target(kind='' @ tgt_kind n @ '', device_type='' @ to_string (tgt_device_type n) @
          '', device_id='' @ to_string (tgt_device_id n) @ '', arch='' @ da_arch (tgt_attrs n) @
          '', compute_version='' @ da_compute_version (tgt_attrs n) @
          '', max_threads='' @ to_string (da_max_threads_per_block (tgt_attrs n)) @
          '', warp_size='' @ to_string (da_warp_size (tgt_attrs n)) @
          '', shared_mem='' @ to_string (da_max_shared_memory_per_block (tgt_attrs n)) @ '')'')"

text \<open>
  What the backend of a device answers, its target kind and its attributes, or the exception
  it throws, is a parameter \<open>api\<close>: the attributes are read from the hardware.
\<close>

type_synonym device_api = "Device \<Rightarrow> (string \<times> DeviceAttributes) res"

definition BuildTarget :: "device_api \<Rightarrow> Device \<Rightarrow> Target res" where
  "BuildTarget api device =
     sbind (api device) (\<lambda>(kind, ats).
       Inr \<lparr>tgt_kind = kind, tgt_device_type = dev_type device, tgt_device_id = dev_id device,
            tgt_attrs = ats\<rparr>)"

section \<open>Virtual devices\<close>

record VirtualDevice =
  vd_ptr :: nat
  vd_device_obj :: "Device option"
  vd_target :: "Target option"
  vd_memory_scope :: string
  vd_id :: int

definition kInvalidVirtualDeviceId :: int where
  "kInvalidVirtualDeviceId = -1"

definition ValidateTargetDevicePair :: "Device option \<Rightarrow> Target option \<Rightarrow> unit res" where
  "ValidateTargetDevicePair device_obj target =
     (case (device_obj, target) of
        (Some dev, Some t) \<Rightarrow>
          if tgt_device_type t \<noteq> kUnknown \<and> tgt_device_type t \<noteq> dev_type dev
          then throw ''VirtualDevice device/target mismatch in device_type''
          else if tgt_device_id t \<ge> 0 \<and> tgt_device_id t \<noteq> dev_id dev
          then throw ''VirtualDevice device/target mismatch in device_id''
          else Inr ()
      | _ \<Rightarrow> Inr ())"

text \<open>The two constructors; \<open>p\<close> is the address of the new node.\<close>

definition VirtualDevice_device ::
  "nat \<Rightarrow> Device \<Rightarrow> Target option \<Rightarrow> string \<Rightarrow> int \<Rightarrow> VirtualDevice res" where
  "VirtualDevice_device p device target memory_scope virtual_device_id =
     sbind (ValidateTargetDevicePair (Some device) target) (\<lambda>_.
       Inr \<lparr>vd_ptr = p, vd_device_obj = Some device, vd_target = target,
            vd_memory_scope = memory_scope,
            vd_id = (if virtual_device_id = kInvalidVirtualDeviceId then dev_id device
                     else virtual_device_id)\<rparr>)"

definition VirtualDevice_target :: "nat \<Rightarrow> Target option \<Rightarrow> string \<Rightarrow> int \<Rightarrow> VirtualDevice" where
  "VirtualDevice_target p target memory_scope virtual_device_id =
     \<lparr>vd_ptr = p, vd_device_obj = None, vd_target = target, vd_memory_scope = memory_scope,
      vd_id = (case target of
          Some t \<Rightarrow> if virtual_device_id = kInvalidVirtualDeviceId then tgt_device_id t
                    else virtual_device_id
        | None \<Rightarrow> virtual_device_id)\<rparr>"

definition FullyUnconstrained :: "nat \<Rightarrow> VirtualDevice" where
  "FullyUnconstrained p = \<lparr>vd_ptr = p, vd_device_obj = None, vd_target = None,
     vd_memory_scope = '''', vd_id = kInvalidVirtualDeviceId\<rparr>"

definition ForDevice :: "nat \<Rightarrow> Device \<Rightarrow> VirtualDevice res" where
  "ForDevice p device = VirtualDevice_device p device None '''' (dev_id device)"

definition ForTarget :: "nat \<Rightarrow> Target option \<Rightarrow> VirtualDevice" where
  "ForTarget p target = VirtualDevice_target p target ''''
     (case target of Some t \<Rightarrow> tgt_device_id t | None \<Rightarrow> kInvalidVirtualDeviceId)"

definition ForDeviceAndTarget :: "nat \<Rightarrow> Device \<Rightarrow> Target option \<Rightarrow> VirtualDevice res" where
  "ForDeviceAndTarget p device target = VirtualDevice_device p device target '''' (dev_id device)"

definition IsFullyUnconstrained :: "VirtualDevice option \<Rightarrow> bool" where
  "IsFullyUnconstrained vd =
     (case vd of None \<Rightarrow> True
      | Some n \<Rightarrow> vd_device_obj n = None \<and> vd_target n = None \<and> vd_memory_scope n = '''' \<and>
          vd_id n = kInvalidVirtualDeviceId)"

definition IsFullyConstrained :: "VirtualDevice option \<Rightarrow> bool" where
  "IsFullyConstrained vd =
     (case vd of None \<Rightarrow> False
      | Some n \<Rightarrow> vd_device_obj n \<noteq> None \<and> vd_target n \<noteq> None \<and>
          vd_id n \<noteq> kInvalidVirtualDeviceId)"

definition VirtualDeviceToString :: "VirtualDevice option \<Rightarrow> string" where
  "VirtualDeviceToString vd =
     (case vd of
        None \<Rightarrow> ''VirtualDevice(undefined)''
      | Some n \<Rightarrow>
          ''VirtualDevice('' @
          (case vd_device_obj n of Some d \<Rightarrow> DeviceToString d | None \<Rightarrow> ''device=none'') @
          '', target='' @
          (case vd_target n of Some t \<Rightarrow> TargetToString (Some t) | None \<Rightarrow> ''none'') @
          '', memory_scope='' @
          (if vd_memory_scope n = '''' then [CHR 0x22, CHR 0x22] else vd_memory_scope n) @
          '', virtual_device_id='' @ to_string (vd_id n) @ '')'')"

end
