(* ===== verification/Disco_Placement.thy ===== *)
theory Disco_Placement
  imports Base_Device "HOL-Library.AList"
begin

text \<open>
  The placement of virtual devices on workers: \<^verbatim>\<open>src/base/disco_placement.cc\<close>. Two virtual
  devices share a worker when their identity strings are equal; a table keyed by the address
  of a virtual device shortcuts the search.
\<close>

section \<open>Identity\<close>

definition VirtualDeviceIdentity :: "VirtualDevice option \<Rightarrow> string" where
  "VirtualDeviceIdentity vd =
     (case vd of
        None \<Rightarrow> ''virtual_device:undefined''
      | Some n \<Rightarrow>
          ''virtual_device:'' @
          (case vd_device_obj n of
             Some d \<Rightarrow> ''dev('' @ to_string (dev_type d) @ '','' @ to_string (dev_id d) @ '')''
           | None \<Rightarrow> ''dev(none)'') @
          (case vd_target n of
             Some t \<Rightarrow> ''target('' @ to_string (tgt_device_type t) @ '','' @
               to_string (tgt_device_id t) @ '','' @ tgt_kind t @ '')''
           | None \<Rightarrow> ''target(none)'') @
          ''scope('' @ vd_memory_scope n @ '')'' @
          ''vdid('' @ to_string (vd_id n) @ '')'')"

section \<open>Placements\<close>

record WorkerPlacement =
  worker_id :: int
  group_id :: int
  local_rank :: int
  wp_device :: "Device option"
  wp_target :: "Target option"
  wp_virtual_device :: "VirtualDevice option"

definition WorkerPlacementToString :: "WorkerPlacement option \<Rightarrow> string" where
  "WorkerPlacementToString w =
     (case w of
        None \<Rightarrow> ''WorkerPlacement(undefined)''
      | Some n \<Rightarrow>
          ''WorkerPlacement(worker='' @ to_string (worker_id n) @ '', group='' @ to_string (group_id n) @
          '', local_rank='' @ to_string (local_rank n) @
          (case wp_target n of Some t \<Rightarrow> '', target='' @ TargetToString (Some t) | None \<Rightarrow> '''') @
          (case wp_virtual_device n of
             Some vd \<Rightarrow> '', virtual_device='' @ VirtualDeviceToString (Some vd) | None \<Rightarrow> '''') @ '')'')"

text \<open>The table \<open>vd_to_worker\<close> is keyed by addresses of virtual devices.\<close>

record DiscoPlacement =
  placement_workers :: "WorkerPlacement option list"
  vd_to_worker :: "(nat \<times> int) list"
  num_groups :: int

definition DiscoPlacement_new ::
  "WorkerPlacement option list \<Rightarrow> (nat \<times> int) list \<Rightarrow> int \<Rightarrow> DiscoPlacement" where
  "DiscoPlacement_new ws table groups =
     \<lparr>placement_workers = ws, vd_to_worker = table, num_groups = (if groups > 0 then groups else 1)\<rparr>"

definition DiscoPlacementToString :: "DiscoPlacement option \<Rightarrow> string" where
  "DiscoPlacementToString p =
     (case p of
        None \<Rightarrow> ''DiscoPlacement(undefined)''
      | Some n \<Rightarrow> ''DiscoPlacement(num_workers='' @ show_nat (length (placement_workers n)) @
          '', num_groups='' @ to_string (num_groups n) @ '')'')"

fun find_identity :: "string \<Rightarrow> WorkerPlacement option list \<Rightarrow> int" where
  "find_identity key [] = -1"
| "find_identity key (w # ws) =
     (case w of
        None \<Rightarrow> find_identity key ws
      | Some wp \<Rightarrow>
          if wp_virtual_device wp = None then find_identity key ws
          else if VirtualDeviceIdentity (wp_virtual_device wp) = key then worker_id wp
          else find_identity key ws)"

definition FindWorker :: "DiscoPlacement \<Rightarrow> VirtualDevice option \<Rightarrow> int" where
  "FindWorker p virtual_device =
     (case virtual_device of
        None \<Rightarrow> -1
      | Some vd \<Rightarrow>
          (case map_of (vd_to_worker p) (vd_ptr vd) of
             Some w \<Rightarrow> w
           | None \<Rightarrow> find_identity (VirtualDeviceIdentity (Some vd)) (placement_workers p)))"

definition FindWorkerForVirtualDevice :: "DiscoPlacement option \<Rightarrow> VirtualDevice option \<Rightarrow> int" where
  "FindWorkerForVirtualDevice placement vd =
     (case placement of None \<Rightarrow> -1 | Some p \<Rightarrow> FindWorker p vd)"

text \<open>
  One virtual device of \<^verbatim>\<open>BuildDiscoPlacement\<close>; the state holds the workers, the table by
  address, the table by identity and the next worker id.
\<close>

type_synonym build_state =
  "WorkerPlacement option list \<times> (nat \<times> int) list \<times> (string \<times> int) list \<times> int"

definition place_device :: "device_api \<Rightarrow> VirtualDevice option \<Rightarrow> build_state \<Rightarrow> build_state res" where
  "place_device api vd_ref = (\<lambda>(ws, table, key_to_worker, next_worker_id).
     case vd_ref of
       None \<Rightarrow> Inr (ws, table, key_to_worker, next_worker_id)
     | Some vd \<Rightarrow>
         let key = VirtualDeviceIdentity (Some vd) in
         (case map_of key_to_worker key of
            Some w \<Rightarrow> Inr (ws, AList.update (vd_ptr vd) w table, key_to_worker, next_worker_id)
          | None \<Rightarrow>
              sbind (case (vd_target vd, vd_device_obj vd) of
                       (None, Some dev) \<Rightarrow> sbind (BuildTarget api dev) (\<lambda>t. Inr (Some t))
                     | (t, _) \<Rightarrow> Inr t) (\<lambda>target.
              Inr (ws @ [Some \<lparr>worker_id = next_worker_id, group_id = 0,
                               local_rank = next_worker_id, wp_device = vd_device_obj vd,
                               wp_target = target, wp_virtual_device = Some vd\<rparr>],
                   AList.update (vd_ptr vd) next_worker_id table,
                   (key, next_worker_id) # key_to_worker, next_worker_id + 1))))"

definition BuildDiscoPlacement ::
  "device_api \<Rightarrow> VirtualDevice option list \<Rightarrow> int \<Rightarrow> DiscoPlacement res" where
  "BuildDiscoPlacement api virtual_devices groups =
     sbind (sfold (place_device api) virtual_devices ([], [], [], 0)) (\<lambda>(ws, table, _, _).
       Inr (DiscoPlacement_new ws table groups))"

section \<open>The workers of a built placement\<close>

text \<open>Addresses identify virtual devices.\<close>

definition same_ptr_same :: "VirtualDevice option list \<Rightarrow> bool" where
  "same_ptr_same vds \<longleftrightarrow>
     (\<forall>a b. Some a \<in> set vds \<longrightarrow> Some b \<in> set vds \<longrightarrow> vd_ptr a = vd_ptr b \<longrightarrow> a = b)"

text \<open>The identity of the device of a worker, and the identities in the order of the workers.\<close>

definition identity_of :: "WorkerPlacement option \<Rightarrow> string" where
  "identity_of w = (case w of None \<Rightarrow> [] | Some wp \<Rightarrow> VirtualDeviceIdentity (wp_virtual_device wp))"

definition placed :: "VirtualDevice option list \<Rightarrow> build_state \<Rightarrow> bool" where
  "placed done = (\<lambda>(ws, table, keys, n).
     n = int (length ws) \<and> distinct (map identity_of ws) \<and>
     (\<forall>i < length ws. \<exists>wp. ws ! i = Some wp \<and> worker_id wp = int i \<and> wp_virtual_device wp \<noteq> None \<and>
        wp_virtual_device wp \<in> set done) \<and>
     (\<forall>key w. map_of keys key = Some w \<longleftrightarrow> (\<exists>i < length ws. w = int i \<and> identity_of (ws ! i) = key)) \<and>
     (\<forall>vd. Some vd \<in> set done \<longrightarrow>
        (\<exists>i < length ws. identity_of (ws ! i) = VirtualDeviceIdentity (Some vd) \<and>
           map_of table (vd_ptr vd) = Some (int i))) \<and>
     (\<forall>p w. map_of table p = Some w \<longrightarrow> (\<exists>vd. Some vd \<in> set done \<and> vd_ptr vd = p)))"

lemma placed_table:
  "placed done (ws, table, keys, n) \<Longrightarrow> Some vd \<in> set done \<Longrightarrow>
     \<exists>i < length ws. identity_of (ws ! i) = VirtualDeviceIdentity (Some vd) \<and>
       map_of table (vd_ptr vd) = Some (int i)"
  by (simp add: placed_def)

lemma placed_table_only:
  assumes "placed done (ws, table, keys, n)" "\<forall>d. Some d \<in> set done \<longrightarrow> vd_ptr d \<noteq> q"
  shows "map_of table q = None"
proof (rule ccontr)
  assume "map_of table q \<noteq> None"
  then obtain w where "map_of table q = Some w" by blast
  moreover have "\<forall>p w. map_of table p = Some w \<longrightarrow> (\<exists>vd. Some vd \<in> set done \<and> vd_ptr vd = p)"
    using assms(1) by (simp add: placed_def)
  ultimately show False using assms(2) by blast
qed

lemma find_identity_nth:
  assumes "\<And>i. i < length ws \<Longrightarrow> \<exists>wp. ws ! i = Some wp \<and> worker_id wp = int (k + i) \<and> wp_virtual_device wp \<noteq> None"
  shows "(\<forall>i < length ws. identity_of (ws ! i) = key \<longrightarrow> (\<forall>j < i. identity_of (ws ! j) \<noteq> key) \<longrightarrow>
            find_identity key ws = int (k + i)) \<and>
         ((\<forall>i < length ws. identity_of (ws ! i) \<noteq> key) \<longrightarrow> find_identity key ws = -1)"
  using assms
proof (induction ws arbitrary: k)
  case (Cons w ws)
  obtain wp where wp: "w = Some wp" "worker_id wp = int k" "wp_virtual_device wp \<noteq> None"
    using Cons.prems [of 0] by auto
  have "\<exists>wp. ws ! i = Some wp \<and> worker_id wp = int (Suc k + i) \<and> wp_virtual_device wp \<noteq> None"
    if "i < length ws" for i
    using Cons.prems [of "Suc i"] that by simp
  note ih = Cons.IH [of "Suc k", OF this]
  show ?case
  proof (intro conjI allI impI)
    fix i assume i: "i < length (w # ws)" "identity_of ((w # ws) ! i) = key"
      "\<forall>j < i. identity_of ((w # ws) ! j) \<noteq> key"
    show "find_identity key (w # ws) = int (k + i)"
    proof (cases i)
      case 0
      then show ?thesis using i wp by (auto simp: identity_of_def)
    next
      case (Suc m)
      have "identity_of w \<noteq> key" using i(3) Suc by force
      moreover have "\<forall>j < m. identity_of (ws ! j) \<noteq> key" using i(3) Suc by force
      then have "find_identity key ws = int (Suc k + m)" using ih i Suc by simp
      ultimately show ?thesis using wp Suc by (simp add: identity_of_def)
    qed
  next
    assume n: "\<forall>i < length (w # ws). identity_of ((w # ws) ! i) \<noteq> key"
    then have "identity_of w \<noteq> key" "\<forall>i < length ws. identity_of (ws ! i) \<noteq> key" by force+
    then show "find_identity key (w # ws) = -1" using ih wp by (simp add: identity_of_def)
  qed
qed simp

lemma placed_seen:
  assumes "placed done (ws, table, keys, n)" "map_of keys (VirtualDeviceIdentity (Some vd)) = Some w"
    and "same_ptr_same (done @ [Some vd])"
  shows "placed (done @ [Some vd]) (ws, AList.update (vd_ptr vd) w table, keys, n)"
proof -
  obtain i where i: "i < length ws" "w = int i" "identity_of (ws ! i) = VirtualDeviceIdentity (Some vd)"
    using assms(1,2) by (auto simp: placed_def)
  have "\<exists>j < length ws. identity_of (ws ! j) = VirtualDeviceIdentity (Some d) \<and>
      map_of (AList.update (vd_ptr vd) w table) (vd_ptr d) = Some (int j)"
    if "Some d \<in> set (done @ [Some vd])" for d
  proof (cases "vd_ptr d = vd_ptr vd")
    case True
    then have "d = vd" using assms(3) that unfolding same_ptr_same_def by force
    then show ?thesis using i by (auto simp: update_conv')
  next
    case False
    then have "Some d \<in> set done" using that by auto
    then show ?thesis using assms(1) False by (auto simp: placed_def update_conv')
  qed
  moreover have "\<exists>d. Some d \<in> set (done @ [Some vd]) \<and> vd_ptr d = q"
    if "map_of (AList.update (vd_ptr vd) w table) q = Some v" for q v
    using that assms(1) by (cases "q = vd_ptr vd") (auto simp: placed_def update_conv')
  ultimately show ?thesis using assms(1) unfolding placed_def by auto
qed

lemma placed_new:
  assumes "placed done (ws, table, keys, n)" "map_of keys (VirtualDeviceIdentity (Some vd)) = None"
    and "same_ptr_same (done @ [Some vd])" "wp_virtual_device wp = Some vd" "worker_id wp = n"
  shows "placed (done @ [Some vd]) (ws @ [Some wp], AList.update (vd_ptr vd) n table,
    (VirtualDeviceIdentity (Some vd), n) # keys, n + 1)"
proof -
  let ?id = "VirtualDeviceIdentity (Some vd)" and ?ws = "ws @ [Some wp]"
  have n: "n = int (length ws)" and dist: "distinct (map identity_of ws)"
    and keys: "map_of keys key = Some w \<longleftrightarrow> (\<exists>i < length ws. w = int i \<and> identity_of (ws ! i) = key)" for key w
    using assms(1) by (auto simp: placed_def)
  have new: "identity_of w \<noteq> ?id" if "w \<in> set ws" for w
    using keys [of ?id] assms(2) that by (metis in_set_conv_nth option.distinct(1))
  have id: "identity_of (Some wp) = ?id" using assms(4) by (simp add: identity_of_def)
  have "?id \<notin> identity_of ` set ws" using new by (metis imageE)
  then have "distinct (map identity_of ?ws)" using dist id by simp
  moreover have "\<exists>wp. ?ws ! i = Some wp \<and> worker_id wp = int i \<and> wp_virtual_device wp \<noteq> None \<and>
      wp_virtual_device wp \<in> set (done @ [Some vd])" if "i < length ?ws" for i
  proof (cases "i < length ws")
    case True
    then show ?thesis using assms(1) by (force simp: placed_def nth_append)
  next
    case False
    then have "i = length ws" using that by simp
    then show ?thesis using assms(4,5) n by simp
  qed
  moreover have "map_of ((?id, n) # keys) key = Some w \<longleftrightarrow>
      (\<exists>i < length ?ws. w = int i \<and> identity_of (?ws ! i) = key)" for key w
  proof (cases "key = ?id")
    case True
    have "identity_of (?ws ! i) = ?id \<longleftrightarrow> i = length ws" if "i < length ?ws" for i
      using that new id by (cases "i < length ws") (auto simp: nth_append less_Suc_eq)
    then show ?thesis using True n by auto
  next
    case False
    have "(\<exists>i < length ?ws. w = int i \<and> identity_of (?ws ! i) = key) \<longleftrightarrow>
        (\<exists>i < length ws. w = int i \<and> identity_of (ws ! i) = key)"
      using False id by (auto simp: nth_append less_Suc_eq)
    then show ?thesis using False keys by simp
  qed
  moreover have "\<exists>j < length ?ws. identity_of (?ws ! j) = VirtualDeviceIdentity (Some d) \<and>
      map_of (AList.update (vd_ptr vd) n table) (vd_ptr d) = Some (int j)"
    if "Some d \<in> set (done @ [Some vd])" for d
  proof (cases "vd_ptr d = vd_ptr vd")
    case True
    then have "d = vd" using assms(3) that unfolding same_ptr_same_def by force
    then show ?thesis using id n by (intro exI [of _ "length ws"]) (simp add: update_conv')
  next
    case False
    then have "Some d \<in> set done" using that by auto
    then obtain j where "j < length ws" "identity_of (ws ! j) = VirtualDeviceIdentity (Some d)"
      "map_of table (vd_ptr d) = Some (int j)"
      using assms(1) unfolding placed_def by blast
    then show ?thesis using False by (intro exI [of _ j]) (simp add: update_conv' nth_append)
  qed
  moreover have "\<exists>d. Some d \<in> set (done @ [Some vd]) \<and> vd_ptr d = q"
    if "map_of (AList.update (vd_ptr vd) n table) q = Some v" for q v
    using that assms(1) by (cases "q = vd_ptr vd") (auto simp: placed_def update_conv')
  moreover have "n + 1 = int (length ?ws)" using n by simp
  ultimately show ?thesis unfolding placed_def prod.case by (intro conjI allI impI)
qed

lemma placed_None: "placed done s \<Longrightarrow> placed (done @ [None]) s"
  unfolding placed_def by (cases s) fastforce

lemma place_devices_placed:
  assumes "sfold (place_device api) vds s = Inr s'" "placed done s" "same_ptr_same (done @ vds)"
  shows "placed (done @ vds) s'"
  using assms
proof (induction vds arbitrary: s "done")
  case (Cons v vds)
  obtain ws table keys n where s: "s = (ws, table, keys, n)" by (cases s)
  have sub: "same_ptr_same (done @ [v])" using Cons.prems(3) unfolding same_ptr_same_def by auto
  obtain s1 where s1: "place_device api v s = Inr s1" "sfold (place_device api) vds s1 = Inr s'"
    using Cons.prems(1) by (auto simp: sbind_Inr_iff)
  have "placed (done @ [v]) s1"
  proof (cases v)
    case None
    then have "s1 = s" using s1(1) s by (simp add: place_device_def)
    then show ?thesis using None Cons.prems(2) placed_None by simp
  next
    case (Some vd)
    show ?thesis
    proof (cases "map_of keys (VirtualDeviceIdentity (Some vd))")
      case None
      then show ?thesis using s1(1) Some s Cons.prems(2) sub
        by (auto simp: place_device_def Let_def sbind_Inr_iff intro!: placed_new)
    next
      case (Some w)
      then show ?thesis using s1(1) \<open>v = Some vd\<close> s Cons.prems(2) sub
        by (auto simp: place_device_def Let_def intro!: placed_seen)
    qed
  qed
  then show ?case using Cons.IH [OF s1(2), of "done @ [v]"] Cons.prems(3) by simp
qed simp

text \<open>
C29. A placement BuildDiscoPlacement returns: its workers are numbered 0, 1, ... in order, no
two of them have a device of the same identity, and FindWorker answers for every placed
device, and for every other device object, the one worker whose device has the identity of
the argument, or -1 if there is none.
\<close>

theorem build_disco_placement_spec:
  assumes "BuildDiscoPlacement api vds groups = Inr p" "same_ptr_same vds"
    and "Some vd \<in> set vds \<or> (\<forall>d. Some d \<in> set vds \<longrightarrow> vd_ptr d \<noteq> vd_ptr vd)"
  shows "distinct (map identity_of (placement_workers p)) \<and>
    (\<forall>i < length (placement_workers p).
       \<exists>wp. placement_workers p ! i = Some wp \<and> worker_id wp = int i \<and>
         wp_virtual_device wp \<noteq> None \<and> wp_virtual_device wp \<in> set vds) \<and>
    (Some vd \<in> set vds \<longrightarrow> FindWorker p (Some vd) \<noteq> -1) \<and>
    (\<forall>i. FindWorker p (Some vd) = int i \<longleftrightarrow>
       i < length (placement_workers p) \<and>
       identity_of (placement_workers p ! i) = VirtualDeviceIdentity (Some vd)) \<and>
    FindWorker p (Some vd) \<ge> -1"
proof -
  let ?id = "VirtualDeviceIdentity (Some vd)"
  obtain ws table keys n where f: "sfold (place_device api) vds ([], [], [], 0) = Inr (ws, table, keys, n)"
    and p: "p = DiscoPlacement_new ws table groups"
    using assms(1) by (auto simp: BuildDiscoPlacement_def sbind_Inr_iff)
  have "placed [] ([], [], [], 0)" by (simp add: placed_def)
  from place_devices_placed [OF f this] have pl: "placed vds (ws, table, keys, n)"
    using assms(2) by simp
  then have dist: "distinct (map identity_of ws)"
    and w: "\<And>i. i < length ws \<Longrightarrow> \<exists>wp. ws ! i = Some wp \<and> worker_id wp = int i \<and>
      wp_virtual_device wp \<noteq> None \<and> wp_virtual_device wp \<in> set vds"
    by (auto simp: placed_def)
  have fields: "placement_workers p = ws" "vd_to_worker p = table" by (simp_all add: p DiscoPlacement_new_def)
  have "\<exists>wp. ws ! i = Some wp \<and> worker_id wp = int (0 + i) \<and> wp_virtual_device wp \<noteq> None"
    if "i < length ws" for i using w [OF that] by auto
  note search = find_identity_nth [of ws 0 ?id, OF this]
  have uniq: "i = j" if "i < length ws" "j < length ws" "identity_of (ws ! i) = identity_of (ws ! j)" for i j
    using dist that by (metis distinct_conv_nth length_map nth_map)
  have hit: "FindWorker p (Some vd) = int i" if i: "i < length ws" "identity_of (ws ! i) = ?id" for i
  proof (cases "Some vd \<in> set vds")
    case True
    then obtain j where "j < length ws" "identity_of (ws ! j) = ?id" "map_of table (vd_ptr vd) = Some (int j)"
      using placed_table [OF pl] by blast
    then show ?thesis using uniq [of i j] i by (simp add: FindWorker_def fields)
  next
    case False
    have "map_of table (vd_ptr vd) = None"
      using placed_table_only [OF pl] assms(3) False by blast
    moreover have "\<forall>j < i. identity_of (ws ! j) \<noteq> ?id" using uniq i by (metis less_trans nat_neq_iff)
    then have "find_identity ?id ws = int i" using search i by (simp del: find_identity.simps)
    ultimately show ?thesis by (simp add: FindWorker_def fields)
  qed
  have miss: "FindWorker p (Some vd) = -1 \<and> Some vd \<notin> set vds"
    if "\<forall>i < length ws. identity_of (ws ! i) \<noteq> ?id"
  proof -
    have n: "Some vd \<notin> set vds" using placed_table [OF pl] that by blast
    then have "map_of table (vd_ptr vd) = None"
      using placed_table_only [OF pl] assms(3) by blast
    then show ?thesis using search that n by (simp add: FindWorker_def fields)
  qed
  consider (found) k where "k < length ws" "identity_of (ws ! k) = ?id" "FindWorker p (Some vd) = int k"
    | (absent) "\<forall>i < length ws. identity_of (ws ! i) \<noteq> ?id" "FindWorker p (Some vd) = -1" "Some vd \<notin> set vds"
  proof (cases "\<exists>k < length ws. identity_of (ws ! k) = ?id")
    case True
    then show thesis using hit found by blast
  next
    case False
    then show thesis using miss absent by blast
  qed
  then have found_iff: "(Some vd \<in> set vds \<longrightarrow> FindWorker p (Some vd) \<noteq> -1) \<and> FindWorker p (Some vd) \<ge> -1 \<and>
      (\<forall>i. FindWorker p (Some vd) = int i \<longleftrightarrow> i < length ws \<and> identity_of (ws ! i) = ?id)"
  proof cases
    case found
    have "i = k" if "i < length ws" "identity_of (ws ! i) = ?id" for i using uniq [of i k] that found by simp
    then have iff: "\<forall>i. int k = int i \<longleftrightarrow> i < length ws \<and> identity_of (ws ! i) = ?id"
      using found(1,2) unfolding of_nat_eq_iff by blast
    show ?thesis unfolding found(3) using iff by simp
  next
    case absent
    then show ?thesis by simp
  qed
  show ?thesis unfolding fields
  proof (intro conjI allI impI)
    show "FindWorker p (Some vd) \<noteq> -1" if "Some vd \<in> set vds"
      using found_iff that by blast
    show "FindWorker p (Some vd) = int i \<longleftrightarrow> i < length ws \<and> identity_of (ws ! i) = ?id" for i
      using found_iff by blast
    show "FindWorker p (Some vd) \<ge> -1"
      using found_iff by blast
    show "distinct (map identity_of ws)" by (rule dist)
    show "\<exists>wp. ws ! i = Some wp \<and> worker_id wp = int i \<and> wp_virtual_device wp \<noteq> None \<and>
        wp_virtual_device wp \<in> set vds" if "i < length ws" for i
      using that by (rule w)
  qed
qed

text \<open>Two CPUs, the second one given by two objects: two workers, and a fresh object is found.\<close>

definition cpu_vd :: "nat \<Rightarrow> int \<Rightarrow> VirtualDevice" where
  "cpu_vd p i = \<lparr>vd_ptr = p, vd_device_obj = Some \<lparr>dev_type = kCPU, dev_id = i\<rparr>, vd_target = None,
     vd_memory_scope = '''', vd_id = i\<rparr>"

lemma build_disco_placement_spec_witness:
  "\<exists>p. BuildDiscoPlacement (\<lambda>d. Inr (''cpu'', default_attributes))
         [Some (cpu_vd 5 0), Some (cpu_vd 6 1), Some (cpu_vd 7 1)] 0 = Inr p \<and>
       length (placement_workers p) = 2 \<and> FindWorker p (Some (cpu_vd 9 1)) = int 1"
proof -
  let ?api = "\<lambda>d. Inr (''cpu'', default_attributes)"
  let ?vds = "[Some (cpu_vd 5 0), Some (cpu_vd 6 1), Some (cpu_vd 7 1)]"
  have ids: "VirtualDeviceIdentity (Some (cpu_vd q 0)) = ''virtual_device:dev(0,0)target(none)scope()vdid(0)''"
    "VirtualDeviceIdentity (Some (cpu_vd q 1)) = ''virtual_device:dev(0,1)target(none)scope()vdid(1)''" for q
    by (simp_all add: VirtualDeviceIdentity_def cpu_vd_def kCPU_def to_string_def show_nat.simps digit_char_def char_of_eq_iff)
  have flds: "vd_ptr (cpu_vd q i) = q" "vd_target (cpu_vd q i) = None"
    "vd_device_obj (cpu_vd q i) = Some \<lparr>dev_type = kCPU, dev_id = i\<rparr>" for q i
    by (simp_all add: cpu_vd_def)
  obtain p where b: "BuildDiscoPlacement ?api ?vds 0 = Inr p"
    and l: "length (placement_workers p) = 2"
    and i1: "identity_of (placement_workers p ! 1) = VirtualDeviceIdentity (Some (cpu_vd 9 1))"
    by (auto simp: BuildDiscoPlacement_def place_device_def ids flds BuildTarget_def Let_def
      DiscoPlacement_new_def identity_of_def)
  have "same_ptr_same ?vds" by (auto simp: same_ptr_same_def cpu_vd_def)
  moreover have "Some (cpu_vd 9 1) \<in> set ?vds \<or> (\<forall>d. Some d \<in> set ?vds \<longrightarrow> vd_ptr d \<noteq> vd_ptr (cpu_vd 9 1))"
    by (auto simp: cpu_vd_def)
  ultimately have "\<forall>i. FindWorker p (Some (cpu_vd 9 1)) = int i \<longleftrightarrow>
       i < length (placement_workers p) \<and>
       identity_of (placement_workers p ! i) = VirtualDeviceIdentity (Some (cpu_vd 9 1))"
    using build_disco_placement_spec [OF b, of "cpu_vd 9 1"] by blast
  from this [rule_format, of 1] have "FindWorker p (Some (cpu_vd 9 1)) = int 1"
    using l i1 by simp
  with b l show ?thesis by blast
qed

end
