(* ===== verification/Pass_Base.thy ===== *)
theory Pass_Base
  imports Disco_Placement
begin

text \<open>
  The context of a pass, \<^verbatim>\<open>PassContext\<close> of \<^verbatim>\<open>include/base/pass.h\<close> and \<^verbatim>\<open>src/base/pass.cc\<close>: what it
  holds, how it is built of virtual devices, its passage through the attributes of a \<^verbatim>\<open>PrimFunc\<close>,
  and the scopes that install it for the current thread. Every pass derives one before it visits
  anything, so this theory comes before those of the passes.
\<close>

section \<open>Contexts\<close>

record PassContext =
  pc_defined :: bool
  pc_multi_device :: bool
  pc_primary :: "VirtualDevice option"
  pc_virtual_devices :: "VirtualDevice option list"
  pc_default_target :: "Target option"
  pc_default_device :: "Device option"
  pc_disco :: "DiscoPlacement option"

definition PassContext_undefined :: PassContext where
  "PassContext_undefined = \<lparr>pc_defined = False, pc_multi_device = False, pc_primary = None,
     pc_virtual_devices = [], pc_default_target = None, pc_default_device = None, pc_disco = None\<rparr>"

definition DeviceIdentityKey :: "Device option \<Rightarrow> Target option \<Rightarrow> string" where
  "DeviceIdentityKey device target =
     (case (device, target) of
        (Some d, _) \<Rightarrow> to_string (dev_type d) @ '':'' @ to_string (dev_id d)
      | (None, Some t) \<Rightarrow> to_string (tgt_device_type t) @ '':'' @ to_string (tgt_device_id t)
      | (None, None) \<Rightarrow> ''unconstrained'')"

text \<open>Dereferencing an undefined first device is undefined in C++.\<close>

definition BuildFromVirtualDevices ::
  "device_api \<Rightarrow> VirtualDevice option list \<Rightarrow> PassContext res" where
  "BuildFromVirtualDevices api vds =
     (case vds of
        [] \<Rightarrow> Inr PassContext_undefined
      | None # _ \<Rightarrow> Inl OutOfRange
      | Some prim # _ \<Rightarrow>
          sbind (case (vd_target prim, vd_device_obj prim) of
                   (None, Some dev) \<Rightarrow> sbind (BuildTarget api dev) (\<lambda>t. Inr (Some t))
                 | (t, _) \<Rightarrow> Inr t) (\<lambda>target.
          sbind (BuildDiscoPlacement api vds 1) (\<lambda>placement.
          let identities = {DeviceIdentityKey (vd_device_obj vd) (vd_target vd) | vd. Some vd \<in> set vds} in
          Inr \<lparr>pc_defined = True, pc_multi_device = (card identities > 1), pc_primary = Some prim,
               pc_virtual_devices = vds, pc_default_target = target,
               pc_default_device = vd_device_obj prim, pc_disco = Some placement\<rparr>)))"

definition WithDiscoPlacement :: "PassContext \<Rightarrow> DiscoPlacement option \<Rightarrow> PassContext" where
  "WithDiscoPlacement base placement =
     base\<lparr>pc_defined := (pc_defined base \<or> placement \<noteq> None), pc_disco := placement\<rparr>"

definition PassContextToString :: "PassContext \<Rightarrow> string" where
  "PassContextToString ctx =
     (if \<not> pc_defined ctx then ''PassContext(undefined)''
      else ''PassContext(multi_device='' @ (if pc_multi_device ctx then ''true'' else ''false'') @
        '', virtual_devices='' @ show_nat (length (pc_virtual_devices ctx)) @
        '', primary='' @
        (case pc_primary ctx of Some vd \<Rightarrow> VirtualDeviceToString (Some vd) | None \<Rightarrow> ''none'') @
        '', target='' @
        (case pc_default_target ctx of Some t \<Rightarrow> TargetToString (Some t) | None \<Rightarrow> ''none'') @
        (case pc_disco ctx of
           Some p \<Rightarrow> '', disco_workers='' @ show_nat (length (placement_workers p)) @
             '', disco_groups='' @ to_string (num_groups p)
         | None \<Rightarrow> '', disco=none'') @ '')'')"

section \<open>Attributes of a \<^verbatim>\<open>PrimFunc\<close>\<close>

text \<open>The objects these attributes can hold; \<open>AttrOther\<close> is any other object.\<close>

datatype AttrObject =
    AttrUndefined
  | AttrVirtualDevice VirtualDevice
  | AttrTarget Target
  | AttrDevice Device
  | AttrIntImm int
  | AttrString string
  | AttrPlacement DiscoPlacement
  | AttrOther nat

type_synonym attr_map = "(string \<times> AttrObject) list"

definition kPrimaryVirtualDeviceAttr :: string where
  "kPrimaryVirtualDeviceAttr = ''kxc.pass_ctx.primary_virtual_device''"
definition kDefaultTargetAttr :: string where
  "kDefaultTargetAttr = ''kxc.pass_ctx.default_target''"
definition kDefaultDeviceAttr :: string where
  "kDefaultDeviceAttr = ''kxc.pass_ctx.default_device''"
definition kMultiDeviceAttr :: string where
  "kMultiDeviceAttr = ''kxc.pass_ctx.is_multi_device''"
definition kDiscoPlacementAttr :: string where
  "kDiscoPlacementAttr = ''kxc.pass_ctx.disco_placement''"

definition pass_ctx_keys :: "string set" where
  "pass_ctx_keys = {kPrimaryVirtualDeviceAttr, kDefaultTargetAttr, kDefaultDeviceAttr,
     kMultiDeviceAttr, kDiscoPlacementAttr}"

definition set_attr :: "string \<Rightarrow> ('a \<Rightarrow> AttrObject) \<Rightarrow> 'a option \<Rightarrow> attr_map \<Rightarrow> attr_map" where
  "set_attr key obj v m = (case v of None \<Rightarrow> m | Some x \<Rightarrow> AList.update key (obj x) m)"

definition AttachPassContextAttrs :: "attr_map \<Rightarrow> PassContext \<Rightarrow> attr_map" where
  "AttachPassContextAttrs ats ctx =
     (if \<not> pc_defined ctx then ats
      else
        let m = set_attr kPrimaryVirtualDeviceAttr AttrVirtualDevice (pc_primary ctx) ats;
            m = set_attr kDefaultTargetAttr AttrTarget (pc_default_target ctx) m;
            m = set_attr kDefaultDeviceAttr AttrDevice (pc_default_device ctx) m;
            m = AList.update kMultiDeviceAttr (AttrIntImm (if pc_multi_device ctx then 1 else 0)) m
        in set_attr kDiscoPlacementAttr AttrPlacement (pc_disco ctx) m)"

text \<open>\<open>None\<close> stands for the undefined \<^verbatim>\<open>PrimFunc\<close>, \<open>Some\<close> for the attributes of a defined one.\<close>

definition FromTIR :: "device_api \<Rightarrow> attr_map option \<Rightarrow> PassContext res" where
  "FromTIR api func =
     (case func of
        None \<Rightarrow> Inr PassContext_undefined
      | Some ats \<Rightarrow>
          sbind (case map_of ats kPrimaryVirtualDeviceAttr of
                   Some (AttrVirtualDevice vd) \<Rightarrow> BuildFromVirtualDevices api [Some vd]
                 | _ \<Rightarrow> Inr PassContext_undefined) (\<lambda>ctx.
          let ctx = (case map_of ats kDefaultTargetAttr of
                Some (AttrTarget t) \<Rightarrow> ctx\<lparr>pc_defined := True, pc_default_target := Some t\<rparr>
              | _ \<Rightarrow> ctx);
              ctx = (case map_of ats kDefaultDeviceAttr of
                Some (AttrDevice d) \<Rightarrow> ctx\<lparr>pc_defined := True, pc_default_device := Some d\<rparr>
              | _ \<Rightarrow> ctx);
              ctx = (case map_of ats kMultiDeviceAttr of
                Some (AttrIntImm v) \<Rightarrow> ctx\<lparr>pc_defined := True, pc_multi_device := (v \<noteq> 0)\<rparr>
              | _ \<Rightarrow> ctx);
              ctx = (case map_of ats kDiscoPlacementAttr of
                Some (AttrPlacement p) \<Rightarrow> ctx\<lparr>pc_defined := True, pc_disco := Some p\<rparr>
              | _ \<Rightarrow> ctx)
          in Inr ctx))"

section \<open>The context of the current thread\<close>

record ThreadContext =
  current_pass_ctx :: PassContext
  has_current_pass_ctx :: bool

definition thread_start :: ThreadContext where
  "thread_start = \<lparr>current_pass_ctx = PassContext_undefined, has_current_pass_ctx = False\<rparr>"

definition Current :: "ThreadContext \<Rightarrow> PassContext" where
  "Current t = (if \<not> has_current_pass_ctx t then PassContext_undefined else current_pass_ctx t)"

definition SetCurrent :: "PassContext \<Rightarrow> ThreadContext \<Rightarrow> ThreadContext" where
  "SetCurrent ctx t = t\<lparr>current_pass_ctx := ctx, has_current_pass_ctx := pc_defined ctx\<rparr>"

definition ClearCurrent :: "ThreadContext \<Rightarrow> ThreadContext" where
  "ClearCurrent t = t\<lparr>current_pass_ctx := PassContext_undefined, has_current_pass_ctx := False\<rparr>"

text \<open>A scope object: whether it is active, and the context before it.\<close>

definition Scope_enter ::
  "PassContext \<Rightarrow> ThreadContext \<Rightarrow> (bool \<times> PassContext) \<times> ThreadContext" where
  "Scope_enter ctx t =
     (if \<not> pc_defined ctx then ((False, Current t), t) else ((True, Current t), SetCurrent ctx t))"

definition Scope_exit :: "bool \<times> PassContext \<Rightarrow> ThreadContext \<Rightarrow> ThreadContext" where
  "Scope_exit scope t =
     (if \<not> fst scope then t
      else if pc_defined (snd scope) then SetCurrent (snd scope) t else ClearCurrent t)"

text \<open>What a pass reads of its surroundings: the device backends and the context of its thread.\<close>

type_synonym pass_env = "device_api \<times> ThreadContext"

end
