(* ===== verification/TIR_IR.thy ===== *)
theory TIR_IR
  imports Pass_Base
begin

text \<open>
  The tensor-level IR of \<^verbatim>\<open>include/tir/expr.h\<close> and \<^verbatim>\<open>include/tir/stmt.h\<close> with the node
  constructors of \<^verbatim>\<open>src/tir/expr.cc\<close> and \<^verbatim>\<open>src/tir/stmt.cc\<close>. IR nodes are immutable and
  reference counted; a handle is modelled by the tree below it, an undefined handle by the
  constructors \<open>NullExpr\<close> and \<open>NullStmt\<close> (or by \<open>None\<close> for the auxiliary records). Variables
  are compared by address in the sources (\<^verbatim>\<open>Var::operator==\<close>), so a variable carries the
  address of its node. The type parameter \<open>'d\<close> stands for the C++ type \<^verbatim>\<open>double\<close>, in which
  floating-point literals are kept; \<open>fp\<close> collects the operations of that type the passes use.
\<close>

section \<open>Scalar types\<close>

record DataType =
  code :: nat
  bits :: nat
  lanes :: nat

definition dt_Int :: "nat \<Rightarrow> nat \<Rightarrow> DataType" where
  "dt_Int b l = \<lparr>code = 0, bits = b mod 256, lanes = l mod 65536\<rparr>"

definition dt_UInt :: "nat \<Rightarrow> nat \<Rightarrow> DataType" where
  "dt_UInt b l = \<lparr>code = 1, bits = b mod 256, lanes = l mod 65536\<rparr>"

definition dt_Float :: "nat \<Rightarrow> nat \<Rightarrow> DataType" where
  "dt_Float b l = \<lparr>code = 2, bits = b mod 256, lanes = l mod 65536\<rparr>"

definition dt_Handle :: "nat \<Rightarrow> nat \<Rightarrow> DataType" where
  "dt_Handle b l = \<lparr>code = 3, bits = b mod 256, lanes = l mod 65536\<rparr>"

definition dt_Bool :: "nat \<Rightarrow> DataType" where
  "dt_Bool l = dt_UInt 1 l"

definition dt_Void :: DataType where
  "dt_Void = \<lparr>code = 4, bits = 0, lanes = 0\<rparr>"

lemmas dt_defs = dt_Int_def dt_UInt_def dt_Float_def dt_Handle_def dt_Bool_def dt_Void_def

section \<open>Expressions\<close>

text \<open>\<open>vid\<close> is the address of the \<^verbatim>\<open>VarNode\<close>, by which variables are compared and hashed.\<close>

record tir_var =
  vid :: nat
  name_hint :: string
  vdtype :: DataType

datatype bop = AddOp | SubOp | MulOp | DivOp | ModOp | MinOp | MaxOp
  | EQOp | LTOp | AndOp | OrOp

datatype 'd PrimExpr =
    NullExpr
  | IntImm int DataType
  | FloatImm 'd DataType
  | VarE tir_var
  | Bin bop "'d PrimExpr" "'d PrimExpr"
  | NotE "'d PrimExpr"
  | Load tir_var "'d PrimExpr" "'d PrimExpr"
  | Call DataType string "'d PrimExpr list"
  | Select "'d PrimExpr" "'d PrimExpr" "'d PrimExpr"

text \<open>The arithmetic operators, whose constructors take the type of their left operand.\<close>

fun is_arith :: "bop \<Rightarrow> bool" where
  "is_arith EQOp = False"
| "is_arith LTOp = False"
| "is_arith AndOp = False"
| "is_arith OrOp = False"
| "is_arith _ = True"

text \<open>
  The \<^verbatim>\<open>dtype\<close> field each constructor stores. An undefined handle has none: reading it is an
  error of the caller, and the model gives it the type \<^verbatim>\<open>Void\<close>.
\<close>

fun dtype :: "'d PrimExpr \<Rightarrow> DataType" where
  "dtype NullExpr = dt_Void"
| "dtype (IntImm v dt) = dt"
| "dtype (FloatImm x dt) = dt"
| "dtype (VarE v) = vdtype v"
| "dtype (Bin op a b) = (if is_arith op then dtype a else dt_Bool 1)"
| "dtype (NotE a) = dt_Bool 1"
| "dtype (Load b i p) = vdtype b"
| "dtype (Call dt f as) = dt"
| "dtype (Select c t f) = dtype t"

section \<open>Statements and functions\<close>

datatype ForType = Serial | Parallel | Vectorized | Unrolled

datatype IterVarType = kDataPar | kThreadIndex | kCommReduce | kOrdered | kOpaque
  | kVectorized | kParallel | kUnrolled

record 'd RangeNode =
  rmin :: "'d PrimExpr"
  rextent :: "'d PrimExpr"

record 'd IterVarNode =
  dom :: "'d RangeNode option"
  ivar :: tir_var
  iter_type :: IterVarType
  thread_tag :: string

record 'd BufferNode =
  bdata :: tir_var
  bdtype :: DataType
  bshape :: "'d PrimExpr list"
  bstrides :: "'d PrimExpr list"
  elem_offset :: "'d PrimExpr"
  bname :: string
  data_alignment :: int
  offset_factor :: int

record 'd BufferRegionNode =
  rbuffer :: "'d BufferNode option"
  region :: "'d RangeNode option list"

text \<open>The object an \<^verbatim>\<open>AttrStmt\<close> annotates is an opaque object reference, kept as an address.\<close>

datatype 'd Stmt =
    NullStmt
  | LetStmt tir_var "'d PrimExpr" "'d Stmt"
  | Store tir_var "'d PrimExpr" "'d PrimExpr" "'d PrimExpr"
  | For tir_var "'d PrimExpr" "'d PrimExpr" ForType "'d Stmt"
  | IfThenElse "'d PrimExpr" "'d Stmt" "'d Stmt"
  | Allocate tir_var DataType "'d PrimExpr list" "'d PrimExpr" "'d Stmt"
  | AttrStmt nat string "'d PrimExpr" "'d Stmt"
  | Block "'d IterVarNode option list" "'d BufferRegionNode option list"
      "'d BufferRegionNode option list" string "'d Stmt" "'d Stmt"
  | SeqStmt "'d Stmt list"
  | Evaluate "'d PrimExpr"

record 'd PrimFunc =
  params :: "tir_var list"
  body :: "'d Stmt"
  buffer_map :: "(tir_var \<times> 'd BufferNode option) list"
  attrs :: attr_map

section \<open>The floating-point types of the implementation\<close>

text \<open>
  The operations on \<^verbatim>\<open>double\<close> the passes call, and \<open>ld_prec\<close>, the number of significand
  bits of \<^verbatim>\<open>long double\<close>, which the C++ standard leaves to the platform.
\<close>

record 'd fp =
  ld_prec :: nat
  dbl_of_int :: "int \<Rightarrow> 'd"
  dbl_add :: "'d \<Rightarrow> 'd \<Rightarrow> 'd"
  dbl_sub :: "'d \<Rightarrow> 'd \<Rightarrow> 'd"
  dbl_mul :: "'d \<Rightarrow> 'd \<Rightarrow> 'd"
  dbl_div :: "'d \<Rightarrow> 'd \<Rightarrow> 'd"
  dbl_fmod :: "'d \<Rightarrow> 'd \<Rightarrow> 'd"
  dbl_lt :: "'d \<Rightarrow> 'd \<Rightarrow> bool"
  dbl_eq :: "'d \<Rightarrow> 'd \<Rightarrow> bool"
  dbl_finite :: "'d \<Rightarrow> bool"

text \<open>
  What the sources rely on of the conversion \<^verbatim>\<open>static_cast<double>(int64_t)\<close>: rounding to
  nearest never turns another integer into 0.0 or 1.0.
\<close>

definition fp_int_ok :: "'d fp \<Rightarrow> bool" where
  "fp_int_ok F \<longleftrightarrow>
     (\<forall>v. is_i64 v \<longrightarrow> (dbl_eq F (dbl_of_int F v) (dbl_of_int F 0) \<longleftrightarrow> v = 0) \<and>
        (dbl_eq F (dbl_of_int F v) (dbl_of_int F 1) \<longleftrightarrow> v = 1))"

text \<open>
  A concrete instance over the integers of magnitude below \<open>2 ^ 53\<close>, on which \<^verbatim>\<open>double\<close>
  arithmetic is exact; it evaluates the examples of the development.
\<close>

definition fp_int :: "int fp" where
  "fp_int = \<lparr>ld_prec = 64, dbl_of_int = round_bits 53, dbl_add = (+), dbl_sub = (-),
     dbl_mul = (*), dbl_div = (\<lambda>x y. x sdiv y), dbl_fmod = (\<lambda>x y. x smod y),
     dbl_lt = (<), dbl_eq = (=), dbl_finite = (\<lambda>_. True)\<rparr>"

lemma round_bits_eq_small:
  assumes "0 < p" "\<bar>k\<bar> < 2 ^ p" shows "round_bits p v = k \<longleftrightarrow> v = k"
proof -
  have "\<bar>round_bits p v\<bar> \<ge> 2 ^ p" if "2 ^ p \<le> \<bar>v\<bar>"
    using that round_bits_large [of p v] round_bits_large [of p "- v"] assms(1)
    by (cases "0 \<le> v") (auto simp: round_bits_minus abs_if)
  then show ?thesis
    using round_bits_small [of v p] assms(2) by (cases "\<bar>v\<bar> < 2 ^ p") auto
qed

lemma fp_int_int_ok: "fp_int_ok fp_int"
  by (simp add: fp_int_ok_def fp_int_def round_bits_eq_small round_bits_small)

text \<open>The element type of an array by its name, \<^verbatim>\<open>src/base/ndarray.cc\<close>.\<close>

definition ParseDType :: "string \<Rightarrow> DataType" where
  "ParseDType dtype_str =
     (if dtype_str = ''float32'' then \<lparr>code = 2, bits = 32, lanes = 1\<rparr>
      else if dtype_str = ''int32'' then \<lparr>code = 0, bits = 32, lanes = 1\<rparr>
      else if dtype_str = ''float64'' then \<lparr>code = 2, bits = 64, lanes = 1\<rparr>
      else if dtype_str = ''int64'' then \<lparr>code = 0, bits = 64, lanes = 1\<rparr>
      else if dtype_str = ''int8'' then \<lparr>code = 0, bits = 8, lanes = 1\<rparr>
      else if dtype_str = ''uint8'' then \<lparr>code = 1, bits = 8, lanes = 1\<rparr>
      else if dtype_str = ''bool'' then \<lparr>code = 1, bits = 1, lanes = 1\<rparr>
      else \<lparr>code = 2, bits = 32, lanes = 1\<rparr>)"

end
