(* ===== verification/TIR_Pass.thy ===== *)
theory TIR_Pass
  imports TIR_IR
begin

text \<open>
  The mutator \<^verbatim>\<open>TIRPass\<close> of \<^verbatim>\<open>include/base/pass.h\<close> and \<^verbatim>\<open>src/base/pass.cc\<close>. Every rewriter of
  \<^verbatim>\<open>src/tir/transforms\<close> overrides some \<^verbatim>\<open>Visit*\<close> methods, first calls the base method, which
  rebuilds the node from mutated children, and then post-processes the rebuilt node. A
  rewriter is therefore given by two hooks: \<open>he\<close>, applied to every rebuilt expression node,
  and \<open>hs\<close>, applied to every rebuilt statement node. A statement hook may allocate variables
  (\<^verbatim>\<open>tir::Var v(...)\<close>), so it is given the next free address and returns the one after its
  own allocations. The base methods return the old node when no child changed; nodes are
  immutable, so this sharing is not visible in the trees.
\<close>

datatype tir_error =
    MutatedVarUndefined
  | VarPositionNotVar
  | UnknownTIRPass string
  | ContextError cpp_error
  | UndefinedPrimFunc

type_synonym 'd ehook = "'d PrimExpr \<Rightarrow> 'd PrimExpr"
type_synonym 'd shook = "'d Stmt \<Rightarrow> nat \<Rightarrow> 'd Stmt \<times> nat"

section \<open>The mutator as written, with its exceptions\<close>

definition MutateToVar :: "'d ehook \<Rightarrow> tir_var \<Rightarrow> tir_error + tir_var" where
  "MutateToVar he v =
     (case he (VarE v) of
        NullExpr \<Rightarrow> Inl MutatedVarUndefined
      | VarE w \<Rightarrow> Inr w
      | _ \<Rightarrow> Inl VarPositionNotVar)"

fun MutateExpr :: "'d ehook \<Rightarrow> 'd PrimExpr \<Rightarrow> tir_error + 'd PrimExpr"
  and MutateExprs :: "'d ehook \<Rightarrow> 'd PrimExpr list \<Rightarrow> tir_error + 'd PrimExpr list" where
  "MutateExpr he NullExpr = Inr NullExpr"
| "MutateExpr he (IntImm v dt) = Inr (he (IntImm v dt))"
| "MutateExpr he (FloatImm x dt) = Inr (he (FloatImm x dt))"
| "MutateExpr he (VarE v) = Inr (he (VarE v))"
| "MutateExpr he (Bin op a b) =
     sbind (MutateExpr he a) (\<lambda>new_a.
     sbind (MutateExpr he b) (\<lambda>new_b.
     Inr (he (Bin op new_a new_b))))"
| "MutateExpr he (NotE a) = sbind (MutateExpr he a) (\<lambda>new_value. Inr (he (NotE new_value)))"
| "MutateExpr he (Load b i p) =
     sbind (MutateToVar he b) (\<lambda>new_buffer_var.
     sbind (MutateExpr he i) (\<lambda>new_index.
     sbind (MutateExpr he p) (\<lambda>new_pred.
     Inr (he (Load new_buffer_var new_index new_pred)))))"
| "MutateExpr he (Call dt f args) =
     sbind (MutateExprs he args) (\<lambda>new_args. Inr (he (Call dt f new_args)))"
| "MutateExpr he (Select c t f) =
     sbind (MutateExpr he c) (\<lambda>new_cond.
     sbind (MutateExpr he t) (\<lambda>new_true.
     sbind (MutateExpr he f) (\<lambda>new_false.
     Inr (he (Select new_cond new_true new_false)))))"
| "MutateExprs he [] = Inr []"
| "MutateExprs he (e # es) =
     sbind (MutateExpr he e) (\<lambda>ne. sbind (MutateExprs he es) (\<lambda>nes. Inr (ne # nes)))"

definition MutateRange :: "'d ehook \<Rightarrow> 'd RangeNode option \<Rightarrow> tir_error + 'd RangeNode option" where
  "MutateRange he r =
     (case r of None \<Rightarrow> Inr None
      | Some r \<Rightarrow>
          sbind (MutateExpr he (rmin r)) (\<lambda>new_min.
          sbind (MutateExpr he (rextent r)) (\<lambda>new_extent.
          Inr (Some (r\<lparr>rmin := new_min, rextent := new_extent\<rparr>)))))"

definition MutateIterVar :: "'d ehook \<Rightarrow> 'd IterVarNode option \<Rightarrow> tir_error + 'd IterVarNode option"
where
  "MutateIterVar he iv =
     (case iv of None \<Rightarrow> Inr None
      | Some iv \<Rightarrow>
          sbind (MutateRange he (dom iv)) (\<lambda>new_dom.
          sbind (MutateToVar he (ivar iv)) (\<lambda>new_var.
          Inr (Some (iv\<lparr>dom := new_dom, ivar := new_var\<rparr>)))))"

definition MutateBuffer :: "'d ehook \<Rightarrow> 'd BufferNode option \<Rightarrow> tir_error + 'd BufferNode option"
where
  "MutateBuffer he bf =
     (case bf of None \<Rightarrow> Inr None
      | Some bf \<Rightarrow>
          sbind (MutateToVar he (bdata bf)) (\<lambda>new_data.
          sbind (MutateExprs he (bshape bf)) (\<lambda>new_shape.
          sbind (MutateExprs he (bstrides bf)) (\<lambda>new_strides.
          sbind (MutateExpr he (elem_offset bf)) (\<lambda>new_elem_offset.
          Inr (Some (bf\<lparr>bdata := new_data, bshape := new_shape, bstrides := new_strides,
             elem_offset := new_elem_offset\<rparr>)))))))"

definition MutateBufferRegion ::
  "'d ehook \<Rightarrow> 'd BufferRegionNode option \<Rightarrow> tir_error + 'd BufferRegionNode option" where
  "MutateBufferRegion he rg =
     (case rg of None \<Rightarrow> Inr None
      | Some rg \<Rightarrow>
          sbind (MutateBuffer he (rbuffer rg)) (\<lambda>new_buffer.
          sbind (smap (MutateRange he) (region rg)) (\<lambda>new_region.
          Inr (Some (rg\<lparr>rbuffer := new_buffer, region := new_region\<rparr>)))))"

fun MutateStmt :: "'d ehook \<Rightarrow> 'd shook \<Rightarrow> 'd Stmt \<Rightarrow> nat \<Rightarrow> tir_error + 'd Stmt \<times> nat"
  and MutateStmts :: "'d ehook \<Rightarrow> 'd shook \<Rightarrow> 'd Stmt list \<Rightarrow> nat \<Rightarrow> tir_error + 'd Stmt list \<times> nat"
where
  "MutateStmt he hs NullStmt n = Inr (NullStmt, n)"
| "MutateStmt he hs (LetStmt x v s) n =
     sbind (MutateToVar he x) (\<lambda>new_var.
     sbind (MutateExpr he v) (\<lambda>new_value.
     sbind (MutateStmt he hs s n) (\<lambda>(new_body, n).
     Inr (hs (LetStmt new_var new_value new_body) n))))"
| "MutateStmt he hs (Store b v i p) n =
     sbind (MutateToVar he b) (\<lambda>new_buffer_var.
     sbind (MutateExpr he v) (\<lambda>new_value.
     sbind (MutateExpr he i) (\<lambda>new_index.
     sbind (MutateExpr he p) (\<lambda>new_pred.
     Inr (hs (Store new_buffer_var new_value new_index new_pred) n)))))"
| "MutateStmt he hs (For x lo ext ft s) n =
     sbind (MutateToVar he x) (\<lambda>new_loop_var.
     sbind (MutateExpr he lo) (\<lambda>new_min.
     sbind (MutateExpr he ext) (\<lambda>new_extent.
     sbind (MutateStmt he hs s n) (\<lambda>(new_body, n).
     Inr (hs (For new_loop_var new_min new_extent ft new_body) n)))))"
| "MutateStmt he hs (IfThenElse c t e) n =
     sbind (MutateExpr he c) (\<lambda>new_cond.
     sbind (MutateStmt he hs t n) (\<lambda>(new_then, n).
     sbind (MutateStmt he hs e n) (\<lambda>(new_else, n).
     Inr (hs (IfThenElse new_cond new_then new_else) n))))"
| "MutateStmt he hs (Allocate b dt exts c s) n =
     sbind (MutateToVar he b) (\<lambda>new_buffer_var.
     sbind (MutateExprs he exts) (\<lambda>new_extents.
     sbind (MutateExpr he c) (\<lambda>new_cond.
     sbind (MutateStmt he hs s n) (\<lambda>(new_body, n).
     Inr (hs (Allocate new_buffer_var dt new_extents new_cond new_body) n)))))"
| "MutateStmt he hs (AttrStmt nd k v s) n =
     sbind (MutateExpr he v) (\<lambda>new_value.
     sbind (MutateStmt he hs s n) (\<lambda>(new_body, n).
     Inr (hs (AttrStmt nd k new_value new_body) n)))"
| "MutateStmt he hs (Block ivs rds wrs nm s ini) n =
     sbind (smap (MutateIterVar he) ivs) (\<lambda>new_iter_vars.
     sbind (smap (MutateBufferRegion he) rds) (\<lambda>new_reads.
     sbind (smap (MutateBufferRegion he) wrs) (\<lambda>new_writes.
     sbind (MutateStmt he hs s n) (\<lambda>(new_body, n).
     sbind (MutateStmt he hs ini n) (\<lambda>(new_init, n).
     Inr (hs (Block new_iter_vars new_reads new_writes nm new_body new_init) n))))))"
| "MutateStmt he hs (SeqStmt ss) n =
     sbind (MutateStmts he hs ss n) (\<lambda>(new_seq, n). Inr (hs (SeqStmt new_seq) n))"
| "MutateStmt he hs (Evaluate e) n =
     sbind (MutateExpr he e) (\<lambda>new_value. Inr (hs (Evaluate new_value) n))"
| "MutateStmts he hs [] n = Inr ([], n)"
| "MutateStmts he hs (s # ss) n =
     sbind (MutateStmt he hs s n) (\<lambda>(ns, n).
     sbind (MutateStmts he hs ss n) (\<lambda>(nss, n). Inr (ns # nss, n)))"

text \<open>
  \<^verbatim>\<open>VisitPrimFunc\<close>: the parameters, then the body, then every entry of \<^verbatim>\<open>buffer_map\<close>. The
  attributes are kept.
\<close>

definition VisitPrimFunc :: "'d ehook \<Rightarrow> 'd shook \<Rightarrow> 'd PrimFunc \<Rightarrow> nat \<Rightarrow> tir_error + 'd PrimFunc \<times> nat"
where
  "VisitPrimFunc he hs f n =
     sbind (smap (MutateToVar he) (params f)) (\<lambda>new_params.
     sbind (MutateStmt he hs (body f) n) (\<lambda>(new_body, n).
     sbind (smap (\<lambda>(k, v). sbind (MutateToVar he k) (\<lambda>new_key.
              sbind (MutateBuffer he v) (\<lambda>new_val. Inr (new_key, new_val)))) (buffer_map f))
       (\<lambda>new_buffer_map.
     Inr (f\<lparr>params := new_params, body := new_body, buffer_map := new_buffer_map\<rparr>, n))))"

text \<open>
  \<^verbatim>\<open>TIRPass::Mutate(const PrimFunc&)\<close> derives the context of the function unless the thread has one;
  the derivation asks the backend of the device in the attributes and can throw.
\<close>

definition pass_context :: "pass_env \<Rightarrow> 'd PrimFunc \<Rightarrow> tir_error + PassContext" where
  "pass_context E f =
     (if pc_defined (Current (snd E)) then Inr (Current (snd E))
      else (case FromTIR (fst E) (Some (attrs f)) of
              Inl e \<Rightarrow> Inl (ContextError e)
            | Inr ctx \<Rightarrow> Inr ctx))"

definition MutatePrimFunc ::
  "pass_env \<Rightarrow> 'd ehook \<Rightarrow> 'd shook \<Rightarrow> 'd PrimFunc \<Rightarrow> nat \<Rightarrow> tir_error + 'd PrimFunc \<times> nat" where
  "MutatePrimFunc E he hs f n = sbind (pass_context E f) (\<lambda>_. VisitPrimFunc he hs f n)"

section \<open>The rewriting function of a hook that leaves variables alone\<close>

text \<open>
  No rewriter overrides \<^verbatim>\<open>VisitVar\<close>, so the exceptions of \<^verbatim>\<open>MutateToVar\<close> are never thrown and
  the mutator computes the following total functions.
\<close>

fun rw_expr :: "'d ehook \<Rightarrow> 'd PrimExpr \<Rightarrow> 'd PrimExpr" where
  "rw_expr he NullExpr = NullExpr"
| "rw_expr he (IntImm v dt) = he (IntImm v dt)"
| "rw_expr he (FloatImm x dt) = he (FloatImm x dt)"
| "rw_expr he (VarE v) = he (VarE v)"
| "rw_expr he (Bin op a b) = he (Bin op (rw_expr he a) (rw_expr he b))"
| "rw_expr he (NotE a) = he (NotE (rw_expr he a))"
| "rw_expr he (Load b i p) = he (Load b (rw_expr he i) (rw_expr he p))"
| "rw_expr he (Call dt f args) = he (Call dt f (map (rw_expr he) args))"
| "rw_expr he (Select c t f) = he (Select (rw_expr he c) (rw_expr he t) (rw_expr he f))"

definition rw_range :: "'d ehook \<Rightarrow> 'd RangeNode \<Rightarrow> 'd RangeNode" where
  "rw_range he r = r\<lparr>rmin := rw_expr he (rmin r), rextent := rw_expr he (rextent r)\<rparr>"

definition rw_iter_var :: "'d ehook \<Rightarrow> 'd IterVarNode \<Rightarrow> 'd IterVarNode" where
  "rw_iter_var he iv = iv\<lparr>dom := map_option (rw_range he) (dom iv)\<rparr>"

definition rw_buffer :: "'d ehook \<Rightarrow> 'd BufferNode \<Rightarrow> 'd BufferNode" where
  "rw_buffer he bf = bf\<lparr>bshape := map (rw_expr he) (bshape bf),
     bstrides := map (rw_expr he) (bstrides bf), elem_offset := rw_expr he (elem_offset bf)\<rparr>"

definition rw_region :: "'d ehook \<Rightarrow> 'd BufferRegionNode \<Rightarrow> 'd BufferRegionNode" where
  "rw_region he rg = rg\<lparr>rbuffer := map_option (rw_buffer he) (rbuffer rg),
     region := map (map_option (rw_range he)) (region rg)\<rparr>"

fun rw_stmt :: "'d ehook \<Rightarrow> 'd shook \<Rightarrow> 'd Stmt \<Rightarrow> nat \<Rightarrow> 'd Stmt \<times> nat"
  and rw_stmts :: "'d ehook \<Rightarrow> 'd shook \<Rightarrow> 'd Stmt list \<Rightarrow> nat \<Rightarrow> 'd Stmt list \<times> nat" where
  "rw_stmt he hs NullStmt n = (NullStmt, n)"
| "rw_stmt he hs (LetStmt x v s) n =
     (let (s', n) = rw_stmt he hs s n in hs (LetStmt x (rw_expr he v) s') n)"
| "rw_stmt he hs (Store b v i p) n =
     hs (Store b (rw_expr he v) (rw_expr he i) (rw_expr he p)) n"
| "rw_stmt he hs (For x lo ext ft s) n =
     (let (s', n) = rw_stmt he hs s n in hs (For x (rw_expr he lo) (rw_expr he ext) ft s') n)"
| "rw_stmt he hs (IfThenElse c t e) n =
     (let (t', n) = rw_stmt he hs t n; (e', n) = rw_stmt he hs e n
      in hs (IfThenElse (rw_expr he c) t' e') n)"
| "rw_stmt he hs (Allocate b dt exts c s) n =
     (let (s', n) = rw_stmt he hs s n
      in hs (Allocate b dt (map (rw_expr he) exts) (rw_expr he c) s') n)"
| "rw_stmt he hs (AttrStmt nd k v s) n =
     (let (s', n) = rw_stmt he hs s n in hs (AttrStmt nd k (rw_expr he v) s') n)"
| "rw_stmt he hs (Block ivs rds wrs nm s ini) n =
     (let (s', n) = rw_stmt he hs s n; (ini', n) = rw_stmt he hs ini n
      in hs (Block (map (map_option (rw_iter_var he)) ivs) (map (map_option (rw_region he)) rds)
           (map (map_option (rw_region he)) wrs) nm s' ini') n)"
| "rw_stmt he hs (SeqStmt ss) n =
     (let (ss', n) = rw_stmts he hs ss n in hs (SeqStmt ss') n)"
| "rw_stmt he hs (Evaluate e) n = hs (Evaluate (rw_expr he e)) n"
| "rw_stmts he hs [] n = ([], n)"
| "rw_stmts he hs (s # ss) n =
     (let (s', n) = rw_stmt he hs s n; (ss', n) = rw_stmts he hs ss n in (s' # ss', n))"

definition rw_func :: "'d ehook \<Rightarrow> 'd shook \<Rightarrow> 'd PrimFunc \<Rightarrow> nat \<Rightarrow> 'd PrimFunc \<times> nat" where
  "rw_func he hs f n =
     (let (s', n') = rw_stmt he hs (body f) n
      in (f\<lparr>body := s', buffer_map := map (apsnd (map_option (rw_buffer he))) (buffer_map f)\<rparr>, n'))"

text \<open>A rewriter without statement overrides returns the rebuilt statement.\<close>

definition keep_stmt :: "'d shook" where
  "keep_stmt s n = (s, n)"

lemma keep_stmt_simps [simp]: "fst (keep_stmt s n) = s" "snd (keep_stmt s n) = n"
  by (simp_all add: keep_stmt_def)

lemma body_rw_func: "body (fst (rw_func he hs f n)) = fst (rw_stmt he hs (body f) n)"
  and snd_rw_func: "snd (rw_func he hs f n) = snd (rw_stmt he hs (body f) n)"
  by (simp_all add: rw_func_def split_beta)

lemma MutateExprs_smap: "MutateExprs he es = smap (MutateExpr he) es"
  by (induction es) simp_all

text \<open>The interface every rewriter meets: variables are left alone.\<close>

locale var_keeping =
  fixes he :: "'d ehook"
  assumes he_var: "he (VarE v) = VarE v"
begin

lemma MutateToVar_id [simp]: "MutateToVar he v = Inr v"
  by (simp add: MutateToVar_def he_var)

lemma MutateExpr_total: "MutateExpr he e = Inr (rw_expr he e)"
  by (induction e) (simp_all add: MutateExprs_smap smap_total)

lemma MutateExprs_total: "MutateExprs he es = Inr (map (rw_expr he) es)"
  by (simp add: MutateExprs_smap smap_total MutateExpr_total)

lemma MutateRange_total: "MutateRange he r = Inr (map_option (rw_range he) r)"
  by (simp add: MutateRange_def MutateExpr_total rw_range_def split: option.split)

lemma MutateIterVar_total: "MutateIterVar he iv = Inr (map_option (rw_iter_var he) iv)"
  by (simp add: MutateIterVar_def MutateRange_total rw_iter_var_def split: option.split)

lemma MutateBuffer_total: "MutateBuffer he bf = Inr (map_option (rw_buffer he) bf)"
  by (simp add: MutateBuffer_def MutateExpr_total MutateExprs_total rw_buffer_def split: option.split)

lemma MutateBufferRegion_total: "MutateBufferRegion he rg = Inr (map_option (rw_region he) rg)"
  by (auto simp: MutateBufferRegion_def MutateBuffer_total rw_region_def MutateRange_total
      smap_total [where g = "map_option (rw_range he)"] split: option.split)

lemma MutateStmts_step:
  "(\<And>s n. s \<in> set ss \<Longrightarrow> MutateStmt he hs s n = Inr (rw_stmt he hs s n)) \<Longrightarrow>
   MutateStmts he hs ss n = Inr (rw_stmts he hs ss n)"
  by (induction ss arbitrary: n) (simp_all add: split_beta)

lemma MutateStmt_total: "MutateStmt he hs s n = Inr (rw_stmt he hs s n)"
  by (induction s arbitrary: n)
    (simp_all add: MutateExpr_total MutateExprs_total split_beta MutateIterVar_total
      MutateBufferRegion_total smap_total [where g = "map_option (rw_iter_var he)"]
      smap_total [where g = "map_option (rw_region he)"] MutateStmts_step)

lemma VisitPrimFunc_total: "VisitPrimFunc he hs f n = Inr (rw_func he hs f n)"
proof -
  have "smap (\<lambda>(k, v). sbind (MutateToVar he k) (\<lambda>new_key.
          sbind (MutateBuffer he v) (\<lambda>new_val. Inr (new_key, new_val)))) (buffer_map f) =
        Inr (map (apsnd (map_option (rw_buffer he))) (buffer_map f))"
    by (rule smap_total) (auto simp: MutateBuffer_total)
  moreover have "smap (MutateToVar he) (params f) = Inr (params f)"
    using smap_total [of "params f" "MutateToVar he" id] by simp
  ultimately show ?thesis
    by (simp add: VisitPrimFunc_def rw_func_def MutateStmt_total split_beta)
qed

end

section \<open>The mutator never throws\<close>

text \<open>
For every rewriter that leaves variables alone, \<^verbatim>\<open>VisitPrimFunc\<close> throws neither of the
  exceptions of \<^verbatim>\<open>MutateToVar\<close>, whatever its other hooks do and whatever the function: it
  returns the function that the total rewriting functions compute.
\<close>

lemma mutator_total:
  assumes "\<And>v. he (VarE v) = VarE v"
  shows "VisitPrimFunc he hs f n = Inr (rw_func he hs f n)"
proof -
  have "var_keeping he" using assms by unfold_locales
  then show ?thesis by (rule var_keeping.VisitPrimFunc_total)
qed

lemma mutator_total_witness:
  "VisitPrimFunc (\<lambda>e. case e of IntImm v dt \<Rightarrow> IntImm (v + 1) dt | _ \<Rightarrow> e) keep_stmt
     \<lparr>params = [], body = Evaluate (Bin AddOp (IntImm 1 dt_Void) (IntImm 2 dt_Void) :: int PrimExpr),
      buffer_map = [], attrs = []\<rparr> 0 =
   Inr (\<lparr>params = [], body = Evaluate (Bin AddOp (IntImm 2 dt_Void) (IntImm 3 dt_Void)),
      buffer_map = [], attrs = []\<rparr>, 0)"
  by (subst mutator_total) (simp_all add: rw_func_def keep_stmt_def)

end
