(* ===== verification/TIR_Utils.thy ===== *)
theory TIR_Utils
  imports TIR_Pass
begin

text \<open>
  The predicates and builders of \<^verbatim>\<open>src/tir/pass_utils.cc\<close> the transforms share: constant
  recognition, no-op recognition, the loop and straight-line tests, flattening of statement
  sequences, and narrowing of index literals. An output pointer that receives a value on
  success is modelled by an option; the pointers the transforms pass are never null.
\<close>

section \<open>Definitions\<close>

fun TryGetConstValue :: "'d fp \<Rightarrow> 'd PrimExpr \<Rightarrow> 'd option" where
  "TryGetConstValue F (IntImm v dt) = Some (dbl_of_int F v)"
| "TryGetConstValue F (FloatImm x dt) = Some x"
| "TryGetConstValue F _ = None"

fun TryGetConstInt64 :: "'d PrimExpr \<Rightarrow> int option" where
  "TryGetConstInt64 (IntImm v dt) = Some v"
| "TryGetConstInt64 _ = None"

definition IsConstZero :: "'d fp \<Rightarrow> 'd PrimExpr \<Rightarrow> bool" where
  "IsConstZero F e =
     (case TryGetConstValue F e of Some x \<Rightarrow> dbl_eq F x (dbl_of_int F 0) | None \<Rightarrow> False)"

definition IsConstOne :: "'d fp \<Rightarrow> 'd PrimExpr \<Rightarrow> bool" where
  "IsConstOne F e =
     (case TryGetConstValue F e of Some x \<Rightarrow> dbl_eq F x (dbl_of_int F 1) | None \<Rightarrow> False)"

fun IsNoOpStmt :: "'d fp \<Rightarrow> 'd Stmt \<Rightarrow> bool" where
  "IsNoOpStmt F NullStmt = True"
| "IsNoOpStmt F (Evaluate e) = IsConstZero F e"
| "IsNoOpStmt F (SeqStmt ss) = list_all (IsNoOpStmt F) ss"
| "IsNoOpStmt F _ = False"

fun ContainsFor :: "'d Stmt \<Rightarrow> bool" where
  "ContainsFor NullStmt = False"
| "ContainsFor (For x lo ext ft s) = True"
| "ContainsFor (LetStmt x v s) = ContainsFor s"
| "ContainsFor (IfThenElse c t e) = (ContainsFor t \<or> ContainsFor e)"
| "ContainsFor (Allocate b dt exts c s) = ContainsFor s"
| "ContainsFor (AttrStmt nd k v s) = ContainsFor s"
| "ContainsFor (Block ivs rds wrs nm s ini) = (ContainsFor ini \<or> ContainsFor s)"
| "ContainsFor (SeqStmt ss) = list_ex ContainsFor ss"
| "ContainsFor (Store b v i p) = False"
| "ContainsFor (Evaluate e) = False"

fun IsSimpleStraightLineStmt :: "'d Stmt \<Rightarrow> bool" where
  "IsSimpleStraightLineStmt NullStmt = True"
| "IsSimpleStraightLineStmt (Evaluate e) = True"
| "IsSimpleStraightLineStmt (Store b v i p) = True"
| "IsSimpleStraightLineStmt (LetStmt x v s) = IsSimpleStraightLineStmt s"
| "IsSimpleStraightLineStmt (SeqStmt ss) = list_all IsSimpleStraightLineStmt ss"
| "IsSimpleStraightLineStmt _ = False"

text \<open>The output array is the last argument and is returned extended.\<close>

fun AppendFlattenedStmt :: "'d fp \<Rightarrow> 'd Stmt \<Rightarrow> 'd Stmt list \<Rightarrow> 'd Stmt list" where
  "AppendFlattenedStmt F NullStmt out = out"
| "AppendFlattenedStmt F (SeqStmt ss) out = fold (AppendFlattenedStmt F) ss out"
| "AppendFlattenedStmt F s out = (if IsNoOpStmt F s then out else out @ [s])"

definition MakeSeqStmtOrUnit :: "'d fp \<Rightarrow> 'd Stmt list \<Rightarrow> 'd Stmt" where
  "MakeSeqStmtOrUnit F seq =
     (case fold (AppendFlattenedStmt F) seq [] of
        [] \<Rightarrow> NullStmt
      | [s] \<Rightarrow> s
      | flattened \<Rightarrow> SeqStmt flattened)"

definition CanNarrowInt64ToInt32 :: "int \<Rightarrow> bool" where
  "CanNarrowInt64ToInt32 v \<longleftrightarrow> - 2147483648 \<le> v \<and> v \<le> 2147483647"

fun NarrowIntImmToInt32IfPossible :: "'d PrimExpr \<Rightarrow> 'd PrimExpr" where
  "NarrowIntImmToInt32IfPossible (IntImm v dt) =
     (if code dt \<noteq> 0 \<or> bits dt \<noteq> 64 \<or> lanes dt \<noteq> 1 then IntImm v dt
      else if \<not> CanNarrowInt64ToInt32 v then IntImm v dt
      else IntImm v (dt_Int 32 1))"
| "NarrowIntImmToInt32IfPossible e = e"

section \<open>Constants\<close>

lemma IsConstZero_cases:
  assumes "IsConstZero F e"
  obtains v dt where "e = IntImm v dt" "dbl_eq F (dbl_of_int F v) (dbl_of_int F 0)"
  | x dt where "e = FloatImm x dt" "dbl_eq F x (dbl_of_int F 0)"
  using assms by (cases e) (auto simp: IsConstZero_def)

lemma IsConstOne_cases:
  assumes "IsConstOne F e"
  obtains v dt where "e = IntImm v dt" "dbl_eq F (dbl_of_int F v) (dbl_of_int F 1)"
  | x dt where "e = FloatImm x dt" "dbl_eq F x (dbl_of_int F 1)"
  using assms by (cases e) (auto simp: IsConstOne_def)

lemma TryGetConstInt64_Some [simp]: "TryGetConstInt64 e = Some k \<longleftrightarrow> (\<exists>dt. e = IntImm k dt)"
  by (cases e) auto

lemma CanNarrow_is_i32: "CanNarrowInt64ToInt32 v = is_i32 v"
  by (auto simp: CanNarrowInt64ToInt32_def rng_simps)

text \<open>Narrowing an index literal keeps its value, is idempotent and leaves every other
  expression alone.\<close>

lemma Narrow_idem [simp]:
  "NarrowIntImmToInt32IfPossible (NarrowIntImmToInt32IfPossible e) = NarrowIntImmToInt32IfPossible e"
  by (cases e) (auto simp: dt_Int_def)

lemma Narrow_VarE [simp]: "NarrowIntImmToInt32IfPossible e = VarE v \<longleftrightarrow> e = VarE v"
  by (cases e) auto

section \<open>Flattening\<close>

text \<open>What \<open>AppendFlattenedStmt\<close> appends, as a function.\<close>

fun flat :: "'d fp \<Rightarrow> 'd Stmt \<Rightarrow> 'd Stmt list" where
  "flat F NullStmt = []"
| "flat F (SeqStmt ss) = concat (map (flat F) ss)"
| "flat F s = (if IsNoOpStmt F s then [] else [s])"

lemma fold_append_concat:
  "(\<And>x out. x \<in> set xs \<Longrightarrow> f x out = out @ g x) \<Longrightarrow> fold f xs out = out @ concat (map g xs)"
  by (induction xs arbitrary: out) auto

lemma AppendFlattenedStmt_flat: "AppendFlattenedStmt F s out = out @ flat F s"
proof (induction s arbitrary: out)
  case (SeqStmt ss)
  then show ?case by (simp add: fold_append_concat)
qed simp_all

lemma fold_AppendFlattenedStmt:
  "fold (AppendFlattenedStmt F) ss out = out @ concat (map (flat F) ss)"
  by (rule fold_append_concat) (rule AppendFlattenedStmt_flat)

text \<open>The atoms of a flattened sequence are neither sequences nor no-ops.\<close>

lemma flat_atoms:
  assumes "a \<in> set (flat F s)"
  shows "flat F a = [a]" and "\<not> IsNoOpStmt F a" and "\<nexists>ss. a = SeqStmt ss"
  using assms by (induction s) (auto split: if_splits)

lemma flat_flat: "concat (map (flat F) (flat F s)) = flat F s"
  by (rule concat_map_single) (rule flat_atoms(1))

lemma IsNoOpStmt_flat: "IsNoOpStmt F s \<longleftrightarrow> flat F s = []"
  by (induction s) (auto simp: list_all_iff)

lemma MakeSeqStmtOrUnit_flat:
  "MakeSeqStmtOrUnit F ss =
     (case concat (map (flat F) ss) of [] \<Rightarrow> NullStmt | [s] \<Rightarrow> s | fs \<Rightarrow> SeqStmt fs)"
  by (simp add: MakeSeqStmtOrUnit_def fold_AppendFlattenedStmt)

lemma concat_map_flat_atoms:
  assumes "a \<in> set (concat (map (flat F) ss))"
  shows "flat F a = [a]" and "\<not> IsNoOpStmt F a" and "\<nexists>ts. a = SeqStmt ts"
proof -
  obtain s where "a \<in> set (flat F s)" using assms by auto
  then show "flat F a = [a]" and "\<not> IsNoOpStmt F a" and "\<nexists>ts. a = SeqStmt ts"
    by (rule flat_atoms)+
qed

lemma concat_map_flat_idem:
  "concat (map (flat F) (concat (map (flat F) ss))) = concat (map (flat F) ss)"
  by (rule concat_map_single) (rule concat_map_flat_atoms(1))

lemma flat_MakeSeq: "flat F (MakeSeqStmtOrUnit F ss) = concat (map (flat F) ss)"
proof -
  obtain fs where fs: "concat (map (flat F) ss) = fs" by simp
  with concat_map_flat_idem [of F ss] have "concat (map (flat F) fs) = fs" by simp
  then show ?thesis
    by (auto simp: MakeSeqStmtOrUnit_flat fs split: list.split)
qed

lemma MakeSeqStmtOrUnit_idem:
  "MakeSeqStmtOrUnit F (flat F (MakeSeqStmtOrUnit F ss)) = MakeSeqStmtOrUnit F ss"
  unfolding flat_MakeSeq unfolding MakeSeqStmtOrUnit_flat concat_map_flat_idem ..

section \<open>Loops\<close>

text \<open>A statement and all statements inside it.\<close>

fun sub_stmts :: "'d Stmt \<Rightarrow> 'd Stmt list" where
  "sub_stmts (LetStmt x v s) = LetStmt x v s # sub_stmts s"
| "sub_stmts (For x lo ext ft s) = For x lo ext ft s # sub_stmts s"
| "sub_stmts (IfThenElse c t e) = IfThenElse c t e # sub_stmts t @ sub_stmts e"
| "sub_stmts (Allocate b dt exts c s) = Allocate b dt exts c s # sub_stmts s"
| "sub_stmts (AttrStmt nd k v s) = AttrStmt nd k v s # sub_stmts s"
| "sub_stmts (Block ivs rds wrs nm s ini) = Block ivs rds wrs nm s ini # sub_stmts s @ sub_stmts ini"
| "sub_stmts (SeqStmt ss) = SeqStmt ss # concat (map sub_stmts ss)"
| "sub_stmts s = [s]"

lemma straight_line_no_For: "IsSimpleStraightLineStmt s \<Longrightarrow> \<not> ContainsFor s"
  by (induction s) (auto simp: list_all_iff list_ex_iff)

section \<open>Properties\<close>

text \<open>
\<^verbatim>\<open>MakeSeqStmtOrUnit\<close> builds a normal form: its result is undefined exactly when every
  statement of the array is a no-op, it is never a sequence of fewer than two statements, no
  statement of a sequence it builds is a no-op or itself a sequence, and building a sequence
  of its result again gives the same statement.
\<close>

lemma make_seq_normal_form:
  "(MakeSeqStmtOrUnit F ss = NullStmt) = list_all (IsNoOpStmt F) ss \<and>
   (\<forall>ts. MakeSeqStmtOrUnit F ss = SeqStmt ts \<longrightarrow>
      2 \<le> length ts \<and> list_all (\<lambda>t. \<not> IsNoOpStmt F t \<and> (\<forall>us. t \<noteq> SeqStmt us)) ts) \<and>
   MakeSeqStmtOrUnit F [MakeSeqStmtOrUnit F ss] = MakeSeqStmtOrUnit F ss"
proof -
  obtain fs where fs: "concat (map (flat F) ss) = fs" by simp
  have at: "\<not> IsNoOpStmt F a" "\<nexists>us. a = SeqStmt us" if "a \<in> set fs" for a
    using concat_map_flat_atoms [of a F ss] that fs by auto
  have "(MakeSeqStmtOrUnit F ss = NullStmt) = (fs = [])"
    unfolding MakeSeqStmtOrUnit_flat fs using at by (auto split: list.split)
  also have "\<dots> = list_all (IsNoOpStmt F) ss"
    using fs by (auto simp: list_all_iff IsNoOpStmt_flat)
  finally have 1: "(MakeSeqStmtOrUnit F ss = NullStmt) = list_all (IsNoOpStmt F) ss" .
  have 2: "2 \<le> length ts \<and> list_all (\<lambda>t. \<not> IsNoOpStmt F t \<and> (\<forall>us. t \<noteq> SeqStmt us)) ts"
    if "MakeSeqStmtOrUnit F ss = SeqStmt ts" for ts
  proof -
    have "ts = fs \<and> 2 \<le> length fs"
      using that at(2) unfolding MakeSeqStmtOrUnit_flat fs by (auto split: list.splits)
    then show ?thesis using at by (auto simp: list_all_iff)
  qed
  have "MakeSeqStmtOrUnit F [MakeSeqStmtOrUnit F ss] = MakeSeqStmtOrUnit F (flat F (MakeSeqStmtOrUnit F ss))"
    unfolding MakeSeqStmtOrUnit_flat [of F "[_]"] MakeSeqStmtOrUnit_flat [of F "flat F _"]
    by (simp only: list.map concat.simps append_Nil2 flat_flat)
  with 1 2 show ?thesis by (simp add: MakeSeqStmtOrUnit_idem)
qed

lemma make_seq_normal_form_witness:
  "let ss = [SeqStmt [Evaluate NullExpr, NullStmt], Evaluate (NotE NullExpr) :: int Stmt];
       ts = [Evaluate NullExpr, Evaluate (NotE NullExpr)]
   in MakeSeqStmtOrUnit fp_int ss = SeqStmt ts \<and> 2 \<le> length ts \<and>
      list_all (\<lambda>t. \<not> IsNoOpStmt fp_int t) ts"
  using make_seq_normal_form [of fp_int
      "[SeqStmt [Evaluate NullExpr, NullStmt], Evaluate (NotE NullExpr) :: int Stmt]"]
  by (simp add: MakeSeqStmtOrUnit_def IsConstZero_def)

text \<open>
The two loop tests agree: a statement that is simple straight-line code contains no loop,
  so the vectorizer never marks a loop with an inner loop even where the tests overlap, and
  every statement without loops, branches, allocations, attributes and blocks passes the
  straight-line test.
\<close>

lemma straight_line_iff:
  "IsSimpleStraightLineStmt s \<longleftrightarrow>
     \<not> ContainsFor s \<and> list_all (\<lambda>t. case t of IfThenElse _ _ _ \<Rightarrow> False | Allocate _ _ _ _ _ \<Rightarrow> False
        | AttrStmt _ _ _ _ \<Rightarrow> False | Block _ _ _ _ _ _ \<Rightarrow> False | _ \<Rightarrow> True) (sub_stmts s)"
proof (induction s)
  case (SeqStmt ss)
  then have "list_all IsSimpleStraightLineStmt ss \<longleftrightarrow> \<not> list_ex ContainsFor ss \<and>
      list_all (\<lambda>s. list_all (\<lambda>t. case t of IfThenElse _ _ _ \<Rightarrow> False | Allocate _ _ _ _ _ \<Rightarrow> False
        | AttrStmt _ _ _ _ \<Rightarrow> False | Block _ _ _ _ _ _ \<Rightarrow> False | _ \<Rightarrow> True) (sub_stmts s)) ss"
    by (auto simp: list_all_iff list_ex_iff)
  then show ?case by (simp add: list_all_concat_map)
qed simp_all

end
