(* ===== verification/TIR_Semantics.thy ===== *)
theory TIR_Semantics
  imports TIR_Utils
begin

text \<open>
  The reference meaning of TIR against which the transforms are judged; it specifies, and
  models no code of its own. It is a checked semantics: \<open>None\<close> stands for a computation the
  generated program may not perform (an integer result that does not fit the type its node
  declares, a division by zero, an access out of bounds, a read of uninitialised memory, an
  operation on operands of different kinds, an unbound variable), so a transform is correct
  when every defined behaviour of its input is a behaviour of its output. Operators are
  evaluated in the order the C backend prints (short-circuiting \<open>And\<close>, \<open>Or\<close>, \<open>Select\<close> and
  predicates), loops of every \<open>ForType\<close> in iteration order.
\<close>

section \<open>Values and types\<close>

datatype 'd val = VI int | VF 'd

text \<open>The integers a scalar type represents.\<close>

definition fits :: "int \<Rightarrow> DataType \<Rightarrow> bool" where
  "fits v dt \<longleftrightarrow> lanes dt = 1 \<and> bits dt \<noteq> 0 \<and>
     (code dt = 0 \<and> - (2 ^ (bits dt - 1)) \<le> v \<and> v < 2 ^ (bits dt - 1) \<or>
      code dt = 1 \<and> 0 \<le> v \<and> v < 2 ^ bits dt)"

text \<open>
  What the meaning of a program depends on besides the program: the rounding of a
  \<^verbatim>\<open>double\<close> to the format of the given width, and the functions \<^verbatim>\<open>Call\<close> names.
\<close>

record 'd sem =
  rnd :: "nat \<Rightarrow> 'd \<Rightarrow> 'd"
  callf :: "string \<Rightarrow> 'd val list \<Rightarrow> 'd val option"

text \<open>The value a node of type \<open>dt\<close> yields for the exact result \<open>v\<close>.\<close>

fun chk :: "'d sem \<Rightarrow> DataType \<Rightarrow> 'd val \<Rightarrow> 'd val option" where
  "chk S dt (VI i) = (if fits i dt then Some (VI i) else None)"
| "chk S dt (VF x) = (if code dt = 2 then Some (VF (rnd S (bits dt) x)) else None)"

fun truth :: "'d val \<Rightarrow> bool option" where
  "truth (VI i) = Some (i \<noteq> 0)"
| "truth (VF x) = None"

fun of_bool_val :: "bool \<Rightarrow> 'd val" where
  "of_bool_val b = VI (if b then 1 else 0)"

definition zero_val :: "'d fp \<Rightarrow> DataType \<Rightarrow> 'd val" where
  "zero_val F dt = (if code dt = 2 then VF (dbl_of_int F 0) else VI 0)"

section \<open>Expressions\<close>

fun arith_int :: "bop \<Rightarrow> int \<Rightarrow> int \<Rightarrow> int option" where
  "arith_int AddOp x y = Some (x + y)"
| "arith_int SubOp x y = Some (x - y)"
| "arith_int MulOp x y = Some (x * y)"
| "arith_int DivOp x y = (if y = 0 then None else Some (x sdiv y))"
| "arith_int ModOp x y = (if y = 0 then None else Some (x smod y))"
| "arith_int MinOp x y = Some (if x < y then x else y)"
| "arith_int MaxOp x y = Some (if x > y then x else y)"
| "arith_int _ x y = None"

fun arith_flt :: "'d fp \<Rightarrow> bop \<Rightarrow> 'd \<Rightarrow> 'd \<Rightarrow> 'd option" where
  "arith_flt F AddOp x y = Some (dbl_add F x y)"
| "arith_flt F SubOp x y = Some (dbl_sub F x y)"
| "arith_flt F MulOp x y = Some (dbl_mul F x y)"
| "arith_flt F DivOp x y = Some (dbl_div F x y)"
| "arith_flt F ModOp x y = Some (dbl_fmod F x y)"
| "arith_flt F MinOp x y = Some (if dbl_lt F x y then x else y)"
| "arith_flt F MaxOp x y = Some (if dbl_lt F y x then x else y)"
| "arith_flt F _ x y = None"

text \<open>The strict operators: arithmetic and comparison, on operands of one kind.\<close>

fun strict_op :: "'d fp \<Rightarrow> bop \<Rightarrow> 'd val \<Rightarrow> 'd val \<Rightarrow> 'd val option" where
  "strict_op F EQOp (VI x) (VI y) = Some (of_bool_val (x = y))"
| "strict_op F EQOp (VF x) (VF y) = Some (of_bool_val (dbl_eq F x y))"
| "strict_op F LTOp (VI x) (VI y) = Some (of_bool_val (x < y))"
| "strict_op F LTOp (VF x) (VF y) = Some (of_bool_val (dbl_lt F x y))"
| "strict_op F op (VI x) (VI y) = map_option VI (arith_int op x y)"
| "strict_op F op (VF x) (VF y) = map_option VF (arith_flt F op x y)"
| "strict_op F op _ _ = None"

type_synonym 'd env = "nat \<Rightarrow> 'd val option"
type_synonym 'd mem = "nat \<Rightarrow> 'd val option list option"

definition load :: "'d mem \<Rightarrow> nat \<Rightarrow> 'd val \<Rightarrow> 'd val option" where
  "load m b i = (case (m b, i) of
     (Some cells, VI k) \<Rightarrow> if 0 \<le> k \<and> k < int (length cells) then cells ! nat k else None
   | _ \<Rightarrow> None)"

text \<open>The value of a predicate; an undefined predicate always holds.\<close>

definition pred_val :: "'d PrimExpr \<Rightarrow> 'd val option \<Rightarrow> bool option" where
  "pred_val p v = (if p = NullExpr then Some True else Option.bind v truth)"

text \<open>The short-circuiting operators; the second operand is looked at only when needed.\<close>

fun lazy_op :: "bop \<Rightarrow> 'd val option \<Rightarrow> 'd val option \<Rightarrow> 'd val option" where
  "lazy_op AndOp a b = (case Option.bind a truth of
      Some True \<Rightarrow> map_option of_bool_val (Option.bind b truth)
    | Some False \<Rightarrow> Some (VI 0) | None \<Rightarrow> None)"
| "lazy_op OrOp a b = (case Option.bind a truth of
      Some True \<Rightarrow> Some (VI 1)
    | Some False \<Rightarrow> map_option of_bool_val (Option.bind b truth) | None \<Rightarrow> None)"
| "lazy_op _ a b = None"

definition bin_val :: "'d fp \<Rightarrow> bop \<Rightarrow> 'd val option \<Rightarrow> 'd val option \<Rightarrow> 'd val option" where
  "bin_val F op a b =
     (if op \<in> {AndOp, OrOp} then lazy_op op a b
      else Option.bind a (\<lambda>x. Option.bind b (strict_op F op x)))"

fun omap :: "('a \<Rightarrow> 'b option) \<Rightarrow> 'a list \<Rightarrow> 'b list option" where
  "omap f [] = Some []"
| "omap f (x # xs) = Option.bind (f x) (\<lambda>y. map_option (Cons y) (omap f xs))"

lemma omap_cong [fundef_cong]:
  "xs = ys \<Longrightarrow> (\<And>x. x \<in> set ys \<Longrightarrow> f x = g x) \<Longrightarrow> omap f xs = omap g ys"
  by (induction xs arbitrary: ys) auto

fun eval :: "'d fp \<Rightarrow> 'd sem \<Rightarrow> 'd env \<Rightarrow> 'd mem \<Rightarrow> 'd PrimExpr \<Rightarrow> 'd val option" where
  "eval F S en m NullExpr = None"
| "eval F S en m (IntImm v dt) = (if is_i64 v then chk S dt (VI v) else None)"
| "eval F S en m (FloatImm x dt) = chk S dt (VF x)"
| "eval F S en m (VarE v) = Option.bind (en (vid v)) (chk S (vdtype v))"
| "eval F S en m (Bin op a b) =
     Option.bind (bin_val F op (eval F S en m a) (eval F S en m b)) (chk S (dtype (Bin op a b)))"
| "eval F S en m (NotE a) =
     map_option (\<lambda>b. of_bool_val (\<not> b)) (Option.bind (eval F S en m a) truth)"
| "eval F S en m (Load b i p) =
     (case pred_val p (eval F S en m p) of
        Some True \<Rightarrow> Option.bind (eval F S en m i) (\<lambda>k.
           Option.bind (load m (vid b) k) (chk S (vdtype b)))
      | Some False \<Rightarrow> chk S (vdtype b) (zero_val F (vdtype b))
      | None \<Rightarrow> None)"
| "eval F S en m (Call dt f args) =
     Option.bind (omap (eval F S en m) args) (\<lambda>vs. Option.bind (callf S f vs) (chk S dt))"
| "eval F S en m (Select c t f) =
     (case Option.bind (eval F S en m c) truth of
        Some b \<Rightarrow> Option.bind (if b then eval F S en m t else eval F S en m f) (chk S (dtype t))
      | None \<Rightarrow> None)"

section \<open>Statements\<close>

fun ofold :: "('a \<Rightarrow> 's \<Rightarrow> 's option) \<Rightarrow> 'a list \<Rightarrow> 's \<Rightarrow> 's option" where
  "ofold f [] s = Some s"
| "ofold f (x # xs) s = Option.bind (f x s) (ofold f xs)"

lemma ofold_cong [fundef_cong]:
  "xs = ys \<Longrightarrow> s = t \<Longrightarrow> (\<And>x s. x \<in> set ys \<Longrightarrow> f x s = g x s) \<Longrightarrow> ofold f xs s = ofold g ys t"
proof (induction xs arbitrary: ys s t)
  case (Cons x xs)
  then have "f x t = g x t" and "\<And>u. ofold f xs u = ofold g xs u" by auto
  then show ?case using Cons.prems(1,2) by (cases "g x t") auto
qed simp

lemma ofold_append: "ofold f (xs @ ys) s = Option.bind (ofold f xs s) (ofold f ys)"
proof (induction xs arbitrary: s)
  case (Cons x xs)
  then show ?case by (cases "f x s") auto
qed simp

lemma ofold_map: "ofold f (map g xs) s = ofold (\<lambda>x. f (g x)) xs s"
proof (induction xs arbitrary: s)
  case (Cons x xs)
  then show ?case by (cases "f (g x) s") auto
qed simp

lemma ofold_concat: "ofold f (concat xss) s = ofold (ofold f) xss s"
proof (induction xss arbitrary: s)
  case (Cons xs xss)
  then show ?case by (cases "ofold f xs s") (auto simp: ofold_append)
qed simp

definition store :: "'d mem \<Rightarrow> nat \<Rightarrow> 'd val \<Rightarrow> 'd val \<Rightarrow> 'd mem option" where
  "store m b i v = (case (m b, i) of
     (Some cells, VI k) \<Rightarrow>
        if 0 \<le> k \<and> k < int (length cells) then Some (m(b \<mapsto> cells[nat k := Some v])) else None
   | _ \<Rightarrow> None)"

fun int_of_val :: "'d val \<Rightarrow> int option" where
  "int_of_val (VI i) = Some i"
| "int_of_val (VF x) = None"

text \<open>The number of elements an \<^verbatim>\<open>Allocate\<close> reserves.\<close>

definition alloc_size :: "'d val list \<Rightarrow> nat option" where
  "alloc_size vs = Option.bind (omap int_of_val vs)
     (\<lambda>ks. if \<forall>k \<in> set ks. 0 \<le> k then Some (nat (prod_list ks)) else None)"

text \<open>The values a loop variable takes: the counter and its bound must be representable.\<close>

definition loop_range :: "DataType \<Rightarrow> 'd val \<Rightarrow> 'd val \<Rightarrow> int list option" where
  "loop_range dt lo ext = (case (lo, ext) of
     (VI l, VI k) \<Rightarrow> if fits l dt \<and> fits (l + k) dt then Some [l..l + k - 1] else None
   | _ \<Rightarrow> None)"

fun exec :: "'d fp \<Rightarrow> 'd sem \<Rightarrow> 'd Stmt \<Rightarrow> 'd env \<Rightarrow> 'd mem \<Rightarrow> 'd mem option" where
  "exec F S NullStmt en m = Some m"
| "exec F S (LetStmt x v s) en m =
     Option.bind (eval F S en m v) (\<lambda>a. Option.bind (chk S (vdtype x) a)
       (\<lambda>a. exec F S s (en(vid x \<mapsto> a)) m))"
| "exec F S (Store b v i p) en m =
     (case pred_val p (eval F S en m p) of
        Some True \<Rightarrow>
          Option.bind (eval F S en m i) (\<lambda>k. Option.bind (eval F S en m v) (\<lambda>a.
          Option.bind (chk S (vdtype b) a) (store m (vid b) k)))
      | Some False \<Rightarrow> Some m
      | None \<Rightarrow> None)"
| "exec F S (For x lo ext ft s) en m =
     Option.bind (eval F S en m lo) (\<lambda>l. Option.bind (eval F S en m ext) (\<lambda>k.
     Option.bind (loop_range (vdtype x) l k)
       (\<lambda>is. ofold (\<lambda>i m. exec F S s (en(vid x \<mapsto> VI i)) m) is m)))"
| "exec F S (IfThenElse c t e) en m =
     (case Option.bind (eval F S en m c) truth of
        Some True \<Rightarrow> exec F S t en m | Some False \<Rightarrow> exec F S e en m | None \<Rightarrow> None)"
| "exec F S (Allocate b dt exts c s) en m =
     Option.bind (omap (eval F S en m) exts) (\<lambda>vs. Option.bind (alloc_size vs) (\<lambda>k.
     map_option (\<lambda>m'. m'(vid b := m (vid b)))
       (exec F S s en (m(vid b \<mapsto> replicate k None)))))"
| "exec F S (AttrStmt nd k v s) en m = None"
| "exec F S (Block ivs rds wrs nm s ini) en m = None"
| "exec F S (SeqStmt ss) en m = ofold (\<lambda>s m. exec F S s en m) ss m"
| "exec F S (Evaluate e) en m =
     (if e = NullExpr then Some m else map_option (\<lambda>_. m) (eval F S en m e))"

end
