(* ===== verification/TIR_Sound.thy ===== *)
theory TIR_Sound
  imports TIR_Semantics
begin

text \<open>
  How a transform is proved correct. \<open>esim\<close> and \<open>ssim\<close> say that a rewritten expression or
  statement has every defined behaviour of the original. They are congruences, so for a
  rewriter on the mutator it is enough that its hooks are correct on one rebuilt node: the
  locales \<open>expr_rewriter\<close> and \<open>stmt_rewriter\<close> carry a relation from the hooks to whole
  programs, \<open>fresh_tracking\<close> carries the fact that a rewriter only introduces variables whose
  addresses are new. Every transform interprets them.
\<close>

section \<open>Types and checked values\<close>

text \<open>A value of the smaller type is a value of the larger one.\<close>

definition dt_le :: "DataType \<Rightarrow> DataType \<Rightarrow> bool" where
  "dt_le d d' \<longleftrightarrow> d = d' \<or>
     (code d = code d' \<and> code d \<in> {0, 1} \<and> lanes d = 1 \<and> lanes d' = 1 \<and> bits d \<le> bits d')"

definition sem_ok :: "'d sem \<Rightarrow> bool" where
  "sem_ok S \<longleftrightarrow> (\<forall>b x. rnd S b (rnd S b x) = rnd S b x) \<and> (\<forall>x. rnd S 64 x = x)"

lemma dt_le_refl [simp, intro]: "dt_le d d"
  by (simp add: dt_le_def)

lemma dt_le_trans [trans]: "dt_le a b \<Longrightarrow> dt_le b c \<Longrightarrow> dt_le a c"
  by (auto simp: dt_le_def)

lemma fits_mono:
  assumes "dt_le d d'" "fits v d" shows "fits v d'"
proof (cases "d = d'")
  case False
  then have le: "code d = code d'" "lanes d' = 1" "bits d \<le> bits d'"
    using assms(1) by (auto simp: dt_le_def)
  have "(2::int) ^ (bits d - 1) \<le> 2 ^ (bits d' - 1)" "(2::int) ^ bits d \<le> 2 ^ bits d'"
    using le(3) by (auto intro: power_increasing)
  then show ?thesis using assms(2) le
    by (auto simp: fits_def simp del: power_increasing_iff)
qed (use assms in simp)

lemma fits_between: "fits l d \<Longrightarrow> fits u d \<Longrightarrow> l \<le> v \<Longrightarrow> v \<le> u \<Longrightarrow> fits v d"
  by (auto simp: fits_def)

lemma chk_mono: "dt_le d d' \<Longrightarrow> chk S d v = Some w \<Longrightarrow> chk S d' v = Some w"
  by (cases v) (auto simp: dt_le_def split: if_splits dest: fits_mono [rotated])

lemma chk_idem: "sem_ok S \<Longrightarrow> chk S d v = Some w \<Longrightarrow> chk S d w = Some w"
  by (cases v) (auto simp: sem_ok_def split: if_splits)

lemma chk_VI [simp]: "chk S d v = Some (VI i) \<longleftrightarrow> v = VI i \<and> fits i d"
  by (cases v) auto

lemma fits_bool [simp]: "fits 0 (dt_Bool (Suc 0))" "fits 1 (dt_Bool (Suc 0))"
  by (auto simp: fits_def dt_Bool_def dt_UInt_def)

lemma chk_of_bool [simp]: "chk S (dt_Bool (Suc 0)) (of_bool_val b) = Some (of_bool_val b)"
  by simp

text \<open>The value of an expression is a value of the type its node declares.\<close>

lemma eval_chk: "sem_ok S \<Longrightarrow> eval F S en m e = Some v \<Longrightarrow> chk S (dtype e) v = Some v"
  by (cases e)
    (auto simp: bind_eq_Some_conv simp del: of_bool_val.simps chk.simps intro: chk_idem
      split: if_splits option.splits bool.splits)

lemma eval_VI_fits: "sem_ok S \<Longrightarrow> eval F S en m e = Some (VI i) \<Longrightarrow> fits i (dtype e)"
  by (drule (1) eval_chk) (simp del: chk.simps)

section \<open>Simulation of expressions\<close>

definition esim :: "'d fp \<Rightarrow> 'd sem \<Rightarrow> 'd PrimExpr \<Rightarrow> 'd PrimExpr \<Rightarrow> bool" where
  "esim F S e e' \<longleftrightarrow> (e = NullExpr \<longrightarrow> e' = NullExpr) \<and> dt_le (dtype e) (dtype e') \<and>
     (\<forall>en m v. eval F S en m e = Some v \<longrightarrow> eval F S en m e' = Some v)"

lemma esimD [dest?]: "esim F S e e' \<Longrightarrow> eval F S en m e = Some v \<Longrightarrow> eval F S en m e' = Some v"
  by (simp add: esim_def)

lemma esim_dtype: "esim F S e e' \<Longrightarrow> dt_le (dtype e) (dtype e')"
  by (simp add: esim_def)

lemma esim_refl [simp, intro]: "esim F S e e"
  by (simp add: esim_def)

lemma esim_trans [trans]: "esim F S a b \<Longrightarrow> esim F S b c \<Longrightarrow> esim F S a c"
  by (auto simp: esim_def intro: dt_le_trans)

lemma esimI:
  "e \<noteq> NullExpr \<Longrightarrow> dt_le (dtype e) (dtype e') \<Longrightarrow>
   (\<And>en m v. eval F S en m e = Some v \<Longrightarrow> eval F S en m e' = Some v) \<Longrightarrow> esim F S e e'"
  by (simp add: esim_def)

text \<open>\<open>kids Rl e e'\<close>: the same node over children related by \<open>Rl\<close>.\<close>

inductive kids :: "('d PrimExpr \<Rightarrow> 'd PrimExpr \<Rightarrow> bool) \<Rightarrow> 'd PrimExpr \<Rightarrow> 'd PrimExpr \<Rightarrow> bool"
  for Rl where
  kids_int: "kids Rl (IntImm v dt) (IntImm v dt)"
| kids_flt: "kids Rl (FloatImm x dt) (FloatImm x dt)"
| kids_var: "kids Rl (VarE v) (VarE v)"
| kids_bin: "Rl a a' \<Longrightarrow> Rl b b' \<Longrightarrow> kids Rl (Bin op a b) (Bin op a' b')"
| kids_not: "Rl a a' \<Longrightarrow> kids Rl (NotE a) (NotE a')"
| kids_load: "Rl i i' \<Longrightarrow> Rl p p' \<Longrightarrow> kids Rl (Load b i p) (Load b i' p')"
| kids_call: "list_all2 Rl as as' \<Longrightarrow> kids Rl (Call dt f as) (Call dt f as')"
| kids_sel: "Rl c c' \<Longrightarrow> Rl t t' \<Longrightarrow> Rl f f' \<Longrightarrow> kids Rl (Select c t f) (Select c' t' f')"

inductive_cases kids_BinE: "kids Rl e (Bin op a' b')"
inductive_cases kids_NotEE: "kids Rl e (NotE a')"
inductive_cases kids_SelE: "kids Rl e (Select c' t' f')"
inductive_cases kids_LoadE: "kids Rl e (Load b i' p')"

lemma kids_mono: "kids Rl e e' \<Longrightarrow> (\<And>a b. Rl a b \<Longrightarrow> Rl' a b) \<Longrightarrow> kids Rl' e e'"
  by (induction rule: kids.induct) (auto intro: kids.intros list_all2_mono)

fun children :: "'d PrimExpr \<Rightarrow> 'd PrimExpr list" where
  "children (Bin op a b) = [a, b]"
| "children (NotE a) = [a]"
| "children (Load b i p) = [i, p]"
| "children (Call dt f as) = as"
| "children (Select c t f) = [c, t, f]"
| "children _ = []"

lemma lazy_op_mono:
  assumes "lazy_op op a b = Some v"
    and "\<And>x. a = Some x \<Longrightarrow> a' = Some x" and "\<And>x. b = Some x \<Longrightarrow> b' = Some x"
  shows "lazy_op op a' b' = Some v"
  using assms
  by (cases op; cases a; cases b) (auto split: option.splits bool.splits)

lemma bin_val_mono:
  assumes "bin_val F op a b = Some v"
    and "\<And>x. a = Some x \<Longrightarrow> a' = Some x" and "\<And>x. b = Some x \<Longrightarrow> b' = Some x"
  shows "bin_val F op a' b' = Some v"
proof (cases "op \<in> {AndOp, OrOp}")
  case True
  then show ?thesis using assms lazy_op_mono [of op a b v a' b'] by (simp add: bin_val_def)
next
  case False
  then show ?thesis using assms by (cases a; cases b) (simp_all add: bin_val_def)
qed

lemma omap_mono:
  assumes "list_all2 Q xs ys" "omap f xs = Some vs"
    and "\<And>x y v. Q x y \<Longrightarrow> f x = Some v \<Longrightarrow> g y = Some v"
  shows "omap g ys = Some vs"
  using assms
  by (induction arbitrary: vs rule: list_all2_induct) (auto simp: bind_eq_Some_conv)

lemma pred_val_mono:
  "esim F S p p' \<Longrightarrow> pred_val p (eval F S en m p) = Some c \<Longrightarrow> pred_val p' (eval F S en m p') = Some c"
  by (auto simp: pred_val_def esim_def bind_eq_Some_conv split: if_splits)

lemma kids_esim_dtype: "kids (esim F S) e e' \<Longrightarrow> dt_le (dtype e) (dtype e')"
  by (induction rule: kids.induct) (auto dest: esim_dtype)

lemma esim_cong: "kids (esim F S) e e' \<Longrightarrow> esim F S e e'"
proof (rule esimI)
  assume k: "kids (esim F S) e e'"
  show "e \<noteq> NullExpr" using k by (auto elim: kids.cases)
  show dt: "dt_le (dtype e) (dtype e')" using k by (rule kids_esim_dtype)
  fix en m v assume v: "eval F S en m e = Some v"
  from k v dt show "eval F S en m e' = Some v"
  proof cases
    case (kids_bin a a' b b' op)
    with v obtain w where w: "bin_val F op (eval F S en m a) (eval F S en m b) = Some w"
      "chk S (dtype e) w = Some v" by (auto simp: bind_eq_Some_conv)
    have "bin_val F op (eval F S en m a') (eval F S en m b') = Some w"
      using bin_val_mono [OF w(1)] kids_bin(3,4) by (simp add: esim_def)
    then show ?thesis using chk_mono [OF dt w(2)] kids_bin by simp
  next
    case (kids_load i i' p p' b)
    then show ?thesis using v pred_val_mono [OF kids_load(4), of en m]
      by (auto simp: bind_eq_Some_conv dest: esimD split: option.splits bool.splits)
  next
    case (kids_call as as' d f)
    then show ?thesis using v omap_mono [OF kids_call(3), of "eval F S en m" _ "eval F S en m"]
      by (auto simp: bind_eq_Some_conv esim_def)
  next
    case (kids_sel c c' t t' f f')
    then have "dt_le (dtype t) (dtype t')" by (simp add: esim_dtype)
    then show ?thesis using v kids_sel
      by (auto simp: bind_eq_Some_conv esim_def split: option.splits if_splits intro: chk_mono)
  qed (auto simp: bind_eq_Some_conv esim_def split: option.splits)
qed

locale expr_rewriter =
  fixes he :: "'d ehook" and P :: "'d PrimExpr \<Rightarrow> bool"
    and Rl :: "'d PrimExpr \<Rightarrow> 'd PrimExpr \<Rightarrow> bool"
  assumes Rl_null: "Rl NullExpr NullExpr"
    and P_child: "P e \<Longrightarrow> c \<in> set (children e) \<Longrightarrow> P c"
    and he_step: "P e \<Longrightarrow> kids Rl e e' \<Longrightarrow> Rl e (he e')"
begin

lemma rw_expr_rel: "P e \<Longrightarrow> Rl e (rw_expr he e)"
proof (induction e)
  case (Call dt f as)
  then have "list_all2 Rl as (map (rw_expr he) as)"
    using P_child by (auto simp: list.rel_map intro!: list.rel_refl_strong)
  then show ?case using Call.prems by (auto intro!: he_step kids.intros)
qed (auto intro!: he_step kids.intros Rl_null dest: P_child)

end

section \<open>Simulation of statements\<close>

definition ssim :: "'d fp \<Rightarrow> 'd sem \<Rightarrow> 'd Stmt \<Rightarrow> 'd Stmt \<Rightarrow> bool" where
  "ssim F S s s' \<longleftrightarrow> (\<forall>en m m'. exec F S s en m = Some m' \<longrightarrow> exec F S s' en m = Some m')"

lemma ssimD [dest?]: "ssim F S s s' \<Longrightarrow> exec F S s en m = Some m' \<Longrightarrow> exec F S s' en m = Some m'"
  by (simp add: ssim_def)

lemma ssimI: "(\<And>en m m'. exec F S s en m = Some m' \<Longrightarrow> exec F S s' en m = Some m') \<Longrightarrow> ssim F S s s'"
  by (simp add: ssim_def)

lemma ssim_refl [simp, intro]: "ssim F S s s"
  by (simp add: ssim_def)

lemma ssim_trans [trans]: "ssim F S a b \<Longrightarrow> ssim F S b c \<Longrightarrow> ssim F S a c"
  by (auto simp: ssim_def)

text \<open>The same statement over related expressions and statements.\<close>

inductive kids_s :: "('d PrimExpr \<Rightarrow> 'd PrimExpr \<Rightarrow> bool) \<Rightarrow> ('d Stmt \<Rightarrow> 'd Stmt \<Rightarrow> bool) \<Rightarrow>
    'd Stmt \<Rightarrow> 'd Stmt \<Rightarrow> bool" for Rl Sl where
  ks_let: "Rl v v' \<Longrightarrow> Sl s s' \<Longrightarrow> kids_s Rl Sl (LetStmt x v s) (LetStmt x v' s')"
| ks_store: "Rl v v' \<Longrightarrow> Rl i i' \<Longrightarrow> Rl p p' \<Longrightarrow> kids_s Rl Sl (Store b v i p) (Store b v' i' p')"
| ks_for: "Rl lo lo' \<Longrightarrow> Rl ext ext' \<Longrightarrow> Sl s s' \<Longrightarrow>
    kids_s Rl Sl (For x lo ext ft s) (For x lo' ext' ft s')"
| ks_if: "Rl c c' \<Longrightarrow> Sl t t' \<Longrightarrow> Sl e e' \<Longrightarrow> kids_s Rl Sl (IfThenElse c t e) (IfThenElse c' t' e')"
| ks_alloc: "list_all2 Rl exts exts' \<Longrightarrow> Rl c c' \<Longrightarrow> Sl s s' \<Longrightarrow>
    kids_s Rl Sl (Allocate b dt exts c s) (Allocate b dt exts' c' s')"
| ks_attr: "Rl v v' \<Longrightarrow> Sl s s' \<Longrightarrow> kids_s Rl Sl (AttrStmt nd k v s) (AttrStmt nd k v' s')"
| ks_block: "Sl s s' \<Longrightarrow> Sl ini ini' \<Longrightarrow>
    kids_s Rl Sl (Block ivs rds wrs nm s ini) (Block ivs' rds' wrs' nm s' ini')"
| ks_seq: "list_all2 Sl ss ss' \<Longrightarrow> kids_s Rl Sl (SeqStmt ss) (SeqStmt ss')"
| ks_eval: "Rl e e' \<Longrightarrow> kids_s Rl Sl (Evaluate e) (Evaluate e')"

inductive_cases kids_s_ForE: "kids_s Rl Sl s (For x lo' ext' ft s')"
inductive_cases kids_s_SeqE: "kids_s Rl Sl s (SeqStmt ss')"
inductive_cases kids_s_EvalE: "kids_s Rl Sl s (Evaluate e')"
inductive_cases kids_s_StoreE: "kids_s Rl Sl s (Store b v' i' p')"

lemma kids_s_mono:
  "kids_s Rl Sl s s' \<Longrightarrow> (\<And>a b. Rl a b \<Longrightarrow> Rl' a b) \<Longrightarrow> (\<And>a b. Sl a b \<Longrightarrow> Sl' a b) \<Longrightarrow>
   kids_s Rl' Sl' s s'"
  by (induction rule: kids_s.induct) (auto intro!: kids_s.intros elim: list_all2_mono)

lemma ofold_mono:
  assumes "list_all2 Q xs ys" "ofold f xs s = Some t"
    and "\<And>x y s t. Q x y \<Longrightarrow> f x s = Some t \<Longrightarrow> g y s = Some t"
  shows "ofold g ys s = Some t"
  using assms
  by (induction arbitrary: s rule: list_all2_induct) (auto simp: bind_eq_Some_conv)

lemma ofold_body_mono:
  assumes "ofold f xs s = Some t"
    and "\<And>x s t. x \<in> set xs \<Longrightarrow> f x s = Some t \<Longrightarrow> g x s = Some t"
  shows "ofold g xs s = Some t"
  using assms by (induction xs arbitrary: s) (auto simp: bind_eq_Some_conv)

text \<open>The two cases of a loop: evaluated bounds give the range, the range gives the run.\<close>

lemma exec_For_conv:
  "exec F S (For x lo ext ft s) en m = Some m' \<longleftrightarrow>
     (\<exists>l k. eval F S en m lo = Some (VI l) \<and> eval F S en m ext = Some (VI k) \<and>
       fits l (vdtype x) \<and> fits (l + k) (vdtype x) \<and>
       ofold (\<lambda>i m. exec F S s (en(vid x \<mapsto> VI i)) m) [l..l + k - 1] m = Some m')"
proof (cases "eval F S en m lo")
  case (Some l)
  then show ?thesis
    by (cases l; cases "eval F S en m ext") (auto simp: loop_range_def split: val.split)
qed simp

lemma ssim_cong: "kids_s (esim F S) (ssim F S) s s' \<Longrightarrow> ssim F S s s'"
proof (rule ssimI)
  fix en m m' assume k: "kids_s (esim F S) (ssim F S) s s'" and ex: "exec F S s en m = Some m'"
  from k ex show "exec F S s' en m = Some m'"
  proof cases
    case (ks_store v v' i i' p p' b)
    then show ?thesis using ex pred_val_mono [OF ks_store(5), of en m]
      by (auto simp: bind_eq_Some_conv esim_def split: option.splits bool.splits)
  next
    case (ks_for lo lo' ext ext' t t' x ft)
    from ex obtain l j where lj: "eval F S en m lo = Some (VI l)" "eval F S en m ext = Some (VI j)"
        "fits l (vdtype x)" "fits (l + j) (vdtype x)"
        "ofold (\<lambda>i m. exec F S t (en(vid x \<mapsto> VI i)) m) [l..l + j - 1] m = Some m'"
      unfolding ks_for exec_For_conv by auto
    have "ofold (\<lambda>i m. exec F S t' (en(vid x \<mapsto> VI i)) m) [l..l + j - 1] m = Some m'"
      using lj(5) by (rule ofold_body_mono) (use ks_for(5) in \<open>simp add: ssim_def\<close>)
    then show ?thesis using lj ks_for esimD unfolding ks_for(2) exec_For_conv by blast
  next
    case (ks_alloc exts exts' c c' t t' b dt)
    then show ?thesis using ex omap_mono [OF ks_alloc(3), of "eval F S en m" _ "eval F S en m"]
      by (auto simp: bind_eq_Some_conv esim_def ssim_def)
  next
    case (ks_seq ss ss')
    then show ?thesis using ex ofold_mono [OF ks_seq(3), of "\<lambda>s. exec F S s en" m m' "\<lambda>s. exec F S s en"]
      by (auto simp: ssim_def)
  next
    case (ks_eval e e')
    then show ?thesis using ex by (auto simp: esim_def split: if_splits)
  qed (auto simp: bind_eq_Some_conv esim_def ssim_def split: option.splits bool.splits)
qed

section \<open>Fresh variables\<close>

text \<open>All variables of a program have addresses below \<open>n\<close>.\<close>

fun ids_below_e :: "nat \<Rightarrow> 'd PrimExpr \<Rightarrow> bool" where
  "ids_below_e n (VarE v) = (vid v < n)"
| "ids_below_e n (Bin op a b) = (ids_below_e n a \<and> ids_below_e n b)"
| "ids_below_e n (NotE a) = ids_below_e n a"
| "ids_below_e n (Load b i p) = (vid b < n \<and> ids_below_e n i \<and> ids_below_e n p)"
| "ids_below_e n (Call dt f as) = list_all (ids_below_e n) as"
| "ids_below_e n (Select c t f) = (ids_below_e n c \<and> ids_below_e n t \<and> ids_below_e n f)"
| "ids_below_e n _ = True"

fun ids_below :: "nat \<Rightarrow> 'd Stmt \<Rightarrow> bool" where
  "ids_below n NullStmt = True"
| "ids_below n (LetStmt x v s) = (vid x < n \<and> ids_below_e n v \<and> ids_below n s)"
| "ids_below n (Store b v i p) =
     (vid b < n \<and> ids_below_e n v \<and> ids_below_e n i \<and> ids_below_e n p)"
| "ids_below n (For x lo ext ft s) =
     (vid x < n \<and> ids_below_e n lo \<and> ids_below_e n ext \<and> ids_below n s)"
| "ids_below n (IfThenElse c t e) = (ids_below_e n c \<and> ids_below n t \<and> ids_below n e)"
| "ids_below n (Allocate b dt exts c s) =
     (vid b < n \<and> list_all (ids_below_e n) exts \<and> ids_below_e n c \<and> ids_below n s)"
| "ids_below n (AttrStmt nd k v s) = (ids_below_e n v \<and> ids_below n s)"
| "ids_below n (Block ivs rds wrs nm s ini) = (ids_below n s \<and> ids_below n ini)"
| "ids_below n (SeqStmt ss) = list_all (ids_below n) ss"
| "ids_below n (Evaluate e) = ids_below_e n e"

lemma ids_below_e_mono: "ids_below_e n e \<Longrightarrow> n \<le> n' \<Longrightarrow> ids_below_e n' e"
  by (induction e) (auto simp: list_all_iff)

lemma ids_below_mono: "ids_below n s \<Longrightarrow> n \<le> n' \<Longrightarrow> ids_below n' s"
  by (induction s) (auto simp: list_all_iff dest: ids_below_e_mono)

text \<open>A binding of an address beyond those of the program is invisible to it.\<close>

lemma eval_fresh: "ids_below_e n e \<Longrightarrow> n \<le> k \<Longrightarrow> eval F S (en(k := x)) m e = eval F S en m e"
proof (induction e)
  case (Call dt f as)
  then have "omap (eval F S (en(k := x)) m) as = omap (eval F S en m) as"
    by (intro omap_cong) (auto simp: list_all_iff simp del: fun_upd_apply)
  then show ?case by (simp del: fun_upd_apply)
qed (simp_all del: fun_upd_apply split: option.split bool.split, simp)

lemma exec_fresh:
  "ids_below n s \<Longrightarrow> n \<le> k \<Longrightarrow> exec F S s (en(k := x)) m = exec F S s en m"
proof (induction s arbitrary: en m)
  case (For y lo ext ft t)
  have tw: "\<And>i. (en(k := x))(vid y \<mapsto> VI i) = (en(vid y \<mapsto> VI i))(k := x)"
    using For.prems by (simp add: fun_upd_twist)
  have "\<And>i. exec F S t ((en(k := x))(vid y \<mapsto> VI i)) = exec F S t (en(vid y \<mapsto> VI i))"
    unfolding tw using For.IH For.prems by (intro ext) (simp del: fun_upd_apply)
  then show ?case using For.prems by (simp add: eval_fresh [of n _ k] del: fun_upd_apply)
next
  case (LetStmt y v t)
  have tw: "\<And>a. (en(k := x))(vid y \<mapsto> a) = (en(vid y \<mapsto> a))(k := x)"
    using LetStmt.prems by (simp add: fun_upd_twist)
  have "\<And>a m. exec F S t ((en(k := x))(vid y \<mapsto> a)) m = exec F S t (en(vid y \<mapsto> a)) m"
    unfolding tw using LetStmt.IH LetStmt.prems by (simp del: fun_upd_apply)
  then show ?case using LetStmt.prems by (simp add: eval_fresh [of n _ k] del: fun_upd_apply)
next
  case (Allocate b dt exts c t)
  then have "omap (eval F S (en(k := x)) m) exts = omap (eval F S en m) exts"
    by (intro omap_cong) (auto simp: list_all_iff eval_fresh [of n _ k] simp del: fun_upd_apply)
  with Allocate show ?case by (simp del: fun_upd_apply)
next
  case (SeqStmt ss)
  then have "ofold (\<lambda>s. exec F S s (en(k := x))) ss m = ofold (\<lambda>s. exec F S s en) ss m"
    by (intro ofold_cong) (auto simp: list_all_iff simp del: fun_upd_apply)
  then show ?case by (simp del: fun_upd_apply)
qed (simp_all add: eval_fresh [of n _ k] del: fun_upd_apply split: option.split bool.split)

fun exprs_of :: "'d Stmt \<Rightarrow> 'd PrimExpr list" where
  "exprs_of (LetStmt x v s) = [v]"
| "exprs_of (Store b v i p) = [v, i, p]"
| "exprs_of (For x lo ext ft s) = [lo, ext]"
| "exprs_of (IfThenElse c t e) = [c]"
| "exprs_of (Allocate b dt exts c s) = c # exts"
| "exprs_of (AttrStmt nd k v s) = [v]"
| "exprs_of (Evaluate e) = [e]"
| "exprs_of _ = []"

fun stmts_of :: "'d Stmt \<Rightarrow> 'd Stmt list" where
  "stmts_of (LetStmt x v s) = [s]"
| "stmts_of (For x lo ext ft s) = [s]"
| "stmts_of (IfThenElse c t e) = [t, e]"
| "stmts_of (Allocate b dt exts c s) = [s]"
| "stmts_of (AttrStmt nd k v s) = [s]"
| "stmts_of (Block ivs rds wrs nm s ini) = [s, ini]"
| "stmts_of (SeqStmt ss) = ss"
| "stmts_of _ = []"

text \<open>The node the base method of the mutator rebuilds, before the hook sees it.\<close>

fun rebuild :: "'d ehook \<Rightarrow> 'd shook \<Rightarrow> 'd Stmt \<Rightarrow> nat \<Rightarrow> 'd Stmt \<times> nat" where
  "rebuild he hs NullStmt n = (NullStmt, n)"
| "rebuild he hs (LetStmt x v s) n =
     (let (s', n) = rw_stmt he hs s n in (LetStmt x (rw_expr he v) s', n))"
| "rebuild he hs (Store b v i p) n =
     (Store b (rw_expr he v) (rw_expr he i) (rw_expr he p), n)"
| "rebuild he hs (For x lo ext ft s) n =
     (let (s', n) = rw_stmt he hs s n in (For x (rw_expr he lo) (rw_expr he ext) ft s', n))"
| "rebuild he hs (IfThenElse c t e) n =
     (let (t', n) = rw_stmt he hs t n; (e', n) = rw_stmt he hs e n
      in (IfThenElse (rw_expr he c) t' e', n))"
| "rebuild he hs (Allocate b dt exts c s) n =
     (let (s', n) = rw_stmt he hs s n
      in (Allocate b dt (map (rw_expr he) exts) (rw_expr he c) s', n))"
| "rebuild he hs (AttrStmt nd k v s) n =
     (let (s', n) = rw_stmt he hs s n in (AttrStmt nd k (rw_expr he v) s', n))"
| "rebuild he hs (Block ivs rds wrs nm s ini) n =
     (let (s', n) = rw_stmt he hs s n; (ini', n) = rw_stmt he hs ini n
      in (Block (map (map_option (rw_iter_var he)) ivs) (map (map_option (rw_region he)) rds)
           (map (map_option (rw_region he)) wrs) nm s' ini', n))"
| "rebuild he hs (SeqStmt ss) n =
     (let (ss', n) = rw_stmts he hs ss n in (SeqStmt ss', n))"
| "rebuild he hs (Evaluate e) n = (Evaluate (rw_expr he e), n)"

lemma rw_stmt_rebuild:
  "s \<noteq> NullStmt \<Longrightarrow> rw_stmt he hs s n = hs (fst (rebuild he hs s n)) (snd (rebuild he hs s n))"
  by (cases s) (simp_all add: split_beta)

lemma stmt_children_induct:
  assumes "\<And>s. (\<And>t. t \<in> set (stmts_of s) \<Longrightarrow> Q t) \<Longrightarrow> Q s"
  shows "Q s"
  by (induction s) (rule assms; auto)+

locale fresh_tracking =
  fixes he :: "'d ehook" and hs :: "'d shook"
  assumes he_ids: "ids_below_e n e \<Longrightarrow> ids_below_e n (he e)"
    and hs_ids: "ids_below n s \<Longrightarrow> n \<le> snd (hs s n) \<and> ids_below (snd (hs s n)) (fst (hs s n))"
begin

lemma rw_expr_ids: "ids_below_e n e \<Longrightarrow> ids_below_e n (rw_expr he e)"
  by (induction e) (auto intro!: he_ids simp: list_all_iff)

lemma rw_expr_ids': "ids_below_e n e \<Longrightarrow> n \<le> n' \<Longrightarrow> ids_below_e n' (rw_expr he e)"
  by (rule ids_below_e_mono [OF rw_expr_ids])

text \<open>The claim about a statement, named so that the induction hypotheses stay small.\<close>

definition tracked :: "'d Stmt \<Rightarrow> bool" where
  "tracked s \<longleftrightarrow> (\<forall>n. ids_below n s \<longrightarrow>
     n \<le> snd (rw_stmt he hs s n) \<and> ids_below (snd (rw_stmt he hs s n)) (fst (rw_stmt he hs s n)))"

lemma trackedD:
  assumes "tracked s" "ids_below n s"
  shows "n \<le> snd (rw_stmt he hs s n)"
    and "ids_below (snd (rw_stmt he hs s n)) (fst (rw_stmt he hs s n))"
  using assms by (auto simp: tracked_def)

lemma rw_stmts_ids_step:
  assumes "\<And>s. s \<in> set ss \<Longrightarrow> tracked s" and "list_all (ids_below n) ss"
  shows "n \<le> snd (rw_stmts he hs ss n) \<and>
    list_all (ids_below (snd (rw_stmts he hs ss n))) (fst (rw_stmts he hs ss n))"
  using assms
proof (induction ss arbitrary: n)
  case Nil
  then show ?case by simp
next
  case (Cons s ss)
  define n1 where "n1 = snd (rw_stmt he hs s n)"
  have a: "n \<le> n1" "ids_below n1 (fst (rw_stmt he hs s n))"
    using Cons.prems trackedD [of s n] by (simp_all add: n1_def)
  have "list_all (ids_below n1) ss"
    using Cons.prems(2) a(1) ids_below_mono by (auto simp: list_all_iff)
  then have b: "n1 \<le> snd (rw_stmts he hs ss n1) \<and>
    list_all (ids_below (snd (rw_stmts he hs ss n1))) (fst (rw_stmts he hs ss n1))"
    using Cons.IH Cons.prems(1) by simp
  then have "ids_below (snd (rw_stmts he hs ss n1)) (fst (rw_stmt he hs s n))"
    using a ids_below_mono by blast
  then show ?case using a b by (simp add: split_beta n1_def [symmetric])
qed

lemma two_stmts_ids_step:
  assumes "tracked t" "tracked e" "ids_below n t" "ids_below n e"
  defines "n1 \<equiv> snd (rw_stmt he hs t n)"
  defines "n2 \<equiv> snd (rw_stmt he hs e n1)"
  shows "n \<le> n2" "ids_below n2 (fst (rw_stmt he hs t n))" "ids_below n2 (fst (rw_stmt he hs e n1))"
proof -
  have 1: "n \<le> n1" "ids_below n1 (fst (rw_stmt he hs t n))"
    using trackedD [OF assms(1,3)] by (simp_all add: n1_def)
  have e: "ids_below n1 e" using assms(4) 1(1) by (rule ids_below_mono)
  have 2: "n1 \<le> n2" "ids_below n2 (fst (rw_stmt he hs e n1))"
    using trackedD [OF assms(2) e] by (simp_all add: n2_def)
  show "n \<le> n2" "ids_below n2 (fst (rw_stmt he hs t n))" "ids_below n2 (fst (rw_stmt he hs e n1))"
    using 1 2 ids_below_mono by auto
qed

lemma rebuild_ids_step:
  assumes "\<And>t. t \<in> set (stmts_of s) \<Longrightarrow> tracked t" and "ids_below n s"
  shows "n \<le> snd (rebuild he hs s n) \<and> ids_below (snd (rebuild he hs s n)) (fst (rebuild he hs s n))"
proof (cases s)
  case (SeqStmt ss)
  then show ?thesis using assms rw_stmts_ids_step [of ss n] by (simp add: split_beta)
next
  case (IfThenElse c t e)
  then show ?thesis using assms two_stmts_ids_step [of t e n] rw_expr_ids' [of n]
    by (auto simp: split_beta)
next
  case (Block ivs rds wrs nm t e)
  then show ?thesis using assms two_stmts_ids_step [of t e n] by (auto simp: split_beta)
next
  case (Allocate b dt exts c t)
  then show ?thesis using assms trackedD [of t n] rw_expr_ids' [of n]
    by (auto simp: split_beta list_all_iff intro: less_le_trans)
next
  case (LetStmt x v t)
  then show ?thesis using assms trackedD [of t n] rw_expr_ids' [of n]
    by (auto simp: split_beta intro: less_le_trans)
next
  case (For x lo ext ft t)
  then show ?thesis using assms trackedD [of t n] rw_expr_ids' [of n]
    by (auto simp: split_beta intro: less_le_trans)
next
  case (AttrStmt nd k v t)
  then show ?thesis using assms trackedD [of t n] rw_expr_ids' [of n]
    by (auto simp: split_beta)
qed (use assms in \<open>auto simp: rw_expr_ids\<close>)

lemma all_tracked: "tracked s"
proof (induction s rule: stmt_children_induct)
  case (1 s)
  show ?case
  proof (cases "s = NullStmt")
    case False
    show ?thesis
      unfolding tracked_def rw_stmt_rebuild [OF False]
    proof (intro allI impI)
      fix n assume "ids_below n s"
      note r = rebuild_ids_step [OF 1 this]
      then show "n \<le> snd (hs (fst (rebuild he hs s n)) (snd (rebuild he hs s n))) \<and>
          ids_below (snd (hs (fst (rebuild he hs s n)) (snd (rebuild he hs s n))))
            (fst (hs (fst (rebuild he hs s n)) (snd (rebuild he hs s n))))"
        using hs_ids [of "snd (rebuild he hs s n)" "fst (rebuild he hs s n)"] by simp
    qed
  qed (simp add: tracked_def)
qed

lemma rw_stmt_ids:
  assumes "ids_below n s"
  shows "n \<le> snd (rw_stmt he hs s n)" "ids_below (snd (rw_stmt he hs s n)) (fst (rw_stmt he hs s n))"
  using trackedD [OF all_tracked assms] .

lemma rebuild_ids: "ids_below n s \<Longrightarrow> ids_below (snd (rebuild he hs s n)) (fst (rebuild he hs s n))"
  using rebuild_ids_step all_tracked by blast

end

section \<open>Loops from zero\<close>

text \<open>The loop transforms rely on the shape of the loops the lowering produces.\<close>

fun zero_lit :: "'d PrimExpr \<Rightarrow> bool" where
  "zero_lit (IntImm v dt) = (v = 0)"
| "zero_lit _ = False"

text \<open>Loops over a signed counter of at most 64 bits that start at the literal 0.\<close>

definition sint :: "DataType \<Rightarrow> bool" where
  "sint dt \<longleftrightarrow> code dt = 0 \<and> 0 < bits dt \<and> bits dt \<le> 64 \<and> lanes dt = 1"

fun loops0 :: "'d Stmt \<Rightarrow> bool" where
  "loops0 NullStmt = True"
| "loops0 (LetStmt x v s) = loops0 s"
| "loops0 (Store b v i p) = True"
| "loops0 (For x lo ext ft s) = (sint (vdtype x) \<and> zero_lit lo \<and> loops0 s)"
| "loops0 (IfThenElse c t e) = (loops0 t \<and> loops0 e)"
| "loops0 (Allocate b dt exts c s) = loops0 s"
| "loops0 (AttrStmt nd k v s) = loops0 s"
| "loops0 (Block ivs rds wrs nm s ini) = (loops0 s \<and> loops0 ini)"
| "loops0 (SeqStmt ss) = list_all loops0 ss"
| "loops0 (Evaluate e) = True"

lemma loops0_kids:
  assumes "kids_s Rl Sl s s'" "\<And>e e'. Rl e e' \<Longrightarrow> zero_lit e \<Longrightarrow> zero_lit e'"
    "\<And>t t'. Sl t t' \<Longrightarrow> loops0 t \<Longrightarrow> loops0 t'" "loops0 s"
  shows "loops0 s'"
  using assms by (cases rule: kids_s.cases) (auto elim: list_all2_list_all_imp)

section \<open>From hooks to programs\<close>

locale stmt_rewriter = expr_rewriter he P Rl + fresh_tracking he hs
  for he :: "'d ehook" and P :: "'d PrimExpr \<Rightarrow> bool"
    and Rl :: "'d PrimExpr \<Rightarrow> 'd PrimExpr \<Rightarrow> bool" and hs :: "'d shook" +
  fixes Ps :: "'d Stmt \<Rightarrow> bool" and Sl :: "'d Stmt \<Rightarrow> 'd Stmt \<Rightarrow> bool"
  assumes Sl_null: "Sl NullStmt NullStmt"
    and Ps_expr: "Ps s \<Longrightarrow> e \<in> set (exprs_of s) \<Longrightarrow> P e"
    and Ps_stmt: "Ps s \<Longrightarrow> t \<in> set (stmts_of s) \<Longrightarrow> Ps t"
    and hs_step: "Ps s \<Longrightarrow> kids_s Rl Sl s s' \<Longrightarrow> ids_below n s' \<Longrightarrow> Sl s (fst (hs s' n))"
begin

lemma rw_exprs_rel: "(\<And>e. e \<in> set es \<Longrightarrow> P e) \<Longrightarrow> list_all2 Rl es (map (rw_expr he) es)"
  by (auto simp: list.rel_map intro!: list.rel_refl_strong rw_expr_rel)

lemma rw_stmts_rel_step:
  assumes "\<And>s n. s \<in> set ss \<Longrightarrow> ids_below n s \<Longrightarrow> Sl s (fst (rw_stmt he hs s n))"
    and "list_all (ids_below n) ss"
  shows "list_all2 Sl ss (fst (rw_stmts he hs ss n))"
  using assms
proof (induction ss arbitrary: n)
  case (Cons s ss)
  then have "list_all (ids_below (snd (rw_stmt he hs s n))) ss"
    using rw_stmt_ids(1) [of n s] by (auto simp: list_all_iff intro: ids_below_mono [of n])
  then show ?case using Cons by (simp add: split_beta)
qed simp

lemma rebuild_kids_step:
  assumes "\<And>t n. t \<in> set (stmts_of s) \<Longrightarrow> ids_below n t \<Longrightarrow> Sl t (fst (rw_stmt he hs t n))"
    and "Ps s" "ids_below n s" "s \<noteq> NullStmt"
  shows "kids_s Rl Sl s (fst (rebuild he hs s n))"
proof -
  have ex: "\<And>e. e \<in> set (exprs_of s) \<Longrightarrow> Rl e (rw_expr he e)"
    using Ps_expr [OF assms(2)] rw_expr_rel by blast
  have later: "ids_below (snd (rw_stmt he hs t n)) e" if "ids_below n t" "ids_below n e" for t e
    using that rw_stmt_ids(1) ids_below_mono by blast
  show ?thesis
  proof (cases s)
    case (SeqStmt ss)
    then show ?thesis using assms rw_stmts_rel_step [of ss n]
      by (auto simp: split_beta intro!: kids_s.intros)
  next
    case (Allocate b dt exts c t)
    then show ?thesis using assms ex
      by (auto simp: split_beta list.rel_map intro!: kids_s.intros list.rel_refl_strong)
  qed (use assms ex later in \<open>auto simp: split_beta intro!: kids_s.intros\<close>)
qed

theorem rw_stmt_rel: "Ps s \<Longrightarrow> ids_below n s \<Longrightarrow> Sl s (fst (rw_stmt he hs s n))"
proof (induction s arbitrary: n rule: stmt_children_induct)
  case (1 s)
  show ?case
  proof (cases "s = NullStmt")
    case False
    have "kids_s Rl Sl s (fst (rebuild he hs s n))"
      using rebuild_kids_step [OF _ 1(2,3) False] 1(1) Ps_stmt [OF 1(2)] by blast
    then show ?thesis
      using hs_step [OF 1(2)] rebuild_ids [OF 1(3)] by (simp add: rw_stmt_rebuild False)
  qed (simp add: Sl_null)
qed

end

section \<open>An example\<close>

text \<open>
  A loop \<open>B[i + 0] = A[i] * (2.0 + 3.0)\<close> over six elements of type \<^verbatim>\<open>double\<close>, on which the
  hypotheses of the theorems about the transforms are discharged; the \<^verbatim>\<open>double\<close> literals are
  integers of the instance \<open>fp_int\<close>.
\<close>

definition sem_id :: "int sem" where
  "sem_id = \<lparr>rnd = (\<lambda>b x. x), callf = (\<lambda>nm vs. None)\<rparr>"

definition ex_A :: tir_var where "ex_A = \<lparr>vid = 0, name_hint = ''A'', vdtype = dt_Float 64 1\<rparr>"

definition ex_B :: tir_var where "ex_B = \<lparr>vid = 1, name_hint = ''B'', vdtype = dt_Float 64 1\<rparr>"

definition ex_i :: tir_var where "ex_i = \<lparr>vid = 2, name_hint = ''i'', vdtype = dt_Int 32 1\<rparr>"

definition ex_store :: "int Stmt" where
  "ex_store = Store ex_B
     (Bin MulOp (Load ex_A (VarE ex_i) NullExpr)
        (Bin AddOp (FloatImm 2 (dt_Float 64 1)) (FloatImm 3 (dt_Float 64 1))))
     (Bin AddOp (VarE ex_i) (IntImm 0 (dt_Int 32 1))) NullExpr"

definition ex_loop :: "int Stmt" where
  "ex_loop = For ex_i (IntImm 0 (dt_Int 32 1)) (IntImm 6 (dt_Int 32 1)) Parallel ex_store"

definition ex_fn :: "int PrimFunc" where
  "ex_fn = \<lparr>params = [ex_A, ex_B], body = ex_loop, buffer_map = [], attrs = []\<rparr>"

text \<open>A thread without a context, on a machine whose devices are all supported.\<close>

definition ex_pass_env :: pass_env where
  "ex_pass_env = (\<lambda>d. Inr (''cpu'', default_attributes), thread_start)"

lemma ex_pass_context [simp]: "attrs f = [] \<Longrightarrow> pass_context ex_pass_env f = Inr PassContext_undefined"
  by (simp add: pass_context_def ex_pass_env_def Current_def thread_start_def FromTIR_def PassContext_undefined_def)

lemma ex_fn_attrs [simp]: "attrs ex_fn = []"
  by (simp add: ex_fn_def)

definition ex_mem :: "int mem" where
  "ex_mem b = (if b = 0 then Some (map (\<lambda>k. Some (VF k)) [1, 2, 3, 4, 5, 6])
     else if b = 1 then Some [None, None, None, None, None, None] else None)"

definition ex_env :: "int env" where "ex_env v = None"

lemmas ex_defs = ex_fn_def ex_loop_def ex_store_def ex_A_def ex_B_def ex_i_def dt_defs

lemma ex_static:
  "ids_below 3 (body ex_fn)" "loops0 (body ex_fn)" "sem_ok sem_id" "64 \<le> ld_prec fp_int"
  by (simp_all add: ex_defs sint_def sem_ok_def sem_id_def fp_int_def)

lemma upto_0_5: "[0..(5::int)] = [0, 1, 2, 3, 4, 5]"
  by code_simp

lemmas ex_eval = ex_defs ex_mem_def ex_env_def loop_range_def fits_def upto_0_5 pred_val_def
  bin_val_def load_def store_def fp_int_def sem_id_def is_i64_def

lemma ex_runs:
  "map_option (\<lambda>m. m 1) (exec fp_int sem_id (body ex_fn) ex_env ex_mem) =
     Some (Some [Some (VF 5), Some (VF 10), Some (VF 15), Some (VF 20), Some (VF 25), Some (VF 30)])"
  by (simp add: ex_eval)

end
