(* ===== verification/TIR_Fold.thy ===== *)
theory TIR_Fold
  imports TIR_Sound
begin

text \<open>
  The constant folder of \<^verbatim>\<open>src/tir/transforms/fold_constant.cc\<close>. A function that reports
  success through its return value and stores its result through a pointer is modelled by an
  option. The integer folds compute in \<^verbatim>\<open>long double\<close>: each operand is converted (rounded
  to \<open>ld_prec\<close> significand bits), the result is rounded again, and it is compared with the
  converted bounds of \<^verbatim>\<open>int64_t\<close> before it is converted back.
\<close>

section \<open>Definitions\<close>

definition IsIntDType :: "DataType \<Rightarrow> bool" where
  "IsIntDType dt \<longleftrightarrow> code dt = 0 \<or> code dt = 1"

definition FitsInDType :: "int \<Rightarrow> DataType \<Rightarrow> bool" where
  "FitsInDType v dt =
     (if lanes dt \<noteq> 1 then False
      else if code dt = 0 then
        (if bits dt = 0 then False
         else if bits dt \<ge> 64 then True
         else v \<ge> - (2 ^ (bits dt - 1)) \<and> v \<le> 2 ^ (bits dt - 1) - 1)
      else if code dt = 1 then
        (if bits dt = 0 then False
         else if v < 0 then False
         else if bits dt \<ge> 63 then True
         else v \<le> 2 ^ bits dt - 1)
      else False)"

fun TryGetIntImm :: "'d PrimExpr \<Rightarrow> int option" where
  "TryGetIntImm (IntImm v dt) = Some v"
| "TryGetIntImm _ = None"

fun TryGetFloatImm :: "'d PrimExpr \<Rightarrow> 'd option" where
  "TryGetFloatImm (FloatImm x dt) = Some x"
| "TryGetFloatImm _ = None"

fun TryGetNumericConst :: "'d fp \<Rightarrow> 'd PrimExpr \<Rightarrow> 'd option" where
  "TryGetNumericConst F (IntImm v dt) = Some (dbl_of_int F v)"
| "TryGetNumericConst F (FloatImm x dt) = Some x"
| "TryGetNumericConst F _ = None"

definition TryMakeIntImm :: "int \<Rightarrow> DataType \<Rightarrow> 'd PrimExpr option" where
  "TryMakeIntImm v dt =
     (if \<not> IsIntDType dt then None
      else if \<not> FitsInDType v dt then None
      else Some (IntImm v dt))"

definition TryMakeFloatImm :: "'d fp \<Rightarrow> 'd \<Rightarrow> DataType \<Rightarrow> 'd PrimExpr option" where
  "TryMakeFloatImm F x dt =
     (if code dt \<noteq> 2 \<or> lanes dt \<noteq> 1 then None
      else if \<not> dbl_finite F x then None
      else Some (FloatImm x dt))"

text \<open>\<^verbatim>\<open>static_cast<long double>\<close> of an integer, and the common end of the first three folds.\<close>

definition to_ld :: "'d fp \<Rightarrow> int \<Rightarrow> int" where
  "to_ld F v = round_bits (ld_prec F) v"

definition ld_to_int64 :: "'d fp \<Rightarrow> int \<Rightarrow> int option" where
  "ld_to_int64 F result =
     (if result < to_ld F (- (2 ^ 63)) \<or> result > to_ld F (2 ^ 63 - 1) then None
      else Some (i64 result))"

definition TryFoldIntAdd :: "'d fp \<Rightarrow> int \<Rightarrow> int \<Rightarrow> int option" where
  "TryFoldIntAdd F lhs rhs = ld_to_int64 F (round_bits (ld_prec F) (to_ld F lhs + to_ld F rhs))"

definition TryFoldIntSub :: "'d fp \<Rightarrow> int \<Rightarrow> int \<Rightarrow> int option" where
  "TryFoldIntSub F lhs rhs = ld_to_int64 F (round_bits (ld_prec F) (to_ld F lhs - to_ld F rhs))"

definition TryFoldIntMul :: "'d fp \<Rightarrow> int \<Rightarrow> int \<Rightarrow> int option" where
  "TryFoldIntMul F lhs rhs = ld_to_int64 F (round_bits (ld_prec F) (to_ld F lhs * to_ld F rhs))"

definition TryFoldIntDiv :: "int \<Rightarrow> int \<Rightarrow> int option" where
  "TryFoldIntDiv lhs rhs =
     (if rhs = 0 then None
      else if lhs = - (2 ^ 63) \<and> rhs = - 1 then None
      else Some (lhs sdiv rhs))"

definition TryFoldIntMod :: "int \<Rightarrow> int \<Rightarrow> int option" where
  "TryFoldIntMod lhs rhs =
     (if rhs = 0 then None
      else if lhs = - (2 ^ 63) \<and> rhs = - 1 then None
      else Some (lhs smod rhs))"

definition TryFoldArithmetic ::
  "'d fp \<Rightarrow> 'd PrimExpr \<Rightarrow> 'd PrimExpr \<Rightarrow> DataType \<Rightarrow> (int \<Rightarrow> int \<Rightarrow> int option) \<Rightarrow> char \<Rightarrow>
   'd PrimExpr option" where
  "TryFoldArithmetic F lhs rhs out_dtype int_fold float_op =
     (if IsIntDType out_dtype then
        (case (TryGetIntImm lhs, TryGetIntImm rhs) of
           (Some l, Some r) \<Rightarrow>
             (case int_fold l r of
                Some result \<Rightarrow> TryMakeIntImm result out_dtype
              | None \<Rightarrow> None)
         | _ \<Rightarrow> None)
      else if code out_dtype = 2 then
        (case (TryGetFloatImm lhs, TryGetFloatImm rhs) of
           (Some l, Some r) \<Rightarrow>
             if float_op = CHR ''+'' then TryMakeFloatImm F (dbl_add F l r) out_dtype
             else if float_op = CHR ''-'' then TryMakeFloatImm F (dbl_sub F l r) out_dtype
             else if float_op = CHR ''*'' then TryMakeFloatImm F (dbl_mul F l r) out_dtype
             else if float_op = CHR ''/'' then
               (if dbl_eq F r (dbl_of_int F 0) then None
                else TryMakeFloatImm F (dbl_div F l r) out_dtype)
             else if float_op = CHR ''%'' then
               (if dbl_eq F r (dbl_of_int F 0) then None
                else TryMakeFloatImm F (dbl_fmod F l r) out_dtype)
             else None
         | _ \<Rightarrow> None)
      else None)"

definition TryFoldMinMax ::
  "'d fp \<Rightarrow> 'd PrimExpr \<Rightarrow> 'd PrimExpr \<Rightarrow> DataType \<Rightarrow> bool \<Rightarrow> 'd PrimExpr option" where
  "TryFoldMinMax F lhs rhs out_dtype is_min =
     (if IsIntDType out_dtype then
        (case (TryGetIntImm lhs, TryGetIntImm rhs) of
           (Some l, Some r) \<Rightarrow>
             TryMakeIntImm (if is_min then (if l < r then l else r) else (if l > r then l else r))
               out_dtype
         | _ \<Rightarrow> None)
      else if code out_dtype = 2 then
        (case (TryGetFloatImm lhs, TryGetFloatImm rhs) of
           (Some l, Some r) \<Rightarrow>
             TryMakeFloatImm F
               (if is_min then (if dbl_lt F l r then l else r) else (if dbl_lt F r l then l else r))
               out_dtype
         | _ \<Rightarrow> None)
      else None)"

definition TryFoldCompare ::
  "'d fp \<Rightarrow> 'd PrimExpr \<Rightarrow> 'd PrimExpr \<Rightarrow> bool \<Rightarrow> 'd PrimExpr option" where
  "TryFoldCompare F lhs rhs is_lt =
     (case (TryGetIntImm lhs, TryGetIntImm rhs) of
        (Some l, Some r) \<Rightarrow>
          Some (IntImm (if (if is_lt then l < r else l = r) then 1 else 0) (dt_Bool 1))
      | _ \<Rightarrow>
        (case (TryGetNumericConst F lhs, TryGetNumericConst F rhs) of
           (Some l, Some r) \<Rightarrow>
             Some (IntImm (if (if is_lt then dbl_lt F l r else dbl_eq F l r) then 1 else 0) (dt_Bool 1))
         | _ \<Rightarrow> None))"

text \<open>\<^verbatim>\<open>if (TryFold...(..., &folded)) return folded; return rewritten;\<close>\<close>

definition folded_or :: "'d PrimExpr option \<Rightarrow> 'd PrimExpr \<Rightarrow> 'd PrimExpr" where
  "folded_or r rewritten = (case r of Some e \<Rightarrow> e | None \<Rightarrow> rewritten)"

text \<open>The \<^verbatim>\<open>Visit*\<close> overrides, on the node the base method rebuilt.\<close>

fun FoldConstantRewriter :: "'d fp \<Rightarrow> 'd PrimExpr \<Rightarrow> 'd PrimExpr" where
  "FoldConstantRewriter F (Bin AddOp a b) = folded_or
     (TryFoldArithmetic F a b (dtype (Bin AddOp a b)) (TryFoldIntAdd F) CHR ''+'') (Bin AddOp a b)"
| "FoldConstantRewriter F (Bin SubOp a b) = folded_or
     (TryFoldArithmetic F a b (dtype (Bin SubOp a b)) (TryFoldIntSub F) CHR ''-'') (Bin SubOp a b)"
| "FoldConstantRewriter F (Bin MulOp a b) = folded_or
     (TryFoldArithmetic F a b (dtype (Bin MulOp a b)) (TryFoldIntMul F) CHR ''*'') (Bin MulOp a b)"
| "FoldConstantRewriter F (Bin DivOp a b) = folded_or
     (TryFoldArithmetic F a b (dtype (Bin DivOp a b)) TryFoldIntDiv CHR ''/'') (Bin DivOp a b)"
| "FoldConstantRewriter F (Bin ModOp a b) = folded_or
     (TryFoldArithmetic F a b (dtype (Bin ModOp a b)) TryFoldIntMod CHR ''%'') (Bin ModOp a b)"
| "FoldConstantRewriter F (Bin MinOp a b) = folded_or
     (TryFoldMinMax F a b (dtype (Bin MinOp a b)) True) (Bin MinOp a b)"
| "FoldConstantRewriter F (Bin MaxOp a b) = folded_or
     (TryFoldMinMax F a b (dtype (Bin MaxOp a b)) False) (Bin MaxOp a b)"
| "FoldConstantRewriter F (Bin EQOp a b) = folded_or (TryFoldCompare F a b False) (Bin EQOp a b)"
| "FoldConstantRewriter F (Bin LTOp a b) = folded_or (TryFoldCompare F a b True) (Bin LTOp a b)"
| "FoldConstantRewriter F (Bin AndOp a b) =
     (case (TryGetIntImm a, TryGetIntImm b) of
        (Some l, Some r) \<Rightarrow> IntImm (if l \<noteq> 0 \<and> r \<noteq> 0 then 1 else 0) (dt_Bool 1)
      | _ \<Rightarrow> Bin AndOp a b)"
| "FoldConstantRewriter F (Bin OrOp a b) =
     (case (TryGetIntImm a, TryGetIntImm b) of
        (Some l, Some r) \<Rightarrow> IntImm (if l \<noteq> 0 \<or> r \<noteq> 0 then 1 else 0) (dt_Bool 1)
      | _ \<Rightarrow> Bin OrOp a b)"
| "FoldConstantRewriter F (NotE a) =
     (case TryGetIntImm a of Some v \<Rightarrow> IntImm (if v = 0 then 1 else 0) (dt_Bool 1) | None \<Rightarrow> NotE a)"
| "FoldConstantRewriter F (Select c t f) =
     (case TryGetIntImm c of Some v \<Rightarrow> (if v \<noteq> 0 then t else f) | None \<Rightarrow> Select c t f)"
| "FoldConstantRewriter F e = e"

definition FoldConstantPass :: "pass_env \<Rightarrow> 'd fp \<Rightarrow> 'd PrimFunc \<Rightarrow> nat \<Rightarrow> tir_error + 'd PrimFunc \<times> nat" where
  "FoldConstantPass E F f n = MutatePrimFunc E (FoldConstantRewriter F) keep_stmt f n"

section \<open>Ranges and exactness of the integer folds\<close>

lemma TryGetIntImm_Some [simp]: "TryGetIntImm e = Some v \<longleftrightarrow> (\<exists>dt. e = IntImm v dt)"
  by (cases e) auto

lemma TryGetFloatImm_Some [simp]: "TryGetFloatImm e = Some v \<longleftrightarrow> (\<exists>dt. e = FloatImm v dt)"
  by (cases e) auto

lemma FitsInDType_fits:
  assumes "is_i64 v" shows "FitsInDType v dt \<longleftrightarrow> fits v dt"
proof -
  have "(2::int) ^ 63 \<le> 2 ^ (bits dt - 1)" if "bits dt \<ge> 64"
    using that by (intro power_increasing) auto
  moreover have "(2::int) ^ 63 \<le> 2 ^ bits dt" if "bits dt \<ge> 63"
    using that by (intro power_increasing) auto
  ultimately show ?thesis
    using assms by (auto simp: FitsInDType_def fits_def is_i64_def)
qed

lemma to_ld_exact:
  assumes "64 \<le> ld_prec F" "\<bar>v\<bar> \<le> 2 ^ 64" shows "to_ld F v = v"
proof -
  have "(2::int) ^ 64 \<le> 2 ^ ld_prec F" using assms(1) by (intro power_increasing) auto
  then show ?thesis using assms by (auto simp: to_ld_def intro!: round_bits_exact)
qed

lemma ld_to_int64_exact:
  assumes "64 \<le> ld_prec F"
  shows "ld_to_int64 F (round_bits (ld_prec F) v) = (if is_i64 v then Some v else None)"
proof -
  have P: "(2::int) ^ 64 \<le> 2 ^ ld_prec F" "0 < ld_prec F"
    using assms by (intro power_increasing, auto)
  have bounds: "to_ld F (- (2 ^ 63)) = - (2 ^ 63)" "to_ld F (2 ^ 63 - 1) = 2 ^ 63 - 1"
    using assms by (auto intro!: to_ld_exact)
  have conv: "ld_to_int64 F k = (if is_i64 k then Some k else None)" for k
    unfolding ld_to_int64_def bounds by (auto simp: is_i64_def)
  show ?thesis
  proof (cases "\<bar>v\<bar> \<le> 2 ^ ld_prec F")
    case True
    then have "round_bits (ld_prec F) v = v" using P(2) by (rule round_bits_exact [rotated])
    then show ?thesis by (simp add: conv)
  next
    case False
    then have "2 ^ 64 \<le> \<bar>round_bits (ld_prec F) v\<bar>"
      using round_bits_large [of "ld_prec F" v] round_bits_large [of "ld_prec F" "- v"] P
      by (auto simp: round_bits_minus abs_if split: if_splits)
    then have "\<not> is_i64 (round_bits (ld_prec F) v)"
      by (simp add: is_i64_def abs_if split: if_splits)
    moreover have "\<not> is_i64 v"
      using False P(1) by (simp add: is_i64_def abs_if split: if_splits)
    ultimately show ?thesis by (simp add: conv)
  qed
qed

lemmas fold_int_defs = TryFoldIntAdd_def TryFoldIntSub_def TryFoldIntMul_def

lemma TryFoldInt_exact:
  assumes "64 \<le> ld_prec F" "is_i64 l" "is_i64 r"
  shows "TryFoldIntAdd F l r = (if is_i64 (l + r) then Some (l + r) else None)"
    and "TryFoldIntSub F l r = (if is_i64 (l - r) then Some (l - r) else None)"
    and "TryFoldIntMul F l r = (if is_i64 (l * r) then Some (l * r) else None)"
proof -
  have "to_ld F l = l" "to_ld F r = r"
    using assms by (auto intro!: to_ld_exact simp: is_i64_def)
  then show "TryFoldIntAdd F l r = (if is_i64 (l + r) then Some (l + r) else None)"
    and "TryFoldIntSub F l r = (if is_i64 (l - r) then Some (l - r) else None)"
    and "TryFoldIntMul F l r = (if is_i64 (l * r) then Some (l * r) else None)"
    by (simp_all add: fold_int_defs ld_to_int64_exact [OF assms(1)])
qed

lemma sdiv_smod_i64:
  assumes "is_i64 l" "is_i64 r" "r \<noteq> 0" "\<not> (l = - (2 ^ 63) \<and> r = - 1)"
  shows "is_i64 (l sdiv r)" "is_i64 (l smod r)"
proof -
  have q: "\<bar>l sdiv r\<bar> = \<bar>l\<bar> div \<bar>r\<bar>"
    using assms(3)
    by (cases "l = 0") (simp_all add: signed_divide_int_def abs_mult abs_sgn_eq pos_imp_zdiv_nonneg_iff)
  show "is_i64 (l sdiv r)"
  proof (cases "\<bar>r\<bar> = 1")
    case True
    then have "r = 1 \<or> r = - 1" by linarith
    then show ?thesis using assms by (auto simp: signed_divide_int_def is_i64_def mult_sgn_abs)
  next
    case False
    then have "2 \<le> \<bar>r\<bar>" using assms(3) by linarith
    then have "\<bar>l\<bar> div \<bar>r\<bar> \<le> \<bar>l\<bar> div 2" by (intro zdiv_mono2) auto
    then show ?thesis using q assms(1) by (auto simp: is_i64_def abs_le_iff)
  qed
  show "is_i64 (l smod r)"
    using assms(2) smod_int_range [OF assms(3), of l] by (auto simp: is_i64_def)
qed

section \<open>The programs whose meaning the expression passes keep\<close>

text \<open>
  \<open>may_fold e\<close>: folding and simplification can turn \<open>e\<close> into a literal.
\<close>

fun may_fold :: "'d PrimExpr \<Rightarrow> bool" where
  "may_fold (IntImm v dt) = True"
| "may_fold (FloatImm x dt) = True"
| "may_fold (Bin op a b) = (may_fold a \<and> may_fold b)"
| "may_fold (NotE a) = may_fold a"
| "may_fold (Select c t f) = (may_fold t \<or> may_fold f)"
| "may_fold _ = False"

text \<open>The operand is no floating-point zero, now or after rewriting.\<close>

fun nonzero_flt :: "'d fp \<Rightarrow> 'd PrimExpr \<Rightarrow> bool" where
  "nonzero_flt F (FloatImm x dt) = (\<not> dbl_eq F x (dbl_of_int F 0))"
| "nonzero_flt F e = (\<not> may_fold e)"

text \<open>
  The conditions under which the expression passes are exact: constant subexpressions of
  floating-point type are of type \<^verbatim>\<open>double\<close>, the type the folder computes in; no operand of a
  floating-point addition is a zero literal, which the simplifier drops without regard to
  the sign of zero; a constant left operand of an addition or product is not wider than the
  right one, whose type the result takes when the constant is dropped; both branches of a
  \<open>Select\<close> have one type.
\<close>

definition wt_bin :: "'d fp \<Rightarrow> bop \<Rightarrow> 'd PrimExpr \<Rightarrow> 'd PrimExpr \<Rightarrow> bool" where
  "wt_bin F op a b \<longleftrightarrow>
     (code (dtype a) = 2 \<and> may_fold a \<and> may_fold b \<longrightarrow>
        bits (dtype a) = 64 \<and> bits (dtype b) = 64) \<and>
     (op \<in> {AddOp, MulOp} \<and> may_fold a \<longrightarrow> dt_le (dtype a) (dtype b)) \<and>
     (op = AddOp \<and> code (dtype a) = 2 \<longrightarrow> nonzero_flt F a \<and> nonzero_flt F b) \<and>
     (op = SubOp \<and> code (dtype a) = 2 \<longrightarrow> nonzero_flt F b)"

fun wt_e :: "'d fp \<Rightarrow> 'd PrimExpr \<Rightarrow> bool" where
  "wt_e F (Bin op a b) = (wt_bin F op a b \<and> wt_e F a \<and> wt_e F b)"
| "wt_e F (NotE a) = wt_e F a"
| "wt_e F (Load b i p) = (wt_e F i \<and> wt_e F p)"
| "wt_e F (Call dt f as) = list_all (wt_e F) as"
| "wt_e F (Select c t f) = (dtype t = dtype f \<and> wt_e F c \<and> wt_e F t \<and> wt_e F f)"
| "wt_e F _ = True"

fun wt_s :: "'d fp \<Rightarrow> 'd Stmt \<Rightarrow> bool" where
  "wt_s F NullStmt = True"
| "wt_s F (LetStmt x v s) = (wt_e F v \<and> wt_s F s)"
| "wt_s F (Store b v i p) = (wt_e F v \<and> wt_e F i \<and> wt_e F p)"
| "wt_s F (For x lo ext ft s) = (wt_e F lo \<and> wt_e F ext \<and> wt_s F s)"
| "wt_s F (IfThenElse c t e) = (wt_e F c \<and> wt_s F t \<and> wt_s F e)"
| "wt_s F (Allocate b dt exts c s) = (list_all (wt_e F) exts \<and> wt_e F c \<and> wt_s F s)"
| "wt_s F (AttrStmt nd k v s) = (wt_e F v \<and> wt_s F s)"
| "wt_s F (Block ivs rds wrs nm s ini) = (wt_s F s \<and> wt_s F ini)"
| "wt_s F (SeqStmt ss) = list_all (wt_s F) ss"
| "wt_s F (Evaluate e) = wt_e F e"

lemma wt_e_child: "wt_e F e \<Longrightarrow> c \<in> set (children e) \<Longrightarrow> wt_e F c"
  by (cases e) (auto simp: list_all_iff)

lemma wt_s_expr: "wt_s F s \<Longrightarrow> e \<in> set (exprs_of s) \<Longrightarrow> wt_e F e"
  by (cases s) (auto simp: list_all_iff)

lemma wt_s_stmt: "wt_s F s \<Longrightarrow> t \<in> set (stmts_of s) \<Longrightarrow> wt_s F t"
  by (cases s) (auto simp: list_all_iff)

lemma wt_e_kids:
  assumes "kids Rl e e'" "\<And>c c'. Rl c c' \<Longrightarrow> wt_e F c'" "\<And>c c'. Rl c c' \<Longrightarrow> dtype c' = dtype c"
    "\<And>c c'. Rl c c' \<Longrightarrow> may_fold c' \<Longrightarrow> may_fold c"
    "\<And>c c'. Rl c c' \<Longrightarrow> nonzero_flt F c \<Longrightarrow> nonzero_flt F c'" "wt_e F e"
  shows "wt_e F e'"
  using assms
proof (cases rule: kids.cases)
  case (kids_bin a a' b b' op)
  then have "wt_bin F op a' b'"
    using assms(3-6) by (simp add: wt_bin_def)
  then show ?thesis using kids_bin assms(2) by simp
next
  case (kids_call as as' dt f)
  from kids_call(3) have "list_all (wt_e F) as'"
    by (induction rule: list_all2_induct) (auto intro: assms(2))
  then show ?thesis using kids_call by simp
next
  case (kids_sel c c' t t' f f')
  then show ?thesis using assms by auto
qed auto

section \<open>Folding one node\<close>

text \<open>What the folder guarantees of the node it returns for a rebuilt node.\<close>

definition fold_step :: "'d fp \<Rightarrow> 'd sem \<Rightarrow> 'd PrimExpr \<Rightarrow> 'd PrimExpr \<Rightarrow> bool" where
  "fold_step F S e e' \<longleftrightarrow> esim F S e e' \<and> dtype e' = dtype e \<and> (may_fold e' \<longrightarrow> may_fold e) \<and>
     wt_e F e' \<and> (\<forall>x dt. e = FloatImm x dt \<longrightarrow> e' = e)"

lemma eval_lits [simp]:
  "eval F S en m (IntImm v dt) = Some w \<longleftrightarrow> is_i64 v \<and> fits v dt \<and> w = VI v"
  "sem_ok S \<Longrightarrow> bits dt = 64 \<Longrightarrow> eval F S en m (FloatImm x dt) = Some w \<longleftrightarrow> code dt = 2 \<and> w = VF x"
  by (auto simp: sem_ok_def)

lemma TryMakeIntImm_Some:
  "TryMakeIntImm k dt = Some e \<longleftrightarrow> IsIntDType dt \<and> FitsInDType k dt \<and> e = IntImm k dt"
  by (auto simp: TryMakeIntImm_def)

lemma TryMakeFloatImm_Some:
  "TryMakeFloatImm F x dt = Some e \<longleftrightarrow>
     code dt = 2 \<and> lanes dt = 1 \<and> dbl_finite F x \<and> e = FloatImm x dt"
  by (auto simp: TryMakeFloatImm_def)

lemma eval_Bin_strict:
  "op \<notin> {AndOp, OrOp} \<Longrightarrow> eval F S en m (Bin op a b) = Some v \<longleftrightarrow>
     (\<exists>x y w. eval F S en m a = Some x \<and> eval F S en m b = Some y \<and> strict_op F op x y = Some w \<and>
        chk S (dtype (Bin op a b)) w = Some v)"
  by (simp add: bin_val_def bind_eq_Some_conv)

text \<open>Two literals under a strict operator.\<close>

lemma esim_int_lits:
  assumes "\<And>k. is_i64 l \<Longrightarrow> is_i64 r \<Longrightarrow> arith_int op l r = Some k \<Longrightarrow> k = j \<and> is_i64 j" "is_arith op"
  shows "esim F S (Bin op (IntImm l d1) (IntImm r d2)) (IntImm j d1)"
proof (rule esimI)
  fix en m v
  assume "eval F S en m (Bin op (IntImm l d1) (IntImm r d2)) = Some v"
  moreover have "op \<notin> {AndOp, OrOp, EQOp, LTOp}" using assms(2) by auto
  ultimately obtain k where "is_i64 l" "is_i64 r" "arith_int op l r = Some k" "fits k d1" "v = VI k"
    using assms(2) by (cases op) (auto simp: bin_val_def split: if_splits)
  then show "eval F S en m (IntImm j d1) = Some v" using assms(1) by auto
qed (use assms in auto)

lemma esim_flt_lits:
  assumes "sem_ok S" "bits d1 = 64" "bits d2 = 64" "is_arith op" "arith_flt F op l r = Some j"
  shows "esim F S (Bin op (FloatImm l d1) (FloatImm r d2)) (FloatImm j d1)"
proof (rule esimI)
  fix en m v
  assume "eval F S en m (Bin op (FloatImm l d1) (FloatImm r d2)) = Some v"
  then show "eval F S en m (FloatImm j d1) = Some v"
    using assms by (cases op) (auto simp: bin_val_def sem_ok_def split: if_splits)
qed (use assms in auto)

text \<open>The pairs of an operator and the functions the folder computes it with.\<close>

definition fold_fns :: "'d fp \<Rightarrow> bop \<Rightarrow> (int \<Rightarrow> int \<Rightarrow> int option) \<Rightarrow> char \<Rightarrow> bool" where
  "fold_fns F op int_fold c \<longleftrightarrow>
     (op, c) \<in> {(AddOp, CHR ''+''), (SubOp, CHR ''-''), (MulOp, CHR ''*''), (DivOp, CHR ''/''),
       (ModOp, CHR ''%'')} \<and>
     (\<forall>l r j. is_i64 l \<longrightarrow> is_i64 r \<longrightarrow> int_fold l r = Some j \<longrightarrow> arith_int op l r = Some j \<and> is_i64 j)"

lemma fold_fns_table:
  assumes "64 \<le> ld_prec F"
  shows "fold_fns F AddOp (TryFoldIntAdd F) CHR ''+''" "fold_fns F SubOp (TryFoldIntSub F) CHR ''-''"
    "fold_fns F MulOp (TryFoldIntMul F) CHR ''*''" "fold_fns F DivOp TryFoldIntDiv CHR ''/''"
    "fold_fns F ModOp TryFoldIntMod CHR ''%''"
  using assms sdiv_smod_i64
  by (auto simp: fold_fns_def TryFoldInt_exact TryFoldIntDiv_def TryFoldIntMod_def split: if_splits)

lemma TryFoldArithmetic_cases:
  assumes "TryFoldArithmetic F a b (dtype a) int_fold c = Some e'" "fold_fns F op int_fold c"
  obtains l r d1 d2 j where "a = IntImm l d1" "b = IntImm r d2" "int_fold l r = Some j"
      "e' = IntImm j d1"
  | l r d1 d2 j where "a = FloatImm l d1" "b = FloatImm r d2" "arith_flt F op l r = Some j"
      "e' = FloatImm j d1" "code d1 = 2"
  using assms
  by (auto simp: TryFoldArithmetic_def fold_fns_def TryMakeIntImm_Some TryMakeFloatImm_Some
      split: option.splits if_splits)

lemma fold_step_refl: "wt_e F e \<Longrightarrow> fold_step F S e e"
  by (simp add: fold_step_def)

lemma TryFoldArithmetic_step:
  assumes "TryFoldArithmetic F a b (dtype a) int_fold c = Some e'" "fold_fns F op int_fold c"
    and "sem_ok S" "wt_bin F op a b"
  shows "fold_step F S (Bin op a b) e'"
  using assms(1,2)
proof (cases rule: TryFoldArithmetic_cases)
  case (1 l r d1 d2 j)
  have "is_arith op" using assms(2) by (auto simp: fold_fns_def)
  moreover have "k = j \<and> is_i64 j" if "is_i64 l" "is_i64 r" "arith_int op l r = Some k" for k
  proof -
    have "arith_int op l r = Some j \<and> is_i64 j"
      using assms(2) 1(3) that(1,2) unfolding fold_fns_def by blast
    with that(3) show ?thesis by simp
  qed
  ultimately have "esim F S (Bin op a b) e'" unfolding 1 by (intro esim_int_lits)
  then show ?thesis using 1 \<open>is_arith op\<close> by (simp add: fold_step_def)
next
  case (2 l r d1 d2 j)
  have ar: "is_arith op" using assms(2) by (auto simp: fold_fns_def)
  have "bits d1 = 64" "bits d2 = 64" using assms(4) 2 by (simp_all add: wt_bin_def)
  then have "esim F S (Bin op a b) e'" unfolding 2 using assms(3) ar 2(3) by (intro esim_flt_lits)
  then show ?thesis using 2 ar by (simp add: fold_step_def)
qed

lemma TryFoldMinMax_step:
  assumes "TryFoldMinMax F a b (dtype a) is_min = Some e'" "sem_ok S" "wt_bin F op a b"
    and "op = (if is_min then MinOp else MaxOp)"
  shows "fold_step F S (Bin op a b) e'"
  using assms
  by (auto simp: TryFoldMinMax_def TryMakeIntImm_Some TryMakeFloatImm_Some fold_step_def wt_bin_def
      split: option.splits if_splits intro!: esim_int_lits esim_flt_lits)

lemma esim_bool_lit:
  assumes "\<And>en m v. eval F S en m e = Some v \<Longrightarrow> v = VI (if c then 1 else 0)" "e \<noteq> NullExpr"
    "dtype e = dt_Bool 1"
  shows "esim F S e (IntImm (if c then 1 else 0) (dt_Bool 1))"
proof (rule esimI)
  fix en m v assume "eval F S en m e = Some v"
  then show "eval F S en m (IntImm (if c then 1 else 0) (dt_Bool 1)) = Some v"
    by (drule_tac assms(1)) (auto simp: is_i64_def)
qed (use assms in simp_all)

lemma TryFoldCompare_step:
  assumes "TryFoldCompare F a b is_lt = Some e'" "sem_ok S" "wt_bin F op a b"
    and op: "op = (if is_lt then LTOp else EQOp)"
  shows "fold_step F S (Bin op a b) e'"
proof -
  obtain c where c: "e' = IntImm (if c then 1 else 0) (dt_Bool 1)" "may_fold a" "may_fold b"
    "\<And>en m v. eval F S en m (Bin op a b) = Some v \<Longrightarrow> v = VI (if c then 1 else 0)"
  proof (cases a; cases b)
    fix l d1 r d2 assume ab: "a = IntImm l d1" "b = IntImm r d2"
    show thesis
      by (rule that [of "if is_lt then l < r else l = r"])
        (use assms(1) op ab in \<open>auto simp: TryFoldCompare_def eval_Bin_strict simp del: eval.simps\<close>)
  next
    fix l d1 r d2 assume ab: "a = FloatImm l d1" "b = FloatImm r d2"
    show thesis
    proof (cases "code d1 = 2")
      case True
      then have "bits d1 = 64" "bits d2 = 64" using assms(3) ab by (auto simp: wt_bin_def)
      then show thesis
        by (intro that [of "if is_lt then dbl_lt F l r else dbl_eq F l r"])
          (use assms(1,2) op ab in \<open>auto simp: TryFoldCompare_def eval_Bin_strict simp del: eval.simps\<close>)
    next
      case False
      show thesis
        by (rule that [of "if is_lt then dbl_lt F l r else dbl_eq F l r"])
          (use False assms(1) op ab in \<open>auto simp: TryFoldCompare_def eval_Bin_strict simp del: eval.simps(5)\<close>)
    qed
  next
    fix l d1 r d2 assume ab: "a = IntImm l d1" "b = FloatImm r d2"
    show thesis
      by (rule that [of "if is_lt then dbl_lt F (dbl_of_int F l) r else dbl_eq F (dbl_of_int F l) r"])
        (use assms(1) op ab in \<open>auto simp: TryFoldCompare_def eval_Bin_strict simp del: eval.simps(5)
          split: if_splits\<close>)
  next
    fix l d1 r d2 assume ab: "a = FloatImm l d1" "b = IntImm r d2"
    show thesis
      by (rule that [of "if is_lt then dbl_lt F l (dbl_of_int F r) else dbl_eq F l (dbl_of_int F r)"])
        (use assms(1) op ab in \<open>auto simp: TryFoldCompare_def eval_Bin_strict simp del: eval.simps(5)
          split: if_splits\<close>)
  qed (use assms(1) in \<open>auto simp: TryFoldCompare_def\<close>)
  have "esim F S (Bin op a b) e'" unfolding c(1) using c(4) op by (intro esim_bool_lit) auto
  then show ?thesis using c op by (simp add: fold_step_def)
qed

lemma fold_logic_step:
  assumes "op = AndOp \<and> c = (l \<noteq> 0 \<and> r \<noteq> 0) \<or> op = OrOp \<and> c = (l \<noteq> 0 \<or> r \<noteq> 0)"
  shows "fold_step F S (Bin op (IntImm l d1) (IntImm r d2)) (IntImm (if c then 1 else 0) (dt_Bool 1))"
proof -
  have "esim F S (Bin op (IntImm l d1) (IntImm r d2)) (IntImm (if c then 1 else 0) (dt_Bool 1))"
  proof (rule esim_bool_lit)
    fix en m v
    assume "eval F S en m (Bin op (IntImm l d1) (IntImm r d2)) = Some v"
    then show "v = VI (if c then 1 else 0)"
      using assms by (auto simp: bin_val_def split: if_splits bool.splits)
  qed (use assms in auto)
  then show ?thesis using assms by (auto simp: fold_step_def)
qed

lemma fold_not_step:
  "fold_step F S (NotE (IntImm v d)) (IntImm (if v = 0 then 1 else 0) (dt_Bool 1))"
proof -
  have "esim F S (NotE (IntImm v d)) (IntImm (if v = 0 then 1 else 0) (dt_Bool 1))"
    by (rule esim_bool_lit) (auto split: if_splits)
  then show ?thesis by (simp add: fold_step_def)
qed

lemma fold_and_or_step:
  assumes "op = AndOp \<or> op = OrOp" "wt_e F (Bin op a b)"
  shows "fold_step F S (Bin op a b) (FoldConstantRewriter F (Bin op a b))"
proof (cases "\<exists>l d1 r d2. a = IntImm l d1 \<and> b = IntImm r d2")
  case True
  then obtain l d1 r d2 where ab: "a = IntImm l d1" "b = IntImm r d2" by blast
  from assms(1) show ?thesis
  proof
    assume op: "op = AndOp"
    have "FoldConstantRewriter F (Bin op a b) = IntImm (if l \<noteq> 0 \<and> r \<noteq> 0 then 1 else 0) (dt_Bool 1)"
      by (simp add: ab op)
    then show ?thesis using fold_logic_step [of AndOp "l \<noteq> 0 \<and> r \<noteq> 0" l r F S d1 d2]
      by (simp only: ab op simp_thms)
  next
    assume op: "op = OrOp"
    have "FoldConstantRewriter F (Bin op a b) = IntImm (if l \<noteq> 0 \<or> r \<noteq> 0 then 1 else 0) (dt_Bool 1)"
      by (simp add: ab op)
    then show ?thesis using fold_logic_step [of OrOp "l \<noteq> 0 \<or> r \<noteq> 0" l r F S d1 d2]
      by (simp only: ab op simp_thms)
  qed
next
  case False
  then have "TryGetIntImm a = None \<or> TryGetIntImm b = None" by (cases a; cases b) auto
  then have "FoldConstantRewriter F (Bin op a b) = Bin op a b"
    using assms(1) by (auto split: option.split)
  then show ?thesis using assms(2) by (simp only: fold_step_refl)
qed

lemma fold_select_step:
  assumes "sem_ok S" "wt_e F (Select (IntImm v d) t f)"
  shows "fold_step F S (Select (IntImm v d) t f) (if v \<noteq> 0 then t else f)"
proof -
  have "esim F S (Select (IntImm v d) t f) (if v \<noteq> 0 then t else f)"
    using assms eval_chk [OF assms(1)]
    by (intro esimI) (auto simp: bind_eq_Some_conv split: if_splits, (metis option.inject)+)
  then show ?thesis using assms by (simp add: fold_step_def)
qed

lemma folded_or_step:
  "wt_e F e \<Longrightarrow> (\<And>e'. r = Some e' \<Longrightarrow> fold_step F S e e') \<Longrightarrow> fold_step F S e (folded_or r e)"
  by (cases r) (auto simp: folded_or_def fold_step_refl)

lemma FoldConstantRewriter_step:
  assumes "64 \<le> ld_prec F" "sem_ok S" "wt_e F e"
  shows "fold_step F S e (FoldConstantRewriter F e)"
proof (cases e)
  case (Bin op a b)
  then have wt: "wt_e F (Bin op a b)" "wt_bin F op a b" using assms(3) by simp_all
  note ar = folded_or_step [OF wt(1) TryFoldArithmetic_step [OF _ _ assms(2) wt(2)]]
  note mm = folded_or_step [OF wt(1) TryFoldMinMax_step [OF _ assms(2) wt(2)]]
  note cp = folded_or_step [OF wt(1) TryFoldCompare_step [OF _ assms(2) wt(2)]]
  show ?thesis
    unfolding Bin using ar mm cp fold_fns_table [OF assms(1)] fold_and_or_step [OF _ wt(1)]
    by (cases op) (simp_all del: FoldConstantRewriter.simps(10,11))
next
  case (NotE a)
  show ?thesis
  proof (cases "TryGetIntImm a")
    case None
    then show ?thesis using assms(3) NotE by (simp add: fold_step_refl)
  next
    case (Some v)
    then obtain d where a: "a = IntImm v d" by auto
    have "FoldConstantRewriter F e = IntImm (if v = 0 then 1 else 0) (dt_Bool 1)"
      by (simp add: NotE a)
    then show ?thesis using fold_not_step by (simp only: NotE a)
  qed
next
  case (Select c t f)
  show ?thesis
  proof (cases "TryGetIntImm c")
    case None
    then show ?thesis using assms(3) Select by (simp add: fold_step_refl)
  next
    case (Some v)
    then obtain d where c: "c = IntImm v d" by auto
    have "FoldConstantRewriter F e = (if v \<noteq> 0 then t else f)" by (simp add: Select c)
    then show ?thesis using fold_select_step [OF assms(2)] assms(3) by (simp only: Select c)
  qed
qed (use assms in \<open>auto simp: fold_step_refl\<close>)

section \<open>The pass\<close>

lemma fold_step_nonzero:
  "fold_step F S e e' \<Longrightarrow> nonzero_flt F e \<Longrightarrow> nonzero_flt F e'"
  by (cases e; cases e') (auto simp: fold_step_def)

lemma fold_step_cong:
  assumes "kids (fold_step F S) e e'" "wt_e F e"
  shows "fold_step F S e e'"
proof -
  have "wt_e F e'"
    using assms(1) _ _ _ fold_step_nonzero assms(2)
    by (rule wt_e_kids) (auto simp: fold_step_def)
  moreover have "esim F S e e'"
    by (rule esim_cong, rule kids_mono [OF assms(1)]) (simp add: fold_step_def)
  moreover have "dtype e' = dtype e" "may_fold e' \<longrightarrow> may_fold e"
    using assms(1) by (auto elim!: kids.cases simp: fold_step_def)
  moreover have "\<forall>x dt. e = FloatImm x dt \<longrightarrow> e' = e"
    using assms(1) by (auto elim: kids.cases)
  ultimately show ?thesis by (simp add: fold_step_def)
qed

lemma fold_step_trans:
  "fold_step F S a b \<Longrightarrow> fold_step F S b c \<Longrightarrow> fold_step F S a c"
  unfolding fold_step_def using esim_trans by metis

lemma FoldConstantRewriter_ids:
  "ids_below_e n e \<Longrightarrow> ids_below_e n (FoldConstantRewriter F e)"
proof (cases "(F, e)" rule: FoldConstantRewriter.cases)
qed (auto simp: folded_or_def TryFoldArithmetic_def TryFoldMinMax_def TryFoldCompare_def
  TryMakeIntImm_def TryMakeFloatImm_def split: option.splits if_splits)

lemma wt_s_kids:
  assumes "kids_s Rl Sl s s'" "\<And>e e'. Rl e e' \<Longrightarrow> wt_e F e'" "\<And>t t'. Sl t t' \<Longrightarrow> wt_s F t'"
  shows "wt_s F s'"
  using assms by (cases rule: kids_s.cases) (auto elim: list_all2_list_all_right)

definition fold_rel_e :: "'d fp \<Rightarrow> 'd sem \<Rightarrow> 'd PrimExpr \<Rightarrow> 'd PrimExpr \<Rightarrow> bool" where
  "fold_rel_e F S e e' \<longleftrightarrow> fold_step F S e e' \<and> (zero_lit e \<longrightarrow> zero_lit e')"

definition fold_rel_s :: "'d fp \<Rightarrow> 'd sem \<Rightarrow> 'd Stmt \<Rightarrow> 'd Stmt \<Rightarrow> bool" where
  "fold_rel_s F S s s' \<longleftrightarrow> ssim F S s s' \<and> wt_s F s' \<and> (loops0 s \<longrightarrow> loops0 s')"

lemma FoldConstantRewriter_zero_lit:
  "kids Rl e e' \<Longrightarrow> zero_lit e \<Longrightarrow> zero_lit (FoldConstantRewriter F e')"
  by (cases e) (auto elim: kids.cases)

lemma fold_rel_s_cong:
  assumes "kids_s (fold_rel_e F S) (fold_rel_s F S) s s'"
  shows "fold_rel_s F S s s'"
proof -
  have "ssim F S s s'"
    by (rule ssim_cong, rule kids_s_mono [OF assms])
      (simp_all add: fold_rel_e_def fold_step_def fold_rel_s_def)
  moreover have "wt_s F s'"
    using assms by (rule wt_s_kids) (simp_all add: fold_rel_e_def fold_step_def fold_rel_s_def)
  moreover have "loops0 s \<longrightarrow> loops0 s'"
    using loops0_kids [OF assms] by (auto simp: fold_rel_e_def fold_rel_s_def)
  ultimately show ?thesis by (simp add: fold_rel_s_def)
qed

interpretation fold_vars: var_keeping "FoldConstantRewriter F"
  by unfold_locales simp

interpretation fold_fresh: fresh_tracking "FoldConstantRewriter F" keep_stmt
  by unfold_locales (simp_all add: FoldConstantRewriter_ids)

text \<open>
  The folder meets the interface of a rewriter when \<^verbatim>\<open>long double\<close> has the 64-bit significand
  of x86; otherwise the hypothesis is false and the relation is trivial.
\<close>

interpretation fold_rw: stmt_rewriter "FoldConstantRewriter F"
  "\<lambda>e. wt_e F e \<and> 64 \<le> ld_prec F \<and> sem_ok S" "fold_rel_e F S" keep_stmt
  "\<lambda>s. wt_s F s \<and> 64 \<le> ld_prec F \<and> sem_ok S" "fold_rel_s F S"
proof unfold_locales
  fix e e' assume P: "wt_e F e \<and> 64 \<le> ld_prec F \<and> sem_ok S" and k: "kids (fold_rel_e F S) e e'"
  have k': "kids (fold_step F S) e e'"
    using k by (rule kids_mono) (simp add: fold_rel_e_def)
  then have "fold_step F S e e'" using P by (blast intro: fold_step_cong)
  moreover from this have "fold_step F S e' (FoldConstantRewriter F e')"
    using P by (intro FoldConstantRewriter_step) (auto simp: fold_step_def)
  ultimately have "fold_step F S e (FoldConstantRewriter F e')" by (rule fold_step_trans)
  then show "fold_rel_e F S e (FoldConstantRewriter F e')"
    using FoldConstantRewriter_zero_lit [OF k] by (simp add: fold_rel_e_def)
next
  fix s s' n assume "kids_s (fold_rel_e F S) (fold_rel_s F S) s s'"
  then show "fold_rel_s F S s (fst (keep_stmt s' n))" using fold_rel_s_cong by simp
qed (auto simp: fold_rel_e_def fold_step_refl fold_rel_s_def intro: wt_e_child wt_s_expr wt_s_stmt)

lemma FoldConstantPass_total:
  "FoldConstantPass E F f n = sbind (pass_context E f) (\<lambda>_. Inr (rw_func (FoldConstantRewriter F) keep_stmt f n))"
  by (simp add: FoldConstantPass_def MutatePrimFunc_def fold_vars.VisitPrimFunc_total)

lemma FoldConstantPass_rel:
  assumes "64 \<le> ld_prec F" "sem_ok S" "wt_s F (body f)" "ids_below n (body f)"
    and "rw_func (FoldConstantRewriter F) keep_stmt f n = (f', n')"
  shows "fold_rel_s F S (body f) (body f') \<and> n \<le> n' \<and> ids_below n' (body f')"
  using assms fold_rw.rw_stmt_rel [of F "body f" S n] fold_fresh.rw_stmt_ids [of n "body f" F]
    body_rw_func [of "FoldConstantRewriter F" keep_stmt f n]
    snd_rw_func [of "FoldConstantRewriter F" keep_stmt f n]
  by simp

section \<open>Properties\<close>

text \<open>
C3. Constant folding preserves the meaning of every well-typed function: when \<^verbatim>\<open>long double\<close>
  has at least 64 significand bits, the pass throws only what deriving the context of the function
  throws, and otherwise every run of the original body that is defined is a run
  of the folded body with the same effect on memory, and the folded body is well-typed again.
\<close>

theorem fold_constant_preserves:
  assumes "64 \<le> ld_prec F" "sem_ok S" "wt_s F (body f)" "ids_below n (body f)"
  shows "\<exists>g k. FoldConstantPass E F f n = sbind (pass_context E f) (\<lambda>_. Inr (g, k)) \<and> wt_s F (body g) \<and>
    (\<forall>en m m'. exec F S (body f) en m = Some m' \<longrightarrow> exec F S (body g) en m = Some m')"
proof -
  obtain g k where g: "rw_func (FoldConstantRewriter F) keep_stmt f n = (g, k)" by (metis surj_pair)
  then have "FoldConstantPass E F f n = sbind (pass_context E f) (\<lambda>_. Inr (g, k))"
    by (simp add: FoldConstantPass_total)
  then show ?thesis
    using FoldConstantPass_rel [OF assms g] by (auto simp: fold_rel_s_def ssim_def)
qed

lemma ex_wt: "wt_s fp_int (body ex_fn)"
  by (simp add: ex_defs wt_bin_def dt_le_def fp_int_def round_bits_small)

theorem fold_constant_preserves_witness:
  "\<exists>g k. FoldConstantPass ex_pass_env fp_int ex_fn 3 = Inr (g, k) \<and>
     map_option (\<lambda>m. m 1) (exec fp_int sem_id (body g) ex_env ex_mem) =
       Some (Some [Some (VF 5), Some (VF 10), Some (VF 15), Some (VF 20), Some (VF 25), Some (VF 30)])"
proof -
  obtain m' where "exec fp_int sem_id (body ex_fn) ex_env ex_mem = Some m'"
    using ex_runs by (cases "exec fp_int sem_id (body ex_fn) ex_env ex_mem") auto
  then show ?thesis
    using fold_constant_preserves [OF ex_static(4,3) ex_wt ex_static(1), of ex_pass_env] ex_runs by fastforce
qed

text \<open>
C11. On operands of type \<^verbatim>\<open>int64_t\<close>, and with a \<^verbatim>\<open>long double\<close> of at least 64 significand bits,
  the folds of addition, subtraction and multiplication succeed exactly when the
  mathematical result is an \<^verbatim>\<open>int64_t\<close>, and then return it.
\<close>

theorem fold_int_exact:
  assumes "64 \<le> ld_prec F" "is_i64 l" "is_i64 r"
  shows "TryFoldIntAdd F l r = (if is_i64 (l + r) then Some (l + r) else None) \<and>
    TryFoldIntSub F l r = (if is_i64 (l - r) then Some (l - r) else None) \<and>
    TryFoldIntMul F l r = (if is_i64 (l * r) then Some (l * r) else None)"
  using TryFoldInt_exact [OF assms] by simp

theorem fold_int_exact_witness:
  "TryFoldIntAdd fp_int (2 ^ 62) (2 ^ 62) = None \<and> TryFoldIntSub fp_int 5 (2 ^ 62) = Some (5 - 2 ^ 62) \<and>
   TryFoldIntMul fp_int (2 ^ 31) (2 ^ 31) = Some (2 ^ 62)"
  using fold_int_exact [of fp_int "2 ^ 62" "2 ^ 62"] fold_int_exact [of fp_int 5 "2 ^ 62"]
    fold_int_exact [of fp_int "2 ^ 31" "2 ^ 31"]
  by (simp add: is_i64_def fp_int_def)

text \<open>
On a platform whose \<^verbatim>\<open>long double\<close> has the 53 significand bits of \<^verbatim>\<open>double\<close>, the folder
  replaces the sum of the 64-bit literals \<open>2 ^ 53\<close> and 1 by the literal \<open>2 ^ 53\<close>, although the
  exact sum is representable.
\<close>

lemma fold_inexact_on_53_bits:
  "ld_prec F = 53 \<longrightarrow>
   FoldConstantRewriter F (Bin AddOp (IntImm (2 ^ 53) (dt_Int 64 1)) (IntImm 1 (dt_Int 64 1))) =
     IntImm (2 ^ 53) (dt_Int 64 1)"
proof
  assume p: "ld_prec F = 53"
  have r: "round_bits 53 9007199254740993 = 9007199254740992"
    "round_bits 53 9007199254740992 = 9007199254740992" "round_bits 53 1 = 1"
    "round_bits 53 (- 9223372036854775808) = - 9223372036854775808"
    "round_bits 53 9223372036854775807 = 9223372036854775808"
    by code_simp+
  show "FoldConstantRewriter F (Bin AddOp (IntImm (2 ^ 53) (dt_Int 64 1)) (IntImm 1 (dt_Int 64 1))) =
     IntImm (2 ^ 53) (dt_Int 64 1)"
    by (simp add: folded_or_def TryFoldArithmetic_def IsIntDType_def dt_Int_def TryFoldIntAdd_def
        ld_to_int64_def to_ld_def p r TryMakeIntImm_def FitsInDType_def is_i64_def)
qed

lemma fold_inexact_on_53_bits_witness:
  "FoldConstantRewriter (fp_int\<lparr>ld_prec := 53\<rparr>)
     (Bin AddOp (IntImm (2 ^ 53) (dt_Int 64 1)) (IntImm 1 (dt_Int 64 1))) = IntImm (2 ^ 53) (dt_Int 64 1)"
  using fold_inexact_on_53_bits [of "fp_int\<lparr>ld_prec := 53\<rparr>"] by simp

text \<open>
\<^verbatim>\<open>FitsInDType\<close>, with its cases for widths of 63 and more, decides for every \<^verbatim>\<open>int64_t\<close> and
  every scalar type whether the value lies in the range of the type: a lane count other than
  one, the width 0 and the non-integer types have no values.
\<close>

lemma fits_in_dtype_range:
  assumes "is_i64 v"
  shows "FitsInDType v dt \<longleftrightarrow> lanes dt = 1 \<and> bits dt \<noteq> 0 \<and>
     (code dt = 0 \<and> - (2 ^ (bits dt - 1)) \<le> v \<and> v < 2 ^ (bits dt - 1) \<or>
      code dt = 1 \<and> 0 \<le> v \<and> v < 2 ^ bits dt)"
  using FitsInDType_fits [OF assms] by (simp add: fits_def)

lemma fits_in_dtype_range_witness:
  "FitsInDType (- 128) (dt_Int 8 1) \<and> \<not> FitsInDType 128 (dt_Int 8 1) \<and> FitsInDType 255 (dt_UInt 8 1)"
  using fits_in_dtype_range [of "- 128" "dt_Int 8 1"] fits_in_dtype_range [of 128 "dt_Int 8 1"]
    fits_in_dtype_range [of 255 "dt_UInt 8 1"]
  by (simp add: is_i64_def dt_defs)

end
