(* ===== verification/TIR_Simplify.thy ===== *)
theory TIR_Simplify
  imports TIR_Fold
begin

text \<open>
  The algebraic simplifier of \<^verbatim>\<open>src/tir/transforms/simplify_expr.cc\<close>, which drops neutral
  operands of additions, subtractions, products and quotients.
\<close>

section \<open>Definitions\<close>

fun SimplifyExprRewriter :: "'d fp \<Rightarrow> 'd PrimExpr \<Rightarrow> 'd PrimExpr" where
  "SimplifyExprRewriter F (Bin AddOp a b) =
     (if IsConstZero F b then a else if IsConstZero F a then b else Bin AddOp a b)"
| "SimplifyExprRewriter F (Bin SubOp a b) = (if IsConstZero F b then a else Bin SubOp a b)"
| "SimplifyExprRewriter F (Bin MulOp a b) =
     (if IsConstOne F b then a else if IsConstOne F a then b else Bin MulOp a b)"
| "SimplifyExprRewriter F (Bin DivOp a b) = (if IsConstOne F b then a else Bin DivOp a b)"
| "SimplifyExprRewriter F e = e"

definition SimplifyExprPass :: "pass_env \<Rightarrow> 'd fp \<Rightarrow> 'd PrimFunc \<Rightarrow> nat \<Rightarrow> tir_error + 'd PrimFunc \<times> nat" where
  "SimplifyExprPass E F f n = MutatePrimFunc E (SimplifyExprRewriter F) keep_stmt f n"

section \<open>One node\<close>

text \<open>
  The laws of floating-point arithmetic the simplifier relies on: 1.0 is the only value that
  compares equal to 1.0, every format represents it, and it is neutral. No law on 0.0 is
  assumed, since \<^verbatim>\<open>x + 0.0\<close> is not \<^verbatim>\<open>x\<close> for the negative zero.
\<close>

definition unit_ok :: "'d fp \<Rightarrow> 'd sem \<Rightarrow> bool" where
  "unit_ok F S \<longleftrightarrow> sem_ok S \<and> fp_int_ok F \<and>
     (\<forall>x. dbl_eq F x (dbl_of_int F 1) \<longrightarrow> x = dbl_of_int F 1) \<and>
     (\<forall>b. rnd S b (dbl_of_int F 1) = dbl_of_int F 1) \<and>
     (\<forall>y. dbl_mul F y (dbl_of_int F 1) = y \<and> dbl_mul F (dbl_of_int F 1) y = y \<and>
        dbl_div F y (dbl_of_int F 1) = y)"

definition simp_rel_e :: "'d fp \<Rightarrow> 'd sem \<Rightarrow> 'd PrimExpr \<Rightarrow> 'd PrimExpr \<Rightarrow> bool" where
  "simp_rel_e F S e e' \<longleftrightarrow> esim F S e e' \<and> (may_fold e' \<longrightarrow> may_fold e) \<and>
     (\<forall>x dt. e = FloatImm x dt \<longrightarrow> e' = e) \<and> (zero_lit e \<longrightarrow> zero_lit e')"

lemma simp_rel_e_nonzero:
  "simp_rel_e F S e e' \<Longrightarrow> nonzero_flt F e \<Longrightarrow> nonzero_flt F e'"
  by (cases e; cases e') (auto simp: simp_rel_e_def)

lemma simp_rel_e_cong:
  assumes "kids (simp_rel_e F S) e e'" shows "simp_rel_e F S e e'"
proof -
  have "esim F S e e'"
    by (rule esim_cong, rule kids_mono [OF assms]) (simp add: simp_rel_e_def)
  moreover have "may_fold e' \<longrightarrow> may_fold e" "\<forall>x dt. e = FloatImm x dt \<longrightarrow> e' = e"
      "zero_lit e \<longrightarrow> zero_lit e'"
    using assms by (auto elim!: kids.cases simp: simp_rel_e_def)
  ultimately show ?thesis by (simp add: simp_rel_e_def)
qed

text \<open>The value of a literal the tests recognise.\<close>

lemma IsConstZero_value:
  assumes "IsConstZero F e" "fp_int_ok F" "eval F S en m e = Some v" "nonzero_flt F e \<or> (\<exists>i. v = VI i)"
  shows "v = VI 0"
  using assms by (auto elim!: IsConstZero_cases simp: fp_int_ok_def split: if_splits)

lemma IsConstOne_value:
  assumes "IsConstOne F e" "unit_ok F S" "eval F S en m e = Some v"
  shows "v = VI 1 \<or> v = VF (dbl_of_int F 1)"
  using assms by (auto elim!: IsConstOne_cases simp: fp_int_ok_def unit_ok_def split: if_splits)

lemma IsConst_may_fold: "IsConstZero F e \<or> IsConstOne F e \<Longrightarrow> may_fold e"
  by (auto elim: IsConstZero_cases IsConstOne_cases)

text \<open>The operands of a strict operator are of one kind, and a floating-point operand shows in
  the type.\<close>

lemma strict_op_kinds:
  assumes "sem_ok S" "eval F S en m a = Some x" "eval F S en m b = Some y"
    "strict_op F op x y = Some w" "chk S (dtype a) w = Some v" "is_arith op"
  obtains i j where "x = VI i" "y = VI j"
  | p q where "x = VF p" "y = VF q" "code (dtype a) = 2"
  using assms eval_chk [OF assms(1,2)] by (cases x; cases y; cases op) (auto split: if_splits)

text \<open>Dropping a neutral right or left operand, in terms of the values.\<close>

lemma simp_drop_right:
  assumes "simp_rel_e F S a a'" "may_fold b" "is_arith op" "sem_ok S"
    and neutral: "\<And>en m x y w v. eval F S en m a = Some x \<Longrightarrow> eval F S en m b = Some y \<Longrightarrow>
        strict_op F op x y = Some w \<Longrightarrow> chk S (dtype a) w = Some v \<Longrightarrow> w = x"
  shows "simp_rel_e F S (Bin op a b) a'"
proof -
  have op: "op \<notin> {AndOp, OrOp}" using assms(3) by auto
  have "esim F S (Bin op a b) a'"
  proof (rule esimI)
    show "dt_le (dtype (Bin op a b)) (dtype a')"
      using assms(1,3) esim_dtype by (auto simp: simp_rel_e_def)
    fix en m v assume "eval F S en m (Bin op a b) = Some v"
    then obtain x y w where xyw: "eval F S en m a = Some x" "eval F S en m b = Some y"
        "strict_op F op x y = Some w" "chk S (dtype a) w = Some v"
      using assms(3) unfolding eval_Bin_strict [OF op] by auto
    then have "w = x" by (rule neutral)
    then have "x = v" using xyw(4) eval_chk [OF assms(4) xyw(1)] by simp
    then show "eval F S en m a' = Some v"
      using xyw(1) assms(1) by (auto simp: simp_rel_e_def esim_def)
  qed simp
  then show ?thesis using assms(1,2) by (simp add: simp_rel_e_def)
qed

lemma simp_drop_left:
  assumes "simp_rel_e F S b b'" "may_fold a" "is_arith op" "sem_ok S" "dt_le (dtype a) (dtype b)"
    and neutral: "\<And>en m x y w v. eval F S en m a = Some x \<Longrightarrow> eval F S en m b = Some y \<Longrightarrow>
        strict_op F op x y = Some w \<Longrightarrow> chk S (dtype a) w = Some v \<Longrightarrow> w = y"
  shows "simp_rel_e F S (Bin op a b) b'"
proof -
  have op: "op \<notin> {AndOp, OrOp}" using assms(3) by auto
  have "esim F S (Bin op a b) b'"
  proof (rule esimI)
    show "dt_le (dtype (Bin op a b)) (dtype b')"
      using assms(1,3) dt_le_trans [OF assms(5)] esim_dtype [of F S b b'] by (simp add: simp_rel_e_def)
    fix en m v assume "eval F S en m (Bin op a b) = Some v"
    then obtain x y w where xyw: "eval F S en m a = Some x" "eval F S en m b = Some y"
        "strict_op F op x y = Some w" "chk S (dtype a) w = Some v"
      using assms(3) unfolding eval_Bin_strict [OF op] by auto
    then have "w = y" by (rule neutral)
    then have "y = v" using chk_mono [OF assms(5) xyw(4)] eval_chk [OF assms(4) xyw(2)] by simp
    then show "eval F S en m b' = Some v"
      using xyw(2) assms(1) by (auto simp: simp_rel_e_def esim_def)
  qed simp
  then show ?thesis using assms(1,2) by (simp add: simp_rel_e_def)
qed

lemma neutral_zero_right:
  assumes "unit_ok F S" "simp_rel_e F S b b'" "IsConstZero F b'" "op = AddOp \<or> op = SubOp"
    "code (dtype a) = 2 \<longrightarrow> nonzero_flt F b"
    "eval F S en m a = Some x" "eval F S en m b = Some y" "strict_op F op x y = Some w"
    "chk S (dtype a) w = Some v"
  shows "w = x"
proof -
  have S: "sem_ok S" and fp: "fp_int_ok F" using assms(1) by (simp_all add: unit_ok_def)
  have y: "eval F S en m b' = Some y" using assms(2,7) by (auto simp: simp_rel_e_def esim_def)
  have "is_arith op" using assms(4) by auto
  with S assms(6-9) show ?thesis
  proof (cases rule: strict_op_kinds)
    case (1 i j)
    then show ?thesis using IsConstZero_value [OF assms(3) fp y] assms(4,8) by auto
  next
    case (2 p q)
    then have "y = VI 0"
      using IsConstZero_value [OF assms(3) fp y] assms(5) simp_rel_e_nonzero [OF assms(2)] by blast
    then show ?thesis using 2 by simp
  qed
qed

lemma neutral_zero_left:
  assumes "unit_ok F S" "simp_rel_e F S a a'" "IsConstZero F a'"
    "code (dtype a) = 2 \<longrightarrow> nonzero_flt F a"
    "eval F S en m a = Some x" "eval F S en m b = Some y" "strict_op F AddOp x y = Some w"
    "chk S (dtype a) w = Some v"
  shows "w = y"
proof -
  have S: "sem_ok S" and fp: "fp_int_ok F" using assms(1) by (simp_all add: unit_ok_def)
  have x: "eval F S en m a' = Some x" using assms(2,5) by (auto simp: simp_rel_e_def esim_def)
  have "is_arith AddOp" by simp
  with S assms(5-8) show ?thesis
  proof (cases rule: strict_op_kinds)
    case (1 i j)
    then show ?thesis using IsConstZero_value [OF assms(3) fp x] assms(7) by auto
  next
    case (2 p q)
    then have "x = VI 0"
      using IsConstZero_value [OF assms(3) fp x] assms(4) simp_rel_e_nonzero [OF assms(2)] by blast
    then show ?thesis using 2 by simp
  qed
qed

lemma neutral_one_right:
  assumes "unit_ok F S" "simp_rel_e F S b b'" "IsConstOne F b'" "op = MulOp \<or> op = DivOp"
    "eval F S en m b = Some y" "strict_op F op x y = Some w"
  shows "w = x"
proof -
  have "eval F S en m b' = Some y" using assms(2,5) by (auto simp: simp_rel_e_def esim_def)
  then have "y = VI 1 \<or> y = VF (dbl_of_int F 1)" by (rule IsConstOne_value [OF assms(3,1)])
  then show ?thesis using assms(1,4,6) by (cases x) (auto simp: unit_ok_def)
qed

lemma neutral_one_left:
  assumes "unit_ok F S" "simp_rel_e F S a a'" "IsConstOne F a'"
    "eval F S en m a = Some x" "strict_op F MulOp x y = Some w"
  shows "w = y"
proof -
  have "eval F S en m a' = Some x" using assms(2,4) by (auto simp: simp_rel_e_def esim_def)
  then have "x = VI 1 \<or> x = VF (dbl_of_int F 1)" by (rule IsConstOne_value [OF assms(3,1)])
  then show ?thesis using assms(1,5) by (cases y) (auto simp: unit_ok_def)
qed

lemma SimplifyExprRewriter_step:
  assumes U: "unit_ok F S" and wt: "wt_e F e" and k: "kids (simp_rel_e F S) e e'"
  shows "simp_rel_e F S e (SimplifyExprRewriter F e')"
proof (cases "\<exists>op a b. e' = Bin op a b")
  case False
  then have "SimplifyExprRewriter F e' = e'" by (cases e') auto
  then show ?thesis using simp_rel_e_cong [OF k] by simp
next
  case True
  then obtain op a' b' where e': "e' = Bin op a' b'" by blast
  from k obtain a b where e: "e = Bin op a b" and a: "simp_rel_e F S a a'" and b: "simp_rel_e F S b b'"
    unfolding e' by (rule kids_BinE)
  have S: "sem_ok S" using U by (simp add: unit_ok_def)
  have mf: "may_fold b" if "IsConstZero F b' \<or> IsConstOne F b'"
    using IsConst_may_fold [OF that] b by (simp add: simp_rel_e_def)
  have ma: "may_fold a" if "IsConstZero F a' \<or> IsConstOne F a'"
    using IsConst_may_fold [OF that] a by (simp add: simp_rel_e_def)
  have wb: "wt_bin F op a b" using wt e by simp
  have nb: "code (dtype a) = 2 \<longrightarrow> nonzero_flt F b" if "op = AddOp \<or> op = SubOp"
    using wb that by (auto simp: wt_bin_def)
  have na: "code (dtype a) = 2 \<longrightarrow> nonzero_flt F a" if "op = AddOp"
    using wb that by (auto simp: wt_bin_def)
  have dl: "dt_le (dtype a) (dtype b)" if "op = AddOp \<or> op = MulOp" "may_fold a"
    using wb that by (auto simp: wt_bin_def)
  note keep = simp_rel_e_cong [OF k, unfolded e e']
  have zr: "simp_rel_e F S (Bin op a b) a'" if "op = AddOp \<or> op = SubOp" "IsConstZero F b'"
    by (rule simp_drop_right [OF a _ _ S]) (use mf that nb neutral_zero_right [OF U b that(2,1)] in auto)
  have zl: "simp_rel_e F S (Bin op a b) b'" if "op = AddOp" "IsConstZero F a'"
    by (rule simp_drop_left [OF b _ _ S]) (use ma dl that na neutral_zero_left [OF U a that(2)] in auto)
  have rr: "simp_rel_e F S (Bin op a b) a'" if "op = MulOp \<or> op = DivOp" "IsConstOne F b'"
    by (rule simp_drop_right [OF a _ _ S]) (use mf that neutral_one_right [OF U b that(2,1)] in auto)
  have rl: "simp_rel_e F S (Bin op a b) b'" if "op = MulOp" "IsConstOne F a'"
    by (rule simp_drop_left [OF b _ _ S]) (use ma dl that neutral_one_left [OF U a that(2)] in auto)
  show ?thesis
    using keep zr zl rr rl by (cases op) (simp_all add: e e')
qed

section \<open>The pass\<close>

definition loop_rel_s :: "'d fp \<Rightarrow> 'd sem \<Rightarrow> 'd Stmt \<Rightarrow> 'd Stmt \<Rightarrow> bool" where
  "loop_rel_s F S s s' \<longleftrightarrow> ssim F S s s' \<and> (loops0 s \<longrightarrow> loops0 s')"

lemma loop_rel_s_refl: "loop_rel_s F S s s"
  by (simp add: loop_rel_s_def)

lemma loop_rel_s_cong:
  assumes "kids_s Rl (loop_rel_s F S) s s'"
    and "\<And>e e'. Rl e e' \<Longrightarrow> esim F S e e'" "\<And>e e'. Rl e e' \<Longrightarrow> zero_lit e \<Longrightarrow> zero_lit e'"
  shows "loop_rel_s F S s s'"
proof -
  have "ssim F S s s'"
    by (rule ssim_cong, rule kids_s_mono [OF assms(1)]) (simp_all add: assms(2) loop_rel_s_def)
  moreover have "loops0 s \<longrightarrow> loops0 s'"
    using loops0_kids [OF assms(1,3)] by (auto simp: loop_rel_s_def)
  ultimately show ?thesis by (simp add: loop_rel_s_def)
qed

lemma SimplifyExprRewriter_ids:
  "ids_below_e n e \<Longrightarrow> ids_below_e n (SimplifyExprRewriter F e)"
  by (cases "(F, e)" rule: SimplifyExprRewriter.cases) auto

interpretation simp_vars: var_keeping "SimplifyExprRewriter F"
  by unfold_locales simp

interpretation simp_fresh: fresh_tracking "SimplifyExprRewriter F" keep_stmt
  by unfold_locales (simp_all add: SimplifyExprRewriter_ids)

interpretation simp_rw: stmt_rewriter "SimplifyExprRewriter F"
  "\<lambda>e. wt_e F e \<and> unit_ok F S" "simp_rel_e F S" keep_stmt
  "\<lambda>s. wt_s F s \<and> unit_ok F S" "loop_rel_s F S"
proof unfold_locales
  fix e e' assume "wt_e F e \<and> unit_ok F S" "kids (simp_rel_e F S) e e'"
  then show "simp_rel_e F S e (SimplifyExprRewriter F e')" using SimplifyExprRewriter_step by blast
next
  fix s s' n assume "kids_s (simp_rel_e F S) (loop_rel_s F S) s s'"
  then show "loop_rel_s F S s (fst (keep_stmt s' n))"
    unfolding keep_stmt_simps by (rule loop_rel_s_cong) (simp_all add: simp_rel_e_def)
qed (auto simp: simp_rel_e_def loop_rel_s_refl intro: wt_e_child wt_s_expr wt_s_stmt)

lemma SimplifyExprPass_total:
  "SimplifyExprPass E F f n =
     sbind (pass_context E f) (\<lambda>_. Inr (rw_func (SimplifyExprRewriter F) keep_stmt f n))"
  by (simp add: SimplifyExprPass_def MutatePrimFunc_def simp_vars.VisitPrimFunc_total)

section \<open>Properties\<close>

text \<open>
C6. The simplifier preserves the meaning of every well-typed function, given that 1.0 is
  neutral for products and quotients: dropping \<open>+ 0\<close>, \<open>- 0\<close>, \<open>* 1\<close> and \<open>/ 1\<close> keeps every defined
  run of the body. The pass throws only what deriving the context of the function throws.
\<close>

theorem simplify_expr_preserves:
  assumes "unit_ok F S" "wt_s F (body f)" "ids_below n (body f)"
  shows "\<exists>g k. SimplifyExprPass E F f n = sbind (pass_context E f) (\<lambda>_. Inr (g, k)) \<and>
    (\<forall>en m m'. exec F S (body f) en m = Some m' \<longrightarrow> exec F S (body g) en m = Some m')"
proof -
  let ?r = "rw_func (SimplifyExprRewriter F) keep_stmt f n"
  have "loop_rel_s F S (body f) (body (fst ?r))"
    using simp_rw.rw_stmt_rel [of F "body f" S n] assms by (simp add: body_rw_func)
  then have "SimplifyExprPass E F f n = sbind (pass_context E f) (\<lambda>_. Inr (fst ?r, snd ?r)) \<and>
    (\<forall>en m m'. exec F S (body f) en m = Some m' \<longrightarrow> exec F S (body (fst ?r)) en m = Some m')"
    by (simp add: SimplifyExprPass_total loop_rel_s_def ssim_def)
  then show ?thesis by blast
qed

lemma ex_unit_ok: "unit_ok fp_int sem_id"
proof -
  have "round_bits 53 1 = 1" by (simp add: round_bits_small)
  then show ?thesis
    using fp_int_int_ok ex_static(3)
    by (simp add: unit_ok_def fp_int_def sem_id_def signed_divide_int_def mult_sgn_abs)
qed

theorem simplify_expr_preserves_witness:
  "\<exists>g k. SimplifyExprPass ex_pass_env fp_int ex_fn 3 = Inr (g, k) \<and>
     map_option (\<lambda>m. m 1) (exec fp_int sem_id (body g) ex_env ex_mem) =
       Some (Some [Some (VF 5), Some (VF 10), Some (VF 15), Some (VF 20), Some (VF 25), Some (VF 30)])"
proof -
  obtain m' where "exec fp_int sem_id (body ex_fn) ex_env ex_mem = Some m'"
    using ex_runs by (cases "exec fp_int sem_id (body ex_fn) ex_env ex_mem") auto
  then show ?thesis
    using simplify_expr_preserves [OF ex_unit_ok ex_wt ex_static(1), of ex_pass_env] ex_runs by fastforce
qed

text \<open>
With signed zeros the simplifier is not exact on floating-point sums: where the negative
  zero is distinct from 0.0 and, as IEEE 754 requires, adding 0.0 to it gives 0.0, the sum of
  a variable and the literal 0.0 changes its value from 0.0 to the negative zero.
\<close>

lemma simplify_loses_signed_zero:
  assumes "dbl_add F nz (dbl_of_int F 0) = dbl_of_int F 0" "dbl_eq F (dbl_of_int F 0) (dbl_of_int F 0)"
    and "sem_ok S" "nz \<noteq> dbl_of_int F 0" "vdtype x = dt_Float 64 1" "en (vid x) = Some (VF nz)"
  shows "let e = Bin AddOp (VarE x) (FloatImm (dbl_of_int F 0) (dt_Float 64 1))
    in eval F S en m e = Some (VF (dbl_of_int F 0)) \<and>
       eval F S en m (rw_expr (SimplifyExprRewriter F) e) = Some (VF nz)"
  using assms by (simp add: bin_val_def dt_Float_def sem_ok_def IsConstZero_def)

text \<open>A \<^verbatim>\<open>double\<close> with signed zeros: the pair of a sign and a magnitude, with the sum of zeros.\<close>

definition fp_signed :: "(bool \<times> int) fp" where
  "fp_signed = \<lparr>ld_prec = 64, dbl_of_int = (\<lambda>v. (v < 0, v)),
     dbl_add = (\<lambda>x y. (if snd x + snd y = 0 then fst x \<and> fst y else snd x + snd y < 0, snd x + snd y)),
     dbl_sub = (\<lambda>x y. (snd x < snd y, snd x - snd y)), dbl_mul = (\<lambda>x y. (fst x \<noteq> fst y, snd x * snd y)),
     dbl_div = (\<lambda>x y. (fst x \<noteq> fst y, snd x sdiv snd y)), dbl_fmod = (\<lambda>x y. (fst x, snd x smod snd y)),
     dbl_lt = (\<lambda>x y. snd x < snd y), dbl_eq = (\<lambda>x y. snd x = snd y), dbl_finite = (\<lambda>_. True)\<rparr>"

definition sem_signed :: "(bool \<times> int) sem" where
  "sem_signed = \<lparr>rnd = (\<lambda>b x. x), callf = (\<lambda>nm vs. None)\<rparr>"

lemma simplify_loses_signed_zero_witness:
  "let e = Bin AddOp (VarE ex_A) (FloatImm (False, 0) (dt_Float 64 1))
   in eval fp_signed sem_signed (\<lambda>_. Some (VF (True, 0))) (\<lambda>_. None) e = Some (VF (False, 0)) \<and>
      eval fp_signed sem_signed (\<lambda>_. Some (VF (True, 0))) (\<lambda>_. None)
        (rw_expr (SimplifyExprRewriter fp_signed) e) = Some (VF (True, 0))"
proof -
  have z: "dbl_of_int fp_signed 0 = (False, 0)" by (simp add: fp_signed_def)
  have "dbl_add fp_signed (True, 0) (dbl_of_int fp_signed 0) = dbl_of_int fp_signed 0"
    "dbl_eq fp_signed (dbl_of_int fp_signed 0) (dbl_of_int fp_signed 0)" "sem_ok sem_signed"
    "(True, 0) \<noteq> dbl_of_int fp_signed 0" "vdtype ex_A = dt_Float 64 1"
    by (simp_all add: fp_signed_def sem_ok_def sem_signed_def ex_A_def)
  from simplify_loses_signed_zero [OF this, of "\<lambda>_. Some (VF (True, 0))" "\<lambda>_. None"]
  show ?thesis by (simp only: z)
qed

end
