(* ===== verification/TIR_Narrow.thy ===== *)
theory TIR_Narrow
  imports TIR_Simplify
begin

text \<open>
  The index narrowing of \<^verbatim>\<open>src/tir/transforms/force_narrow_index_to_i32.cc\<close>: 64-bit literals in
  index positions (load and store indices, loop bounds, buffer shapes, strides and offsets)
  become 32-bit literals when their value allows it.
\<close>

section \<open>Definitions\<close>

definition NarrowBufferIndices :: "'d BufferNode option \<Rightarrow> 'd BufferNode option" where
  "NarrowBufferIndices bf =
     (case bf of None \<Rightarrow> None
      | Some bf \<Rightarrow>
          Some (bf\<lparr>bshape := map NarrowIntImmToInt32IfPossible (bshape bf),
                   bstrides := map NarrowIntImmToInt32IfPossible (bstrides bf),
                   elem_offset := NarrowIntImmToInt32IfPossible (elem_offset bf)\<rparr>))"

fun ForceNarrowExpr :: "'d PrimExpr \<Rightarrow> 'd PrimExpr" where
  "ForceNarrowExpr (Load b i p) = Load b (NarrowIntImmToInt32IfPossible i) p"
| "ForceNarrowExpr e = e"

fun ForceNarrowStmt :: "'d Stmt \<Rightarrow> nat \<Rightarrow> 'd Stmt \<times> nat" where
  "ForceNarrowStmt (Store b v i p) n = (Store b v (NarrowIntImmToInt32IfPossible i) p, n)"
| "ForceNarrowStmt (For x lo ext ft s) n =
     (For x (NarrowIntImmToInt32IfPossible lo) (NarrowIntImmToInt32IfPossible ext) ft s, n)"
| "ForceNarrowStmt s n = (s, n)"

definition ForceNarrowVisitPrimFunc ::
  "'d PrimFunc \<Rightarrow> nat \<Rightarrow> tir_error + 'd PrimFunc \<times> nat" where
  "ForceNarrowVisitPrimFunc f n =
     sbind (VisitPrimFunc ForceNarrowExpr ForceNarrowStmt f n) (\<lambda>(rewritten, n).
     Inr (rewritten\<lparr>buffer_map := map (\<lambda>(k, v). (k, NarrowBufferIndices v)) (buffer_map rewritten)\<rparr>, n))"

definition ForceNarrowIndexToI32Pass :: "pass_env \<Rightarrow> 'd PrimFunc \<Rightarrow> nat \<Rightarrow> tir_error + 'd PrimFunc \<times> nat" where
  "ForceNarrowIndexToI32Pass E f n = sbind (pass_context E f) (\<lambda>_. ForceNarrowVisitPrimFunc f n)"

section \<open>Correctness\<close>

lemma fits_i32: "is_i32 v \<Longrightarrow> fits v (dt_Int 32 (Suc 0))"
  by (simp add: fits_def dt_Int_def is_i32_def)

lemma eval_Narrow:
  "eval F S en m e = Some v \<Longrightarrow> eval F S en m (NarrowIntImmToInt32IfPossible e) = Some v"
  by (cases e) (auto simp: CanNarrow_is_i32 fits_i32 split: if_splits)

lemma zero_lit_Narrow: "zero_lit e \<Longrightarrow> zero_lit (NarrowIntImmToInt32IfPossible e)"
  by (cases e) auto

lemma ids_Narrow: "ids_below_e n e \<Longrightarrow> ids_below_e n (NarrowIntImmToInt32IfPossible e)"
  by (cases e) auto

definition narrow_rel_e :: "'d fp \<Rightarrow> 'd sem \<Rightarrow> 'd PrimExpr \<Rightarrow> 'd PrimExpr \<Rightarrow> bool" where
  "narrow_rel_e F S e e' \<longleftrightarrow> esim F S e e' \<and> (zero_lit e \<longrightarrow> zero_lit e')"

lemma ForceNarrowExpr_step:
  assumes "kids (narrow_rel_e F S) e e'"
  shows "narrow_rel_e F S e (ForceNarrowExpr e')"
proof -
  have "esim F S e e'"
    by (rule esim_cong, rule kids_mono [OF assms]) (simp add: narrow_rel_e_def)
  moreover have "esim F S e' (ForceNarrowExpr e')"
  proof (cases e')
    case (Load b i p)
    then show ?thesis
      by (intro esimI) (auto simp: bind_eq_Some_conv eval_Narrow split: option.splits bool.splits)
  qed simp_all
  moreover have "zero_lit e \<longrightarrow> zero_lit (ForceNarrowExpr e')"
    using assms by (cases e) (auto elim: kids.cases)
  ultimately show ?thesis using esim_trans by (auto simp: narrow_rel_e_def)
qed

lemma ForceNarrowStmt_ssim: "ssim F S s (fst (ForceNarrowStmt s n))"
proof (cases s)
  case (For x lo ext ft t)
  show ?thesis
    unfolding For ForceNarrowStmt.simps fst_conv
    by (rule ssimI) (simp only: exec_For_conv, blast intro: eval_Narrow)
next
  case (Store b v i p)
  then show ?thesis
    by (intro ssimI) (auto simp: bind_eq_Some_conv eval_Narrow split: option.splits bool.splits)
qed simp_all

lemma ForceNarrowStmt_loops0: "loops0 s \<Longrightarrow> loops0 (fst (ForceNarrowStmt s n))"
  by (cases "(s, n)" rule: ForceNarrowStmt.cases) (auto simp: zero_lit_Narrow)

interpretation narrow_vars: var_keeping ForceNarrowExpr
  by unfold_locales simp

interpretation narrow_fresh: fresh_tracking ForceNarrowExpr ForceNarrowStmt
proof unfold_locales
  show "ids_below_e n (ForceNarrowExpr e)" if "ids_below_e n e" for n and e :: "'a PrimExpr"
    using that by (cases e) (auto simp: ids_Narrow)
  show "n \<le> snd (ForceNarrowStmt s n) \<and> ids_below (snd (ForceNarrowStmt s n)) (fst (ForceNarrowStmt s n))"
    if "ids_below n s" for n and s :: "'a Stmt"
    using that by (cases s) (auto simp: ids_Narrow)
qed

interpretation narrow_rw: stmt_rewriter ForceNarrowExpr "\<lambda>_. True" "narrow_rel_e F S"
  ForceNarrowStmt "\<lambda>_. True" "loop_rel_s F S"
proof unfold_locales
  fix e e' assume "kids (narrow_rel_e F S) e e'"
  then show "narrow_rel_e F S e (ForceNarrowExpr e')" by (rule ForceNarrowExpr_step)
next
  fix s s' n assume "kids_s (narrow_rel_e F S) (loop_rel_s F S) s s'"
  then have "loop_rel_s F S s s'"
    by (rule loop_rel_s_cong) (simp_all add: narrow_rel_e_def)
  then show "loop_rel_s F S s (fst (ForceNarrowStmt s' n))"
    using ssim_trans [OF _ ForceNarrowStmt_ssim] ForceNarrowStmt_loops0
    by (auto simp: loop_rel_s_def)
qed (simp_all add: narrow_rel_e_def loop_rel_s_refl)

lemma ForceNarrowIndexToI32Pass_total:
  "ForceNarrowIndexToI32Pass E f n = sbind (pass_context E f) (\<lambda>_.
     let (g, n') = rw_func ForceNarrowExpr ForceNarrowStmt f n
     in Inr (g\<lparr>buffer_map := map (\<lambda>(k, v). (k, NarrowBufferIndices v)) (buffer_map g)\<rparr>, n'))"
  by (simp add: ForceNarrowIndexToI32Pass_def ForceNarrowVisitPrimFunc_def split_beta
      narrow_vars.VisitPrimFunc_total)

text \<open>Running the pass again changes nothing.\<close>

lemma ForceNarrowExpr_idem: "rw_expr ForceNarrowExpr (rw_expr ForceNarrowExpr e) = rw_expr ForceNarrowExpr e"
proof (induction e)
  case (Load b i p)
  have "rw_expr ForceNarrowExpr (NarrowIntImmToInt32IfPossible (rw_expr ForceNarrowExpr i)) =
        NarrowIntImmToInt32IfPossible (rw_expr ForceNarrowExpr i)"
    using Load(1) by (cases "rw_expr ForceNarrowExpr i") auto
  then show ?case using Load by simp
qed (auto intro: map_cong)

section \<open>Properties\<close>

text \<open>
C7. Index narrowing preserves the meaning of every function, without hypotheses on its types:
  a literal is narrowed only where its type does not matter and its value fits. The pass throws only
  what deriving the context of the function throws.
\<close>

theorem force_narrow_preserves:
  assumes "ids_below n (body f)"
  shows "\<exists>g k. ForceNarrowIndexToI32Pass E f n = sbind (pass_context E f) (\<lambda>_. Inr (g, k)) \<and>
    (\<forall>F S en m m'. exec F S (body f) en m = Some m' \<longrightarrow> exec F S (body g) en m = Some m')"
proof -
  let ?r = "rw_func ForceNarrowExpr ForceNarrowStmt f n"
  have "loop_rel_s F S (body f) (body (fst ?r))" for F S
    using narrow_rw.rw_stmt_rel [where s = "body f" and n = n and F = F and S = S] assms
    by (simp add: body_rw_func)
  then have "\<forall>F S en m m'. exec F S (body f) en m = Some m' \<longrightarrow> exec F S (body (fst ?r)) en m = Some m'"
    by (simp add: loop_rel_s_def ssim_def)
  then show ?thesis
    by (intro exI [of _ "fst ?r\<lparr>buffer_map := map (\<lambda>(k, v). (k, NarrowBufferIndices v)) (buffer_map (fst ?r))\<rparr>"]
        exI [of _ "snd ?r"]) (simp add: ForceNarrowIndexToI32Pass_total split_beta)
qed

theorem force_narrow_preserves_witness:
  "\<exists>g k. ForceNarrowIndexToI32Pass ex_pass_env ex_fn 3 = Inr (g, k) \<and>
     map_option (\<lambda>m. m 1) (exec fp_int sem_id (body g) ex_env ex_mem) =
       Some (Some [Some (VF 5), Some (VF 10), Some (VF 15), Some (VF 20), Some (VF 25), Some (VF 30)])"
proof -
  obtain m' where "exec fp_int sem_id (body ex_fn) ex_env ex_mem = Some m'"
    using ex_runs by (cases "exec fp_int sem_id (body ex_fn) ex_env ex_mem") auto
  then show ?thesis using force_narrow_preserves [OF ex_static(1), of ex_pass_env] ex_runs by fastforce
qed

text \<open>
Narrowing is idempotent on buffers: a second run over the buffer map finds nothing to
  narrow, and it never touches the data pointer, the element type, the name, the alignment
  or the offset factor.
\<close>

lemma narrow_buffer_idempotent:
  "NarrowBufferIndices (NarrowBufferIndices b) = NarrowBufferIndices b \<and>
   map_option (\<lambda>x. (bdata x, bdtype x, bname x, data_alignment x, offset_factor x)) (NarrowBufferIndices b) =
     map_option (\<lambda>x. (bdata x, bdtype x, bname x, data_alignment x, offset_factor x)) b"
  by (cases b) (simp_all add: NarrowBufferIndices_def)

end
