(* ===== verification/TIR_Loops.thy ===== *)
theory TIR_Loops
  imports TIR_Narrow
begin

text \<open>
  The loop transforms of \<^verbatim>\<open>src/tir/transforms\<close>: \<^verbatim>\<open>convert_for_loops_serial.cc\<close>,
  \<^verbatim>\<open>loop_partition.cc\<close>, \<^verbatim>\<open>unroll_loop.cc\<close>, \<^verbatim>\<open>vectorize_loop.cc\<close>, and the clean-up of
  \<^verbatim>\<open>remove_no_op.cc\<close>. They override statement methods only.
\<close>

section \<open>Definitions\<close>

text \<open>A rewriter without expression overrides returns the rebuilt expression.\<close>

definition keep_expr :: "'d ehook" where
  "keep_expr e = e"

fun ConvertForLoopsSerialRewriter :: "'d Stmt \<Rightarrow> nat \<Rightarrow> 'd Stmt \<times> nat" where
  "ConvertForLoopsSerialRewriter (For x lo ext ft s) n =
     (if ft = Serial then (For x lo ext ft s, n) else (For x lo ext Serial s, n))"
| "ConvertForLoopsSerialRewriter s n = (s, n)"

definition ConvertForLoopsSerialPass :: "pass_env \<Rightarrow> 'd PrimFunc \<Rightarrow> nat \<Rightarrow> tir_error + 'd PrimFunc \<times> nat" where
  "ConvertForLoopsSerialPass E f n = MutatePrimFunc E keep_expr ConvertForLoopsSerialRewriter f n"

definition CanonicalAdd :: "'d fp \<Rightarrow> 'd PrimExpr \<Rightarrow> 'd PrimExpr \<Rightarrow> DataType \<Rightarrow> 'd PrimExpr" where
  "CanonicalAdd F lhs rhs dt =
     (if IsConstZero F lhs then rhs
      else if IsConstZero F rhs then lhs
      else (case (TryGetConstInt64 lhs, TryGetConstInt64 rhs) of
              (Some lhs_v, Some rhs_v) \<Rightarrow> IntImm (i64 (lhs_v + rhs_v)) dt
            | _ \<Rightarrow> Bin AddOp lhs rhs))"

text \<open>\<open>tir::Var v(name, dtype)\<close> at the next free address.\<close>

definition new_var :: "nat \<Rightarrow> string \<Rightarrow> DataType \<Rightarrow> tir_var" where
  "new_var n nm dt = \<lparr>vid = n, name_hint = nm, vdtype = dt\<rparr>"

definition part_main :: "'d fp \<Rightarrow> tir_var \<Rightarrow> 'd PrimExpr \<Rightarrow> 'd Stmt \<Rightarrow> int \<Rightarrow> nat \<Rightarrow> 'd Stmt" where
  "part_main F x lo s main_iters n =
     (let loop_dtype = vdtype x;
          outer_var = new_var n (name_hint x @ ''_part_outer'') loop_dtype;
          inner_var = new_var (n + 1) (name_hint x @ ''_part_inner'') loop_dtype;
          scaled_outer = Bin MulOp (VarE outer_var) (IntImm 4 loop_dtype);
          main_base = CanonicalAdd F lo scaled_outer loop_dtype;
          bound_value = CanonicalAdd F main_base (VarE inner_var) loop_dtype;
          inner_body = LetStmt x bound_value s;
          inner_loop = For inner_var (IntImm 0 loop_dtype) (IntImm 4 loop_dtype) Serial inner_body
      in For outer_var (IntImm 0 loop_dtype) (IntImm main_iters loop_dtype) Serial inner_loop)"

definition part_tail :: "'d fp \<Rightarrow> tir_var \<Rightarrow> 'd PrimExpr \<Rightarrow> 'd Stmt \<Rightarrow> int \<Rightarrow> int \<Rightarrow> nat \<Rightarrow> 'd Stmt"
where
  "part_tail F x lo s main_iters tail_iters n =
     (let loop_dtype = vdtype x;
          tail_var = new_var n (name_hint x @ ''_part_tail'') loop_dtype;
          tail_base = CanonicalAdd F lo (IntImm (main_iters * 4) loop_dtype) loop_dtype;
          bound_value = CanonicalAdd F tail_base (VarE tail_var) loop_dtype;
          tail_body = LetStmt x bound_value s
      in For tail_var (IntImm 0 loop_dtype) (IntImm tail_iters loop_dtype) Serial tail_body)"

fun LoopPartitionRewriter :: "'d fp \<Rightarrow> 'd Stmt \<Rightarrow> nat \<Rightarrow> 'd Stmt \<times> nat" where
  "LoopPartitionRewriter F (For x lo ext ft s) n =
     (if ft \<noteq> Serial then (For x lo ext ft s, n)
      else if ContainsFor s then (For x lo ext ft s, n)
      else (case TryGetConstInt64 ext of
              None \<Rightarrow> (For x lo ext ft s, n)
            | Some extent \<Rightarrow>
                if extent \<le> 4 then (For x lo ext ft s, n)
                else (let main_iters = extent sdiv 4;
                          tail_iters = extent smod 4;
                          (seq, n) = (if main_iters > 0 then ([part_main F x lo s main_iters n], n + 2)
                                      else ([], n));
                          (seq, n) = (if tail_iters > 0
                                      then (seq @ [part_tail F x lo s main_iters tail_iters n], n + 1)
                                      else (seq, n))
                      in (MakeSeqStmtOrUnit F seq, n))))"
| "LoopPartitionRewriter F s n = (s, n)"

definition LoopPartitionPass :: "pass_env \<Rightarrow> 'd fp \<Rightarrow> 'd PrimFunc \<Rightarrow> nat \<Rightarrow> tir_error + 'd PrimFunc \<times> nat" where
  "LoopPartitionPass E F f n = MutatePrimFunc E keep_expr (LoopPartitionRewriter F) f n"

definition BuildUnrolledIterValue :: "'d fp \<Rightarrow> 'd PrimExpr \<Rightarrow> int \<Rightarrow> DataType \<Rightarrow> 'd PrimExpr" where
  "BuildUnrolledIterValue F lo step dt =
     (if step = 0 then lo
      else (case TryGetConstInt64 lo of
              Some min_value \<Rightarrow> IntImm (i64 (min_value + step)) dt
            | None \<Rightarrow> if IsConstZero F lo then IntImm step dt
                      else Bin AddOp lo (IntImm step dt)))"

fun UnrollLoopRewriter :: "'d fp \<Rightarrow> 'd Stmt \<Rightarrow> nat \<Rightarrow> 'd Stmt \<times> nat" where
  "UnrollLoopRewriter F (For x lo ext ft s) n =
     (if ft \<noteq> Serial then (For x lo ext ft s, n)
      else (case TryGetConstInt64 ext of
              None \<Rightarrow> (For x lo ext ft s, n)
            | Some extent \<Rightarrow>
                if extent < 0 \<or> extent > 8 then (For x lo ext ft s, n)
                else if extent = 0 then (NullStmt, n)
                else (MakeSeqStmtOrUnit F
                        (map (\<lambda>i. LetStmt x (BuildUnrolledIterValue F lo i (vdtype x)) s)
                          [0..extent - 1]), n)))"
| "UnrollLoopRewriter F s n = (s, n)"

definition UnrollLoopPass :: "pass_env \<Rightarrow> 'd fp \<Rightarrow> 'd PrimFunc \<Rightarrow> nat \<Rightarrow> tir_error + 'd PrimFunc \<times> nat" where
  "UnrollLoopPass E F f n = MutatePrimFunc E keep_expr (UnrollLoopRewriter F) f n"

fun VectorizeLoopRewriter :: "'d Stmt \<Rightarrow> nat \<Rightarrow> 'd Stmt \<times> nat" where
  "VectorizeLoopRewriter (For x lo ext ft s) n =
     (if ft \<noteq> Serial then (For x lo ext ft s, n)
      else (case TryGetConstInt64 ext of
              None \<Rightarrow> (For x lo ext ft s, n)
            | Some extent \<Rightarrow>
                if extent \<le> 0 \<or> extent smod 4 \<noteq> 0 then (For x lo ext ft s, n)
                else if ContainsFor s then (For x lo ext ft s, n)
                else if \<not> IsSimpleStraightLineStmt s then (For x lo ext ft s, n)
                else (For x lo ext Vectorized s, n)))"
| "VectorizeLoopRewriter s n = (s, n)"

definition VectorizeLoopPass :: "pass_env \<Rightarrow> 'd PrimFunc \<Rightarrow> nat \<Rightarrow> tir_error + 'd PrimFunc \<times> nat" where
  "VectorizeLoopPass E f n = MutatePrimFunc E keep_expr VectorizeLoopRewriter f n"

text \<open>
  The \<^verbatim>\<open>VisitSeqStmt\<close> override of the no-op remover does not call the base method: it mutates
  each child, flattens the results into one array and builds a sequence of it. On the
  children the mutator hands to the hook this is the same array.
\<close>

fun RemoveNoOpRewriter :: "'d fp \<Rightarrow> 'd Stmt \<Rightarrow> nat \<Rightarrow> 'd Stmt \<times> nat" where
  "RemoveNoOpRewriter F (Evaluate e) n = (if IsConstZero F e then (NullStmt, n) else (Evaluate e, n))"
| "RemoveNoOpRewriter F (SeqStmt ss) n =
     (let flattened = fold (AppendFlattenedStmt F) ss [] in (MakeSeqStmtOrUnit F flattened, n))"
| "RemoveNoOpRewriter F (For x lo ext ft s) n =
     (if IsNoOpStmt F s then (NullStmt, n) else (For x lo ext ft s, n))"
| "RemoveNoOpRewriter F s n = (s, n)"

definition RemoveNoOpPass :: "pass_env \<Rightarrow> 'd fp \<Rightarrow> 'd PrimFunc \<Rightarrow> nat \<Rightarrow> tir_error + 'd PrimFunc \<times> nat" where
  "RemoveNoOpPass E F f n = MutatePrimFunc E keep_expr (RemoveNoOpRewriter F) f n"

section \<open>Rewriters of statements only\<close>

interpretation keep_vars: var_keeping keep_expr
  by unfold_locales (simp add: keep_expr_def)

lemma rw_expr_keep [simp]: "rw_expr keep_expr e = e"
  by (induction e) (simp_all add: keep_expr_def map_idI2)

lemma kids_eq: "kids (=) e e' \<Longrightarrow> e' = e"
  by (induction rule: kids.induct) (auto simp: list.rel_eq)

lemma loop_rel_s_cong_eq: "kids_s (=) (loop_rel_s F S) s s' \<Longrightarrow> loop_rel_s F S s s'"
  by (rule loop_rel_s_cong [where Rl = "(=)"]) auto

text \<open>
  A statement hook is correct when it is on every statement that satisfies \<open>Q\<close>, a condition on
  the loops that does not look into their bodies.
\<close>

fun all_loops :: "(tir_var \<Rightarrow> 'd PrimExpr \<Rightarrow> 'd PrimExpr \<Rightarrow> bool) \<Rightarrow> 'd Stmt \<Rightarrow> bool" where
  "all_loops Q NullStmt = True"
| "all_loops Q (LetStmt x v s) = all_loops Q s"
| "all_loops Q (Store b v i p) = True"
| "all_loops Q (For x lo ext ft s) = (Q x lo ext \<and> all_loops Q s)"
| "all_loops Q (IfThenElse c t e) = (all_loops Q t \<and> all_loops Q e)"
| "all_loops Q (Allocate b dt exts c s) = all_loops Q s"
| "all_loops Q (AttrStmt nd k v s) = all_loops Q s"
| "all_loops Q (Block ivs rds wrs nm s ini) = (all_loops Q s \<and> all_loops Q ini)"
| "all_loops Q (SeqStmt ss) = list_all (all_loops Q) ss"
| "all_loops Q (Evaluate e) = True"

lemma all_loops_child: "all_loops Q s \<Longrightarrow> t \<in> set (stmts_of s) \<Longrightarrow> all_loops Q t"
  by (cases s) (auto simp: list_all_iff)

lemma all_loops_mono:
  "all_loops Q s \<Longrightarrow> (\<And>x lo ext. Q x lo ext \<Longrightarrow> Q' x lo ext) \<Longrightarrow> all_loops Q' s"
  by (induction s) (auto simp: list_all_iff)

lemma all_loops_True: "all_loops (\<lambda>_ _ _. True) s"
  by (induction s) (auto simp: list_all_iff)

lemma loops0_all_loops:
  "loops0 s = all_loops (\<lambda>x lo ext. sint (vdtype x) \<and> zero_lit lo) s"
  by (induction s) (auto simp: list_all_iff)

lemma loop_rel_s_trans: "loop_rel_s F S a b \<Longrightarrow> loop_rel_s F S b c \<Longrightarrow> loop_rel_s F S a c"
  using ssim_trans by (auto simp: loop_rel_s_def)

fun loop_header :: "(tir_var \<Rightarrow> 'd PrimExpr \<Rightarrow> 'd PrimExpr \<Rightarrow> bool) \<Rightarrow> 'd Stmt \<Rightarrow> bool" where
  "loop_header Q (For x lo ext ft s) = Q x lo ext"
| "loop_header Q s = True"

locale loop_rewriter =
  fixes hs :: "'d shook" and Q :: "tir_var \<Rightarrow> 'd PrimExpr \<Rightarrow> 'd PrimExpr \<Rightarrow> bool"
    and F :: "'d fp" and S :: "'d sem"
  assumes hook_ids: "ids_below n s \<Longrightarrow> n \<le> snd (hs s n) \<and> ids_below (snd (hs s n)) (fst (hs s n))"
    and hook_ok: "loop_header Q s \<Longrightarrow> ids_below n s \<Longrightarrow> loop_rel_s F S s (fst (hs s n))"
begin

lemma header_kids: "kids_s (=) Sl s s' \<Longrightarrow> all_loops Q s \<Longrightarrow> loop_header Q s'"
  by (induction rule: kids_s.induct) auto

end

sublocale loop_rewriter \<subseteq> stmt_rewriter keep_expr "\<lambda>_. True" "(=)" hs "all_loops Q" "loop_rel_s F S"
proof unfold_locales
  fix e e' :: "'a PrimExpr" assume "kids (=) e e'"
  then show "e = keep_expr e'" by (auto simp: keep_expr_def dest: kids_eq)
next
  fix s s' n assume "all_loops Q s" "kids_s (=) (loop_rel_s F S) s s'" "ids_below n s'"
  then show "loop_rel_s F S s (fst (hs s' n))"
    using loop_rel_s_trans [OF loop_rel_s_cong_eq hook_ok] header_kids by blast
qed (auto simp: keep_expr_def hook_ids loop_rel_s_refl intro: all_loops_child)

context loop_rewriter
begin

lemma pass_rel:
  assumes "VisitPrimFunc keep_expr hs f n = Inr (f', n')" "all_loops Q (body f)" "ids_below n (body f)"
  shows "loop_rel_s F S (body f) (body f')" "n \<le> n'" "ids_below n' (body f')"
proof -
  have "f' = fst (rw_func keep_expr hs f n)" "n' = snd (rw_func keep_expr hs f n)"
    using assms(1) by (simp_all add: keep_vars.VisitPrimFunc_total)
  then show "loop_rel_s F S (body f) (body f')" "n \<le> n'" "ids_below n' (body f')"
    using rw_stmt_rel [OF assms(2,3)] rw_stmt_ids [OF assms(3)]
    by (simp_all add: body_rw_func snd_rw_func)
qed

end

section \<open>Serial and vectorized loops\<close>

text \<open>The kind of a loop does not matter to the sequential meaning.\<close>

lemma exec_ForType: "exec F S (For x lo ext ft s) = exec F S (For x lo ext ft' s)"
  by (intro ext) simp

lemma ForType_rel: "loop_rel_s F S (For x lo ext ft s) (For x lo ext ft' s)"
  by (simp add: loop_rel_s_def ssim_def)

interpretation serial_rw: loop_rewriter ConvertForLoopsSerialRewriter "\<lambda>_ _ _. True" F S
proof unfold_locales
  fix n and s :: "'a Stmt"
  show "ids_below n s \<Longrightarrow> n \<le> snd (ConvertForLoopsSerialRewriter s n) \<and>
      ids_below (snd (ConvertForLoopsSerialRewriter s n)) (fst (ConvertForLoopsSerialRewriter s n))"
    by (cases s) auto
  show "loop_rel_s F S s (fst (ConvertForLoopsSerialRewriter s n))"
    by (cases s) (auto simp: loop_rel_s_refl ForType_rel)
qed

interpretation vec_rw: loop_rewriter VectorizeLoopRewriter "\<lambda>_ _ _. True" F S
proof unfold_locales
  fix n and s :: "'a Stmt"
  show "ids_below n s \<Longrightarrow> n \<le> snd (VectorizeLoopRewriter s n) \<and>
      ids_below (snd (VectorizeLoopRewriter s n)) (fst (VectorizeLoopRewriter s n))"
    by (cases s) (auto split: option.split)
  show "loop_rel_s F S s (fst (VectorizeLoopRewriter s n))"
    by (cases s) (auto simp: loop_rel_s_refl ForType_rel split: option.split)
qed

section \<open>Flattening keeps the meaning\<close>

lemma IsNoOp_Evaluate_exec:
  "IsConstZero F e \<Longrightarrow> exec F S (Evaluate e) en m = Some m' \<Longrightarrow> m' = m"
  by (auto split: if_splits)

lemma exec_flat:
  "exec F S s en m = Some m' \<Longrightarrow> ofold (\<lambda>s m. exec F S s en m) (flat F s) m = Some m'"
proof (induction s arbitrary: m m')
  case (SeqStmt ss)
  have "ofold (ofold (\<lambda>s m. exec F S s en m)) (map (flat F) ss) m = Some m'"
    unfolding ofold_map using SeqStmt by (auto elim: ofold_body_mono)
  then show ?case by (simp add: ofold_concat)
next
  case (Evaluate e)
  then show ?case using IsNoOp_Evaluate_exec [of F e S en m m'] by auto
qed auto

lemma exec_MakeSeq:
  assumes "ofold (\<lambda>s m. exec F S s en m) ss m = Some m'"
  shows "exec F S (MakeSeqStmtOrUnit F ss) en m = Some m'"
proof -
  have "exec F S (SeqStmt ss) en m = Some m'" using assms by simp
  then have "ofold (\<lambda>s m. exec F S s en m) (concat (map (flat F) ss)) m = Some m'"
    using exec_flat by fastforce
  moreover obtain fs where fs: "concat (map (flat F) ss) = fs" by simp
  ultimately show ?thesis
    unfolding MakeSeqStmtOrUnit_flat fs
    by (cases fs rule: remdups_adj.cases) (auto simp: bind_eq_Some_conv)
qed

section \<open>The shape of the results\<close>

fun for_types :: "'d Stmt \<Rightarrow> ForType list" where
  "for_types (LetStmt x v s) = for_types s"
| "for_types (For x lo ext ft s) = ft # for_types s"
| "for_types (IfThenElse c t e) = for_types t @ for_types e"
| "for_types (Allocate b dt exts c s) = for_types s"
| "for_types (AttrStmt nd k v s) = for_types s"
| "for_types (Block ivs rds wrs nm s ini) = for_types s @ for_types ini"
| "for_types (SeqStmt ss) = concat (map for_types ss)"
| "for_types _ = []"

lemma list_all2_for_types:
  "list_all2 (\<lambda>s s'. list_all p (for_types s')) ss ss' \<Longrightarrow> list_all p (concat (map for_types ss'))"
  by (induction rule: list_all2_induct) auto

interpretation serial_shape: stmt_rewriter keep_expr "\<lambda>_. True" "(=)" ConvertForLoopsSerialRewriter
  "\<lambda>_. True" "\<lambda>s s'. list_all (\<lambda>ft. ft = Serial) (for_types s')"
proof unfold_locales
  fix s s' :: "'a Stmt" and n
  assume "kids_s (=) (\<lambda>s s'. list_all (\<lambda>ft. ft = Serial) (for_types s')) s s'"
  then show "list_all (\<lambda>ft. ft = Serial) (for_types (fst (ConvertForLoopsSerialRewriter s' n)))"
    by cases (auto dest: list_all2_for_types)
qed (auto simp: keep_expr_def dest: kids_eq serial_rw.hook_ids)

text \<open>What the vectorizer promises of a loop it marks.\<close>

fun vec_loop_ok :: "'d Stmt \<Rightarrow> bool" where
  "vec_loop_ok (For x lo ext ft s) =
     (ft = Vectorized \<longrightarrow> (\<exists>k d. ext = IntImm k d \<and> 0 < k \<and> 4 dvd k) \<and> IsSimpleStraightLineStmt s)"
| "vec_loop_ok s = True"

abbreviation vec_ok :: "'d Stmt \<Rightarrow> bool" where
  "vec_ok s \<equiv> list_all vec_loop_ok (sub_stmts s)"

lemma smod_4_dvd: "0 < (k::int) \<Longrightarrow> k smod 4 = 0 \<longleftrightarrow> 4 dvd k"
  by (simp add: signed_modulo_int_def dvd_eq_mod_eq_0)

lemma vec_kids_simple:
  "kids_s (=) (\<lambda>s s'. (vec_ok s \<longrightarrow> vec_ok s') \<and> (IsSimpleStraightLineStmt s \<longrightarrow> s' = s)) s s' \<Longrightarrow>
   IsSimpleStraightLineStmt s \<Longrightarrow> s' = s"
proof (cases rule: kids_s.cases, assumption)
  fix ss ss'
  assume l: "list_all2 (\<lambda>s s'. (vec_ok s \<longrightarrow> vec_ok s') \<and> (IsSimpleStraightLineStmt s \<longrightarrow> s' = s)) ss ss'"
    and s: "s = SeqStmt ss" "s' = SeqStmt ss'" "IsSimpleStraightLineStmt s"
  from l s(3) have "ss' = ss" unfolding s(1) by (induction rule: list_all2_induct) auto
  then show "s' = s" using s by simp
qed auto

lemma vec_kids_ok:
  "kids_s (=) (\<lambda>s s'. (vec_ok s \<longrightarrow> vec_ok s') \<and> (IsSimpleStraightLineStmt s \<longrightarrow> s' = s)) s s' \<Longrightarrow>
   vec_ok s \<Longrightarrow> vec_ok s'"
proof (cases rule: kids_s.cases, assumption)
  fix ss ss'
  assume l: "list_all2 (\<lambda>s s'. (vec_ok s \<longrightarrow> vec_ok s') \<and> (IsSimpleStraightLineStmt s \<longrightarrow> s' = s)) ss ss'"
    and s: "s = SeqStmt ss" "s' = SeqStmt ss'" "vec_ok s"
  from l s(3) have "list_all vec_loop_ok (concat (map sub_stmts ss'))"
    unfolding s(1) by (induction rule: list_all2_induct) auto
  then show "vec_ok s'" using s by simp
qed auto

interpretation vec_shape: stmt_rewriter keep_expr "\<lambda>_. True" "(=)" VectorizeLoopRewriter "\<lambda>_. True"
  "\<lambda>s s'. (vec_ok s \<longrightarrow> vec_ok s') \<and> (IsSimpleStraightLineStmt s \<longrightarrow> s' = s)"
proof unfold_locales
  fix s s' :: "'a Stmt" and n
  assume k: "kids_s (=) (\<lambda>s s'. (vec_ok s \<longrightarrow> vec_ok s') \<and> (IsSimpleStraightLineStmt s \<longrightarrow> s' = s)) s s'"
  have "vec_ok (fst (VectorizeLoopRewriter t n))" if "vec_ok t" for t :: "'a Stmt"
    using that by (cases t) (auto simp: smod_4_dvd split: option.split)
  moreover have "fst (VectorizeLoopRewriter t n) = t" if "IsSimpleStraightLineStmt t" for t :: "'a Stmt"
    using that by (cases t) auto
  ultimately show "(vec_ok s \<longrightarrow> vec_ok (fst (VectorizeLoopRewriter s' n))) \<and>
      (IsSimpleStraightLineStmt s \<longrightarrow> fst (VectorizeLoopRewriter s' n) = s)"
    using vec_kids_ok [OF k] vec_kids_simple [OF k] by blast
qed (auto simp: keep_expr_def dest: kids_eq vec_rw.hook_ids)

section \<open>Properties\<close>

text \<open>
After \<^verbatim>\<open>convert_for_loops_serial\<close> every loop of the function, at any depth, is serial, and
  the meaning of the function is kept.
\<close>

lemma convert_serial_all_serial:
  assumes "ConvertForLoopsSerialPass E f n = Inr (g, k)" "ids_below n (body f)"
  shows "set (for_types (body g)) \<subseteq> {Serial} \<and>
    (exec F S (body f) en m = Some m' \<longrightarrow> exec F S (body g) en m = Some m')"
proof -
  have "g = fst (rw_func keep_expr ConvertForLoopsSerialRewriter f n)"
    using assms(1) by (auto simp: ConvertForLoopsSerialPass_def MutatePrimFunc_def keep_vars.VisitPrimFunc_total sbind_simps)
  then have "list_all (\<lambda>ft. ft = Serial) (for_types (body g))"
    using serial_shape.rw_stmt_rel [where s = "body f" and n = n] assms(2) by (simp add: body_rw_func)
  moreover have "VisitPrimFunc keep_expr ConvertForLoopsSerialRewriter f n = Inr (g, k)"
    using assms(1) by (auto simp: ConvertForLoopsSerialPass_def MutatePrimFunc_def sbind_simps)
  ultimately show ?thesis
    using serial_rw.pass_rel(1) [OF _ all_loops_True assms(2)]
    by (auto simp: list_all_iff loop_rel_s_def ssim_def)
qed

lemma convert_serial_all_serial_witness:
  "\<exists>g k. ConvertForLoopsSerialPass ex_pass_env ex_fn 3 = Inr (g, k) \<and> for_types (body ex_fn) = [Parallel] \<and>
     set (for_types (body g)) \<subseteq> {Serial}"
proof -
  let ?r = "rw_func keep_expr ConvertForLoopsSerialRewriter ex_fn 3"
  have "ConvertForLoopsSerialPass ex_pass_env ex_fn 3 = Inr (fst ?r, snd ?r)"
    by (simp add: ConvertForLoopsSerialPass_def MutatePrimFunc_def keep_vars.VisitPrimFunc_total)
  moreover from this have "set (for_types (body (fst ?r))) \<subseteq> {Serial}"
    using convert_serial_all_serial [OF _ ex_static(1)] by blast
  moreover have "for_types (body ex_fn) = [Parallel]"
    by (simp add: ex_fn_def ex_loop_def ex_store_def)
  ultimately show ?thesis by blast
qed

text \<open>
A loop the vectorizer marks \<^verbatim>\<open>Vectorized\<close> has a constant positive extent that is a multiple
  of four and a straight-line body: if every vectorized loop of the function has this form
  before the pass (none need exist), every vectorized loop has it after the pass.
\<close>

lemma vectorize_only_simple_loops:
  assumes "VectorizeLoopPass E f n = Inr (g, k)" "ids_below n (body f)" "vec_ok (body f)"
  shows "list_all (\<lambda>t. case t of
      For x lo ext ft s \<Rightarrow> ft = Vectorized \<longrightarrow>
        (\<exists>e d. ext = IntImm e d \<and> 0 < e \<and> 4 dvd e) \<and> IsSimpleStraightLineStmt s \<and> \<not> ContainsFor s
    | _ \<Rightarrow> True) (sub_stmts (body g))"
proof -
  have "g = fst (rw_func keep_expr VectorizeLoopRewriter f n)"
    using assms(1) by (auto simp: VectorizeLoopPass_def MutatePrimFunc_def keep_vars.VisitPrimFunc_total sbind_simps)
  then have "vec_ok (body g)"
    using vec_shape.rw_stmt_rel [where s = "body f" and n = n] assms(2,3) by (simp add: body_rw_func)
  then show ?thesis
    by (rule list.pred_mono_strong) (auto simp: straight_line_no_For split: Stmt.split)
qed

lemma vectorize_only_simple_loops_witness:
  "let f = ex_fn\<lparr>body := For ex_i (IntImm 0 (dt_Int 32 1)) (IntImm 8 (dt_Int 32 1)) Serial ex_store\<rparr>
   in \<exists>g k. VectorizeLoopPass ex_pass_env f 3 = Inr (g, k) \<and> for_types (body g) = [Vectorized] \<and>
     list_all (\<lambda>t. case t of
      For x lo ext ft s \<Rightarrow> ft = Vectorized \<longrightarrow>
        (\<exists>e d. ext = IntImm e d \<and> 0 < e \<and> 4 dvd e) \<and> IsSimpleStraightLineStmt s \<and> \<not> ContainsFor s
      | _ \<Rightarrow> True) (sub_stmts (body g))"
proof -
  let ?f = "ex_fn\<lparr>body := For ex_i (IntImm 0 (dt_Int 32 1)) (IntImm 8 (dt_Int 32 1)) Serial ex_store\<rparr>"
  let ?r = "rw_func keep_expr VectorizeLoopRewriter ?f 3"
  have r: "VectorizeLoopPass ex_pass_env ?f 3 = Inr (fst ?r, snd ?r)"
    by (simp add: VectorizeLoopPass_def MutatePrimFunc_def keep_vars.VisitPrimFunc_total)
  have "ids_below 3 (body ?f)" "vec_ok (body ?f)" by (simp_all add: ex_defs)
  note vectorize_only_simple_loops [OF r this]
  moreover have "for_types (body (fst ?r)) = [Vectorized]"
    by (simp add: body_rw_func ex_store_def signed_modulo_int_def keep_expr_def)
  ultimately show ?thesis unfolding Let_def using r by blast
qed

end
