(* ===== verification/TIR_LoopProofs.thy ===== *)
theory TIR_LoopProofs
  imports TIR_Loops
begin

text \<open>
  Correctness of the no-op remover, of loop partitioning and of unrolling. The partition
  splits the iteration space into blocks of four and a remainder; both transforms evaluate
  the lower bound again in every iteration, so it must not read memory, and they compute the
  counter in the type of the lower bound, which must be that of the loop variable unless the
  loop starts at the literal 0.
\<close>

section \<open>No-op removal\<close>

lemma IsNoOp_exec:
  assumes "IsNoOpStmt F s" "exec F S s en m = Some m'" shows "m' = m"
  using exec_flat [OF assms(2)] assms(1) by (simp add: IsNoOpStmt_flat)

lemma ofold_id: "ofold f xs m = Some m' \<Longrightarrow> (\<And>x m m'. f x m = Some m' \<Longrightarrow> m' = m) \<Longrightarrow> m' = m"
  by (induction xs arbitrary: m) (auto simp: bind_eq_Some_conv)

text \<open>Properties of a statement that its parts inherit survive flattening.\<close>

lemma list_all_flat:
  assumes "\<And>ss. p (SeqStmt ss) \<Longrightarrow> list_all p ss"
  shows "p s \<Longrightarrow> list_all p (flat F s)"
proof (induction s)
  case (SeqStmt ss)
  then have "list_all (\<lambda>s. list_all p (flat F s)) ss"
    using assms [of ss] by (simp add: list.pred_set)
  then show ?case by (simp add: list_all_concat_map)
qed simp_all

lemma MakeSeq_prop:
  assumes "\<And>ss. p (SeqStmt ss) \<longleftrightarrow> list_all p ss" "p NullStmt" "list_all p ss"
  shows "p (MakeSeqStmtOrUnit F ss)"
proof -
  have "list_all p (flat F (SeqStmt ss))" by (rule list_all_flat) (simp_all add: assms)
  moreover obtain fs where fs: "concat (map (flat F) ss) = fs" by simp
  ultimately have "list_all p fs" by simp
  then show ?thesis
    unfolding MakeSeqStmtOrUnit_flat fs using assms(1,2)
    by (cases fs rule: remdups_adj.cases) simp_all
qed

lemma loops0_MakeSeq: "list_all loops0 ss \<Longrightarrow> loops0 (MakeSeqStmtOrUnit F ss)"
  by (rule MakeSeq_prop) simp_all

lemma ids_MakeSeq: "list_all (ids_below n) ss \<Longrightarrow> ids_below n (MakeSeqStmtOrUnit F ss)"
  by (rule MakeSeq_prop) simp_all

text \<open>Flattening into an array and building a sequence of it flattens once.\<close>

lemma RemoveNoOp_Seq: "RemoveNoOpRewriter F (SeqStmt ss) n = (MakeSeqStmtOrUnit F ss, n)"
  unfolding RemoveNoOpRewriter.simps Let_def fold_AppendFlattenedStmt
  by (simp only: MakeSeqStmtOrUnit_flat append_Nil concat_map_flat_idem)

lemma RemoveNoOp_ssim: "ssim F S s (fst (RemoveNoOpRewriter F s n))"
proof (cases s)
  case (SeqStmt ss)
  show ?thesis
    unfolding SeqStmt RemoveNoOp_Seq by (rule ssimI) (simp add: exec_MakeSeq)
next
  case (For x lo ext ft t)
  show ?thesis
  proof (cases "IsNoOpStmt F t")
    case True
    have "m' = m" if "exec F S (For x lo ext ft t) en m = Some m'" for en m m'
      using that unfolding exec_For_conv
      by (elim exE conjE, elim ofold_id) (rule IsNoOp_exec [OF True])
    then show ?thesis using True by (intro ssimI) (auto simp: For)
  qed (simp add: For)
next
  case (Evaluate e)
  then show ?thesis
    using IsNoOp_Evaluate_exec [of F e S] by (auto simp: ssim_def split: if_splits)
qed simp_all

interpretation noop_rw: loop_rewriter "RemoveNoOpRewriter F" "\<lambda>_ _ _. True" F S
proof unfold_locales
  fix n and s :: "'a Stmt"
  show "n \<le> snd (RemoveNoOpRewriter F s n) \<and>
      ids_below (snd (RemoveNoOpRewriter F s n)) (fst (RemoveNoOpRewriter F s n))"
    if "ids_below n s"
    using that ids_MakeSeq [of n _ F]
    by (cases s) (auto simp: RemoveNoOp_Seq simp del: RemoveNoOpRewriter.simps(2))
  have "loops0 s \<longrightarrow> loops0 (fst (RemoveNoOpRewriter F s n))"
    using loops0_MakeSeq
    by (cases s) (auto simp: RemoveNoOp_Seq simp del: RemoveNoOpRewriter.simps(2))
  then show "loop_rel_s F S s (fst (RemoveNoOpRewriter F s n))"
    using RemoveNoOp_ssim by (simp add: loop_rel_s_def)
qed

section \<open>Counters\<close>

fun load_free :: "'d PrimExpr \<Rightarrow> bool" where
  "load_free (Bin op a b) = (load_free a \<and> load_free b)"
| "load_free (NotE a) = load_free a"
| "load_free (Load b i p) = False"
| "load_free (Call dt f as) = list_all load_free as"
| "load_free (Select c t f) = (load_free c \<and> load_free t \<and> load_free f)"
| "load_free _ = True"

lemma eval_load_free: "load_free e \<Longrightarrow> eval F S en m e = eval F S en m' e"
proof (induction e)
  case (Call dt f as)
  then have "omap (eval F S en m) as = omap (eval F S en m') as"
    by (intro omap_cong) (auto simp: list_all_iff)
  then show ?case by simp
qed (simp_all split: option.split)

text \<open>The loops on which partitioning and unrolling are exact.\<close>

fun ext_fits :: "'d PrimExpr \<Rightarrow> DataType \<Rightarrow> bool" where
  "ext_fits (IntImm k d) dt = fits k dt"
| "ext_fits _ dt = True"

definition loop_ok :: "tir_var \<Rightarrow> 'd PrimExpr \<Rightarrow> 'd PrimExpr \<Rightarrow> bool" where
  "loop_ok x lo ext \<longleftrightarrow> sint (vdtype x) \<and>
     (zero_lit lo \<or> load_free lo \<and> dtype lo = vdtype x \<and> ext_fits ext (vdtype x))"

lemma loops0_loop_ok: "loops0 s \<Longrightarrow> all_loops loop_ok s"
  unfolding loops0_all_loops by (erule all_loops_mono) (simp add: loop_ok_def)

lemma zero_lit_load_free: "zero_lit e \<Longrightarrow> load_free e"
  by (cases e) auto

lemma loop_ok_load_free: "loop_ok x lo ext \<Longrightarrow> load_free lo"
  by (auto simp: loop_ok_def zero_lit_load_free)

lemma sint_fits:
  assumes "sint dt" shows "fits 0 dt" "fits v dt \<Longrightarrow> is_i64 v"
proof -
  have "(2::int) ^ (bits dt - 1) \<le> 2 ^ 63"
    using assms by (intro power_increasing) (auto simp: sint_def)
  then show "fits 0 dt" "fits v dt \<Longrightarrow> is_i64 v"
    using assms by (auto simp: sint_def fits_def is_i64_def)
qed

lemma IsConstZero_zero_lit: "fp_int_ok F \<Longrightarrow> zero_lit e \<Longrightarrow> IsConstZero F e"
  by (cases e) (auto simp: IsConstZero_def fp_int_ok_def is_i64_def)

text \<open>The sum the loop transforms build evaluates to the sum, in the type of the loop.\<close>

lemma CanonicalAdd_eval:
  assumes "fp_int_ok F" "sint dt" "zero_lit lhs \<or> dtype lhs = dt" "dtype rhs = dt"
    and l: "eval F S en m lhs = Some (VI a)" and r: "eval F S en m rhs = Some (VI b)"
    and fit: "fits (a + b) dt"
  shows "eval F S en m (CanonicalAdd F lhs rhs dt) = Some (VI (a + b))"
    and "dtype (CanonicalAdd F lhs rhs dt) = dt"
proof -
  have a0: "a = 0" if "IsConstZero F lhs" using IsConstZero_value [OF that assms(1) l] by auto
  have b0: "b = 0" if "IsConstZero F rhs" using IsConstZero_value [OF that assms(1) r] by auto
  have dl: "dtype lhs = dt" if "\<not> IsConstZero F lhs"
    using that assms(1,3) IsConstZero_zero_lit by blast
  have i: "is_i64 (a + b)" using sint_fits(2) [OF assms(2) fit] .
  have ab: "TryGetConstInt64 lhs = Some a' \<Longrightarrow> a' = a" "TryGetConstInt64 rhs = Some b' \<Longrightarrow> b' = b" for a' b'
    using l r by (auto split: if_splits)
  show "dtype (CanonicalAdd F lhs rhs dt) = dt"
    using dl assms(4) by (auto simp: CanonicalAdd_def split: option.split)
  show "eval F S en m (CanonicalAdd F lhs rhs dt) = Some (VI (a + b))"
    using a0 b0 dl l r i fit ab
    by (auto simp: CanonicalAdd_def bin_val_def simp del: TryGetConstInt64_Some split: option.split)
qed

section \<open>Partitioning\<close>

lemma ofold_map_fun: "ofold f (map g xs) = ofold (\<lambda>x. f (g x)) xs"
  by (rule ext) (rule ofold_map)

lemma blocks_of_four:
  "concat (map (\<lambda>q. map (\<lambda>r. l + q * 4 + r) [0..3]) [0..int k - 1]) = [l..l + int k * 4 - 1]"
proof (induction k)
  case (Suc k)
  have four: "map (\<lambda>r. l + int k * 4 + r) [0..3] = [l + int k * 4..l + int (Suc k) * 4 - 1]"
    by (simp add: upto_rec1 add.assoc)
  have "[0..int (Suc k) - 1] = [0..int k - 1] @ [int k]"
    using upto_rec2 [of 0 "int k"] by simp
  then have "concat (map (\<lambda>q. map (\<lambda>r. l + q * 4 + r) [0..3]) [0..int (Suc k) - 1]) =
      [l..l + int k * 4 - 1] @ [l + int k * 4..l + int (Suc k) * 4 - 1]"
    using Suc four by simp
  also have "\<dots> = [l..l + int (Suc k) * 4 - 1]"
    using upto_split1 [of l "l + int k * 4" "l + int (Suc k) * 4 - 1"] by simp
  finally show ?case .
qed simp

lemma upto_shift: "map (\<lambda>r. a + r) [0..n - 1] = [a..a + n - 1]"
proof (induction "nat n" arbitrary: n)
  case (Suc k)
  then have n: "0 < n" and "k = nat (n - 1)" by simp_all
  then have ih: "map (\<lambda>r. a + r) [0..n - 1 - 1] = [a..a + (n - 1) - 1]" using Suc by blast
  have "map (\<lambda>r. a + r) [0..n - 1] = [a..a + (n - 1) - 1] @ [a + (n - 1)]"
    using n upto_rec2 [of 0 "n - 1"] ih by simp
  also have "\<dots> = [a..a + (n - 1)]" using n upto_rec2 [of a "a + (n - 1)"] by simp
  finally show ?case by (simp only: add_diff_eq)
qed simp

text \<open>The facts about one execution of a loop that both transforms use.\<close>

definition loop_run :: "'d fp \<Rightarrow> 'd sem \<Rightarrow> 'd env \<Rightarrow> tir_var \<Rightarrow> 'd PrimExpr \<Rightarrow> 'd PrimExpr \<Rightarrow> int \<Rightarrow> int \<Rightarrow> bool"
where
  "loop_run F S en x lo ext l k \<longleftrightarrow> sint (vdtype x) \<and> (\<forall>m. eval F S en m lo = Some (VI l)) \<and>
     fits l (vdtype x) \<and> fits (l + k) (vdtype x) \<and> fits k (vdtype x) \<and>
     (zero_lit lo \<or> dtype lo = vdtype x)"

lemma loop_runI:
  assumes "loop_ok x lo (IntImm k d)" "eval F S en m lo = Some (VI l)" "fits l (vdtype x)"
    "fits (l + k) (vdtype x)"
  shows "loop_run F S en x lo (IntImm k d) l k"
proof -
  have "eval F S en m' lo = Some (VI l)" for m'
    using assms(2) eval_load_free [OF loop_ok_load_free [OF assms(1)], of F S en m m'] by simp
  moreover have "fits k (vdtype x)"
    using assms by (cases lo) (auto simp: loop_ok_def split: if_splits)
  ultimately show ?thesis using assms by (auto simp: loop_run_def loop_ok_def)
qed

lemma loop_run_fits:
  assumes "loop_run F S en x lo ext l k" "0 \<le> v" "v \<le> k"
  shows "fits v (vdtype x)" "fits (l + v) (vdtype x)" "is_i64 v"
proof -
  have s: "sint (vdtype x)" using assms(1) by (simp add: loop_run_def)
  show v: "fits v (vdtype x)"
    using assms fits_between [of 0 "vdtype x" k v] sint_fits(1) [OF s] by (simp add: loop_run_def)
  show "fits (l + v) (vdtype x)"
    using assms fits_between [of l "vdtype x" "l + k" "l + v"] by (simp add: loop_run_def)
  show "is_i64 v" using sint_fits(2) [OF s v] .
qed

lemma eval_new_var:
  "en n = Some (VI q) \<Longrightarrow> fits q dt \<Longrightarrow> eval F S en m (VarE (new_var n nm dt)) = Some (VI q)"
  by (simp add: new_var_def)

text \<open>The bound value \<open>(min + offset) + counter\<close> of the partitioned loops.\<close>

lemma bound_value_eval:
  assumes run: "loop_run F S en x lo ext l k" and fp: "fp_int_ok F"
    and lo: "eval F S en' m lo = Some (VI l)"
    and mid: "eval F S en' m mid = Some (VI b)" "dtype mid = vdtype x"
    and v: "eval F S en' m (VarE v) = Some (VI i)" "vdtype v = vdtype x"
    and b: "0 \<le> b" "0 \<le> i" "b + i \<le> k"
  shows "eval F S en' m (CanonicalAdd F (CanonicalAdd F lo mid (vdtype x)) (VarE v) (vdtype x)) =
    Some (VI (l + b + i))"
proof -
  have s: "sint (vdtype x)" and lo': "zero_lit lo \<or> dtype lo = vdtype x"
    using run by (auto simp: loop_run_def)
  have "fits (l + b) (vdtype x)" "fits (l + b + i) (vdtype x)"
    using loop_run_fits(2) [OF run, of b] loop_run_fits(2) [OF run, of "b + i"] b
    by (simp_all add: add.assoc)
  moreover note base = CanonicalAdd_eval [OF fp s lo' mid(2) lo mid(1) this(1)]
  ultimately show ?thesis
    using CanonicalAdd_eval(1) [OF fp s _ _ base(1) v(1)] base(2) v(2) by simp
qed

text \<open>A body that binds the loop variable to the right value runs the original body.\<close>

lemma exec_let_iter:
  assumes "eval F S en' m v = Some (VI i)" "fits i (vdtype x)"
    and "\<And>m. exec F S s (en'(vid x \<mapsto> VI i)) m = exec F S s (en(vid x \<mapsto> VI i)) m"
  shows "exec F S (LetStmt x v s) en' m = exec F S s (en(vid x \<mapsto> VI i)) m"
  using assms by simp

lemma exec_counted_loop:
  assumes "fits 0 dt" "fits k dt" "is_i64 k" "0 \<le> k" "vdtype y = dt"
    and "\<And>i m. 0 \<le> i \<Longrightarrow> i < k \<Longrightarrow> exec F S s (en(vid y \<mapsto> VI i)) m = g i m"
  shows "exec F S (For y (IntImm 0 dt) (IntImm k dt) Serial s) en m = ofold g [0..k - 1] m"
proof -
  have "ofold (\<lambda>i. exec F S s (en(vid y \<mapsto> VI i))) [0..k - 1] m = ofold g [0..k - 1] m"
    by (rule ofold_cong) (use assms(6) in auto)
  then show ?thesis
    using assms(1-5) by (simp add: loop_range_def is_i64_def)
qed

lemma exec_part_tail:
  assumes run: "loop_run F S en x lo ext l k" and fp: "fp_int_ok F"
    and ids: "ids_below_e n lo" "ids_below n s" "vid x < n"
    and j: "0 \<le> j" "0 < t" "j * 4 + t = k"
  shows "exec F S (part_tail F x lo s j t n) en m =
    ofold (\<lambda>i m. exec F S s (en(vid x \<mapsto> VI i)) m) [l + j * 4..l + k - 1] m"
proof -
  let ?dt = "vdtype x"
  let ?tv = "new_var n (name_hint x @ ''_part_tail'') ?dt"
  let ?base = "CanonicalAdd F lo (IntImm (j * 4) ?dt) ?dt"
  have s: "sint ?dt" using run by (simp add: loop_run_def)
  note fit = loop_run_fits [OF run]
  have it: "exec F S (LetStmt x (CanonicalAdd F ?base (VarE ?tv) ?dt) s) (en(vid ?tv \<mapsto> VI i)) m =
      exec F S s (en(vid x \<mapsto> VI (l + j * 4 + i))) m" if i: "0 \<le> i" "i < t" for i m
  proof (rule exec_let_iter)
    let ?en = "en(vid ?tv \<mapsto> VI i)"
    have lo: "eval F S ?en m lo = Some (VI l)"
      using run eval_fresh [OF ids(1), of "vid ?tv" F S en _ m] by (simp add: loop_run_def new_var_def)
    have tv: "eval F S ?en m (VarE ?tv) = Some (VI i)"
      by (rule eval_new_var) (use fit i j in \<open>auto simp: new_var_def\<close>)
    show "eval F S ?en m (CanonicalAdd F ?base (VarE ?tv) ?dt) = Some (VI (l + j * 4 + i))"
      by (rule bound_value_eval [OF run fp lo _ _ tv])
        (use fit [of "j * 4"] i j in \<open>auto simp: new_var_def\<close>)
    show "fits (l + j * 4 + i) ?dt" using fit(2) [of "j * 4 + i"] i j by (simp add: algebra_simps)
    show "exec F S s (?en(vid x \<mapsto> VI (l + j * 4 + i))) m =
        exec F S s (en(vid x \<mapsto> VI (l + j * 4 + i))) m" for m
      using exec_fresh [OF ids(2), of n F S "en(vid x \<mapsto> VI (l + j * 4 + i))"] ids(3)
      by (simp add: new_var_def fun_upd_twist)
  qed
  have "exec F S (part_tail F x lo s j t n) en m =
      ofold (\<lambda>i m. exec F S s (en(vid x \<mapsto> VI (l + j * 4 + i))) m) [0..t - 1] m"
    unfolding part_tail_def Let_def
    by (rule exec_counted_loop) (use fit [of t] fit [of 0] j it in \<open>auto simp: new_var_def\<close>)
  also have "\<dots> = ofold (\<lambda>i m. exec F S s (en(vid x \<mapsto> VI i)) m) (map (\<lambda>r. l + j * 4 + r) [0..t - 1]) m"
    by (simp add: ofold_map)
  also have "map (\<lambda>r. l + j * 4 + r) [0..t - 1] = [l + j * 4..l + k - 1]"
    using upto_shift [of "l + j * 4" t] j by (simp add: algebra_simps)
  finally show ?thesis .
qed

lemma exec_part_main:
  assumes run: "loop_run F S en x lo ext l k" and fp: "fp_int_ok F"
    and ids: "ids_below_e n lo" "ids_below n s" "vid x < n"
    and j: "0 < j" "j * 4 \<le> k"
  shows "exec F S (part_main F x lo s j n) en m =
    ofold (\<lambda>i m. exec F S s (en(vid x \<mapsto> VI i)) m) [l..l + j * 4 - 1] m"
proof -
  let ?dt = "vdtype x" and ?f = "\<lambda>i m. exec F S s (en(vid x \<mapsto> VI i)) m"
  let ?o = "new_var n (name_hint x @ ''_part_outer'') ?dt"
  let ?i = "new_var (n + 1) (name_hint x @ ''_part_inner'') ?dt"
  let ?mid = "Bin MulOp (VarE ?o) (IntImm 4 ?dt)"
  let ?bv = "CanonicalAdd F (CanonicalAdd F lo ?mid ?dt) (VarE ?i) ?dt"
  note fit = loop_run_fits [OF run]
  have it: "exec F S (LetStmt x ?bv s) ((en(vid ?o \<mapsto> VI q))(vid ?i \<mapsto> VI r)) m = ?f (l + q * 4 + r) m"
    if qr: "0 \<le> q" "q < j" "0 \<le> r" "r < 4" for q r m
  proof (rule exec_let_iter)
    let ?en = "(en(vid ?o \<mapsto> VI q))(vid ?i \<mapsto> VI r)"
    have k: "q * 4 + r < k" using qr j by linarith
    have lo: "eval F S ?en m lo = Some (VI l)"
      using run eval_fresh [OF ids(1), of "Suc n" F S "en(n \<mapsto> VI q)" _ m]
        eval_fresh [OF ids(1), of n F S en _ m] by (simp add: loop_run_def new_var_def)
    have o: "eval F S ?en m (VarE ?o) = Some (VI q)"
      by (rule eval_new_var) (use fit(1) [of q] k qr in \<open>auto simp: new_var_def\<close>)
    have "eval F S ?en m (IntImm 4 ?dt) = Some (VI 4)"
      using fit [of 4] j by (simp add: is_i64_def)
    then have mid: "eval F S ?en m ?mid = Some (VI (q * 4))"
      using o fit(1) [of "q * 4"] k qr by (simp add: bin_val_def new_var_def)
    have i: "eval F S ?en m (VarE ?i) = Some (VI r)"
      by (rule eval_new_var) (use fit(1) [of r] k qr in \<open>auto simp: new_var_def\<close>)
    show "eval F S ?en m ?bv = Some (VI (l + q * 4 + r))"
      by (rule bound_value_eval [OF run fp lo mid _ i]) (use qr k in \<open>auto simp: new_var_def\<close>)
    show "fits (l + q * 4 + r) ?dt" using fit(2) [of "q * 4 + r"] qr k by (simp add: add.assoc)
    show "exec F S s (?en(vid x \<mapsto> VI (l + q * 4 + r))) m = ?f (l + q * 4 + r) m" for m
    proof -
      let ?ex = "en(vid x \<mapsto> VI (l + q * 4 + r))"
      have "?en(vid x \<mapsto> VI (l + q * 4 + r)) = (?ex(n \<mapsto> VI q))(Suc n \<mapsto> VI r)"
        using ids(3) by (auto simp: new_var_def fun_eq_iff)
      then show ?thesis
        using exec_fresh [OF ids(2), of n F S ?ex] exec_fresh [OF ids(2), of "Suc n" F S "?ex(n \<mapsto> VI q)"]
        by simp
    qed
  qed
  have inner: "exec F S (For ?i (IntImm 0 ?dt) (IntImm 4 ?dt) Serial (LetStmt x ?bv s))
      (en(vid ?o \<mapsto> VI q)) m = ofold (\<lambda>r. ?f (l + q * 4 + r)) [0..3] m" if "0 \<le> q" "q < j" for q m
    using exec_counted_loop [of ?dt 4 ?i F S "LetStmt x ?bv s" "en(vid ?o \<mapsto> VI q)"
        "\<lambda>r. ?f (l + q * 4 + r)" m] fit [of 4] fit [of 0] j it that
    by (simp add: new_var_def)
  have "exec F S (part_main F x lo s j n) en m =
      ofold (\<lambda>q. ofold (\<lambda>r. ?f (l + q * 4 + r)) [0..3]) [0..j - 1] m"
    unfolding part_main_def Let_def
    by (rule exec_counted_loop) (use fit [of j] fit [of 0] j inner in \<open>auto simp: new_var_def\<close>)
  also have "\<dots> = ofold ?f (concat (map (\<lambda>q. map (\<lambda>r. l + q * 4 + r) [0..3]) [0..j - 1])) m"
    by (simp add: ofold_concat ofold_map_fun)
  also have "concat (map (\<lambda>q. map (\<lambda>r. l + q * 4 + r) [0..3]) [0..j - 1]) = [l..l + j * 4 - 1]"
    using blocks_of_four [of l "nat j"] j by simp
  finally show ?thesis .
qed

lemma four_parts:
  fixes k :: int assumes "4 < k"
  shows "0 < k sdiv 4" "k sdiv 4 * 4 + k smod 4 = k" "0 \<le> k smod 4"
  using assms smod_int_compares(2) [of k 4] sdiv_mult_smod_eq [of k 4]
  by (simp_all add: signed_divide_int_def pos_imp_zdiv_pos_iff)

lemma LoopPartition_ssim:
  assumes "loop_header loop_ok s0" "ids_below n s0" "fp_int_ok F"
  shows "ssim F S s0 (fst (LoopPartitionRewriter F s0 n))"
proof (cases "fst (LoopPartitionRewriter F s0 n) = s0")
  case False
  then obtain x lo ext ft s where s0: "s0 = For x lo ext ft s" by (cases s0) auto
  with False obtain k d where ext: "ext = IntImm k d" and k: "4 < k"
    by (auto split: if_splits option.splits)
  let ?j = "k sdiv 4" and ?t = "k smod 4"
  note parts = four_parts [OF k]
  have ids: "ids_below_e n lo" "ids_below n s" "vid x < n"
    "ids_below_e (n + 2) lo" "ids_below (n + 2) s" "vid x < n + 2"
    using assms(2) s0 ids_below_mono [of n s "n + 2"] ids_below_e_mono [of n lo "n + 2"] by auto
  have rw: "fst (LoopPartitionRewriter F s0 n) = MakeSeqStmtOrUnit F
      (part_main F x lo s ?j n # (if ?t > 0 then [part_tail F x lo s ?j ?t (n + 2)] else []))"
    using False k parts by (auto simp: s0 ext Let_def split: if_splits)
  show ?thesis
  proof (rule ssimI)
    fix en m m' assume ex: "exec F S s0 en m = Some m'"
    let ?f = "\<lambda>i m. exec F S s (en(vid x \<mapsto> VI i)) m"
    from ex obtain l where l: "eval F S en m lo = Some (VI l)" "fits l (vdtype x)" "fits (l + k) (vdtype x)"
      and run: "ofold ?f [l..l + k - 1] m = Some m'"
      unfolding s0 exec_For_conv ext by (auto split: if_splits)
    have R: "loop_run F S en x lo ext l k"
      using loop_runI [OF _ l] assms(1) s0 ext by simp
    have split: "[l..l + k - 1] = [l..l + ?j * 4 - 1] @ [l + ?j * 4..l + k - 1]"
      using upto_split1 [of l "l + ?j * 4" "l + k - 1"] parts by (cases "?t = 0") simp_all
    have main: "exec F S (part_main F x lo s ?j n) en m = ofold ?f [l..l + ?j * 4 - 1] m" for m
      using exec_part_main [OF R assms(3) ids(1-3)] parts by simp
    have tail: "exec F S (part_tail F x lo s ?j ?t (n + 2)) en m = ofold ?f [l + ?j * 4..l + k - 1] m"
      if "?t > 0" for m
      using exec_part_tail [OF R assms(3) ids(4-6), of ?j ?t] parts that by simp
    have "[l + ?j * 4..l + k - 1] = []" if "\<not> ?t > 0" using parts that by simp
    then have "ofold (\<lambda>s m. exec F S s en m)
        (part_main F x lo s ?j n # (if ?t > 0 then [part_tail F x lo s ?j ?t (n + 2)] else [])) m = Some m'"
      using run main tail unfolding split ofold_append by (auto simp: bind_eq_Some_conv)
    then show "exec F S (fst (LoopPartitionRewriter F s0 n)) en m = Some m'"
      unfolding rw by (rule exec_MakeSeq)
  qed
qed simp

lemma CanonicalAdd_ids:
  "ids_below_e n a \<Longrightarrow> ids_below_e n b \<Longrightarrow> ids_below_e n (CanonicalAdd F a b dt)"
  by (auto simp: CanonicalAdd_def split: option.split)

lemma part_ids:
  assumes "ids_below n (For x lo ext ft s)"
  shows "ids_below (n + 2) (part_main F x lo s j n)" "ids_below (n + 1) (part_tail F x lo s j t n)"
  using assms ids_below_mono [of n s "n + 2"] ids_below_e_mono [of n lo "n + 2"]
    ids_below_mono [of n s "n + 1"] ids_below_e_mono [of n lo "n + 1"]
  by (auto simp: part_main_def part_tail_def Let_def new_var_def intro!: CanonicalAdd_ids)

lemma part_loops0:
  assumes "loops0 (For x lo ext ft s)"
  shows "loops0 (part_main F x lo s j n)" "loops0 (part_tail F x lo s j t n)"
  using assms by (simp_all add: part_main_def part_tail_def Let_def new_var_def)

lemma LoopPartition_shape:
  obtains "LoopPartitionRewriter F s0 n = (s0, n)"
  | x lo ext ft s ss k where "s0 = For x lo ext ft s" "LoopPartitionRewriter F s0 n = (MakeSeqStmtOrUnit F ss, k)"
    "n \<le> k" "list_all (\<lambda>t. (ids_below n s0 \<longrightarrow> ids_below k t) \<and> (loops0 s0 \<longrightarrow> loops0 t)) ss"
proof (cases "LoopPartitionRewriter F s0 n = (s0, n)")
  case False
  then obtain x lo ext ft s where s0: "s0 = For x lo ext ft s" by (cases s0) auto
  with False obtain k d where ext: "ext = IntImm k d" and k: "4 < k"
    by (auto split: if_splits option.splits)
  let ?j = "k sdiv 4" and ?t = "k smod 4"
  let ?m = "part_main F x lo s ?j n" and ?tl = "part_tail F x lo s ?j ?t (n + 2)"
  note parts = four_parts [OF k]
  have rw: "LoopPartitionRewriter F s0 n = (if ?t > 0 then (MakeSeqStmtOrUnit F [?m, ?tl], n + 3)
      else (MakeSeqStmtOrUnit F [?m], n + 2))"
    using False k parts by (auto simp: s0 ext Let_def split: if_splits)
  have ids: "ids_below (n + 2) ?m" "ids_below (n + 3) ?m" "ids_below (n + 3) ?tl"
    if "ids_below n s0"
  proof -
    have i2: "ids_below (n + 2) s0" using that by (rule ids_below_mono) simp
    show 1: "ids_below (n + 2) ?m" using part_ids(1) that s0 by blast
    then show "ids_below (n + 3) ?m" by (rule ids_below_mono) simp
    show "ids_below (n + 3) ?tl" using part_ids(2) [of "n + 2" x lo ext ft s] i2 s0
      by (simp add: numeral_3_eq_3)
  qed
  have l0: "loops0 ?m" "loops0 ?tl" if "loops0 s0"
    using part_loops0 [of x lo ext ft s F] that unfolding s0 by blast+
  show thesis
  proof (cases "?t > 0")
    case True
    then show thesis using that(2) [OF s0, of "[?m, ?tl]" "n + 3"] rw ids l0 by simp
  next
    case False
    then show thesis using that(2) [OF s0, of "[?m]" "n + 2"] rw ids l0 by simp
  qed
qed

section \<open>Unrolling\<close>

lemma BuildUnrolledIterValue_eval:
  assumes run: "loop_run F S en x lo ext l k" and fp: "fp_int_ok F" and i: "0 \<le> i" "i \<le> k"
  shows "eval F S en m (BuildUnrolledIterValue F lo i (vdtype x)) = Some (VI (l + i))"
proof -
  have lo: "eval F S en m lo = Some (VI l)" and s: "sint (vdtype x)"
    and d: "zero_lit lo \<or> dtype lo = vdtype x" using run by (auto simp: loop_run_def)
  note fit = loop_run_fits [OF run i]
  have i64: "is_i64 (l + i)" using sint_fits(2) [OF s fit(2)] .
  have c: "TryGetConstInt64 lo = Some v \<Longrightarrow> v = l" for v using lo by (auto split: if_splits)
  have z: "l = 0" if "IsConstZero F lo" using IsConstZero_value [OF that fp lo] by auto
  have "dtype lo = vdtype x" if "\<not> IsConstZero F lo" using that d IsConstZero_zero_lit [OF fp] by blast
  then show ?thesis
    using lo c z fit i64
    by (auto simp: BuildUnrolledIterValue_def bin_val_def simp del: TryGetConstInt64_Some split: option.split)
qed

lemma UnrollLoop_ssim:
  assumes "loop_header loop_ok s0" "fp_int_ok F"
  shows "ssim F S s0 (fst (UnrollLoopRewriter F s0 n))"
proof (cases "fst (UnrollLoopRewriter F s0 n) = s0")
  case False
  then obtain x lo ext ft s where s0: "s0 = For x lo ext ft s" by (cases s0) auto
  with False obtain k d where ext: "ext = IntImm k d" and k: "0 \<le> k" "k \<le> 8"
    by (auto split: if_splits option.splits)
  let ?it = "\<lambda>i. LetStmt x (BuildUnrolledIterValue F lo i (vdtype x)) s"
  have rw: "fst (UnrollLoopRewriter F s0 n) = MakeSeqStmtOrUnit F (map ?it [0..k - 1])"
    using False k by (auto simp: s0 ext MakeSeqStmtOrUnit_def split: if_splits)
  show ?thesis
  proof (rule ssimI)
    fix en m m' assume ex: "exec F S s0 en m = Some m'"
    let ?f = "\<lambda>i m. exec F S s (en(vid x \<mapsto> VI i)) m"
    from ex obtain l where l: "eval F S en m lo = Some (VI l)" "fits l (vdtype x)" "fits (l + k) (vdtype x)"
      and run: "ofold ?f [l..l + k - 1] m = Some m'"
      unfolding s0 exec_For_conv ext by (auto split: if_splits)
    have R: "loop_run F S en x lo ext l k"
      using loop_runI [OF _ l] assms(1) s0 ext by simp
    have it: "exec F S (?it i) en m = ?f (l + i) m" if "0 \<le> i" "i < k" for i m
      by (rule exec_let_iter [OF BuildUnrolledIterValue_eval [OF R assms(2)]])
        (use that loop_run_fits(2) [OF R, of i] in auto)
    have "ofold (\<lambda>i m. exec F S (?it i) en m) [0..k - 1] m = ofold (\<lambda>i m. ?f (l + i) m) [0..k - 1] m"
      by (rule ofold_cong) (use it in \<open>auto simp del: exec.simps\<close>)
    also have "\<dots> = ofold ?f (map (\<lambda>r. l + r) [0..k - 1]) m" by (simp add: ofold_map)
    also have "\<dots> = Some m'" using run by (simp add: upto_shift)
    finally show "exec F S (fst (UnrollLoopRewriter F s0 n)) en m = Some m'"
      unfolding rw by (intro exec_MakeSeq) (simp add: ofold_map del: exec.simps)
  qed
qed simp

lemma BuildUnrolledIterValue_ids:
  "ids_below_e n lo \<Longrightarrow> ids_below_e n (BuildUnrolledIterValue F lo i dt)"
  by (auto simp: BuildUnrolledIterValue_def split: option.split)

lemma UnrollLoop_shape:
  obtains "UnrollLoopRewriter F s0 n = (s0, n)"
  | x lo ext ft s ss where "s0 = For x lo ext ft s" "UnrollLoopRewriter F s0 n = (MakeSeqStmtOrUnit F ss, n)"
    "list_all (\<lambda>t. (ids_below n s0 \<longrightarrow> ids_below n t) \<and> (loops0 s0 \<longrightarrow> loops0 t)) ss"
proof (cases "UnrollLoopRewriter F s0 n = (s0, n)")
  case False
  then obtain x lo ext ft s where s0: "s0 = For x lo ext ft s" by (cases s0) auto
  with False obtain k d where ext: "ext = IntImm k d" and k: "0 \<le> k" "k \<le> 8"
    by (auto split: if_splits option.splits)
  let ?ss = "map (\<lambda>i. LetStmt x (BuildUnrolledIterValue F lo i (vdtype x)) s) [0..k - 1]"
  have rw: "UnrollLoopRewriter F s0 n = (MakeSeqStmtOrUnit F ?ss, n)"
    using False k by (auto simp: s0 ext MakeSeqStmtOrUnit_def split: if_splits)
  show thesis
    by (rule that(2) [OF s0 rw]) (auto simp: list_all_iff s0 BuildUnrolledIterValue_ids)
qed

section \<open>The passes\<close>

text \<open>
  Both transforms meet the interface of a loop rewriter on the loops they treat exactly, given
  the law of the conversion of integers to \<^verbatim>\<open>double\<close> that the zero test relies on.
\<close>

interpretation part_rw: loop_rewriter "LoopPartitionRewriter F"
  "\<lambda>x lo ext. loop_ok x lo ext \<and> fp_int_ok F" F S
proof unfold_locales
  fix n and s :: "'a Stmt" assume ids: "ids_below n s"
  show "n \<le> snd (LoopPartitionRewriter F s n) \<and>
      ids_below (snd (LoopPartitionRewriter F s n)) (fst (LoopPartitionRewriter F s n))"
    by (rule LoopPartition_shape [of F s n])
      (use ids in \<open>auto simp: list_all_iff intro!: ids_MakeSeq simp del: LoopPartitionRewriter.simps\<close>)
  assume h: "loop_header (\<lambda>x lo ext. loop_ok x lo ext \<and> fp_int_ok F) s"
  have "loops0 s \<longrightarrow> loops0 (fst (LoopPartitionRewriter F s n))"
    by (rule LoopPartition_shape [of F s n])
      (auto simp: list_all_iff intro!: loops0_MakeSeq simp del: LoopPartitionRewriter.simps)
  moreover have "ssim F S s (fst (LoopPartitionRewriter F s n))"
  proof (cases "\<exists>x lo ext ft t. s = For x lo ext ft t")
    case True
    then show ?thesis using h ids by (intro LoopPartition_ssim) auto
  next
    case False
    then show ?thesis by (cases s) auto
  qed
  ultimately show "loop_rel_s F S s (fst (LoopPartitionRewriter F s n))" by (simp add: loop_rel_s_def)
qed

interpretation unroll_rw: loop_rewriter "UnrollLoopRewriter F"
  "\<lambda>x lo ext. loop_ok x lo ext \<and> fp_int_ok F" F S
proof unfold_locales
  fix n and s :: "'a Stmt" assume ids: "ids_below n s"
  show "n \<le> snd (UnrollLoopRewriter F s n) \<and>
      ids_below (snd (UnrollLoopRewriter F s n)) (fst (UnrollLoopRewriter F s n))"
    by (rule UnrollLoop_shape [of F s n])
      (use ids in \<open>auto simp: list_all_iff intro!: ids_MakeSeq simp del: UnrollLoopRewriter.simps\<close>)
  assume h: "loop_header (\<lambda>x lo ext. loop_ok x lo ext \<and> fp_int_ok F) s"
  have "loops0 s \<longrightarrow> loops0 (fst (UnrollLoopRewriter F s n))"
    by (rule UnrollLoop_shape [of F s n])
      (auto simp: list_all_iff intro!: loops0_MakeSeq simp del: UnrollLoopRewriter.simps)
  moreover have "ssim F S s (fst (UnrollLoopRewriter F s n))"
  proof (cases "\<exists>x lo ext ft t. s = For x lo ext ft t")
    case True
    then show ?thesis using h by (intro UnrollLoop_ssim) auto
  next
    case False
    then show ?thesis by (cases s) auto
  qed
  ultimately show "loop_rel_s F S s (fst (UnrollLoopRewriter F s n))" by (simp add: loop_rel_s_def)
qed

section \<open>Properties\<close>

text \<open>
C4. Loop partitioning preserves the meaning of every function whose loops count in a signed
  type of at most 64 bits and either start at the literal 0 or have a lower bound that reads
  no memory, in the type of the loop variable: the blocks of four and the remainder run
  exactly the iterations of the original loop, in order. The pass throws only what deriving the
  context of the function throws.
\<close>

theorem loop_partition_preserves:
  assumes "fp_int_ok F" "all_loops loop_ok (body f)" "ids_below n (body f)"
  shows "\<exists>g k. LoopPartitionPass E F f n = sbind (pass_context E f) (\<lambda>_. Inr (g, k)) \<and>
    (\<forall>S en m m'. exec F S (body f) en m = Some m' \<longrightarrow> exec F S (body g) en m = Some m')"
proof -
  obtain g k where g: "VisitPrimFunc keep_expr (LoopPartitionRewriter F) f n = Inr (g, k)"
    using keep_vars.VisitPrimFunc_total [of "LoopPartitionRewriter F" f n]
    by (cases "rw_func keep_expr (LoopPartitionRewriter F) f n") auto
  have "all_loops (\<lambda>x lo ext. loop_ok x lo ext \<and> fp_int_ok F) (body f)"
    using assms(1,2) by (auto intro: all_loops_mono)
  then show ?thesis
    using part_rw.pass_rel(1) [OF g _ assms(3)] g
    by (intro exI [of _ g] exI [of _ k]) (auto simp: LoopPartitionPass_def MutatePrimFunc_def loop_rel_s_def ssim_def)
qed

lemma ex_loop_ok: "all_loops loop_ok (body ex_fn)"
  using loops0_loop_ok ex_static(2) by blast

theorem loop_partition_preserves_witness:
  "\<exists>g k. LoopPartitionPass ex_pass_env fp_int ex_fn 3 = Inr (g, k) \<and>
     map_option (\<lambda>m. m 1) (exec fp_int sem_id (body g) ex_env ex_mem) =
       Some (Some [Some (VF 5), Some (VF 10), Some (VF 15), Some (VF 20), Some (VF 25), Some (VF 30)])"
proof -
  obtain m' where "exec fp_int sem_id (body ex_fn) ex_env ex_mem = Some m'"
    using ex_runs by (cases "exec fp_int sem_id (body ex_fn) ex_env ex_mem") auto
  then show ?thesis
    using loop_partition_preserves [OF fp_int_int_ok ex_loop_ok ex_static(1), of ex_pass_env] ex_runs by fastforce
qed

text \<open>
C5. Unrolling preserves the meaning of every function under the same conditions on its loops:
  the sequence of bound copies of the body runs the iterations of the loop, and a loop of
  extent 0 disappears. The pass throws only what deriving the context of the function throws.
\<close>

theorem unroll_loop_preserves:
  assumes "fp_int_ok F" "all_loops loop_ok (body f)" "ids_below n (body f)"
  shows "\<exists>g k. UnrollLoopPass E F f n = sbind (pass_context E f) (\<lambda>_. Inr (g, k)) \<and>
    (\<forall>S en m m'. exec F S (body f) en m = Some m' \<longrightarrow> exec F S (body g) en m = Some m')"
proof -
  obtain g k where g: "VisitPrimFunc keep_expr (UnrollLoopRewriter F) f n = Inr (g, k)"
    using keep_vars.VisitPrimFunc_total [of "UnrollLoopRewriter F" f n]
    by (cases "rw_func keep_expr (UnrollLoopRewriter F) f n") auto
  have "all_loops (\<lambda>x lo ext. loop_ok x lo ext \<and> fp_int_ok F) (body f)"
    using assms(1,2) by (auto intro: all_loops_mono)
  then show ?thesis
    using unroll_rw.pass_rel(1) [OF g _ assms(3)] g
    by (intro exI [of _ g] exI [of _ k]) (auto simp: UnrollLoopPass_def MutatePrimFunc_def loop_rel_s_def ssim_def)
qed

theorem unroll_loop_preserves_witness:
  "\<exists>g k. UnrollLoopPass ex_pass_env fp_int ex_fn 3 = Inr (g, k) \<and>
     map_option (\<lambda>m. m 1) (exec fp_int sem_id (body g) ex_env ex_mem) =
       Some (Some [Some (VF 5), Some (VF 10), Some (VF 15), Some (VF 20), Some (VF 25), Some (VF 30)])"
proof -
  obtain m' where "exec fp_int sem_id (body ex_fn) ex_env ex_mem = Some m'"
    using ex_runs by (cases "exec fp_int sem_id (body ex_fn) ex_env ex_mem") auto
  then show ?thesis
    using unroll_loop_preserves [OF fp_int_int_ok ex_loop_ok ex_static(1), of ex_pass_env] ex_runs by fastforce
qed

text \<open>
C8. No-op removal preserves the meaning of every function, without further hypotheses. The pass
throws only what deriving the context of the function throws.
\<close>

theorem remove_no_op_preserves:
  assumes "ids_below n (body f)"
  shows "\<exists>g k. RemoveNoOpPass E F f n = sbind (pass_context E f) (\<lambda>_. Inr (g, k)) \<and>
    (\<forall>S en m m'. exec F S (body f) en m = Some m' \<longrightarrow> exec F S (body g) en m = Some m')"
proof -
  obtain g k where g: "VisitPrimFunc keep_expr (RemoveNoOpRewriter F) f n = Inr (g, k)"
    using keep_vars.VisitPrimFunc_total [of "RemoveNoOpRewriter F" f n]
    by (cases "rw_func keep_expr (RemoveNoOpRewriter F) f n") auto
  then show ?thesis
    using noop_rw.pass_rel(1) [OF g all_loops_True assms] g
    by (intro exI [of _ g] exI [of _ k]) (auto simp: RemoveNoOpPass_def MutatePrimFunc_def loop_rel_s_def ssim_def)
qed

theorem remove_no_op_preserves_witness:
  "\<exists>g k. RemoveNoOpPass ex_pass_env fp_int ex_fn 3 = Inr (g, k) \<and>
     map_option (\<lambda>m. m 1) (exec fp_int sem_id (body g) ex_env ex_mem) =
       Some (Some [Some (VF 5), Some (VF 10), Some (VF 15), Some (VF 20), Some (VF 25), Some (VF 30)])"
proof -
  obtain m' where "exec fp_int sem_id (body ex_fn) ex_env ex_mem = Some m'"
    using ex_runs by (cases "exec fp_int sem_id (body ex_fn) ex_env ex_mem") auto
  then show ?thesis
    using remove_no_op_preserves [OF ex_static(1), of ex_pass_env fp_int] ex_runs by fastforce
qed

text \<open>
The condition that the lower bound reads no memory is needed: the loop over two iterations
  from \<open>C[0]\<close> whose body stores into \<open>C[0]\<close> ends with 13 in that cell, its unrolled form with
  23, because the unrolled form reads the bound again after the first store.
\<close>

lemma unroll_rereads_min:
  "let c = \<lparr>vid = 0, name_hint = ''C'', vdtype = dt_Int 32 1\<rparr>; i = ex_i;
       lo = Load c (IntImm 0 (dt_Int 32 1)) NullExpr;
       loop = For i lo (IntImm 2 (dt_Int 32 1)) Serial
         (Store c (Bin AddOp (VarE i) (IntImm 10 (dt_Int 32 1))) (IntImm 0 (dt_Int 32 1)) NullExpr);
       m = (\<lambda>b. if b = 0 then Some [Some (VI 2)] else None)
   in map_option (\<lambda>m. m 0) (exec fp_int sem_id loop ex_env m) = Some (Some [Some (VI 13)]) \<and>
      map_option (\<lambda>m. m 0) (exec fp_int sem_id (fst (UnrollLoopRewriter fp_int loop 3)) ex_env m) =
        Some (Some [Some (VI 23)])"
proof -
  have u: "[2..(3::int)] = [2, 3]" "[0..(1::int)] = [0, 1]" by code_simp+
  show ?thesis
    by (simp add: Let_def ex_i_def ex_env_def loop_range_def fits_def pred_val_def bin_val_def load_def
        store_def sem_id_def is_i64_def dt_defs u MakeSeqStmtOrUnit_def BuildUnrolledIterValue_def
        IsConstZero_def)
qed

end
