(* ===== verification/TIR_Pipeline.thy ===== *)
theory TIR_Pipeline
  imports TIR_LoopProofs "HOL-Library.Char_ord"
begin

text \<open>
  The pass pipeline of \<^verbatim>\<open>src/tir/transforms/pipeline.cc\<close>: the table of named passes, the
  default order and the driver. The profiling spans around each pass only observe the
  functions; the driver rethrows what a pass throws.
\<close>

section \<open>Definitions\<close>

definition sanitize_char :: "char \<Rightarrow> char" where
  "sanitize_char ch =
     (if (CHR ''a'' \<le> ch \<and> ch \<le> CHR ''z'') \<or> (CHR ''A'' \<le> ch \<and> ch \<le> CHR ''Z'') \<or>
         (CHR ''0'' \<le> ch \<and> ch \<le> CHR ''9'') \<or> ch = CHR ''_'' \<or> ch = CHR ''-''
      then ch else CHR ''_'')"

definition SanitizeArtifactName :: "string \<Rightarrow> string" where
  "SanitizeArtifactName pass_name = map sanitize_char pass_name"

type_synonym 'd TIRPassFunc = "'d PrimFunc \<Rightarrow> nat \<Rightarrow> tir_error + 'd PrimFunc \<times> nat"

definition GetTIRPassTable :: "pass_env \<Rightarrow> 'd fp \<Rightarrow> (string \<times> 'd TIRPassFunc) list" where
  "GetTIRPassTable E F =
     [(''fold_constant'', FoldConstantPass E F),
      (''simplify_expr'', SimplifyExprPass E F),
      (''force_narrow_index_to_i32'', ForceNarrowIndexToI32Pass E),
      (''loop_partition'', LoopPartitionPass E F),
      (''unroll_loop'', UnrollLoopPass E F),
      (''vectorize_loop'', VectorizeLoopPass E),
      (''remove_no_op'', RemoveNoOpPass E F),
      (''convert_for_loops_serial'', ConvertForLoopsSerialPass E)]"

definition GetDefaultPassOrder :: "string list" where
  "GetDefaultPassOrder =
     [''fold_constant'', ''simplify_expr'', ''force_narrow_index_to_i32'',
      ''convert_for_loops_serial'', ''loop_partition'', ''unroll_loop'', ''vectorize_loop'',
      ''remove_no_op'']"

definition RunSinglePass :: "pass_env \<Rightarrow> 'd fp \<Rightarrow> string \<Rightarrow> 'd TIRPassFunc" where
  "RunSinglePass E F pass_name f n =
     (case map_of (GetTIRPassTable E F) pass_name of
        None \<Rightarrow> Inl (UnknownTIRPass pass_name)
      | Some p \<Rightarrow> p f n)"

text \<open>One element of the list of names given to the driver.\<close>

definition RunPipelineEntry ::
  "pass_env \<Rightarrow> 'd fp \<Rightarrow> string \<Rightarrow> 'd PrimFunc \<times> nat \<Rightarrow> tir_error + 'd PrimFunc \<times> nat"
where
  "RunPipelineEntry E F pass_name st =
     (if pass_name = ''optimize_default''
      then sfold (\<lambda>default_name (f, n). RunSinglePass E F default_name f n) GetDefaultPassOrder st
      else RunSinglePass E F pass_name (fst st) (snd st))"

definition RunTIRPassPipeline ::
  "pass_env \<Rightarrow> 'd fp \<Rightarrow> 'd PrimFunc option \<Rightarrow> string list \<Rightarrow> nat \<Rightarrow> tir_error + 'd PrimFunc \<times> nat" where
  "RunTIRPassPipeline E F func pass_names n =
     (case func of
        None \<Rightarrow> Inl UndefinedPrimFunc
      | Some f \<Rightarrow> sfold (RunPipelineEntry E F) pass_names (f, n))"

section \<open>Errors\<close>

text \<open>
  A pass throws what deriving the context of the function throws and nothing else, and keeps the
  attributes the context is derived from. The interface of a pass:
\<close>

locale context_pass =
  fixes E :: pass_env and p :: "'d TIRPassFunc"
  assumes runs: "\<exists>g k. p f n = sbind (pass_context E f) (\<lambda>_. Inr (g, k)) \<and> attrs g = attrs f"
begin

lemma no_context: "pass_context E f = Inl e \<Longrightarrow> p f n = Inl e"
  using runs [of f n] by auto

lemma with_context: "pass_context E f = Inr ctx \<Longrightarrow> \<exists>g k. p f n = Inr (g, k) \<and> attrs g = attrs f"
  using runs [of f n] by auto

end

lemma pass_context_cong: "attrs g = attrs f \<Longrightarrow> pass_context E g = pass_context E f"
  by (simp add: pass_context_def)

lemma attrs_rw_func [simp]: "attrs (fst (rw_func he hs f n)) = attrs f"
  by (simp add: rw_func_def split_beta)

lemma context_passI:
  assumes "\<And>f n. p f n = sbind (pass_context E f) (\<lambda>_. Inr (rw_func he hs f n))"
  shows "context_pass E p"
proof
  show "\<exists>g k. p f n = sbind (pass_context E f) (\<lambda>_. Inr (g, k)) \<and> attrs g = attrs f" for f n
    using assms [of f n] attrs_rw_func [of he hs f n]
    by (intro exI [of _ "fst (rw_func he hs f n)"] exI [of _ "snd (rw_func he hs f n)"]) simp
qed

lemma var_keeping_pass:
  assumes "var_keeping he"
  shows "context_pass E (MutatePrimFunc E he hs)"
  by (rule context_passI) (simp add: MutatePrimFunc_def var_keeping.VisitPrimFunc_total [OF assms])

lemma loop_pass_eqs:
  "LoopPartitionPass E F = MutatePrimFunc E keep_expr (LoopPartitionRewriter F)"
  "UnrollLoopPass E F = MutatePrimFunc E keep_expr (UnrollLoopRewriter F)"
  "VectorizeLoopPass E = MutatePrimFunc E keep_expr VectorizeLoopRewriter"
  "RemoveNoOpPass E F = MutatePrimFunc E keep_expr (RemoveNoOpRewriter F)"
  "ConvertForLoopsSerialPass E = MutatePrimFunc E keep_expr ConvertForLoopsSerialRewriter"
  by (intro ext; simp add: LoopPartitionPass_def UnrollLoopPass_def VectorizeLoopPass_def
      RemoveNoOpPass_def ConvertForLoopsSerialPass_def)+

interpretation fold_pass: context_pass E "FoldConstantPass E F" for E and F :: "'d fp"
  by (rule context_passI) (rule FoldConstantPass_total)

interpretation simplify_pass: context_pass E "SimplifyExprPass E F" for E and F :: "'d fp"
  by (rule context_passI) (rule SimplifyExprPass_total)

interpretation narrow_pass: context_pass E "ForceNarrowIndexToI32Pass E :: 'd TIRPassFunc" for E
proof
  show "\<exists>g k. ForceNarrowIndexToI32Pass E f n = sbind (pass_context E f) (\<lambda>_. Inr (g, k)) \<and> attrs g = attrs f"
    for f :: "'d PrimFunc" and n
    using attrs_rw_func [of ForceNarrowExpr ForceNarrowStmt f n]
    by (intro exI [of _ "fst (rw_func ForceNarrowExpr ForceNarrowStmt f n)\<lparr>buffer_map :=
          map (\<lambda>(k, v). (k, NarrowBufferIndices v)) (buffer_map (fst (rw_func ForceNarrowExpr ForceNarrowStmt f n)))\<rparr>"]
        exI [of _ "snd (rw_func ForceNarrowExpr ForceNarrowStmt f n)"])
      (simp add: ForceNarrowIndexToI32Pass_total split_beta)
qed

interpretation partition_pass: context_pass E "LoopPartitionPass E F" for E and F :: "'d fp"
  unfolding loop_pass_eqs by (rule var_keeping_pass) (rule keep_vars.var_keeping_axioms)

interpretation unroll_pass: context_pass E "UnrollLoopPass E F" for E and F :: "'d fp"
  unfolding loop_pass_eqs by (rule var_keeping_pass) (rule keep_vars.var_keeping_axioms)

interpretation vectorize_pass: context_pass E "VectorizeLoopPass E :: 'd TIRPassFunc" for E
  unfolding loop_pass_eqs by (rule var_keeping_pass) (rule keep_vars.var_keeping_axioms)

interpretation no_op_pass: context_pass E "RemoveNoOpPass E F" for E and F :: "'d fp"
  unfolding loop_pass_eqs by (rule var_keeping_pass) (rule keep_vars.var_keeping_axioms)

interpretation serial_pass: context_pass E "ConvertForLoopsSerialPass E :: 'd TIRPassFunc" for E
  unfolding loop_pass_eqs by (rule var_keeping_pass) (rule keep_vars.var_keeping_axioms)

definition known_pass :: "string \<Rightarrow> bool" where
  "known_pass nm \<longleftrightarrow> nm \<in> set GetDefaultPassOrder"

lemma known_pass_table: "known_pass nm \<longleftrightarrow> nm \<in> fst ` set (GetTIRPassTable E F)"
  by (auto simp: known_pass_def GetDefaultPassOrder_def GetTIRPassTable_def)

lemma table_pass: "(nm, p) \<in> set (GetTIRPassTable E F) \<Longrightarrow> context_pass E p"
  by (auto simp: GetTIRPassTable_def intro: fold_pass.context_pass_axioms simplify_pass.context_pass_axioms
    narrow_pass.context_pass_axioms partition_pass.context_pass_axioms unroll_pass.context_pass_axioms
    vectorize_pass.context_pass_axioms no_op_pass.context_pass_axioms serial_pass.context_pass_axioms)

lemma RunSinglePass_known: "known_pass nm \<Longrightarrow> context_pass E (RunSinglePass E F nm)"
proof -
  assume "known_pass nm"
  then obtain p where p: "map_of (GetTIRPassTable E F) nm = Some p"
    by (metis known_pass_table map_of_eq_None_iff option.exhaust)
  then have "RunSinglePass E F nm = p" by (intro ext) (simp add: RunSinglePass_def)
  then show ?thesis using table_pass [OF map_of_SomeD [OF p]] by simp
qed

lemma RunSinglePass_unknown:
  "\<not> known_pass nm \<Longrightarrow> RunSinglePass E F nm f n = Inl (UnknownTIRPass nm)"
proof -
  assume "\<not> known_pass nm"
  then have "map_of (GetTIRPassTable E F) nm = None"
    by (simp add: known_pass_table [of nm E F] map_of_eq_None_iff)
  then show ?thesis by (simp add: RunSinglePass_def)
qed

definition known_entry :: "string \<Rightarrow> bool" where
  "known_entry nm \<longleftrightarrow> nm = ''optimize_default'' \<or> known_pass nm"

text \<open>Running passes one after another is a pass.\<close>

lemma sfold_passes:
  assumes "\<And>x. x \<in> set xs \<Longrightarrow> context_pass E (\<lambda>f n. q x (f, n))" "pass_context E f = Inr ctx"
  shows "\<exists>g k. sfold q xs (f, n) = Inr (g, k) \<and> attrs g = attrs f"
  using assms
proof (induction xs arbitrary: f n)
  case (Cons x xs)
  then obtain g k where g: "q x (f, n) = Inr (g, k)" "attrs g = attrs f"
    using context_pass.with_context [OF Cons.prems(1) [of x] Cons.prems(2), where n = n] by auto
  then have "pass_context E g = Inr ctx" using pass_context_cong Cons.prems(2) by metis
  then obtain g' k' where "sfold q xs (g, k) = Inr (g', k')" "attrs g' = attrs g"
    using Cons.IH Cons.prems(1) by fastforce
  then show ?case using g by simp
qed simp

lemma RunPipelineEntry_known:
  assumes "known_entry nm"
  shows "context_pass E (\<lambda>f n. RunPipelineEntry E F nm (f, n))"
proof (cases "nm = ''optimize_default''")
  case True
  let ?q = "\<lambda>default_name (f, n). RunSinglePass E F default_name f n"
  have q: "context_pass E (\<lambda>f n. ?q x (f, n))" if "x \<in> set GetDefaultPassOrder" for x
    using RunSinglePass_known [of x E F] that by (simp add: known_pass_def)
  show ?thesis
  proof
    fix f :: "'a PrimFunc" and n
    show "\<exists>g k. RunPipelineEntry E F nm (f, n) = sbind (pass_context E f) (\<lambda>_. Inr (g, k)) \<and> attrs g = attrs f"
    proof (cases "pass_context E f")
      case (Inl e)
      have "RunSinglePass E F ''fold_constant'' f n = Inl e"
        by (rule context_pass.no_context [OF RunSinglePass_known Inl]) (simp add: known_pass_def GetDefaultPassOrder_def)
      then show ?thesis
        by (intro exI [of _ f] exI [of _ n]) (simp add: True Inl RunPipelineEntry_def GetDefaultPassOrder_def)
    next
      case (Inr ctx)
      then show ?thesis using sfold_passes [where q = ?q and xs = GetDefaultPassOrder and n = n, OF q Inr] by (simp add: True RunPipelineEntry_def)
    qed
  qed
next
  case False
  then have "(\<lambda>f n. RunPipelineEntry E F nm (f, n)) = RunSinglePass E F nm"
    by (intro ext) (simp add: RunPipelineEntry_def)
  then show ?thesis using RunSinglePass_known assms False by (simp add: known_entry_def)
qed

lemma RunPipelineEntry_unknown:
  "\<not> known_entry nm \<Longrightarrow> RunPipelineEntry E F nm st = Inl (UnknownTIRPass nm)"
  by (simp add: known_entry_def RunPipelineEntry_def RunSinglePass_unknown)

text \<open>With a context, the error names the first unknown pass.\<close>

lemma pipeline_with_context:
  assumes "pass_context E f = Inr ctx"
  shows "case find (\<lambda>nm. \<not> known_entry nm) pass_names of
      Some nm \<Rightarrow> sfold (RunPipelineEntry E F) pass_names (f, n) = Inl (UnknownTIRPass nm)
    | None \<Rightarrow> \<exists>g k. sfold (RunPipelineEntry E F) pass_names (f, n) = Inr (g, k) \<and> attrs g = attrs f"
  using assms
proof (induction pass_names arbitrary: f n)
  case (Cons nm nms)
  show ?case
  proof (cases "known_entry nm")
    case True
    then obtain g k where g: "RunPipelineEntry E F nm (f, n) = Inr (g, k)" "attrs g = attrs f"
      using context_pass.with_context [OF RunPipelineEntry_known Cons.prems] by blast
    then have "pass_context E g = Inr ctx" using pass_context_cong Cons.prems by metis
    then show ?thesis using Cons.IH [of g k] True g by (auto split: option.splits)
  next
    case False
    then show ?thesis using RunPipelineEntry_unknown [of nm E F "(f, n)"] by simp
  qed
qed simp

lemma pipeline_without_context:
  assumes "pass_context E f = Inl e"
  shows "sfold (RunPipelineEntry E F) pass_names (f, n) =
    (case pass_names of
       [] \<Rightarrow> Inr (f, n)
     | nm # _ \<Rightarrow> Inl (if known_entry nm then e else UnknownTIRPass nm))"
  using context_pass.no_context [OF RunPipelineEntry_known assms] RunPipelineEntry_unknown [of _ E F "(f, n)"]
  by (cases pass_names) simp_all

section \<open>Meaning\<close>

text \<open>What each pass keeps on the way through the default pipeline.\<close>

definition pipe_ok :: "'d fp \<Rightarrow> 'd sem \<Rightarrow> 'd Stmt \<Rightarrow> 'd PrimFunc \<times> nat \<Rightarrow> bool" where
  "pipe_ok F S s st \<longleftrightarrow> ssim F S s (body (fst st)) \<and> loops0 (body (fst st)) \<and>
     ids_below (snd st) (body (fst st))"

lemma pipe_ok_loop_rel:
  assumes "pipe_ok F S s (f, n)" "loop_rel_s F S (body f) (body f')" "ids_below n' (body f')"
  shows "pipe_ok F S s (f', n')"
  using assms ssim_trans [of F S s "body f" "body f'"] by (auto simp: pipe_ok_def loop_rel_s_def)

text \<open>A run of a pass on a function with a context.\<close>

definition pass_runs :: "pass_env \<Rightarrow> 'd TIRPassFunc \<Rightarrow> 'd PrimFunc \<times> nat \<Rightarrow> 'd PrimFunc \<times> nat \<Rightarrow> bool" where
  "pass_runs E p st st' \<longleftrightarrow> (\<forall>ctx. pass_context E (fst st) = Inr ctx \<longrightarrow>
     p (fst st) (snd st) = Inr st' \<and> pass_context E (fst st') = Inr ctx)"

lemma pass_runsI:
  assumes "p f n = sbind (pass_context E f) (\<lambda>_. Inr (g, k))" "attrs g = attrs f"
  shows "pass_runs E p (f, n) (g, k)"
  using assms pass_context_cong [OF assms(2), of E] by (auto simp: pass_runs_def)

lemma fold_pipe:
  assumes "64 \<le> ld_prec F" "sem_ok S" "wt_s F (body f)" "loops0 (body f)" "ids_below n (body f)"
  obtains g k where "pass_runs E (FoldConstantPass E F) (f, n) (g, k)" "pipe_ok F S (body f) (g, k)" "wt_s F (body g)"
proof -
  obtain g k where g: "rw_func (FoldConstantRewriter F) keep_stmt f n = (g, k)" by (metis surj_pair)
  from FoldConstantPass_rel [OF assms(1,2,3,5) g]
  have "pipe_ok F S (body f) (g, k)" "wt_s F (body g)"
    using assms(4) by (auto simp: pipe_ok_def fold_rel_s_def)
  moreover have "pass_runs E (FoldConstantPass E F) (f, n) (g, k)"
    using attrs_rw_func [of "FoldConstantRewriter F" keep_stmt f n] g
    by (intro pass_runsI) (simp_all add: FoldConstantPass_total)
  ultimately show thesis using that by blast
qed

lemma simplify_pipe:
  assumes "unit_ok F S" "wt_s F (body f)" "pipe_ok F S s (f, n)"
  obtains g k where "pass_runs E (SimplifyExprPass E F) (f, n) (g, k)" "pipe_ok F S s (g, k)"
proof -
  let ?r = "rw_func (SimplifyExprRewriter F) keep_stmt f n"
  have "loop_rel_s F S (body f) (body (fst ?r))" "ids_below (snd ?r) (body (fst ?r))"
    using simp_rw.rw_stmt_rel [of F "body f" S n] simp_fresh.rw_stmt_ids(2) [of n "body f" F] assms
    by (simp_all add: body_rw_func snd_rw_func pipe_ok_def)
  then have "pipe_ok F S s (fst ?r, snd ?r)" by (rule pipe_ok_loop_rel [OF assms(3)])
  moreover have "pass_runs E (SimplifyExprPass E F) (f, n) (fst ?r, snd ?r)"
    by (rule pass_runsI) (simp_all add: SimplifyExprPass_total)
  ultimately show thesis using that by blast
qed

lemma narrow_pipe:
  assumes "pipe_ok F S s (f, n)"
  obtains g k where "pass_runs E (ForceNarrowIndexToI32Pass E) (f, n) (g, k)" "pipe_ok F S s (g, k)"
proof -
  let ?r = "rw_func ForceNarrowExpr ForceNarrowStmt f n"
  let ?g = "fst ?r\<lparr>buffer_map := map (\<lambda>(k, v). (k, NarrowBufferIndices v)) (buffer_map (fst ?r))\<rparr>"
  have "loop_rel_s F S (body f) (body (fst ?r))" "ids_below (snd ?r) (body (fst ?r))"
    using narrow_rw.rw_stmt_rel [where s = "body f" and n = n and F = F and S = S] narrow_fresh.rw_stmt_ids(2) [of n "body f"] assms
    by (simp_all add: body_rw_func snd_rw_func pipe_ok_def)
  then have "pipe_ok F S s (fst ?r, snd ?r)" by (rule pipe_ok_loop_rel [OF assms])
  then have "pipe_ok F S s (?g, snd ?r)" by (simp add: pipe_ok_def)
  moreover have "pass_runs E (ForceNarrowIndexToI32Pass E) (f, n) (?g, snd ?r)"
    by (rule pass_runsI) (simp_all add: ForceNarrowIndexToI32Pass_total split_beta)
  ultimately show thesis using that by blast
qed

text \<open>The loop passes, through the interface of loop rewriters.\<close>

context loop_rewriter
begin

lemma loop_pipe:
  assumes "pipe_ok F S s (f, n)" "all_loops Q (body f)"
  obtains g k where "pass_runs E (MutatePrimFunc E keep_expr hs) (f, n) (g, k)" "pipe_ok F S s (g, k)"
proof -
  obtain g k where g: "rw_func keep_expr hs f n = (g, k)" by (metis surj_pair)
  then have v: "VisitPrimFunc keep_expr hs f n = Inr (g, k)"
    using keep_vars.VisitPrimFunc_total [of hs f n] by simp
  have "ids_below n (body f)" using assms(1) by (simp add: pipe_ok_def)
  from pass_rel [OF v assms(2) this] have "pipe_ok F S s (g, k)"
    by (intro pipe_ok_loop_rel [OF assms(1)])
  moreover have "pass_runs E (MutatePrimFunc E keep_expr hs) (f, n) (g, k)"
    using attrs_rw_func [of keep_expr hs f n] g by (intro pass_runsI) (simp_all add: MutatePrimFunc_def v)
  ultimately show thesis using that by blast
qed

end

lemma pipe_ok_loop_ok:
  "pipe_ok F S s (f, n) \<Longrightarrow> fp_int_ok F \<Longrightarrow> all_loops (\<lambda>x lo ext. loop_ok x lo ext \<and> fp_int_ok F) (body f)"
  using loops0_loop_ok by (auto simp: pipe_ok_def intro: all_loops_mono)

lemma default_order:
  assumes "64 \<le> ld_prec F" "unit_ok F S" "wt_s F (body f)" "loops0 (body f)" "ids_below n (body f)"
  obtains g k where
    "RunTIRPassPipeline E F (Some f) [''optimize_default''] n = sbind (pass_context E f) (\<lambda>_. Inr (g, k))"
    "pipe_ok F S (body f) (g, k)"
proof -
  have U: "sem_ok S" "fp_int_ok F" using assms(2) by (simp_all add: unit_ok_def)
  obtain g1 k1 where 1: "pass_runs E (FoldConstantPass E F) (f, n) (g1, k1)" "pipe_ok F S (body f) (g1, k1)"
    "wt_s F (body g1)" by (rule fold_pipe [OF assms(1) U(1) assms(3-5)])
  obtain g2 k2 where 2: "pass_runs E (SimplifyExprPass E F) (g1, k1) (g2, k2)" "pipe_ok F S (body f) (g2, k2)"
    by (rule simplify_pipe [OF assms(2) 1(3,2)])
  obtain g3 k3 where 3: "pass_runs E (ForceNarrowIndexToI32Pass E) (g2, k2) (g3, k3)" "pipe_ok F S (body f) (g3, k3)"
    by (rule narrow_pipe [OF 2(2)])
  obtain g4 k4 where 4: "pass_runs E (ConvertForLoopsSerialPass E) (g3, k3) (g4, k4)" "pipe_ok F S (body f) (g4, k4)"
    by (rule serial_rw.loop_pipe [OF 3(2) all_loops_True, of E]) (rule that, unfold loop_pass_eqs)
  obtain g5 k5 where 5: "pass_runs E (LoopPartitionPass E F) (g4, k4) (g5, k5)" "pipe_ok F S (body f) (g5, k5)"
    by (rule part_rw.loop_pipe [OF 4(2) pipe_ok_loop_ok [OF 4(2) U(2)], of E]) (rule that, unfold loop_pass_eqs)
  obtain g6 k6 where 6: "pass_runs E (UnrollLoopPass E F) (g5, k5) (g6, k6)" "pipe_ok F S (body f) (g6, k6)"
    by (rule unroll_rw.loop_pipe [OF 5(2) pipe_ok_loop_ok [OF 5(2) U(2)], of E]) (rule that, unfold loop_pass_eqs)
  obtain g7 k7 where 7: "pass_runs E (VectorizeLoopPass E) (g6, k6) (g7, k7)" "pipe_ok F S (body f) (g7, k7)"
    by (rule vec_rw.loop_pipe [OF 6(2) all_loops_True, of E]) (rule that, unfold loop_pass_eqs)
  obtain g8 k8 where 8: "pass_runs E (RemoveNoOpPass E F) (g7, k7) (g8, k8)" "pipe_ok F S (body f) (g8, k8)"
    by (rule noop_rw.loop_pipe [OF 7(2) all_loops_True, of E]) (rule that, unfold loop_pass_eqs)
  have "RunTIRPassPipeline E F (Some f) [''optimize_default''] n = sbind (pass_context E f) (\<lambda>_. Inr (g8, k8))"
  proof (cases "pass_context E f")
    case (Inl e)
    then show ?thesis
      using pipeline_without_context [OF Inl, of F "[''optimize_default'']" n]
      by (simp add: RunTIRPassPipeline_def known_entry_def)
  next
    case (Inr ctx)
    then show ?thesis
      using 1(1) 2(1) 3(1) 4(1) 5(1) 6(1) 7(1) 8(1)
      by (simp add: RunTIRPassPipeline_def RunPipelineEntry_def GetDefaultPassOrder_def
          RunSinglePass_def GetTIRPassTable_def pass_runs_def)
  qed
  then show thesis using that 8(2) by blast
qed

section \<open>Properties\<close>

text \<open>
C1. The default pipeline is correct: on every well-typed function whose loops start at the
  literal 0 and count in a signed type of at most 64 bits, on a platform whose \<^verbatim>\<open>long double\<close> has at
  least 64 significand bits, the eight passes of \<^verbatim>\<open>optimize_default\<close> throw what deriving the context
  of the function throws, and nothing else; when it throws nothing, the optimised body has every
  defined run of the original body.
\<close>

theorem default_pipeline_preserves:
  assumes "64 \<le> ld_prec F" "unit_ok F S" "wt_s F (body f)" "loops0 (body f)" "ids_below n (body f)"
  shows "\<exists>g k. RunTIRPassPipeline E F (Some f) [''optimize_default''] n =
      sbind (pass_context E f) (\<lambda>_. Inr (g, k)) \<and>
    (\<forall>en m m'. exec F S (body f) en m = Some m' \<longrightarrow> exec F S (body g) en m = Some m')"
  by (rule default_order [OF assms, of E]) (auto simp: pipe_ok_def ssim_def)

theorem default_pipeline_preserves_witness:
  "\<exists>g k. RunTIRPassPipeline ex_pass_env fp_int (Some ex_fn) [''optimize_default''] 3 = Inr (g, k) \<and>
     map_option (\<lambda>m. m 1) (exec fp_int sem_id (body g) ex_env ex_mem) =
       Some (Some [Some (VF 5), Some (VF 10), Some (VF 15), Some (VF 20), Some (VF 25), Some (VF 30)])"
proof -
  obtain m' where "exec fp_int sem_id (body ex_fn) ex_env ex_mem = Some m'"
    using ex_runs by (cases "exec fp_int sem_id (body ex_fn) ex_env ex_mem") auto
  then show ?thesis
    using default_pipeline_preserves [OF ex_static(4) ex_unit_ok ex_wt ex_static(2,1), of ex_pass_env] ex_runs
    by fastforce
qed

text \<open>
C9. The errors of the driver, all of them: an undefined function; the first name of the list, when it
  is neither \<^verbatim>\<open>optimize_default\<close> nor a pass of the table; what deriving the context of the function
  throws, when the first name is known; and else the first unknown name. A list of known names on a
  function with a context always returns a function, with the attributes of the original.
\<close>

theorem pipeline_errors:
  "case func of
     None \<Rightarrow> RunTIRPassPipeline E F func pass_names n = Inl UndefinedPrimFunc
   | Some f \<Rightarrow>
       (case pass_context E f of
          Inl e \<Rightarrow> RunTIRPassPipeline E F func pass_names n =
            (case pass_names of
               [] \<Rightarrow> Inr (f, n)
             | nm # _ \<Rightarrow> Inl (if nm = ''optimize_default'' \<or> nm \<in> set GetDefaultPassOrder then e
                 else UnknownTIRPass nm))
        | Inr ctx \<Rightarrow>
            (case find (\<lambda>nm. nm \<noteq> ''optimize_default'' \<and> nm \<notin> set GetDefaultPassOrder) pass_names of
               Some nm \<Rightarrow> RunTIRPassPipeline E F func pass_names n = Inl (UnknownTIRPass nm)
             | None \<Rightarrow> \<exists>g k. RunTIRPassPipeline E F func pass_names n = Inr (g, k) \<and> attrs g = attrs f))"
proof -
  have known: "(\<lambda>nm. nm \<noteq> ''optimize_default'' \<and> nm \<notin> set GetDefaultPassOrder) = (\<lambda>nm. \<not> known_entry nm)"
    "(nm = ''optimize_default'' \<or> nm \<in> set GetDefaultPassOrder) = known_entry nm" for nm
    by (auto simp: known_entry_def known_pass_def)
  show ?thesis
    unfolding known
    using pipeline_with_context [where F = F and n = n and E = E and pass_names = pass_names] pipeline_without_context [where F = F and n = n and E = E and pass_names = pass_names]
    by (auto simp: RunTIRPassPipeline_def split: option.split sum.split)
qed

text \<open>The witness of an error of each kind: an unknown pass, and a device without a backend.\<close>

definition ex_device_fn :: "int PrimFunc" where
  "ex_device_fn = ex_fn\<lparr>attrs := [(kPrimaryVirtualDeviceAttr, AttrVirtualDevice (cpu_vd 5 0))]\<rparr>"

definition no_backend :: pass_env where
  "no_backend = (\<lambda>d. throw ''Device API not supported'', thread_start)"

theorem pipeline_errors_witness:
  "RunTIRPassPipeline ex_pass_env fp_int (Some ex_fn) [''remove_no_op'', ''inline'', ''fuse''] 3 =
     Inl (UnknownTIRPass ''inline'') \<and>
   RunTIRPassPipeline no_backend fp_int (Some ex_device_fn) [''remove_no_op'', ''inline''] 3 =
     Inl (ContextError (RuntimeError ''Device API not supported''))"
proof -
  have "pass_context no_backend ex_device_fn = Inl (ContextError (RuntimeError ''Device API not supported''))"
    by (simp add: pass_context_def no_backend_def ex_device_fn_def FromTIR_def Current_def thread_start_def
      PassContext_undefined_def BuildFromVirtualDevices_def cpu_vd_def BuildTarget_def)
  then show ?thesis
    using pipeline_errors [where func = "Some ex_fn" and E = ex_pass_env and F = fp_int and
        pass_names = "[''remove_no_op'', ''inline'', ''fuse'']" and n = 3]
      pipeline_errors [where func = "Some ex_device_fn" and E = no_backend and F = fp_int and
        pass_names = "[''remove_no_op'', ''inline'']" and n = 3]
    by (simp add: GetDefaultPassOrder_def)
qed

text \<open>
The artifact name derived from a pass name has the same length and contains only letters,
  digits, underscores and hyphens, and a name that is already of this form is kept.
\<close>

lemma sanitize_artifact_name:
  "length (SanitizeArtifactName s) = length s \<and>
   list_all (\<lambda>c. sanitize_char c = c) (SanitizeArtifactName s) \<and>
   SanitizeArtifactName (SanitizeArtifactName s) = SanitizeArtifactName s \<and>
   CHR ''/'' \<notin> set (SanitizeArtifactName s) \<and> CHR ''.'' \<notin> set (SanitizeArtifactName s)"
proof -
  have idem: "sanitize_char (sanitize_char c) = sanitize_char c" for c
    by (simp add: sanitize_char_def)
  have "CHR ''/'' \<noteq> sanitize_char c" "CHR ''.'' \<noteq> sanitize_char c" for c
    by (auto simp: sanitize_char_def less_eq_char_def)
  then show ?thesis using idem by (auto simp: SanitizeArtifactName_def list_all_iff)
qed

end
