(* ===== verification/Relay_Types.thy ===== *)
theory Relay_Types
  imports Base_Device
begin

text \<open>
  Relay types and the shared type-inference rules: the type objects of
  \<^verbatim>\<open>src/relay/relay.cc\<close> with their printing and structural equality, the attribute
  classes of \<^verbatim>\<open>include/relay/op.h\<close> that inference reads, and every rule of
  \<^verbatim>\<open>src/relay/type_infer.cc\<close>. A thrown \<^verbatim>\<open>std::runtime_error\<close> is the value
  \<open>Inl (RuntimeError message)\<close>; an out-of-range \<^verbatim>\<open>std::vector\<close> access, which is undefined
  in C++, is \<open>Inl OutOfRange\<close>. A dimension is an \<^verbatim>\<open>int64_t\<close>, negative when it is not
  known at compile time, and arithmetic on dimensions wraps through \<open>i64\<close>.
\<close>

section \<open>Types\<close>

text \<open>
  A \<^verbatim>\<open>Type\<close> reference is undefined, or refers to a tensor type with its shape and
  dtype, or to a tuple type.
\<close>

datatype RType =
    UndefinedType
  | TensorType "int list" string
  | TupleType "RType list"

definition TensorTypeToString :: "int list \<Rightarrow> string \<Rightarrow> string" where
  "TensorTypeToString shape dtype =
     ''Tensor['' @ join_with '', '' (map to_string shape) @ ''; '' @ dtype @ '']''"

fun TypeToString :: "RType \<Rightarrow> string" where
  "TypeToString UndefinedType = ''<unknown>''"
| "TypeToString (TensorType shape dtype) = TensorTypeToString shape dtype"
| "TypeToString (TupleType flds) = ''Tuple('' @ join_with '', '' (map TypeToString flds) @ '')''"

text \<open>
  Structural equality, field by field. The pointer shortcut of the source answers
  \<^verbatim>\<open>true\<close> for two references to one object, where the comparison below answers
  \<^verbatim>\<open>true\<close> as well.
\<close>

fun dims_equal :: "int list \<Rightarrow> int list \<Rightarrow> bool" where
  "dims_equal (x # xs) (y # ys) \<longleftrightarrow> x = y \<and> dims_equal xs ys"
| "dims_equal _ _ \<longleftrightarrow> True"

fun TypeEqual :: "RType \<Rightarrow> RType \<Rightarrow> bool"
and TypesEqual :: "RType list \<Rightarrow> RType list \<Rightarrow> bool" where
  "TypeEqual UndefinedType rhs \<longleftrightarrow> rhs = UndefinedType"
| "TypeEqual (TensorType ls ld) rhs \<longleftrightarrow>
     (case rhs of TensorType rs rd \<Rightarrow> ld = rd \<and> length ls = length rs \<and> dims_equal ls rs
      | _ \<Rightarrow> False)"
| "TypeEqual (TupleType lf) rhs \<longleftrightarrow>
     (case rhs of TupleType rf \<Rightarrow> length lf = length rf \<and> TypesEqual lf rf | _ \<Rightarrow> False)"
| "TypesEqual (x # xs) (y # ys) \<longleftrightarrow> TypeEqual x y \<and> TypesEqual xs ys"
| "TypesEqual _ _ \<longleftrightarrow> True"

section \<open>Attributes\<close>

record Conv2DAttrs =
  conv_strides :: "int list"
  conv_padding :: "int list"
  conv_dilation :: "int list"
  conv_groups :: int
  conv_channels :: int
  conv_kernel_size :: "int list"
  conv_data_layout :: string
  conv_kernel_layout :: string
  conv_out_layout :: string
  conv_out_dtype :: string

record MaxPool2DAttrs =
  pool_pool_size :: "int list"
  pool_strides :: "int list"
  pool_padding :: "int list"
  pool_dilation :: "int list"
  pool_layout :: string
  pool_ceil_mode :: bool

text \<open>
  The dynamic class of an \<^verbatim>\<open>Attrs\<close> reference; \<^verbatim>\<open>attrs.As<X>()\<close> is null unless the
  constructor is the one for \<^verbatim>\<open>X\<close>. Arguments stand in the order of the fields. \<open>OtherAttrs\<close> stands for an undefined reference and
  for the classes no rule reads. The scale factors of \<^verbatim>\<open>GemmAttrsNode\<close> play no part in
  inference and are left out.
\<close>

datatype Attrs =
    OtherAttrs
  | AConv2D Conv2DAttrs
  | ADense int string
  | AMaxPool2D MaxPool2DAttrs
  | ASoftmax int
  | ACast int
  | AConcat int
  | AGather int
  | AReduceMean "int list" int
  | AReshape "int list" int
  | ASplit "int list" int
  | ATranspose "int list"
  | AFlatten int
  | AGemm int int
  | ADeviceCopy "VirtualDevice option" "VirtualDevice option" bool bool
  | ACollective string string bool int int

section \<open>Shared helpers\<close>

definition RequireArity :: "string \<Rightarrow> RType list \<Rightarrow> nat \<Rightarrow> unit res" where
  "RequireArity op_name input_types expected =
     require (length input_types = expected)
       (RuntimeError (op_name @ '' expects '' @ to_string (int expected) @ '' input(s), got '' @
                      to_string (int (length input_types))))"

definition MakeTensorType :: "int list \<Rightarrow> string \<Rightarrow> RType" where
  "MakeTensorType shape dtype = TensorType shape dtype"

fun RequireTensor :: "string \<Rightarrow> RType \<Rightarrow> string \<Rightarrow> (int list \<times> string) res" where
  "RequireTensor op_name (TensorType shape dtype) input_name = Inr (shape, dtype)"
| "RequireTensor op_name t input_name =
     throw (op_name @ '' expects TensorType for '' @ input_name @ '', got '' @ TypeToString t)"

definition RequireSameDType :: "string \<Rightarrow> string \<Rightarrow> string \<Rightarrow> unit res" where
  "RequireSameDType op_name lhs rhs =
     require (lhs = rhs) (RuntimeError (op_name @ '' dtype mismatch: '' @ lhs @ '' vs '' @ rhs))"

definition IsKnown :: "int \<Rightarrow> bool" where
  "IsKnown d \<longleftrightarrow> d \<ge> 0"

definition SameOrUnknown :: "int \<Rightarrow> int \<Rightarrow> bool" where
  "SameOrUnknown lhs rhs \<longleftrightarrow> \<not> IsKnown lhs \<or> \<not> IsKnown rhs \<or> lhs = rhs"

text \<open>The loop of \<^verbatim>\<open>KnownProduct\<close> over the dimensions between its two bounds.\<close>

fun known_product_loop :: "int list \<Rightarrow> int \<Rightarrow> int" where
  "known_product_loop [] product = product"
| "known_product_loop (d # ds) product =
     (if \<not> IsKnown d then -1 else known_product_loop ds (i64 (product * d)))"

definition KnownProduct :: "int list \<Rightarrow> nat \<Rightarrow> nat \<Rightarrow> int" where
  "KnownProduct shape b e = known_product_loop (drop b (take e shape)) 1"

text \<open>One output dimension of a broadcast; \<open>None\<close> where the source throws.\<close>

definition broadcast_dim :: "int \<Rightarrow> int \<Rightarrow> int option" where
  "broadcast_dim ldim rdim =
     (if ldim = rdim then Some ldim
      else if ldim = 1 then Some rdim
      else if rdim = 1 then Some ldim
      else if \<not> IsKnown ldim \<or> \<not> IsKnown rdim then Some (-1)
      else None)"

text \<open>The dimension of a shape at position \<open>i\<close> of the common rank, 1 where it is shorter.\<close>

definition dim_at :: "int list \<Rightarrow> nat \<Rightarrow> nat \<Rightarrow> int" where
  "dim_at shape rank i =
     (let pos = length shape + i in if pos \<ge> rank then shape ! (pos - rank) else 1)"

definition BroadcastShape :: "string \<Rightarrow> int list \<Rightarrow> int list \<Rightarrow> int list res" where
  "BroadcastShape op_name lhs rhs =
     (let rank = max (length lhs) (length rhs) in
      smap (\<lambda>i. case broadcast_dim (dim_at lhs rank i) (dim_at rhs rank i) of
              Some d \<Rightarrow> Inr d
            | None \<Rightarrow> throw (op_name @ '' cannot broadcast shapes '' @
                              TypeToString (TensorType lhs ''shape'') @ '' and '' @
                              TypeToString (TensorType rhs ''shape'')))
        [0..<rank])"

definition NormalizeAxis :: "string \<Rightarrow> int \<Rightarrow> int \<Rightarrow> bool \<Rightarrow> int res" where
  "NormalizeAxis op_name axis0 rank allow_end =
     (let upper = (if allow_end then rank else rank - 1);
          axis = (if axis0 < 0 then axis0 + rank else axis0)
      in if axis < 0 \<or> axis > upper
         then throw (op_name @ '' axis out of range: '' @ to_string axis @ '' for rank '' @
                     to_string rank)
         else Inr axis)"

definition NormalizeAxes :: "string \<Rightarrow> int list \<Rightarrow> int \<Rightarrow> int list res" where
  "NormalizeAxes op_name axes rank =
     (if axes = [] then Inr (map int [0..<nat rank])
      else sfold (\<lambda>axis out. sbind (NormalizeAxis op_name axis rank False) (\<lambda>normalized.
             if normalized \<in> set out
             then throw (op_name @ '' duplicate axis: '' @ to_string axis)
             else Inr (out @ [normalized]))) axes [])"

definition ReadVectorValue :: "int list \<Rightarrow> nat \<Rightarrow> int \<Rightarrow> int" where
  "ReadVectorValue values index default_value =
     (if index < length values then values ! index else default_value)"

fun ReadPair :: "int list \<Rightarrow> int \<Rightarrow> int \<times> int" where
  "ReadPair [] default_value = (default_value, default_value)"
| "ReadPair [v] default_value = (v, v)"
| "ReadPair (v # w # _) default_value = (v, w)"

text \<open>A vector of exactly three values is read at index 3, past its end.\<close>

fun ReadPadding :: "int list \<Rightarrow> (int \<times> int \<times> int \<times> int) res" where
  "ReadPadding [] = Inr (0, 0, 0, 0)"
| "ReadPadding [a] = Inr (a, a, a, a)"
| "ReadPadding [a, b] = Inr (a, b, a, b)"
| "ReadPadding [a, b, c] = Inl OutOfRange"
| "ReadPadding (a # b # c # d # _) = Inr (a, b, c, d)"

definition WindowOutputDim ::
  "string \<Rightarrow> int \<Rightarrow> int \<Rightarrow> int \<Rightarrow> int \<Rightarrow> int \<Rightarrow> int \<Rightarrow> bool \<Rightarrow> int res" where
  "WindowOutputDim op_name input ksize pad_before pad_after stride dilation ceil_mode =
     (if stride \<le> 0 \<or> dilation \<le> 0
      then throw (op_name @ '' stride and dilation must be positive'')
      else if \<not> IsKnown input \<or> \<not> IsKnown ksize then Inr (-1)
      else let effective_kernel = i64 (dilation * (ksize - 1) + 1);
               numerator = i64 (input + pad_before + pad_after - effective_kernel)
           in if numerator < 0 then throw (op_name @ '' window is larger than input'')
              else if ceil_mode then Inr (i64 (i64 (numerator + stride - 1) sdiv stride + 1))
              else Inr (i64 (numerator sdiv stride + 1)))"

definition BinaryBroadcastInferType :: "string \<Rightarrow> RType list \<Rightarrow> string \<Rightarrow> RType res" where
  "BinaryBroadcastInferType op_name input_types out_dtype =
     sbind (RequireArity op_name input_types 2) (\<lambda>_.
     sbind (RequireTensor op_name (input_types ! 0) ''lhs'') (\<lambda>(ls, ld).
     sbind (RequireTensor op_name (input_types ! 1) ''rhs'') (\<lambda>(rs, rd).
     sbind (RequireSameDType op_name ld rd) (\<lambda>_.
     sbind (BroadcastShape op_name ls rs) (\<lambda>out.
     Inr (MakeTensorType out (if out_dtype = [] then ld else out_dtype)))))))"

definition CastDTypeFromCode :: "int \<Rightarrow> string res" where
  "CastDTypeFromCode code =
     (if code = 0 then Inr ''float32'' else if code = 1 then Inr ''int32''
      else if code = 2 then Inr ''int64'' else if code = 3 then Inr ''float64''
      else if code = 4 then Inr ''bool'' else if code = 5 then Inr ''int8''
      else if code = 6 then Inr ''uint8''
      else throw (''cast has unsupported dtype code: '' @ to_string code))"

definition AttrOutDTypeOrDefault :: "string \<Rightarrow> string \<Rightarrow> string" where
  "AttrOutDTypeOrDefault out_dtype default_dtype =
     (if out_dtype = [] then default_dtype else out_dtype)"

section \<open>The rules\<close>

definition IdentityInferType :: "Attrs \<Rightarrow> RType list \<Rightarrow> RType res" where
  "IdentityInferType attrs input_types =
     sbind (RequireArity ''identity'' input_types 1) (\<lambda>_. Inr (input_types ! 0))"

definition AddInferType :: "Attrs \<Rightarrow> RType list \<Rightarrow> RType res" where
  "AddInferType attrs input_types = BinaryBroadcastInferType ''add'' input_types []"

definition SubtractInferType :: "Attrs \<Rightarrow> RType list \<Rightarrow> RType res" where
  "SubtractInferType attrs input_types = BinaryBroadcastInferType ''subtract'' input_types []"

definition MultiplyInferType :: "Attrs \<Rightarrow> RType list \<Rightarrow> RType res" where
  "MultiplyInferType attrs input_types = BinaryBroadcastInferType ''mul'' input_types []"

definition DivideInferType :: "Attrs \<Rightarrow> RType list \<Rightarrow> RType res" where
  "DivideInferType attrs input_types = BinaryBroadcastInferType ''divide'' input_types []"

definition PowInferType :: "Attrs \<Rightarrow> RType list \<Rightarrow> RType res" where
  "PowInferType attrs input_types = BinaryBroadcastInferType ''pow'' input_types []"

definition EqualInferType :: "Attrs \<Rightarrow> RType list \<Rightarrow> RType res" where
  "EqualInferType attrs input_types = BinaryBroadcastInferType ''equal'' input_types ''bool''"

definition GreaterInferType :: "Attrs \<Rightarrow> RType list \<Rightarrow> RType res" where
  "GreaterInferType attrs input_types = BinaryBroadcastInferType ''greater'' input_types ''bool''"

definition UnarySameInferType :: "Attrs \<Rightarrow> RType list \<Rightarrow> RType res" where
  "UnarySameInferType attrs input_types =
     sbind (RequireArity ''unary'' input_types 1) (\<lambda>_.
     sbind (RequireTensor ''unary'' (input_types ! 0) ''data'') (\<lambda>_. Inr (input_types ! 0)))"

definition CastInferType :: "Attrs \<Rightarrow> RType list \<Rightarrow> RType res" where
  "CastInferType attrs input_types =
     sbind (RequireArity ''cast'' input_types 1) (\<lambda>_.
     sbind (RequireTensor ''cast'' (input_types ! 0) ''data'') (\<lambda>(shape, dtype).
     sbind (case attrs of ACast code \<Rightarrow> CastDTypeFromCode code | _ \<Rightarrow> Inr dtype) (\<lambda>dtype'.
     Inr (MakeTensorType shape dtype'))))"

definition MatMulInferType :: "Attrs \<Rightarrow> RType list \<Rightarrow> RType res" where
  "MatMulInferType attrs input_types =
     sbind (RequireArity ''matmul'' input_types 2) (\<lambda>_.
     sbind (RequireTensor ''matmul'' (input_types ! 0) ''a'') (\<lambda>(a, ad).
     sbind (RequireTensor ''matmul'' (input_types ! 1) ''b'') (\<lambda>(b, bd).
     sbind (RequireSameDType ''matmul'' ad bd) (\<lambda>_.
     if length a \<noteq> 2 \<or> length b \<noteq> 2 then throw ''matmul currently expects rank-2 inputs''
     else let k_a = a ! (length a - 1); k_b = b ! (length b - 2) in
       if \<not> SameOrUnknown k_a k_b then throw ''matmul reduction dimension mismatch''
       else Inr (MakeTensorType [a ! 0, b ! 1] ad)))))"

definition DenseInferType :: "Attrs \<Rightarrow> RType list \<Rightarrow> RType res" where
  "DenseInferType attrs input_types =
     sbind (RequireArity ''nn_dense'' input_types 2) (\<lambda>_.
     sbind (RequireTensor ''nn_dense'' (input_types ! 0) ''data'') (\<lambda>(data, dd).
     sbind (RequireTensor ''nn_dense'' (input_types ! 1) ''weight'') (\<lambda>(weight, wd).
     sbind (RequireSameDType ''nn_dense'' dd wd) (\<lambda>_.
     if length data \<noteq> 2 \<or> length weight \<noteq> 2
     then throw ''nn_dense expects rank-2 data and weight''
     else if \<not> SameOrUnknown (data ! 1) (weight ! 1)
     then throw ''nn_dense input dimension mismatch''
     else let units = (case attrs of ADense u _ \<Rightarrow> if u > 0 then u else weight ! 0
                       | _ \<Rightarrow> weight ! 0);
              dtype = (case attrs of ADense _ out_dtype \<Rightarrow> AttrOutDTypeOrDefault out_dtype dd
                       | _ \<Rightarrow> dd)
          in Inr (MakeTensorType [data ! 0, units] dtype)))))"

definition GemmInferType :: "Attrs \<Rightarrow> RType list \<Rightarrow> RType res" where
  "GemmInferType attrs input_types =
     sbind (RequireArity ''nn_gemm'' input_types 3) (\<lambda>_.
     sbind (RequireTensor ''nn_gemm'' (input_types ! 0) ''A'') (\<lambda>(a, ad).
     sbind (RequireTensor ''nn_gemm'' (input_types ! 1) ''B'') (\<lambda>(b, bd).
     sbind (RequireTensor ''nn_gemm'' (input_types ! 2) ''C'') (\<lambda>(c, cd).
     sbind (RequireSameDType ''nn_gemm'' ad bd) (\<lambda>_.
     sbind (RequireSameDType ''nn_gemm'' ad cd) (\<lambda>_.
     if length a \<noteq> 2 \<or> length b \<noteq> 2 then throw ''nn_gemm expects rank-2 A and B''
     else let trans_a = (case attrs of AGemm tA _ \<Rightarrow> tA \<noteq> 0 | _ \<Rightarrow> False);
              trans_b = (case attrs of AGemm _ tB \<Rightarrow> tB \<noteq> 0 | _ \<Rightarrow> False);
              m = (if trans_a then a ! 1 else a ! 0);
              k_a = (if trans_a then a ! 0 else a ! 1);
              k_b = (if trans_b then b ! 1 else b ! 0);
              n = (if trans_b then b ! 0 else b ! 1)
          in if \<not> SameOrUnknown k_a k_b then throw ''nn_gemm reduction dimension mismatch''
             else sbind (BroadcastShape ''nn_gemm bias'' c [m, n]) (\<lambda>_.
                  Inr (MakeTensorType [m, n] ad))))))))"

text \<open>
  The convolution attributes as the rule reads them: the values of the record, or the
  defaults the source takes when there is no \<^verbatim>\<open>Conv2DAttrsNode\<close>.
\<close>

definition conv_window ::
  "Conv2DAttrs option \<Rightarrow> int list \<Rightarrow>
     ((int \<times> int) \<times> (int \<times> int) \<times> (int \<times> int \<times> int \<times> int) \<times> int \<times> int) res" where
  "conv_window conv_attrs weight =
     (case conv_attrs of
        None \<Rightarrow> Inr ((1, 1), (1, 1), (0, 0, 0, 0), weight ! 2, weight ! 3)
      | Some c \<Rightarrow>
          sbind (ReadPadding (conv_padding c)) (\<lambda>padding.
          Inr (ReadPair (conv_strides c) 1, ReadPair (conv_dilation c) 1, padding,
               (if conv_kernel_size c \<noteq> [] then ReadVectorValue (conv_kernel_size c) 0 (weight ! 2)
                else weight ! 2),
               (if conv_kernel_size c \<noteq> [] then ReadVectorValue (conv_kernel_size c) 1 (weight ! 3)
                else weight ! 3))))"

definition check_conv_bias :: "RType list \<Rightarrow> string \<Rightarrow> int \<Rightarrow> unit res" where
  "check_conv_bias input_types dd channels =
     (if length input_types = 3 then
        sbind (RequireTensor ''nn_conv2d'' (input_types ! 2) ''bias'') (\<lambda>(bias, bd).
        sbind (RequireSameDType ''nn_conv2d'' dd bd) (\<lambda>_.
        require (length bias = 1 \<and> SameOrUnknown (bias ! 0) channels)
          (RuntimeError ''nn_conv2d bias must be rank-1 with output channels'')))
      else Inr ())"

definition Conv2DInferType :: "Attrs \<Rightarrow> RType list \<Rightarrow> RType res" where
  "Conv2DInferType attrs input_types =
     (if length input_types \<noteq> 2 \<and> length input_types \<noteq> 3
      then throw ''nn_conv2d expects data, weight[, bias]'' else
     sbind (RequireTensor ''nn_conv2d'' (input_types ! 0) ''data'') (\<lambda>(data, dd).
     sbind (RequireTensor ''nn_conv2d'' (input_types ! 1) ''weight'') (\<lambda>(weight, wd).
     sbind (RequireSameDType ''nn_conv2d'' dd wd) (\<lambda>_.
     if length data \<noteq> 4 \<or> length weight \<noteq> 4
     then throw ''nn_conv2d expects NCHW/OIHW rank-4 tensors'' else
     let conv_attrs = (case attrs of AConv2D c \<Rightarrow> Some c | _ \<Rightarrow> None) in
     sbind (require (case conv_attrs of
                Some c \<Rightarrow> conv_data_layout c = [] \<or> conv_data_layout c = ''NCHW'' | None \<Rightarrow> True)
         (RuntimeError ''nn_conv2d only supports NCHW data layout in type inference'')) (\<lambda>_.
     sbind (require (case conv_attrs of
                Some c \<Rightarrow> conv_kernel_layout c = [] \<or> conv_kernel_layout c = ''OIHW'' | None \<Rightarrow> True)
         (RuntimeError ''nn_conv2d only supports OIHW kernel layout in type inference'')) (\<lambda>_.
     let groups = (case conv_attrs of Some c \<Rightarrow> max 1 (conv_groups c) | None \<Rightarrow> 1) in
     if IsKnown (data ! 1) \<and> IsKnown (weight ! 1) \<and> data ! 1 \<noteq> i64 (weight ! 1 * groups)
     then throw ''nn_conv2d input channel mismatch'' else
     sbind (conv_window conv_attrs weight)
       (\<lambda>((stride_h, stride_w), (dil_h, dil_w), (pad_t, pad_l, pad_b, pad_r), kh, kw).
     if \<not> SameOrUnknown kh (weight ! 2) \<or> \<not> SameOrUnknown kw (weight ! 3)
     then throw ''nn_conv2d kernel_size does not match weight shape'' else
     let channels = (case conv_attrs of
                       Some c \<Rightarrow> if conv_channels c > 0 then conv_channels c else weight ! 0
                     | None \<Rightarrow> weight ! 0) in
     sbind (check_conv_bias input_types dd channels) (\<lambda>_.
     sbind (WindowOutputDim ''nn_conv2d'' (data ! 2) kh pad_t pad_b stride_h dil_h False) (\<lambda>oh.
     sbind (WindowOutputDim ''nn_conv2d'' (data ! 3) kw pad_l pad_r stride_w dil_w False) (\<lambda>ow.
     let dtype = (case conv_attrs of Some c \<Rightarrow> AttrOutDTypeOrDefault (conv_out_dtype c) dd
                  | None \<Rightarrow> dd) in
     Inr (MakeTensorType [data ! 0, channels, oh, ow] dtype)))))))))))"

definition Pool2DInferType :: "Attrs \<Rightarrow> RType list \<Rightarrow> RType res" where
  "Pool2DInferType attrs input_types =
     sbind (RequireArity ''pool2d'' input_types 1) (\<lambda>_.
     sbind (RequireTensor ''pool2d'' (input_types ! 0) ''data'') (\<lambda>(data, dd).
     if length data \<noteq> 4 then throw ''pool2d expects NCHW rank-4 input'' else
     let pool_attrs = (case attrs of AMaxPool2D p \<Rightarrow> Some p | _ \<Rightarrow> None) in
     sbind (require (case pool_attrs of
                Some p \<Rightarrow> pool_layout p = [] \<or> pool_layout p = ''NCHW'' | None \<Rightarrow> True)
         (RuntimeError ''pool2d only supports NCHW layout in type inference'')) (\<lambda>_.
     let (pool_h, pool_w) = (case pool_attrs of Some p \<Rightarrow> ReadPair (pool_pool_size p) 1
                             | None \<Rightarrow> (1, 1));
         (stride_h, stride_w) = (case pool_attrs of Some p \<Rightarrow> ReadPair (pool_strides p) 1
                                 | None \<Rightarrow> (1, 1));
         (dil_h, dil_w) = (case pool_attrs of Some p \<Rightarrow> ReadPair (pool_dilation p) 1
                           | None \<Rightarrow> (1, 1));
         ceil_mode = (case pool_attrs of Some p \<Rightarrow> pool_ceil_mode p | None \<Rightarrow> False) in
     sbind (case pool_attrs of Some p \<Rightarrow> ReadPadding (pool_padding p)
            | None \<Rightarrow> Inr (0, 0, 0, 0)) (\<lambda>(pad_t, pad_l, pad_b, pad_r).
     sbind (WindowOutputDim ''pool2d'' (data ! 2) pool_h pad_t pad_b stride_h dil_h ceil_mode) (\<lambda>oh.
     sbind (WindowOutputDim ''pool2d'' (data ! 3) pool_w pad_l pad_r stride_w dil_w ceil_mode) (\<lambda>ow.
     Inr (MakeTensorType [data ! 0, data ! 1, oh, ow] dd)))))))"

definition GlobalAvgPool2DInferType :: "Attrs \<Rightarrow> RType list \<Rightarrow> RType res" where
  "GlobalAvgPool2DInferType attrs input_types =
     sbind (RequireArity ''nn_global_avg_pool2d'' input_types 1) (\<lambda>_.
     sbind (RequireTensor ''nn_global_avg_pool2d'' (input_types ! 0) ''data'') (\<lambda>(data, dd).
     if length data \<noteq> 4 then throw ''nn_global_avg_pool2d expects NCHW rank-4 input''
     else Inr (MakeTensorType [data ! 0, data ! 1, 1, 1] dd)))"

definition FlattenInferType :: "Attrs \<Rightarrow> RType list \<Rightarrow> RType res" where
  "FlattenInferType attrs input_types =
     sbind (RequireArity ''nn_flatten'' input_types 1) (\<lambda>_.
     sbind (RequireTensor ''nn_flatten'' (input_types ! 0) ''data'') (\<lambda>(data, dd).
     if data = [] then throw ''nn_flatten expects rank >= 1'' else
     sbind (NormalizeAxis ''nn_flatten'' (case attrs of AFlatten axis \<Rightarrow> axis | _ \<Rightarrow> 1)
              (int (length data)) True) (\<lambda>axis.
     Inr (MakeTensorType [KnownProduct data 0 (nat axis), KnownProduct data (nat axis) (length data)]
            dd))))"

text \<open>
  The loop of \<^verbatim>\<open>ReshapeInferType\<close> over the requested shape; its state is the output
  built so far, the position of the inferred dimension (\<open>-1\<close> for none) and the running
  product.
\<close>

type_synonym reshape_state = "int list \<times> int \<times> int"

definition reshape_step ::
  "int \<Rightarrow> int list \<Rightarrow> nat \<times> int \<Rightarrow> reshape_state \<Rightarrow> reshape_state res" where
  "reshape_step allowzero input_shape = (\<lambda>(i, d) (out, infer_index, known_product).
     if d > 0 then Inr (out @ [d], infer_index, i64 (known_product * d))
     else if d = 0 then
       if allowzero \<noteq> 0 then Inr (out @ [0], infer_index, 0)
       else if i \<ge> length input_shape then throw ''reshape 0-dim copy index exceeds input rank''
       else Inr (out @ [input_shape ! i], infer_index,
                 if IsKnown (input_shape ! i) then i64 (known_product * input_shape ! i) else -1)
     else if d = -1 then
       if infer_index \<ge> 0 then throw ''reshape allows at most one inferred -1 dimension''
       else Inr (out @ [-1], int (length out), known_product)
     else throw ''reshape only supports positive, 0, and -1 dimensions'')"

text \<open>After the loop: the inferred dimension is filled in, or the element counts compared.\<close>

definition reshape_finish :: "int \<Rightarrow> reshape_state \<Rightarrow> int list res" where
  "reshape_finish input_product = (\<lambda>(out, infer_index, known_product).
     if infer_index \<ge> 0 \<and> input_product \<ge> 0 \<and> known_product > 0 then
       if input_product mod known_product \<noteq> 0
       then throw ''reshape cannot infer -1 dimension from element count''
       else Inr (out[nat infer_index := input_product div known_product])
     else if infer_index < 0 \<and> input_product \<ge> 0 \<and> known_product \<ge> 0 \<and>
             input_product \<noteq> known_product
     then throw ''reshape element count mismatch''
     else Inr out)"

definition ReshapeInferType :: "Attrs \<Rightarrow> RType list \<Rightarrow> RType res" where
  "ReshapeInferType attrs input_types =
     (if length input_types \<noteq> 1 \<and> length input_types \<noteq> 2
      then throw ''reshape expects data and optional legacy shape input'' else
     sbind (RequireTensor ''reshape'' (input_types ! 0) ''data'') (\<lambda>(input_shape, dd).
     case attrs of
       AReshape newshape allowzero \<Rightarrow>
         let input_product = KnownProduct input_shape 0 (length input_shape) in
         sbind (sfold (reshape_step allowzero input_shape) (enumerate 0 newshape) ([], -1, 1)) (\<lambda>st.
         sbind (reshape_finish input_product st) (\<lambda>out. Inr (MakeTensorType out dd)))
     | _ \<Rightarrow> throw ''reshape static type inference requires ReshapeAttrs''))"

definition ShapeInferType :: "Attrs \<Rightarrow> RType list \<Rightarrow> RType res" where
  "ShapeInferType attrs input_types =
     sbind (RequireArity ''shape'' input_types 1) (\<lambda>_.
     sbind (RequireTensor ''shape'' (input_types ! 0) ''data'') (\<lambda>(data, dd).
     Inr (MakeTensorType [int (length data)] ''int64'')))"

text \<open>The loop of \<^verbatim>\<open>TransposeInferType\<close>: its state is \<^verbatim>\<open>seen\<close> and \<^verbatim>\<open>out\<close>.\<close>

definition transpose_step ::
  "int list \<Rightarrow> int \<Rightarrow> bool list \<times> int list \<Rightarrow> (bool list \<times> int list) res" where
  "transpose_step data axis = (\<lambda>(seen, out).
     sbind (NormalizeAxis ''transpose'' axis (int (length data)) False) (\<lambda>normalized.
     if seen ! nat normalized then throw ''transpose duplicate axis''
     else Inr (seen[nat normalized := True], out @ [data ! nat normalized])))"

definition TransposeInferType :: "Attrs \<Rightarrow> RType list \<Rightarrow> RType res" where
  "TransposeInferType attrs input_types =
     sbind (RequireArity ''transpose'' input_types 1) (\<lambda>_.
     sbind (RequireTensor ''transpose'' (input_types ! 0) ''data'') (\<lambda>(data, dd).
     let perm0 = (case attrs of ATranspose p \<Rightarrow> p | _ \<Rightarrow> []);
         perm = (if perm0 = [] then map int (rev [0..<length data]) else perm0)
     in if length perm \<noteq> length data then throw ''transpose perm rank mismatch''
        else sbind (sfold (transpose_step data) perm (replicate (length data) False, []))
               (\<lambda>(seen, out). Inr (MakeTensorType out dd))))"

definition ReduceMeanInferType :: "Attrs \<Rightarrow> RType list \<Rightarrow> RType res" where
  "ReduceMeanInferType attrs input_types =
     sbind (RequireArity ''reduce_mean'' input_types 1) (\<lambda>_.
     sbind (RequireTensor ''reduce_mean'' (input_types ! 0) ''data'') (\<lambda>(data, dd).
     sbind (NormalizeAxes ''reduce_mean'' (case attrs of AReduceMean axes _ \<Rightarrow> axes | _ \<Rightarrow> [])
              (int (length data))) (\<lambda>axes.
     let keepdims = (case attrs of AReduceMean _ keep \<Rightarrow> keep \<noteq> 0 | _ \<Rightarrow> True);
         reduce_axis = fold (\<lambda>axis r. r[nat axis := True]) axes (replicate (length data) False);
         out = concat (map (\<lambda>(r, d). if r then (if keepdims then [1] else []) else [d])
                 (zip reduce_axis data))
     in Inr (MakeTensorType out dd))))"

definition SoftmaxInferType :: "Attrs \<Rightarrow> RType list \<Rightarrow> RType res" where
  "SoftmaxInferType attrs input_types =
     sbind (RequireArity ''softmax'' input_types 1) (\<lambda>_.
     sbind (RequireTensor ''softmax'' (input_types ! 0) ''data'') (\<lambda>(data, dd).
     sbind (if data \<noteq> [] then
              NormalizeAxis ''softmax'' (case attrs of ASoftmax axis \<Rightarrow> axis | _ \<Rightarrow> -1)
                (int (length data)) False
            else Inr 0) (\<lambda>_. Inr (input_types ! 0))))"

text \<open>
  One field of \<^verbatim>\<open>ConcatenateInferType\<close> joined to the output shape, dimension by
  dimension, and the loop over the fields after the first.
\<close>

definition concat_dim :: "nat \<Rightarrow> nat \<times> int \<times> int \<Rightarrow> int res" where
  "concat_dim axis = (\<lambda>(i, o_dim, c_dim).
     if i = axis then
       (if IsKnown o_dim \<and> IsKnown c_dim then Inr (i64 (o_dim + c_dim)) else Inr (-1))
     else if \<not> SameOrUnknown o_dim c_dim then throw ''concatenate non-axis dimension mismatch''
     else Inr o_dim)"

definition concat_step ::
  "nat \<Rightarrow> nat \<Rightarrow> string \<Rightarrow> nat \<times> RType \<Rightarrow> int list \<Rightarrow> int list res" where
  "concat_step rank axis dtype = (\<lambda>(i, field) out.
     sbind (RequireTensor ''concatenate'' field (''field['' @ to_string (int i) @ '']''))
       (\<lambda>(current, cd).
     sbind (RequireSameDType ''concatenate'' dtype cd) (\<lambda>_.
     if length current \<noteq> rank then throw ''concatenate rank mismatch''
     else smap (concat_dim axis) (enumerate 0 (zip out current)))))"

definition ConcatenateInferType :: "Attrs \<Rightarrow> RType list \<Rightarrow> RType res" where
  "ConcatenateInferType attrs input_types =
     sbind (RequireArity ''concatenate'' input_types 1) (\<lambda>_.
     case input_types ! 0 of
       TupleType (field # rest) \<Rightarrow>
         sbind (RequireTensor ''concatenate'' field ''field[0]'') (\<lambda>(first, dd).
         sbind (NormalizeAxis ''concatenate'' (case attrs of AConcat axis \<Rightarrow> axis | _ \<Rightarrow> 0)
                  (int (length first)) False) (\<lambda>axis.
         sbind (sfold (concat_step (length first) (nat axis) dd) (enumerate 1 rest) first)
           (\<lambda>out. Inr (MakeTensorType out dd))))
     | _ \<Rightarrow> throw ''concatenate expects a non-empty tuple of tensors'')"

text \<open>The loop over split points; its state is the fields so far and the previous point.\<close>

definition split_step ::
  "int list \<Rightarrow> string \<Rightarrow> nat \<Rightarrow> int \<Rightarrow> RType list \<times> int \<Rightarrow> (RType list \<times> int) res" where
  "split_step data dd axis point = (\<lambda>(flds, previous).
     let axis_dim = data ! axis in
     if point < previous \<or> (IsKnown axis_dim \<and> point > axis_dim)
     then throw ''split points must be sorted within axis dimension''
     else Inr (flds @ [MakeTensorType (data[axis := i64 (point - previous)]) dd], point))"

definition SplitInferType :: "Attrs \<Rightarrow> RType list \<Rightarrow> RType res" where
  "SplitInferType attrs input_types =
     sbind (RequireArity ''split'' input_types 1) (\<lambda>_.
     sbind (RequireTensor ''split'' (input_types ! 0) ''data'') (\<lambda>(data, dd).
     case attrs of
       ASplit points axis0 \<Rightarrow>
         if points = [] then throw ''split requires SplitAttrs with split points or sections''
         else sbind (NormalizeAxis ''split'' axis0 (int (length data)) False) (\<lambda>axis.
           let axis_dim = data ! nat axis in
           if length points = 1 then
             let sections = points ! 0 in
             if sections \<le> 0 then throw ''split sections must be positive''
             else if IsKnown axis_dim \<and> axis_dim mod sections \<noteq> 0
             then throw ''split sections do not divide axis dimension''
             else let segment = (if IsKnown axis_dim then axis_dim div sections else -1)
                  in Inr (TupleType (replicate (nat sections)
                            (MakeTensorType (data[nat axis := segment]) dd)))
           else sbind (sfold (split_step data dd (nat axis)) points ([], 0)) (\<lambda>(flds, previous).
             let last_dim = (if IsKnown axis_dim then i64 (axis_dim - previous) else -1)
             in Inr (TupleType (flds @ [MakeTensorType (data[nat axis := last_dim]) dd]))))
     | _ \<Rightarrow> throw ''split requires SplitAttrs with split points or sections''))"

definition WhereInferType :: "Attrs \<Rightarrow> RType list \<Rightarrow> RType res" where
  "WhereInferType attrs input_types =
     sbind (RequireArity ''where'' input_types 3) (\<lambda>_.
     sbind (RequireTensor ''where'' (input_types ! 0) ''condition'') (\<lambda>(cond, cd).
     sbind (RequireTensor ''where'' (input_types ! 1) ''x'') (\<lambda>(ls, ld).
     sbind (RequireTensor ''where'' (input_types ! 2) ''y'') (\<lambda>(rs, rd).
     if cd \<noteq> ''bool'' then throw ''where condition must have bool dtype'' else
     sbind (RequireSameDType ''where'' ld rd) (\<lambda>_.
     sbind (BroadcastShape ''where'' ls rs) (\<lambda>value_shape.
     sbind (BroadcastShape ''where'' cond value_shape) (\<lambda>out.
     Inr (MakeTensorType out ld))))))))"

definition GatherInferType :: "Attrs \<Rightarrow> RType list \<Rightarrow> RType res" where
  "GatherInferType attrs input_types =
     sbind (RequireArity ''gather'' input_types 2) (\<lambda>_.
     sbind (RequireTensor ''gather'' (input_types ! 0) ''data'') (\<lambda>(data, dd).
     sbind (RequireTensor ''gather'' (input_types ! 1) ''indices'') (\<lambda>(indices, idt).
     if idt \<noteq> ''int32'' \<and> idt \<noteq> ''int64'' then throw ''gather indices must be int32 or int64'' else
     sbind (NormalizeAxis ''gather'' (case attrs of AGather axis \<Rightarrow> axis | _ \<Rightarrow> 0)
              (int (length data)) False) (\<lambda>axis.
     Inr (MakeTensorType (take (nat axis) data @ indices @ drop (nat axis + 1) data) dd)))))"

section \<open>The rules attached to registered operators\<close>

text \<open>
  \<^verbatim>\<open>FInferType\<close> attributes, in the order of the registrations under
  \<^verbatim>\<open>src/relay/op/nn\<close> and \<^verbatim>\<open>src/relay/op/tensor\<close>.
\<close>

definition FInferTypeRegistry :: "(string \<times> (Attrs \<Rightarrow> RType list \<Rightarrow> RType res)) list" where
  "FInferTypeRegistry =
     [(''nn_dense'', DenseInferType), (''nn_gemm'', GemmInferType),
      (''nn_conv2d'', Conv2DInferType), (''softmax'', SoftmaxInferType),
      (''nn_relu'', UnarySameInferType), (''nn_max_pool2d'', Pool2DInferType),
      (''nn_avg_pool2d'', Pool2DInferType), (''nn_global_avg_pool2d'', GlobalAvgPool2DInferType),
      (''add'', AddInferType), (''subtract'', SubtractInferType), (''mul'', MultiplyInferType),
      (''divide'', DivideInferType), (''sqrt'', UnarySameInferType), (''matmul'', MatMulInferType),
      (''nn_flatten'', FlattenInferType), (''reshape'', ReshapeInferType),
      (''transpose'', TransposeInferType), (''cast'', CastInferType),
      (''reduce_mean'', ReduceMeanInferType)]"

end
