(* ===== verification/Relay_IR.thy ===== *)
theory Relay_IR
  imports Relay_Types TIR_IR
begin

text \<open>
  The Relay graph of \<^verbatim>\<open>include/relay/relay.h\<close> and its mutator \<^verbatim>\<open>RelayPass\<close>
  (\<^verbatim>\<open>include/base/pass.h\<close>, \<^verbatim>\<open>src/base/pass.cc\<close>).

  The passes compare nodes by address and write annotations (the checked type, the virtual
  device, the span) into nodes that other parts of the graph may share. A node therefore
  carries its address, and the annotations live in a store indexed by address. Two terms
  of the model are equal exactly when they are one node, so the source's comparison of
  \<^verbatim>\<open>get()\<close> pointers is equality of terms. \<open>RUndef\<close> is the undefined reference, \<open>ROther\<close> an
  expression node that is no Relay node.
\<close>

section \<open>Nodes\<close>

text \<open>
  The contents of an array: an integer element is the value at the declared type, a
  floating-point element the value as a \<^verbatim>\<open>double\<close>. \<open>nd_data\<close> is \<open>None\<close> for a null data
  pointer.
\<close>

datatype 'd cell = CInt int | CFlt 'd

record 'd NDArray =
  nd_shape :: "int list"
  nd_dtype :: DataType
  nd_data :: "'d cell list option"

record RVarNode =
  rv_addr :: nat
  rv_name :: string
  rv_annotation :: RType

datatype 'd rexpr =
    RUndef
  | RVar RVarNode
  | RConst nat "'d NDArray option"
  | ROp nat string
  | RCall nat "'d rexpr" "'d rexpr list" Attrs
  | RFunction nat "RVarNode list" "'d rexpr"
  | RIf nat "'d rexpr" "'d rexpr" "'d rexpr"
  | RLet nat RVarNode "'d rexpr" "'d rexpr"
  | RTuple nat "'d rexpr list"
  | RTupleGetItem nat "'d rexpr" int
  | ROther nat

text \<open>The address of a \<^verbatim>\<open>RelayNode\<close>, when the reference points to one.\<close>

fun node_addr :: "'d rexpr \<Rightarrow> nat option" where
  "node_addr RUndef = None"
| "node_addr (RVar v) = Some (rv_addr v)"
| "node_addr (RConst a _) = Some a"
| "node_addr (ROp a _) = Some a"
| "node_addr (RCall a _ _ _) = Some a"
| "node_addr (RFunction a _ _) = Some a"
| "node_addr (RIf a _ _ _) = Some a"
| "node_addr (RLet a _ _ _) = Some a"
| "node_addr (RTuple a _) = Some a"
| "node_addr (RTupleGetItem a _ _) = Some a"
| "node_addr (ROther a) = None"

text \<open>
  The store: the next free address and the annotations of every node, its checked type, its
  virtual device and its span (source name, line, column). It is extensible, so a pass with
  state of its own adds its fields.
\<close>

record RelayState =
  next_node :: nat
  checked_type :: "nat \<Rightarrow> RType"
  virtual_device :: "nat \<Rightarrow> VirtualDevice option"
  span :: "nat \<Rightarrow> (string \<times> int \<times> int) option"

text \<open>\<^verbatim>\<open>new\<close>: a fresh node without annotations.\<close>

definition alloc_node :: "'s RelayState_scheme \<Rightarrow> nat \<times> 's RelayState_scheme" where
  "alloc_node st = (next_node st,
     st\<lparr>next_node := Suc (next_node st),
        checked_type := (checked_type st)(next_node st := UndefinedType),
        virtual_device := (virtual_device st)(next_node st := None),
        span := (span st)(next_node st := None)\<rparr>)"

definition SetCheckedType :: "'d rexpr \<Rightarrow> RType \<Rightarrow> 's RelayState_scheme \<Rightarrow> 's RelayState_scheme res"
where
  "SetCheckedType e t st =
     (case e of
        RUndef \<Rightarrow> throw ''SetCheckedType expects a defined expression''
      | ROther a \<Rightarrow> Inr (st\<lparr>checked_type := (checked_type st)(a := t)\<rparr>)
      | _ \<Rightarrow> Inr (st\<lparr>checked_type := (checked_type st)(the (node_addr e) := t)\<rparr>))"

text \<open>
  Both annotations of \<open>dest\<close> are overwritten in place; every other occurrence of that node
  sees the change.
\<close>

definition CopyRelayVirtualDevice ::
  "'d rexpr \<Rightarrow> 'd rexpr \<Rightarrow> 's RelayState_scheme \<Rightarrow> 's RelayState_scheme" where
  "CopyRelayVirtualDevice source dest st =
     (case (node_addr source, node_addr dest) of
        (Some a, Some b) \<Rightarrow>
          st\<lparr>virtual_device := (virtual_device st)(b := virtual_device st a),
             checked_type := (checked_type st)(b := checked_type st a)\<rparr>
      | _ \<Rightarrow> st)"

section \<open>The mutator\<close>

text \<open>
  A rewriter is a class that overrides some \<^verbatim>\<open>Visit*\<close> methods. The base methods below
  call the rewriter's own \<^verbatim>\<open>Mutate\<close> on the children, so it is a parameter \<open>mut\<close> of theirs.
\<close>

type_synonym ('d, 's) mutator =
  "'d rexpr \<Rightarrow> 's RelayState_scheme \<Rightarrow> ('d rexpr \<times> 's RelayState_scheme) res"

fun MutateList :: "('d, 's) mutator \<Rightarrow> 'd rexpr list \<Rightarrow> 's RelayState_scheme \<Rightarrow>
    ('d rexpr list \<times> 's RelayState_scheme) res" where
  "MutateList mut [] st = Inr ([], st)"
| "MutateList mut (e # es) st =
     sbind (mut e st) (\<lambda>(e', st). sbind (MutateList mut es st) (\<lambda>(es', st). Inr (e' # es', st)))"

definition RelayMutateToVar :: "('d, 's) mutator \<Rightarrow> RVarNode \<Rightarrow> 's RelayState_scheme \<Rightarrow>
    (RVarNode \<times> 's RelayState_scheme) res" where
  "RelayMutateToVar mut v st =
     sbind (mut (RVar v) st) (\<lambda>(new_var, st).
       case new_var of
         RUndef \<Rightarrow> throw ''RelayPass mutated Var into undefined expression''
       | RVar w \<Rightarrow> Inr (w, st)
       | _ \<Rightarrow> throw ''RelayPass expects variable position to remain Var'')"

fun MutateParams :: "('d, 's) mutator \<Rightarrow> RVarNode list \<Rightarrow> 's RelayState_scheme \<Rightarrow>
    (RVarNode list \<times> 's RelayState_scheme) res" where
  "MutateParams mut [] st = Inr ([], st)"
| "MutateParams mut (v # vs) st =
     sbind (RelayMutateToVar mut v st) (\<lambda>(v', st).
     sbind (MutateParams mut vs st) (\<lambda>(vs', st). Inr (v' # vs', st)))"

text \<open>A new node in place of \<open>ref\<close>, with the annotations of \<open>ref\<close>.\<close>

definition renew_node :: "'d rexpr \<Rightarrow> (nat \<Rightarrow> 'd rexpr) \<Rightarrow> 's RelayState_scheme \<Rightarrow>
    ('d rexpr \<times> 's RelayState_scheme) res" where
  "renew_node ref mk st =
     (let (n, st) = alloc_node st in Inr (mk n, CopyRelayVirtualDevice ref (mk n) st))"

definition RelayVisitCall :: "('d, 's) mutator \<Rightarrow> nat \<Rightarrow> 'd rexpr \<Rightarrow> 'd rexpr list \<Rightarrow> Attrs \<Rightarrow>
    's RelayState_scheme \<Rightarrow> ('d rexpr \<times> 's RelayState_scheme) res" where
  "RelayVisitCall mut a op args ats st =
     sbind (mut op st) (\<lambda>(new_op, st).
     sbind (MutateList mut args st) (\<lambda>(new_args, st).
     if new_op = op \<and> new_args = args then Inr (RCall a op args ats, st)
     else renew_node (RCall a op args ats) (\<lambda>n. RCall n new_op new_args ats) st))"

definition RelayVisitFunction :: "('d, 's) mutator \<Rightarrow> nat \<Rightarrow> RVarNode list \<Rightarrow> 'd rexpr \<Rightarrow>
    's RelayState_scheme \<Rightarrow> ('d rexpr \<times> 's RelayState_scheme) res" where
  "RelayVisitFunction mut a ps b st =
     sbind (MutateParams mut ps st) (\<lambda>(new_params, st).
     sbind (mut b st) (\<lambda>(new_body, st).
     if new_params = ps \<and> new_body = b then Inr (RFunction a ps b, st)
     else renew_node (RFunction a ps b) (\<lambda>n. RFunction n new_params new_body) st))"

definition RelayVisitIf :: "('d, 's) mutator \<Rightarrow> nat \<Rightarrow> 'd rexpr \<Rightarrow> 'd rexpr \<Rightarrow> 'd rexpr \<Rightarrow>
    's RelayState_scheme \<Rightarrow> ('d rexpr \<times> 's RelayState_scheme) res" where
  "RelayVisitIf mut a c t f st =
     sbind (mut c st) (\<lambda>(new_cond, st).
     sbind (mut t st) (\<lambda>(new_true, st).
     sbind (mut f st) (\<lambda>(new_false, st).
     if new_cond = c \<and> new_true = t \<and> new_false = f then Inr (RIf a c t f, st)
     else renew_node (RIf a c t f) (\<lambda>n. RIf n new_cond new_true new_false) st)))"

definition RelayVisitLet :: "('d, 's) mutator \<Rightarrow> nat \<Rightarrow> RVarNode \<Rightarrow> 'd rexpr \<Rightarrow> 'd rexpr \<Rightarrow>
    's RelayState_scheme \<Rightarrow> ('d rexpr \<times> 's RelayState_scheme) res" where
  "RelayVisitLet mut a x v b st =
     sbind (RelayMutateToVar mut x st) (\<lambda>(new_var, st).
     sbind (mut v st) (\<lambda>(new_value, st).
     sbind (mut b st) (\<lambda>(new_body, st).
     if new_var = x \<and> new_value = v \<and> new_body = b then Inr (RLet a x v b, st)
     else renew_node (RLet a x v b) (\<lambda>n. RLet n new_var new_value new_body) st)))"

definition RelayVisitTuple :: "('d, 's) mutator \<Rightarrow> nat \<Rightarrow> 'd rexpr list \<Rightarrow>
    's RelayState_scheme \<Rightarrow> ('d rexpr \<times> 's RelayState_scheme) res" where
  "RelayVisitTuple mut a fs st =
     sbind (MutateList mut fs st) (\<lambda>(new_fields, st).
     if new_fields = fs then Inr (RTuple a fs, st)
     else renew_node (RTuple a fs) (\<lambda>n. RTuple n new_fields) st)"

definition RelayVisitTupleGetItem :: "('d, 's) mutator \<Rightarrow> nat \<Rightarrow> 'd rexpr \<Rightarrow> int \<Rightarrow>
    's RelayState_scheme \<Rightarrow> ('d rexpr \<times> 's RelayState_scheme) res" where
  "RelayVisitTupleGetItem mut a tuple index st =
     sbind (mut tuple st) (\<lambda>(new_tuple, st).
     if new_tuple = tuple then Inr (RTupleGetItem a tuple index, st)
     else renew_node (RTupleGetItem a tuple index) (\<lambda>n. RTupleGetItem n new_tuple index) st)"

text \<open>
  The dispatch of \<^verbatim>\<open>RelayPassFunctor\<close> to the base methods. \<^verbatim>\<open>VisitDefault\<close> returns an
  undefined reference.
\<close>

definition RelayVisitExpr :: "('d, 's) mutator \<Rightarrow> ('d, 's) mutator" where
  "RelayVisitExpr mut e st =
     (case e of
        RUndef \<Rightarrow> Inr (RUndef, st)
      | RConst a d \<Rightarrow> Inr (e, st)
      | RVar v \<Rightarrow> Inr (e, st)
      | ROp a nm \<Rightarrow> Inr (e, st)
      | RCall a op args ats \<Rightarrow> RelayVisitCall mut a op args ats st
      | RFunction a ps b \<Rightarrow> RelayVisitFunction mut a ps b st
      | RIf a c t f \<Rightarrow> RelayVisitIf mut a c t f st
      | RLet a x v b \<Rightarrow> RelayVisitLet mut a x v b st
      | RTuple a fs \<Rightarrow> RelayVisitTuple mut a fs st
      | RTupleGetItem a t i \<Rightarrow> RelayVisitTupleGetItem mut a t i st
      | ROther a \<Rightarrow> Inr (RUndef, st))"

text \<open>
  A rewriter recurs through the base methods, on the children only: the size below
  decreases, and the congruence rules let the function package see it.
\<close>

fun rsize :: "'d rexpr \<Rightarrow> nat" where
  "rsize (RCall _ op args _) = Suc (rsize op + sum_list (map rsize args))"
| "rsize (RFunction _ _ b) = Suc (rsize b)"
| "rsize (RIf _ c t f) = Suc (rsize c + rsize t + rsize f)"
| "rsize (RLet _ _ v b) = Suc (rsize v + rsize b)"
| "rsize (RTuple _ fs) = Suc (Suc (sum_list (map rsize fs)))"
| "rsize (RTupleGetItem _ t _) = Suc (rsize t)"
| "rsize e = 1"

lemma rsize_pos [simp]: "0 < rsize e"
  by (cases e) simp_all

lemma MutateList_cong:
  "(\<And>c s. c \<in> set es \<Longrightarrow> mut c s = mut' c s) \<Longrightarrow> MutateList mut es st = MutateList mut' es st"
  by (induction es arbitrary: st) (auto intro!: sbind_cong)

lemma RelayMutateToVar_cong:
  "(\<And>s. mut (RVar v) s = mut' (RVar v) s) \<Longrightarrow> RelayMutateToVar mut v st = RelayMutateToVar mut' v st"
  by (simp add: RelayMutateToVar_def)

lemma MutateParams_cong:
  "(\<And>v s. v \<in> set vs \<Longrightarrow> mut (RVar v) s = mut' (RVar v) s) \<Longrightarrow>
   MutateParams mut vs st = MutateParams mut' vs st"
  by (induction vs arbitrary: st) (auto intro!: sbind_cong RelayMutateToVar_cong)

lemma rsize_in_list: "c \<in> set es \<Longrightarrow> rsize c \<le> sum_list (map rsize es)"
  by (simp add: member_le_sum_list)

lemmas visit_defs = RelayVisitCall_def RelayVisitFunction_def RelayVisitIf_def RelayVisitLet_def
  RelayVisitTuple_def RelayVisitTupleGetItem_def

lemma RelayVisitExpr_cong [fundef_cong]:
  assumes "e = e'" "st = st'" "\<And>c s. rsize c < rsize e' \<Longrightarrow> mut c s = mut' c s"
  shows "RelayVisitExpr mut e st = RelayVisitExpr mut' e' st'"
proof -
  have lists: "MutateList mut es s = MutateList mut' es s" if "sum_list (map rsize es) < rsize e'" for es s
    using that by (intro MutateList_cong assms(3)) (auto dest: rsize_in_list)
  show ?thesis
    using assms(1,2)
    by (cases e') (auto simp: RelayVisitExpr_def visit_defs
        intro!: sbind_cong assms(3) lists MutateParams_cong RelayMutateToVar_cong)
qed

text \<open>
  What a base method makes of a node whose children the rewriter maps along \<open>R\<close>: the same
  kind of node over related children, with its binders unchanged.
\<close>

inductive rebuilt :: "('d rexpr \<Rightarrow> 'd rexpr \<Rightarrow> bool) \<Rightarrow> 'd rexpr \<Rightarrow> 'd rexpr \<Rightarrow> bool" for R where
  rebuilt_undef: "rebuilt R RUndef RUndef"
| rebuilt_var: "rebuilt R (RVar v) (RVar v)"
| rebuilt_const: "rebuilt R (RConst a d) (RConst a d)"
| rebuilt_op: "rebuilt R (ROp a nm) (ROp a nm)"
| rebuilt_call: "R op op' \<Longrightarrow> list_all2 R args args' \<Longrightarrow>
    rebuilt R (RCall a op args ats) (RCall a' op' args' ats)"
| rebuilt_fun: "R b b' \<Longrightarrow> rebuilt R (RFunction a ps b) (RFunction a' ps b')"
| rebuilt_if: "R c c' \<Longrightarrow> R t t' \<Longrightarrow> R f f' \<Longrightarrow> rebuilt R (RIf a c t f) (RIf a' c' t' f')"
| rebuilt_let: "R v v' \<Longrightarrow> R b b' \<Longrightarrow> rebuilt R (RLet a x v b) (RLet a' x v' b')"
| rebuilt_tuple: "list_all2 R fs fs' \<Longrightarrow> rebuilt R (RTuple a fs) (RTuple a' fs')"
| rebuilt_get: "R t t' \<Longrightarrow> rebuilt R (RTupleGetItem a t i) (RTupleGetItem a' t' i)"
| rebuilt_other: "rebuilt R (ROther a) RUndef"

lemmas rebuilt_intros [intro] = rebuilt.intros

inductive_cases rebuilt_funE: "rebuilt R (RFunction a ps b) e"

fun node_binders :: "'d rexpr \<Rightarrow> RVarNode set" where
  "node_binders (RFunction _ ps _) = set ps"
| "node_binders (RLet _ x _ _) = {x}"
| "node_binders _ = {}"

lemma MutateList_total:
  assumes "\<And>c s. c \<in> set es \<Longrightarrow> \<exists>c' s'. mut c s = Inr (c', s') \<and> R c c'"
  shows "\<exists>es' st'. MutateList mut es st = Inr (es', st') \<and> list_all2 R es es'"
  using assms
proof (induction es arbitrary: st)
  case (Cons e es)
  obtain e' s where "mut e st = Inr (e', s)" "R e e'" using Cons.prems [of e st] by auto
  moreover obtain es' st' where "MutateList mut es s = Inr (es', st')" "list_all2 R es es'"
    using Cons.IH [of s] Cons.prems by auto
  ultimately show ?case by simp
qed simp

lemma MutateParams_keep:
  "(\<And>v s. v \<in> set vs \<Longrightarrow> mut (RVar v) s = Inr (RVar v, s)) \<Longrightarrow> MutateParams mut vs st = Inr (vs, st)"
  by (induction vs arbitrary: st) (simp_all add: RelayMutateToVar_def)

lemma renew_node_Inr: "\<exists>n st'. renew_node ref mk st = Inr (mk n, st')"
  by (auto simp: renew_node_def alloc_node_def)

text \<open>
  A base method returns whenever the rewriter returns on the children and leaves the
  binders of the node alone, and its result is the rebuilt node.
\<close>

lemma RelayVisitExpr_rebuilt:
  assumes "\<And>c s. rsize c < rsize e \<Longrightarrow> \<exists>c' s'. mut c s = Inr (c', s') \<and> R c c'"
    and "\<And>v s. v \<in> node_binders e \<Longrightarrow> mut (RVar v) s = Inr (RVar v, s)"
  shows "\<exists>e' st'. RelayVisitExpr mut e st = Inr (e', st') \<and> rebuilt R e e'"
proof -
  have lists: "\<exists>es' s'. MutateList mut es s = Inr (es', s') \<and> list_all2 R es es'"
    if "sum_list (map rsize es) < rsize e" for es s
    using that assms(1) by (intro MutateList_total) (auto dest: rsize_in_list)
  show ?thesis
  proof (cases e)
    case (RCall a op args ats)
    obtain op' s1 where 1: "mut op st = Inr (op', s1)" "R op op'"
      using assms(1) [of op st] RCall by auto
    obtain args' s2 where 2: "MutateList mut args s1 = Inr (args', s2)" "list_all2 R args args'"
      using lists [of args s1] RCall by auto
    show ?thesis using 1 2 RCall renew_node_Inr [of e "\<lambda>n. RCall n op' args' ats" s2]
      by (auto simp: RelayVisitExpr_def RelayVisitCall_def)
  next
    case (RFunction a ps b)
    obtain b' s1 where 1: "mut b st = Inr (b', s1)" "R b b'"
      using assms(1) [of b st] RFunction by auto
    have 2: "MutateParams mut ps st = Inr (ps, st)"
      using assms(2) RFunction by (intro MutateParams_keep) auto
    show ?thesis using 1 2 RFunction renew_node_Inr [of e "\<lambda>n. RFunction n ps b'" s1]
      by (auto simp: RelayVisitExpr_def RelayVisitFunction_def)
  next
    case (RIf a c t f)
    obtain c' s1 where 1: "mut c st = Inr (c', s1)" "R c c'" using assms(1) [of c st] RIf by auto
    obtain t' s2 where 2: "mut t s1 = Inr (t', s2)" "R t t'" using assms(1) [of t s1] RIf by auto
    obtain f' s3 where 3: "mut f s2 = Inr (f', s3)" "R f f'" using assms(1) [of f s2] RIf by auto
    show ?thesis using 1 2 3 RIf renew_node_Inr [of e "\<lambda>n. RIf n c' t' f'" s3]
      by (auto simp: RelayVisitExpr_def RelayVisitIf_def)
  next
    case (RLet a x v b)
    obtain v' s1 where 1: "mut v st = Inr (v', s1)" "R v v'" using assms(1) [of v st] RLet by auto
    obtain b' s2 where 2: "mut b s1 = Inr (b', s2)" "R b b'" using assms(1) [of b s1] RLet by auto
    have 3: "RelayMutateToVar mut x st = Inr (x, st)"
      using assms(2) RLet by (simp add: RelayMutateToVar_def)
    show ?thesis using 1 2 3 RLet renew_node_Inr [of e "\<lambda>n. RLet n x v' b'" s2]
      by (auto simp: RelayVisitExpr_def RelayVisitLet_def)
  next
    case (RTuple a fs)
    obtain fs' s1 where 1: "MutateList mut fs st = Inr (fs', s1)" "list_all2 R fs fs'"
      using lists [of fs st] RTuple by auto
    show ?thesis using 1 RTuple renew_node_Inr [of e "\<lambda>n. RTuple n fs'" s1]
      by (auto simp: RelayVisitExpr_def RelayVisitTuple_def)
  next
    case (RTupleGetItem a t i)
    obtain t' s1 where 1: "mut t st = Inr (t', s1)" "R t t'"
      using assms(1) [of t st] RTupleGetItem by auto
    show ?thesis using 1 RTupleGetItem renew_node_Inr [of e "\<lambda>n. RTupleGetItem n t' i" s1]
      by (auto simp: RelayVisitExpr_def RelayVisitTupleGetItem_def)
  qed (auto simp: RelayVisitExpr_def)
qed

end
