(* ===== verification/Relay_Visit.thy ===== *)
theory Relay_Visit
  imports Relay_IR
begin

text \<open>
  The visitor of \<^verbatim>\<open>VisitRelayExpr\<close>, which sees every node of a Relay graph once, the virtual devices
  it collects for the context of a pass, and the entry point of a pass, which derives that context
  before it mutates anything and so throws when a device of the graph has no backend.
\<close>

section \<open>Visiting a graph\<close>

text \<open>The address any defined reference compares by.\<close>

fun node_ptr :: "'d rexpr \<Rightarrow> nat option" where
  "node_ptr (ROther a) = Some a"
| "node_ptr e = node_addr e"

text \<open>The references \<^verbatim>\<open>VisitRelayExpr\<close> descends into, in order.\<close>

fun relay_children :: "'d rexpr \<Rightarrow> 'd rexpr list" where
  "relay_children (RFunction _ ps b) = map RVar ps @ [b]"
| "relay_children (RCall _ op args _) = op # args"
| "relay_children (RIf _ c t f) = [c, t, f]"
| "relay_children (RLet _ x v b) = [RVar x, v, b]"
| "relay_children (RTuple _ fs) = fs"
| "relay_children (RTupleGetItem _ t _) = [t]"
| "relay_children _ = []"

lemma rsize_child [simp]: "c \<in> set (relay_children e) \<Longrightarrow> rsize c < rsize e"
  by (cases e) (auto dest!: rsize_in_list simp: less_Suc_eq_le Suc_le_eq)

function VisitRelayExpr :: "('d rexpr \<Rightarrow> 's \<Rightarrow> 's) \<Rightarrow> 'd rexpr \<Rightarrow> nat set \<times> 's \<Rightarrow> nat set \<times> 's" where
  "VisitRelayExpr f e vs =
     (case node_ptr e of
        None \<Rightarrow> vs
      | Some p \<Rightarrow>
          if p \<in> fst vs then vs
          else fold (VisitRelayExpr f) (relay_children e) (insert p (fst vs), f e (snd vs)))"
  by pat_completeness auto
termination by (relation "measure (\<lambda>(_, e, _). rsize e)") auto

declare VisitRelayExpr.simps [simp del]

section \<open>The context of a graph\<close>

text \<open>One node of \<^verbatim>\<open>CollectRelayVirtualDevices\<close>: its device, unless its object was met before.\<close>

definition collect_device ::
  "'s RelayState_scheme \<Rightarrow> 'd rexpr \<Rightarrow> nat set \<times> VirtualDevice option list \<Rightarrow>
     nat set \<times> VirtualDevice option list" where
  "collect_device st e = (\<lambda>(seen, out).
     case node_addr e of
       None \<Rightarrow> (seen, out)
     | Some a \<Rightarrow>
         (case virtual_device st a of
            None \<Rightarrow> (seen, out)
          | Some vd \<Rightarrow>
              if vd_ptr vd \<in> seen then (seen, out)
              else (insert (vd_ptr vd) seen, out @ [Some vd])))"

definition CollectRelayVirtualDevices ::
  "'s RelayState_scheme \<Rightarrow> 'd rexpr \<Rightarrow> VirtualDevice option list" where
  "CollectRelayVirtualDevices st e = snd (snd (VisitRelayExpr (collect_device st) e ({}, ({}, []))))"

definition FromRelay :: "device_api \<Rightarrow> 's RelayState_scheme \<Rightarrow> 'd rexpr \<Rightarrow> PassContext res" where
  "FromRelay api st e = BuildFromVirtualDevices api (CollectRelayVirtualDevices st e)"

section \<open>The entry point of a pass\<close>

text \<open>
  \<^verbatim>\<open>RelayPass::Mutate\<close> installs the current context, or that of the expression. The nested calls find
  the context installed; when it is undefined, the graph has no virtual device, so the context they
  derive from a part of it is undefined as well.
\<close>

definition mutate_context ::
  "pass_env \<Rightarrow> 's RelayState_scheme \<Rightarrow> 'd rexpr \<Rightarrow> PassContext res" where
  "mutate_context E st e =
     (if pc_defined (Current (snd E)) then Inr (Current (snd E)) else FromRelay (fst E) st e)"

text \<open>\<^verbatim>\<open>RelayPass::Mutate(const Function&)\<close>.\<close>

definition MutateFunction :: "pass_env \<Rightarrow> ('d, 's) mutator \<Rightarrow> ('d, 's) mutator" where
  "MutateFunction E mut func st =
     (case func of
        RUndef \<Rightarrow> Inr (RUndef, st)
      | _ \<Rightarrow>
          sbind (mutate_context E st func) (\<lambda>_.
          sbind (mut func st) (\<lambda>(out, st).
          case out of
            RUndef \<Rightarrow> Inr (RUndef, st)
          | RFunction _ _ _ \<Rightarrow> Inr (out, st)
          | _ \<Rightarrow> throw ''RelayPass expected Function result when mutating Function'')))"

end
