(* ===== verification/Relay_Utils.thy ===== *)
theory Relay_Utils
  imports Relay_Visit "HOL-Library.Sublist"
begin

text \<open>
  The helpers the Relay transforms share (\<^verbatim>\<open>src/relay/pass_utils.cc\<close>), the array
  constructor they use (\<^verbatim>\<open>src/base/ndarray.cc\<close>) and the textual form of a Relay expression
  (\<^verbatim>\<open>src/relay/pass/print_ir.cc\<close>), which serves as the key of common-subexpression
  elimination.
\<close>

section \<open>Scalar constants\<close>

text \<open>
  What the helpers use of the host's arithmetic besides \<open>fp\<close>: the conversion of a
  \<^verbatim>\<open>double\<close> to \<^verbatim>\<open>float\<close> and back, and to an integer type given by its signedness and width
  (\<^verbatim>\<open>static_cast\<close>, unspecified where the value does not fit).
\<close>

record 'd host = "'d fp" +
  dbl_to_float :: "'d \<Rightarrow> 'd"
  dbl_cast :: "bool \<Rightarrow> nat \<Rightarrow> 'd \<Rightarrow> int"

fun scalar_shape_loop :: "int list \<Rightarrow> int \<Rightarrow> bool" where
  "scalar_shape_loop [] elements \<longleftrightarrow> elements = 1"
| "scalar_shape_loop (d # ds) elements \<longleftrightarrow>
     (if d < 0 then False else scalar_shape_loop ds (i64 (elements * d)))"

definition IsScalarShape :: "'d NDArray option \<Rightarrow> bool" where
  "IsScalarShape array =
     (case array of None \<Rightarrow> False | Some d \<Rightarrow> scalar_shape_loop (nd_shape d) 1)"

definition DTypeToString_utils :: "DataType \<Rightarrow> string" where
  "DTypeToString_utils dt =
     (if lanes dt \<noteq> 1 then ''float64''
      else if code dt = 2 \<and> bits dt = 32 then ''float32''
      else if code dt = 2 \<and> bits dt = 64 then ''float64''
      else if code dt = 0 \<and> bits dt = 8 then ''int8''
      else if code dt = 0 \<and> bits dt = 32 then ''int32''
      else if code dt = 0 \<and> bits dt = 64 then ''int64''
      else if code dt = 1 \<and> bits dt = 1 then ''bool''
      else if code dt = 1 \<and> bits dt = 8 then ''uint8''
      else ''float64'')"

text \<open>
  The constructor of an array with non-negative dimensions: zeroed elements. (A negative
  product of dimensions asks for more memory than there is.)
\<close>

definition zero_cell :: "'d host \<Rightarrow> DataType \<Rightarrow> 'd cell" where
  "zero_cell H dt = (if code dt = 2 then CFlt (dbl_of_int H 0) else CInt 0)"

definition NDArray_new :: "'d host \<Rightarrow> int list \<Rightarrow> string \<Rightarrow> 'd NDArray" where
  "NDArray_new H shape dtype_str =
     (let dt = ParseDType dtype_str;
          elements = foldl (\<lambda>n d. i64 (n * d)) 1 shape
      in \<lparr>nd_shape = shape, nd_dtype = dt,
          nd_data = Some (replicate (nat elements) (zero_cell H dt))\<rparr>)"

text \<open>The element a value of \<^verbatim>\<open>double\<close> is written as, at each type that is supported.\<close>

definition scalar_cell :: "'d host \<Rightarrow> DataType \<Rightarrow> 'd \<Rightarrow> 'd cell option" where
  "scalar_cell H dt v =
     (if code dt = 2 \<and> bits dt = 32 then Some (CFlt (dbl_to_float H v))
      else if code dt = 2 \<and> bits dt = 64 then Some (CFlt v)
      else if code dt = 0 \<and> bits dt \<in> {8, 16, 32, 64} then Some (CInt (dbl_cast H True (bits dt) v))
      else if code dt = 1 \<and> bits dt \<in> {1, 8} then Some (CInt (dbl_cast H False 8 v))
      else if code dt = 1 \<and> bits dt \<in> {16, 32, 64} then Some (CInt (dbl_cast H False (bits dt) v))
      else None)"

text \<open>\<open>None\<close> where the source answers \<^verbatim>\<open>false\<close>, else the array after the write.\<close>

definition WriteScalarToArray :: "'d host \<Rightarrow> 'd NDArray \<Rightarrow> 'd \<Rightarrow> 'd NDArray option" where
  "WriteScalarToArray H array v =
     (case nd_data array of
        None \<Rightarrow> None
      | Some cells \<Rightarrow>
          map_option (\<lambda>c. array\<lparr>nd_data := Some (cells[0 := c])\<rparr>)
            (scalar_cell H (nd_dtype array) v))"

text \<open>
  The first element, read through a pointer to the type the source picks for the width:
  \<^verbatim>\<open>uint8_t\<close> for 1 and 8 bits, the signed type for the wider ones, for signed and unsigned
  arrays alike.
\<close>

definition read_scalar :: "'d host \<Rightarrow> DataType \<Rightarrow> 'd cell \<Rightarrow> 'd option" where
  "read_scalar H dt c =
     (case c of
        CFlt x \<Rightarrow> if code dt = 2 \<and> bits dt \<in> {32, 64} then Some x else None
      | CInt i \<Rightarrow>
          if code dt = 0 \<or> code dt = 1 then
            if bits dt = 1 \<or> bits dt = 8 then Some (dbl_of_int H (take_bit 8 i))
            else if bits dt = 16 then Some (dbl_of_int H (signed_take_bit 15 i))
            else if bits dt = 32 then Some (dbl_of_int H (signed_take_bit 31 i))
            else if bits dt = 64 then Some (dbl_of_int H (signed_take_bit 63 i))
            else None
          else None)"

definition TryGetScalarConstantValueWithDType :: "'d host \<Rightarrow> 'd rexpr \<Rightarrow> ('d \<times> DataType) option"
where
  "TryGetScalarConstantValueWithDType H expr =
     (case expr of
        RConst _ (Some d) \<Rightarrow>
          (case nd_data d of
             Some (c # _) \<Rightarrow>
               if \<not> IsScalarShape (Some d) then None
               else if lanes (nd_dtype d) \<noteq> 1 then None
               else map_option (\<lambda>v. (v, nd_dtype d)) (read_scalar H (nd_dtype d) c)
           | _ \<Rightarrow> None)
      | _ \<Rightarrow> None)"

definition TryGetScalarConstantValue :: "'d host \<Rightarrow> 'd rexpr \<Rightarrow> 'd option" where
  "TryGetScalarConstantValue H expr = map_option fst (TryGetScalarConstantValueWithDType H expr)"

definition MakeScalarConstant :: "'d host \<Rightarrow> 'd \<Rightarrow> DataType \<Rightarrow> 'd NDArray" where
  "MakeScalarConstant H v dt =
     (let array = NDArray_new H [] (DTypeToString_utils dt) in
      case WriteScalarToArray H array v of
        Some written \<Rightarrow> written
      | None \<Rightarrow>
          (let fallback = NDArray_new H [] ''float64'' in
           case WriteScalarToArray H fallback v of Some written \<Rightarrow> written | None \<Rightarrow> fallback))"

definition RelayIsConstZero :: "'d host \<Rightarrow> 'd rexpr \<Rightarrow> bool" where
  "RelayIsConstZero H expr =
     (case TryGetScalarConstantValue H expr of
        Some v \<Rightarrow> dbl_eq H v (dbl_of_int H 0) | None \<Rightarrow> False)"

definition RelayIsConstOne :: "'d host \<Rightarrow> 'd rexpr \<Rightarrow> bool" where
  "RelayIsConstOne H expr =
     (case TryGetScalarConstantValue H expr of
        Some v \<Rightarrow> dbl_eq H v (dbl_of_int H 1) | None \<Rightarrow> False)"

section \<open>Analyses\<close>

text \<open>\<^verbatim>\<open>GetCallOpName\<close> on the operator of a call: empty unless it is an \<^verbatim>\<open>OpNode\<close>.\<close>

fun GetCallOpName :: "'d rexpr \<Rightarrow> string" where
  "GetCallOpName (RCall _ (ROp _ nm) _ _) = nm"
| "GetCallOpName _ = ''''"

text \<open>The memo table of the source is a cache of this function of the node.\<close>

fun HasSideEffect :: "'d rexpr \<Rightarrow> bool" where
  "HasSideEffect RUndef \<longleftrightarrow> False"
| "HasSideEffect (RVar _) \<longleftrightarrow> False"
| "HasSideEffect (RConst _ _) \<longleftrightarrow> False"
| "HasSideEffect (RTuple _ fs) \<longleftrightarrow> list_ex HasSideEffect fs"
| "HasSideEffect (RTupleGetItem _ t _) \<longleftrightarrow> HasSideEffect t"
| "HasSideEffect (RIf _ c t f) \<longleftrightarrow> HasSideEffect c \<or> HasSideEffect t \<or> HasSideEffect f"
| "HasSideEffect (RLet _ _ v b) \<longleftrightarrow> HasSideEffect v \<or> HasSideEffect b"
| "HasSideEffect (RFunction _ _ b) \<longleftrightarrow> HasSideEffect b"
| "HasSideEffect (RCall a op args ats) \<longleftrightarrow>
     (let op_name = GetCallOpName (RCall a op args ats) in
      if op_name = '''' then True
      else if prefix ''device.'' op_name then True
      else list_ex HasSideEffect args)"
| "HasSideEffect (ROp _ _) \<longleftrightarrow> True"
| "HasSideEffect (ROther _) \<longleftrightarrow> True"

fun CountVarUses :: "'d rexpr \<Rightarrow> RVarNode \<Rightarrow> nat" where
  "CountVarUses (RVar v) x = (if rv_addr v = rv_addr x then 1 else 0)"
| "CountVarUses (RCall _ op args _) x =
     CountVarUses op x + sum_list (map (\<lambda>e. CountVarUses e x) args)"
| "CountVarUses (RFunction _ _ b) x = CountVarUses b x"
| "CountVarUses (RIf _ c t f) x = CountVarUses c x + CountVarUses t x + CountVarUses f x"
| "CountVarUses (RLet _ _ v b) x = CountVarUses v x + CountVarUses b x"
| "CountVarUses (RTuple _ fs) x = sum_list (map (\<lambda>e. CountVarUses e x) fs)"
| "CountVarUses (RTupleGetItem _ t _) x = CountVarUses t x"
| "CountVarUses _ x = 0"

definition CopyVirtualDevice ::
  "'d rexpr \<Rightarrow> 'd rexpr \<Rightarrow> 's RelayState_scheme \<Rightarrow> 'd rexpr \<times> 's RelayState_scheme" where
  "CopyVirtualDevice source dest st =
     (case (node_addr source, node_addr dest) of
        (Some a, Some b) \<Rightarrow>
          (dest, st\<lparr>virtual_device := (virtual_device st)(b := virtual_device st a),
                    checked_type := (checked_type st)(b := checked_type st a)\<rparr>)
      | _ \<Rightarrow> (dest, st))"

lemma CopyVirtualDevice_eq:
  "CopyVirtualDevice source dest st = (dest, CopyRelayVirtualDevice source dest st)"
  by (simp add: CopyVirtualDevice_def CopyRelayVirtualDevice_def split: option.split)

text \<open>A copy at the new address \<open>p\<close>.\<close>

definition WithMemoryScope ::
  "nat \<Rightarrow> VirtualDevice option \<Rightarrow> string \<Rightarrow> VirtualDevice option" where
  "WithMemoryScope p vd memory_scope =
     map_option (\<lambda>d. d\<lparr>vd_ptr := p, vd_memory_scope := memory_scope\<rparr>) vd"

section \<open>Substitution\<close>

text \<open>
  The class \<^verbatim>\<open>VarSubstituter\<close>: a function that binds the target is left alone, and so is the
  body of a \<^verbatim>\<open>Let\<close> that binds it.
\<close>

function VarSubstituter :: "RVarNode \<Rightarrow> 'd rexpr \<Rightarrow> ('d, 's) mutator" where
  "VarSubstituter target replacement e st =
     (case e of
        RVar v \<Rightarrow> Inr (if rv_addr v = rv_addr target then replacement else e, st)
      | RFunction a ps b \<Rightarrow>
          if \<exists>p\<in>set ps. rv_addr p = rv_addr target then Inr (e, st)
          else RelayVisitExpr (VarSubstituter target replacement) e st
      | RLet a x v b \<Rightarrow>
          sbind (VarSubstituter target replacement v st) (\<lambda>(new_value, st).
          if rv_addr x = rv_addr target then
            (if new_value = v then Inr (e, st)
             else renew_node e (\<lambda>n. RLet n x new_value b) st)
          else
            sbind (VarSubstituter target replacement b st) (\<lambda>(new_body, st).
            if new_value = v \<and> new_body = b then Inr (e, st)
            else renew_node e (\<lambda>n. RLet n x new_value new_body) st))
      | _ \<Rightarrow> RelayVisitExpr (VarSubstituter target replacement) e st)"
  by pat_completeness auto
termination by (relation "measure (\<lambda>(_, _, e, _). rsize e)") auto

declare VarSubstituter.simps [simp del]

definition SubstituteVar :: "'d rexpr \<Rightarrow> RVarNode \<Rightarrow> ('d, 's) mutator" where
  "SubstituteVar expr target replacement st =
     (if expr = RUndef \<or> replacement = RUndef then Inr (expr, st)
      else VarSubstituter target replacement expr st)"

section \<open>The printed form\<close>

definition newline :: string where
  "newline = [CHR 0x0A]"

definition Indent :: "nat \<Rightarrow> string" where
  "Indent n = replicate n CHR '' ''"

definition CheckedTypeSuffix :: "'s RelayState_scheme \<Rightarrow> nat \<Rightarrow> string" where
  "CheckedTypeSuffix st a =
     (if checked_type st a \<noteq> UndefinedType then '' : '' @ TypeToString (checked_type st a) else '''')"

definition DTypeToString_print :: "DataType \<Rightarrow> string" where
  "DTypeToString_print dt =
     (if code dt = 2 then ''float'' @ to_string (int (bits dt))
      else if code dt = 0 then ''int'' @ to_string (int (bits dt))
      else if code dt = 1 then
        (if bits dt = 1 then ''bool'' else ''uint'' @ to_string (int (bits dt)))
      else ''dtype(code='' @ to_string (int (code dt)) @ '',bits='' @ to_string (int (bits dt)) @ '')'')"

definition op_label :: "'d rexpr \<Rightarrow> string" where
  "op_label op = (case op of ROp _ nm \<Rightarrow> nm | _ \<Rightarrow> ''<expr-op>'')"

fun print_params :: "nat \<Rightarrow> nat \<Rightarrow> RVarNode list \<Rightarrow> string" where
  "print_params indent i [] = ''''"
| "print_params indent i (p # ps) =
     Indent indent @ ''param['' @ to_string (int i) @ '']='' @ rv_name p @ newline @
     print_params indent (Suc i) ps"

text \<open>
  \<open>Print st k indent e\<close> is what \<^verbatim>\<open>RelayIRPrinter::Print\<close> writes with \<^verbatim>\<open>indent_spaces_\<close> \<open>k\<close>;
  \<open>print_items\<close> is its loop over arguments or fields. (A constant without data, through
  which the source would dereference a null pointer, prints as the empty text.)
\<close>

fun Print :: "'s RelayState_scheme \<Rightarrow> nat \<Rightarrow> nat \<Rightarrow> 'd rexpr \<Rightarrow> string"
and print_items :: "'s RelayState_scheme \<Rightarrow> nat \<Rightarrow> nat \<Rightarrow> string \<Rightarrow> nat \<Rightarrow> 'd rexpr list \<Rightarrow> string"
where
  "Print st k indent RUndef = Indent indent @ ''<undef-expr>'' @ newline"
| "Print st k indent (RVar v) =
     Indent indent @ ''Var('' @ rv_name v @ '')'' @ CheckedTypeSuffix st (rv_addr v) @ newline"
| "Print st k indent (RConst a None) = ''''"
| "Print st k indent (RConst a (Some d)) =
     Indent indent @ ''Constant(shape=['' @ join_with '', '' (map to_string (nd_shape d)) @
     ''], dtype='' @ DTypeToString_print (nd_dtype d) @ '')'' @ CheckedTypeSuffix st a @ newline"
| "Print st k indent (RCall a op args ats) =
     Indent indent @ ''Call(op='' @ op_label op @ '', args='' @ to_string (int (length args)) @
     '')'' @ CheckedTypeSuffix st a @ newline @ print_items st k indent ''arg'' 0 args"
| "Print st k indent (RFunction a ps b) =
     Indent indent @ ''Function(params='' @ to_string (int (length ps)) @ '')'' @
     CheckedTypeSuffix st a @ newline @ print_params (indent + k) 0 ps @
     Indent (indent + k) @ ''body:'' @ newline @ Print st k (indent + k * 2) b"
| "Print st k indent (RIf a c t f) =
     Indent indent @ ''If'' @ CheckedTypeSuffix st a @ newline @
     Indent (indent + k) @ ''cond:'' @ newline @ Print st k (indent + k * 2) c @
     Indent (indent + k) @ ''true:'' @ newline @ Print st k (indent + k * 2) t @
     Indent (indent + k) @ ''false:'' @ newline @ Print st k (indent + k * 2) f"
| "Print st k indent (RLet a x v b) =
     Indent indent @ ''Let(var='' @ rv_name x @ '')'' @ CheckedTypeSuffix st a @ newline @
     Indent (indent + k) @ ''value:'' @ newline @ Print st k (indent + k * 2) v @
     Indent (indent + k) @ ''body:'' @ newline @ Print st k (indent + k * 2) b"
| "Print st k indent (RTuple a fs) =
     Indent indent @ ''Tuple(fields='' @ to_string (int (length fs)) @ '')'' @
     CheckedTypeSuffix st a @ newline @ print_items st k indent ''field'' 0 fs"
| "Print st k indent (RTupleGetItem a t i) =
     Indent indent @ ''TupleGetItem(index='' @ to_string i @ '')'' @ CheckedTypeSuffix st a @
     newline @ Indent (indent + k) @ ''tuple:'' @ newline @ Print st k (indent + k * 2) t"
| "Print st k indent (ROp a nm) = Indent indent @ ''<expr>'' @ newline"
| "Print st k indent (ROther a) = Indent indent @ ''<expr>'' @ newline"
| "print_items st k indent label i [] = ''''"
| "print_items st k indent label i (e # es) =
     Indent (indent + k) @ label @ ''['' @ to_string (int i) @ '']:'' @ newline @
     Print st k (indent + k * 2) e @ print_items st k indent label (Suc i) es"

definition ToText :: "'s RelayState_scheme \<Rightarrow> 'd rexpr \<Rightarrow> string" where
  "ToText st e = Print st 2 0 e"

definition ExprStructuralKey :: "'s RelayState_scheme \<Rightarrow> 'd rexpr \<Rightarrow> string" where
  "ExprStructuralKey st e = ToText st e"

end
