(* ===== verification/Relay_Transforms.thy ===== *)
theory Relay_Transforms
  imports Relay_Utils
begin

text \<open>
  The rewriting passes of \<^verbatim>\<open>src/relay/transforms\<close>. All of them but common-subexpression
  elimination override one \<^verbatim>\<open>Visit*\<close> method, call the base method in it and post-process the
  rebuilt node; such a class is \<open>post_rewriter\<close> of its post-processing step.
\<close>

section \<open>Post-processing rewriters\<close>

type_synonym ('d, 's) rhook =
  "'d rexpr \<Rightarrow> 's RelayState_scheme \<Rightarrow> 'd rexpr \<times> 's RelayState_scheme"

function post_rewriter :: "('d, 's) rhook \<Rightarrow> ('d, 's) mutator" where
  "post_rewriter h e st =
     sbind (RelayVisitExpr (post_rewriter h) e st) (\<lambda>(rewritten, st). Inr (h rewritten st))"
  by pat_completeness auto
termination by (relation "measure (\<lambda>(_, e, _). rsize e)") auto

declare post_rewriter.simps [simp del]

definition FoldTupleGetItemRewriter :: "('d, 's) rhook" where
  "FoldTupleGetItemRewriter rewritten st =
     (case rewritten of
        RTupleGetItem _ (RTuple _ fs) index \<Rightarrow>
          if index < 0 \<or> nat index \<ge> length fs then (rewritten, st)
          else CopyVirtualDevice rewritten (fs ! nat index) st
      | _ \<Rightarrow> (rewritten, st))"

definition EliminateDeadLetRewriter :: "('d, 's) rhook" where
  "EliminateDeadLetRewriter rewritten st =
     (case rewritten of
        RLet _ var v b \<Rightarrow>
          if HasSideEffect v then (rewritten, st)
          else if CountVarUses b var \<noteq> 0 then (rewritten, st)
          else CopyVirtualDevice rewritten b st
      | _ \<Rightarrow> (rewritten, st))"

text \<open>A new node that takes over the annotations of the rewritten one.\<close>

definition replace_node :: "'d rexpr \<Rightarrow> (nat \<Rightarrow> 'd rexpr) \<Rightarrow> ('s RelayState_scheme) \<Rightarrow>
    'd rexpr \<times> 's RelayState_scheme" where
  "replace_node rewritten mk st =
     (let (n, st) = alloc_node st in CopyVirtualDevice rewritten (mk n) st)"

text \<open>\<^verbatim>\<open>attrs.As<CastAttrsNode>()->to\<close>, and \<^verbatim>\<open>expr.As<CallNode>()\<close> with an argument.\<close>

definition cast_to :: "Attrs \<Rightarrow> int option" where
  "cast_to ats = (case ats of ACast t \<Rightarrow> Some t | _ \<Rightarrow> None)"

definition first_call_arg :: "'d rexpr \<Rightarrow> ('d rexpr \<times> Attrs) option" where
  "first_call_arg e = (case e of RCall _ _ (x # _) ats \<Rightarrow> Some (x, ats) | _ \<Rightarrow> None)"

definition CanonicalizeCastRewriter :: "('d, 's) rhook" where
  "CanonicalizeCastRewriter rewritten st =
     (case rewritten of
        RCall _ op (inner # _) outer_attrs \<Rightarrow>
          if GetCallOpName rewritten \<noteq> ''cast'' then (rewritten, st)
          else (case (cast_to outer_attrs, first_call_arg inner) of
             (Some to_outer, Some (inner_arg, inner_attrs)) \<Rightarrow>
               if GetCallOpName inner \<noteq> ''cast'' then (rewritten, st)
               else if cast_to inner_attrs \<noteq> Some to_outer then (rewritten, st)
               else replace_node rewritten (\<lambda>n. RCall n op [inner_arg] outer_attrs) st
           | _ \<Rightarrow> (rewritten, st))
      | _ \<Rightarrow> (rewritten, st))"

text \<open>The operand a call simplifies to, when it does.\<close>

definition simplified_operand :: "'d host \<Rightarrow> string \<Rightarrow> 'd rexpr \<Rightarrow> 'd rexpr \<Rightarrow> 'd rexpr option" where
  "simplified_operand H op_name lhs rhs =
     (if op_name = ''add'' then
        (if RelayIsConstZero H rhs then Some lhs else if RelayIsConstZero H lhs then Some rhs else None)
      else if op_name = ''mul'' \<or> op_name = ''multiply'' then
        (if RelayIsConstOne H rhs then Some lhs else if RelayIsConstOne H lhs then Some rhs else None)
      else if op_name = ''subtract'' \<or> op_name = ''sub'' then
        (if RelayIsConstZero H rhs then Some lhs else None)
      else if op_name = ''divide'' \<or> op_name = ''div'' then
        (if RelayIsConstOne H rhs then Some lhs else None)
      else None)"

definition RelaySimplifyExprRewriter :: "'d host \<Rightarrow> ('d, 's) rhook" where
  "RelaySimplifyExprRewriter H rewritten st =
     (case rewritten of
        RCall _ _ [lhs, rhs] _ \<Rightarrow>
          (case simplified_operand H (GetCallOpName rewritten) lhs rhs of
             Some simplified \<Rightarrow>
               if simplified = RUndef then (rewritten, st)
               else CopyVirtualDevice rewritten simplified st
           | None \<Rightarrow> (rewritten, st))
      | _ \<Rightarrow> (rewritten, st))"

definition RemoveStandaloneReshapesRewriter :: "('d, 's) rhook" where
  "RemoveStandaloneReshapesRewriter rewritten st =
     (case rewritten of
        RCall _ op (inner # rest) outer_attrs \<Rightarrow>
          if GetCallOpName rewritten \<noteq> ''reshape'' then (rewritten, st)
          else (case first_call_arg inner of
             Some (inner_arg, _) \<Rightarrow>
               if GetCallOpName inner \<noteq> ''reshape'' then (rewritten, st)
               else replace_node rewritten
                 (\<lambda>n. RCall n op (inner_arg # take 1 rest) outer_attrs) st
           | None \<Rightarrow> (rewritten, st))
      | _ \<Rightarrow> (rewritten, st))"

text \<open>
  The value and type of a folded call on two scalar constants; \<open>None\<close> where the call is
  kept.
\<close>

definition bool_double :: "'d host \<Rightarrow> bool \<Rightarrow> 'd" where
  "bool_double H b = dbl_of_int H (if b then 1 else 0)"

definition fold_scalars :: "'d host \<Rightarrow> string \<Rightarrow> 'd \<Rightarrow> 'd \<Rightarrow> DataType \<Rightarrow> ('d \<times> DataType) option" where
  "fold_scalars H op_name lhs rhs lhs_dtype =
     (let bool_dtype = \<lparr>code = 1, bits = 1, lanes = 1\<rparr> in
      if op_name = ''add'' then Some (dbl_add H lhs rhs, lhs_dtype)
      else if op_name = ''subtract'' \<or> op_name = ''sub'' then Some (dbl_sub H lhs rhs, lhs_dtype)
      else if op_name = ''mul'' \<or> op_name = ''multiply'' then Some (dbl_mul H lhs rhs, lhs_dtype)
      else if op_name = ''divide'' \<or> op_name = ''div'' then
        (if dbl_eq H rhs (dbl_of_int H 0) then None else Some (dbl_div H lhs rhs, lhs_dtype))
      else if op_name = ''equal'' then Some (bool_double H (dbl_eq H lhs rhs), bool_dtype)
      else if op_name = ''greater'' then Some (bool_double H (dbl_lt H rhs lhs), bool_dtype)
      else None)"

definition RelayFoldConstantRewriter :: "'d host \<Rightarrow> ('d, 's) rhook" where
  "RelayFoldConstantRewriter H rewritten st =
     (case rewritten of
        RCall _ _ [a0, a1] _ \<Rightarrow>
          if GetCallOpName rewritten = '''' then (rewritten, st)
          else (case (TryGetScalarConstantValueWithDType H a0, TryGetScalarConstantValueWithDType H a1) of
             (Some (lhs, lhs_dtype), Some (rhs, _)) \<Rightarrow>
               (case fold_scalars H (GetCallOpName rewritten) lhs rhs lhs_dtype of
                  Some (out_value, out_dtype) \<Rightarrow>
                    if \<not> dbl_finite H out_value then (rewritten, st)
                    else replace_node rewritten
                      (\<lambda>n. RConst n (Some (MakeScalarConstant H out_value out_dtype))) st
                | None \<Rightarrow> (rewritten, st))
           | _ \<Rightarrow> (rewritten, st))
      | _ \<Rightarrow> (rewritten, st))"

section \<open>Common-subexpression elimination\<close>

text \<open>
  The table from printed values to the variables bound to them is a field of the class.
  The table only ever holds variables.
\<close>

record CSEState = RelayState +
  cse_table :: "string \<Rightarrow> RVarNode option"

lemma map_rsize_eq:
  "list_all2 (\<lambda>e e'. rsize e' = rsize e) es es' \<Longrightarrow> map rsize es' = map rsize es"
  by (induction rule: list_all2_induct) auto

lemma rsize_rebuilt: "rebuilt (\<lambda>e e'. rsize e' = rsize e) e e' \<Longrightarrow> rsize e' = rsize e"
  by (erule rebuilt.cases) (simp_all add: map_rsize_eq)

text \<open>
  Substitution always returns, and substituting a variable keeps the size, so the rewriter
  below terminates although it visits the substituted body.
\<close>

lemma VarSubstituter_total:
  fixes e :: "'d rexpr" and st :: "'s RelayState_scheme"
  shows "\<exists>e' st'. VarSubstituter x (RVar y) e st = Inr (e', st') \<and> rsize e' = rsize e"
proof (induction e arbitrary: st rule: measure_induct_rule [where f = rsize])
  case (less e)
  let ?sub = "VarSubstituter x (RVar y) :: ('d, 's) mutator"
  have visit: "\<exists>e' st'. RelayVisitExpr ?sub e st = Inr (e', st') \<and> rsize e' = rsize e"
    if "\<And>v s. v \<in> node_binders e \<Longrightarrow> ?sub (RVar v) s = Inr (RVar v, s)"
    using RelayVisitExpr_rebuilt [where R = "\<lambda>e e'. rsize e' = rsize e" and mut = ?sub and e = e,
        OF less.IH that] rsize_rebuilt by blast
  show ?case
  proof (cases e)
    case (RLet a z v b)
    obtain v' s1 where 1: "?sub v st = Inr (v', s1)" "rsize v' = rsize v"
      using less.IH [of v st] RLet by auto
    obtain b' s2 where 2: "?sub b s1 = Inr (b', s2)" "rsize b' = rsize b"
      using less.IH [of b s1] RLet by auto
    show ?thesis
      using 1 2 RLet renew_node_Inr [of e "\<lambda>n. RLet n z v' b" s1] renew_node_Inr [of e "\<lambda>n. RLet n z v' b'" s2]
      by (subst VarSubstituter.simps) auto
  next
    case (RFunction a ps b)
    show ?thesis
    proof (cases "\<exists>p\<in>set ps. rv_addr p = rv_addr x")
      case True
      then show ?thesis using RFunction by (subst VarSubstituter.simps) auto
    next
      case False
      then have "?sub (RVar v) s = Inr (RVar v, s)" if "v \<in> node_binders e" for v s
        using that RFunction by (subst VarSubstituter.simps) auto
      then show ?thesis using visit False RFunction by (subst VarSubstituter.simps) auto
    qed
  qed (use visit in \<open>subst VarSubstituter.simps, auto\<close>)+
qed

lemma SubstituteVar_rsize:
  "SubstituteVar e x (RVar y) st = Inr (e', st') \<Longrightarrow> rsize e' = rsize e"
  using VarSubstituter_total [of x y e st] by (auto simp: SubstituteVar_def split: if_splits)

function EliminateCommonSubexprRewriter :: "'d rexpr \<Rightarrow> CSEState \<Rightarrow> ('d rexpr \<times> CSEState) res" where
  "EliminateCommonSubexprRewriter e st =
     (case e of
        RLet a x v b \<Rightarrow>
          sbind (EliminateCommonSubexprRewriter v st) (\<lambda>(new_value, st).
          if \<not> HasSideEffect new_value then
            let key = ExprStructuralKey st new_value in
            case cse_table st key of
              Some y \<Rightarrow>
                sbind (SubstituteVar b x (RVar y) st) (\<lambda>(replaced_body, st).
                sbind (EliminateCommonSubexprRewriter replaced_body st) (\<lambda>(new_body, st).
                Inr (CopyVirtualDevice e new_body st)))
            | None \<Rightarrow>
                sbind (EliminateCommonSubexprRewriter b
                        (st\<lparr>cse_table := (cse_table st)(key \<mapsto> x)\<rparr>)) (\<lambda>(new_body, st).
                let st = st\<lparr>cse_table := (cse_table st)(key := None)\<rparr> in
                if new_value = v \<and> new_body = b then Inr (e, st)
                else renew_node e (\<lambda>n. RLet n x new_value new_body) st)
          else
            sbind (EliminateCommonSubexprRewriter b st) (\<lambda>(new_body, st).
            if new_value = v \<and> new_body = b then Inr (e, st)
            else renew_node e (\<lambda>n. RLet n x new_value new_body) st))
      | _ \<Rightarrow> RelayVisitExpr EliminateCommonSubexprRewriter e st)"
  by pat_completeness auto
termination
  by (relation "measure (\<lambda>(e, _). rsize e)") (auto dest: SubstituteVar_rsize)

declare EliminateCommonSubexprRewriter.simps [simp del]

section \<open>The passes\<close>

definition FoldTupleGetItemPass :: "pass_env \<Rightarrow> ('d, 's) mutator" where
  "FoldTupleGetItemPass E = MutateFunction E (post_rewriter FoldTupleGetItemRewriter)"

definition EliminateDeadLetPass :: "pass_env \<Rightarrow> ('d, 's) mutator" where
  "EliminateDeadLetPass E = MutateFunction E (post_rewriter EliminateDeadLetRewriter)"

definition CanonicalizeCastPass :: "pass_env \<Rightarrow> ('d, 's) mutator" where
  "CanonicalizeCastPass E = MutateFunction E (post_rewriter CanonicalizeCastRewriter)"

definition RelaySimplifyExprPass :: "'d host \<Rightarrow> pass_env \<Rightarrow> ('d, 's) mutator" where
  "RelaySimplifyExprPass H E = MutateFunction E (post_rewriter (RelaySimplifyExprRewriter H))"

definition RemoveStandaloneReshapesPass :: "pass_env \<Rightarrow> ('d, 's) mutator" where
  "RemoveStandaloneReshapesPass E = MutateFunction E (post_rewriter RemoveStandaloneReshapesRewriter)"

definition RelayFoldConstantPass :: "'d host \<Rightarrow> pass_env \<Rightarrow> ('d, 's) mutator" where
  "RelayFoldConstantPass H E = MutateFunction E (post_rewriter (RelayFoldConstantRewriter H))"

text \<open>The pass object, and with it the table, lives for one call.\<close>

definition EliminateCommonSubexprPass :: "pass_env \<Rightarrow> 'd rexpr \<Rightarrow> RelayState \<Rightarrow> ('d rexpr \<times> RelayState) res"
where
  "EliminateCommonSubexprPass E func st =
     sbind (MutateFunction E EliminateCommonSubexprRewriter func
              (RelayState.extend st (CSEState.fields (\<lambda>_. None))))
       (\<lambda>(out, st). Inr (out, RelayState.truncate st))"

end
