(* ===== verification/Relay_Semantics.thy ===== *)
theory Relay_Semantics
  imports Relay_Transforms
begin

text \<open>
  The reference meaning of a Relay function, against which the rewriting passes are judged,
  and the passes that preserve it. Evaluation is strict and may be undefined (\<open>None\<close>): an
  operator may reject its arguments, a tuple index may be out of range. A pass is correct
  when its output has the value of its input wherever the input has one. What operators
  compute, and what arrays denote, is a parameter \<open>rsem\<close>.
\<close>

section \<open>Meaning\<close>

datatype 't rval = VTensor 't | VTuple "'t rval list"

record ('d, 't) rsem =
  op_val :: "string \<Rightarrow> Attrs \<Rightarrow> 't rval list \<Rightarrow> 't rval option"
  const_val :: "'d NDArray \<Rightarrow> 't"
  cond_val :: "'t \<Rightarrow> bool option"

fun oseq :: "'a option list \<Rightarrow> 'a list option" where
  "oseq [] = Some []"
| "oseq (x # xs) = Option.bind x (\<lambda>y. map_option (Cons y) (oseq xs))"

type_synonym 't renv = "nat \<Rightarrow> 't rval option"

definition branch_of :: "('d, 't) rsem \<Rightarrow> 't rval \<Rightarrow> bool option" where
  "branch_of S v = (case v of VTensor t \<Rightarrow> cond_val S t | VTuple _ \<Rightarrow> None)"

definition field_of :: "'t rval \<Rightarrow> int \<Rightarrow> 't rval option" where
  "field_of v i = (case v of
     VTuple vs \<Rightarrow> if 0 \<le> i \<and> nat i < length vs then Some (vs ! nat i) else None
   | VTensor _ \<Rightarrow> None)"

fun reval :: "('d, 't) rsem \<Rightarrow> 't renv \<Rightarrow> 'd rexpr \<Rightarrow> 't rval option" where
  "reval S env (RVar v) = env (rv_addr v)"
| "reval S env (RConst _ d) = map_option (\<lambda>d. VTensor (const_val S d)) d"
| "reval S env (RCall a op args ats) =
     (case op of
        ROp _ nm \<Rightarrow> Option.bind (oseq (map (reval S env) args)) (op_val S nm ats)
      | _ \<Rightarrow> None)"
| "reval S env (RIf _ c t f) =
     Option.bind (reval S env c) (\<lambda>v. Option.bind (branch_of S v) (\<lambda>b.
       if b then reval S env t else reval S env f))"
| "reval S env (RLet _ x v b) =
     Option.bind (reval S env v) (\<lambda>w. reval S (env(rv_addr x \<mapsto> w)) b)"
| "reval S env (RTuple _ fs) = map_option VTuple (oseq (map (reval S env) fs))"
| "reval S env (RTupleGetItem _ t i) = Option.bind (reval S env t) (\<lambda>v. field_of v i)"
| "reval S env _ = None"

text \<open>The value of a function at its arguments.\<close>

definition reval_fun :: "('d, 't) rsem \<Rightarrow> 'd rexpr \<Rightarrow> 't rval list \<Rightarrow> 't rval option" where
  "reval_fun S func args =
     (case func of
        RFunction _ ps b \<Rightarrow>
          if length args = length ps then reval S (map_of (zip (map rv_addr ps) args)) b else None
      | _ \<Rightarrow> None)"

text \<open>
  \<open>e'\<close> has the value of \<open>e\<close> wherever \<open>e\<close> has one. An operator keeps its name, so that calls to
  it keep their meaning.
\<close>

definition op_name_of :: "'d rexpr \<Rightarrow> string option" where
  "op_name_of e = (case e of ROp _ nm \<Rightarrow> Some nm | _ \<Rightarrow> None)"

definition rle :: "('d, 't) rsem \<Rightarrow> 'd rexpr \<Rightarrow> 'd rexpr \<Rightarrow> bool" where
  "rle S e e' \<longleftrightarrow> (\<forall>env v. reval S env e = Some v \<longrightarrow> reval S env e' = Some v) \<and>
     (\<forall>nm. op_name_of e = Some nm \<longrightarrow> op_name_of e' = Some nm)"

lemma rle_refl [simp, intro]: "rle S e e"
  by (simp add: rle_def)

lemma rle_trans: "rle S a b \<Longrightarrow> rle S b c \<Longrightarrow> rle S a c"
  by (simp add: rle_def)

lemma rleD: "rle S e e' \<Longrightarrow> reval S env e = Some v \<Longrightarrow> reval S env e' = Some v"
  by (simp add: rle_def)

lemma rleI:
  "(\<And>env v. reval S env e = Some v \<Longrightarrow> reval S env e' = Some v) \<Longrightarrow> op_name_of e = None \<Longrightarrow> rle S e e'"
  by (simp add: rle_def)

lemma oseq_rle:
  "list_all2 (rle S) es es' \<Longrightarrow> oseq (map (reval S env) es) = Some vs \<Longrightarrow>
   oseq (map (reval S env) es') = Some vs"
  by (induction arbitrary: vs rule: list_all2_induct) (auto simp: Option.bind_eq_Some_conv dest: rleD)

lemma op_name_of_Some: "op_name_of e = Some nm \<longleftrightarrow> (\<exists>a. e = ROp a nm)"
  by (cases e) (auto simp: op_name_of_def)

text \<open>Rebuilding a node from refined children refines it.\<close>

lemma rle_rebuilt: "rebuilt (rle S) e e' \<Longrightarrow> rle S e e'"
proof (erule rebuilt.cases, goal_cases)
  case (5 op op' args args' a ats a')
  show ?case
  proof (unfold 5(1,2), rule rleI)
    fix env v assume "reval S env (RCall a op args ats) = Some v"
    then obtain b nm vs where b: "op = ROp b nm" "oseq (map (reval S env) args) = Some vs"
        "op_val S nm ats vs = Some v"
      by (auto simp: Option.bind_eq_Some_conv split: rexpr.splits)
    from b(1) 5(3) obtain b' where "op' = ROp b' nm"
      by (auto simp: rle_def op_name_of_Some)
    then show "reval S env (RCall a' op' args' ats) = Some v"
      using b oseq_rle [OF 5(4)] by simp
  qed (simp add: op_name_of_def)
next
  case (7 c c' t t' f f' a a')
  show ?case
  proof (unfold 7(1,2), rule rleI)
    fix env v assume "reval S env (RIf a c t f) = Some v"
    then obtain y b where "reval S env c = Some y" "branch_of S y = Some b"
        "(if b then reval S env t else reval S env f) = Some v"
      by (auto simp: Option.bind_eq_Some_conv simp del: if_split split del: if_split)
    then show "reval S env (RIf a' c' t' f') = Some v"
      using 7(3-5) by (cases b) (simp_all add: rleD)
  qed (simp add: op_name_of_def)
next
  case (9 fs fs' a a')
  then show ?case by (auto intro!: rleI simp: op_name_of_def oseq_rle)
next
  case (8 v v' b b' a x a')
  then show ?case by (auto intro!: rleI simp: op_name_of_def Option.bind_eq_Some_conv rleD)
next
  case (10 t t' a i a')
  then show ?case by (auto intro!: rleI simp: op_name_of_def Option.bind_eq_Some_conv rleD)
qed (auto intro!: rleI simp: op_name_of_def)

lemma reval_fun_rle:
  "rle S b b' \<Longrightarrow> reval_fun S (RFunction a ps b) args = Some v \<Longrightarrow>
   reval_fun S (RFunction a' ps b') args = Some v"
  by (auto simp: reval_fun_def dest: rleD split: if_splits)

section \<open>The interface of a sound post-processing step\<close>

text \<open>
  A step that refines every node, and leaves variables and functions as they are, gives a
  pass that always returns and refines every function.
\<close>

locale sound_hook =
  fixes S :: "('d, 't) rsem" and h :: "('d, 's) rhook"
  assumes hook_refines: "rle S e (fst (h e st))"
    and hook_var: "h (RVar v) st = (RVar v, st)"
    and hook_fun: "h (RFunction a ps b) st = (RFunction a ps b, st)"
begin

lemma rewriter_var: "post_rewriter h (RVar v) st = Inr (RVar v, st)"
  by (subst post_rewriter.simps) (simp add: RelayVisitExpr_def hook_var)

lemma rewriter_refines: "\<exists>e' st'. post_rewriter h e st = Inr (e', st') \<and> rle S e e'"
proof (induction e arbitrary: st rule: measure_induct_rule [where f = rsize])
  case (less e)
  have "\<exists>e1 st1. RelayVisitExpr (post_rewriter h) e st = Inr (e1, st1) \<and> rebuilt (rle S) e e1"
    by (rule RelayVisitExpr_rebuilt) (rule less.IH, assumption, rule rewriter_var)
  then obtain e1 st1 where 1: "RelayVisitExpr (post_rewriter h) e st = Inr (e1, st1)"
      "rebuilt (rle S) e e1" by (elim exE conjE)
  obtain e' st' where h: "h e1 st1 = (e', st')" by (cases "h e1 st1")
  have "rle S e e'"
    using rle_trans [OF rle_rebuilt [OF 1(2)] hook_refines [of e1 st1]] h by simp
  moreover have "post_rewriter h e st = Inr (e', st')"
    by (subst post_rewriter.simps) (simp add: 1(1) h)
  ultimately show ?case by simp
qed

lemma pass_refines:
  "\<exists>a' b' st'. MutateFunction E (post_rewriter h) (RFunction a ps b) st =
       sbind (mutate_context E st (RFunction a ps b)) (\<lambda>_. Inr (RFunction a' ps b', st')) \<and> rle S b b'"
proof -
  have "\<exists>e1 st1. RelayVisitExpr (post_rewriter h) (RFunction a ps b) st = Inr (e1, st1) \<and>
      rebuilt (rle S) (RFunction a ps b) e1"
    by (rule RelayVisitExpr_rebuilt) (rule rewriter_refines, rule rewriter_var)
  then obtain e1 st1 where 1: "RelayVisitExpr (post_rewriter h) (RFunction a ps b) st = Inr (e1, st1)"
      "rebuilt (rle S) (RFunction a ps b) e1" by (elim exE conjE)
  from 1(2) obtain a' b' where e1: "e1 = RFunction a' ps b'" "rle S b b'" by (elim rebuilt_funE)
  then have "post_rewriter h (RFunction a ps b) st = Inr (RFunction a' ps b', st1)"
    by (subst post_rewriter.simps) (simp add: 1(1) hook_fun)
  then show ?thesis using e1(2) by (auto simp: MutateFunction_def)
qed

end

section \<open>Dead bindings\<close>

lemma reval_unused:
  "CountVarUses e x = 0 \<Longrightarrow> reval S (env(rv_addr x := w)) e = reval S env e"
proof (induction e arbitrary: env)
  case (RCall a op args ats)
  then have "map (reval S (env(rv_addr x := w))) args = map (reval S env) args"
    by (simp add: sum_list_eq_0_iff del: fun_upd_apply)
  then show ?case by (simp only: reval.simps)
next
  case (RTuple a fs)
  then have "map (reval S (env(rv_addr x := w))) fs = map (reval S env) fs"
    by (simp add: sum_list_eq_0_iff del: fun_upd_apply)
  then show ?case by (simp only: reval.simps)
next
  case (RLet a y v b)
  have "reval S ((env(rv_addr x := w))(rv_addr y \<mapsto> u)) b = reval S (env(rv_addr y \<mapsto> u)) b" for u
    using RLet.IH(2) [of "env(rv_addr y \<mapsto> u)"] RLet.prems
    by (cases "rv_addr x = rv_addr y") (simp_all add: fun_upd_twist del: fun_upd_apply)
  then show ?case using RLet.IH(1) RLet.prems by (simp del: fun_upd_apply)
next
  case (RVar v)
  then show ?case by (simp split: if_splits)
qed (simp_all del: fun_upd_apply cong: if_cong)

lemma dead_let_hook:
  "sound_hook S (EliminateDeadLetRewriter :: ('d, 's) rhook)"
proof
  fix e :: "'d rexpr" and st :: "'s RelayState_scheme"
  show "rle S e (fst (EliminateDeadLetRewriter e st))"
  proof (cases e)
    case (RLet a x v b)
    have "rle S e b" if "CountVarUses b x = 0"
      using that unfolding RLet by (auto intro!: rleI simp: op_name_of_def Option.bind_eq_Some_conv reval_unused)
    then show ?thesis using RLet by (simp add: EliminateDeadLetRewriter_def CopyVirtualDevice_eq)
  qed (simp_all add: EliminateDeadLetRewriter_def)
qed (simp_all add: EliminateDeadLetRewriter_def)

section \<open>Tuple projections\<close>

lemma oseq_nth: "oseq xs = Some vs \<Longrightarrow> i < length xs \<Longrightarrow> length vs = length xs \<and> xs ! i = Some (vs ! i)"
proof (induction xs arbitrary: vs i)
  case (Cons x xs)
  then obtain v ws where v: "x = Some v" "oseq xs = Some ws" "vs = v # ws"
    by (auto simp: Option.bind_eq_Some_conv)
  show ?case
  proof (cases i)
    case 0
    then show ?thesis using v Cons.IH [OF v(2), of 0] by (cases xs) auto
  next
    case (Suc j)
    then show ?thesis using v Cons.IH [OF v(2), of j] Cons.prems by simp
  qed
qed simp

lemma fold_tuple_hook:
  "sound_hook S (FoldTupleGetItemRewriter :: ('d, 's) rhook)"
proof
  fix e :: "'d rexpr" and st :: "'s RelayState_scheme"
  have fold: "rle S (RTupleGetItem a (RTuple b fs) i) (fs ! nat i)" if "0 \<le> i" "nat i < length fs" for a b fs i
    using that oseq_nth [of "map (reval S _) fs" _ "nat i"]
    by (intro rleI) (fastforce simp: op_name_of_def Option.bind_eq_Some_conv field_of_def split: if_splits)+
  show "rle S e (fst (FoldTupleGetItemRewriter e st))"
    using fold by (auto simp: FoldTupleGetItemRewriter_def CopyVirtualDevice_eq split: rexpr.split)
qed (simp_all add: FoldTupleGetItemRewriter_def)

section \<open>Repeated casts\<close>

text \<open>What the pass relies on: casting to a type twice is casting once.\<close>

definition cast_idempotent :: "('d, 't) rsem \<Rightarrow> bool" where
  "cast_idempotent S \<longleftrightarrow>
     (\<forall>t v w. op_val S ''cast'' (ACast t) [v] = Some w \<longrightarrow> op_val S ''cast'' (ACast t) [w] = Some w) \<and>
     (\<forall>t vs. op_val S ''cast'' (ACast t) vs \<noteq> None \<longrightarrow> length vs = 1)"

lemma GetCallOpName_call:
  "GetCallOpName (RCall a op args ats) = nm \<Longrightarrow> nm \<noteq> [] \<Longrightarrow> \<exists>b. op = ROp b nm"
  by (cases op) auto

lemma oseq_Cons: "oseq (x # xs) = Some vs \<longleftrightarrow> (\<exists>y ys. x = Some y \<and> oseq xs = Some ys \<and> vs = y # ys)"
  by (auto simp: Option.bind_eq_Some_conv)

lemma length_oseq: "oseq xs = Some vs \<Longrightarrow> length vs = length xs"
  by (induction xs arbitrary: vs) (auto simp: Option.bind_eq_Some_conv)

lemma double_cast_rle:
  assumes "cast_idempotent S"
  shows "rle S (RCall a (ROp b ''cast'') (RCall c (ROp d ''cast'') (x # ys) (ACast t) # zs) (ACast t))
           (RCall n (ROp b ''cast'') [x] (ACast t))"
proof (rule rleI)
  fix env v
  assume "reval S env (RCall a (ROp b ''cast'') (RCall c (ROp d ''cast'') (x # ys) (ACast t) # zs) (ACast t)) = Some v"
  then obtain vs ws w where 1: "oseq (map (reval S env) (x # ys)) = Some vs"
      "op_val S ''cast'' (ACast t) vs = Some w" "oseq (map (reval S env) zs) = Some ws"
      "op_val S ''cast'' (ACast t) (w # ws) = Some v"
    by (auto simp: Option.bind_eq_Some_conv)
  then have "length vs = 1" "length (w # ws) = 1"
    using assms unfolding cast_idempotent_def by blast+
  then obtain u where u: "vs = [u]" "ws = []" by (cases vs) auto
  then have "w = v" using 1 assms unfolding cast_idempotent_def by fastforce
  moreover have "reval S env x = Some u" using 1(1) u(1) by (auto simp: Option.bind_eq_Some_conv)
  ultimately show "reval S env (RCall n (ROp b ''cast'') [x] (ACast t)) = Some v"
    using 1(2) u by simp
qed (simp add: op_name_of_def)

lemma cast_to_Some: "cast_to ats = Some t \<longleftrightarrow> ats = ACast t"
  by (cases ats) (simp_all add: cast_to_def)

lemma first_call_arg_Some: "first_call_arg e = Some (x, ats) \<longleftrightarrow> (\<exists>a op ys. e = RCall a op (x # ys) ats)"
  by (auto simp: first_call_arg_def split: rexpr.splits list.splits)

lemma cast_hook:
  assumes "cast_idempotent S"
  shows "sound_hook S (CanonicalizeCastRewriter :: ('d, 's) rhook)"
proof
  fix e :: "'d rexpr" and st :: "'s RelayState_scheme"
  show "rle S e (fst (CanonicalizeCastRewriter e st))"
  proof (cases e)
    case (RCall a op args ats)
    then show ?thesis using double_cast_rle [OF assms]
      by (cases args) (auto simp: CanonicalizeCastRewriter_def replace_node_def CopyVirtualDevice_eq
          cast_to_Some first_call_arg_Some split_beta
          split: option.split dest!: GetCallOpName_call)
  qed (simp_all add: CanonicalizeCastRewriter_def)
qed (simp_all add: CanonicalizeCastRewriter_def)

end
