(* ===== verification/Relay_TypeProofs.thy ===== *)
theory Relay_TypeProofs
  imports Relay_Types "HOL-Library.Multiset"
begin

text \<open>
  The laws of Relay type inference: structural equality is equality, inference on shapes
  with unknown dimensions soundly approximates inference on any instance of them, and the
  shape arithmetic of the individual rules (broadcasting, axis normalisation, windows,
  reshape, transpose, split and concatenate) does what the operators need.
\<close>

section \<open>Equality and printing\<close>

lemma dims_equal_iff: "length xs = length ys \<Longrightarrow> dims_equal xs ys \<longleftrightarrow> xs = ys"
  by (induction xs ys rule: list_induct2) auto

lemma TypeEqual_eq:
  "TypeEqual a b \<longleftrightarrow> a = b"
  "length as = length bs \<Longrightarrow> TypesEqual as bs \<longleftrightarrow> as = bs"
  by (induction a b and as bs rule: TypeEqual_TypesEqual.induct)
     (auto simp: dims_equal_iff split: RType.splits)

section \<open>Results that approximate each other\<close>

text \<open>
  \<open>res_le R m n\<close>: when \<open>m\<close> returns, \<open>n\<close> returns a related value. A rule run on a less
  precise input may miss an error, and may not invent one.
\<close>

definition res_le :: "('a \<Rightarrow> 'b \<Rightarrow> bool) \<Rightarrow> 'e + 'a \<Rightarrow> 'e + 'b \<Rightarrow> bool" where
  "res_le R m n \<longleftrightarrow> (\<forall>t. m = Inr t \<longrightarrow> (\<exists>u. n = Inr u \<and> R t u))"

lemma res_le_Inl [intro, simp]: "res_le R (Inl e) n"
  by (simp add: res_le_def)

lemma res_le_Inr [intro]: "R t u \<Longrightarrow> res_le R (Inr t) (Inr u)"
  by (simp add: res_le_def)

lemma res_le_bind:
  assumes "res_le R m n" "\<And>a b. R a b \<Longrightarrow> res_le S (f a) (g b)"
  shows "res_le S (sbind m f) (sbind n g)"
  using assms by (cases m) (fastforce simp: res_le_def sbind_simps)+

lemma res_le_bind_same:
  assumes "\<And>a. m = Inr a \<Longrightarrow> res_le S (f a) (g a)"
  shows "res_le S (sbind m f) (sbind m g)"
  using assms by (cases m) auto

lemma res_le_require: "(c \<Longrightarrow> c') \<Longrightarrow> res_le (\<lambda>_ _. True) (require c e) (require c' e')"
  by (auto simp: res_le_def require_def)

lemma res_le_if_throw:
  assumes "c' \<Longrightarrow> c" "\<not> c \<Longrightarrow> res_le S x y"
  shows "res_le S (if c then Inl e else x) (if c' then Inl e' else y)"
  using assms by auto

lemma res_le_if_same:
  assumes "c \<Longrightarrow> res_le S x y" "\<not> c \<Longrightarrow> res_le S x' y'"
  shows "res_le S (if c then x else x') (if c then y else y')"
  using assms by auto

lemma res_le_smap:
  assumes "list_all2 (\<lambda>x y. res_le R (f x) (g y)) xs ys"
  shows "res_le (list_all2 R) (smap f xs) (smap g ys)"
  using assms
  by (induction rule: list_all2_induct) (auto intro!: res_le_bind res_le_Inr)

lemma res_le_sfold:
  assumes "list_all2 P xs ys" "Q s t"
    and "\<And>x y s t. P x y \<Longrightarrow> Q s t \<Longrightarrow> res_le Q (f x s) (g y t)"
  shows "res_le Q (sfold f xs s) (sfold g ys t)"
  using assms(1,2)
proof (induction arbitrary: s t rule: list_all2_induct)
  case (Cons x xs y ys)
  show ?case using Cons assms(3) [OF Cons.hyps(1) Cons.prems] by (auto intro: res_le_bind)
qed (auto intro: res_le_Inr)

section \<open>Shapes with unknown dimensions\<close>

text \<open>
  \<open>dim_le c a\<close>: the dimension \<open>a\<close> says no more than \<open>c\<close>, because it is unknown or the
  same. \<open>ty_le\<close> lifts this to types: an instance of a type fixes some of its unknown
  dimensions.
\<close>

definition dim_le :: "int \<Rightarrow> int \<Rightarrow> bool" where
  "dim_le c a \<longleftrightarrow> a < 0 \<or> c = a"

abbreviation dims_le :: "int list \<Rightarrow> int list \<Rightarrow> bool" where
  "dims_le \<equiv> list_all2 dim_le"

inductive ty_le :: "RType \<Rightarrow> RType \<Rightarrow> bool" where
  undef_le: "ty_le UndefinedType UndefinedType"
| tensor_le: "dims_le s s' \<Longrightarrow> ty_le (TensorType s d) (TensorType s' d)"
| tuple_le: "list_all2 ty_le fs fs' \<Longrightarrow> ty_le (TupleType fs) (TupleType fs')"

inductive_simps ty_le_tensor [simp]: "ty_le (TensorType s d) u"
inductive_simps ty_le_tuple [simp]: "ty_le (TupleType fs) u"
inductive_simps ty_le_undef [simp]: "ty_le UndefinedType u"

lemma dim_le_refl [simp, intro]: "dim_le c c"
  and dim_le_unknown [intro]: "a < 0 \<Longrightarrow> dim_le c a"
  by (simp_all add: dim_le_def)

lemma dims_le_refl [simp, intro]: "dims_le s s"
  by (simp add: list_all2_same)

lemma dim_le_known: "dim_le c a \<Longrightarrow> IsKnown a \<Longrightarrow> c = a"
  by (auto simp: dim_le_def IsKnown_def)

lemma dims_le_length: "dims_le s t \<Longrightarrow> length s = length t"
  by (rule list_all2_lengthD)

lemma dims_le_nth: "dims_le s t \<Longrightarrow> i < length s \<Longrightarrow> dim_le (s ! i) (t ! i)"
  by (rule list_all2_nthD)

lemma tys_le_nth: "list_all2 ty_le ts us \<Longrightarrow> i < length ts \<Longrightarrow> ty_le (ts ! i) (us ! i)"
  by (rule list_all2_nthD)

lemma SameOrUnknown_le:
  "dim_le a a' \<Longrightarrow> dim_le b b' \<Longrightarrow> SameOrUnknown a b \<Longrightarrow> SameOrUnknown a' b'"
  by (auto simp: SameOrUnknown_def IsKnown_def dim_le_def)

lemma RequireTensor_le:
  "ty_le t u \<Longrightarrow> res_le (\<lambda>(s, d) (s', d'). dims_le s s' \<and> d = d')
     (RequireTensor op t n) (RequireTensor op u n)"
  by (cases t) (auto intro: res_le_Inr)

lemma RequireArity_le:
  "list_all2 R ts us \<Longrightarrow>
     res_le (\<lambda>_ _. length ts = n \<and> length us = n) (RequireArity op ts n) (RequireArity op us n)"
  by (auto simp: res_le_def RequireArity_def sbind_simps dest: list_all2_lengthD)

lemma RequireSameDType_le:
  "res_le (\<lambda>_ _. d = e) (RequireSameDType op d e) (RequireSameDType op d e)"
  by (auto simp: res_le_def RequireSameDType_def sbind_simps)

lemma broadcast_dim_le:
  assumes "dim_le a a'" "dim_le b b'" "broadcast_dim a b = Some c"
  shows "\<exists>c'. broadcast_dim a' b' = Some c' \<and> dim_le c c'"
proof (cases "a' < 0 \<or> b' < 0")
  case True
  then show ?thesis by (auto simp: broadcast_dim_def IsKnown_def dim_le_def)
next
  case False
  then show ?thesis using assms by (auto simp: dim_le_def)
qed

lemma dim_at_le:
  assumes "dims_le s s'" "i < rank" shows "dim_le (dim_at s rank i) (dim_at s' rank i)"
  using assms dims_le_length [OF assms(1)] dims_le_nth [OF assms(1)]
  by (auto simp: dim_at_def Let_def)

lemma BroadcastShape_le:
  assumes "dims_le l l'" "dims_le r r'"
  shows "res_le dims_le (BroadcastShape op l r) (BroadcastShape op l' r')"
proof -
  have len: "length l' = length l" "length r' = length r"
    using assms by (auto dest: dims_le_length)
  show ?thesis unfolding BroadcastShape_def Let_def len
  proof (rule res_le_smap, rule list_all2_all_nthI)
    fix i assume i: "i < length [0..<max (length l) (length r)]"
    let ?k = "max (length l) (length r)"
    have le: "dim_le (dim_at l ?k i) (dim_at l' ?k i)" "dim_le (dim_at r ?k i) (dim_at r' ?k i)"
      using i assms by (auto intro: dim_at_le)
    show "res_le dim_le
       (case broadcast_dim (dim_at l ?k ([0..<?k] ! i)) (dim_at r ?k ([0..<?k] ! i)) of
          Some d \<Rightarrow> Inr d
        | None \<Rightarrow> throw (op @ '' cannot broadcast shapes '' @
                          TypeToString (TensorType l ''shape'') @ '' and '' @
                          TypeToString (TensorType r ''shape'')))
       (case broadcast_dim (dim_at l' ?k ([0..<?k] ! i)) (dim_at r' ?k ([0..<?k] ! i)) of
          Some d \<Rightarrow> Inr d
        | None \<Rightarrow> throw (op @ '' cannot broadcast shapes '' @
                          TypeToString (TensorType l' ''shape'') @ '' and '' @
                          TypeToString (TensorType r' ''shape'')))"
      using i broadcast_dim_le [OF le]
      by (cases "broadcast_dim (dim_at l ?k i) (dim_at r ?k i)") (auto simp: res_le_def)
  qed simp
qed

lemma WindowOutputDim_le:
  assumes "dim_le i i'" "dim_le k k'"
  shows "res_le dim_le (WindowOutputDim op i k pb pa st dl cm) (WindowOutputDim op i' k' pb pa st dl cm)"
proof (cases "IsKnown i' \<and> IsKnown k'")
  case True
  then have "i = i'" "k = k'" using assms by (auto dest: dim_le_known)
  then show ?thesis by (auto simp: res_le_def)
next
  case False
  then show ?thesis by (auto simp: res_le_def WindowOutputDim_def)
qed

lemma known_product_loop_known:
  "list_all IsKnown s \<Longrightarrow> dims_le s' s \<Longrightarrow> s' = s"
  by (rotate_tac 1, induction rule: list_all2_induct) (auto dest: dim_le_known)

lemma known_product_loop_unknown: "\<not> list_all IsKnown s \<Longrightarrow> known_product_loop s p = -1"
  by (induction s arbitrary: p) auto

lemma known_product_le: "dims_le s s' \<Longrightarrow> dim_le (known_product_loop s p) (known_product_loop s' p)"
  using known_product_loop_known known_product_loop_unknown [of s' p]
  by (cases "list_all IsKnown s'") (auto simp: dim_le_def)

lemma KnownProduct_le: "dims_le s s' \<Longrightarrow> dim_le (KnownProduct s b e) (KnownProduct s' b e)"
  unfolding KnownProduct_def by (intro known_product_le list_all2_dropI list_all2_takeI)

text \<open>An accepted axis is a position of the shape; the end is allowed where asked for.\<close>

lemma NormalizeAxis_Inr_iff:
  "NormalizeAxis op axis rank e = Inr r \<longleftrightarrow>
     r = (if axis < 0 then axis + rank else axis) \<and> 0 \<le> r \<and> r \<le> (if e then rank else rank - 1)"
  by (auto simp: NormalizeAxis_def Let_def)

lemma NormalizeAxis_le:
  "length s = length s' \<Longrightarrow>
     res_le (\<lambda>a b. a = b \<and> 0 \<le> a \<and> a \<le> (if e then int (length s) else int (length s) - 1))
       (NormalizeAxis op axis (int (length s)) e) (NormalizeAxis op axis (int (length s')) e)"
  by (auto simp: res_le_def NormalizeAxis_Inr_iff)

section \<open>The contract of an inference rule\<close>

text \<open>
  What the inference pass relies on when it calls the rule of an operator with inputs
  whose dimensions are partly unknown: on an instance of the inputs the rule either
  rejects the call or gives an instance of the type it gave before.
\<close>

locale infer_rule =
  fixes rule :: "Attrs \<Rightarrow> RType list \<Rightarrow> RType res"
  assumes monotone: "list_all2 ty_le ts us \<Longrightarrow> res_le ty_le (rule attrs ts) (rule attrs us)"
begin

lemma sound:
  "list_all2 ty_le ts us \<Longrightarrow> rule attrs ts = Inr t \<Longrightarrow> \<exists>u. rule attrs us = Inr u \<and> ty_le t u"
  using monotone by (auto simp: res_le_def)

lemma no_false_alarm:
  "list_all2 ty_le ts us \<Longrightarrow> rule attrs us = Inl e \<Longrightarrow> \<exists>e'. rule attrs ts = Inl e'"
  using sound by (cases "rule attrs ts") fastforce+

end

lemmas rule_le_intros =
  res_le_bind [OF RequireArity_le] res_le_bind [OF RequireTensor_le]
  res_le_bind [OF RequireSameDType_le] res_le_bind [OF BroadcastShape_le]
  res_le_bind [OF NormalizeAxis_le]

lemma BinaryBroadcast_le:
  assumes "list_all2 ty_le ts us"
  shows "res_le ty_le (BinaryBroadcastInferType op ts d) (BinaryBroadcastInferType op us d)"
  unfolding BinaryBroadcastInferType_def MakeTensorType_def
  using assms
  by (auto intro!: rule_le_intros res_le_Inr tys_le_nth)

interpretation identity_rule: infer_rule IdentityInferType
  unfolding IdentityInferType_def
  by unfold_locales (auto intro!: rule_le_intros res_le_Inr tys_le_nth)

interpretation add_rule: infer_rule AddInferType
  by unfold_locales (simp add: AddInferType_def BinaryBroadcast_le)

interpretation subtract_rule: infer_rule SubtractInferType
  by unfold_locales (simp add: SubtractInferType_def BinaryBroadcast_le)

interpretation multiply_rule: infer_rule MultiplyInferType
  by unfold_locales (simp add: MultiplyInferType_def BinaryBroadcast_le)

interpretation divide_rule: infer_rule DivideInferType
  by unfold_locales (simp add: DivideInferType_def BinaryBroadcast_le)

interpretation pow_rule: infer_rule PowInferType
  by unfold_locales (simp add: PowInferType_def BinaryBroadcast_le)

interpretation equal_rule: infer_rule EqualInferType
  by unfold_locales (simp add: EqualInferType_def BinaryBroadcast_le)

interpretation greater_rule: infer_rule GreaterInferType
  by unfold_locales (simp add: GreaterInferType_def BinaryBroadcast_le)

interpretation unary_rule: infer_rule UnarySameInferType
  unfolding UnarySameInferType_def
  by unfold_locales (auto intro!: rule_le_intros res_le_Inr tys_le_nth)

interpretation cast_rule: infer_rule CastInferType
  unfolding CastInferType_def MakeTensorType_def
  by unfold_locales
     (auto intro!: rule_le_intros res_le_bind_same res_le_Inr tys_le_nth)

lemmas rank_simps = numeral_eq_Suc length_Suc_conv list_all2_Cons1

interpretation matmul_rule: infer_rule MatMulInferType
proof
  fix ts us attrs assume "list_all2 ty_le ts us"
  then show "res_le ty_le (MatMulInferType attrs ts) (MatMulInferType attrs us)"
    unfolding MatMulInferType_def MakeTensorType_def Let_def
    by (auto intro!: rule_le_intros tys_le_nth split del: if_split)
       (rule res_le_if_throw, simp add: dims_le_length,
        clarsimp simp: rank_simps split del: if_split,
        auto intro!: res_le_Inr simp: SameOrUnknown_le)
qed

interpretation where_rule: infer_rule WhereInferType
  unfolding WhereInferType_def MakeTensorType_def
  by unfold_locales
     (auto intro!: rule_le_intros res_le_if_throw res_le_Inr tys_le_nth)

interpretation shape_rule: infer_rule ShapeInferType
  unfolding ShapeInferType_def MakeTensorType_def
  by unfold_locales
     (auto intro!: rule_le_intros res_le_Inr tys_le_nth
       dest: dims_le_length)

interpretation dense_rule: infer_rule DenseInferType
proof
  fix ts us attrs assume "list_all2 ty_le ts us"
  then show "res_le ty_le (DenseInferType attrs ts) (DenseInferType attrs us)"
    unfolding DenseInferType_def MakeTensorType_def Let_def
    by (auto intro!: rule_le_intros tys_le_nth split del: if_split)
       (rule res_le_if_throw, simp add: dims_le_length,
        clarsimp simp: rank_simps split del: if_split,
        auto intro!: res_le_Inr simp: SameOrUnknown_le split: Attrs.splits)
qed

interpretation gemm_rule: infer_rule GemmInferType
proof
  fix ts us attrs assume "list_all2 ty_le ts us"
  then show "res_le ty_le (GemmInferType attrs ts) (GemmInferType attrs us)"
    unfolding GemmInferType_def MakeTensorType_def Let_def
    by (auto intro!: rule_le_intros tys_le_nth split del: if_split)
       (rule res_le_if_throw, simp add: dims_le_length,
        clarsimp simp: rank_simps split del: if_split,
        rule res_le_if_throw, auto intro!: res_le_Inr rule_le_intros simp: SameOrUnknown_le)
qed

interpretation global_pool_rule: infer_rule GlobalAvgPool2DInferType
proof
  fix ts us attrs assume "list_all2 ty_le ts us"
  then show "res_le ty_le (GlobalAvgPool2DInferType attrs ts) (GlobalAvgPool2DInferType attrs us)"
    unfolding GlobalAvgPool2DInferType_def MakeTensorType_def
    by (auto intro!: rule_le_intros tys_le_nth split del: if_split)
       (rule res_le_if_throw, simp add: dims_le_length, auto intro!: res_le_Inr dims_le_nth)
qed

interpretation flatten_rule: infer_rule FlattenInferType
proof
  fix ts us attrs assume "list_all2 ty_le ts us"
  then show "res_le ty_le (FlattenInferType attrs ts) (FlattenInferType attrs us)"
    unfolding FlattenInferType_def MakeTensorType_def
    by (auto intro!: rule_le_intros tys_le_nth split del: if_split)
       (rule res_le_if_throw,
        auto intro!: rule_le_intros res_le_Inr simp: dims_le_length KnownProduct_le)
qed

interpretation gather_rule: infer_rule GatherInferType
proof
  fix ts us attrs assume "list_all2 ty_le ts us"
  then show "res_le ty_le (GatherInferType attrs ts) (GatherInferType attrs us)"
    unfolding GatherInferType_def MakeTensorType_def
    by (auto intro!: rule_le_intros tys_le_nth res_le_if_throw res_le_Inr
          simp: dims_le_length list_all2_appendI list_all2_takeI list_all2_dropI)
qed

interpretation softmax_rule: infer_rule SoftmaxInferType
proof
  fix ts us attrs assume "list_all2 ty_le ts us"
  then show "res_le ty_le (SoftmaxInferType attrs ts) (SoftmaxInferType attrs us)"
    unfolding SoftmaxInferType_def
    by (auto intro!: rule_le_intros tys_le_nth res_le_Inr simp: dims_le_length)
qed

interpretation pool_rule: infer_rule Pool2DInferType
proof
  fix ts us attrs assume "list_all2 ty_le ts us"
  then show "res_le ty_le (Pool2DInferType attrs ts) (Pool2DInferType attrs us)"
    unfolding Pool2DInferType_def MakeTensorType_def Let_def
    by (auto intro!: rule_le_intros tys_le_nth split del: if_split)
       (rule res_le_if_throw, simp add: dims_le_length,
        auto intro!: res_le_Inr res_le_bind_same res_le_bind [OF WindowOutputDim_le] dims_le_nth
          split: prod.splits)
qed

text \<open>The kernel extents of a convolution come from the attributes or from the weight.\<close>

lemma conv_window_le:
  assumes "dims_le w w'" "length w = 4"
  shows "res_le (\<lambda>(s, d, p, kh, kw) (s', d', p', kh', kw').
            s = s' \<and> d = d' \<and> p = p' \<and> dim_le kh kh' \<and> dim_le kw kw')
          (conv_window c w) (conv_window c w')"
  using assms unfolding conv_window_def
  by (auto intro!: res_le_bind_same res_le_Inr dims_le_nth simp: ReadVectorValue_def
      split: option.splits)

lemma check_conv_bias_le:
  assumes "list_all2 ty_le ts us" "dim_le ch ch'"
  shows "res_le (\<lambda>_ _. True) (check_conv_bias ts d ch) (check_conv_bias us d ch')"
  using assms list_all2_lengthD [OF assms(1)]
  unfolding check_conv_bias_def
  by (auto intro!: rule_le_intros tys_le_nth res_le_require res_le_Inr simp: dims_le_length
      intro: SameOrUnknown_le dims_le_nth)

lemma conv_channels_le:
  assumes "IsKnown (d' ! 1) \<and> IsKnown (w' ! 1) \<and> d' ! 1 \<noteq> i64 (w' ! 1 * g)"
    "dims_le d d'" "dims_le w w'" "length d = 4" "length w = 4"
  shows "IsKnown (d ! 1) \<and> IsKnown (w ! 1) \<and> d ! 1 \<noteq> i64 (w ! 1 * g)"
  using assms dim_le_known [OF dims_le_nth [OF assms(2), of 1]]
    dim_le_known [OF dims_le_nth [OF assms(3), of 1]] by simp

lemma conv_kernel_le:
  assumes "SameOrUnknown k' (w' ! 2) \<longrightarrow> \<not> SameOrUnknown l' (w' ! 3)"
    "dim_le k k'" "dim_le l l'" "dims_le w w'" "length w = 4"
  shows "SameOrUnknown k (w ! 2) \<longrightarrow> \<not> SameOrUnknown l (w ! 3)"
  using assms SameOrUnknown_le [of k k' "w ! 2" "w' ! 2"] SameOrUnknown_le [of l l' "w ! 3" "w' ! 3"]
    dims_le_nth [of w w' 2] dims_le_nth [of w w' 3] by auto

interpretation conv_rule: infer_rule Conv2DInferType
proof
  fix ts us attrs assume le: "list_all2 ty_le ts us"
  then have len: "length us = length ts" by (simp add: list_all2_lengthD)
  show "res_le ty_le (Conv2DInferType attrs ts) (Conv2DInferType attrs us)"
  proof (cases "length ts = 2 \<or> length ts = 3")
    case False
    then show ?thesis by (simp add: Conv2DInferType_def)
  next
    case True
    then have nth: "ty_le (ts ! 0) (us ! 0)" "ty_le (ts ! 1) (us ! 1)" and
      no: "(length ts \<noteq> 2 \<and> length ts \<noteq> 3) = False"
      using le by (auto intro: tys_le_nth)
    show ?thesis
      unfolding Conv2DInferType_def MakeTensorType_def Let_def len no if_False
      apply (rule rule_le_intros, rule nth, clarsimp split del: if_split)
      apply (rule rule_le_intros, rule nth [unfolded One_nat_def], clarsimp split del: if_split)
      apply (rule rule_le_intros)
      apply (rule res_le_if_throw, simp add: dims_le_length)
      apply (intro res_le_bind_same res_le_if_throw)
       apply (erule conv_channels_le; simp)
      apply (rule res_le_bind [OF conv_window_le], assumption, simp)
      apply (clarsimp split del: if_split)
      apply (rule res_le_if_throw)
       apply (erule conv_kernel_le; simp)
      apply (rule res_le_bind [OF check_conv_bias_le [OF le]])
       apply (auto intro!: dims_le_nth split: Attrs.splits)[1]
      apply (intro res_le_bind [OF WindowOutputDim_le] res_le_Inr)
          apply (auto intro!: dims_le_nth split: Attrs.splits)
      done
  qed
qed

lemma reduce_dims_le:
  assumes "dims_le s s'"
  shows "dims_le (concat (map (\<lambda>(r, d). if r then (if k then [1] else []) else [d]) (zip rs s)))
                 (concat (map (\<lambda>(r, d). if r then (if k then [1] else []) else [d]) (zip rs s')))"
  using assms
proof (induction arbitrary: rs rule: list_all2_induct)
  case (Cons x xs y ys)
  then show ?case by (cases rs; cases k) (auto intro: list_all2_appendI)
qed simp

interpretation reduce_mean_rule: infer_rule ReduceMeanInferType
proof
  fix ts us attrs assume "list_all2 ty_le ts us"
  then show "res_le ty_le (ReduceMeanInferType attrs ts) (ReduceMeanInferType attrs us)"
    unfolding ReduceMeanInferType_def MakeTensorType_def Let_def
    by (auto intro!: rule_le_intros tys_le_nth res_le_Inr res_le_bind_same reduce_dims_le
          simp: dims_le_length split del: if_split)
qed

lemma transpose_step_le:
  assumes "dims_le s s'" "fst a = fst b \<and> dims_le (snd a) (snd b)"
  shows "res_le (\<lambda>a b. fst a = fst b \<and> dims_le (snd a) (snd b))
          (transpose_step s x a) (transpose_step s' x b)"
  using assms unfolding transpose_step_def
  by (auto intro!: rule_le_intros res_le_Inr list_all2_appendI dims_le_nth
      simp: dims_le_length nat_less_iff split: prod.splits)

interpretation transpose_rule: infer_rule TransposeInferType
proof
  fix ts us attrs assume "list_all2 ty_le ts us"
  then show "res_le ty_le (TransposeInferType attrs ts) (TransposeInferType attrs us)"
    unfolding TransposeInferType_def MakeTensorType_def Let_def
    by (auto intro!: rule_le_intros tys_le_nth res_le_if_throw res_le_Inr
          res_le_bind [OF res_le_sfold [where P = "(=)"
             and Q = "\<lambda>a b. fst a = fst b \<and> dims_le (snd a) (snd b)"]] transpose_step_le
          simp: dims_le_length list_all2_same split del: if_split cong: if_cong)
qed

lemma split_step_le:
  assumes "dims_le s s'" "ax < length s" "list_all2 ty_le (fst a) (fst b) \<and> snd a = snd b"
  shows "res_le (\<lambda>a b. list_all2 ty_le (fst a) (fst b) \<and> snd a = snd b)
          (split_step s d ax x a) (split_step s' d ax x b)"
  using assms dims_le_nth [OF assms(1,2)] unfolding split_step_def MakeTensorType_def
  by (auto intro!: res_le_Inr list_all2_appendI list_all2_update_cong simp: Let_def dim_le_def
      IsKnown_def split: prod.splits)

lemma known_update_le:
  assumes "dims_le s s'" "i < length s'"
  shows "dims_le (s[i := if IsKnown (s ! i) then f (s ! i) else -1])
                 (s'[i := if IsKnown (s' ! i) then f (s' ! i) else -1])"
  using assms dims_le_nth [OF assms(1), of i] dims_le_length [OF assms(1)]
  by (intro list_all2_update_cong) (auto simp: dim_le_def IsKnown_def)

lemma split_sections_le:
  assumes "dims_le s s'" "i < length s'"
  shows "res_le ty_le
     (if IsKnown (s ! i) \<and> s ! i mod k \<noteq> 0 then Inl e
      else Inr (TupleType (replicate n
        (TensorType (s[i := if IsKnown (s ! i) then s ! i div k else -1]) d))))
     (if IsKnown (s' ! i) \<and> s' ! i mod k \<noteq> 0 then Inl e
      else Inr (TupleType (replicate n
        (TensorType (s'[i := if IsKnown (s' ! i) then s' ! i div k else -1]) d))))"
proof (rule res_le_if_throw)
  show "IsKnown (s' ! i) \<and> s' ! i mod k \<noteq> 0 \<Longrightarrow> IsKnown (s ! i) \<and> s ! i mod k \<noteq> 0"
    using assms dims_le_nth [OF assms(1), of i] dims_le_length [OF assms(1)]
    by (auto simp: dim_le_def IsKnown_def)
  show "res_le ty_le (Inr (TupleType (replicate n
        (TensorType (s[i := if IsKnown (s ! i) then s ! i div k else -1]) d))))
     (Inr (TupleType (replicate n
        (TensorType (s'[i := if IsKnown (s' ! i) then s' ! i div k else -1]) d))))"
    using known_update_le [OF assms, of "\<lambda>x. x div k"]
    by (auto intro!: res_le_Inr simp: list_all2_conv_all_nth)
qed

interpretation split_rule: infer_rule SplitInferType
proof
  fix ts us attrs assume le: "list_all2 ty_le ts us"
  show "res_le ty_le (SplitInferType attrs ts) (SplitInferType attrs us)"
  proof (cases attrs)
    case (ASplit points axis)
    show ?thesis unfolding SplitInferType_def MakeTensorType_def Let_def ASplit
      using le
      by (auto intro!: rule_le_intros tys_le_nth res_le_if_throw
            simp: dims_le_length split del: if_split)
         (intro res_le_if_same split_sections_le,
          auto intro!: res_le_Inr known_update_le list_all2_appendI
            res_le_bind [OF res_le_sfold [where P = "(=)"
              and Q = "\<lambda>a b. list_all2 ty_le (fst a) (fst b) \<and> snd a = snd b"]] split_step_le
            simp: list_all2_same nat_less_iff dims_le_length split del: if_split)
  qed (use le in \<open>auto simp: SplitInferType_def intro!: rule_le_intros tys_le_nth\<close>)
qed

text \<open>Concatenation: positions and fields advance together.\<close>

lemma enumerate_le:
  "list_all2 R xs ys \<Longrightarrow>
     list_all2 (\<lambda>a b. fst a = fst b \<and> R (snd a) (snd b)) (enumerate n xs) (enumerate n ys)"
  by (auto simp: enumerate_eq_zip list_all2_conv_all_nth)

lemma concat_dim_le:
  "dim_le o1 o2 \<Longrightarrow> dim_le c1 c2 \<Longrightarrow>
     res_le dim_le (concat_dim ax (i, o1, c1)) (concat_dim ax (i, o2, c2))"
  by (auto simp: concat_dim_def res_le_def dim_le_def IsKnown_def SameOrUnknown_def)

lemma concat_step_le:
  assumes "fst a = fst b \<and> ty_le (snd a) (snd b)" "dims_le out out'"
  shows "res_le dims_le (concat_step rank ax d a out) (concat_step rank ax d b out')"
proof -
  have "list_all2 (\<lambda>x y. res_le dim_le (concat_dim ax x) (concat_dim ax y))
      (enumerate 0 (zip out cur)) (enumerate 0 (zip out' cur'))"
    if "dims_le cur cur'" for cur cur'
    using that assms(2) by (auto simp: enumerate_eq_zip list_all2_conv_all_nth intro!: concat_dim_le)
  then show ?thesis using assms unfolding concat_step_def
    by (auto intro!: rule_le_intros res_le_if_throw res_le_smap simp: dims_le_length
        split: prod.splits)
qed

interpretation concat_rule: infer_rule ConcatenateInferType
proof
  fix ts us attrs assume le: "list_all2 ty_le ts us"
  show "res_le ty_le (ConcatenateInferType attrs ts) (ConcatenateInferType attrs us)"
    unfolding ConcatenateInferType_def MakeTensorType_def
  proof (rule res_le_bind [OF RequireArity_le [OF le]], goal_cases)
    case 1
    then have nth: "ty_le (ts ! 0) (us ! 0)" using le by (auto intro: tys_le_nth)
    then show ?case
      by (cases "ts ! 0")
         (auto intro!: rule_le_intros res_le_Inr res_le_bind [OF res_le_sfold [where Q = dims_le, OF enumerate_le]]
            concat_step_le simp: dims_le_length list_all2_Cons1 split: list.splits)
  qed
qed

text \<open>
  Reshape: when a dimension of the input is unknown the element count is not compared, and
  the inferred dimension stays unknown.
\<close>

definition reshape_rel :: "reshape_state \<Rightarrow> reshape_state \<Rightarrow> bool" where
  "reshape_rel = (\<lambda>(out, i, p) (out', i', p'). dims_le out out' \<and> i = i' \<and>
     (0 \<le> i \<longrightarrow> nat i < length out \<and> out' ! nat i = -1))"

lemma reshape_rel_start: "reshape_rel ([], -1, p) ([], -1, p)"
  by (simp add: reshape_rel_def)

lemma reshape_rel_snoc:
  assumes "reshape_rel (out, i, p) (out', i, p')" "dim_le v v'"
  shows "reshape_rel (out @ [v], i, q) (out' @ [v'], i, q')"
  using assms dims_le_length [of out out']
  by (auto simp: reshape_rel_def nth_append intro!: list_all2_appendI)

lemma reshape_step_le:
  assumes s: "dims_le s s'" and ab: "reshape_rel a b"
  shows "res_le reshape_rel (reshape_step z s x a) (reshape_step z s' x b)"
proof -
  obtain n d where x: "x = (n, d)" by (cases x)
  obtain out i k out' k' where abs: "a = (out, i, k)" "b = (out', i, k')"
    using ab by (cases a; cases b) (auto simp: reshape_rel_def)
  have snoc: "dim_le v v' \<Longrightarrow> reshape_rel (out @ [v], i, q) (out' @ [v'], i, q')" for v v' q q'
    using ab abs reshape_rel_snoc by simp
  have infer: "reshape_rel (out @ [-1], int (length out), q) (out' @ [-1], int (length out'), q')" for q q'
    using ab abs dims_le_length [of out out'] by (auto simp: reshape_rel_def intro!: list_all2_appendI)
  show ?thesis
    unfolding reshape_step_def x abs prod.case dims_le_length [OF s]
    by (intro res_le_if_same res_le_Inr res_le_Inl snoc infer dim_le_refl dims_le_nth [OF s])
       (simp add: dims_le_length [OF s])
qed

lemma reshape_finish_le:
  assumes "reshape_rel a b"
  shows "res_le dims_le (reshape_finish p a) (reshape_finish (-1) b)"
proof -
  obtain out i k out' k' where ab: "a = (out, i, k)" "b = (out', i, k')"
    using assms by (cases a; cases b) (auto simp: reshape_rel_def)
  have le: "dims_le out out'" and u: "0 \<le> i \<longrightarrow> nat i < length out \<and> out' ! nat i = -1"
    using assms ab by (auto simp: reshape_rel_def)
  have upd: "dims_le (out[nat i := v]) out'" if "0 \<le> i" for v
  proof (rule list_all2_all_nthI)
    fix j assume "j < length (out[nat i := v])"
    then show "dim_le (out[nat i := v] ! j) (out' ! j)"
      using that u dims_le_nth [OF le, of j] by (cases "j = nat i") auto
  qed (simp add: dims_le_length [OF le])
  show ?thesis using le upd by (auto simp: ab reshape_finish_def intro!: res_le_Inr)
qed

interpretation reshape_rule: infer_rule ReshapeInferType
proof
  fix ts us attrs assume le: "list_all2 ty_le ts us"
  have core: "res_le ty_le
     (sbind (sfold (reshape_step z s) xs ([], -1, 1)) (\<lambda>st.
      sbind (reshape_finish (KnownProduct s 0 (length s)) st) (\<lambda>out. Inr (TensorType out d))))
     (sbind (sfold (reshape_step z s') xs ([], -1, 1)) (\<lambda>st.
      sbind (reshape_finish (KnownProduct s' 0 (length s')) st) (\<lambda>out. Inr (TensorType out d))))"
    if s: "dims_le s s'" for s s' z xs d
  proof (cases "list_all IsKnown s'")
    case True
    then show ?thesis using known_product_loop_known [OF True s] by (auto simp: res_le_def sbind_simps)
  next
    case False
    then have p: "KnownProduct s' 0 (length s') = -1"
      by (simp add: KnownProduct_def known_product_loop_unknown)
    show ?thesis unfolding p
      by (intro res_le_bind [OF res_le_sfold [where P = "(=)" and Q = reshape_rel]]
            res_le_bind [OF reshape_finish_le])
         (auto intro: reshape_step_le [OF s] simp: list_all2_same reshape_rel_start)
  qed
  show "res_le ty_le (ReshapeInferType attrs ts) (ReshapeInferType attrs us)"
    unfolding ReshapeInferType_def MakeTensorType_def Let_def
    by (rule res_le_if_throw, simp add: le [THEN list_all2_lengthD],
        rule rule_le_intros, rule tys_le_nth [OF le], force)
       (auto split: Attrs.splits intro: core)
qed

end
