(* ===== verification/Relay_TypeLaws.thy ===== *)
theory Relay_TypeLaws
  imports Relay_TypeProofs
begin

text \<open>
  Properties of Relay type inference: soundness of every registered rule on partly unknown
  shapes, the algebra of broadcasting, and the shape laws of reshape, transpose, windows,
  split and concatenate, and reductions.
\<close>

section \<open>Every registered rule\<close>

text \<open>
C12. For every operator with a registered inference rule: if the rule accepts input types and
returns a type, then on any less precise version of the inputs (some dimensions unknown) the
rule is accepted too, and the concrete result is an instance of the type it infers there.
Inference on dynamic shapes never rejects a call that is well typed for some shapes and never
claims a dimension that a run could contradict.
\<close>

theorem registered_rules_sound:
  assumes "(op, rule) \<in> set FInferTypeRegistry" "list_all2 ty_le ts us" "rule attrs ts = Inr t"
  shows "\<exists>u. rule attrs us = Inr u \<and> ty_le t u"
proof -
  have "infer_rule rule"
    using assms(1) unfolding FInferTypeRegistry_def
    by (auto intro: dense_rule.infer_rule_axioms gemm_rule.infer_rule_axioms
        conv_rule.infer_rule_axioms softmax_rule.infer_rule_axioms unary_rule.infer_rule_axioms
        pool_rule.infer_rule_axioms global_pool_rule.infer_rule_axioms add_rule.infer_rule_axioms
        subtract_rule.infer_rule_axioms multiply_rule.infer_rule_axioms
        divide_rule.infer_rule_axioms matmul_rule.infer_rule_axioms flatten_rule.infer_rule_axioms
        reshape_rule.infer_rule_axioms transpose_rule.infer_rule_axioms cast_rule.infer_rule_axioms
        reduce_mean_rule.infer_rule_axioms)
  then show ?thesis using infer_rule.sound assms(2,3) by blast
qed

theorem registered_rules_sound_witness:
  "\<exists>u. MatMulInferType OtherAttrs
      [TensorType [-1, 8] ''float32'', TensorType [8, -1] ''float32''] = Inr u \<and>
      ty_le (TensorType [2, 4] ''float32'') u"
  by (rule registered_rules_sound [of "''matmul''" MatMulInferType
        "[TensorType [2, 8] ''float32'', TensorType [8, 4] ''float32'']"])
     (simp_all add: FInferTypeRegistry_def dim_le_def MatMulInferType_def RequireArity_def
        RequireSameDType_def SameOrUnknown_def IsKnown_def MakeTensorType_def)

text \<open>
The type comparison the passes use decides structural equality: two types compare equal
exactly when they are both undefined, tensors of the same shape and dtype, or tuples of pairwise
equal fields.
\<close>

lemma type_equal_iff: "TypeEqual lhs rhs \<longleftrightarrow> lhs = rhs"
  by (rule TypeEqual_eq)

section \<open>Broadcasting\<close>

text \<open>The dimension at distance \<open>j\<close> from the end of a shape, 1 beyond its start.\<close>

definition dim_back :: "int list \<Rightarrow> nat \<Rightarrow> int" where
  "dim_back s j = (if j < length s then s ! (length s - 1 - j) else 1)"

lemma dim_at_back: "length s \<le> rank \<Longrightarrow> i < rank \<Longrightarrow> dim_at s rank i = dim_back s (rank - 1 - i)"
  by (auto simp: dim_at_def dim_back_def Let_def intro!: arg_cong [of _ _ "(!) s"])

lemma dim_back_nth: "i < length s \<Longrightarrow> dim_back s (length s - 1 - i) = s ! i"
  by (auto simp: dim_back_def intro!: arg_cong [of _ _ "(!) s"])

lemma dim_back_beyond [simp]: "length s \<le> j \<Longrightarrow> dim_back s j = 1"
  by (simp add: dim_back_def)

lemma broadcast_dim_ones [simp]: "broadcast_dim 1 1 = Some 1"
  by (simp add: broadcast_dim_def)

lemma BroadcastShape_iff:
  "BroadcastShape op l r = Inr out \<longleftrightarrow>
     length out = max (length l) (length r) \<and>
     (\<forall>j. broadcast_dim (dim_back l j) (dim_back r j) = Some (dim_back out j))"
proof -
  let ?k = "max (length l) (length r)"
  have dims: "(\<forall>i<?k. broadcast_dim (dim_at l ?k i) (dim_at r ?k i) = Some (out ! i)) \<longleftrightarrow>
      (\<forall>j. broadcast_dim (dim_back l j) (dim_back r j) = Some (dim_back out j))" (is "?L \<longleftrightarrow> ?R")
    if len: "length out = ?k"
  proof
    assume L: ?L
    show ?R
    proof
      fix j
      show "broadcast_dim (dim_back l j) (dim_back r j) = Some (dim_back out j)"
      proof (cases "j < ?k")
        case True
        then have "broadcast_dim (dim_at l ?k (?k - 1 - j)) (dim_at r ?k (?k - 1 - j))
            = Some (out ! (?k - 1 - j))" using L by simp
        then show ?thesis using True len
          by (simp add: dim_at_back [of l ?k] dim_at_back [of r ?k]) (simp add: dim_back_def)
      next
        case False
        then show ?thesis using len by (simp add: not_less)
      qed
    qed
  next
    assume R: ?R
    show ?L
    proof (intro allI impI)
      fix i assume i: "i < ?k"
      then have "dim_back out (?k - 1 - i) = out ! i" using len dim_back_nth [of i out] by simp
      then show "broadcast_dim (dim_at l ?k i) (dim_at r ?k i) = Some (out ! i)"
        using R i by (simp add: dim_at_back [of l ?k] dim_at_back [of r ?k])
    qed
  qed
  have sm: "BroadcastShape op l r = Inr out \<longleftrightarrow> length out = ?k \<and>
      (\<forall>i<?k. broadcast_dim (dim_at l ?k i) (dim_at r ?k i) = Some (out ! i))"
    unfolding BroadcastShape_def Let_def smap_Inr_iff
    by (auto simp: list_all2_conv_all_nth split: option.splits)
  show ?thesis using dims sm by blast
qed

lemma broadcast_dim_comm: "broadcast_dim a b = broadcast_dim b a"
  by (auto simp: broadcast_dim_def)

lemma broadcast_dim_assoc:
  assumes "IsKnown a" "IsKnown b" "IsKnown c" "broadcast_dim a b = Some x" "broadcast_dim x c = Some z"
  shows "\<exists>y. broadcast_dim b c = Some y \<and> broadcast_dim a y = Some z"
  using assms by (auto simp: broadcast_dim_def split: if_splits)

lemma BroadcastShape_comm: "BroadcastShape op l r = Inr out \<longleftrightarrow> BroadcastShape op r l = Inr out"
  unfolding BroadcastShape_iff by (simp add: broadcast_dim_comm [of "dim_back l _"] max.commute)

lemma dim_back_exists:
  assumes "\<And>j. k \<le> j \<Longrightarrow> g j = 1" shows "\<exists>s. length s = k \<and> (\<forall>j. dim_back s j = g j)"
proof (intro exI conjI allI)
  let ?s = "map (\<lambda>i. g (k - 1 - i)) [0..<k]"
  show "length ?s = k" by simp
  show "dim_back ?s j = g j" for j using assms [of j] by (auto simp: dim_back_def not_less)
qed

lemma dim_back_known: "list_all IsKnown s \<Longrightarrow> IsKnown (dim_back s j)"
  by (auto simp: dim_back_def list_all_length IsKnown_def)

lemma BroadcastShape_assoc1:
  assumes known: "list_all IsKnown a" "list_all IsKnown b" "list_all IsKnown c"
    and x: "BroadcastShape op a b = Inr x" and out: "BroadcastShape op x c = Inr out"
  shows "\<exists>y. BroadcastShape op b c = Inr y \<and> BroadcastShape op a y = Inr out"
proof -
  have "\<exists>y. broadcast_dim (dim_back b j) (dim_back c j) = Some y \<and>
      broadcast_dim (dim_back a j) y = Some (dim_back out j)" for j
    using x out known by (intro broadcast_dim_assoc [of _ _ _ "dim_back x j"])
      (auto simp: BroadcastShape_iff intro: dim_back_known)
  then obtain g where g: "\<And>j. broadcast_dim (dim_back b j) (dim_back c j) = Some (g j)"
      "\<And>j. broadcast_dim (dim_back a j) (g j) = Some (dim_back out j)" by metis
  have "g j = 1" if "max (length b) (length c) \<le> j" for j
    using g(1) [of j] that by simp
  then obtain y where y: "length y = max (length b) (length c)" "\<And>j. dim_back y j = g j"
    using dim_back_exists by metis
  then show ?thesis using x out g by (auto simp: BroadcastShape_iff)
qed

text \<open>
C13. Broadcasting of shapes is what NumPy defines: a result exists exactly when, counting from the
last dimension and padding the shorter shape with ones, the dimensions agree, or one of them is
1, or one of them is unknown (which gives an unknown dimension unless the other is 1); the
result has the larger rank and at each position the common dimension.
\<close>

theorem broadcast_shape_spec:
  "BroadcastShape op l r = Inr out \<longleftrightarrow>
     length out = max (length l) (length r) \<and>
     (\<forall>j. let a = dim_back l j; b = dim_back r j; d = dim_back out j in
        if a = b then d = a else if a = 1 then d = b else if b = 1 then d = a
        else (a < 0 \<or> b < 0) \<and> d = -1)"
  unfolding BroadcastShape_iff Let_def
  by (rule conj_cong [OF refl], rule all_cong1) (auto simp: broadcast_dim_def IsKnown_def)

text \<open>
On shapes whose dimensions are known, broadcasting is associative: broadcasting three shapes
succeeds or fails, and gives the same result, whichever two are broadcast first. The rule of
\<^verbatim>\<open>where\<close> broadcasts its three inputs in one fixed order.
\<close>

lemma broadcast_assoc:
  assumes "list_all IsKnown a" "list_all IsKnown b" "list_all IsKnown c"
  shows "sbind (BroadcastShape op a b) (\<lambda>x. BroadcastShape op x c) = Inr out \<longleftrightarrow>
         sbind (BroadcastShape op b c) (\<lambda>y. BroadcastShape op a y) = Inr out"
proof
  assume "sbind (BroadcastShape op a b) (\<lambda>x. BroadcastShape op x c) = Inr out"
  then show "sbind (BroadcastShape op b c) (\<lambda>y. BroadcastShape op a y) = Inr out"
    using BroadcastShape_assoc1 [OF assms] by (auto simp: sbind_simps)
next
  assume "sbind (BroadcastShape op b c) (\<lambda>y. BroadcastShape op a y) = Inr out"
  then obtain y where "BroadcastShape op c b = Inr y" "BroadcastShape op y a = Inr out"
    by (auto simp: sbind_simps BroadcastShape_comm [of op b] BroadcastShape_comm [of op a])
  then show "sbind (BroadcastShape op a b) (\<lambda>x. BroadcastShape op x c) = Inr out"
    using BroadcastShape_assoc1 [OF assms(3,2,1)] BroadcastShape_comm
    by (fastforce simp: sbind_simps)
qed

lemma broadcast_assoc_witness:
  "sbind (BroadcastShape ''where'' [2, 1] [3]) (\<lambda>x. BroadcastShape ''where'' x [4, 1, 1]) = Inr [4, 2, 3] \<longleftrightarrow>
   sbind (BroadcastShape ''where'' [3] [4, 1, 1]) (\<lambda>y. BroadcastShape ''where'' [2, 1] y) = Inr [4, 2, 3]"
  by (rule broadcast_assoc) (simp_all add: IsKnown_def)

section \<open>Element counts\<close>

lemma i64_mult_left [simp]: "i64 (i64 a * b) = i64 (a * b)"
  unfolding i64_def
  by (metis signed_take_bit_mult signed_take_bit_signed_take_bit min.idem)

lemma prod_list_nonneg: "list_all IsKnown s \<Longrightarrow> 0 \<le> prod_list s"
  by (induction s) (auto simp: IsKnown_def)

lemma prod_list_update: "i < length s \<Longrightarrow> prod_list (s[i := v]) = v * prod_list (s[i := 1 :: int])"
  by (induction s arbitrary: i) (auto split: nat.splits)

lemma known_product_loop_eq:
  "list_all IsKnown s \<Longrightarrow> known_product_loop s (i64 p) = i64 (p * prod_list s)"
  by (induction s arbitrary: p) (auto simp: mult.assoc)

lemma KnownProduct_full:
  "list_all IsKnown s \<Longrightarrow> KnownProduct s 0 (length s) = i64 (prod_list s)"
  using known_product_loop_eq [of s 1] by (simp add: KnownProduct_def is_i64_def)

text \<open>
  The running product of the reshape loop is the wrapped product of the output so far, the
  inferred position left out.
\<close>

definition reshape_inv :: "reshape_state \<Rightarrow> bool" where
  "reshape_inv = (\<lambda>(out, i, p).
     if i < 0 then list_all IsKnown out \<and> p = i64 (prod_list out)
     else nat i < length out \<and> out ! nat i = -1 \<and> list_all IsKnown (out[nat i := 1]) \<and>
          p = i64 (prod_list (out[nat i := 1])))"

lemma reshape_inv_snoc:
  assumes "reshape_inv (out, i, p)" "IsKnown v"
  shows "reshape_inv (out @ [v], i, i64 (p * v))"
  using assms by (auto simp: reshape_inv_def nth_append list_update_append split: if_splits)

lemma reshape_step_inv:
  assumes "list_all IsKnown s" "reshape_inv st" "reshape_step z s x st = Inr st'"
  shows "reshape_inv st'"
proof -
  obtain n d out i p where x: "x = (n, d)" "st = (out, i, p)" by (metis prod_cases3 surj_pair)
  have copy: "n < length s \<Longrightarrow> IsKnown (s ! n)" using assms(1) by (simp add: list_all_length)
  have infer: "reshape_inv (out @ [-1], int (length out), p)" if "i < 0"
    using assms(2) that x by (simp add: reshape_inv_def list_update_append nth_append IsKnown_def)
  have zero: "reshape_inv (out @ [0], i, 0)"
    using reshape_inv_snoc [OF assms(2) [unfolded x(2)], of 0] by (simp add: IsKnown_def is_i64_def)
  have "d > 0 \<Longrightarrow> IsKnown d" by (simp add: IsKnown_def)
  then show ?thesis
    using assms(3) copy infer zero reshape_inv_snoc [OF assms(2) [unfolded x(2)]]
    by (auto simp: x reshape_step_def split: if_splits)
qed

lemma reshape_finish_count:
  assumes "reshape_inv (out, i, p)" "reshape_finish n (out, i, p) = Inr out'"
    and "0 \<le> n" "list_all IsKnown out'" "prod_list out' < 2 ^ 63"
  shows "prod_list out' = n"
proof (cases "i < 0")
  case True
  then have "p = prod_list out'" "out' = out"
    using assms prod_list_nonneg [OF assms(4)]
    by (auto simp: reshape_finish_def reshape_inv_def is_i64_def split: if_splits)
  then show ?thesis using assms prod_list_nonneg [OF assms(4)] True
    by (auto simp: reshape_finish_def split: if_splits)
next
  case False
  let ?rest = "prod_list (out[nat i := 1])"
  have inv: "nat i < length out" "out ! nat i = -1" "list_all IsKnown (out[nat i := 1])" "p = i64 ?rest"
    using assms(1) False by (auto simp: reshape_inv_def)
  have "\<not> IsKnown (out ! nat i)" using inv(2) by (simp add: IsKnown_def)
  then have "out' \<noteq> out" using assms(4) inv(1) by (auto simp: list_all_length)
  then have o': "out' = out[nat i := n div p]" and p: "0 < p" "n mod p = 0"
    using assms(2,3) False by (auto simp: reshape_finish_def split: if_splits)
  have eq: "prod_list out' = n div p * ?rest"
    unfolding o' by (rule prod_list_update [OF inv(1)])
  show ?thesis
  proof (cases "n div p = 0")
    case True
    moreover have "n = 0" using div_mult_mod_eq [of n p] True p(2) by simp
    ultimately show ?thesis using eq by simp
  next
    case False
    then have "1 \<le> n div p" using assms(3) p(1) by (smt (verit) pos_imp_zdiv_neg_iff)
    then have "?rest \<le> prod_list out'"
      using prod_list_nonneg [OF inv(3)] mult_right_mono [of 1 "n div p" ?rest] eq by simp
    then have "is_i64 ?rest" using assms(5) prod_list_nonneg [OF inv(3)] by (simp add: is_i64_def)
    then have "p = ?rest" using inv(4) by simp
    moreover have "n div p * p = n" using p(2) by (simp add: mod_0_imp_dvd)
    ultimately show ?thesis using eq by simp
  qed
qed

lemma reshape_count:
  assumes "ReshapeInferType (AReshape newshape allowzero) [TensorType s d] = Inr (TensorType out d')"
    and "list_all IsKnown s" "list_all IsKnown out" "prod_list s < 2 ^ 63" "prod_list out < 2 ^ 63"
  shows "prod_list out = prod_list s \<and> d' = d"
proof -
  obtain st where st: "sfold (reshape_step allowzero s) (enumerate 0 newshape) ([], -1, 1) = Inr st"
    and fin: "reshape_finish (KnownProduct s 0 (length s)) st = Inr out" and d: "d' = d"
    using assms(1) by (auto simp: ReshapeInferType_def MakeTensorType_def Let_def sbind_simps)
  have n: "KnownProduct s 0 (length s) = prod_list s"
    using assms(2,4) prod_list_nonneg [OF assms(2)] by (simp add: KnownProduct_full is_i64_def)
  have "reshape_inv st"
  proof (rule sfold_invariant [OF st])
    show "reshape_inv ([], -1, 1)" by (simp add: reshape_inv_def is_i64_def)
  qed (rule reshape_step_inv [OF assms(2)])
  then show ?thesis
    using reshape_finish_count fin assms(3,5) prod_list_nonneg [OF assms(2)] d
    by (cases st) (auto simp: n)
qed

text \<open>
C14. A reshape whose input and result dimensions are all known keeps the number of elements, for
every combination of literal, copied and inferred dimensions, provided the two element counts fit
in 64 bits.
\<close>

theorem reshape_preserves_elements:
  assumes "ReshapeInferType (AReshape newshape allowzero) [TensorType s d] = Inr (TensorType out d')"
    and "list_all IsKnown s" "list_all IsKnown out" "prod_list s < 2 ^ 63" "prod_list out < 2 ^ 63"
  shows "prod_list out = prod_list s \<and> d' = d"
  using assms by (rule reshape_count)

theorem reshape_preserves_elements_witness:
  "prod_list [2, 3, 20 :: int] = prod_list [2, 12, 5] \<and> ''int8'' = ''int8''"
  by (rule reshape_preserves_elements [of "[0, 3, -1]" 0 "[2, 12, 5]" "''int8''"])
     (simp_all add: ReshapeInferType_def reshape_step_def reshape_finish_def KnownProduct_def
        IsKnown_def MakeTensorType_def is_i64_def)

section \<open>Windows\<close>

lemma le_div_iff:
  assumes "0 < (b :: int)" shows "i \<le> a div b \<longleftrightarrow> i * b \<le> a"
proof
  assume "i \<le> a div b"
  then have "i * b \<le> a div b * b" using assms by (simp add: mult_right_mono)
  also have "\<dots> \<le> a" using assms by (simp add: minus_mod_eq_div_mult [symmetric])
  finally show "i * b \<le> a" .
next
  assume "i * b \<le> a"
  then show "i \<le> a div b" using zdiv_mono1 [of "i * b" a b] assms by simp
qed

text \<open>
C15. The output extent of a convolution or pooling window counts the positions at which the window
fits: with floor rounding, output index \<open>i\<close> exists exactly when the dilated kernel placed at
\<open>i * stride\<close> ends within the padded input. (The padded input and the dilated kernel fit in 64
bits.)
\<close>

theorem window_output_counts:
  assumes "WindowOutputDim op n k pb pa stride dilation False = Inr out"
    and "0 \<le> n" "0 \<le> k" "is_i64 (dilation * (k - 1) + 1)"
    and "is_i64 (n + pb + pa - (dilation * (k - 1) + 1))" "n + pb + pa - (dilation * (k - 1) + 1) < 2 ^ 63 - 1"
    and "0 \<le> i"
  shows "i < out \<longleftrightarrow> i * stride + (dilation * (k - 1) + 1) \<le> n + pb + pa"
proof -
  let ?e = "dilation * (k - 1) + 1" let ?m = "n + pb + pa - ?e"
  have st: "0 < stride" "0 \<le> ?m" and o: "out = i64 (?m sdiv stride + 1)"
    using assms(1-5) by (auto simp: WindowOutputDim_def IsKnown_def Let_def split: if_splits)
  have q: "?m sdiv stride = ?m div stride" using st by (simp add: signed_divide_int_def sgn_if)
  have "?m div stride \<le> ?m" using st by (smt (verit) div_by_1 zdiv_mono2)
  moreover have "0 \<le> ?m div stride" using st by (simp add: pos_imp_zdiv_nonneg_iff)
  ultimately have "out = ?m div stride + 1" using assms(6) q by (simp add: o is_i64_def)
  then have "i < out \<longleftrightarrow> i \<le> ?m div stride" by linarith
  also have "\<dots> \<longleftrightarrow> i * stride \<le> ?m"
    by (rule le_div_iff [OF st(1)])
  finally show ?thesis by linarith
qed

theorem window_output_counts_witness:
  "(3 :: int) < 4 \<longleftrightarrow> 3 * 2 + (1 * (3 - 1) + 1) \<le> (8 + 1 + 0 :: int)"
  by (rule window_output_counts [of "''nn_conv2d''" 8 3 1 0 2 1])
     (simp_all add: WindowOutputDim_def IsKnown_def is_i64_def signed_divide_int_def)

section \<open>Transpose\<close>

text \<open>The positions the loop has taken are distinct and within the shape.\<close>

definition transpose_inv :: "int list \<Rightarrow> bool list \<times> int list \<Rightarrow> bool" where
  "transpose_inv data = (\<lambda>(seen, out). length seen = length data \<and>
     (\<exists>ps. distinct ps \<and> set ps = {i. i < length data \<and> seen ! i} \<and> out = map ((!) data) ps))"

lemma transpose_step_inv:
  assumes "transpose_inv data st" "transpose_step data axis st = Inr st'"
  shows "transpose_inv data st'"
proof -
  obtain seen out where st: "st = (seen, out)" by (cases st)
  obtain ps where ps: "length seen = length data" "distinct ps"
      "set ps = {i. i < length data \<and> seen ! i}" "out = map ((!) data) ps"
    using assms(1) by (auto simp: st transpose_inv_def)
  obtain r where r: "0 \<le> r" "r \<le> int (length data) - 1" "\<not> seen ! nat r"
      "st' = (seen[nat r := True], out @ [data ! nat r])"
    using assms(2) by (auto simp: st transpose_step_def sbind_simps NormalizeAxis_Inr_iff split: if_splits)
  have n: "nat r < length data" using r by linarith
  have "distinct (ps @ [nat r])" using ps r by auto
  moreover have "set (ps @ [nat r]) = {i. i < length data \<and> seen[nat r := True] ! i}"
    using n by (auto simp: ps(1,3) nth_list_update)
  moreover have "out @ [data ! nat r] = map ((!) data) (ps @ [nat r])" using ps by simp
  ultimately show ?thesis using ps(1) unfolding transpose_inv_def r(4) by fastforce
qed

lemma transpose_step_length:
  "transpose_step data axis st = Inr st' \<Longrightarrow> length (snd st') = Suc (length (snd st))"
  by (auto simp: transpose_step_def sbind_simps split: if_splits prod.splits)

lemma transpose_loop_length:
  "sfold (transpose_step data) perm st = Inr st' \<Longrightarrow> length (snd st') = length (snd st) + length perm"
  by (induction perm arbitrary: st) (auto simp: sbind_simps dest!: transpose_step_length)

text \<open>
An accepted transpose permutes the dimensions: there is a permutation of the positions of the
input shape such that the output lists the input dimensions in that order, so rank and element
count are kept.
\<close>

lemma transpose_permutes:
  assumes "TransposeInferType attrs [TensorType data d] = Inr t"
  shows "\<exists>ps. distinct ps \<and> set ps = {..<length data} \<and> t = TensorType (map ((!) data) ps) d \<and>
              mset (map ((!) data) ps) = mset data"
proof -
  define perm where "perm = (let p = (case attrs of ATranspose p \<Rightarrow> p | _ \<Rightarrow> [])
      in if p = [] then map int (rev [0..<length data]) else p)"
  obtain seen out where len: "length perm = length data" and t: "t = TensorType out d"
    and loop: "sfold (transpose_step data) perm (replicate (length data) False, []) = Inr (seen, out)"
    using assms unfolding TransposeInferType_def Let_def perm_def [unfolded Let_def, symmetric]
    by (auto simp: MakeTensorType_def RequireArity_def perm_def [unfolded Let_def, symmetric]
        sbind_simps split: if_splits)
  have "transpose_inv data (seen, out)"
  proof (rule sfold_invariant [OF loop])
    show "transpose_inv data (replicate (length data) False, [])" by (auto simp: transpose_inv_def)
  qed (rule transpose_step_inv)
  then obtain ps where ps: "distinct ps" "set ps \<subseteq> {..<length data}" "out = map ((!) data) ps"
    by (auto simp: transpose_inv_def)
  have "length ps = length data" using transpose_loop_length [OF loop] len ps(3) by simp
  then have "card (set ps) = card {..<length data}" by (simp add: distinct_card [OF ps(1)])
  then have s: "set ps = {..<length data}" using ps(2) card_subset_eq [OF finite_lessThan] by blast
  have "set ps = set [0..<length data]" by (simp only: s set_upt atLeast0LessThan)
  then have "mset ps = mset [0..<length data]"
    using set_eq_iff_mset_eq_distinct [OF ps(1) distinct_upt] by blast
  then have "mset (map ((!) data) ps) = mset (map ((!) data) [0..<length data])"
    by (simp only: mset_map)
  then have "mset (map ((!) data) ps) = mset data" by (simp only: map_nth)
  then show ?thesis using ps s t by blast
qed

lemma transpose_permutes_witness:
  "\<exists>ps. distinct ps \<and> set ps = {..<length [4, 5, 6 :: int]} \<and>
     TensorType [6, 4, 5] ''f'' = TensorType (map ((!) [4, 5, 6]) ps) ''f'' \<and>
     mset (map ((!) [4, 5, 6]) ps) = mset [4, 5, 6 :: int]"
  by (rule transpose_permutes [of "ATranspose [-1, 0, 1]"])
     (simp add: TransposeInferType_def RequireArity_def MakeTensorType_def transpose_step_def
        NormalizeAxis_def numeral_3_eq_3)

section \<open>Split and concatenate\<close>

lemma concat_dims_update:
  assumes "ax < length s" "0 \<le> a" "0 \<le> b" "is_i64 (a + b)"
  shows "smap (concat_dim ax) (enumerate 0 (zip (s[ax := a]) (s[ax := b]))) = Inr (s[ax := a + b])"
  unfolding smap_Inr_iff list_all2_conv_all_nth
  using assms by (auto simp: enumerate_eq_zip concat_dim_def nth_list_update IsKnown_def SameOrUnknown_def)

text \<open>The segments of one shape along an axis, and what concatenating them back gives.\<close>

definition segments :: "int list \<Rightarrow> string \<Rightarrow> nat \<Rightarrow> int list \<Rightarrow> RType list" where
  "segments s d ax vs = map (\<lambda>v. TensorType (s[ax := v]) d) vs"

lemma concat_segments_loop:
  assumes "ax < length s" "0 \<le> a" "list_all ((\<le>) 0) vs" "is_i64 (a + sum_list vs)"
  shows "sfold (concat_step (length s) ax d) (enumerate n (segments s d ax vs)) (s[ax := a])
         = Inr (s[ax := a + sum_list vs])"
  using assms
proof (induction vs arbitrary: a n)
  case (Cons v vs)
  have pos: "0 \<le> v" "list_all ((\<le>) 0) vs" using Cons.prems(3) by auto
  have "0 \<le> sum_list vs" using pos(2) by (induction vs) auto
  then have "is_i64 (a + v)" using Cons.prems(2,4) pos by (simp add: is_i64_def)
  then have "concat_step (length s) ax d (n, TensorType (s[ax := v]) d) (s[ax := a]) = Inr (s[ax := a + v])"
    using concat_dims_update [OF Cons.prems(1,2) pos(1)] by (simp add: concat_step_def RequireSameDType_def)
  then show ?case
    using Cons.IH [of "a + v" "Suc n"] Cons.prems pos by (simp add: segments_def add.assoc)
qed (simp add: segments_def)

lemma concat_segments:
  assumes "NormalizeAxis ''concatenate'' axis (int (length s)) False = Inr ax" "nat ax < length s"
    and "vs \<noteq> []" "list_all ((\<le>) 0) vs" "is_i64 (sum_list vs)"
  shows "ConcatenateInferType (AConcat axis) [TupleType (segments s d (nat ax) vs)] =
         Inr (TensorType (s[nat ax := sum_list vs]) d)"
proof (cases vs)
  case (Cons v ws)
  then have "sfold (concat_step (length s) (nat ax) d) (enumerate 1 (segments s d (nat ax) ws)) (s[nat ax := v])
      = Inr (s[nat ax := sum_list vs])"
    using concat_segments_loop [of "nat ax" s v ws d 1] assms by simp
  then show ?thesis
    using assms(1) unfolding Cons
    by (simp add: ConcatenateInferType_def RequireArity_def MakeTensorType_def segments_def)
qed (use assms in simp)

lemma split_points_loop:
  assumes "sfold (split_step s d ax) points ([], 0) = Inr (fs0, previous)"
    and "IsKnown (s ! ax)" "is_i64 (s ! ax)"
  shows "\<exists>vs. fs0 = segments s d ax vs \<and> list_all ((\<le>) 0) vs \<and> sum_list vs = previous \<and>
              0 \<le> previous \<and> previous \<le> s ! ax"
proof -
  let ?P = "\<lambda>(fs0, previous). \<exists>vs. fs0 = segments s d ax vs \<and> list_all ((\<le>) 0) vs \<and>
      sum_list vs = previous \<and> 0 \<le> previous \<and> previous \<le> s ! ax"
  have "?P (fs0, previous)"
  proof (rule sfold_invariant [OF assms(1)])
    show "?P ([], 0)" using assms(2) by (auto simp: segments_def IsKnown_def)
  next
    fix point st st' assume st: "?P st" and step: "split_step s d ax point st = Inr st'"
    obtain fs p vs where st_eq: "st = (fs, p)" and vs: "fs = segments s d ax vs" "list_all ((\<le>) 0) vs"
        "sum_list vs = p" "0 \<le> p" "p \<le> s ! ax" using st by (cases st) auto
    have c: "p \<le> point" "point \<le> s ! ax"
      and st': "st' = (fs @ [TensorType (s[ax := i64 (point - p)]) d], point)"
      using step assms(2) by (auto simp: st_eq split_step_def Let_def MakeTensorType_def split: if_splits)
    have "is_i64 (point - p)" using c vs assms(3) by (simp add: is_i64_def)
    then have "st' = (segments s d ax (vs @ [point - p]), point)" using vs by (simp add: st' segments_def)
    moreover have "list_all ((\<le>) 0) (vs @ [point - p])" "sum_list (vs @ [point - p]) = point"
      using vs c by auto
    ultimately show "?P st'" using c vs by fastforce
  qed
  then show ?thesis by simp
qed

lemma split_segments:
  assumes split: "SplitInferType (ASplit points axis) [TensorType s d] = Inr t"
    and ax: "NormalizeAxis ''split'' axis (int (length s)) False = Inr ax"
    and dim: "IsKnown (s ! nat ax)" "is_i64 (s ! nat ax)"
  shows "\<exists>vs. t = TupleType (segments s d (nat ax) vs) \<and> vs \<noteq> [] \<and> list_all ((\<le>) 0) vs \<and>
              sum_list vs = s ! nat ax"
proof (cases "length points = 1")
  case True
  then have k: "0 < points ! 0" "s ! nat ax mod points ! 0 = 0"
    and t: "t = TupleType (replicate (nat (points ! 0)) (TensorType (s[nat ax := s ! nat ax div points ! 0]) d))"
    using split ax dim
    by (auto simp: SplitInferType_def RequireArity_def MakeTensorType_def Let_def split: if_splits)
  let ?vs = "replicate (nat (points ! 0)) (s ! nat ax div points ! 0)"
  have "sum_list ?vs = s ! nat ax" using k by (simp add: sum_list_replicate mod_0_imp_dvd)
  moreover have "list_all ((\<le>) 0) ?vs" "?vs \<noteq> []"
    using k dim by (auto simp: list_all_iff IsKnown_def pos_imp_zdiv_nonneg_iff)
  ultimately show ?thesis by (auto simp: t segments_def intro!: exI [of _ ?vs])
next
  case False
  then obtain fs0 p where loop: "sfold (split_step s d (nat ax)) points ([], 0) = Inr (fs0, p)"
    and t: "t = TupleType (fs0 @ [TensorType (s[nat ax := i64 (s ! nat ax - p)]) d])"
    using split ax dim
    by (auto simp: SplitInferType_def RequireArity_def MakeTensorType_def Let_def sbind_simps
        split: if_splits)
  obtain vs where vs: "fs0 = segments s d (nat ax) vs" "list_all ((\<le>) 0) vs" "sum_list vs = p"
      "0 \<le> p" "p \<le> s ! nat ax"
    using split_points_loop [OF loop dim] by auto
  have "is_i64 (s ! nat ax - p)" using dim vs by (simp add: is_i64_def)
  then show ?thesis using vs t by (intro exI [of _ "vs @ [s ! nat ax - p]"]) (simp add: segments_def)
qed

text \<open>
C16. Splitting a tensor and concatenating the pieces along the same axis gives the type back, for
equal sections and for split points alike, whenever the dimension along the axis is known.
\<close>

theorem split_concatenate_roundtrip:
  assumes "SplitInferType (ASplit points axis) [TensorType s d] = Inr t"
    and "list_all (\<lambda>v. IsKnown v \<and> is_i64 v) s"
  shows "ConcatenateInferType (AConcat axis) [t] = Inr (TensorType s d)"
proof -
  obtain ax where ax: "NormalizeAxis ''split'' axis (int (length s)) False = Inr ax"
    using assms(1) by (auto simp: SplitInferType_def sbind_simps split: if_splits)
  then have n: "nat ax < length s"
    and ax': "NormalizeAxis ''concatenate'' axis (int (length s)) False = Inr ax"
    by (auto simp: NormalizeAxis_Inr_iff split: if_splits)
  then have dim: "IsKnown (s ! nat ax)" "is_i64 (s ! nat ax)" using assms(2) by (auto simp: list_all_length)
  from split_segments [OF assms(1) ax dim] obtain vs where
    vs: "t = TupleType (segments s d (nat ax) vs)" "vs \<noteq> []" "list_all ((\<le>) 0) vs" "sum_list vs = s ! nat ax"
    by auto
  show ?thesis using concat_segments [OF ax' n vs(2,3)] vs(4) dim by (simp add: vs(1))
qed

theorem split_concatenate_roundtrip_witness:
  "ConcatenateInferType (AConcat (-1))
     [TupleType [TensorType [2, 3] ''f'', TensorType [2, 1] ''f'', TensorType [2, 4] ''f'']] =
   Inr (TensorType [2, 8] ''f'')"
  by (rule split_concatenate_roundtrip [of "[3, 4]"])
     (simp_all add: SplitInferType_def RequireArity_def NormalizeAxis_def split_step_def Let_def
        IsKnown_def MakeTensorType_def is_i64_def)

section \<open>Gemm\<close>

text \<open>
The rule of \<^verbatim>\<open>nn_gemm\<close> checks the bias with two-sided broadcasting and drops the result, so it
accepts a bias that is larger than the product: a 2 by 3 bias added to a 1 by 3 product is given
the type of the product, although the sum broadcasts to 2 by 3.
\<close>

lemma gemm_accepts_larger_bias:
  "GemmInferType OtherAttrs
     [TensorType [1, 4] ''float32'', TensorType [4, 3] ''float32'', TensorType [2, 3] ''float32''] =
     Inr (TensorType [1, 3] ''float32'') \<and>
   AddInferType OtherAttrs [TensorType [1, 3] ''float32'', TensorType [2, 3] ''float32''] =
     Inr (TensorType [2, 3] ''float32'')"
  by (simp add: GemmInferType_def AddInferType_def BinaryBroadcastInferType_def RequireArity_def
      RequireSameDType_def SameOrUnknown_def BroadcastShape_def dim_at_def broadcast_dim_def
      MakeTensorType_def upt_rec)

end
