(* ===== verification/Relay_Passes.thy ===== *)
theory Relay_Passes
  imports Relay_Semantics Relay_TypeLaws
begin

text \<open>
  What the rewriting passes of Relay guarantee, and where they go wrong: the passes that
  preserve the meaning of every function, the type behaviour of the reshape and arithmetic
  simplifications, the exactness of constant folding, and the collisions of the keys of
  common-subexpression elimination.
\<close>

section \<open>Passes that preserve the meaning of every function\<close>

text \<open>
  A pass preserves the meaning of functions when, whatever the backends and the context of the
  thread, it throws what deriving the context of the function throws and nothing else, and
  otherwise returns a function that has every value of the original.
\<close>

definition pass_preserves :: "('d, 't) rsem \<Rightarrow> (pass_env \<Rightarrow> ('d, 's) mutator) \<Rightarrow> bool" where
  "pass_preserves S p \<longleftrightarrow>
     (\<forall>E a ps b st. \<exists>a' b' st'.
        p E (RFunction a ps b) st =
          sbind (mutate_context E st (RFunction a ps b)) (\<lambda>_. Inr (RFunction a' ps b', st')) \<and>
        (\<forall>args v. reval_fun S (RFunction a ps b) args = Some v \<longrightarrow>
           reval_fun S (RFunction a' ps b') args = Some v))"

lemma sound_hook_preserves:
  assumes "sound_hook S h"
  shows "pass_preserves S (\<lambda>E. MutateFunction E (post_rewriter h))"
  unfolding pass_preserves_def
proof (intro allI)
  fix E a ps b st
  obtain a' b' st' where "MutateFunction E (post_rewriter h) (RFunction a ps b) st =
      sbind (mutate_context E st (RFunction a ps b)) (\<lambda>_. Inr (RFunction a' ps b', st'))" "rle S b b'"
    using sound_hook.pass_refines [OF assms] by blast
  then show "\<exists>a' b' st'. MutateFunction E (post_rewriter h) (RFunction a ps b) st =
      sbind (mutate_context E st (RFunction a ps b)) (\<lambda>_. Inr (RFunction a' ps b', st')) \<and>
      (\<forall>args v. reval_fun S (RFunction a ps b) args = Some v \<longrightarrow>
         reval_fun S (RFunction a' ps b') args = Some v)"
    using reval_fun_rle by blast
qed

interpretation fold_tuple: sound_hook S "FoldTupleGetItemRewriter :: ('d, 's) rhook" for S :: "('d, 't) rsem"
  by (rule fold_tuple_hook)

interpretation dead_let: sound_hook S "EliminateDeadLetRewriter :: ('d, 's) rhook" for S :: "('d, 't) rsem"
  by (rule dead_let_hook)

text \<open>
Projecting a field out of a tuple that is built on the spot, as \<^verbatim>\<open>FoldTupleGetItemPass\<close> does
everywhere in a function, throws only what deriving the context of the function throws, and else
gives a function that has the value of the original at every argument where the original has one,
whatever the operators compute.
\<close>

lemma fold_tuple_get_item_preserves: "pass_preserves S FoldTupleGetItemPass"
  unfolding FoldTupleGetItemPass_def
  by (rule sound_hook_preserves) (rule fold_tuple.sound_hook_axioms)

text \<open>
C24. \<^verbatim>\<open>EliminateDeadLetPass\<close> drops bindings whose variable is not used and whose value has no side
effect: it throws only what deriving the context of the function throws, and the function it returns
has the value of the original wherever the original has one.
\<close>

theorem eliminate_dead_let_preserves: "pass_preserves S EliminateDeadLetPass"
  unfolding EliminateDeadLetPass_def
  by (rule sound_hook_preserves) (rule dead_let.sound_hook_axioms)

text \<open>
\<^verbatim>\<open>CanonicalizeCastPass\<close> merges a cast of a cast to the same type; where casting twice to a type
is casting once, it preserves the value of every function and throws only what deriving the context
of the function throws.
\<close>

lemma canonicalize_cast_preserves:
  assumes "cast_idempotent S"
  shows "pass_preserves S CanonicalizeCastPass"
  unfolding CanonicalizeCastPass_def
  by (rule sound_hook_preserves) (rule cast_hook [OF assms])

definition example_sem :: "(int, int) rsem" where
  "example_sem = \<lparr>op_val = (\<lambda>nm ats vs. case (nm = ''cast'', ats, vs) of
       (True, ACast t, [VTensor v]) \<Rightarrow> Some (VTensor (v mod (t + 1))) | _ \<Rightarrow> None),
     const_val = (\<lambda>d. case nd_data d of Some (CInt i # _) \<Rightarrow> i | _ \<Rightarrow> 0), cond_val = (\<lambda>_. None)\<rparr>"

lemma example_sem_cast: "cast_idempotent example_sem"
  by (auto simp: cast_idempotent_def example_sem_def split: Attrs.splits list.splits rval.splits bool.splits)
    (metis list.exhaust)

lemma canonicalize_cast_preserves_witness:
  "pass_preserves example_sem (CanonicalizeCastPass :: pass_env \<Rightarrow> (int, unit) mutator)"
  by (rule canonicalize_cast_preserves [OF example_sem_cast])

section \<open>Reshapes\<close>

text \<open>A reshape whose target has no copied dimension does not look at its input's shape.\<close>

lemma reshape_loop_indep:
  assumes "z \<noteq> 0 \<or> (0 :: int) \<notin> set newshape"
  shows "sfold (reshape_step z s) (enumerate n newshape) st = sfold (reshape_step z t) (enumerate n newshape) st"
  using assms
proof (induction newshape arbitrary: n st)
  case (Cons d ds)
  have "reshape_step z s (n, d) st = reshape_step z t (n, d) st"
    using Cons.prems by (cases st) (auto simp: reshape_step_def)
  then show ?case using Cons by (auto intro: sbind_cong)
qed simp

lemma RemoveStandaloneReshapes_fold:
  "fst (RemoveStandaloneReshapesRewriter
      (RCall a (ROp o1 ''reshape'') (RCall b (ROp o2 ''reshape'') (x # ys) inner_ats # rest) outer_ats) st) =
   RCall (next_node st) (ROp o1 ''reshape'') (x # take 1 rest) outer_ats"
  by (simp add: RemoveStandaloneReshapesRewriter_def first_call_arg_def replace_node_def CopyVirtualDevice_eq alloc_node_def)

text \<open>
\<^verbatim>\<open>RemoveStandaloneReshapesPass\<close> replaces \<open>reshape(reshape(x, A), B)\<close> by \<open>reshape(x, B)\<close>. When B copies no
dimension of its input (it contains no 0, or \<^verbatim>\<open>allowzero\<close> is set), the dimensions of \<open>x\<close> and of
the intermediate result are known and the element count fits in 64 bits, the folded call has
exactly the type of the original one.
\<close>

lemma remove_reshapes_type:
  assumes "ReshapeInferType (AReshape A za) [TensorType s d] = Inr (TensorType t d')"
    and "ReshapeInferType (AReshape B zb) [TensorType t d'] = Inr out"
    and "zb \<noteq> 0 \<or> 0 \<notin> set B"
    and "list_all IsKnown s" "list_all IsKnown t" "prod_list s < 2 ^ 63" "prod_list t < 2 ^ 63"
  shows "fst (RemoveStandaloneReshapesRewriter
           (RCall a (ROp o1 ''reshape'') [RCall b (ROp o2 ''reshape'') [x] (AReshape A za)] (AReshape B zb)) st) =
         RCall (next_node st) (ROp o1 ''reshape'') [x] (AReshape B zb) \<and>
         ReshapeInferType (AReshape B zb) [TensorType s d] = Inr out"
proof
  have c: "prod_list t = prod_list s" "d' = d"
    using reshape_count [OF assms(1,4,5,6,7)] by auto
  have "KnownProduct t 0 (length t) = KnownProduct s 0 (length s)"
    using c(1) assms(4,5) by (simp add: KnownProduct_full)
  then show "ReshapeInferType (AReshape B zb) [TensorType s d] = Inr out"
    using assms(2) reshape_loop_indep [OF assms(3), of s 0 _ t] c(2)
    by (simp add: ReshapeInferType_def Let_def)
qed (simp add: RemoveStandaloneReshapes_fold)

lemma remove_reshapes_type_witness:
  "ReshapeInferType (AReshape [-1, 6] 0) [TensorType [2, 3, 4] ''float32''] =
   Inr (TensorType [4, 6] ''float32'')"
  using remove_reshapes_type [of "[6, 4]" 0 "[2, 3, 4]" "''float32''" "[6, 4]" "''float32''" "[-1, 6]" 0
      "TensorType [4, 6] ''float32''" 0 0 1 1
      "RUndef :: int rexpr" "\<lparr>next_node = 2, checked_type = \<lambda>_. UndefinedType, virtual_device = \<lambda>_. None, span = \<lambda>_. None\<rparr>"]
  by (simp add: ReshapeInferType_def reshape_step_def reshape_finish_def KnownProduct_def
        IsKnown_def MakeTensorType_def is_i64_def)

text \<open>
With a copied dimension the folding is wrong: for \<open>x\<close> of shape [2, 3, 4],
\<open>reshape(reshape(x, [6, 4]), [0, -1])\<close> has shape [6, 4], and the call \<open>reshape(x, [0, -1])\<close> the pass
leaves in its place has shape [2, 12].
\<close>

lemma remove_reshapes_copied_dimension:
  "ReshapeInferType (AReshape [6, 4] 0) [TensorType [2, 3, 4] d] = Inr (TensorType [6, 4] d) \<and>
   ReshapeInferType (AReshape [0, -1] 0) [TensorType [6, 4] d] = Inr (TensorType [6, 4] d) \<and>
   fst (RemoveStandaloneReshapesRewriter
     (RCall a (ROp o1 ''reshape'') [RCall b (ROp o2 ''reshape'') [x] (AReshape [6, 4] 0)] (AReshape [0, -1] 0)) st) =
     RCall (next_node st) (ROp o1 ''reshape'') [x] (AReshape [0, -1] 0) \<and>
   ReshapeInferType (AReshape [0, -1] 0) [TensorType [2, 3, 4] d] = Inr (TensorType [2, 12] d)"
  by (simp add: RemoveStandaloneReshapes_fold ReshapeInferType_def reshape_step_def reshape_finish_def
        KnownProduct_def IsKnown_def MakeTensorType_def is_i64_def)

section \<open>Arithmetic identities\<close>

lemma dim_back_ones [simp]: "dim_back (replicate k 1) j = 1"
  by (simp add: dim_back_def)

lemma broadcast_dim_one_right [simp]: "broadcast_dim a 1 = Some a"
  by (simp add: broadcast_dim_def)

lemma BroadcastShape_ones: "BroadcastShape op s (replicate k 1) = Inr s \<longleftrightarrow> k \<le> length s"
  by (auto simp: BroadcastShape_iff)

lemma BinaryBroadcast_ones:
  "BinaryBroadcastInferType op [TensorType s d, TensorType (replicate k 1) d] [] = Inr (TensorType s d) \<longleftrightarrow>
   k \<le> length s"
  using BroadcastShape_ones [of op s k]
  by (auto simp: BinaryBroadcastInferType_def RequireArity_def RequireSameDType_def MakeTensorType_def sbind_simps)

text \<open>
\<^verbatim>\<open>SimplifyExprPass\<close> replaces \<open>x + 0\<close>, \<open>x - 0\<close>, \<open>x * 1\<close> and \<open>x / 1\<close> by \<open>x\<close> for every constant with a
single element. The operand it keeps has the type of the call exactly when the constant has no
more dimensions than \<open>x\<close>: a constant of shape [1, 1] added to a vector loses a dimension.
\<close>

lemma simplify_expr_keeps_type_iff:
  assumes "(nm, rule) \<in> {(''add'', AddInferType), (''subtract'', SubtractInferType),
                         (''mul'', MultiplyInferType), (''divide'', DivideInferType)}"
    and "if nm \<in> {''add'', ''subtract''} then RelayIsConstZero H (RConst c z) else RelayIsConstOne H (RConst c z)"
    and "x \<noteq> RUndef"
  shows "fst (RelaySimplifyExprRewriter H (RCall a (ROp o1 nm) [x, RConst c z] ats) st) = x \<and>
         (rule ats [TensorType s d, TensorType (replicate k 1) d] = Inr (TensorType s d) \<longleftrightarrow>
          k \<le> length s)"
proof
  have "simplified_operand H nm x (RConst c z) = Some x"
    using assms(1,2) by (auto simp: simplified_operand_def)
  then show "fst (RelaySimplifyExprRewriter H (RCall a (ROp o1 nm) [x, RConst c z] ats) st) = x"
    using assms(3) by (simp add: RelaySimplifyExprRewriter_def CopyVirtualDevice_eq)
  show "rule ats [TensorType s d, TensorType (replicate k 1) d] = Inr (TensorType s d) \<longleftrightarrow> k \<le> length s"
    using assms(1) BinaryBroadcast_ones
    by (auto simp: AddInferType_def SubtractInferType_def MultiplyInferType_def DivideInferType_def)
qed

text \<open>A host whose \<^verbatim>\<open>double\<close> arithmetic is that of the integers, for the examples.\<close>

definition int_host :: "int host" where
  "int_host = fp.extend fp_int (host.fields id (\<lambda>_ _. id))"

lemmas int_host_simps = int_host_def fp.defs host.defs fp_int_def

definition array1 :: "int list \<Rightarrow> DataType \<Rightarrow> 'd cell \<Rightarrow> 'd NDArray" where
  "array1 s dt c = \<lparr>nd_shape = s, nd_dtype = dt, nd_data = Some [c]\<rparr>"

lemma simplify_expr_keeps_type_iff_witness:
  "AddInferType OtherAttrs [TensorType [3] ''int32'', TensorType [1, 1] ''int32''] \<noteq>
     Inr (TensorType [3] ''int32'') \<and>
   AddInferType OtherAttrs [TensorType [3] ''int32'', TensorType [1] ''int32''] =
     Inr (TensorType [3] ''int32'')"
  using simplify_expr_keeps_type_iff [of "''add''" AddInferType int_host 1
      "Some (array1 [1, 1] (dt_Int 32 1) (CInt 0))" "ROther 5" 0 2 OtherAttrs
      "\<lparr>next_node = 9, checked_type = \<lambda>_. UndefinedType, virtual_device = \<lambda>_. None, span = \<lambda>_. None\<rparr>" "[3]" "''int32''" 2]
    simplify_expr_keeps_type_iff [of "''add''" AddInferType int_host 1
      "Some (array1 [1] (dt_Int 32 1) (CInt 0))" "ROther 5" 0 2 OtherAttrs
      "\<lparr>next_node = 9, checked_type = \<lambda>_. UndefinedType, virtual_device = \<lambda>_. None, span = \<lambda>_. None\<rparr>" "[3]" "''int32''" 1]
  by (simp add: RelayIsConstZero_def TryGetScalarConstantValue_def TryGetScalarConstantValueWithDType_def
      IsScalarShape_def array1_def read_scalar_def dt_Int_def int_host_simps round_bits_small is_i64_def
      numeral_2_eq_2)

section \<open>Constant folding\<close>

text \<open>
  What folding relies on of the host: \<^verbatim>\<open>double\<close> represents the integers up to \<open>2 ^ 53\<close>
  exactly, computes on them exactly while the result stays in that range, and converts them
  back to an integer type that holds them.
\<close>

definition exact_int :: "int \<Rightarrow> bool" where
  "exact_int i \<longleftrightarrow> \<bar>i\<bar> \<le> 2 ^ 53"

definition host_exact :: "'d host \<Rightarrow> bool" where
  "host_exact H \<longleftrightarrow>
     (\<forall>i j. exact_int i \<and> exact_int j \<longrightarrow>
        (exact_int (i + j) \<longrightarrow> dbl_add H (dbl_of_int H i) (dbl_of_int H j) = dbl_of_int H (i + j)) \<and>
        (exact_int (i - j) \<longrightarrow> dbl_sub H (dbl_of_int H i) (dbl_of_int H j) = dbl_of_int H (i - j)) \<and>
        (exact_int (i * j) \<longrightarrow> dbl_mul H (dbl_of_int H i) (dbl_of_int H j) = dbl_of_int H (i * j)) \<and>
        (dbl_lt H (dbl_of_int H i) (dbl_of_int H j) \<longleftrightarrow> i < j) \<and>
        (dbl_eq H (dbl_of_int H i) (dbl_of_int H j) \<longleftrightarrow> i = j)) \<and>
     (\<forall>i. exact_int i \<longrightarrow> dbl_finite H (dbl_of_int H i)) \<and>
     (\<forall>w i. exact_int i \<and> - (2 ^ (w - 1)) \<le> i \<and> i < 2 ^ (w - 1) \<longrightarrow>
        dbl_cast H True w (dbl_of_int H i) = i) \<and>
     (\<forall>w i. exact_int i \<and> 0 \<le> i \<and> i < 2 ^ w \<longrightarrow> dbl_cast H False w (dbl_of_int H i) = i)"

lemma int_host_exact: "host_exact int_host"
proof -
  have "round_bits 53 i = i" if "exact_int i" for i
    using that by (intro round_bits_exact) (simp_all only: exact_int_def zero_less_numeral)
  then show ?thesis unfolding host_exact_def by (simp add: int_host_simps)
qed

lemma host_exact_arith:
  assumes "host_exact H" "exact_int i" "exact_int j"
  shows "exact_int (i + j) \<Longrightarrow> dbl_add H (dbl_of_int H i) (dbl_of_int H j) = dbl_of_int H (i + j)"
    and "exact_int (i - j) \<Longrightarrow> dbl_sub H (dbl_of_int H i) (dbl_of_int H j) = dbl_of_int H (i - j)"
    and "exact_int (i * j) \<Longrightarrow> dbl_mul H (dbl_of_int H i) (dbl_of_int H j) = dbl_of_int H (i * j)"
    and "dbl_lt H (dbl_of_int H i) (dbl_of_int H j) \<longleftrightarrow> i < j"
  using assms unfolding host_exact_def by blast+

lemma host_exact_conv:
  assumes "host_exact H" "exact_int i"
  shows "dbl_finite H (dbl_of_int H i)"
    and "- (2 ^ (w - 1)) \<le> i \<Longrightarrow> i < 2 ^ (w - 1) \<Longrightarrow> dbl_cast H True w (dbl_of_int H i) = i"
    and "0 \<le> i \<Longrightarrow> i < 2 ^ w \<Longrightarrow> dbl_cast H False w (dbl_of_int H i) = i"
  using assms unfolding host_exact_def by blast+

lemma exact_i32: "is_i32 i \<Longrightarrow> exact_int i"
  by (auto simp: is_i32_def exact_int_def)

lemma RelayFoldConstant_const:
  assumes "TryGetScalarConstantValueWithDType H x = Some (l, dt)"
    "TryGetScalarConstantValueWithDType H y = Some (r, dt')"
    "fold_scalars H nm l r dt = Some (v, dt'')" "dbl_finite H v" "nm \<noteq> []"
  shows "fst (RelayFoldConstantRewriter H (RCall a (ROp o1 nm) [x, y] ats) st) =
         RConst (next_node st) (Some (MakeScalarConstant H v dt''))"
  using assms by (simp add: RelayFoldConstantRewriter_def replace_node_def CopyVirtualDevice_eq alloc_node_def)

lemma scalar_const_value:
  "TryGetScalarConstantValueWithDType H (RConst c (Some (array1 [] dt (CInt i)))) =
     (if lanes dt \<noteq> 1 then None else map_option (\<lambda>v. (v, dt)) (read_scalar H dt (CInt i)))"
  by (simp add: TryGetScalarConstantValueWithDType_def array1_def IsScalarShape_def)

definition int_op :: "string \<Rightarrow> int \<Rightarrow> int \<Rightarrow> int" where
  "int_op nm i j = (if nm = ''add'' then i + j else if nm = ''subtract'' then i - j else i * j)"

text \<open>
Folding \<^verbatim>\<open>add\<close>, \<^verbatim>\<open>subtract\<close> or \<^verbatim>\<open>mul\<close> of two \<^verbatim>\<open>int32\<close> scalars goes through \<^verbatim>\<open>double\<close>, and is exact
whenever the exact result is an \<^verbatim>\<open>int32\<close>: the call becomes an \<^verbatim>\<open>int32\<close> constant of rank 0 that
holds it.
\<close>

lemma relay_fold_int32_exact:
  assumes "host_exact H" "nm \<in> {''add'', ''subtract'', ''mul''}"
    and "is_i32 i" "is_i32 j" "is_i32 (int_op nm i j)"
  shows "fst (RelayFoldConstantRewriter H (RCall a (ROp o1 nm)
           [RConst c (Some (array1 [] (dt_Int 32 1) (CInt i))),
            RConst e (Some (array1 [] (dt_Int 32 1) (CInt j)))] ats) st) =
         RConst (next_node st) (Some (array1 [] (dt_Int 32 1) (CInt (int_op nm i j))))"
proof -
  let ?k = "int_op nm i j"
  have s: "signed_take_bit 31 i = i" "signed_take_bit 31 j = j"
    using assms(3,4) by (simp_all add: is_i32_def signed_take_bit_int_eq_self)
  have k: "fold_scalars H nm (dbl_of_int H i) (dbl_of_int H j) (dt_Int 32 1) =
      Some (dbl_of_int H ?k, dt_Int 32 1)"
  proof -
    note arith = host_exact_arith [OF assms(1) exact_i32 [OF assms(3)] exact_i32 [OF assms(4)]]
    consider "nm = ''add''" | "nm = ''subtract''" | "nm = ''mul''" using assms(2) by blast
    then show ?thesis
    proof cases
      case 1
      then show ?thesis using arith(1) exact_i32 [OF assms(5)] by (simp add: fold_scalars_def int_op_def)
    next
      case 2
      then show ?thesis using arith(2) exact_i32 [OF assms(5)] by (simp add: fold_scalars_def int_op_def)
    next
      case 3
      then show ?thesis using arith(3) exact_i32 [OF assms(5)] by (simp add: fold_scalars_def int_op_def)
    qed
  qed
  have c: "dbl_cast H True 32 (dbl_of_int H ?k) = ?k" and f: "dbl_finite H (dbl_of_int H ?k)"
    using assms(5) host_exact_conv(1) [OF assms(1) exact_i32 [OF assms(5)]]
      host_exact_conv(2) [OF assms(1) exact_i32 [OF assms(5)], where w = 32]
    by (simp_all add: is_i32_def)
  have "MakeScalarConstant H (dbl_of_int H ?k) (dt_Int 32 1) = array1 [] (dt_Int 32 1) (CInt ?k)"
    by (simp add: MakeScalarConstant_def DTypeToString_utils_def NDArray_new_def ParseDType_def
        WriteScalarToArray_def scalar_cell_def dt_Int_def array1_def Let_def c)
  moreover have "TryGetScalarConstantValueWithDType H (RConst n (Some (array1 [] (dt_Int 32 1) (CInt v)))) =
      Some (dbl_of_int H (signed_take_bit 31 v), dt_Int 32 1)" for n v
    by (simp add: scalar_const_value read_scalar_def dt_Int_def)
  moreover have "nm \<noteq> []" using assms(2) by auto
  ultimately show ?thesis
    using RelayFoldConstant_const [OF _ _ k f] s by metis
qed

lemma relay_fold_int32_exact_witness:
  "fst (RelayFoldConstantRewriter int_host (RCall 0 (ROp 1 ''mul'')
       [RConst 2 (Some (array1 [] (dt_Int 32 1) (CInt 46340))),
        RConst 3 (Some (array1 [] (dt_Int 32 1) (CInt (-46341))))] OtherAttrs)
       \<lparr>next_node = 4, checked_type = \<lambda>_. UndefinedType, virtual_device = \<lambda>_. None, span = \<lambda>_. None\<rparr>) =
   RConst 4 (Some (array1 [] (dt_Int 32 1) (CInt (-2147441940))))"
  by (subst relay_fold_int32_exact [OF int_host_exact]) (simp_all add: int_op_def is_i32_def)

text \<open>
An \<^verbatim>\<open>int8\<close> scalar is read as \<^verbatim>\<open>uint8_t\<close>, so a negative one is folded as a large positive number:
for every negative \<^verbatim>\<open>int8\<close> value \<open>i\<close>, \<open>greater(i, 0)\<close> folds to the constant true.
\<close>

lemma relay_fold_int8_sign_lost:
  assumes "host_exact H" "-128 \<le> i" "i < 0"
  shows "fst (RelayFoldConstantRewriter H (RCall a (ROp o1 ''greater'')
           [RConst c (Some (array1 [] (dt_Int 8 1) (CInt i))),
            RConst e (Some (array1 [] (dt_Int 8 1) (CInt 0)))] ats) st) =
         RConst (next_node st) (Some (array1 [] \<lparr>code = 1, bits = 1, lanes = 1\<rparr> (CInt 1)))"
proof -
  have t: "take_bit 8 i = i + 256"
  proof -
    have "take_bit 8 i = (i + 256) mod 256" by (simp add: take_bit_eq_mod)
    also have "\<dots> = i + 256" using assms(2,3) by (intro mod_pos_pos_trivial) simp_all
    finally show ?thesis .
  qed
  have lt: "dbl_lt H (dbl_of_int H 0) (dbl_of_int H (i + 256))"
    using host_exact_arith(4) [OF assms(1), of 0 "i + 256"] assms(2,3) by (simp add: exact_int_def)
  have c: "dbl_cast H False 8 (dbl_of_int H 1) = 1" and f: "dbl_finite H (dbl_of_int H 1)"
    using host_exact_conv(1) [OF assms(1), of 1] host_exact_conv(3) [OF assms(1), of 1, where w = 8]
    by (simp_all add: exact_int_def)
  have g: "fold_scalars H ''greater'' (dbl_of_int H (i + 256)) (dbl_of_int H 0) (dt_Int 8 1) =
      Some (dbl_of_int H 1, \<lparr>code = 1, bits = 1, lanes = 1\<rparr>)"
    using lt by (simp add: fold_scalars_def bool_double_def Let_def)
  have "MakeScalarConstant H (dbl_of_int H 1) \<lparr>code = 1, bits = 1, lanes = 1\<rparr> =
      array1 [] \<lparr>code = 1, bits = 1, lanes = 1\<rparr> (CInt 1)"
    by (simp add: MakeScalarConstant_def DTypeToString_utils_def NDArray_new_def ParseDType_def
        WriteScalarToArray_def scalar_cell_def array1_def Let_def c)
  moreover have "TryGetScalarConstantValueWithDType H (RConst n (Some (array1 [] (dt_Int 8 1) (CInt v)))) =
      Some (dbl_of_int H (take_bit 8 v), dt_Int 8 1)" for n v
    by (simp add: scalar_const_value read_scalar_def dt_Int_def)
  moreover have "take_bit 8 (0 :: int) = 0" by simp
  ultimately show ?thesis
    using RelayFoldConstant_const [OF _ _ g f] t by (metis list.distinct(1))
qed

lemma relay_fold_int8_sign_lost_witness:
  "fst (RelayFoldConstantRewriter int_host (RCall 0 (ROp 1 ''greater'')
       [RConst 2 (Some (array1 [] (dt_Int 8 1) (CInt (-1)))),
        RConst 3 (Some (array1 [] (dt_Int 8 1) (CInt 0)))] OtherAttrs)
       \<lparr>next_node = 4, checked_type = \<lambda>_. UndefinedType, virtual_device = \<lambda>_. None, span = \<lambda>_. None\<rparr>) =
   RConst 4 (Some (array1 [] \<lparr>code = 1, bits = 1, lanes = 1\<rparr> (CInt 1)))"
  by (subst relay_fold_int8_sign_lost [OF int_host_exact]) simp_all

section \<open>Common subexpressions\<close>

text \<open>The key of a constant is its shape, its dtype and its checked type: its data is not printed.\<close>

lemma constant_key:
  "nd_shape d = nd_shape d' \<Longrightarrow> nd_dtype d = nd_dtype d' \<Longrightarrow> checked_type st a = checked_type st b \<Longrightarrow>
   ExprStructuralKey st (RConst a (Some d)) = ExprStructuralKey st (RConst b (Some d'))"
  by (simp add: ExprStructuralKey_def ToText_def CheckedTypeSuffix_def)

text \<open>
\<^verbatim>\<open>EliminateCommonSubexprPass\<close> takes two constants of one shape, dtype and checked type for one
value, whatever they hold: \<open>let x = d1; let y = d2; y\<close> becomes \<open>let x = d1; x\<close>, which evaluates to
the first constant instead of the second.
\<close>

lemma cse_merges_constants:
  assumes "nd_shape d1 = nd_shape d2" "nd_dtype d1 = nd_dtype d2" "checked_type st 2 = checked_type st 4"
    and "rv_addr x \<noteq> rv_addr y" "pc_defined (Current (snd E))"
  shows "\<exists>a b st'. EliminateCommonSubexprPass E
           (RFunction 0 [] (RLet 1 x (RConst 2 (Some d1)) (RLet 3 y (RConst 4 (Some d2)) (RVar y)))) st =
           Inr (RFunction a [] (RLet b x (RConst 2 (Some d1)) (RVar x)), st') \<and>
         reval_fun S (RFunction 0 [] (RLet 1 x (RConst 2 (Some d1)) (RLet 3 y (RConst 4 (Some d2)) (RVar y)))) [] =
           Some (VTensor (const_val S d2)) \<and>
         reval_fun S (RFunction a [] (RLet b x (RConst 2 (Some d1)) (RVar x))) [] =
           Some (VTensor (const_val S d1))"
proof -
  let ?cse = EliminateCommonSubexprRewriter
  have key: "ExprStructuralKey t (RConst 2 (Some d1)) = ExprStructuralKey t (RConst 4 (Some d2))"
    if "checked_type t = checked_type st" for t :: CSEState
    using assms that by (intro constant_key) simp_all
  have vars: "?cse (RVar v) t = Inr (RVar v, t)" "?cse (RConst n d) t = Inr (RConst n d, t)" for v n d t
    by (subst EliminateCommonSubexprRewriter.simps, simp add: RelayVisitExpr_def)+
  have sub: "SubstituteVar (RVar y) y (RVar x) t = Inr (RVar x, t)" for t :: CSEState
    by (simp add: SubstituteVar_def VarSubstituter.simps)
  have inner: "?cse (RLet 3 y (RConst 4 (Some d2)) (RVar y)) t = Inr (RVar x, CopyRelayVirtualDevice
       (RLet 3 y (RConst 4 (Some d2)) (RVar y)) (RVar x) t)"
    if "cse_table t (ExprStructuralKey t (RConst 4 (Some d2))) = Some x" for t
    using that by (subst EliminateCommonSubexprRewriter.simps) (simp add: vars sub CopyVirtualDevice_eq)
  let ?in = "RLet 3 y (RConst 4 (Some d2)) (RVar y)"
  let ?out = "RLet 1 x (RConst 2 (Some d1)) ?in"
  have outer: "\<exists>b t'. ?cse ?out t = Inr (RLet b x (RConst 2 (Some d1)) (RVar x), t')"
    if "checked_type t = checked_type st" "cse_table t = (\<lambda>_. None)" for t
  proof -
    let ?key = "ExprStructuralKey t (RConst 2 (Some d1))"
    let ?t1 = "t\<lparr>cse_table := [?key \<mapsto> x]\<rparr>"
    have "ExprStructuralKey ?t1 (RConst 4 (Some d2)) = ?key"
      using key [of t] that(1) by (simp add: ExprStructuralKey_def ToText_def CheckedTypeSuffix_def)
    then have 1: "?cse ?in ?t1 = Inr (RVar x, CopyRelayVirtualDevice ?in (RVar x) ?t1)"
      by (intro inner) simp
    then show ?thesis
      using that(2) by (subst EliminateCommonSubexprRewriter.simps)
        (simp add: vars 1 Let_def renew_node_def alloc_node_def)
  qed
  have whole: "\<exists>a b t'. ?cse (RFunction 0 [] ?out) t =
      Inr (RFunction a [] (RLet b x (RConst 2 (Some d1)) (RVar x)), t')"
    if t: "checked_type t = checked_type st" "cse_table t = (\<lambda>_. None)" for t
  proof -
    obtain b t' where 1: "?cse ?out t = Inr (RLet b x (RConst 2 (Some d1)) (RVar x), t')"
      using outer [OF t] by blast
    then show ?thesis
      by (subst EliminateCommonSubexprRewriter.simps)
        (simp add: RelayVisitExpr_def RelayVisitFunction_def renew_node_def alloc_node_def)
  qed
  have "reval_fun S (RFunction 0 [] ?out) [] = Some (VTensor (const_val S d2))"
    "reval_fun S (RFunction a [] (RLet b x (RConst 2 (Some d1)) (RVar x))) [] = Some (VTensor (const_val S d1))"
    for a b by (simp_all add: reval_fun_def)
  then show ?thesis
    using whole [of "RelayState.extend st (CSEState.fields (\<lambda>_. None))"]
      assms(5)
    by (auto simp: EliminateCommonSubexprPass_def MutateFunction_def mutate_context_def RelayState.defs CSEState.defs)
qed

definition ctx_env :: pass_env where
  "ctx_env = (\<lambda>d. Inr (''cpu'', default_attributes),
     SetCurrent (PassContext_undefined\<lparr>pc_defined := True\<rparr>) thread_start)"

lemma cse_merges_constants_witness:
  "\<exists>a b st'. EliminateCommonSubexprPass ctx_env
     (RFunction 0 [] (RLet 1 \<lparr>rv_addr = 5, rv_name = ''x'', rv_annotation = UndefinedType\<rparr>
       (RConst 2 (Some (array1 [] (dt_Int 32 1) (CInt 7 :: int cell))))
     (RLet 3 \<lparr>rv_addr = 6, rv_name = ''y'', rv_annotation = UndefinedType\<rparr>
       (RConst 4 (Some (array1 [] (dt_Int 32 1) (CInt 8))))
       (RVar \<lparr>rv_addr = 6, rv_name = ''y'', rv_annotation = UndefinedType\<rparr>))))
     \<lparr>next_node = 7, checked_type = \<lambda>_. UndefinedType, virtual_device = \<lambda>_. None, span = \<lambda>_. None\<rparr> =
     Inr (RFunction a [] (RLet b \<lparr>rv_addr = 5, rv_name = ''x'', rv_annotation = UndefinedType\<rparr>
       (RConst 2 (Some (array1 [] (dt_Int 32 1) (CInt 7))))
       (RVar \<lparr>rv_addr = 5, rv_name = ''x'', rv_annotation = UndefinedType\<rparr>)), st') \<and>
   reval_fun example_sem
     (RFunction 0 [] (RLet 1 \<lparr>rv_addr = 5, rv_name = ''x'', rv_annotation = UndefinedType\<rparr>
       (RConst 2 (Some (array1 [] (dt_Int 32 1) (CInt 7 :: int cell))))
     (RLet 3 \<lparr>rv_addr = 6, rv_name = ''y'', rv_annotation = UndefinedType\<rparr>
       (RConst 4 (Some (array1 [] (dt_Int 32 1) (CInt 8))))
       (RVar \<lparr>rv_addr = 6, rv_name = ''y'', rv_annotation = UndefinedType\<rparr>)))) [] =
     Some (VTensor (const_val example_sem (array1 [] (dt_Int 32 1) (CInt 8)))) \<and>
   reval_fun example_sem
     (RFunction a [] (RLet b \<lparr>rv_addr = 5, rv_name = ''x'', rv_annotation = UndefinedType\<rparr>
       (RConst 2 (Some (array1 [] (dt_Int 32 1) (CInt 7))))
       (RVar \<lparr>rv_addr = 5, rv_name = ''x'', rv_annotation = UndefinedType\<rparr>))) [] =
     Some (VTensor (const_val example_sem (array1 [] (dt_Int 32 1) (CInt 7))))"
  by (rule cse_merges_constants) (simp_all add: array1_def ctx_env_def SetCurrent_def Current_def)

end
