(* ===== verification/Relay_Infer.thy ===== *)
theory Relay_Infer
  imports Relay_Transforms
begin

text \<open>
  The two passes that annotate a Relay function without rewriting it:
  \<^verbatim>\<open>src/relay/transforms/annotate_memory_scope.cc\<close> and
  \<^verbatim>\<open>src/relay/transforms/infer_type.cc\<close>. Both visit the graph once per node, by keeping the
  addresses they have seen.
\<close>

section \<open>Memory scopes\<close>

definition annotate_scope :: "'d rexpr \<Rightarrow> 's RelayState_scheme \<Rightarrow> 's RelayState_scheme" where
  "annotate_scope e st =
     (case node_addr e of
        None \<Rightarrow> st
      | Some a \<Rightarrow>
          (case virtual_device st a of
             None \<Rightarrow> st
           | Some vd \<Rightarrow>
               if vd_memory_scope vd \<noteq> [] then st
               else let scope = (case e of RConst _ _ \<Rightarrow> ''const'' | _ \<Rightarrow> ''global'') in
                 st\<lparr>next_node := Suc (next_node st),
                    virtual_device := (virtual_device st)
                      (a := WithMemoryScope (next_node st) (Some vd) scope)\<rparr>))"

definition AnnotateMemoryScopePass :: "('d, 's) mutator" where
  "AnnotateMemoryScopePass func st =
     (if func = RUndef then Inr (func, st)
      else Inr (func, snd (VisitRelayExpr annotate_scope func ({}, st))))"

section \<open>Type inference\<close>

record InferState = RelayState +
  memo :: "nat \<Rightarrow> RType option"
  var_env :: "nat \<Rightarrow> RType option"

definition DTypeToString_infer :: "DataType \<Rightarrow> string res" where
  "DTypeToString_infer dt =
     (if lanes dt \<noteq> 1 then throw ''InferType only supports scalar-lane DLDataType''
      else if code dt = 2 \<and> bits dt = 32 then Inr ''float32''
      else if code dt = 2 \<and> bits dt = 64 then Inr ''float64''
      else if code dt = 0 \<and> bits dt = 8 then Inr ''int8''
      else if code dt = 0 \<and> bits dt = 32 then Inr ''int32''
      else if code dt = 0 \<and> bits dt = 64 then Inr ''int64''
      else if code dt = 1 \<and> bits dt = 1 then Inr ''bool''
      else if code dt = 1 \<and> bits dt = 8 then Inr ''uint8''
      else throw ''Unsupported constant dtype in InferType'')"

definition InferConstant :: "'d NDArray option \<Rightarrow> RType res" where
  "InferConstant data =
     (case data of
        None \<Rightarrow> throw ''InferType found undefined Constant data''
      | Some d \<Rightarrow> sbind (DTypeToString_infer (nd_dtype d)) (\<lambda>s. Inr (TensorType (nd_shape d) s)))"

definition InferVar :: "RVarNode \<Rightarrow> 's InferState_scheme \<Rightarrow> RType res" where
  "InferVar v st =
     (case var_env st (rv_addr v) of
        Some t \<Rightarrow> Inr t
      | None \<Rightarrow>
          if rv_annotation v \<noteq> UndefinedType then Inr (rv_annotation v)
          else if checked_type st (rv_addr v) \<noteq> UndefinedType then Inr (checked_type st (rv_addr v))
          else throw (''InferType requires a type for variable: '' @ rv_name v))"

text \<open>The rule of a call, on the types of its arguments.\<close>

definition InferCall :: "string \<Rightarrow> Attrs \<Rightarrow> RType list \<Rightarrow> RType res" where
  "InferCall nm ats input_types =
     (case map_of FInferTypeRegistry nm of
        None \<Rightarrow> throw (''No FInferType registered for op: '' @ nm)
      | Some infer_rule \<Rightarrow>
          sbind (infer_rule ats input_types) (\<lambda>out_type.
          if out_type = UndefinedType
          then throw (''FInferType returned an undefined type for op: '' @ nm)
          else Inr out_type))"

text \<open>The binding of a variable: the environment and its annotation in the graph.\<close>

definition bind_var :: "RVarNode \<Rightarrow> RType \<Rightarrow> 's InferState_scheme \<Rightarrow> 's InferState_scheme" where
  "bind_var x t st = st\<lparr>var_env := (var_env st)(rv_addr x \<mapsto> t),
                        checked_type := (checked_type st)(rv_addr x := t)\<rparr>"

fun InferParams :: "RVarNode list \<Rightarrow> 's InferState_scheme \<Rightarrow> 's InferState_scheme res" where
  "InferParams [] st = Inr st"
| "InferParams (p # ps) st =
     (case rv_annotation p of
        UndefinedType \<Rightarrow> throw (''InferType requires TensorType annotation on parameter: '' @ rv_name p)
      | TupleType _ \<Rightarrow> throw (''InferType currently supports TensorType parameters only: '' @ rv_name p)
      | TensorType _ _ \<Rightarrow> InferParams ps (bind_var p (rv_annotation p) st))"

definition InferIfCond :: "RType \<Rightarrow> unit res" where
  "InferIfCond cond_type =
     require (cond_type = TensorType [] ''bool'')
       (RuntimeError ''If condition must be a scalar bool TensorType'')"

definition InferGetItem :: "RType \<Rightarrow> int \<Rightarrow> RType res" where
  "InferGetItem tuple_type index =
     (case tuple_type of
        TupleType ts \<Rightarrow>
          if index < 0 \<or> nat index \<ge> length ts
          then throw (''TupleGetItem index out of range: '' @ to_string index)
          else Inr (ts ! nat index)
      | _ \<Rightarrow> throw (''TupleGetItem expects TupleType, got '' @ TypeToString tuple_type))"

text \<open>\<^verbatim>\<open>Visit\<close> around a computed type: the annotation where it is defined, and the memo entry.\<close>

definition record_type :: "nat \<Rightarrow> RType \<times> 's InferState_scheme \<Rightarrow> (RType \<times> 's InferState_scheme) res" where
  "record_type a = (\<lambda>(t, st).
     let st = (if t \<noteq> UndefinedType then st\<lparr>checked_type := (checked_type st)(a := t)\<rparr> else st)
     in Inr (t, st\<lparr>memo := (memo st)(a \<mapsto> t)\<rparr>))"

text \<open>
  \<open>Infer\<close> is \<^verbatim>\<open>TypeInferencer::Visit\<close>; \<open>InferArgs\<close> is the loop over the arguments of a call and
  \<open>InferFields\<close> the loop over the fields of a tuple.
\<close>

fun Infer :: "'d rexpr \<Rightarrow> 's InferState_scheme \<Rightarrow> (RType \<times> 's InferState_scheme) res"
and InferArgs :: "string \<Rightarrow> 'd rexpr list \<Rightarrow> 's InferState_scheme \<Rightarrow> (RType list \<times> 's InferState_scheme) res"
and InferFields :: "'d rexpr list \<Rightarrow> 's InferState_scheme \<Rightarrow> (RType list \<times> 's InferState_scheme) res"
where
  "Infer RUndef st = Inr (UndefinedType, st)"
| "Infer (RVar v) st =
     (case memo st (rv_addr v) of Some t \<Rightarrow> Inr (t, st)
      | None \<Rightarrow> sbind (InferVar v st) (\<lambda>t. record_type (rv_addr v) (t, st)))"
| "Infer (RConst a d) st =
     (case memo st a of Some t \<Rightarrow> Inr (t, st)
      | None \<Rightarrow> sbind (InferConstant d) (\<lambda>t. record_type a (t, st)))"
| "Infer (ROp a nm) st =
     (case memo st a of Some t \<Rightarrow> Inr (t, st) | None \<Rightarrow> record_type a (UndefinedType, st))"
| "Infer (RCall a op args ats) st =
     (case memo st a of Some t \<Rightarrow> Inr (t, st)
      | None \<Rightarrow>
          (case op of
             ROp _ nm \<Rightarrow>
               sbind (InferArgs nm args st) (\<lambda>(input_types, st).
               sbind (InferCall nm ats input_types) (\<lambda>t. record_type a (t, st)))
           | _ \<Rightarrow> throw ''InferType currently supports calls to registered Ops only''))"
| "Infer (RFunction a ps b) st =
     (case memo st a of Some t \<Rightarrow> Inr (t, st)
      | None \<Rightarrow>
          sbind (InferParams ps st) (\<lambda>st.
          sbind (Infer b st) (\<lambda>(body_type, st).
          record_type a (body_type, st\<lparr>checked_type := (checked_type st)(a := body_type)\<rparr>))))"
| "Infer (RIf a c t f) st =
     (case memo st a of Some t \<Rightarrow> Inr (t, st)
      | None \<Rightarrow>
          sbind (Infer c st) (\<lambda>(cond_type, st).
          sbind (InferIfCond cond_type) (\<lambda>_.
          sbind (Infer t st) (\<lambda>(true_type, st).
          sbind (Infer f st) (\<lambda>(false_type, st).
          if \<not> TypeEqual true_type false_type
          then throw (''If branch type mismatch: '' @ TypeToString true_type @ '' vs '' @
                      TypeToString false_type)
          else record_type a (true_type, st))))))"
| "Infer (RLet a x v b) st =
     (case memo st a of Some t \<Rightarrow> Inr (t, st)
      | None \<Rightarrow>
          sbind (Infer v st) (\<lambda>(value_type, st).
          if rv_annotation x \<noteq> UndefinedType \<and> \<not> TypeEqual (rv_annotation x) value_type
          then throw (''Let variable annotation mismatch for '' @ rv_name x @ '': '' @
                      TypeToString (rv_annotation x) @ '' vs '' @ TypeToString value_type)
          else sbind (Infer b (bind_var x value_type st)) (record_type a)))"
| "Infer (RTuple a fs) st =
     (case memo st a of Some t \<Rightarrow> Inr (t, st)
      | None \<Rightarrow> sbind (InferFields fs st) (\<lambda>(ts, st). record_type a (TupleType ts, st)))"
| "Infer (RTupleGetItem a t i) st =
     (case memo st a of Some t \<Rightarrow> Inr (t, st)
      | None \<Rightarrow>
          sbind (Infer t st) (\<lambda>(tuple_type, st).
          sbind (InferGetItem tuple_type i) (\<lambda>t. record_type a (t, st))))"
| "Infer (ROther a) st =
     (case memo st a of Some t \<Rightarrow> Inr (t, st)
      | None \<Rightarrow> throw ''InferType encountered unsupported Relay node'')"
| "InferArgs nm [] st = Inr ([], st)"
| "InferArgs nm (e # es) st =
     sbind (Infer e st) (\<lambda>(t, st).
     if t = UndefinedType
     then throw (''InferType failed to infer argument type for op: '' @ nm)
     else sbind (InferArgs nm es st) (\<lambda>(ts, st). Inr (t # ts, st)))"
| "InferFields [] st = Inr ([], st)"
| "InferFields (e # es) st =
     sbind (Infer e st) (\<lambda>(t, st). sbind (InferFields es st) (\<lambda>(ts, st). Inr (t # ts, st)))"

definition InferTypePass :: "'d rexpr \<Rightarrow> RelayState \<Rightarrow> ('d rexpr \<times> RelayState) res" where
  "InferTypePass func st =
     (if func = RUndef then throw ''InferTypePass expects a defined Function''
      else sbind (Infer func (RelayState.extend st (InferState.fields (\<lambda>_. None) (\<lambda>_. None))))
             (\<lambda>(_, st). Inr (func, RelayState.truncate st)))"

end
