(* ===== verification/Relay_InferProofs.thy ===== *)
theory Relay_InferProofs
  imports Relay_Infer Relay_TypeProofs
begin

text \<open>
  What the annotating passes guarantee on a well-formed graph, one in which an address
  belongs to one node: \<^verbatim>\<open>AnnotateMemoryScopePass\<close> gives every node with a device a scope and
  changes nothing else, and the types \<^verbatim>\<open>InferTypePass\<close> writes into the graph satisfy the
  typing rule of every node.
\<close>

section \<open>Graphs\<close>

text \<open>The nodes reachable from a reference.\<close>

function rsubs :: "'d rexpr \<Rightarrow> 'd rexpr set" where
  "rsubs e = insert e (\<Union>c\<in>set (relay_children e). rsubs c)"
  by pat_completeness auto
termination by (relation "measure rsize") auto

declare rsubs.simps [simp del]

definition graph_set :: "'d rexpr set \<Rightarrow> bool" where
  "graph_set G \<longleftrightarrow> (\<forall>s\<in>G. \<forall>t\<in>G. node_ptr s = node_ptr t \<longrightarrow> s = t) \<and>
     (\<forall>s\<in>G. rsubs s \<subseteq> G)"

definition wf_graph :: "'d rexpr \<Rightarrow> bool" where
  "wf_graph e \<longleftrightarrow> (\<forall>s\<in>rsubs e. \<forall>t\<in>rsubs e. node_ptr s = node_ptr t \<longrightarrow> s = t)"

definition ptrs :: "'d rexpr set \<Rightarrow> nat set" where
  "ptrs S = {p. \<exists>s\<in>S. node_ptr s = Some p}"

lemma rsubs_self [simp]: "e \<in> rsubs e"
  by (subst rsubs.simps) simp

lemma rsubs_child: "c \<in> set (relay_children e) \<Longrightarrow> rsubs c \<subseteq> rsubs e"
  by (subst (2) rsubs.simps) auto

lemma rsubs_mono: "s \<in> rsubs e \<Longrightarrow> rsubs s \<subseteq> rsubs e"
proof (induction e rule: measure_induct_rule [where f = rsize])
  case (less e)
  show ?case
  proof (cases "s = e")
    case False
    then obtain c where c: "c \<in> set (relay_children e)" "s \<in> rsubs c"
      using less.prems by (subst (asm) rsubs.simps) auto
    then show ?thesis using less.IH [OF rsize_child [OF c(1)] c(2)] rsubs_child [OF c(1)] by blast
  qed simp
qed

lemma rsize_rsubs: "s \<in> rsubs e \<Longrightarrow> s = e \<or> rsize s < rsize e"
proof (induction e rule: measure_induct_rule [where f = rsize])
  case (less e)
  show ?case
  proof (cases "s = e")
    case False
    then obtain c where c: "c \<in> set (relay_children e)" "s \<in> rsubs c"
      using less.prems by (subst (asm) rsubs.simps) auto
    then show ?thesis using less.IH [OF rsize_child [OF c(1)] c(2)] rsize_child [OF c(1)] by (auto intro: less_trans)
  qed simp
qed

lemma rsubs_leaf: "relay_children e = [] \<Longrightarrow> rsubs e = {e}"
  by (subst rsubs.simps) simp

lemma wf_graph_set: "wf_graph e \<Longrightarrow> graph_set (rsubs e)"
  by (auto simp: wf_graph_def graph_set_def dest: rsubs_mono)

lemma graph_setD: "graph_set G \<Longrightarrow> s \<in> G \<Longrightarrow> t \<in> G \<Longrightarrow> node_ptr s = node_ptr t \<Longrightarrow> s = t"
  by (auto simp: graph_set_def)

lemma graph_set_child: "graph_set G \<Longrightarrow> e \<in> G \<Longrightarrow> c \<in> set (relay_children e) \<Longrightarrow> c \<in> G"
  unfolding graph_set_def using rsubs_child rsubs_self by blast

lemma graph_set_sub: "graph_set G \<Longrightarrow> e \<in> G \<Longrightarrow> rsubs e \<subseteq> G"
  by (auto simp: graph_set_def)

lemma node_ptr_None: "node_ptr e = None \<longleftrightarrow> e = RUndef"
  by (cases e) simp_all

section \<open>The depth-first visit\<close>

text \<open>
  Nodes smaller than the one being visited that have been seen have been explored: the
  nodes still in progress are ancestors, hence larger.
\<close>

definition explored :: "'d rexpr set \<Rightarrow> nat set \<Rightarrow> nat \<Rightarrow> bool" where
  "explored G V n \<longleftrightarrow> (\<forall>s\<in>G. \<forall>p\<in>V. node_ptr s = Some p \<and> rsize s < n \<longrightarrow> ptrs (rsubs s) \<subseteq> V)"

lemma explored_Un:
  assumes "graph_set G" "explored G V n" "c \<in> G"
  shows "explored G (V \<union> ptrs (rsubs c)) n"
  unfolding explored_def
proof (intro ballI impI)
  fix s p assume s: "s \<in> G" "p \<in> V \<union> ptrs (rsubs c)" "node_ptr s = Some p \<and> rsize s < n"
  show "ptrs (rsubs s) \<subseteq> V \<union> ptrs (rsubs c)"
  proof (cases "p \<in> V")
    case True
    then show ?thesis using assms(2) s unfolding explored_def by blast
  next
    case False
    then obtain t where t: "t \<in> rsubs c" "node_ptr t = Some p" using s(2) by (auto simp: ptrs_def)
    then have "s = t"
      using graph_setD [OF assms(1) s(1), of t] graph_set_sub [OF assms(1,3)] s(3) by auto
    then have "rsubs s \<subseteq> rsubs c" using rsubs_mono t(1) by blast
    then show ?thesis by (auto simp: ptrs_def)
  qed
qed

definition fresh_nodes :: "'d rexpr set \<Rightarrow> nat set \<Rightarrow> 'd rexpr set" where
  "fresh_nodes S V = {s \<in> S. \<exists>p. node_ptr s = Some p \<and> p \<notin> V}"

definition visit_ok :: "('d rexpr \<Rightarrow> 's \<Rightarrow> 's) \<Rightarrow> 'd rexpr set \<Rightarrow> (nat set \<times> 's \<Rightarrow> nat set \<times> 's) \<Rightarrow>
    nat set \<Rightarrow> 's \<Rightarrow> bool" where
  "visit_ok f S g V st \<longleftrightarrow> (\<exists>ns. g (V, st) = (V \<union> ptrs S, fold f ns st) \<and> distinct ns \<and>
     set ns = fresh_nodes S V)"

lemma fresh_nodes_Un:
  assumes "graph_set G" "S \<union> T \<subseteq> G"
  shows "fresh_nodes (S \<union> T) V = fresh_nodes S V \<union> fresh_nodes T (V \<union> ptrs S)"
proof -
  have "x \<in> S" if "x \<in> T" "s \<in> S" "node_ptr x = Some p" "node_ptr s = Some p" for x s p
    using graph_setD [OF assms(1), of x s] assms(2) that by auto
  then show ?thesis unfolding fresh_nodes_def ptrs_def by blast
qed

lemma visit_list:
  assumes "graph_set G" "set cs \<subseteq> G" "explored G V n"
    and "\<And>c V st. c \<in> set cs \<Longrightarrow> explored G V n \<Longrightarrow> visit_ok f (rsubs c) (g c) V st"
  shows "visit_ok f (\<Union>c\<in>set cs. rsubs c) (fold g cs) V st"
  using assms(2-)
proof (induction cs arbitrary: V st)
  case Nil
  then show ?case by (simp add: visit_ok_def ptrs_def fresh_nodes_def)
next
  case (Cons c cs V st)
  let ?V = "V \<union> ptrs (rsubs c)" and ?S = "\<Union>c\<in>set cs. rsubs c"
  obtain ns where ns: "g c (V, st) = (?V, fold f ns st)" "distinct ns" "set ns = fresh_nodes (rsubs c) V"
    using Cons.prems(3) [of c V st] Cons.prems(2) by (auto simp: visit_ok_def)
  have "explored G ?V n" using explored_Un [OF assms(1) Cons.prems(2)] Cons.prems(1) by simp
  then have "visit_ok f ?S (fold g cs) ?V (fold f ns st)"
    using Cons.IH Cons.prems(1,3) by simp
  then obtain ms where ms: "fold g cs (?V, fold f ns st) = (?V \<union> ptrs ?S, fold f ms (fold f ns st))"
      "distinct ms" "set ms = fresh_nodes ?S ?V"
    by (auto simp: visit_ok_def)
  have "set ns \<inter> set ms = {}" using ns(3) ms(3) by (auto simp: fresh_nodes_def ptrs_def)
  moreover have "ptrs (rsubs c \<union> ?S) = ptrs (rsubs c) \<union> ptrs ?S" by (auto simp: ptrs_def)
  moreover have "rsubs c \<union> ?S \<subseteq> G"
    using graph_set_sub [OF assms(1)] Cons.prems(1) by auto
  ultimately have "fold g (c # cs) (V, st) = (V \<union> ptrs (rsubs c \<union> ?S), fold f (ns @ ms) st)"
      "distinct (ns @ ms)" "set (ns @ ms) = fresh_nodes (rsubs c \<union> ?S) V"
    using ns ms by (simp_all add: Un_assoc fresh_nodes_Un [OF assms(1)])
  moreover have "(\<Union>x\<in>set (c # cs). rsubs x) = rsubs c \<union> ?S" by simp
  ultimately show ?case unfolding visit_ok_def by (intro exI [of _ "ns @ ms"]) simp
qed

text \<open>The visit applies \<open>f\<close> once to every node reachable from \<open>e\<close> and not seen before.\<close>

lemma VisitRelayExpr_spec:
  assumes "graph_set G" "e \<in> G" "explored G V (Suc (rsize e))"
  shows "visit_ok f (rsubs e) (VisitRelayExpr f e) V st"
  using assms(2,3)
proof (induction e arbitrary: V st rule: measure_induct_rule [where f = rsize])
  case (less e V st)
  show ?case
  proof (cases "node_ptr e")
    case None
    then have "e = RUndef" by (simp add: node_ptr_None)
    then show ?thesis
      unfolding visit_ok_def
      by (intro exI [of _ "[]"], subst VisitRelayExpr.simps) (auto simp: rsubs_leaf ptrs_def fresh_nodes_def)
  next
    case (Some p)
    show ?thesis
    proof (cases "p \<in> V")
      case True
      then have sub: "ptrs (rsubs e) \<subseteq> V"
        using less.prems Some unfolding explored_def by blast
      then have "fresh_nodes (rsubs e) V = {}" by (auto simp: fresh_nodes_def ptrs_def)
      then show ?thesis using sub Some True
        unfolding visit_ok_def by (subst VisitRelayExpr.simps) (simp add: Un_absorb2)
    next
      case False
      let ?cs = "relay_children e" and ?V = "insert p V"
      let ?S = "\<Union>c\<in>set ?cs. rsubs c"
      have ex: "explored G ?V (rsize e)"
        unfolding explored_def
      proof (intro ballI impI)
        fix s q assume s: "s \<in> G" "q \<in> ?V" "node_ptr s = Some q \<and> rsize s < rsize e"
        then have "q \<noteq> p" using graph_setD [OF assms(1) s(1) less.prems(1)] Some by auto
        then show "ptrs (rsubs s) \<subseteq> ?V" using less.prems(2) s unfolding explored_def by fastforce
      qed
      have cs: "set ?cs \<subseteq> G" using graph_set_child [OF assms(1) less.prems(1)] by blast
      have "visit_ok f ?S (fold (VisitRelayExpr f) ?cs) ?V (f e st)"
      proof (rule visit_list [OF assms(1) cs ex])
        fix c W t assume c: "c \<in> set ?cs" "explored G W (rsize e)"
        have "explored G W (Suc (rsize c))"
          using c rsize_child [OF c(1)] unfolding explored_def by (meson less_le_trans Suc_leI)
        then show "visit_ok f (rsubs c) (VisitRelayExpr f c) W t"
          using less.IH [OF rsize_child [OF c(1)]] cs c(1) by blast
      qed
      then obtain ns where ns: "fold (VisitRelayExpr f) ?cs (?V, f e st) = (?V \<union> ptrs ?S, fold f ns (f e st))"
          "distinct ns" "set ns = fresh_nodes ?S ?V"
        by (auto simp: visit_ok_def)
      have "VisitRelayExpr f e (V, st) = (V \<union> ptrs (rsubs e), fold f (e # ns) st)"
        using Some False ns(1)
        by (subst VisitRelayExpr.simps, subst rsubs.simps) (auto simp: ptrs_def)
      moreover have "distinct (e # ns)" using ns(2,3) Some by (simp add: fresh_nodes_def)
      moreover have "set (e # ns) = fresh_nodes (rsubs e) V"
      proof -
        have e: "rsubs e = {e} \<union> ?S" by (subst rsubs.simps) simp
        have "fresh_nodes (rsubs e) V = fresh_nodes {e} V \<union> fresh_nodes ?S (V \<union> ptrs {e})"
          unfolding e by (rule fresh_nodes_Un [OF assms(1)])
            (use graph_set_sub [OF assms(1) less.prems(1)] e in auto)
        moreover have "V \<union> ptrs {e} = ?V" "fresh_nodes {e} V = {e}"
          using Some False by (auto simp: fresh_nodes_def ptrs_def)
        ultimately show ?thesis using ns(3) by simp
      qed
      ultimately show ?thesis unfolding visit_ok_def by blast
    qed
  qed
qed

section \<open>Memory scopes\<close>

text \<open>The device \<open>d'\<close> a node with device \<open>d\<close> ends up with: the same, or a scoped copy of it.\<close>

definition scoped_device :: "'d rexpr \<Rightarrow> VirtualDevice \<Rightarrow> VirtualDevice \<Rightarrow> bool" where
  "scoped_device e d d' =
     (if vd_memory_scope d \<noteq> [] then d' = d
      else d' = d\<lparr>vd_ptr := vd_ptr d',
                  vd_memory_scope := (case e of RConst _ _ \<Rightarrow> ''const'' | _ \<Rightarrow> ''global'')\<rparr>)"

lemma annotate_scope_effect:
  "checked_type (annotate_scope e st) = checked_type st"
  "node_addr e = Some b \<Longrightarrow>
     rel_option (scoped_device e) (virtual_device st b) (virtual_device (annotate_scope e st) b)"
  "node_addr e \<noteq> Some b \<Longrightarrow> virtual_device (annotate_scope e st) b = virtual_device st b"
  by (auto simp: annotate_scope_def scoped_device_def WithMemoryScope_def Let_def split: option.splits)

lemma fold_annotate_scope:
  assumes "\<forall>s\<in>set ns. \<forall>t\<in>set ns. node_ptr s = node_ptr t \<longrightarrow> s = t" "distinct ns"
  shows "checked_type (fold annotate_scope ns st) = checked_type st"
    and "s \<in> set ns \<Longrightarrow> node_addr s = Some b \<Longrightarrow>
      rel_option (scoped_device s) (virtual_device st b) (virtual_device (fold annotate_scope ns st) b)"
    and "(\<And>s. s \<in> set ns \<Longrightarrow> node_addr s \<noteq> Some b) \<Longrightarrow>
      virtual_device (fold annotate_scope ns st) b = virtual_device st b"
proof -
  show "checked_type (fold annotate_scope ns st) = checked_type st"
    by (induction ns arbitrary: st) (simp_all add: annotate_scope_effect)
  have none: "virtual_device (fold annotate_scope ns st) b = virtual_device st b"
    if "\<And>s. s \<in> set ns \<Longrightarrow> node_addr s \<noteq> Some b" for ns :: "'a rexpr list" and st :: "'b RelayState_scheme"
    using that by (induction ns arbitrary: st) (simp_all add: annotate_scope_effect)
  then show "(\<And>s. s \<in> set ns \<Longrightarrow> node_addr s \<noteq> Some b) \<Longrightarrow>
      virtual_device (fold annotate_scope ns st) b = virtual_device st b" by blast
  show "s \<in> set ns \<Longrightarrow> node_addr s = Some b \<Longrightarrow>
      rel_option (scoped_device s) (virtual_device st b) (virtual_device (fold annotate_scope ns st) b)"
    using assms
  proof (induction ns arbitrary: st)
    case (Cons n ns)
    have ptr: "node_addr t = Some b \<Longrightarrow> node_ptr t = Some b" for t :: "'a rexpr" by (cases t) auto
    show ?case
    proof (cases "n = s")
      case True
      then have "node_addr t \<noteq> Some b" if "t \<in> set ns" for t
        using Cons.prems that ptr by (metis distinct.simps(2) list.set_intros)
      then show ?thesis using True Cons.prems(2) none by (simp add: annotate_scope_effect)
    next
      case False
      then have "node_addr n \<noteq> Some b" using Cons.prems ptr by (metis list.set_intros(1))
      then have "virtual_device (annotate_scope n st) b = virtual_device st b"
        by (rule annotate_scope_effect)
      then show ?thesis using Cons.IH [of "annotate_scope n st"] Cons.prems False by simp
    qed
  qed simp
qed

text \<open>
\<^verbatim>\<open>AnnotateMemoryScopePass\<close> on a well-formed graph: it returns the same function, every reachable
node that has a device without a memory scope gets the scope "const" if it is a constant and
"global" otherwise, a scope that is set stays, and no other annotation of any node changes.
\<close>

lemma annotate_memory_scope_spec:
  assumes "wf_graph func" "AnnotateMemoryScopePass func st = Inr (out, st')"
  shows "out = func \<and> checked_type st' = checked_type st \<and>
     (\<forall>s\<in>rsubs func. \<forall>a. node_addr s = Some a \<longrightarrow>
        rel_option (scoped_device s) (virtual_device st a) (virtual_device st' a)) \<and>
     (\<forall>a. a \<notin> ptrs (rsubs func) \<longrightarrow> virtual_device st' a = virtual_device st a)"
proof (cases "func = RUndef")
  case True
  then show ?thesis using assms(2) by (auto simp: AnnotateMemoryScopePass_def rsubs_leaf)
next
  case False
  have G: "graph_set (rsubs func)" using assms(1) by (rule wf_graph_set)
  have "visit_ok annotate_scope (rsubs func) (VisitRelayExpr annotate_scope func) {} st"
    by (rule VisitRelayExpr_spec [OF G]) (simp_all add: explored_def)
  then obtain ns where ns: "snd (VisitRelayExpr annotate_scope func ({}, st)) = fold annotate_scope ns st"
      "distinct ns" "set ns = fresh_nodes (rsubs func) {}"
    by (auto simp: visit_ok_def)
  have out: "out = func" "st' = fold annotate_scope ns st"
    using assms(2) False ns(1) by (auto simp: AnnotateMemoryScopePass_def)
  have inj: "\<forall>s\<in>set ns. \<forall>t\<in>set ns. node_ptr s = node_ptr t \<longrightarrow> s = t"
    using ns(3) graph_setD [OF G] by (auto simp: fresh_nodes_def)
  have addr: "node_addr s = Some a \<Longrightarrow> node_ptr s = Some a" for s :: "'a rexpr" and a
    by (cases s) auto
  have other: "node_addr s \<noteq> Some a" if "a \<notin> ptrs (rsubs func)" "s \<in> set ns" for s a
    using that addr ns(3) by (auto simp: fresh_nodes_def ptrs_def)
  have "s \<in> set ns" if "s \<in> rsubs func" "node_addr s = Some a" for s a
    using that addr ns(3) by (auto simp: fresh_nodes_def)
  then show ?thesis
    using fold_annotate_scope [OF inj ns(2)] other unfolding out by blast
qed

section \<open>The typing rules\<close>

text \<open>The rule of one node, for an assignment \<open>\<tau>\<close> of types to nodes.\<close>

fun typed_node :: "('d rexpr \<Rightarrow> RType) \<Rightarrow> 'd rexpr \<Rightarrow> bool" where
  "typed_node \<tau> (RConst a d) \<longleftrightarrow> InferConstant d = Inr (\<tau> (RConst a d))"
| "typed_node \<tau> (RCall a op args ats) \<longleftrightarrow>
     (\<exists>b nm. op = ROp b nm \<and> UndefinedType \<notin> \<tau> ` set args \<and>
        InferCall nm ats (map \<tau> args) = Inr (\<tau> (RCall a op args ats)))"
| "typed_node \<tau> (RFunction a ps b) \<longleftrightarrow>
     (\<forall>p\<in>set ps. \<tau> (RVar p) = rv_annotation p \<and> (\<exists>s d. rv_annotation p = TensorType s d)) \<and>
     \<tau> (RFunction a ps b) = \<tau> b"
| "typed_node \<tau> (RIf a c t f) \<longleftrightarrow>
     \<tau> c = TensorType [] ''bool'' \<and> \<tau> t = \<tau> f \<and> \<tau> (RIf a c t f) = \<tau> t"
| "typed_node \<tau> (RLet a x v b) \<longleftrightarrow>
     \<tau> (RVar x) = \<tau> v \<and> (rv_annotation x \<noteq> UndefinedType \<longrightarrow> rv_annotation x = \<tau> v) \<and>
     \<tau> (RLet a x v b) = \<tau> b"
| "typed_node \<tau> (RTuple a fs) \<longleftrightarrow> \<tau> (RTuple a fs) = TupleType (map \<tau> fs)"
| "typed_node \<tau> (RTupleGetItem a t i) \<longleftrightarrow> InferGetItem (\<tau> t) i = Inr (\<tau> (RTupleGetItem a t i))"
| "typed_node \<tau> (ROther a) \<longleftrightarrow> False"
| "typed_node \<tau> _ \<longleftrightarrow> True"

lemma typed_node_cong:
  "(\<And>c. c = s \<or> c \<in> set (relay_children s) \<Longrightarrow> \<tau> c = \<tau>' c) \<Longrightarrow> typed_node \<tau> s = typed_node \<tau>' s"
  by (cases s) (auto cong: map_cong image_cong_simp)

text \<open>
  Scoping: every variable that occurs is bound by an enclosing function or \<^verbatim>\<open>Let\<close>, and by
  one binder only.
\<close>

fun scoped :: "nat set \<Rightarrow> 'd rexpr \<Rightarrow> bool" where
  "scoped \<Gamma> (RVar v) \<longleftrightarrow> rv_addr v \<in> \<Gamma>"
| "scoped \<Gamma> (RCall _ op args _) \<longleftrightarrow> (\<forall>e\<in>set args. scoped \<Gamma> e)"
| "scoped \<Gamma> (RFunction _ ps b) \<longleftrightarrow> scoped (\<Gamma> \<union> rv_addr ` set ps) b"
| "scoped \<Gamma> (RIf _ c t f) \<longleftrightarrow> scoped \<Gamma> c \<and> scoped \<Gamma> t \<and> scoped \<Gamma> f"
| "scoped \<Gamma> (RLet _ x v b) \<longleftrightarrow> scoped \<Gamma> v \<and> scoped (insert (rv_addr x) \<Gamma>) b"
| "scoped \<Gamma> (RTuple _ fs) \<longleftrightarrow> (\<forall>e\<in>set fs. scoped \<Gamma> e)"
| "scoped \<Gamma> (RTupleGetItem _ t _) \<longleftrightarrow> scoped \<Gamma> t"
| "scoped \<Gamma> _ \<longleftrightarrow> True"

definition binder_addrs :: "'d rexpr \<Rightarrow> nat set" where
  "binder_addrs e = rv_addr ` node_binders e"

definition unique_binders :: "'d rexpr set \<Rightarrow> bool" where
  "unique_binders G \<longleftrightarrow> (\<forall>s\<in>G. \<forall>t\<in>G. binder_addrs s \<inter> binder_addrs t \<noteq> {} \<longrightarrow> s = t) \<and>
     (\<forall>s\<in>G. case s of RFunction _ ps _ \<Rightarrow> distinct (map rv_addr ps) | _ \<Rightarrow> True)"

section \<open>The invariant of the inferencer\<close>

text \<open>The type the inferencer has found for a node so far, and whether it has found one.\<close>

definition type_at :: "'s InferState_scheme \<Rightarrow> 'd rexpr \<Rightarrow> RType" where
  "type_at st e =
     (case (case e of RVar v \<Rightarrow> var_env st (rv_addr v)
            | ROp _ _ \<Rightarrow> None
            | _ \<Rightarrow> (case node_ptr e of Some a \<Rightarrow> memo st a | None \<Rightarrow> None)) of
        Some t \<Rightarrow> t | None \<Rightarrow> UndefinedType)"

fun found :: "'s InferState_scheme \<Rightarrow> 'd rexpr \<Rightarrow> bool" where
  "found st RUndef \<longleftrightarrow> True"
| "found st (ROp _ _) \<longleftrightarrow> True"
| "found st (RVar v) \<longleftrightarrow> var_env st (rv_addr v) \<noteq> None"
| "found st e \<longleftrightarrow> memo st (the (node_ptr e)) \<noteq> None"

definition is_var :: "'d rexpr \<Rightarrow> bool" where
  "is_var e = (case e of RVar _ \<Rightarrow> True | _ \<Rightarrow> False)"

definition node_ok :: "'s InferState_scheme \<Rightarrow> 'd rexpr \<Rightarrow> bool" where
  "node_ok st s \<longleftrightarrow> (\<forall>c\<in>rsubs s. found st c) \<and> typed_node (type_at st) s"

definition infer_inv :: "'d rexpr set \<Rightarrow> 's InferState_scheme \<Rightarrow> bool" where
  "infer_inv G st \<longleftrightarrow>
     (\<forall>v t. RVar v \<in> G \<and> memo st (rv_addr v) = Some t \<longrightarrow> var_env st (rv_addr v) = Some t) \<and>
     (\<forall>v t. RVar v \<in> G \<and> var_env st (rv_addr v) = Some t \<and> t \<noteq> UndefinedType \<longrightarrow>
        checked_type st (rv_addr v) = t) \<and>
     (\<forall>s\<in>G. \<forall>a t. \<not> is_var s \<and> node_ptr s = Some a \<and> memo st a = Some t \<longrightarrow>
        node_ok st s \<and> (t \<noteq> UndefinedType \<longrightarrow> checked_type st a = t)) \<and>
     (\<forall>s\<in>G. case s of ROp a _ \<Rightarrow> memo st a = None \<or> memo st a = Some UndefinedType | _ \<Rightarrow> True)"

definition grows :: "'s InferState_scheme \<Rightarrow> 's InferState_scheme \<Rightarrow> bool" where
  "grows st st' \<longleftrightarrow> memo st \<subseteq>\<^sub>m memo st' \<and> var_env st \<subseteq>\<^sub>m var_env st'"

lemma grows_refl [simp]: "grows st st"
  by (simp add: grows_def)

lemma grows_trans: "grows a b \<Longrightarrow> grows b c \<Longrightarrow> grows a c"
  unfolding grows_def by (meson map_le_trans)

lemma map_le_Some: "m \<subseteq>\<^sub>m m' \<Longrightarrow> m a = Some t \<Longrightarrow> m' a = Some t"
  by (metis domI map_le_def)

lemma found_grows: "grows st st' \<Longrightarrow> found st c \<Longrightarrow> found st' c"
  by (cases c) (auto simp: grows_def dest: map_le_Some)

lemma type_at_grows:
  assumes "grows st st'" "found st c"
  shows "type_at st' c = type_at st c"
  using assms by (cases c) (auto simp: grows_def type_at_def dest: map_le_Some)

lemma node_ok_grows: "grows st st' \<Longrightarrow> node_ok st s \<Longrightarrow> node_ok st' s"
proof -
  assume g: "grows st st'" and ok: "node_ok st s"
  have "type_at st' c = type_at st c" if "c = s \<or> c \<in> set (relay_children s)" for c
  proof -
    have "c \<in> rsubs s" using that rsubs_child rsubs_self by blast
    then show ?thesis using ok type_at_grows [OF g, of c] by (simp add: node_ok_def)
  qed
  then have "typed_node (type_at st') s = typed_node (type_at st) s" by (rule typed_node_cong)
  then show ?thesis using ok by (simp add: node_ok_def found_grows [OF g])
qed

lemma infer_invD:
  assumes "infer_inv G st"
  shows "RVar v \<in> G \<Longrightarrow> memo st (rv_addr v) = Some t \<Longrightarrow> var_env st (rv_addr v) = Some t"
    and "RVar v \<in> G \<Longrightarrow> var_env st (rv_addr v) = Some t \<Longrightarrow> t \<noteq> UndefinedType \<Longrightarrow>
      checked_type st (rv_addr v) = t"
    and "s \<in> G \<Longrightarrow> \<not> is_var s \<Longrightarrow> node_ptr s = Some a \<Longrightarrow> memo st a = Some t \<Longrightarrow> node_ok st s"
    and "s \<in> G \<Longrightarrow> \<not> is_var s \<Longrightarrow> node_ptr s = Some a \<Longrightarrow> memo st a = Some t \<Longrightarrow> t \<noteq> UndefinedType \<Longrightarrow>
      checked_type st a = t"
    and "ROp b nm \<in> G \<Longrightarrow> memo st b = Some t \<Longrightarrow> t = UndefinedType"
proof -
  show "ROp b nm \<in> G \<Longrightarrow> memo st b = Some t \<Longrightarrow> t = UndefinedType"
    using assms unfolding infer_inv_def by fastforce
qed (use assms in \<open>unfold infer_inv_def, blast+\<close>)

text \<open>
  A step of the inferencer that only adds entries, and changes no annotation of a node or
  variable whose type is found, keeps the invariant for everything found before.
\<close>

lemma infer_invI:
  assumes inv: "infer_inv G st" and g: "grows st st'"
    and vars: "\<And>v t. RVar v \<in> G \<Longrightarrow> memo st' (rv_addr v) = Some t \<Longrightarrow>
      memo st (rv_addr v) = None \<Longrightarrow> var_env st' (rv_addr v) = Some t"
    and bound: "\<And>v t. RVar v \<in> G \<Longrightarrow> var_env st' (rv_addr v) = Some t \<Longrightarrow>
      var_env st (rv_addr v) = None \<Longrightarrow> t \<noteq> UndefinedType \<Longrightarrow> checked_type st' (rv_addr v) = t"
    and checked_var: "\<And>v. RVar v \<in> G \<Longrightarrow> var_env st (rv_addr v) \<noteq> None \<Longrightarrow>
      var_env st (rv_addr v) \<noteq> Some UndefinedType \<Longrightarrow>
      checked_type st' (rv_addr v) = checked_type st (rv_addr v)"
    and checked: "\<And>s a. s \<in> G \<Longrightarrow> \<not> is_var s \<Longrightarrow> node_ptr s = Some a \<Longrightarrow> memo st a \<noteq> None \<Longrightarrow>
      checked_type st' a = checked_type st a"
    and new: "\<And>s a t. s \<in> G \<Longrightarrow> \<not> is_var s \<Longrightarrow> node_ptr s = Some a \<Longrightarrow> memo st' a = Some t \<Longrightarrow>
      memo st a = None \<Longrightarrow> node_ok st' s \<and> (t \<noteq> UndefinedType \<longrightarrow> checked_type st' a = t)"
    and ops: "\<And>b nm t. ROp b nm \<in> G \<Longrightarrow> memo st' b = Some t \<Longrightarrow> memo st b = None \<Longrightarrow> t = UndefinedType"
  shows "infer_inv G st'"
proof -
  have mem: "memo st' a = Some t" if "memo st a = Some t" for a t
    using g that by (auto simp: grows_def dest: map_le_Some)
  have env: "var_env st' a = Some t" if "var_env st a = Some t" for a t
    using g that by (auto simp: grows_def dest: map_le_Some)
  have 1: "var_env st' (rv_addr v) = Some t" if "RVar v \<in> G" "memo st' (rv_addr v) = Some t" for v t
    using that vars mem env infer_invD(1) [OF inv that(1)] by (cases "memo st (rv_addr v)") fastforce+
  have 2: "checked_type st' (rv_addr v) = t"
    if "RVar v \<in> G" "var_env st' (rv_addr v) = Some t" "t \<noteq> UndefinedType" for v t
    using that bound env infer_invD(2) [OF inv that(1)] checked_var [OF that(1)]
    by (cases "var_env st (rv_addr v)") fastforce+
  have 3: "node_ok st' s \<and> (t \<noteq> UndefinedType \<longrightarrow> checked_type st' a = t)"
    if "s \<in> G" "\<not> is_var s" "node_ptr s = Some a" "memo st' a = Some t" for s a t
  proof (cases "memo st a")
    case None
    then show ?thesis using new that by blast
  next
    case (Some t')
    then have "t' = t" using mem that(4) by fastforce
    then show ?thesis
      using Some infer_invD(3,4) [OF inv that(1-3)] node_ok_grows [OF g] checked [OF that(1-3)] by auto
  qed
  have 4: "case s of ROp a _ \<Rightarrow> memo st' a = None \<or> memo st' a = Some UndefinedType | _ \<Rightarrow> True"
    if "s \<in> G" for s
  proof (cases s)
    case (ROp a nm)
    then show ?thesis
      using that ops [of a nm] infer_invD(5) [OF inv, of a nm] mem
      by (cases "memo st a"; cases "memo st' a") fastforce+
  qed simp_all
  show ?thesis unfolding infer_inv_def using 1 2 3 4 by blast
qed

text \<open>Binding a variable that is not bound yet.\<close>

lemma infer_inv_bind:
  assumes "graph_set G" "infer_inv G st" "RVar x \<in> G" "var_env st (rv_addr x) = None"
  shows "infer_inv G (bind_var x t st)" and "grows st (bind_var x t st)"
proof -
  show g: "grows st (bind_var x t st)"
    using assms(4) by (auto simp: grows_def bind_var_def map_le_def domIff)
  show "infer_inv G (bind_var x t st)"
  proof (rule infer_invI [OF assms(2) g])
    fix s a assume "s \<in> G" "\<not> is_var s" "node_ptr s = Some a"
    then have "a \<noteq> rv_addr x"
      using graph_setD [OF assms(1) \<open>s \<in> G\<close> assms(3)] by (auto simp: is_var_def)
    then show "checked_type (bind_var x t st) a = checked_type st a" by (simp add: bind_var_def)
  next
    fix v u assume "RVar v \<in> G" "var_env (bind_var x t st) (rv_addr v) = Some u" "var_env st (rv_addr v) = None"
    then show "checked_type (bind_var x t st) (rv_addr v) = u" by (simp add: bind_var_def split: if_splits)
  qed (use assms(4) in \<open>auto simp: bind_var_def\<close>)
qed

text \<open>Recording the type of a node whose rule holds.\<close>

lemma infer_inv_record:
  assumes "graph_set G" "infer_inv G st" "s \<in> G" "\<not> is_var s" "node_ptr s = Some a" "memo st a = None"
    and subs: "\<And>c. c \<in> rsubs s \<Longrightarrow> c \<noteq> s \<Longrightarrow> found st c"
    and typed: "typed_node (\<lambda>c. if c = s then t else type_at st c) s"
    and op: "\<And>b nm. s = ROp b nm \<Longrightarrow> t = UndefinedType"
    and st': "record_type a (t, st) = Inr (t', st')"
  shows "infer_inv G st'" and "grows st st'" and "type_at st' s = t" and "found st' s"
    and "memo st' = (memo st)(a \<mapsto> t)" and "var_env st' = var_env st" and "t' = t"
proof -
  show m: "memo st' = (memo st)(a \<mapsto> t)" and v: "var_env st' = var_env st" and "t' = t"
    using st' by (auto simp: record_type_def Let_def)
  have c: "checked_type st' b = (if b = a \<and> t \<noteq> UndefinedType then t else checked_type st b)" for b
    using st' by (auto simp: record_type_def Let_def)
  show g: "grows st st'" using m v assms(6) by (auto simp: grows_def map_le_def domIff)
  show ts: "type_at st' s = t"
    using assms(4,5) m op by (cases s) (auto simp: type_at_def is_var_def)
  show f: "found st' s" using assms(4,5) m by (cases s) (auto simp: is_var_def)
  have same: "s' = s" if "s' \<in> G" "node_ptr s' = Some a" for s'
    using graph_setD [OF assms(1) that(1) assms(3)] that(2) assms(5) by simp
  have ok: "node_ok st' s"
    unfolding node_ok_def
  proof
    show "\<forall>c\<in>rsubs s. found st' c" using subs f found_grows [OF g] by blast
    have "type_at st' c = (if c = s then t else type_at st c)" if "c = s \<or> c \<in> set (relay_children s)" for c
    proof (cases "c = s")
      case False
      then have "c \<in> rsubs s" using that rsubs_child rsubs_self by blast
      then show ?thesis using False subs type_at_grows [OF g, of c] by simp
    qed (simp add: ts)
    then have "typed_node (type_at st') s = typed_node (\<lambda>c. if c = s then t else type_at st c) s"
      by (rule typed_node_cong)
    with typed show "typed_node (type_at st') s" by (rule iffD2 [rotated])
  qed
  show "infer_inv G st'"
  proof (rule infer_invI [OF assms(2) g])
    fix w u assume "RVar w \<in> G" "memo st' (rv_addr w) = Some u" "memo st (rv_addr w) = None"
    then have "rv_addr w = a" using m by (simp split: if_splits)
    then have "RVar w = s" using same [OF \<open>RVar w \<in> G\<close>] by simp
    then show "var_env st' (rv_addr w) = Some u" using assms(4) by (auto simp: is_var_def)
  next
    fix w assume "RVar w \<in> G"
    then have "rv_addr w \<noteq> a" using same [of "RVar w"] assms(4) by (auto simp: is_var_def)
    then show "checked_type st' (rv_addr w) = checked_type st (rv_addr w)" using c by simp
  next
    fix s' b assume "s' \<in> G" "node_ptr s' = Some b" "memo st b \<noteq> None"
    then show "checked_type st' b = checked_type st b" using c assms(6) by auto
  next
    fix s' b u assume s': "s' \<in> G" "node_ptr s' = Some b" "memo st' b = Some u" "memo st b = None"
    then have "b = a" "u = t" using m by (auto split: if_splits)
    then show "node_ok st' s' \<and> (u \<noteq> UndefinedType \<longrightarrow> checked_type st' b = u)"
      using ok same s'(1,2) c by simp
  next
    fix b nm u assume "ROp b nm \<in> G" "memo st' b = Some u" "memo st b = None"
    then show "u = UndefinedType" using m same [of "ROp b nm"] op by (auto split: if_splits)
  qed (use v in auto)
qed

section \<open>One visit\<close>

text \<open>
  A visit keeps the invariant, only adds entries, finds the types of the nodes \<open>S\<close>, and
  binds variables of the binders \<open>B\<close> only.
\<close>

definition infer_post ::
  "'d rexpr set \<Rightarrow> 'd rexpr set \<Rightarrow> 'd rexpr set \<Rightarrow> 's InferState_scheme \<Rightarrow> 's InferState_scheme \<Rightarrow> bool"
where
  "infer_post G S B st st' \<longleftrightarrow> infer_inv G st' \<and> grows st st' \<and>
     (\<forall>a. memo st' a \<noteq> memo st a \<longrightarrow> a \<in> ptrs S) \<and>
     (\<forall>x. var_env st' x \<noteq> var_env st x \<longrightarrow> (\<exists>s\<in>B. x \<in> binder_addrs s)) \<and>
     (\<forall>c\<in>S. found st' c)"

lemma infer_post_trans:
  assumes "infer_post G S B st st1" "infer_post G T C st1 st2"
  shows "infer_post G (S \<union> T) (B \<union> C) st st2"
proof -
  have "ptrs (S \<union> T) = ptrs S \<union> ptrs T" by (auto simp: ptrs_def)
  then have "a \<in> ptrs (S \<union> T)" if "memo st2 a \<noteq> memo st a" for a
    using that assms unfolding infer_post_def by (metis Un_iff)
  moreover have "\<exists>s\<in>B \<union> C. x \<in> binder_addrs s" if "var_env st2 x \<noteq> var_env st x" for x
    using that assms unfolding infer_post_def by (metis Un_iff)
  moreover have "found st2 c" if "c \<in> S \<union> T" for c
    using that assms found_grows unfolding infer_post_def by blast
  ultimately show ?thesis
    using assms grows_trans unfolding infer_post_def by blast
qed

lemma infer_post_refl:
  "infer_inv G st \<Longrightarrow> \<forall>c\<in>S. found st c \<Longrightarrow> infer_post G S B st st"
  by (simp add: infer_post_def)

definition unbound :: "'d rexpr set \<Rightarrow> 's InferState_scheme \<Rightarrow> nat \<Rightarrow> bool" where
  "unbound G st n \<longleftrightarrow> (\<forall>s\<in>G. \<forall>a. node_ptr s = Some a \<and> memo st a = None \<and> rsize s \<le> n \<longrightarrow>
     (\<forall>x\<in>binder_addrs s. var_env st x = None))"

lemma unbound_mono: "unbound G st n \<Longrightarrow> m \<le> n \<Longrightarrow> unbound G st m"
  unfolding unbound_def by (meson le_trans)

lemma found_binder: "x \<in> binder_addrs s \<Longrightarrow> node_ptr s = Some a \<Longrightarrow> found st s \<Longrightarrow> memo st a \<noteq> None"
  by (cases s) (auto simp: binder_addrs_def)

lemma unbound_post:
  assumes "unique_binders G" "infer_post G S B st st'" "B \<subseteq> G" "unbound G st n"
    and "\<And>s. s \<in> B \<Longrightarrow> s \<in> S \<or> n < rsize s"
  shows "unbound G st' n"
  unfolding unbound_def
proof (intro ballI allI impI)
  fix s a x assume s: "s \<in> G" "node_ptr s = Some a \<and> memo st' a = None \<and> rsize s \<le> n" "x \<in> binder_addrs s"
  have "memo st a = None"
    using s(2) assms(2) unfolding infer_post_def grows_def by (metis map_le_Some not_None_eq)
  then have st: "var_env st x = None" using assms(4) s unfolding unbound_def by blast
  show "var_env st' x = None"
  proof (rule ccontr)
    assume "var_env st' x \<noteq> None"
    then obtain s' where s': "s' \<in> B" "x \<in> binder_addrs s'"
      using st assms(2) unfolding infer_post_def by metis
    then have "s' = s" using assms(1,3) s(1,3) unfolding unique_binders_def by blast
    then have "found st' s" using assms(2,5) s' s(2) unfolding infer_post_def by fastforce
    then show False using found_binder s by blast
  qed
qed

definition infer_ok :: "'d rexpr set \<Rightarrow> 's itself \<Rightarrow> 'd rexpr \<Rightarrow> bool" where
  "infer_ok G T e \<longleftrightarrow> (\<forall>(st :: 's InferState_scheme) \<Gamma> t st'. infer_inv G st \<longrightarrow> unbound G st (rsize e) \<longrightarrow>
     scoped \<Gamma> e \<longrightarrow> (\<forall>x\<in>\<Gamma>. var_env st x \<noteq> None) \<longrightarrow> Infer e st = Inr (t, st') \<longrightarrow>
     infer_post G (rsubs e) (rsubs e) st st' \<and> type_at st' e = t)"

lemma infer_okD:
  fixes st :: "'s InferState_scheme"
  assumes "infer_ok G TYPE('s) e" "infer_inv G st" "unbound G st n" "rsize e \<le> n"
    "scoped \<Gamma> e" "\<forall>x\<in>\<Gamma>. var_env st x \<noteq> None" "Infer e st = Inr (t, st')"
  shows "infer_post G (rsubs e) (rsubs e) st st'" and "type_at st' e = t"
  using assms unbound_mono unfolding infer_ok_def by blast+

lemma post_env: "infer_post G S B st st' \<Longrightarrow> var_env st x \<noteq> None \<Longrightarrow> var_env st' x \<noteq> None"
  unfolding infer_post_def grows_def by (metis map_le_Some not_None_eq)

lemma post_type: "infer_post G S B st st' \<Longrightarrow> found st c \<Longrightarrow> type_at st' c = type_at st c"
  using type_at_grows unfolding infer_post_def by blast

lemma post_found: "infer_post G S B st st' \<Longrightarrow> c \<in> S \<Longrightarrow> found st' c"
  by (simp add: infer_post_def)

lemma post_inv: "infer_post G S B st st' \<Longrightarrow> infer_inv G st'"
  by (simp add: infer_post_def)

lemma infer_fields_post:
  fixes st :: "'s InferState_scheme"
  assumes "unique_binders G" "graph_set G" "\<forall>e\<in>set es. infer_ok G TYPE('s) e" "set es \<subseteq> G"
    and "infer_inv G st" "unbound G st n" "\<forall>e\<in>set es. rsize e \<le> n" "\<forall>e\<in>set es. scoped \<Gamma> e"
    and "\<forall>x\<in>\<Gamma>. var_env st x \<noteq> None" "InferFields es st = Inr (ts, st')"
  shows "infer_post G (\<Union>e\<in>set es. rsubs e) (\<Union>e\<in>set es. rsubs e) st st' \<and> map (type_at st') es = ts"
  using assms(3-)
proof (induction es arbitrary: st ts)
  case Nil
  then show ?case by (simp add: infer_post_refl)
next
  case (Cons e es)
  let ?S = "\<Union>e\<in>set es. rsubs e"
  obtain t st1 us where 1: "Infer e st = Inr (t, st1)" "InferFields es st1 = Inr (us, st')" "ts = t # us"
    using Cons.prems(8) by (auto simp: sbind_simps)
  have p: "infer_post G (rsubs e) (rsubs e) st st1" "type_at st1 e = t"
    using infer_okD [OF _ Cons.prems(3,4) _ _ Cons.prems(7) 1(1)] Cons.prems(1,5,6) by auto
  have "unbound G st1 n"
    using unbound_post [OF assms(1) p(1) _ Cons.prems(4)] graph_set_sub [OF assms(2)] Cons.prems(2) by auto
  then have q: "infer_post G ?S ?S st1 st'" "map (type_at st') es = us"
    using Cons.IH [OF _ _ post_inv [OF p(1)] _ _ _ _ 1(2)] Cons.prems post_env [OF p(1)] by auto
  have "type_at st' e = t" using post_type [OF q(1) post_found [OF p(1)], of e] p(2) by simp
  then show ?case using infer_post_trans [OF p(1) q(1)] q(2) 1(3) by simp
qed

lemma InferArgs_fields:
  "InferArgs nm es st = Inr (ts, st') \<Longrightarrow> InferFields es st = Inr (ts, st') \<and> UndefinedType \<notin> set ts"
  by (induction es arbitrary: st ts) (auto simp: sbind_simps split: if_splits)

lemma infer_params_post:
  assumes "graph_set G" "infer_inv G st" "distinct (map rv_addr ps)" "RVar ` set ps \<subseteq> G"
    and "\<forall>p\<in>set ps. var_env st (rv_addr p) = None" "InferParams ps st = Inr st'"
  shows "infer_inv G st' \<and> grows st st' \<and> memo st' = memo st \<and>
     (\<forall>x. var_env st' x \<noteq> var_env st x \<longrightarrow> x \<in> rv_addr ` set ps) \<and>
     (\<forall>p\<in>set ps. var_env st' (rv_addr p) = Some (rv_annotation p) \<and> (\<exists>s d. rv_annotation p = TensorType s d))"
  using assms(2-)
proof (induction ps arbitrary: st)
  case (Cons p ps)
  let ?st = "bind_var p (rv_annotation p) st"
  obtain s d where a: "rv_annotation p = TensorType s d" "InferParams ps ?st = Inr st'"
    using Cons.prems(5) by (auto split: RType.splits)
  have b: "infer_inv G ?st" "grows st ?st"
    using infer_inv_bind [OF assms(1) Cons.prems(1)] Cons.prems(3,4) by auto
  have "\<forall>q\<in>set ps. var_env ?st (rv_addr q) = None"
  proof
    fix q assume q: "q \<in> set ps"
    then have "rv_addr q \<noteq> rv_addr p" using Cons.prems(2) by (auto simp: rev_image_eqI)
    then show "var_env ?st (rv_addr q) = None" using Cons.prems(4) q by (simp add: bind_var_def)
  qed
  then have ih: "infer_inv G st' \<and> grows ?st st' \<and> memo st' = memo ?st \<and>
     (\<forall>x. var_env st' x \<noteq> var_env ?st x \<longrightarrow> x \<in> rv_addr ` set ps) \<and>
     (\<forall>p\<in>set ps. var_env st' (rv_addr p) = Some (rv_annotation p) \<and> (\<exists>s d. rv_annotation p = TensorType s d))"
    using Cons.IH [OF b(1)] Cons.prems(2,3) a(2) by auto
  have "var_env ?st \<subseteq>\<^sub>m var_env st'" using ih by (simp add: grows_def)
  then have "var_env st' (rv_addr p) = Some (rv_annotation p)"
    by (rule map_le_Some) (simp add: bind_var_def)
  moreover have "x \<in> rv_addr ` set (p # ps)" if "var_env st' x \<noteq> var_env st x" for x
    using that ih by (cases "x = rv_addr p") (simp_all add: bind_var_def)
  ultimately show ?case
    using ih grows_trans [OF b(2)] a(1) by (simp add: bind_var_def)
qed simp

text \<open>The end of a visit: the subexpressions are found, the rule holds, the type is recorded.\<close>

lemma infer_finish:
  assumes "graph_set G" "e \<in> G" "\<not> is_var e" "node_ptr e = Some a" "memo st a = None"
    and p: "infer_post G S B st sm" and "S \<subseteq> rsubs e" "B \<subseteq> rsubs e" "e \<notin> S"
    and "\<And>c. c \<in> rsubs e \<Longrightarrow> c \<noteq> e \<Longrightarrow> found sm c"
    and "typed_node (\<lambda>c. if c = e then t else type_at sm c) e" "\<And>b nm. e = ROp b nm \<Longrightarrow> t = UndefinedType"
    and "record_type a (t, sm) = Inr (t', st')"
  shows "infer_post G (rsubs e) (rsubs e) st st' \<and> type_at st' e = t'"
proof -
  have m: "memo sm a = None"
  proof (rule ccontr)
    assume "memo sm a \<noteq> None"
    then have "a \<in> ptrs S" using assms(5) p unfolding infer_post_def by metis
    then obtain s where "s \<in> S" "node_ptr s = Some a" by (auto simp: ptrs_def)
    then have "s = e"
      using graph_setD [OF assms(1) _ assms(2), of s] assms(4,7) graph_set_sub [OF assms(1,2)] by auto
    then show False using \<open>s \<in> S\<close> assms(9) by simp
  qed
  have r: "infer_inv G st'" "grows sm st'" "type_at st' e = t" "found st' e"
      "memo st' = (memo sm)(a \<mapsto> t)" "var_env st' = var_env sm" "t' = t"
    by (rule infer_inv_record [OF assms(1) post_inv [OF p] assms(2-4) m]; (fact assms)?)+
  have "x \<in> ptrs (rsubs e)" if "memo st' x \<noteq> memo st x" for x
  proof (cases "x = a")
    case True
    then show ?thesis using assms(4) rsubs_self by (auto simp: ptrs_def)
  next
    case False
    then have "x \<in> ptrs S" using that r(5) p by (auto simp: infer_post_def)
    then show ?thesis using assms(7) by (auto simp: ptrs_def)
  qed
  moreover have "\<exists>s\<in>rsubs e. x \<in> binder_addrs s" if "var_env st' x \<noteq> var_env st x" for x
  proof -
    have "var_env sm x \<noteq> var_env st x" using that r(6) by simp
    then show ?thesis using p assms(8) unfolding infer_post_def by blast
  qed
  moreover have "found st' c" if "c \<in> rsubs e" for c
    using that r(2,4) assms(10) found_grows by blast
  ultimately show ?thesis
    using r grows_trans p unfolding infer_post_def by blast
qed

lemma infer_hit: "node_ptr e = Some a \<Longrightarrow> memo st a = Some t \<Longrightarrow> Infer e st = Inr (t, st)"
  by (cases e) auto

lemma infer_hit_post:
  assumes "infer_inv G st" "e \<in> G" "node_ptr e = Some a" "memo st a = Some t" "Infer e st = Inr (t', st')"
  shows "infer_post G (rsubs e) (rsubs e) st st' \<and> type_at st' e = t'"
proof -
  have r: "t' = t" "st' = st" using assms(5) infer_hit [OF assms(3,4)] by auto
  show ?thesis
  proof (cases "is_var e")
    case True
    then obtain v where v: "e = RVar v" by (cases e) (auto simp: is_var_def)
    then have "var_env st (rv_addr v) = Some t"
      using infer_invD(1) [OF assms(1), of v] assms(2-4) by simp
    then show ?thesis using v r assms(1) by (simp add: rsubs_leaf infer_post_refl type_at_def)
  next
    case False
    then have "node_ok st e" using infer_invD(3) [OF assms(1,2) _ assms(3,4)] by simp
    then have "infer_post G (rsubs e) (rsubs e) st st"
      using assms(1) by (intro infer_post_refl) (simp_all add: node_ok_def)
    moreover have "type_at st e = t"
      using False assms(3,4) infer_invD(5) [OF assms(1)] assms(2)
      by (cases e) (auto simp: type_at_def is_var_def)
    ultimately show ?thesis using r by simp
  qed
qed

lemma rsubs_simps:
  "rsubs (RTuple a fs) = insert (RTuple a fs) (\<Union>c\<in>set fs. rsubs c)"
  "rsubs (RTupleGetItem a t i) = insert (RTupleGetItem a t i) (rsubs t)"
  "rsubs (RIf a c t f) = insert (RIf a c t f) (rsubs c \<union> (rsubs t \<union> rsubs f))"
  "rsubs (RLet a x v b) = insert (RLet a x v b) (insert (RVar x) (rsubs v \<union> rsubs b))"
  "rsubs (RFunction a ps b) = insert (RFunction a ps b) (RVar ` set ps \<union> rsubs b)"
  "rsubs (RCall a (ROp o1 nm) args ats) =
     insert (RCall a (ROp o1 nm) args ats) (insert (ROp o1 nm) (\<Union>c\<in>set args. rsubs c))"
  by (subst rsubs.simps, force simp: rsubs_leaf)+

lemma not_in_smaller: "e \<in> rsubs c \<Longrightarrow> rsize c < rsize e \<Longrightarrow> False"
  using rsize_rsubs [of e c] by auto

text \<open>
  The visit of each kind of node whose type is not known yet. \<open>infer_ctx\<close> collects what holds
  when a node is visited.
\<close>

definition infer_ctx :: "'d rexpr set \<Rightarrow> 's InferState_scheme \<Rightarrow> nat set \<Rightarrow> 'd rexpr \<Rightarrow> bool" where
  "infer_ctx G st \<Gamma> e \<longleftrightarrow> graph_set G \<and> unique_binders G \<and> e \<in> G \<and> infer_inv G st \<and>
     unbound G st (rsize e) \<and> scoped \<Gamma> e \<and> (\<forall>x\<in>\<Gamma>. var_env st x \<noteq> None) \<and>
     (\<forall>c. rsize c < rsize e \<longrightarrow> c \<in> G \<longrightarrow> infer_ok G TYPE('s) c)"

lemma infer_leaf:
  assumes "infer_ctx G st \<Gamma> e" "relay_children e = []" "\<not> is_var e" "node_ptr e = Some a" "memo st a = None"
    and "record_type a (t, st) = Inr (t', st')" "\<And>b nm. e = ROp b nm \<Longrightarrow> t = UndefinedType"
    and "typed_node (\<lambda>c. if c = e then t else type_at st c) e"
  shows "infer_post G (rsubs e) (rsubs e) st st' \<and> type_at st' e = t'"
  using assms
  by (intro infer_finish [where S = "{}" and B = "{}" and sm = st and a = a and t = t])
    (auto simp: infer_ctx_def rsubs_leaf infer_post_refl)

lemma infer_var:
  assumes "infer_ctx G st \<Gamma> (RVar v)" "memo st (rv_addr v) = None" "Infer (RVar v) st = Inr (t, st')"
  shows "infer_post G (rsubs (RVar v)) (rsubs (RVar v)) st st' \<and> type_at st' (RVar v) = t"
proof -
  have c: "RVar v \<in> G" "infer_inv G st" "graph_set G" using assms(1) by (simp_all add: infer_ctx_def)
  obtain u where u: "var_env st (rv_addr v) = Some u" using assms(1) by (auto simp: infer_ctx_def)
  have st': "t = u" "memo st' = (memo st)(rv_addr v \<mapsto> u)" "var_env st' = var_env st"
      "checked_type st' = checked_type st"
    using assms(2,3) u infer_invD(2) [OF c(2,1) u]
    by (auto simp: InferVar_def record_type_def Let_def fun_upd_idem split: if_splits)
  have g: "grows st st'" using st' assms(2) by (auto simp: grows_def map_le_def domIff)
  have same: "s = RVar v" if "s \<in> G" "node_ptr s = Some (rv_addr v)" for s
    using graph_setD [OF c(3) that(1) c(1)] that(2) by simp
  have "infer_inv G st'"
  proof (rule infer_invI [OF c(2) g])
    fix w x assume "RVar w \<in> G" "memo st' (rv_addr w) = Some x" "memo st (rv_addr w) = None"
    then show "var_env st' (rv_addr w) = Some x" using st' u same [of "RVar w"] by (auto split: if_splits)
  next
    fix s a x assume "s \<in> G" "\<not> is_var s" "node_ptr s = Some a" "memo st' a = Some x" "memo st a = None"
    then have False using st' same [of s] by (auto simp: is_var_def split: if_splits)
    then show "node_ok st' s \<and> (x \<noteq> UndefinedType \<longrightarrow> checked_type st' a = x)" by simp
  next
    fix b nm x assume "ROp b nm \<in> G" "memo st' b = Some x" "memo st b = None"
    then show "x = UndefinedType" using st' same [of "ROp b nm"] by (auto split: if_splits)
  qed (simp_all add: st')
  then show ?thesis
    using g st' u by (auto simp: infer_post_def rsubs_leaf ptrs_def type_at_def)
qed

lemma child_neq: "c \<in> set (relay_children e) \<Longrightarrow> c \<noteq> e"
  using rsize_child by blast

lemma memo_still_None:
  assumes "graph_set G" "infer_post G S B st st1" "S \<subseteq> G" "e \<in> G" "e \<notin> S" "node_ptr e = Some a"
    "memo st a = None"
  shows "memo st1 a = None"
proof (rule ccontr)
  assume "memo st1 a \<noteq> None"
  then have "a \<in> ptrs S" using assms(2,7) unfolding infer_post_def by metis
  then obtain s where "s \<in> S" "node_ptr s = Some a" by (auto simp: ptrs_def)
  then have "s = e" using graph_setD [OF assms(1) _ assms(4), of s] assms(3,6) by auto
  then show False using \<open>s \<in> S\<close> assms(5) by simp
qed

lemma infer_ctxD:
  fixes st :: "'s InferState_scheme"
  assumes "infer_ctx G st \<Gamma> e"
  shows "graph_set G" "unique_binders G" "e \<in> G" "infer_inv G st" "unbound G st (rsize e)"
    "\<forall>x\<in>\<Gamma>. var_env st x \<noteq> None"
    and "c \<in> set (relay_children e) \<Longrightarrow> c \<in> G \<and> infer_ok G TYPE('s) c \<and> rsubs c \<subseteq> G \<and> e \<notin> rsubs c"
proof -
  show g: "graph_set G" "unique_binders G" and e: "e \<in> G" and "infer_inv G st" "unbound G st (rsize e)"
    "\<forall>x\<in>\<Gamma>. var_env st x \<noteq> None"
    using assms by (simp_all add: infer_ctx_def)
  assume c: "c \<in> set (relay_children e)"
  then have "c \<in> G" using graph_set_child [OF g(1) e] by simp
  then show "c \<in> G \<and> infer_ok G TYPE('s) c \<and> rsubs c \<subseteq> G \<and> e \<notin> rsubs c"
    using assms c graph_set_sub [OF g(1), of c] not_in_smaller [of e c] rsize_child [OF c]
    by (auto simp: infer_ctx_def)
qed

text \<open>The visit of one child in a state reached by earlier ones.\<close>

lemma infer_child:
  fixes st st1 :: "'s InferState_scheme"
  assumes "infer_ctx G st \<Gamma> e" "c \<in> set (relay_children e)" "infer_inv G st1" "unbound G st1 n" "rsize c \<le> n"
    "scoped \<Delta> c" "\<forall>x\<in>\<Delta>. var_env st1 x \<noteq> None" "Infer c st1 = Inr (t, st2)"
  shows "infer_post G (rsubs c) (rsubs c) st1 st2" "type_at st2 c = t" "found st2 c" "unbound G st2 n"
proof -
  note ctx = infer_ctxD(7) [OF assms(1,2)]
  show p: "infer_post G (rsubs c) (rsubs c) st1 st2" and "type_at st2 c = t"
    using infer_okD [OF _ assms(3-8)] ctx by auto
  then show "found st2 c" using post_found rsubs_self by blast
  show "unbound G st2 n"
    using unbound_post [OF infer_ctxD(2) [OF assms(1)] p _ assms(4)] ctx by auto
qed

lemma infer_children:
  fixes st :: "'s InferState_scheme"
  assumes "infer_ctx G st \<Gamma> e" "set es \<subseteq> set (relay_children e)" "\<forall>c\<in>set es. scoped \<Gamma> c"
    "InferFields es st = Inr (ts, st1)"
  shows "infer_post G (\<Union>c\<in>set es. rsubs c) (\<Union>c\<in>set es. rsubs c) st st1 \<and> map (type_at st1) es = ts"
proof (rule infer_fields_post)
  show "\<forall>c\<in>set es. rsize c \<le> rsize e" using assms(2) rsize_child by (auto intro: less_imp_le)
  show "\<forall>c\<in>set es. infer_ok G TYPE('s) c" "set es \<subseteq> G" using infer_ctxD(7) [OF assms(1)] assms(2) by blast+
qed (use infer_ctxD [OF assms(1)] assms(3,4) in simp_all)

lemma infer_tuple:
  assumes "infer_ctx G st \<Gamma> (RTuple a fs)" "memo st a = None" "Infer (RTuple a fs) st = Inr (t, st')"
  shows "infer_post G (rsubs (RTuple a fs)) (rsubs (RTuple a fs)) st st' \<and> type_at st' (RTuple a fs) = t"
proof -
  let ?e = "RTuple a fs" and ?S = "\<Union>c\<in>set fs. rsubs c"
  obtain ts st1 where 1: "InferFields fs st = Inr (ts, st1)" "record_type a (TupleType ts, st1) = Inr (t, st')"
    using assms(2,3) by (auto simp: sbind_simps)
  have p: "infer_post G ?S ?S st st1" "map (type_at st1) fs = ts"
    using infer_children [OF assms(1) _ _ 1(1)] assms(1) by (auto simp: infer_ctx_def)
  have ty: "typed_node (\<lambda>c. if c = ?e then TupleType ts else type_at st1 c) ?e"
    using p(2) child_neq [of _ ?e] by (auto simp: map_eq_conv)
  show ?thesis
    by (rule infer_finish [OF infer_ctxD(1,3) [OF assms(1)] _ _ assms(2) p(1) _ _ _ _ ty _ 1(2)])
      (use infer_ctxD(7) [OF assms(1)] post_found [OF p(1)] in \<open>auto simp: is_var_def rsubs_simps\<close>)
qed

lemma infer_call:
  assumes "infer_ctx G st \<Gamma> (RCall a op args ats)" "memo st a = None"
    "Infer (RCall a op args ats) st = Inr (t, st')"
  shows "infer_post G (rsubs (RCall a op args ats)) (rsubs (RCall a op args ats)) st st' \<and>
    type_at st' (RCall a op args ats) = t"
proof -
  let ?e = "RCall a op args ats" and ?S = "\<Union>c\<in>set args. rsubs c"
  obtain b nm ts u st1 where op: "op = ROp b nm" and 1: "InferArgs nm args st = Inr (ts, st1)"
      "InferCall nm ats ts = Inr u" "record_type a (u, st1) = Inr (t, st')"
    using assms(2,3) by (auto simp: sbind_simps split: rexpr.splits)
  have f: "InferFields args st = Inr (ts, st1)" "UndefinedType \<notin> set ts" using InferArgs_fields [OF 1(1)] by auto
  have p: "infer_post G ?S ?S st st1" "map (type_at st1) args = ts"
    using infer_children [OF assms(1) _ _ f(1)] assms(1) by (auto simp: infer_ctx_def)
  let ?f = "\<lambda>c. if c = ?e then u else type_at st1 c"
  have m: "map ?f args = ts" using p(2) child_neq [of _ ?e] by (auto simp: map_eq_conv)
  have "?f ` set args = set ts" unfolding m [symmetric] by simp
  then have ty: "typed_node ?f ?e"
    unfolding typed_node.simps m using f(2) 1(2) op by simp
  show ?thesis
    by (rule infer_finish [OF infer_ctxD(1,3) [OF assms(1)] _ _ assms(2) p(1) _ _ _ _ ty _ 1(3)])
      (use infer_ctxD(7) [OF assms(1)] post_found [OF p(1)] op in \<open>auto simp: is_var_def rsubs_simps\<close>)
qed

lemma infer_get:
  assumes "infer_ctx G st \<Gamma> (RTupleGetItem a x i)" "memo st a = None"
    "Infer (RTupleGetItem a x i) st = Inr (t, st')"
  shows "infer_post G (rsubs (RTupleGetItem a x i)) (rsubs (RTupleGetItem a x i)) st st' \<and>
    type_at st' (RTupleGetItem a x i) = t"
proof -
  let ?e = "RTupleGetItem a x i"
  obtain tt u st1 where 1: "Infer x st = Inr (tt, st1)" "InferGetItem tt i = Inr u"
      "record_type a (u, st1) = Inr (t, st')"
    using assms(2,3) by (auto simp: sbind_simps)
  note ctx = infer_ctxD [OF assms(1)]
  have x: "x \<in> set (relay_children ?e)" "rsize x \<le> rsize ?e" by simp_all
  have p: "infer_post G (rsubs x) (rsubs x) st st1" "type_at st1 x = tt"
    using infer_child [OF assms(1) x(1) ctx(4,5) x(2) _ ctx(6) 1(1)] assms(1) by (simp_all add: infer_ctx_def)
  have ty: "typed_node (\<lambda>c. if c = ?e then u else type_at st1 c) ?e"
    using p(2) 1(2) child_neq [OF x(1)] by simp
  show ?thesis
    by (rule infer_finish [OF ctx(1,3) _ _ assms(2) p(1) _ _ _ _ ty _ 1(3)])
      (use ctx(7) [OF x(1)] post_found [OF p(1)] in \<open>auto simp: is_var_def rsubs_simps\<close>)
qed

lemma infer_if:
  assumes "infer_ctx G st \<Gamma> (RIf a c x y)" "memo st a = None" "Infer (RIf a c x y) st = Inr (t, st')"
  shows "infer_post G (rsubs (RIf a c x y)) (rsubs (RIf a c x y)) st st' \<and> type_at st' (RIf a c x y) = t"
proof -
  let ?e = "RIf a c x y"
  obtain ct tt ft st1 st2 st3 where 1: "Infer c st = Inr (ct, st1)" "ct = TensorType [] ''bool''"
      "Infer x st1 = Inr (tt, st2)" "Infer y st2 = Inr (ft, st3)" "TypeEqual tt ft"
      "record_type a (tt, st3) = Inr (t, st')"
    using assms(2,3) by (auto simp: sbind_simps InferIfCond_def split: if_splits)
  note ctx = infer_ctxD [OF assms(1)]
  have ch: "c \<in> set (relay_children ?e)" "x \<in> set (relay_children ?e)" "y \<in> set (relay_children ?e)"
    "rsize c \<le> rsize ?e" "rsize x \<le> rsize ?e" "rsize y \<le> rsize ?e" by simp_all
  have sc: "scoped \<Gamma> c" "scoped \<Gamma> x" "scoped \<Gamma> y" using assms(1) by (simp_all add: infer_ctx_def)
  note pc = infer_child [OF assms(1) ch(1) ctx(4,5) ch(4) sc(1) ctx(6) 1(1)]
  have e1: "\<forall>x\<in>\<Gamma>. var_env st1 x \<noteq> None" using ctx(6) post_env [OF pc(1)] by blast
  note px = infer_child [OF assms(1) ch(2) post_inv [OF pc(1)] pc(4) ch(5) sc(2) e1 1(3)]
  have e2: "\<forall>x\<in>\<Gamma>. var_env st2 x \<noteq> None" using e1 post_env [OF px(1)] by blast
  note py = infer_child [OF assms(1) ch(3) post_inv [OF px(1)] px(4) ch(6) sc(3) e2 1(4)]
  note p = infer_post_trans [OF pc(1) infer_post_trans [OF px(1) py(1)]]
  have types: "type_at st3 c = ct" "type_at st3 x = tt" "type_at st3 y = ft"
    using pc(2) px(2) py(2) post_type [OF px(1) pc(3)] post_type [OF py(1) px(3)]
      post_type [OF py(1), of c] post_found [OF infer_post_trans [OF pc(1) px(1)], of c] by simp_all
  have "tt = ft" using 1(5) TypeEqual_eq by blast
  then have ty: "typed_node (\<lambda>c. if c = ?e then tt else type_at st3 c) ?e"
    using types 1(2) child_neq [OF ch(1)] child_neq [OF ch(2)] child_neq [OF ch(3)] by simp
  have sub: "rsubs c \<union> (rsubs x \<union> rsubs y) \<subseteq> rsubs ?e" by (auto simp: rsubs_simps)
  show ?thesis
    by (rule infer_finish [OF ctx(1,3) _ _ assms(2) p sub sub _ _ ty _ 1(6)])
      (use ctx(7) [OF ch(1)] ctx(7) [OF ch(2)] ctx(7) [OF ch(3)] post_found [OF p]
       in \<open>auto simp: is_var_def rsubs_simps\<close>)
qed

text \<open>A binding extends the environment at a binder of \<open>e\<close>.\<close>

lemma infer_let:
  fixes v :: "'d rexpr"
  assumes "infer_ctx G st \<Gamma> (RLet a x v b)" "memo st a = None" "Infer (RLet a x v b) st = Inr (t, st')"
  shows "infer_post G (rsubs (RLet a x v b)) (rsubs (RLet a x v b)) st st' \<and> type_at st' (RLet a x v b) = t"
proof -
  let ?e = "RLet a x v b"
  obtain vt bt st1 st3 where 1: "Infer v st = Inr (vt, st1)"
      "rv_annotation x \<noteq> UndefinedType \<longrightarrow> TypeEqual (rv_annotation x) vt"
      "Infer b (bind_var x vt st1) = Inr (bt, st3)" "record_type a (bt, st3) = Inr (t, st')"
    using assms(2,3) by (auto simp: sbind_simps split: if_splits)
  let ?st2 = "bind_var x vt st1"
  note ctx = infer_ctxD [OF assms(1)]
  have ch: "v \<in> set (relay_children ?e)" "b \<in> set (relay_children ?e)" "RVar x \<in> set (relay_children ?e)"
    "rsize v \<le> rsize ?e" "rsize b < rsize ?e" by simp_all
  have sc: "scoped \<Gamma> v" "scoped (insert (rv_addr x) \<Gamma>) b" using assms(1) by (simp_all add: infer_ctx_def)
  note pv = infer_child [OF assms(1) ch(1) ctx(4,5) ch(4) sc(1) ctx(6) 1(1)]
  have "memo st1 a = None"
    using memo_still_None [OF ctx(1) pv(1) _ ctx(3)] ctx(7) [OF ch(1)] assms(2) by simp
  then have xNone: "var_env st1 (rv_addr x) = None"
    using pv(4) ctx(3) unfolding unbound_def by (force simp: binder_addrs_def)
  have b: "infer_inv G ?st2" "grows st1 ?st2"
    using infer_inv_bind [OF ctx(1) post_inv [OF pv(1)] _ xNone] ctx(7) [OF ch(3)] by auto
  have px: "infer_post G {RVar x} {?e} st1 ?st2"
    using b by (auto simp: infer_post_def binder_addrs_def bind_var_def split: if_splits)
  have "unbound G st1 (rsize b)" using unbound_mono [OF pv(4)] ch(5) by simp
  then have u: "unbound G ?st2 (rsize b)"
    using unbound_post [OF ctx(2) px] ctx(3) ch(5) by simp
  have env: "\<forall>y\<in>insert (rv_addr x) \<Gamma>. var_env ?st2 y \<noteq> None"
    using ctx(6) post_env [OF pv(1)] post_env [OF px] by (auto simp: bind_var_def)
  note pb = infer_child [OF assms(1) ch(2) b(1) u le_refl sc(2) env 1(3)]
  note p = infer_post_trans [OF pv(1) infer_post_trans [OF px pb(1)]]
  have "type_at ?st2 (RVar x :: 'd rexpr) = vt" "found ?st2 (RVar x :: 'd rexpr)" by (simp_all add: type_at_def bind_var_def)
  then have types: "type_at st3 (RVar x :: 'd rexpr) = vt" "type_at st3 b = bt" "type_at st3 v = vt"
    using post_type [OF pb(1), of "RVar x :: 'd rexpr"] pb(2) pv(2,3)
      post_type [OF infer_post_trans [OF px pb(1)] pv(3)] by simp_all
  have ann: "rv_annotation x \<noteq> UndefinedType \<longrightarrow> rv_annotation x = vt" using 1(2) TypeEqual_eq by blast
  then have ty: "typed_node (\<lambda>c. if c = ?e then bt else type_at st3 c) ?e"
    using types child_neq [OF ch(1)] child_neq [OF ch(2)] by simp
  have sub: "rsubs v \<union> ({RVar x} \<union> rsubs b) \<subseteq> rsubs ?e" "rsubs v \<union> ({?e} \<union> rsubs b) \<subseteq> rsubs ?e"
    by (auto simp: rsubs_simps)
  show ?thesis
    by (rule infer_finish [OF ctx(1,3) _ _ assms(2) p sub _ _ ty _ 1(4)])
      (use ctx(7) [OF ch(1)] ctx(7) [OF ch(2)] post_found [OF p]
       in \<open>auto simp: is_var_def rsubs_simps\<close>)
qed

lemma infer_post_checked:
  assumes "graph_set G" "infer_post G S B st st1" "e \<in> G" "\<not> is_var e" "node_ptr e = Some a" "memo st1 a = None"
  shows "infer_post G S B st (st1\<lparr>checked_type := (checked_type st1)(a := t)\<rparr>)"
proof -
  let ?st2 = "st1\<lparr>checked_type := (checked_type st1)(a := t)\<rparr>"
  have g: "grows st1 ?st2" by (simp add: grows_def)
  have same: "s = e" if "s \<in> G" "node_ptr s = Some a" for s
    using graph_setD [OF assms(1) that(1) assms(3)] that(2) assms(5) by simp
  have "infer_inv G ?st2"
  proof (rule infer_invI [OF post_inv [OF assms(2)] g])
    fix v assume "RVar v \<in> G"
    then show "checked_type ?st2 (rv_addr v) = checked_type st1 (rv_addr v)"
      using same [of "RVar v"] assms(4) by (auto simp: is_var_def)
  qed (use assms(6) in auto)
  moreover have "found ?st2 c = found st1 c" for c :: "'a rexpr" by (cases c) simp_all
  ultimately show ?thesis
    using assms(2) grows_trans [OF _ g] unfolding infer_post_def by simp
qed

lemma type_at_checked: "type_at (st\<lparr>checked_type := f\<rparr>) e = type_at st e"
  by (cases e) (simp_all add: type_at_def)

lemma infer_function:
  fixes b :: "'d rexpr"
  assumes "infer_ctx G st \<Gamma> (RFunction a ps b)" "memo st a = None" "Infer (RFunction a ps b) st = Inr (t, st')"
  shows "infer_post G (rsubs (RFunction a ps b)) (rsubs (RFunction a ps b)) st st' \<and>
    type_at st' (RFunction a ps b) = t"
proof -
  let ?e = "RFunction a ps b"
  obtain bt st1 st2 where 1: "InferParams ps st = Inr st1" "Infer b st1 = Inr (bt, st2)"
      "record_type a (bt, st2\<lparr>checked_type := (checked_type st2)(a := bt)\<rparr>) = Inr (t, st')"
    using assms(2,3) by (auto simp: sbind_simps)
  let ?st3 = "st2\<lparr>checked_type := (checked_type st2)(a := bt)\<rparr>"
  note ctx = infer_ctxD [OF assms(1)]
  have ch: "b \<in> set (relay_children ?e)" "rsize b < rsize ?e" by simp_all
  have vars: "RVar ` set ps \<subseteq> G" using ctx(7) by auto
  have dist: "distinct (map rv_addr ps)" using ctx(2,3) unfolding unique_binders_def by force
  have unb: "\<forall>p\<in>set ps. var_env st (rv_addr p) = None"
    using ctx(3,5) assms(2) unfolding unbound_def by (force simp: binder_addrs_def)
  have ip: "infer_inv G st1" "grows st st1" "memo st1 = memo st"
      "\<And>x. var_env st1 x \<noteq> var_env st x \<Longrightarrow> x \<in> rv_addr ` set ps"
      "\<And>p. p \<in> set ps \<Longrightarrow> var_env st1 (rv_addr p) = Some (rv_annotation p) \<and>
        (\<exists>s d. rv_annotation p = TensorType s d)"
    using infer_params_post [OF ctx(1,4) dist vars unb 1(1)] by blast+
  have pp: "infer_post G (RVar ` set ps) {?e} st st1"
    using ip by (auto simp: infer_post_def binder_addrs_def)
  have "unbound G st (rsize b)" using unbound_mono [OF ctx(5)] ch(2) by simp
  then have u: "unbound G st1 (rsize b)" using unbound_post [OF ctx(2) pp] ctx(3) ch(2) by simp
  have sc: "scoped (\<Gamma> \<union> rv_addr ` set ps) b" using assms(1) by (simp add: infer_ctx_def)
  have env: "\<forall>x\<in>\<Gamma> \<union> rv_addr ` set ps. var_env st1 x \<noteq> None"
    using ctx(6) post_env [OF pp] ip(5) by auto
  note pb = infer_child [OF assms(1) ch(1) ip(1) u le_refl sc env 1(2)]
  have sub: "RVar ` set ps \<union> rsubs b \<subseteq> rsubs ?e" "{?e} \<union> rsubs b \<subseteq> rsubs ?e" "?e \<notin> RVar ` set ps \<union> rsubs b"
    using ctx(7) [OF ch(1)] by (auto simp: rsubs_simps)
  have "memo st2 a = None"
    using memo_still_None [OF ctx(1) infer_post_trans [OF pp pb(1)] _ ctx(3) sub(3) _ assms(2)]
      sub(1) graph_set_sub [OF ctx(1,3)] by auto
  then have p: "infer_post G (RVar ` set ps \<union> rsubs b) ({?e} \<union> rsubs b) st ?st3"
    using infer_post_checked [OF ctx(1) infer_post_trans [OF pp pb(1)] ctx(3)] by (simp add: is_var_def)
  have "type_at st2 (RVar p :: 'd rexpr) = rv_annotation p" if "p \<in> set ps" for p
    using ip(5) [OF that] post_type [OF pb(1), of "RVar p :: 'd rexpr"] by (simp add: type_at_def)
  then have ty: "typed_node (\<lambda>c. if c = ?e then bt else type_at ?st3 c) ?e"
    using pb(2) ip(5) child_neq [OF ch(1)] by (simp add: type_at_checked)
  show ?thesis
    by (rule infer_finish [OF ctx(1,3) _ _ assms(2) p sub _ ty _ 1(3)])
      (use post_found [OF p] in \<open>auto simp: is_var_def rsubs_simps\<close>)
qed

text \<open>Every visit meets its specification.\<close>

lemma infer_ok_all:
  fixes e :: "'d rexpr"
  assumes "graph_set G" "unique_binders G"
  shows "e \<in> G \<Longrightarrow> infer_ok G TYPE('s) e"
proof (induction e rule: measure_induct_rule [where f = rsize])
  case (less e)
  show ?case
    unfolding infer_ok_def
  proof (intro allI impI)
    fix st :: "'s InferState_scheme" and \<Gamma> t st'
    assume a: "infer_inv G st" "unbound G st (rsize e)" "scoped \<Gamma> e" "\<forall>x\<in>\<Gamma>. var_env st x \<noteq> None"
      "Infer e st = Inr (t, st')"
    have ctx: "infer_ctx G st \<Gamma> e" using assms less a by (simp add: infer_ctx_def)
    show "infer_post G (rsubs e) (rsubs e) st st' \<and> type_at st' e = t"
    proof (cases "node_ptr e")
      case None
      then have "e = RUndef" by (simp add: node_ptr_None)
      then show ?thesis using a(1,5) by (auto simp: rsubs_leaf infer_post_refl type_at_def)
    next
      case (Some p)
      show ?thesis
      proof (cases "memo st p")
        case None
        show ?thesis
        proof (cases e)
          case (RConst c d)
          then obtain u where u: "InferConstant d = Inr u" "record_type p (u, st) = Inr (t, st')"
            using Some None a(5) by (auto simp: sbind_simps)
          show ?thesis
            by (rule infer_leaf [OF ctx _ _ Some None u(2)]) (use RConst u(1) in \<open>simp_all add: is_var_def\<close>)
        next
          case (ROp c nm)
          then show ?thesis using Some None a(5)
            by (intro infer_leaf [OF ctx _ _ Some None]) (auto simp: is_var_def record_type_def)
        next
          case (RVar v)
          have m: "memo st (rv_addr v) = None" using Some None RVar by simp
          show ?thesis using infer_var [OF _ m] ctx a(5) unfolding RVar by blast
        next
          case (RCall c op es ats)
          have m: "memo st (c) = None" using Some None RCall by simp
          show ?thesis using infer_call [OF _ m] ctx a(5) unfolding RCall by blast
        next
          case (RFunction c ps b)
          have m: "memo st (c) = None" using Some None RFunction by simp
          show ?thesis using infer_function [OF _ m] ctx a(5) unfolding RFunction by blast
        next
          case (RIf c x y z)
          have m: "memo st (c) = None" using Some None RIf by simp
          show ?thesis using infer_if [OF _ m] ctx a(5) unfolding RIf by blast
        next
          case (RLet c x v b)
          have m: "memo st (c) = None" using Some None RLet by simp
          show ?thesis using infer_let [OF _ m] ctx a(5) unfolding RLet by blast
        next
          case (RTuple c fs)
          have m: "memo st (c) = None" using Some None RTuple by simp
          show ?thesis using infer_tuple [OF _ m] ctx a(5) unfolding RTuple by blast
        next
          case (RTupleGetItem c x i)
          have m: "memo st (c) = None" using Some None RTupleGetItem by simp
          show ?thesis using infer_get [OF _ m] ctx a(5) unfolding RTupleGetItem by blast
        qed (use Some None a(5) in auto)
      next
        case (Some t')
        then show ?thesis using infer_hit_post [OF a(1) less.prems \<open>node_ptr e = Some p\<close> _ a(5)] by blast
      qed
    qed
  qed
qed

section \<open>The annotations type the graph\<close>

text \<open>
C25. The types \<^verbatim>\<open>InferTypePass\<close> writes into a graph form a typing of it: when the pass returns on a
well-formed, well-scoped function, there is an assignment of types to the reachable nodes that
satisfies the typing rule of every node (constants, operator calls, branches, bindings, tuples,
projections, functions), and the checked type of every node with a defined type is the assigned
one. The memo table and the unscoped environment of the inferencer do not break this.
\<close>

theorem infer_type_sound:
  assumes "wf_graph func" "scoped {} func" "unique_binders (rsubs func)"
    and "InferTypePass func st = Inr (out, st')"
  shows "out = func \<and> (\<exists>\<tau>. \<forall>s\<in>rsubs func. typed_node \<tau> s \<and>
     (\<forall>a. node_ptr s = Some a \<and> \<tau> s \<noteq> UndefinedType \<longrightarrow> checked_type st' a = \<tau> s))"
proof -
  let ?st0 = "RelayState.extend st (InferState.fields (\<lambda>_. None) (\<lambda>_. None))"
  obtain t s1 where run: "Infer func ?st0 = Inr (t, s1)" and out: "out = func" "st' = RelayState.truncate s1"
    using assms(4) by (auto simp: InferTypePass_def sbind_simps split: if_splits)
  have empty: "memo ?st0 = (\<lambda>_. None)" "var_env ?st0 = (\<lambda>_. None)"
    by (simp_all add: RelayState.defs InferState.defs)
  have G: "graph_set (rsubs func)" using assms(1) by (rule wf_graph_set)
  have inv0: "infer_inv (rsubs func) ?st0" unfolding infer_inv_def empty by (auto split: rexpr.split)
  have unb: "unbound (rsubs func) ?st0 (rsize func)" by (simp add: unbound_def empty)
  have post: "infer_post (rsubs func) (rsubs func) (rsubs func) ?st0 s1"
    by (rule infer_okD(1) [OF infer_ok_all [OF G assms(3) rsubs_self] inv0 unb le_refl assms(2) _ run]) simp
  have inv: "infer_inv (rsubs func) s1" using post_inv [OF post] .
  have "typed_node (type_at s1) s \<and>
      (\<forall>a. node_ptr s = Some a \<and> type_at s1 s \<noteq> UndefinedType \<longrightarrow> checked_type s1 a = type_at s1 s)"
    if s: "s \<in> rsubs func" for s
  proof -
    have f: "found s1 s" using post_found [OF post s] .
    have node: "typed_node (type_at s1) s \<and>
        (\<forall>a. node_ptr s = Some a \<and> type_at s1 s \<noteq> UndefinedType \<longrightarrow> checked_type s1 a = type_at s1 s)"
      if nv: "\<not> is_var s" and p: "node_ptr s = Some a" "memo s1 a \<noteq> None" and
        ty: "type_at s1 s = the (memo s1 a)" for a
    proof -
      obtain u where u: "memo s1 a = Some u" using p(2) by auto
      show ?thesis
        using infer_invD(3,4) [OF inv s nv p(1) u] ty u p(1) by (auto simp: node_ok_def)
    qed
    show ?thesis
    proof (cases s)
      case (RVar v)
      then show ?thesis using f infer_invD(2) [OF inv, of v] s by (auto simp: type_at_def)
    qed (use f node in \<open>auto simp: type_at_def is_var_def\<close>)
  qed
  then show ?thesis using out by (auto simp: RelayState.defs)
qed

text \<open>A function for the example: \<^verbatim>\<open>fn (x) { let y = add(x, x); nn_relu(y) }\<close>.\<close>

definition example_x :: RVarNode where
  "example_x = \<lparr>rv_addr = 1, rv_name = ''x'', rv_annotation = TensorType [2, 3] ''float32''\<rparr>"

definition example_y :: RVarNode where
  "example_y = \<lparr>rv_addr = 2, rv_name = ''y'', rv_annotation = UndefinedType\<rparr>"

definition example_fun :: "int rexpr" where
  "example_fun = RFunction 0 [example_x]
     (RLet 3 example_y (RCall 4 (ROp 5 ''add'') [RVar example_x, RVar example_x] OtherAttrs)
        (RCall 6 (ROp 7 ''nn_relu'') [RVar example_y] OtherAttrs))"

definition example_state :: RelayState where
  "example_state = \<lparr>next_node = 8, checked_type = \<lambda>_. UndefinedType, virtual_device = \<lambda>_. None, span = \<lambda>_. None\<rparr>"

lemmas example_defs = example_fun_def example_x_def example_y_def example_state_def

lemma example_subs: "rsubs example_fun =
  {example_fun, RVar example_x, RVar example_y, ROp 5 ''add'', ROp 7 ''nn_relu'',
   RLet 3 example_y (RCall 4 (ROp 5 ''add'') [RVar example_x, RVar example_x] OtherAttrs)
        (RCall 6 (ROp 7 ''nn_relu'') [RVar example_y] OtherAttrs),
   RCall 4 (ROp 5 ''add'') [RVar example_x, RVar example_x] OtherAttrs,
   RCall 6 (ROp 7 ''nn_relu'') [RVar example_y] OtherAttrs}"
  unfolding example_fun_def by (auto simp: rsubs_simps rsubs_leaf)

lemma example_wf: "wf_graph example_fun"
  unfolding wf_graph_def example_subs by (simp add: example_defs)

lemma example_scoped: "scoped {} example_fun" "unique_binders (rsubs example_fun)"
  unfolding unique_binders_def example_subs by (simp_all add: example_defs binder_addrs_def)

lemma example_infers: "\<exists>st'. InferTypePass example_fun example_state = Inr (example_fun, st')"
  by (simp add: InferTypePass_def example_defs RelayState.defs InferState.defs InferVar_def bind_var_def
      record_type_def InferCall_def FInferTypeRegistry_def AddInferType_def BinaryBroadcastInferType_def
      UnarySameInferType_def RequireArity_def RequireSameDType_def BroadcastShape_def dim_at_def
      broadcast_dim_def MakeTensorType_def upt_rec Let_def)

theorem infer_type_sound_witness:
  "\<exists>st' \<tau>. InferTypePass example_fun example_state = Inr (example_fun, st') \<and>
     (\<forall>s\<in>rsubs example_fun. typed_node \<tau> s \<and>
        (\<forall>a. node_ptr s = Some a \<and> \<tau> s \<noteq> UndefinedType \<longrightarrow> checked_type st' a = \<tau> s))"
  using example_infers infer_type_sound [OF example_wf example_scoped, of example_state] by blast

lemma annotate_memory_scope_spec_witness:
  "\<exists>st'. AnnotateMemoryScopePass example_fun example_state = Inr (example_fun, st') \<and>
     checked_type st' = checked_type example_state"
proof -
  have "AnnotateMemoryScopePass example_fun example_state =
      Inr (example_fun, snd (VisitRelayExpr annotate_scope example_fun ({}, example_state)))"
    by (simp add: AnnotateMemoryScopePass_def example_fun_def)
  with annotate_memory_scope_spec [OF example_wf this] show ?thesis by blast
qed

end
