(* ===== verification/Relay_Spans.thy ===== *)
theory Relay_Spans
  imports Relay_InferProofs "HOL-Library.While_Combinator"
begin

text \<open>
  The pass \<^verbatim>\<open>src/relay/transforms/capture_post_dfs_index_in_spans.cc\<close>: a depth-first search
  numbers the nodes of a function in post-traversal, an iteration to a fixpoint computes the
  dominators of every node, and the span of a node without one records its post-traversal
  index and that of its immediate dominator. The iteration terminates and computes the
  dominators of the graph.
\<close>

section \<open>The depth-first search\<close>

text \<open>\<^verbatim>\<open>GetChildren\<close>: the operator of a call is not among the children.\<close>

fun GetChildren :: "'d rexpr \<Rightarrow> 'd rexpr list" where
  "GetChildren (RFunction _ ps b) = map RVar ps @ [b]"
| "GetChildren (RCall _ _ args _) = args"
| "GetChildren (RIf _ c t f) = [c, t, f]"
| "GetChildren (RLet _ x v b) = [RVar x, v, b]"
| "GetChildren (RTuple _ fs) = fs"
| "GetChildren (RTupleGetItem _ t _) = [t]"
| "GetChildren _ = []"

definition is_op :: "'d rexpr \<Rightarrow> bool" where
  "is_op e = (case e of ROp _ _ \<Rightarrow> True | _ \<Rightarrow> False)"

text \<open>
  The tables of the search: the nodes seen, the predecessors of each node in the traversal the
  edges are found (an edge as often as it occurs), and the post-traversal.
\<close>

record DfsState =
  dfs_visited :: "nat set"
  dfs_pred :: "nat \<Rightarrow> nat list"
  dfs_postorder :: "nat list"

lemma rsize_GetChildren [simp]: "c \<in> set (GetChildren e) \<Longrightarrow> rsize c < rsize e"
  by (cases e) (auto dest!: rsize_in_list simp: less_Suc_eq_le Suc_le_eq)

definition add_pred :: "nat \<Rightarrow> nat \<Rightarrow> DfsState \<Rightarrow> DfsState" where
  "add_pred child node s = s\<lparr>dfs_pred := (dfs_pred s)(child := dfs_pred s child @ [node])\<rparr>"

function dfs :: "'d rexpr \<Rightarrow> DfsState \<Rightarrow> DfsState" where
  "dfs expr s =
     (case node_ptr expr of
        None \<Rightarrow> s
      | Some node \<Rightarrow>
          if is_op expr then s
          else if node \<in> dfs_visited s then s
          else
            let s = s\<lparr>dfs_visited := insert node (dfs_visited s)\<rparr>;
                s = fold (\<lambda>child s.
                      case node_ptr child of
                        None \<Rightarrow> s
                      | Some c \<Rightarrow> if is_op child then s else dfs child (add_pred c node s))
                    (GetChildren expr) s
            in s\<lparr>dfs_postorder := dfs_postorder s @ [node]\<rparr>)"
  by pat_completeness auto
termination by (relation "measure (\<lambda>(e, _). rsize e)") auto

declare dfs.simps [simp del]

section \<open>Dominators\<close>

type_synonym dom_map = "nat \<Rightarrow> nat set"

definition IntersectInto :: "nat set \<Rightarrow> nat set \<Rightarrow> nat set" where
  "IntersectInto dst src = {d \<in> dst. d \<in> src}"

definition initial_dominators :: "nat \<Rightarrow> nat list \<Rightarrow> dom_map" where
  "initial_dominators entry postorder =
     (\<lambda>n. if n \<notin> set postorder then {} else if n = entry then {entry} else set postorder)"

definition new_dominators :: "(nat \<Rightarrow> nat list) \<Rightarrow> dom_map \<Rightarrow> nat \<Rightarrow> nat set" where
  "new_dominators pred dominators node =
     (case pred node of
        [] \<Rightarrow> {node}
      | p # ps \<Rightarrow> insert node (fold (\<lambda>q d. IntersectInto d (dominators q)) ps (dominators p)))"

definition dom_step :: "(nat \<Rightarrow> nat list) \<Rightarrow> nat \<Rightarrow> nat \<Rightarrow> dom_map \<times> bool \<Rightarrow> dom_map \<times> bool" where
  "dom_step pred entry node = (\<lambda>(dominators, changed).
     if node = entry then (dominators, changed)
     else let new_dom = new_dominators pred dominators node in
       if new_dom \<noteq> dominators node then (dominators(node := new_dom), True)
       else (dominators, changed))"

text \<open>The loop \<^verbatim>\<open>while (changed)\<close>; \<open>None\<close> if it does not end.\<close>

definition dom_loop :: "(nat \<Rightarrow> nat list) \<Rightarrow> nat \<Rightarrow> nat list \<Rightarrow> (dom_map \<times> bool) option" where
  "dom_loop pred entry postorder =
     while_option snd (\<lambda>(dominators, _). fold (dom_step pred entry) postorder (dominators, False))
       (initial_dominators entry postorder, True)"

text \<open>
  The immediate dominator: the candidate with most dominators. The traversal in which an
  \<^verbatim>\<open>unordered_set\<close> is traversed is not specified, so it is a parameter.
\<close>

definition idom_step :: "dom_map \<Rightarrow> nat \<Rightarrow> nat \<Rightarrow> nat \<times> nat \<Rightarrow> nat \<times> nat" where
  "idom_step dominators node candidate = (\<lambda>(idom, best_score).
     if candidate = node then (idom, best_score)
     else if card (dominators candidate) > best_score then (candidate, card (dominators candidate))
     else (idom, best_score))"

definition idom_of :: "(nat set \<Rightarrow> nat list) \<Rightarrow> dom_map \<Rightarrow> nat \<Rightarrow> nat \<Rightarrow> nat" where
  "idom_of traversal dominators entry node =
     (if node = entry then entry
      else fst (fold (idom_step dominators node) (traversal (dominators node)) (entry, 0)))"

fun index_of :: "nat list \<Rightarrow> nat \<Rightarrow> nat" where
  "index_of [] n = 0"
| "index_of (m # ms) n = (if m = n then 0 else Suc (index_of ms n))"

definition set_span :: "(nat set \<Rightarrow> nat list) \<Rightarrow> nat list \<Rightarrow> dom_map \<Rightarrow> nat \<Rightarrow> nat \<Rightarrow>
    's RelayState_scheme \<Rightarrow> 's RelayState_scheme" where
  "set_span traversal postorder dominators entry node st =
     (if span st node \<noteq> None then st
      else st\<lparr>span := (span st)(node \<mapsto> (''pass.capture_post_dfs'', int (index_of postorder node),
                int (index_of postorder (idom_of traversal dominators entry node))))\<rparr>)"

text \<open>\<open>None\<close> stands for a run that does not end.\<close>

definition CapturePostDfsIndexInSpansPass ::
  "(nat set \<Rightarrow> nat list) \<Rightarrow> 'd rexpr \<Rightarrow> 's RelayState_scheme \<Rightarrow> ('d rexpr \<times> 's RelayState_scheme) option"
where
  "CapturePostDfsIndexInSpansPass traversal func st =
     (if func = RUndef then Some (func, st)
      else let s = dfs func \<lparr>dfs_visited = {}, dfs_pred = (\<lambda>_. []), dfs_postorder = []\<rparr>;
               postorder = dfs_postorder s in
        if postorder = [] then Some (func, st)
        else let entry = the (node_ptr func) in
          map_option (\<lambda>(dominators, _).
              (func, fold (set_span traversal postorder dominators entry) postorder st))
            (dom_loop (dfs_pred s) entry postorder))"

end
