(* ===== verification/Relay_SpanProofs.thy ===== *)
theory Relay_SpanProofs
  imports Relay_Spans
begin

text \<open>
  The iteration of \<^verbatim>\<open>CapturePostDfsIndexInSpansPass\<close> terminates, because the sets only
  shrink, and its result is the dominator relation of the graph the search finds.
\<close>

section \<open>The iteration terminates\<close>

text \<open>Every set shrinks: the invariant of the loop over the nodes \<open>V\<close>.\<close>

definition shrinking :: "(nat \<Rightarrow> nat list) \<Rightarrow> nat \<Rightarrow> nat set \<Rightarrow> dom_map \<Rightarrow> bool" where
  "shrinking pred entry V D =
     ((\<forall>n. D n \<subseteq> V) \<and> (\<forall>n \<in> V. n \<noteq> entry \<longrightarrow> new_dominators pred D n \<subseteq> D n))"

lemma fold_IntersectInto: "fold (\<lambda>q d. IntersectInto d (f q)) ps d = {x \<in> d. \<forall>q \<in> set ps. x \<in> f q}"
  by (induction ps arbitrary: d) (auto simp: IntersectInto_def)

lemma new_dominators_iff:
  "x \<in> new_dominators pred D n \<longleftrightarrow> x = n \<or> (pred n \<noteq> [] \<and> (\<forall>p \<in> set (pred n). x \<in> D p))"
  by (auto simp: new_dominators_def fold_IntersectInto split: list.splits)

lemma new_dominators_mono: "(\<And>m. D' m \<subseteq> D m) \<Longrightarrow> new_dominators pred D' n \<subseteq> new_dominators pred D n"
  by (fastforce simp: new_dominators_iff)

lemma dom_step_eq:
  "dom_step pred entry n (D, ch) =
     (if n = entry \<or> new_dominators pred D n = D n then (D, ch)
      else (D(n := new_dominators pred D n), True))"
  by (simp add: dom_step_def Let_def)

lemma shrinking_step:
  assumes "shrinking pred entry V D" "n \<in> V" "n \<noteq> entry"
  shows "shrinking pred entry V (D(n := new_dominators pred D n))"
proof -
  let ?D = "D(n := new_dominators pred D n)"
  have le: "?D m \<subseteq> D m" for m using assms by (auto simp: shrinking_def)
  have "new_dominators pred ?D m \<subseteq> new_dominators pred D m" for m
    using le by (rule new_dominators_mono)
  then show ?thesis using assms le unfolding shrinking_def by (metis fun_upd_apply subset_trans)
qed

lemma shrinking_dom_steps:
  assumes "shrinking pred entry V D" "set ns \<subseteq> V"
  shows "shrinking pred entry V (fst (fold (dom_step pred entry) ns (D, ch)))"
  using assms
proof (induction ns arbitrary: D ch)
  case (Cons n ns)
  then show ?case
    by (simp add: dom_step_eq shrinking_step del: fun_upd_apply)
qed simp

definition dom_weight :: "nat list \<Rightarrow> dom_map \<Rightarrow> nat" where
  "dom_weight V D = (\<Sum>n \<in> set V. card (D n))"

lemma dom_weight_step:
  assumes "shrinking pred entry (set V) D" "n \<in> set V" "n \<noteq> entry" "new_dominators pred D n \<noteq> D n"
  shows "dom_weight V (D(n := new_dominators pred D n)) < dom_weight V D"
proof -
  have "finite (D n)" using assms(1) by (auto simp: shrinking_def intro: finite_subset [of _ "set V"])
  moreover have "new_dominators pred D n \<subset> D n" using assms by (auto simp: shrinking_def)
  ultimately have "card (new_dominators pred D n) < card (D n)" by (rule psubset_card_mono)
  then show ?thesis unfolding dom_weight_def
    using assms(2) by (intro sum_strict_mono_ex1) (auto intro!: bexI [of _ n])
qed

lemma dom_steps_weight:
  assumes "shrinking pred entry (set V) D" "set ns \<subseteq> set V"
    and "fold (dom_step pred entry) ns (D, ch) = (D', ch')"
  shows "dom_weight V D' \<le> dom_weight V D \<and> (\<not> ch \<and> ch' \<longrightarrow> dom_weight V D' < dom_weight V D)"
  using assms
proof (induction ns arbitrary: D ch)
  case (Cons n ns)
  show ?case
  proof (cases "n = entry \<or> new_dominators pred D n = D n")
    case True
    then have "fold (dom_step pred entry) ns (D, ch) = (D', ch')" using Cons.prems(3)
      by (auto simp: dom_step_eq)
    then show ?thesis using Cons.IH [of D ch] Cons.prems(1,2) by simp
  next
    case False
    let ?D = "D(n := new_dominators pred D n)"
    have "dom_weight V ?D < dom_weight V D" using False Cons by (intro dom_weight_step) auto
    moreover have "dom_weight V D' \<le> dom_weight V ?D"
      using Cons.IH [of ?D True] Cons.prems False
      by (simp add: dom_step_eq shrinking_step del: fun_upd_apply)
    ultimately show ?thesis by simp
  qed
qed simp

lemma dom_steps_unchanged:
  assumes "fold (dom_step pred entry) ns (D, ch) = (D', False)"
  shows "\<not> ch \<and> D' = D \<and> (\<forall>n \<in> set ns. n \<noteq> entry \<longrightarrow> new_dominators pred D n = D n)"
  using assms
proof (induction ns arbitrary: D ch)
  case (Cons n ns)
  have *: "fold (dom_step pred entry) ns (dom_step pred entry n (D, ch)) = (D', False)"
    using Cons.prems by simp
  show ?case
  proof (cases "n = entry \<or> new_dominators pred D n = D n")
    case True
    then show ?thesis using Cons.IH [of D ch] * by (auto simp: dom_step_eq)
  next
    case False
    then show ?thesis using Cons.IH [of "D(n := new_dominators pred D n)" True] *
      by (simp add: dom_step_eq del: fun_upd_apply)
  qed
qed simp

lemma shrinking_initial:
  assumes "entry \<in> set V"
  shows "shrinking pred entry (set V) (initial_dominators entry V)"
proof -
  let ?D = "initial_dominators entry V"
  have sub: "?D n \<subseteq> set V" for n using assms by (auto simp: initial_dominators_def)
  have "new_dominators pred ?D n \<subseteq> ?D n" if n: "n \<in> set V" "n \<noteq> entry" for n
  proof
    fix x assume "x \<in> new_dominators pred ?D n"
    then have "x = n \<or> x \<in> ?D (hd (pred n))"
      by (auto simp: new_dominators_iff simp del: list.set_sel(1) dest: list.set_sel(1))
    then show "x \<in> ?D n" using n sub [of "hd (pred n)"] by (auto simp: initial_dominators_def)
  qed
  then show ?thesis using sub by (simp add: shrinking_def)
qed

lemma dom_loop_terminates:
  assumes "entry \<in> set V"
  shows "\<exists>r. dom_loop pred entry V = Some r"
  unfolding dom_loop_def
proof (rule measure_while_option_Some [where P = "\<lambda>(D, _). shrinking pred entry (set V) D"
      and f = "\<lambda>(D, ch). 2 * dom_weight V D + (if ch then 1 else 0)"])
  fix s assume *: "(\<lambda>(D, _). shrinking pred entry (set V) D) s" "snd s"
  obtain D D' ch' where s: "s = (D, True)"
    and f: "fold (dom_step pred entry) V (D, False) = (D', ch')" using * by (metis prod.collapse)
  show "(case (case s of (D, _) \<Rightarrow> fold (dom_step pred entry) V (D, False)) of
            (D, _) \<Rightarrow> shrinking pred entry (set V) D) \<and>
        (case (case s of (D, _) \<Rightarrow> fold (dom_step pred entry) V (D, False)) of
            (D, ch) \<Rightarrow> 2 * dom_weight V D + (if ch then 1 else 0))
          < (case s of (D, ch) \<Rightarrow> 2 * dom_weight V D + (if ch then 1 else 0))"
    using shrinking_dom_steps [of pred entry "set V" D V False] dom_steps_weight [OF _ _ f, of V] * s f
    by auto
qed (use shrinking_initial [OF assms] in auto)

section \<open>The result is the dominator relation\<close>

text \<open>A path from \<open>entry\<close>, its last node first.\<close>

inductive gpath :: "(nat \<Rightarrow> nat list) \<Rightarrow> nat \<Rightarrow> nat list \<Rightarrow> bool" for pred entry where
  start: "gpath pred entry [entry]"
| extend: "gpath pred entry (p # xs) \<Longrightarrow> p \<in> set (pred n) \<Longrightarrow> gpath pred entry (n # p # xs)"

definition dominates :: "(nat \<Rightarrow> nat list) \<Rightarrow> nat \<Rightarrow> nat \<Rightarrow> nat \<Rightarrow> bool" where
  "dominates pred entry d n = (\<forall>xs. gpath pred entry (n # xs) \<longrightarrow> d \<in> set (n # xs))"

definition dom_fixpoint :: "(nat \<Rightarrow> nat list) \<Rightarrow> nat \<Rightarrow> nat list \<Rightarrow> dom_map \<Rightarrow> bool" where
  "dom_fixpoint pred entry V D = (D entry = {entry} \<and>
     (\<forall>n \<in> set V. n \<noteq> entry \<longrightarrow> new_dominators pred D n = D n))"

text \<open>The sets never lose a dominator.\<close>

definition dom_complete :: "(nat \<Rightarrow> nat list) \<Rightarrow> nat \<Rightarrow> nat list \<Rightarrow> dom_map \<Rightarrow> bool" where
  "dom_complete pred entry V D =
     (D entry = {entry} \<and> (\<forall>n \<in> set V. \<forall>d. dominates pred entry d n \<longrightarrow> d \<in> D n))"

lemma dominates_pred:
  assumes "dominates pred entry d n" "d \<noteq> n" "p \<in> set (pred n)"
  shows "dominates pred entry d p"
  using assms unfolding dominates_def by (metis extend set_ConsD)

lemma dom_complete_step:
  assumes "dom_complete pred entry V D" "n \<in> set V" "n \<noteq> entry" "pred n \<noteq> []"
    and "\<And>n. set (pred n) \<subseteq> set V"
  shows "dom_complete pred entry V (D(n := new_dominators pred D n))"
proof -
  have "d \<in> new_dominators pred D n" if "dominates pred entry d n" for d
    using assms(1,4,5) dominates_pred [OF that]
    unfolding new_dominators_iff dom_complete_def by blast
  then show ?thesis using assms(1,3) by (simp add: dom_complete_def)
qed

lemma dom_complete_steps:
  assumes "dom_complete pred entry V D" "set ns \<subseteq> set V"
    and "\<And>n. set (pred n) \<subseteq> set V" "\<And>n. n \<in> set V \<Longrightarrow> n \<noteq> entry \<Longrightarrow> pred n \<noteq> []"
  shows "dom_complete pred entry V (fst (fold (dom_step pred entry) ns (D, ch)))"
  using assms(1,2)
proof (induction ns arbitrary: D ch)
  case (Cons n ns)
  then show ?case using assms(3,4)
    by (simp add: dom_step_eq dom_complete_step del: fun_upd_apply)
qed simp

lemma dom_loop_result:
  assumes "dom_loop pred entry V = Some (D, ch)"
    and "\<And>n. set (pred n) \<subseteq> set V" "\<And>n. n \<in> set V \<Longrightarrow> n \<noteq> entry \<Longrightarrow> pred n \<noteq> []"
    and "dom_complete pred entry V (initial_dominators entry V)"
  shows "dom_complete pred entry V D \<and> dom_fixpoint pred entry V D"
proof -
  let ?P = "\<lambda>(D, ch). dom_complete pred entry V D \<and> (\<not> ch \<longrightarrow> dom_fixpoint pred entry V D)"
  have "?P (D, ch)"
  proof (rule while_option_rule [OF _ assms(1) [unfolded dom_loop_def], where P = ?P])
    fix s assume *: "?P s"
    obtain E c E' c' where s: "s = (E, c)" and f: "fold (dom_step pred entry) V (E, False) = (E', c')"
      by (metis prod.collapse)
    have "dom_complete pred entry V E'"
      using dom_complete_steps [of pred entry V E V False] * s f assms(2,3) by auto
    moreover have "\<not> c' \<longrightarrow> dom_fixpoint pred entry V E'"
      using dom_steps_unchanged [of pred entry V E False E'] f calculation
      by (auto simp: dom_fixpoint_def dom_complete_def)
    ultimately show "?P (case s of (D, _) \<Rightarrow> fold (dom_step pred entry) V (D, False))"
      using s f by simp
  qed (use assms(4) in simp)
  moreover have "\<not> ch" using while_option_stop [OF assms(1) [unfolded dom_loop_def]] by simp
  ultimately show ?thesis by simp
qed

lemma dom_fixpoint_sound:
  assumes "dom_fixpoint pred entry V D" "gpath pred entry (n # xs)" "d \<in> D n"
    and "\<And>n p. p \<in> set (pred n) \<Longrightarrow> n \<in> set V"
  shows "d \<in> set (n # xs)"
proof -
  have "d \<in> D (hd ys) \<Longrightarrow> d \<in> set ys" if "gpath pred entry ys" for ys
    using that
  proof (induction rule: gpath.induct)
    case start
    then show ?case using assms(1) by (simp add: dom_fixpoint_def)
  next
    case (extend p xs n)
    show ?case
    proof (cases "n = entry")
      case True
      then show ?thesis using assms(1) extend by (auto simp: dom_fixpoint_def)
    next
      case False
      then have "d \<in> new_dominators pred D n"
        using assms(1,4) extend by (auto simp: dom_fixpoint_def)
      then show ?thesis using extend by (auto simp: new_dominators_iff)
    qed
  qed
  from this [OF assms(2)] show ?thesis using assms(3) by simp
qed


section \<open>Immediate dominators\<close>

lemma gpath_suffix: "gpath pred entry (xs @ n # ys) \<Longrightarrow> gpath pred entry (n # ys)"
proof (induction xs)
  case (Cons x xs)
  from Cons.prems have "gpath pred entry (xs @ n # ys)"
    by (cases rule: gpath.cases) (auto simp: Cons_eq_append_conv)
  then show ?case by (rule Cons.IH)
qed simp

lemma gpath_replace:
  assumes "gpath pred entry (xs @ n # ys)" "gpath pred entry (n # zs)"
  shows "gpath pred entry (xs @ n # zs)"
  using assms
proof (induction xs)
  case (Cons x xs)
  from Cons.prems(1) obtain p ps where p: "xs @ n # ys = p # ps" "gpath pred entry (p # ps)"
    "p \<in> set (pred x)"
    by (cases rule: gpath.cases) auto
  then have "gpath pred entry (xs @ n # zs)" using Cons by simp
  moreover obtain qs where "xs @ n # zs = p # qs" using p(1) by (cases xs) auto
  ultimately show ?case using p(3) gpath.extend by simp
qed simp

lemma dominates_refl [simp]: "dominates pred entry n n"
  by (simp add: dominates_def)

lemma dominates_trans:
  assumes "dominates pred entry a b" "dominates pred entry b c"
  shows "dominates pred entry a c"
  unfolding dominates_def
proof (intro allI impI)
  fix xs assume p: "gpath pred entry (c # xs)"
  then obtain ys zs where split: "c # xs = ys @ b # zs"
    using assms(2) by (meson dominates_def split_list)
  then have "gpath pred entry (b # zs)" using p gpath_suffix by metis
  then show "a \<in> set (c # xs)" using assms(1) split by (auto simp: dominates_def)
qed

definition reached :: "(nat \<Rightarrow> nat list) \<Rightarrow> nat \<Rightarrow> nat \<Rightarrow> bool" where
  "reached pred entry n = (\<exists>xs. gpath pred entry (n # xs))"

lemma dominates_antisym:
  assumes "dominates pred entry a b" "dominates pred entry b a" "reached pred entry a"
  shows "a = b"
proof -
  obtain xs where p: "gpath pred entry (a # xs)" using assms(3) by (auto simp: reached_def)
  then obtain ys zs where split: "a # xs = ys @ a # zs" "a \<notin> set zs"
    by (metis list.set_intros(1) split_list_last)
  then have "gpath pred entry (a # zs)" using p gpath_suffix by metis
  then have "b \<in> set (a # zs)" using assms(2) by (auto simp: dominates_def)
  moreover have False if "b \<in> set zs"
  proof -
    from split_list [OF that] obtain us vs where zs: "zs = us @ b # vs" by blast
    then have "gpath pred entry (b # vs)" using \<open>gpath pred entry (a # zs)\<close>
      by (metis append_Cons gpath_suffix)
    then have "a \<in> set (b # vs)" using assms(1) by (auto simp: dominates_def)
    then show False using split(2) zs by auto
  qed
  ultimately show ?thesis by auto
qed

text \<open>The dominators of a node form a chain.\<close>

lemma dominates_chain:
  assumes "dominates pred entry a n" "dominates pred entry b n" "reached pred entry n"
  shows "dominates pred entry a b \<or> dominates pred entry b a"
proof (rule ccontr)
  assume "\<not> ?thesis"
  then obtain us vs where u: "gpath pred entry (b # us)" "a \<notin> set (b # us)"
    and v: "gpath pred entry (a # vs)" "b \<notin> set (a # vs)" by (auto simp: dominates_def)
  obtain xs where p: "gpath pred entry (n # xs)" using assms(3) by (auto simp: reached_def)
  then have "\<exists>x \<in> set (n # xs). x = a \<or> x = b" using assms(1) by (auto simp: dominates_def)
  then obtain ys c zs where s: "n # xs = ys @ c # zs" "c = a \<or> c = b"
    "\<forall>y \<in> set ys. \<not> (y = a \<or> y = b)"
    using split_list_first_prop [of "n # xs" "\<lambda>x. x = a \<or> x = b"] by metis
  define w where "w = (if c = a then vs else us)"
  have "gpath pred entry (ys @ c # w)"
    using p s(1,2) u(1) v(1) gpath_replace [of pred entry ys c zs w] by (auto simp: w_def)
  moreover obtain q where "ys @ c # w = n # q" using s(1) by (cases ys) auto
  ultimately have "a \<in> set (ys @ c # w)" "b \<in> set (ys @ c # w)"
    using assms(1,2) by (metis dominates_def)+
  then show False using s(2,3) u(2) v(2) by (auto simp: w_def split: if_splits)
qed

text \<open>
  The scan keeps a candidate of greatest score. Scores are distinct along the chain, so the
  order of the scan does not matter.
\<close>

lemma idom_scan:
  assumes "fold (idom_step D n) cs (i, s) = (i', s')"
  shows "(i' = i \<and> s' = s \<and> (\<forall>c \<in> set cs. c \<noteq> n \<longrightarrow> card (D c) \<le> s)) \<or>
    (i' \<in> set cs \<and> i' \<noteq> n \<and> s' = card (D i') \<and> s < s' \<and> (\<forall>c \<in> set cs. c \<noteq> n \<longrightarrow> card (D c) \<le> s'))"
  using assms
proof (induction cs arbitrary: i s)
  case (Cons c cs)
  then have f: "fold (idom_step D n) cs (idom_step D n c (i, s)) = (i', s')" by simp
  show ?case
  proof (cases "c \<noteq> n \<and> card (D c) > s")
    case True
    then have "idom_step D n c (i, s) = (c, card (D c))" by (auto simp: idom_step_def)
    with f have "fold (idom_step D n) cs (c, card (D c)) = (i', s')" by simp
    from Cons.IH [OF this] True show ?thesis by auto
  next
    case False
    then have "idom_step D n c (i, s) = (i, s)" by (auto simp: idom_step_def)
    with f have "fold (idom_step D n) cs (i, s) = (i', s')" by simp
    from Cons.IH [OF this] False show ?thesis by auto
  qed
qed simp

definition immediate_dominator :: "(nat \<Rightarrow> nat list) \<Rightarrow> nat \<Rightarrow> nat \<Rightarrow> nat \<Rightarrow> bool" where
  "immediate_dominator pred entry d n = (dominates pred entry d n \<and> d \<noteq> n \<and>
     (\<forall>c. dominates pred entry c n \<longrightarrow> c \<noteq> n \<longrightarrow> dominates pred entry c d))"

lemma idom_of_correct:
  assumes "\<And>m. m \<in> V \<Longrightarrow> D m = {d. dominates pred entry d m}" "finite V"
    and "\<And>m d. m \<in> V \<Longrightarrow> dominates pred entry d m \<Longrightarrow> d \<in> V"
    and "\<And>m. m \<in> V \<Longrightarrow> reached pred entry m"
    and "\<And>S. finite S \<Longrightarrow> set (traversal S) = S"
    and "n \<in> V" "n \<noteq> entry" "dominates pred entry entry n"
  shows "immediate_dominator pred entry (idom_of traversal D entry n) n"
proof -
  have fin: "finite (D m)" if "m \<in> V" for m
    using assms(1) [OF that] assms(3) [OF that] assms(2) by (auto intro: finite_subset)
  have D: "d \<in> D n \<longleftrightarrow> dominates pred entry d n" for d using assms(1,6) by simp
  obtain i' s' where f: "fold (idom_step D n) (traversal (D n)) (entry, 0) = (i', s')"
    by (metis prod.collapse)
  have trav: "set (traversal (D n)) = D n" using assms(5) fin assms(6) by simp
  have pos: "card (D d) > 0" if "d \<in> D n" for d
  proof -
    have "d \<in> V" using that D assms(3,6) by blast
    have "d \<in> D d" using assms(1) [OF \<open>d \<in> V\<close>] by simp
    with fin [OF \<open>d \<in> V\<close>] show ?thesis by (auto simp: card_gt_0_iff)
  qed
  from idom_scan [OF f] pos [of entry] assms(7,8) D trav
  have i: "i' \<in> D n" "i' \<noteq> n" "\<And>c. c \<in> D n \<Longrightarrow> c \<noteq> n \<Longrightarrow> card (D c) \<le> card (D i')" by auto
  have iV: "i' \<in> V" using i(1) D assms(3,6) by blast
  have "dominates pred entry c i'" if c: "dominates pred entry c n" "c \<noteq> n" for c
  proof (rule ccontr)
    assume no: "\<not> dominates pred entry c i'"
    have cV: "c \<in> V" using c assms(3,6) by blast
    have ic: "dominates pred entry i' c"
      using no dominates_chain [OF c(1), of i'] i(1) D assms(4,6) by blast
    then have "D i' \<subseteq> D c" using assms(1) cV iV by (auto intro: dominates_trans)
    moreover have "c \<in> D c" "c \<notin> D i'" using assms(1) cV iV no by auto
    ultimately have "card (D i') < card (D c)" using fin [OF cV] by (intro psubset_card_mono) auto
    then show False using i(3) [of c] c D by auto
  qed
  then show ?thesis using i f assms(7) D by (simp add: immediate_dominator_def idom_of_def)
qed


section \<open>The graph the search finds\<close>

definition edges :: "DfsState \<Rightarrow> (nat \<times> nat) set" where
  "edges s = {(n, c). n \<in> set (dfs_pred s c)}"

definition visit_child :: "nat \<Rightarrow> 'd rexpr \<Rightarrow> DfsState \<Rightarrow> DfsState" where
  "visit_child node child s =
     (case node_ptr child of
        None \<Rightarrow> s
      | Some c \<Rightarrow> if is_op child then s else dfs child (add_pred c node s))"

lemma dfs_eq:
  "dfs e s = (case node_ptr e of
     None \<Rightarrow> s
   | Some n \<Rightarrow> if is_op e \<or> n \<in> dfs_visited s then s
       else let s = fold (visit_child n) (GetChildren e) (s\<lparr>dfs_visited := insert n (dfs_visited s)\<rparr>)
            in s\<lparr>dfs_postorder := dfs_postorder s @ [n]\<rparr>)"
  by (subst dfs.simps) (auto simp: visit_child_def [abs_def] Let_def split: option.splits)

text \<open>What a run of the search from the node \<open>p\<close> adds.\<close>

definition search_adds :: "nat \<Rightarrow> DfsState \<Rightarrow> DfsState \<Rightarrow> bool" where
  "search_adds p s s' = (dfs_visited s \<subseteq> dfs_visited s' \<and> edges s \<subseteq> edges s' \<and>
     (\<exists>new. dfs_postorder s' = dfs_postorder s @ new \<and> distinct new \<and>
        set new = dfs_visited s' - dfs_visited s) \<and>
     edges s' - edges s \<subseteq> dfs_visited s' \<times> dfs_visited s' \<and>
     (\<forall>v \<in> dfs_visited s' - dfs_visited s. (p, v) \<in> (edges s')\<^sup>*))"

lemma search_adds_refl [simp]: "search_adds p s s"
  by (simp add: search_adds_def)

lemma search_adds_trans:
  assumes "search_adds p s s'" "search_adds p s' s''"
  shows "search_adds p s s''"
proof -
  obtain xs ys where xs: "dfs_postorder s' = dfs_postorder s @ xs" "distinct xs"
      "set xs = dfs_visited s' - dfs_visited s"
    and ys: "dfs_postorder s'' = dfs_postorder s' @ ys" "distinct ys"
      "set ys = dfs_visited s'' - dfs_visited s'"
    using assms unfolding search_adds_def by metis
  have le: "dfs_visited s \<subseteq> dfs_visited s'" "dfs_visited s' \<subseteq> dfs_visited s''"
    "edges s \<subseteq> edges s'" "edges s' \<subseteq> edges s''"
    using assms by (simp_all add: search_adds_def)
  have "dfs_postorder s'' = dfs_postorder s @ (xs @ ys) \<and> distinct (xs @ ys) \<and>
      set (xs @ ys) = dfs_visited s'' - dfs_visited s"
    using xs ys le by auto
  then have "\<exists>new. dfs_postorder s'' = dfs_postorder s @ new \<and> distinct new \<and>
      set new = dfs_visited s'' - dfs_visited s" by (rule exI)
  moreover have "edges s'' - edges s \<subseteq> dfs_visited s'' \<times> dfs_visited s''"
  proof
    fix e assume "e \<in> edges s'' - edges s"
    then have "e \<in> edges s'' - edges s' \<or> e \<in> edges s' - edges s" by blast
    moreover have "edges s' - edges s \<subseteq> dfs_visited s' \<times> dfs_visited s'"
      "edges s'' - edges s' \<subseteq> dfs_visited s'' \<times> dfs_visited s''"
      using assms by (simp_all add: search_adds_def)
    ultimately show "e \<in> dfs_visited s'' \<times> dfs_visited s''" using le(2) by blast
  qed
  moreover have "(p, v) \<in> (edges s'')\<^sup>*" if "v \<in> dfs_visited s'' - dfs_visited s" for v
  proof (cases "v \<in> dfs_visited s'")
    case True
    then have "(p, v) \<in> (edges s')\<^sup>*" using assms(1) that by (simp add: search_adds_def)
    then show ?thesis using rtrancl_mono [OF le(4)] by (rule subsetD [rotated])
  next
    case False
    then show ?thesis using assms(2) that by (simp add: search_adds_def)
  qed
  ultimately show ?thesis unfolding search_adds_def using subset_trans [OF le(1,2)] subset_trans [OF le(3,4)]
    by (intro conjI ballI)
qed

lemma edges_add_pred [simp]: "edges (add_pred c n s) = insert (n, c) (edges s)"
  by (auto simp: edges_def add_pred_def)

lemma add_pred_simps [simp]:
  "dfs_visited (add_pred c n s) = dfs_visited s" "dfs_postorder (add_pred c n s) = dfs_postorder s"
  by (simp_all add: add_pred_def)

lemma search_adds_visit_child:
  assumes "node_ptr child = Some c" "search_adds c (add_pred c n s) s'" "c \<in> dfs_visited s'"
    and "n \<in> dfs_visited s"
  shows "search_adds n s s'"
proof -
  have "(n, c) \<in> edges s'" using assms(2) by (auto simp: search_adds_def)
  then have "(n, v) \<in> (edges s')\<^sup>*" if "(c, v) \<in> (edges s')\<^sup>*" for v
    using that by (rule converse_rtrancl_into_rtrancl)
  then show ?thesis using assms by (auto simp: search_adds_def)
qed

lemma search_adds_children:
  assumes "\<And>child c s. child \<in> set cs \<Longrightarrow> node_ptr child = Some c \<Longrightarrow> \<not> is_op child \<Longrightarrow>
      search_adds c s (dfs child s) \<and> c \<in> dfs_visited (dfs child s)"
    and "n \<in> dfs_visited s"
  shows "search_adds n s (fold (visit_child n) cs s)"
  using assms
proof (induction cs arbitrary: s)
  case (Cons child cs)
  have step: "search_adds n s (visit_child n child s)"
    using Cons.prems search_adds_visit_child [of child _ n s]
    by (auto simp: visit_child_def split: option.splits)
  moreover have "search_adds n (visit_child n child s) (fold (visit_child n) cs (visit_child n child s))"
    by (rule Cons.IH) (use step Cons.prems in \<open>auto simp: search_adds_def\<close>)
  ultimately show ?case using search_adds_trans by simp
qed simp

lemma dfs_search_adds:
  assumes "node_ptr e = Some p" "\<not> is_op e"
  shows "search_adds p s (dfs e s) \<and> p \<in> dfs_visited (dfs e s)"
  using assms
proof (induction "rsize e" arbitrary: e p s rule: less_induct)
  case less
  show ?case
  proof (cases "p \<in> dfs_visited s")
    case True
    then show ?thesis using less.prems by (simp add: dfs_eq)
  next
    case False
    define s1 where "s1 = s\<lparr>dfs_visited := insert p (dfs_visited s)\<rparr>"
    define s2 where "s2 = fold (visit_child p) (GetChildren e) s1"
    have "search_adds p s1 s2" unfolding s2_def
      by (rule search_adds_children) (use less in \<open>auto simp: s1_def\<close>)
    then obtain new where n: "dfs_postorder s2 = dfs_postorder s1 @ new" "distinct new"
      "set new = dfs_visited s2 - dfs_visited s1" and g: "search_adds p s1 s2" unfolding search_adds_def by auto
    have "dfs e s = s2\<lparr>dfs_postorder := dfs_postorder s2 @ [p]\<rparr>"
      using less.prems False by (simp add: dfs_eq s1_def s2_def Let_def)
    moreover have "search_adds p s (s2\<lparr>dfs_postorder := dfs_postorder s2 @ [p]\<rparr>)"
      using g n False by (auto simp: search_adds_def s1_def edges_def intro!: exI [of _ "new @ [p]"])
    moreover have "p \<in> dfs_visited s2" using g by (auto simp: search_adds_def s1_def)
    ultimately show ?thesis by simp
  qed
qed

abbreviation dfs_start :: DfsState where
  "dfs_start \<equiv> \<lparr>dfs_visited = {}, dfs_pred = (\<lambda>_. []), dfs_postorder = []\<rparr>"

lemma edges_dfs_start [simp]: "edges dfs_start = {}"
  by (simp add: edges_def)

lemma reached_edges:
  assumes "(p, v) \<in> (edges s)\<^sup>*"
  shows "reached (dfs_pred s) p v"
  using assms
proof (induction rule: rtrancl_induct)
  case base
  then show ?case by (auto simp: reached_def intro: gpath.start)
next
  case (step y z)
  then show ?case by (auto simp: reached_def edges_def intro: gpath.extend)
qed

lemma dominates_reached:
  assumes "reached pred p n" "dominates pred p d n" "\<And>c. set (pred c) \<subseteq> V" "p \<in> V" "n \<in> V"
  shows "d \<in> V"
proof -
  obtain xs where "gpath pred p (n # xs)" using assms(1) by (auto simp: reached_def)
  moreover have "set ys \<subseteq> V" if "gpath pred p ys" "hd ys \<in> V" for ys
    using that by (induction rule: gpath.induct) (use assms(3) in auto)
  ultimately show ?thesis using assms(2,5) unfolding dominates_def by (metis list.sel(1) subsetD)
qed

lemma entry_dominates: "dominates pred p p n"
proof -
  have *: "p \<in> set ys" if "gpath pred p ys" for ys using that by induction auto
  show ?thesis unfolding dominates_def by (blast dest: *)
qed


lemma dfs_result:
  assumes "node_ptr e = Some p" "\<not> is_op e"
  defines "s \<equiv> dfs e dfs_start"
  shows "p \<in> set (dfs_postorder s)" "distinct (dfs_postorder s)"
    "set (dfs_pred s c) \<subseteq> set (dfs_postorder s)"
    "n \<in> set (dfs_pred s c) \<Longrightarrow> c \<in> set (dfs_postorder s)"
    "n \<in> set (dfs_postorder s) \<Longrightarrow> reached (dfs_pred s) p n"
  using dfs_search_adds [OF assms(1,2), of dfs_start] reached_edges [of p n s] unfolding s_def search_adds_def
  by (auto simp: edges_def)

lemma dfs_pred_nonempty:
  assumes "reached pred p n" "n \<noteq> p"
  shows "pred n \<noteq> []"
  using assms by (auto simp: reached_def elim: gpath.cases)

lemma dom_complete_initial:
  assumes "\<And>n. n \<in> set V \<Longrightarrow> reached pred p n" "\<And>c. set (pred c) \<subseteq> set V" "p \<in> set V"
    and "\<And>d. dominates pred p d p \<Longrightarrow> d = p"
  shows "dom_complete pred p V (initial_dominators p V)"
  using assms dominates_reached [OF assms(1) _ assms(2,3)]
  by (auto simp: dom_complete_def initial_dominators_def)

lemma dominates_entry: "dominates pred p d p \<Longrightarrow> d = p"
  using gpath.start [of pred p] by (auto simp: dominates_def)

section \<open>The pass\<close>

text \<open>
  What the pass promises of the state \<open>st'\<close> it leaves: only spans change, and those of the
  nodes found that had none name the node's place in the post-order and that of its
  immediate dominator (its own place for the function).
\<close>

definition spans_captured ::
  "'d rexpr \<Rightarrow> nat \<Rightarrow> 's RelayState_scheme \<Rightarrow> 's RelayState_scheme \<Rightarrow> bool" where
  "spans_captured func p st st' =
     (let s = dfs func dfs_start; V = dfs_postorder s in
      st' = st\<lparr>span := span st'\<rparr> \<and>
      (\<forall>n. span st n \<noteq> None \<or> n \<notin> set V \<longrightarrow> span st' n = span st n) \<and>
      (\<forall>n \<in> set V. span st n = None \<longrightarrow>
         (\<exists>i j. i < length V \<and> V ! i = n \<and> j < length V \<and>
            span st' n = Some (''pass.capture_post_dfs'', int i, int j) \<and>
            (if n = p then j = i else immediate_dominator (dfs_pred s) p (V ! j) n))))"

lemma index_of_nth: "n \<in> set V \<Longrightarrow> index_of V n < length V \<and> V ! index_of V n = n"
  by (induction V) auto

lemma set_spans:
  assumes "distinct ns"
  shows "fold (set_span trav V D p) ns st =
    st\<lparr>span := (\<lambda>n. if n \<in> set ns \<and> span st n = None
       then Some (''pass.capture_post_dfs'', int (index_of V n), int (index_of V (idom_of trav D p n)))
       else span st n)\<rparr>"
  using assms
proof (induction ns arbitrary: st)
  case (Cons n ns)
  then show ?case by (auto simp: set_span_def fun_eq_iff)
qed simp

lemma dom_loop_dominators:
  assumes "node_ptr func = Some p" "\<not> is_op func"
  defines "s \<equiv> dfs func dfs_start"
  shows "\<exists>D ch. dom_loop (dfs_pred s) p (dfs_postorder s) = Some (D, ch) \<and>
    (\<forall>n \<in> set (dfs_postorder s). D n = {d. dominates (dfs_pred s) p d n})"
proof -
  let ?V = "dfs_postorder s" and ?pred = "dfs_pred s"
  note r = dfs_result [OF assms(1,2), folded s_def]
  obtain D ch where l: "dom_loop ?pred p ?V = Some (D, ch)"
    using dom_loop_terminates [OF r(1), of ?pred] by auto
  have "dom_complete ?pred p ?V D \<and> dom_fixpoint ?pred p ?V D"
    using dom_loop_result [OF l] r(3,5) dfs_pred_nonempty
      dom_complete_initial [of ?V ?pred p] r(1) dominates_entry by blast
  then have "D n = {d. dominates ?pred p d n}" if "n \<in> set ?V" for n
    using that dom_fixpoint_sound [of ?pred p ?V D n _ _] r(4)
    by (auto simp: dom_complete_def dominates_def simp del: set_simps)
  with l show ?thesis by blast
qed

text \<open>
C26. CapturePostDfsIndexInSpansPass always returns: the loop that computes the dominators
reaches its fixpoint for every function and in every traversal order.
\<close>

theorem capture_spans_terminates:
  "\<exists>r. CapturePostDfsIndexInSpansPass trav func st = Some r"
proof (cases "node_ptr func = None \<or> is_op func")
  case True
  then have "dfs_postorder (dfs func dfs_start) = []" by (auto simp: dfs_eq split: option.splits)
  then show ?thesis by (simp add: CapturePostDfsIndexInSpansPass_def Let_def)
next
  case False
  then show ?thesis using dom_loop_dominators [of func]
    by (auto simp: CapturePostDfsIndexInSpansPass_def Let_def)
qed

text \<open>
C27. CapturePostDfsIndexInSpansPass returns the function it is given and writes into every
node without a span its index in the post-order of the search and the index of its
immediate dominator in the graph the search found, the dominator every other strict
dominator dominates, whatever the order in which the hash sets are traversed; no other
annotation changes.
\<close>

theorem capture_spans_spec:
  assumes "\<And>S. finite S \<Longrightarrow> set (trav S) = S"
  shows "\<exists>st'. CapturePostDfsIndexInSpansPass trav (RFunction p ps b) st = Some (RFunction p ps b, st') \<and>
    spans_captured (RFunction p ps b) p st st'"
proof -
  let ?f = "RFunction p ps b"
  define s where "s = dfs ?f dfs_start"
  define V where "V = dfs_postorder s"
  have f: "node_ptr ?f = Some p" "\<not> is_op ?f" by (simp_all add: is_op_def)
  note r = dfs_result [OF f, folded s_def, folded V_def]
  obtain D ch where l: "dom_loop (dfs_pred s) p V = Some (D, ch)"
    and D: "\<forall>n \<in> set V. D n = {d. dominates (dfs_pred s) p d n}"
    using dom_loop_dominators [OF f] unfolding s_def V_def by blast
  define st' where "st' = fold (set_span trav V D p) V st"
  have "CapturePostDfsIndexInSpansPass trav ?f st = Some (?f, st')"
    using l r(1) by (auto simp: CapturePostDfsIndexInSpansPass_def Let_def s_def V_def st'_def)
  moreover have "spans_captured ?f p st st'"
  proof -
    have dV: "d \<in> set V" if "m \<in> set V" "dominates (dfs_pred s) p d m" for d m
      using dominates_reached [of "dfs_pred s" p m d "set V"] r that by blast
    have idom: "immediate_dominator (dfs_pred s) p (idom_of trav D p n) n"
      if "n \<in> set V" "n \<noteq> p" for n
      by (rule idom_of_correct [of "set V"])
        (use D dV r(5) assms that entry_dominates in \<open>simp_all\<close>)
    have st: "span st' n = (if n \<in> set V \<and> span st n = None
       then Some (''pass.capture_post_dfs'', int (index_of V n), int (index_of V (idom_of trav D p n)))
       else span st n)" "st' = st\<lparr>span := span st'\<rparr>" for n
      unfolding st'_def set_spans [OF r(2)] by simp_all
    have node: "\<exists>i j. i < length V \<and> V ! i = n \<and> j < length V \<and>
        span st' n = Some (''pass.capture_post_dfs'', int i, int j) \<and>
        (if n = p then j = i else immediate_dominator (dfs_pred s) p (V ! j) n)"
      if n: "n \<in> set V" "span st n = None" for n
    proof -
      let ?d = "idom_of trav D p n"
      have "?d \<in> set V" using idom [OF n(1)] dV [OF n(1)] n
        by (cases "n = p") (auto simp: immediate_dominator_def idom_of_def)
      note d = index_of_nth [OF this]
      have "if n = p then index_of V ?d = index_of V n
        else immediate_dominator (dfs_pred s) p (V ! index_of V ?d) n"
        using idom [OF n(1)] d by (auto simp: idom_of_def)
      then show ?thesis using index_of_nth [OF n(1)] d st(1) n
        by (intro exI [of _ "index_of V n"] exI [of _ "index_of V ?d"]) simp
    qed
    show ?thesis unfolding spans_captured_def Let_def s_def [symmetric] V_def [symmetric]
      using st node by auto
  qed
  ultimately show ?thesis by blast
qed

theorem capture_spans_spec_witness:
  "\<exists>st'. CapturePostDfsIndexInSpansPass sorted_list_of_set
      (RFunction 0 [\<lparr>rv_addr = 1, rv_name = ''x'', rv_annotation = UndefinedType\<rparr>]
        (RTuple 2 [RVar \<lparr>rv_addr = 1, rv_name = ''x'', rv_annotation = UndefinedType\<rparr>] :: int rexpr))
      \<lparr>next_node = 3, checked_type = (\<lambda>_. UndefinedType), virtual_device = (\<lambda>_. None),
       span = (\<lambda>_. None)\<rparr> =
    Some (RFunction 0 [\<lparr>rv_addr = 1, rv_name = ''x'', rv_annotation = UndefinedType\<rparr>]
        (RTuple 2 [RVar \<lparr>rv_addr = 1, rv_name = ''x'', rv_annotation = UndefinedType\<rparr>]), st') \<and>
    spans_captured
      (RFunction 0 [\<lparr>rv_addr = 1, rv_name = ''x'', rv_annotation = UndefinedType\<rparr>]
        (RTuple 2 [RVar \<lparr>rv_addr = 1, rv_name = ''x'', rv_annotation = UndefinedType\<rparr>] :: int rexpr))
      0 \<lparr>next_node = 3, checked_type = (\<lambda>_. UndefinedType), virtual_device = (\<lambda>_. None),
       span = (\<lambda>_. None)\<rparr> st'"
  by (rule capture_spans_spec) simp

end
