(* ===== verification/Relay_Pipeline.thy ===== *)
theory Relay_Pipeline
  imports Relay_Passes Relay_SpanProofs Relay_InferProofs
begin

text \<open>
  The pass pipeline of \<^verbatim>\<open>src/relay/transforms/pipeline.cc\<close>: the table of named passes, the
  default order and the driver. The spans and artifacts around each pass
  (\<^verbatim>\<open>RunInstrumentedPass\<close>) only observe the functions, and the driver rethrows what a pass
  throws. A run is \<open>None\<close> when it does not end; parameters are the host arithmetic of the
  folding passes and the traversal order of hash sets.
\<close>

section \<open>Definitions\<close>

type_synonym 'd relay_result = "('d rexpr \<times> RelayState) res option"

type_synonym 'd RelayPassFunc = "'d rexpr \<Rightarrow> RelayState \<Rightarrow> 'd relay_result"

definition GetRelayPassTable ::
  "'d host \<Rightarrow> (nat set \<Rightarrow> nat list) \<Rightarrow> pass_env \<Rightarrow> (string \<times> 'd RelayPassFunc) list" where
  "GetRelayPassTable H traversal E =
     [(''fold_tuple_get_item'', \<lambda>f st. Some (FoldTupleGetItemPass E f st)),
      (''fold_constant'', \<lambda>f st. Some (RelayFoldConstantPass H E f st)),
      (''simplify_expr'', \<lambda>f st. Some (RelaySimplifyExprPass H E f st)),
      (''canonicalize_cast'', \<lambda>f st. Some (CanonicalizeCastPass E f st)),
      (''remove_standalone_reshapes'', \<lambda>f st. Some (RemoveStandaloneReshapesPass E f st)),
      (''eliminate_common_subexpr'', \<lambda>f st. Some (EliminateCommonSubexprPass E f st)),
      (''eliminate_dead_let'', \<lambda>f st. Some (EliminateDeadLetPass E f st)),
      (''annotate_memory_scope'', \<lambda>f st. Some (AnnotateMemoryScopePass f st)),
      (''capture_post_dfs_index_in_spans'',
         \<lambda>f st. map_option Inr (CapturePostDfsIndexInSpansPass traversal f st)),
      (''infer_type'', \<lambda>f st. Some (InferTypePass f st))]"

definition GetDefaultPassOrder_relay :: "string list" where
  "GetDefaultPassOrder_relay =
     [''fold_tuple_get_item'', ''fold_constant'', ''simplify_expr'', ''canonicalize_cast'',
      ''remove_standalone_reshapes'', ''eliminate_common_subexpr'', ''eliminate_dead_let'',
      ''annotate_memory_scope'', ''capture_post_dfs_index_in_spans'', ''infer_type'']"

definition RunSinglePass_relay ::
  "'d host \<Rightarrow> (nat set \<Rightarrow> nat list) \<Rightarrow> pass_env \<Rightarrow> string \<Rightarrow> 'd rexpr \<times> RelayState \<Rightarrow> 'd relay_result"
where
  "RunSinglePass_relay H traversal E pass_name = (\<lambda>(f, st).
     case map_of (GetRelayPassTable H traversal E) pass_name of
       None \<Rightarrow> Some (throw (''Unknown Relay pass in pipeline: '' @ pass_name))
     | Some p \<Rightarrow> p f st)"

text \<open>A loop over names that stops at the first exception.\<close>

fun run_each :: "('n \<Rightarrow> 'a \<Rightarrow> 'a res option) \<Rightarrow> 'n list \<Rightarrow> 'a \<Rightarrow> 'a res option" where
  "run_each run [] current = Some (Inr current)"
| "run_each run (x # xs) current =
     (case run x current of
        Some (Inr next_one) \<Rightarrow> run_each run xs next_one
      | failed \<Rightarrow> failed)"

definition RunPipelineEntry_relay ::
  "'d host \<Rightarrow> (nat set \<Rightarrow> nat list) \<Rightarrow> pass_env \<Rightarrow> string \<Rightarrow> 'd rexpr \<times> RelayState \<Rightarrow> 'd relay_result"
where
  "RunPipelineEntry_relay H traversal E pass_name current =
     (if pass_name = ''optimize_default''
      then run_each (RunSinglePass_relay H traversal E) GetDefaultPassOrder_relay current
      else RunSinglePass_relay H traversal E pass_name current)"

definition RunRelayPassPipeline ::
  "'d host \<Rightarrow> (nat set \<Rightarrow> nat list) \<Rightarrow> pass_env \<Rightarrow> 'd rexpr \<Rightarrow> string list \<Rightarrow> RelayState \<Rightarrow>
     'd relay_result" where
  "RunRelayPassPipeline H traversal E func pass_names st =
     (if func = RUndef then Some (throw ''RunRelayPassPipeline expects a defined Function'')
      else run_each (RunPipelineEntry_relay H traversal E) pass_names (func, st))"

section \<open>The driver returns\<close>






section \<open>What the driver preserves\<close>













lemma relay_pipeline_unknown:
  "nm \<noteq> ''optimize_default'' \<Longrightarrow> nm \<notin> set GetDefaultPassOrder_relay \<Longrightarrow> func \<noteq> RUndef \<Longrightarrow>
     RunRelayPassPipeline H trav E func (nm # names) st =
       Some (throw (''Unknown Relay pass in pipeline: '' @ nm))"
  by (auto simp: RunRelayPassPipeline_def RunPipelineEntry_relay_def RunSinglePass_relay_def
      GetRelayPassTable_def GetDefaultPassOrder_relay_def map_of_eq_None_iff)

end
