(* ===== verification/Runtime_Cache.thy ===== *)
theory Runtime_Cache
  imports Prelude "HOL-Library.AList" "HOL-Library.Word" "HOL-Library.Multiset"
begin

text \<open>
  The bookkeeping of the adaptive runtime: shape signatures and their hash
  (\<^verbatim>\<open>include/runtime/shape_predictor.h\<close>), the shape predictor
  (\<^verbatim>\<open>src/runtime/shape_predictor.cc\<close>), the kernel cache
  (\<^verbatim>\<open>src/runtime/kernel_cache.cc\<close>) and the kernel runner
  (\<^verbatim>\<open>src/runtime/kernel_runner.cc\<close>). A \<^verbatim>\<open>std::unordered_map\<close> is an association list
  with distinct keys whose order is the iteration order; the theorems hold for every order.
  Each operation runs under the mutex of its object and is one atomic function here.
\<close>

section \<open>Shape signatures\<close>

type_synonym ShapeSignature = "int list list"

definition MakeShapeSignature :: "int list list \<Rightarrow> ShapeSignature" where
  "MakeShapeSignature shapes = shapes"

text \<open>
  The hash combines the number of inputs, the rank of each input and the hash of each
  dimension in 64-bit arithmetic. \<^verbatim>\<open>std::hash<int64_t>\<close> is the parameter \<open>hash_int64\<close>.
\<close>

unbundle bit_operations_syntax

definition hash_combine :: "64 word \<Rightarrow> 64 word \<Rightarrow> 64 word" where
  "hash_combine seed v = seed XOR (v + 0x9e3779b9 + push_bit 6 seed + drop_bit 2 seed)"

definition shape_hash :: "(int \<Rightarrow> 64 word) \<Rightarrow> int list \<Rightarrow> 64 word \<Rightarrow> 64 word" where
  "shape_hash hash_int64 shape seed =
     fold (\<lambda>d seed. hash_combine seed (hash_int64 d)) shape
       (hash_combine seed (word_of_nat (length shape)))"

definition Hash :: "(int \<Rightarrow> 64 word) \<Rightarrow> ShapeSignature \<Rightarrow> 64 word" where
  "Hash hash_int64 sig = fold (shape_hash hash_int64) sig (word_of_nat (length sig))"

section \<open>The shape predictor\<close>

text \<open>
  The counts are \<^verbatim>\<open>int\<close>s. Their overflow is undefined behaviour in C++; the definitions
  give it the two's complement result that the targets of this program produce, and the
  theorems about counts bound the history so that it does not happen.
\<close>

record ShapePredictor =
  freq :: "(ShapeSignature \<times> int) list"
  recent :: "ShapeSignature list"
  total_count :: int

definition kMaxRecent :: nat where
  "kMaxRecent = 200"

definition new_predictor :: ShapePredictor where
  "new_predictor = \<lparr>freq = [], recent = [], total_count = 0\<rparr>"

definition freq_of :: "ShapePredictor \<Rightarrow> ShapeSignature \<Rightarrow> int" where
  "freq_of p sig = (case map_of (freq p) sig of Some n \<Rightarrow> n | None \<Rightarrow> 0)"

definition Record :: "ShapeSignature \<Rightarrow> ShapePredictor \<Rightarrow> ShapePredictor" where
  "Record sig p =
     (let recent' = recent p @ [sig] in
      \<lparr>freq = AList.update sig (i32 (freq_of p sig + 1)) (freq p),
       recent = (if length recent' > kMaxRecent then tl recent' else recent'),
       total_count = i32 (total_count p + 1)\<rparr>)"

text \<open>
  \<^verbatim>\<open>std::sort\<close> by decreasing count; among equal counts any order is allowed, the order of
  the table is the one taken here.
\<close>

definition PredictTopK :: "int \<Rightarrow> ShapePredictor \<Rightarrow> ShapeSignature list" where
  "PredictTopK k p =
     (let items = sort_key (\<lambda>a. - snd a) (freq p)
      in map fst (take (nat (min k (i32 (int (length items))))) items))"

text \<open>The ratio comparison on doubles is the parameter \<open>ratio_ge\<close> of count and total.\<close>

definition ShouldCompile ::
  "(int \<Rightarrow> int \<Rightarrow> bool) \<Rightarrow> ShapeSignature \<Rightarrow> int \<Rightarrow> ShapePredictor \<Rightarrow> bool" where
  "ShouldCompile ratio_ge sig count_threshold p =
     (case map_of (freq p) sig of
        None \<Rightarrow> False
      | Some n \<Rightarrow>
          if n < count_threshold then False
          else if total_count p > 0 \<and> ratio_ge n (total_count p) then True
          else n \<ge> count_threshold)"

definition GetCount :: "ShapeSignature \<Rightarrow> ShapePredictor \<Rightarrow> int" where
  "GetCount sig p = (case map_of (freq p) sig of Some n \<Rightarrow> n | None \<Rightarrow> 0)"

definition TotalCount :: "ShapePredictor \<Rightarrow> int" where
  "TotalCount p = total_count p"

section \<open>The kernel cache\<close>

type_synonym 'm KernelCache = "(ShapeSignature \<times> 'm) list"

definition GetExact :: "ShapeSignature \<Rightarrow> 'm KernelCache \<Rightarrow> 'm option" where
  "GetExact sig cache = map_of cache sig"

text \<open>
  The distance of a query to a cached signature: \<open>-1\<close> unless both have the same number of
  inputs, the same ranks, and no cached dimension is smaller; otherwise the sum of the
  differences. \<open>None\<close> is the early return of \<open>-1\<close>.
\<close>

fun dims_distance :: "int list \<Rightarrow> int list \<Rightarrow> int \<Rightarrow> int option" where
  "dims_distance (q # qs) (c # cs) acc =
     (if c < q then None else dims_distance qs cs (i64 (acc + (c - q))))"
| "dims_distance _ _ acc = Some acc"

fun shapes_distance :: "int list list \<Rightarrow> int list list \<Rightarrow> int \<Rightarrow> int option" where
  "shapes_distance (q # qs) (c # cs) acc =
     (if length q \<noteq> length c then None
      else case dims_distance q c acc of
             None \<Rightarrow> None | Some acc' \<Rightarrow> shapes_distance qs cs acc')"
| "shapes_distance _ _ acc = Some acc"

definition ShapeDistance :: "ShapeSignature \<Rightarrow> ShapeSignature \<Rightarrow> int" where
  "ShapeDistance query cached =
     (if length query \<noteq> length cached then -1
      else case shapes_distance query cached 0 of None \<Rightarrow> -1 | Some acc \<Rightarrow> acc)"

definition INT64_MAX :: int where
  "INT64_MAX = 2 ^ 63 - 1"

definition fuzzy_step ::
  "ShapeSignature \<Rightarrow> ShapeSignature \<times> 'm \<Rightarrow> (ShapeSignature \<times> 'm) option \<times> int \<Rightarrow>
     (ShapeSignature \<times> 'm) option \<times> int" where
  "fuzzy_step sig = (\<lambda>(cached_sig, m) (best, best_dist).
     let dist = ShapeDistance sig cached_sig in
     if dist \<ge> 0 \<and> dist < best_dist then (Some (cached_sig, m), dist) else (best, best_dist))"

text \<open>The entry the source returns a pointer into; its key is kept for the theorems.\<close>

definition GetFuzzyEntry ::
  "ShapeSignature \<Rightarrow> 'm KernelCache \<Rightarrow> (ShapeSignature \<times> 'm) option" where
  "GetFuzzyEntry sig cache = fst (fold (fuzzy_step sig) cache (None, INT64_MAX))"

definition GetFuzzy :: "ShapeSignature \<Rightarrow> 'm KernelCache \<Rightarrow> 'm option" where
  "GetFuzzy sig cache = map_option snd (GetFuzzyEntry sig cache)"

definition Put :: "ShapeSignature \<Rightarrow> 'm \<Rightarrow> 'm KernelCache \<Rightarrow> 'm KernelCache" where
  "Put sig m cache = AList.update sig m cache"

definition Has :: "ShapeSignature \<Rightarrow> 'm KernelCache \<Rightarrow> bool" where
  "Has sig cache \<longleftrightarrow> map_of cache sig \<noteq> None"

definition Size :: "'m KernelCache \<Rightarrow> nat" where
  "Size cache = length cache"

definition Clear :: "'m KernelCache \<Rightarrow> 'm KernelCache" where
  "Clear cache = []"

section \<open>The kernel runner\<close>

type_synonym 'm KernelRunner = "'m option"

definition SwapKernel :: "'m option \<Rightarrow> 'm KernelRunner \<Rightarrow> 'm KernelRunner" where
  "SwapKernel m runner = m"

definition HasKernel :: "'m KernelRunner \<Rightarrow> bool" where
  "HasKernel runner \<longleftrightarrow> runner \<noteq> None"

text \<open>Running the current module on the arguments is the parameter \<open>run\<close>.\<close>

definition RunnerRun :: "('m \<Rightarrow> 'a \<Rightarrow> 'r) \<Rightarrow> 'a \<Rightarrow> 'm KernelRunner \<Rightarrow> string + 'r" where
  "RunnerRun run args runner =
     (case runner of None \<Rightarrow> Inl ''KernelRunner: no kernel available'' | Some m \<Rightarrow> Inr (run m args))"

section \<open>What the predictor keeps of the history of calls\<close>

text \<open>The predictor after a history of recorded signatures, oldest first.\<close>

definition predictor_after :: "ShapeSignature list \<Rightarrow> ShapePredictor" where
  "predictor_after h = fold Record h new_predictor"

lemma predictor_after_snoc: "predictor_after (h @ [s]) = Record s (predictor_after h)"
  by (simp add: predictor_after_def)

lemma freq_after:
  "map_of (freq (predictor_after h)) s =
     (if s \<in> set h then Some (i32 (int (count_list h s))) else None)"
proof (induction h rule: rev_induct)
  case Nil
  then show ?case by (simp add: predictor_after_def new_predictor_def)
next
  case (snoc x h)
  then show ?case
    by (auto simp: predictor_after_snoc Record_def Let_def AList.update_conv freq_of_def)
qed

lemma short_count: "length h < 2 ^ 31 \<Longrightarrow> is_i32 (int (count_list h s))"
  using count_le_length [of h s] by (simp add: is_i32_def)

lemma freq_after_short:
  "length h < 2 ^ 31 \<Longrightarrow> map_of (freq (predictor_after h)) s =
     (if s \<in> set h then Some (int (count_list h s)) else None)"
  by (simp add: freq_after short_count)

lemma total_after: "total_count (predictor_after h) = i32 (int (length h))"
proof (induction h rule: rev_induct)
  case Nil
  then show ?case by (simp add: predictor_after_def new_predictor_def i32_def)
next
  case (snoc x h)
  then show ?case by (simp add: predictor_after_snoc Record_def Let_def add.commute [of 1])
qed

lemma freq_distinct: "distinct (map fst (freq (predictor_after h)))"
  by (induction h rule: rev_induct)
     (auto simp: predictor_after_snoc Record_def Let_def AList.distinct_update,
      simp add: predictor_after_def new_predictor_def)

lemma recent_after:
  "recent (predictor_after h) = drop (length h - kMaxRecent) h"
proof (induction h rule: rev_induct)
  case Nil
  then show ?case by (simp add: predictor_after_def new_predictor_def)
next
  case (snoc x h)
  show ?case
  proof (cases "length h < kMaxRecent")
    case True
    then show ?thesis using snoc by (simp add: predictor_after_snoc Record_def Let_def)
  next
    case False
    then have "drop (length h - kMaxRecent) h \<noteq> []" by (simp add: kMaxRecent_def)
    then show ?thesis using snoc False
      by (simp add: predictor_after_snoc Record_def Let_def Suc_diff_le drop_Suc tl_drop)
  qed
qed

text \<open>
C23. After any history of fewer than \<open>2 ^ 31\<close> calls the predictor holds exactly the number of
occurrences of each signature, the number of calls, and the last 200 of them in order.
\<close>

theorem predictor_history:
  assumes "length h < 2 ^ 31"
  shows "GetCount sig (predictor_after h) = int (count_list h sig) \<and>
   TotalCount (predictor_after h) = int (length h) \<and>
   recent (predictor_after h) = drop (length h - kMaxRecent) h \<and>
   length (recent (predictor_after h)) \<le> kMaxRecent"
proof -
  have "TotalCount (predictor_after h) = int (length h)"
    using assms by (simp add: TotalCount_def total_after is_i32_def)
  then show ?thesis using freq_after_short [OF assms] by (auto simp: GetCount_def recent_after)
qed

theorem predictor_history_witness:
  "GetCount [[8]] (predictor_after [[[8]], [[4]], [[8]]]) = 2 \<and>
   TotalCount (predictor_after [[[8]], [[4]], [[8]]]) = 3 \<and>
   recent (predictor_after [[[8]], [[4]], [[8]]]) = [[[8]], [[4]], [[8]]]"
  using predictor_history [of "[[[8]], [[4]], [[8]]]" "[[8]]"] by (simp add: kMaxRecent_def)

text \<open>
Past that many calls the counts are what \<open>2 ^ 32\<close> leaves of them: a signature seen
\<open>2 ^ 31\<close> times has a negative count, and is no longer worth compiling.
\<close>

lemma count_wraps:
  assumes "count_list h sig = 2 ^ 31"
  shows "GetCount sig (predictor_after h) = - (2 ^ 31) \<and> \<not> ShouldCompile ratio_ge sig 2 (predictor_after h)"
proof -
  have "i32 (2 ^ 31) = - (2 ^ 31)" by (simp add: i32_def)
  moreover have "sig \<in> set h" using assms count_notin [of sig h] by force
  ultimately show ?thesis using assms by (simp add: GetCount_def ShouldCompile_def freq_after)
qed

text \<open>
Whether a shape is worth compiling depends only on its count: the ratio of the shape among all
calls, and the threshold for it, have no influence on the answer.
\<close>

lemma should_compile_iff:
  "length h < 2 ^ 31 \<Longrightarrow> ShouldCompile ratio_ge sig t (predictor_after h) \<longleftrightarrow> sig \<in> set h \<and> t \<le> int (count_list h sig)"
  by (auto simp: ShouldCompile_def freq_after_short)

lemma freq_entries:
  "length h < 2 ^ 31 \<Longrightarrow>
     (s, c) \<in> set (freq (predictor_after h)) \<longleftrightarrow> s \<in> set h \<and> c = int (count_list h s)"
  using map_of_eq_Some_iff [OF freq_distinct, of h s c] by (auto simp: freq_after_short split: if_splits)

text \<open>The table of counts in the order in which the predictor ranks it.\<close>

definition ranking :: "ShapeSignature list \<Rightarrow> (ShapeSignature \<times> int) list" where
  "ranking h = sort_key (\<lambda>a. - snd a) (freq (predictor_after h))"

lemma ranking_facts:
  assumes "length h < 2 ^ 31"
  shows
  "distinct (map fst (ranking h))" "fst ` set (ranking h) = set h" "length (ranking h) = card (set h)"
  "sorted_wrt (\<lambda>a b. count_list h (fst b) \<le> count_list h (fst a)) (ranking h)"
proof -
  have ent: "set (ranking h) = set (freq (predictor_after h))" by (simp add: ranking_def)
  have "mset (map fst (ranking h)) = mset (map fst (freq (predictor_after h)))"
    by (simp add: ranking_def mset_map)
  then show d: "distinct (map fst (ranking h))"
    using freq_distinct mset_eq_imp_distinct_iff by blast
  show f: "fst ` set (ranking h) = set h" by (auto simp: ent freq_entries [OF assms] image_iff Bex_def)
  show "length (ranking h) = card (set h)"
    using distinct_card [OF d] f by simp
  have "sorted_wrt (\<lambda>a b. - snd a \<le> - snd b) (ranking h)"
    using sorted_sort_key [of "\<lambda>a. - snd a" "freq (predictor_after h)"]
    by (simp add: ranking_def sorted_wrt_map)
  then show "sorted_wrt (\<lambda>a b. count_list h (fst b) \<le> count_list h (fst a)) (ranking h)"
    by (rule sorted_wrt_mono_rel [rotated]) (auto simp: ent freq_entries [OF assms])
qed

lemma PredictTopK_ranking:
  assumes "length h < 2 ^ 31"
  shows "PredictTopK k (predictor_after h) = map fst (take (nat k) (ranking h))"
proof -
  have "length (ranking h) \<le> length h" using ranking_facts(3) [OF assms] card_length [of h] by simp
  then have "is_i32 (int (length (ranking h)))" using assms by (simp add: is_i32_def)
  moreover have "length (ranking h) = length (freq (predictor_after h))" by (simp add: ranking_def)
  ultimately show ?thesis
    by (cases "k \<le> int (length (ranking h))")
       (simp_all add: PredictTopK_def ranking_def Let_def min_def)
qed

text \<open>
The predicted shapes are the most frequent ones: at most \<open>k\<close> distinct recorded signatures, in
order of decreasing count, and no recorded signature left out occurs more often than one of them.
\<close>

lemma predict_top_k:
  assumes h: "length h < 2 ^ 31"
  shows "length (PredictTopK k (predictor_after h)) = min (nat k) (card (set h)) \<and>
   distinct (PredictTopK k (predictor_after h)) \<and>
   set (PredictTopK k (predictor_after h)) \<subseteq> set h \<and>
   sorted_wrt (\<lambda>a b. count_list h b \<le> count_list h a) (PredictTopK k (predictor_after h)) \<and>
   (\<forall>a \<in> set (PredictTopK k (predictor_after h)).
      \<forall>b \<in> set h - set (PredictTopK k (predictor_after h)). count_list h b \<le> count_list h a)"
proof -
  let ?r = "ranking h" let ?t = "take (nat k) ?r" let ?d = "drop (nat k) ?r"
  have split: "sorted_wrt (\<lambda>a b. count_list h (fst b) \<le> count_list h (fst a)) (?t @ ?d)"
    using ranking_facts(4) [OF h] by simp
  have rest: "b \<in> fst ` set ?d" if "b \<in> set h" "b \<notin> fst ` set ?t" for b
    using that ranking_facts(2) [OF h] by (metis Un_iff append_take_drop_id image_Un set_append)
  have "distinct (map fst ?t)" using ranking_facts(1) [OF h] by (simp add: take_map [symmetric])
  moreover have "fst ` set ?t \<subseteq> set h" using ranking_facts(2) [OF h] by (auto dest: in_set_takeD)
  moreover have "count_list h (fst b) \<le> count_list h (fst a)" if "a \<in> set ?t" "b \<in> set ?d" for a b
    using split that unfolding sorted_wrt_append by blast
  moreover have "sorted_wrt (\<lambda>a b. count_list h (fst b) \<le> count_list h (fst a)) ?t"
    using split unfolding sorted_wrt_append by blast
  ultimately show ?thesis
    unfolding PredictTopK_ranking [OF h] using ranking_facts(3) [OF h] rest
    by (intro conjI ballI) (simp_all add: sorted_wrt_map min.commute, blast+)
qed

lemma predict_top_k_witness:
  "length (PredictTopK 1 (predictor_after [[[8]], [[4]], [[8]]])) = 1 \<and>
   set (PredictTopK 1 (predictor_after [[[8]], [[4]], [[8]]])) \<subseteq> {[[8]], [[4]]}"
proof -
  have "card (set [[[8]], [[4]], [[8 :: int]]]) = 2" by (simp add: card_insert_if)
  then show ?thesis using predict_top_k [of "[[[8]], [[4]], [[8]]]" 1] by auto
qed

section \<open>The cache as a store\<close>

text \<open>
  What the session relies on: a lookup after an insertion, and that insertions keep the
  representation invariant. The client facts are about sequences of insertions.
\<close>

locale kernel_store =
  fixes ok :: "'c \<Rightarrow> bool" and lookup :: "'k \<Rightarrow> 'c \<Rightarrow> 'm option" and insert_kernel :: "'k \<Rightarrow> 'm \<Rightarrow> 'c \<Rightarrow> 'c"
    and entries :: "'c \<Rightarrow> nat"
  assumes lookup_insert: "lookup k (insert_kernel k' m c) = (if k = k' then Some m else lookup k c)"
    and ok_insert: "ok c \<Longrightarrow> ok (insert_kernel k m c)"
    and entries_insert:
      "ok c \<Longrightarrow> entries (insert_kernel k m c) = (if lookup k c = None then Suc (entries c) else entries c)"
begin

definition insert_all :: "('k \<times> 'm) list \<Rightarrow> 'c \<Rightarrow> 'c" where
  "insert_all kms c = fold (\<lambda>(k, m). insert_kernel k m) kms c"

lemma lookup_insert_all:
  "lookup k (insert_all kms c) = (case map_of (rev kms) k of Some m \<Rightarrow> Some m | None \<Rightarrow> lookup k c)"
  by (induction kms arbitrary: c rule: rev_induct)
     (auto simp: insert_all_def lookup_insert split: option.splits)

lemma insert_all_grows:
  "ok c \<Longrightarrow> ok (insert_all kms c) \<and> entries c \<le> entries (insert_all kms c) \<and>
     entries (insert_all kms c) \<le> entries c + length kms"
proof (induction kms rule: rev_induct)
  case (snoc km kms)
  then show ?case
    by (cases km) (auto simp: insert_all_def ok_insert entries_insert)
qed (simp add: insert_all_def)

lemma lookup_monotone: "lookup k c \<noteq> None \<Longrightarrow> lookup k (insert_all kms c) \<noteq> None"
  by (simp add: lookup_insert_all split: option.splits)

end

definition cache_ok :: "'m KernelCache \<Rightarrow> bool" where
  "cache_ok cache \<longleftrightarrow> distinct (map fst cache)"

lemma GetExact_Put: "GetExact k (Put k' m c) = (if k = k' then Some m else GetExact k c)"
  by (simp add: GetExact_def Put_def AList.update_conv)

lemma Put_ok: "cache_ok c \<Longrightarrow> cache_ok (Put k m c)"
  by (simp add: cache_ok_def Put_def AList.distinct_update)

lemma Size_Put: "Size (Put k m c) = (if GetExact k c = None then Suc (Size c) else Size c)"
proof -
  have "length (AList.update k m c) = (if k \<in> fst ` set c then length c else Suc (length c))"
    by (induction c) auto
  then show ?thesis by (simp add: Size_def Put_def GetExact_def map_of_eq_None_iff)
qed

interpretation kernel_cache: kernel_store cache_ok GetExact Put Size
  by unfold_locales (simp_all add: GetExact_Put Put_ok Size_Put)

text \<open>
The kernel cache is a map from signatures to kernels: after inserting any sequence of kernels
into an empty cache, an exact lookup returns the last kernel inserted for the signature, the
membership test agrees with it, and the size is the number of distinct signatures inserted.
\<close>

lemma cache_lookup_after_puts:
  "GetExact sig (fold (\<lambda>(k, m). Put k m) kms []) = map_of (rev kms) sig \<and>
   (Has sig (fold (\<lambda>(k, m). Put k m) kms []) \<longleftrightarrow> sig \<in> fst ` set kms) \<and>
   Size (fold (\<lambda>(k, m). Put k m) kms []) = card (fst ` set kms)"
proof -
  let ?c = "fold (\<lambda>(k, m). Put k m) kms []"
  have get: "GetExact k ?c = map_of (rev kms) k" for k
    using kernel_cache.lookup_insert_all [of k kms "[]"]
    by (simp add: kernel_cache.insert_all_def GetExact_def split: option.splits)
  have ok: "distinct (map fst ?c)"
    using kernel_cache.insert_all_grows [of "[]" kms]
    by (simp add: kernel_cache.insert_all_def cache_ok_def)
  have "fst ` set ?c = {k. map_of ?c k \<noteq> None}" by (auto simp: map_of_eq_None_iff)
  also have "\<dots> = fst ` set kms" using get by (auto simp: GetExact_def map_of_eq_None_iff)
  finally have keys: "fst ` set ?c = fst ` set kms" .
  have "Size ?c = card (fst ` set kms)" using distinct_card [OF ok] keys by (simp add: Size_def)
  then show ?thesis using get by (auto simp: Has_def GetExact_def map_of_eq_None_iff)
qed

section \<open>Fuzzy lookup\<close>

text \<open>A cached signature can serve a query when it has the same ranks and no smaller dimension.\<close>

definition serves :: "ShapeSignature \<Rightarrow> ShapeSignature \<Rightarrow> bool" where
  "serves cached query \<longleftrightarrow> list_all2 (list_all2 (\<le>)) query cached"

definition gap :: "ShapeSignature \<Rightarrow> ShapeSignature \<Rightarrow> int" where
  "gap query cached = (\<Sum>(q, c) \<leftarrow> zip query cached. \<Sum>(x, y) \<leftarrow> zip q c. y - x)"

lemma dims_gap_nonneg: "list_all2 (\<le>) q c \<Longrightarrow> 0 \<le> (\<Sum>(x, y) \<leftarrow> zip q c. y - x :: int)"
  by (induction rule: list_all2_induct) auto

lemma gap_nonneg: "list_all2 (list_all2 (\<le>)) query cached \<Longrightarrow> 0 \<le> gap query cached"
  by (induction rule: list_all2_induct) (auto simp: gap_def dims_gap_nonneg)

lemma dims_distance_None:
  "length q = length c \<Longrightarrow> dims_distance q c a = None \<longleftrightarrow> \<not> list_all2 (\<le>) q c"
  by (induction q c arbitrary: a rule: list_induct2) auto

lemma shapes_distance_None:
  "length qs = length cs \<Longrightarrow> shapes_distance qs cs a = None \<longleftrightarrow> \<not> list_all2 (list_all2 (\<le>)) qs cs"
proof (induction qs cs arbitrary: a rule: list_induct2)
  case (Cons q qs c cs)
  then show ?case
    using dims_distance_None [of q c a]
    by (cases "length q = length c"; cases "dims_distance q c a") (auto dest: list_all2_lengthD)
qed simp

lemma dims_distance_Some:
  assumes "list_all2 (\<le>) q c" "acc + (\<Sum>(x, y) \<leftarrow> zip q c. y - x) < 2 ^ 63" "0 \<le> acc"
  shows "dims_distance q c acc = Some (acc + (\<Sum>(x, y) \<leftarrow> zip q c. y - x))"
  using assms
proof (induction arbitrary: acc rule: list_all2_induct)
  case (Cons x q y c)
  have nn: "0 \<le> (\<Sum>(x, y) \<leftarrow> zip q c. y - x)" using Cons.hyps by (intro dims_gap_nonneg)
  then have i: "i64 (acc + (y - x)) = acc + (y - x)" using Cons.prems Cons.hyps by (simp add: is_i64_def)
  have "dims_distance q c (acc + (y - x)) = Some (acc + (y - x) + (\<Sum>(x, y) \<leftarrow> zip q c. y - x))"
    using Cons by simp
  then show ?case using Cons.hyps i by (simp add: not_less)
qed simp

lemma shapes_distance_Some:
  assumes "list_all2 (list_all2 (\<le>)) qs cs" "acc + gap qs cs < 2 ^ 63" "0 \<le> acc"
  shows "shapes_distance qs cs acc = Some (acc + gap qs cs)"
  using assms
proof (induction arbitrary: acc rule: list_all2_induct)
  case (Cons q qs c cs)
  let ?g = "\<Sum>(x, y) \<leftarrow> zip q c. y - x"
  have g: "gap (q # qs) (c # cs) = ?g + gap qs cs" by (simp add: gap_def)
  have nn: "0 \<le> ?g" "0 \<le> gap qs cs" using Cons.hyps dims_gap_nonneg gap_nonneg by auto
  have "dims_distance q c acc = Some (acc + ?g)"
    using Cons.hyps Cons.prems nn by (intro dims_distance_Some) (auto simp: g)
  then show ?case
    using Cons.IH [of "acc + ?g"] Cons.prems Cons.hyps nn by (simp add: g list_all2_lengthD)
qed (simp add: gap_def)

lemma ShapeDistance_eq:
  assumes "serves cached query \<Longrightarrow> gap query cached < 2 ^ 63"
  shows "ShapeDistance query cached = (if serves cached query then gap query cached else -1)"
  using assms shapes_distance_Some [of query cached 0] shapes_distance_None [of query cached 0]
  by (auto simp: ShapeDistance_def serves_def dest: list_all2_lengthD split: option.splits)

lemma fuzzy_fold:
  fixes cache :: "'m KernelCache"
  assumes "fold (fuzzy_step sig) cache (None, INT64_MAX) = (best, d)"
  shows "(case best of
      None \<Rightarrow> d = INT64_MAX \<and> (\<forall>(c, m) \<in> set cache. ShapeDistance sig c < 0 \<or> INT64_MAX \<le> ShapeDistance sig c)
    | Some (c, m) \<Rightarrow> (c, m) \<in> set cache \<and> d = ShapeDistance sig c \<and> 0 \<le> d \<and> d < INT64_MAX \<and>
        (\<forall>(c', m') \<in> set cache. ShapeDistance sig c' < 0 \<or> d \<le> ShapeDistance sig c'))"
  using assms
proof (induction cache arbitrary: best d rule: rev_induct)
  case (snoc e cache)
  obtain b0 d0 where f: "fold (fuzzy_step sig) cache (None, INT64_MAX) = (b0, d0)"
    by (cases "fold (fuzzy_step sig) cache (None, INT64_MAX)")
  obtain c m where e: "e = (c, m)" by (cases e)
  have st: "fuzzy_step sig (c, m) (b0, d0) = (best, d)" using snoc.prems f by (simp add: e)
  show ?case using snoc.IH [OF f] st
    by (cases "0 \<le> ShapeDistance sig c \<and> ShapeDistance sig c < d0")
       (auto simp: fuzzy_step_def Let_def e split: option.splits)
qed simp

text \<open>
C20. A fuzzy lookup returns the nearest kernel that can serve the query: it fails exactly when no
cached signature has the ranks of the query and dimensions at least as large, and otherwise
returns an entry that has them and whose total excess is minimal. (The excesses are below the
largest 64-bit integer, which the search starts from.)
\<close>

theorem get_fuzzy_nearest:
  assumes "\<forall>(c, m) \<in> set cache. serves c sig \<longrightarrow> gap sig c < INT64_MAX"
  shows "(GetFuzzy sig cache = None \<longleftrightarrow> (\<forall>(c, m) \<in> set cache. \<not> serves c sig)) \<and>
    (\<forall>k. GetFuzzy sig cache = Some k \<longrightarrow>
      (\<exists>c. (c, k) \<in> set cache \<and> serves c sig \<and>
           (\<forall>(c', k') \<in> set cache. serves c' sig \<longrightarrow> gap sig c \<le> gap sig c')))"
proof -
  obtain best d where f: "fold (fuzzy_step sig) cache (None, INT64_MAX) = (best, d)"
    by (cases "fold (fuzzy_step sig) cache (None, INT64_MAX)")
  have dist: "ShapeDistance sig c = (if serves c sig then gap sig c else -1)" if "(c, m) \<in> set cache" for c m
    using assms that by (intro ShapeDistance_eq) (fastforce simp: INT64_MAX_def)
  have nn: "serves c sig \<Longrightarrow> 0 \<le> gap sig c" for c by (simp add: serves_def gap_nonneg)
  show ?thesis
  proof (cases best)
    case None
    then have "\<not> serves c sig" if "(c, m) \<in> set cache" for c m
      using fuzzy_fold [OF f] dist [OF that] nn [of c] assms that by fastforce
    then show ?thesis using None f by (auto simp: GetFuzzy_def GetFuzzyEntry_def)
  next
    case (Some e)
    obtain c m where e: "e = (c, m)" by (cases e)
    have in_c: "(c, m) \<in> set cache" and pos: "0 \<le> ShapeDistance sig c"
      and least: "\<And>c' m'. (c', m') \<in> set cache \<Longrightarrow> ShapeDistance sig c' < 0 \<or> ShapeDistance sig c \<le> ShapeDistance sig c'"
      using fuzzy_fold [OF f] Some e by auto
    have "serves c sig" using pos dist [OF in_c] by (simp split: if_splits)
    moreover have "gap sig c \<le> gap sig c'" if "(c', m') \<in> set cache" "serves c' sig" for c' m'
      using least [OF that(1)] dist [OF that(1)] dist [OF in_c] that(2) nn [of c'] \<open>serves c sig\<close> by auto
    moreover have "GetFuzzy sig cache = Some m" using f Some e by (simp add: GetFuzzy_def GetFuzzyEntry_def)
    ultimately show ?thesis using in_c by auto
  qed
qed

theorem get_fuzzy_nearest_witness:
  "\<exists>c. (c, ''b'') \<in> set [([[8, 8]], ''a''), ([[4, 6]], ''b''), ([[2, 9]], ''c'')] \<and> serves c [[3, 5]] \<and>
     (\<forall>(c', k') \<in> set [([[8, 8]], ''a''), ([[4, 6]], ''b''), ([[2, 9]], ''c'')].
        serves c' [[3, 5]] \<longrightarrow> gap [[3, 5]] c \<le> gap [[3, 5]] c')"
  using get_fuzzy_nearest [of "[([[8, 8]], ''a''), ([[4, 6]], ''b''), ([[2, 9]], ''c'')]" "[[3, 5]]"]
  by (simp add: serves_def gap_def INT64_MAX_def GetFuzzy_def GetFuzzyEntry_def fuzzy_step_def
      ShapeDistance_def is_i64_def)

section \<open>The hash\<close>

text \<open>
The signature hash does not separate signatures: with the identity as the hash of a dimension
(the standard library on Linux), a call with one 1 by 65 input and a call with one 2 by 2 input
have the same hash.
\<close>

lemma hash_collision:
  "[[1, 65]] \<noteq> [[2, 2 :: int]] \<and> Hash word_of_int [[1, 65]] = Hash word_of_int [[2, 2]]"
  by (simp add: Hash_def shape_hash_def hash_combine_def)

end
