(* ===== verification/Runtime_Background.thy ===== *)
theory Runtime_Background
  imports Runtime_Cache
begin

text \<open>
  The background compiler (\<^verbatim>\<open>src/runtime/background_compiler.cc\<close>) as a state machine of
  its worker threads and the thread that owns it. A step is what a thread does between two
  points where another thread can run: an action under the mutex, a change of an atomic
  counter, or a notification of a condition variable. A thread that has found its wait
  condition false holds the mutex until it sleeps, and a later notification wakes it, or a
  spurious wakeup, which \<^verbatim>\<open>std::condition_variable\<close> permits at any time.
  \<^verbatim>\<open>api::Compiler::Compile\<close> is the parameter \<open>compile\<close>, \<open>None\<close> when it throws.
\<close>

section \<open>Threads and state\<close>

record CompileTask =
  target_shape :: ShapeSignature
  priority :: int

text \<open>
  A worker is about to look at the queue, has seen it empty and holds the mutex, sleeps, runs
  a task, is about to decrement the counter of active tasks, is about to notify, or has
  returned.
\<close>

datatype worker =
    WAwake | WChecked | WSleeping
  | WBusy CompileTask | WFinishing CompileTask | WNotifying | WExited

text \<open>
  The owner is between calls, has pushed a task and is about to notify, is about to test the
  condition of \<^verbatim>\<open>WaitAll\<close>, has found it false and holds the mutex, sleeps, has set the
  shutdown flag and is about to notify, is joining the workers, or is done.
\<close>

datatype client =
    CIdle | CPushed | CWaiting | CWaitChecked | CWaitSleeping | CShutdown | CJoining | CGone

text \<open>
  The fields of the class, the threads, and the cache that completion callbacks write. The
  counters are \<^verbatim>\<open>std::atomic<int>\<close>, which wraps around. The
  last two fields record the tasks that were submitted and the tasks whose processing is
  over; the program does not have them.
\<close>

record 'm bg =
  queue :: "CompileTask list"
  active_tasks :: int
  completed_count :: int
  shutdown :: bool
  workers :: "worker list"
  client :: client
  cache :: "'m KernelCache"
  submitted :: "CompileTask list"
  processed :: "CompileTask list"

text \<open>
  The number of threads the constructor starts, an \<^verbatim>\<open>int\<close>; the processor count, an
  \<^verbatim>\<open>unsigned\<close>, is a parameter.
\<close>

definition thread_count :: "32 word \<Rightarrow> 32 word \<Rightarrow> 32 word" where
  "thread_count num_threads hardware_concurrency =
     (if sint num_threads \<le> 0 then max 1 (hardware_concurrency div 2) else num_threads)"

definition BackgroundCompiler :: "32 word \<Rightarrow> 32 word \<Rightarrow> 'm KernelCache \<Rightarrow> 'm bg" where
  "BackgroundCompiler num_threads hardware_concurrency cache0 =
     \<lparr>queue = [], active_tasks = 0, completed_count = 0, shutdown = False,
      workers = replicate (unat (thread_count num_threads hardware_concurrency)) WAwake,
      client = CIdle, cache = cache0, submitted = [], processed = []\<rparr>"

lemma thread_count_1 [simp]: "thread_count 1 h = 1"
  by (simp add: thread_count_def)

lemma thread_count_bounds:
  "0 < unat (thread_count n h)" "unat (thread_count n h) < 2 ^ 31"
proof -
  have h: "unat (h div 2) < 2 ^ 31" using unsigned_less [of h, where ?'a = nat] by (simp add: unat_div)
  have n: "0 < unat n \<and> unat n < 2 ^ 31" if "0 < sint n"
  proof -
    have lt: "sint n < 2 ^ 31" using sint_lt [of n] by simp
    have "uint n = uint (word_of_int (sint n) :: 32 word)" by simp
    also have "\<dots> = sint n mod 2 ^ 32" by (simp only: uint_word_of_int len_num1 len_bit0 len_num0) simp
    also have "\<dots> = sint n" using that lt by simp
    finally have "int (unat n) = sint n" by simp
    then show ?thesis
      by (metis that lt of_nat_0_less_iff of_nat_less_numeral_power_cancel_iff)
  qed
  show "0 < unat (thread_count n h)" "unat (thread_count n h) < 2 ^ 31"
    using h n by (auto simp: thread_count_def max_def word_le_nat_alt not_le)
qed

definition lock_free :: "'m bg \<Rightarrow> bool" where
  "lock_free s \<longleftrightarrow> WChecked \<notin> set (workers s) \<and> client s \<noteq> CWaitChecked"

definition wake :: "worker \<Rightarrow> worker" where
  "wake w = (if w = WSleeping then WAwake else w)"

definition PendingCount :: "'m bg \<Rightarrow> int" where
  "PendingCount s = i32 (int (length (queue s)))"

section \<open>Steps\<close>

inductive Submit_step :: "'m bg \<Rightarrow> 'm bg \<Rightarrow> bool" where
  push: "client s = CIdle \<Longrightarrow> lock_free s \<Longrightarrow>
    Submit_step s (s\<lparr>queue := t # queue s, active_tasks := i32 (active_tasks s + 1), client := CPushed,
                     submitted := t # submitted s\<rparr>)"

inductive NotifyOne_step :: "'m bg \<Rightarrow> 'm bg \<Rightarrow> bool" where
  wakes: "client s = CPushed \<Longrightarrow> i < length (workers s) \<Longrightarrow> workers s ! i = WSleeping \<Longrightarrow>
    NotifyOne_step s (s\<lparr>workers := (workers s)[i := WAwake], client := CIdle\<rparr>)"
| nobody: "client s = CPushed \<Longrightarrow> WSleeping \<notin> set (workers s) \<Longrightarrow>
    NotifyOne_step s (s\<lparr>client := CIdle\<rparr>)"

inductive WaitAll_call :: "'m bg \<Rightarrow> 'm bg \<Rightarrow> bool" where
  call: "client s = CIdle \<Longrightarrow> WaitAll_call s (s\<lparr>client := CWaiting\<rparr>)"

inductive WaitAll_step :: "'m bg \<Rightarrow> 'm bg \<Rightarrow> bool" where
  returns: "client s = CWaiting \<Longrightarrow> lock_free s \<Longrightarrow> active_tasks s = 0 \<Longrightarrow> queue s = [] \<Longrightarrow>
    WaitAll_step s (s\<lparr>client := CIdle\<rparr>)"
| checks: "client s = CWaiting \<Longrightarrow> lock_free s \<Longrightarrow> \<not> (active_tasks s = 0 \<and> queue s = []) \<Longrightarrow>
    WaitAll_step s (s\<lparr>client := CWaitChecked\<rparr>)"
| sleeps: "client s = CWaitChecked \<Longrightarrow> WaitAll_step s (s\<lparr>client := CWaitSleeping\<rparr>)"

inductive Destroy_call :: "'m bg \<Rightarrow> 'm bg \<Rightarrow> bool" where
  call: "client s = CIdle \<Longrightarrow> Destroy_call s (s\<lparr>shutdown := True, client := CShutdown\<rparr>)"

inductive Destroy_step :: "'m bg \<Rightarrow> 'm bg \<Rightarrow> bool" where
  notifies: "client s = CShutdown \<Longrightarrow>
    Destroy_step s (s\<lparr>workers := map wake (workers s), client := CJoining\<rparr>)"
| joins: "client s = CJoining \<Longrightarrow> set (workers s) \<subseteq> {WExited} \<Longrightarrow>
    Destroy_step s (s\<lparr>client := CGone\<rparr>)"

text \<open>
  The worker loop. The queue is a \<^verbatim>\<open>std::priority_queue\<close>: any task of largest priority may
  be its top.
\<close>

inductive WorkerLoop_step :: "(CompileTask \<Rightarrow> 'm option) \<Rightarrow> nat \<Rightarrow> 'm bg \<Rightarrow> 'm bg \<Rightarrow> bool"
  for compile :: "CompileTask \<Rightarrow> 'm option" and i :: nat where
  take_task: "i < length (workers s) \<Longrightarrow> workers s ! i = WAwake \<Longrightarrow> lock_free s \<Longrightarrow>
    t \<in> set (queue s) \<Longrightarrow> (\<forall>t' \<in> set (queue s). priority t' \<le> priority t) \<Longrightarrow>
    WorkerLoop_step compile i s
      (s\<lparr>queue := remove1 t (queue s), workers := (workers s)[i := WBusy t]\<rparr>)"
| exits: "i < length (workers s) \<Longrightarrow> workers s ! i = WAwake \<Longrightarrow> lock_free s \<Longrightarrow>
    shutdown s \<Longrightarrow> queue s = [] \<Longrightarrow>
    WorkerLoop_step compile i s (s\<lparr>workers := (workers s)[i := WExited]\<rparr>)"
| checks: "i < length (workers s) \<Longrightarrow> workers s ! i = WAwake \<Longrightarrow> lock_free s \<Longrightarrow>
    \<not> shutdown s \<Longrightarrow> queue s = [] \<Longrightarrow>
    WorkerLoop_step compile i s (s\<lparr>workers := (workers s)[i := WChecked]\<rparr>)"
| sleeps: "i < length (workers s) \<Longrightarrow> workers s ! i = WChecked \<Longrightarrow>
    WorkerLoop_step compile i s (s\<lparr>workers := (workers s)[i := WSleeping]\<rparr>)"
| compiles: "i < length (workers s) \<Longrightarrow> workers s ! i = WBusy t \<Longrightarrow> compile t = Some m \<Longrightarrow>
    WorkerLoop_step compile i s
      (s\<lparr>cache := Put (target_shape t) m (cache s), completed_count := i32 (completed_count s + 1),
         workers := (workers s)[i := WFinishing t]\<rparr>)"
| fails: "i < length (workers s) \<Longrightarrow> workers s ! i = WBusy t \<Longrightarrow> compile t = None \<Longrightarrow>
    WorkerLoop_step compile i s (s\<lparr>workers := (workers s)[i := WFinishing t]\<rparr>)"
| decrements: "i < length (workers s) \<Longrightarrow> workers s ! i = WFinishing t \<Longrightarrow>
    WorkerLoop_step compile i s
      (s\<lparr>active_tasks := i32 (active_tasks s - 1), workers := (workers s)[i := WNotifying],
         processed := t # processed s\<rparr>)"
| notifies: "i < length (workers s) \<Longrightarrow> workers s ! i = WNotifying \<Longrightarrow>
    WorkerLoop_step compile i s
      (s\<lparr>workers := (workers s)[i := WAwake],
         client := (if client s = CWaitSleeping then CWaiting else client s)\<rparr>)"

text \<open>A thread that sleeps on a condition variable may wake without having been notified.\<close>

inductive Spurious_wakeup :: "'m bg \<Rightarrow> 'm bg \<Rightarrow> bool" where
  worker: "i < length (workers s) \<Longrightarrow> workers s ! i = WSleeping \<Longrightarrow>
    Spurious_wakeup s (s\<lparr>workers := (workers s)[i := WAwake]\<rparr>)"
| owner: "client s = CWaitSleeping \<Longrightarrow> Spurious_wakeup s (s\<lparr>client := CWaiting\<rparr>)"

text \<open>
  Steps the threads take by themselves, and all steps: those, spurious wakeups, and the calls
  the owner makes.
\<close>

definition run_step :: "(CompileTask \<Rightarrow> 'm option) \<Rightarrow> 'm bg \<Rightarrow> 'm bg \<Rightarrow> bool" where
  "run_step compile s s' \<longleftrightarrow>
     NotifyOne_step s s' \<or> WaitAll_step s s' \<or> Destroy_step s s' \<or>
     (\<exists>i. WorkerLoop_step compile i s s')"

definition bg_step :: "(CompileTask \<Rightarrow> 'm option) \<Rightarrow> 'm bg \<Rightarrow> 'm bg \<Rightarrow> bool" where
  "bg_step compile s s' \<longleftrightarrow>
     run_step compile s s' \<or> Spurious_wakeup s s' \<or>
     Submit_step s s' \<or> WaitAll_call s s' \<or> Destroy_call s s'"

abbreviation reachable ::
  "(CompileTask \<Rightarrow> 'm option) \<Rightarrow> 32 word \<Rightarrow> 32 word \<Rightarrow> 'm KernelCache \<Rightarrow> 'm bg \<Rightarrow> bool" where
  "reachable compile n hw c s \<equiv> (bg_step compile)\<^sup>*\<^sup>* (BackgroundCompiler n hw c) s"

inductive_cases Submit_stepE: "Submit_step s s'"
inductive_cases NotifyOne_stepE: "NotifyOne_step s s'"
inductive_cases WaitAll_callE: "WaitAll_call s s'"
inductive_cases WaitAll_stepE: "WaitAll_step s s'"
inductive_cases Destroy_callE: "Destroy_call s s'"
inductive_cases Destroy_stepE: "Destroy_step s s'"
inductive_cases Spurious_wakeupE: "Spurious_wakeup s s'"
inductive_cases WorkerLoop_stepE: "WorkerLoop_step compile i s s'"

lemmas bg_step_cases =
  Submit_stepE NotifyOne_stepE WaitAll_callE WaitAll_stepE Destroy_callE Destroy_stepE
  Spurious_wakeupE WorkerLoop_stepE

section \<open>Bookkeeping of tasks\<close>

fun worker_tasks :: "worker \<Rightarrow> CompileTask multiset" where
  "worker_tasks (WBusy t) = {#t#}"
| "worker_tasks (WFinishing t) = {#t#}"
| "worker_tasks _ = {#}"

definition in_flight :: "worker list \<Rightarrow> CompileTask multiset" where
  "in_flight ws = sum_list (map worker_tasks ws)"

lemma sum_list_map_update:
  fixes f :: "'a \<Rightarrow> 'b :: comm_monoid_add"
  shows "i < length xs \<Longrightarrow> sum_list (map f (xs[i := x])) + f (xs ! i) = sum_list (map f xs) + f x"
  by (induction xs arbitrary: i) (auto simp: ac_simps split: nat.splits)

lemma in_flight_update:
  "i < length ws \<Longrightarrow> in_flight (ws[i := w]) + worker_tasks (ws ! i) = in_flight ws + worker_tasks w"
  unfolding in_flight_def by (rule sum_list_map_update)

lemma in_flight_same [simp]:
  "i < length ws \<Longrightarrow> worker_tasks w = worker_tasks (ws ! i) \<Longrightarrow> in_flight (ws[i := w]) = in_flight ws"
  using in_flight_update [of i ws w] by simp

lemma in_flight_takes [simp]:
  "i < length ws \<Longrightarrow> ws ! i = WAwake \<Longrightarrow> in_flight (ws[i := WBusy t]) = add_mset t (in_flight ws)"
  using in_flight_update [of i ws "WBusy t"] by simp

lemma in_flight_ends:
  assumes "i < length ws" "ws ! i = WFinishing t"
  shows "in_flight (ws[i := WNotifying]) = in_flight ws - {#t#}" "t \<in># in_flight ws"
    "Suc 0 \<le> n + size (in_flight ws)"
proof -
  have "in_flight ws = add_mset t (in_flight (ws[i := WNotifying]))"
    using in_flight_update [OF assms(1), of WNotifying] assms(2) by simp
  then show "in_flight (ws[i := WNotifying]) = in_flight ws - {#t#}" "t \<in># in_flight ws"
    "Suc 0 \<le> n + size (in_flight ws)" by simp_all
qed

lemma in_flight_wake [simp]: "in_flight (map wake ws) = in_flight ws"
  unfolding in_flight_def by (induction ws) (auto simp: wake_def)

lemma in_flight_replicate [simp]: "in_flight (replicate n WAwake) = {#}"
  by (induction n) (auto simp: in_flight_def)

text \<open>
  The invariant of the counters: the active tasks are those queued and those held by workers,
  and every submitted task is queued, held by a worker, or over.
\<close>

definition counts_ok :: "'m bg \<Rightarrow> bool" where
  "counts_ok s \<longleftrightarrow>
     active_tasks s = i32 (int (size (mset (queue s) + in_flight (workers s)))) \<and>
     mset (submitted s) = mset (queue s) + in_flight (workers s) + mset (processed s)"

lemma counts_worker: "WorkerLoop_step compile i s s' \<Longrightarrow> counts_ok s \<Longrightarrow> counts_ok s'"
  by (erule WorkerLoop_stepE)
     (auto simp: counts_ok_def length_remove1 in_flight_ends of_nat_diff size_Diff_singleton
       dest: length_pos_if_in_set)

lemma counts_step: "bg_step compile s s' \<Longrightarrow> counts_ok s \<Longrightarrow> counts_ok s'"
  unfolding bg_step_def run_step_def
  by (elim disjE exE; (erule (1) counts_worker)?) (auto elim!: bg_step_cases simp: counts_ok_def ac_simps)

text \<open>What holds at the start and is kept by every step holds in every reachable state.\<close>

locale step_invariant =
  fixes start :: 's and next_step :: "'s \<Rightarrow> 's \<Rightarrow> bool" and inv :: "'s \<Rightarrow> bool"
  assumes start: "inv start" and keeps: "next_step s s' \<Longrightarrow> inv s \<Longrightarrow> inv s'"
begin

lemma reachable: "next_step\<^sup>*\<^sup>* start s \<Longrightarrow> inv s"
  by (induction rule: rtranclp_induct) (auto intro: start keeps)

end

interpretation counts:
    step_invariant "BackgroundCompiler n hw c" "bg_step compile" counts_ok
  by unfold_locales (auto intro: counts_step, simp add: counts_ok_def BackgroundCompiler_def)

text \<open>The threads the constructor starts are all there are.\<close>

definition crew_ok :: "32 word \<Rightarrow> 32 word \<Rightarrow> 'm bg \<Rightarrow> bool" where
  "crew_ok n hw s \<longleftrightarrow> length (workers s) = unat (thread_count n hw)"

lemma crew_step: "bg_step compile s s' \<Longrightarrow> length (workers s') = length (workers s)"
  unfolding bg_step_def run_step_def by (elim disjE exE) (auto elim!: bg_step_cases)

interpretation crew: step_invariant "BackgroundCompiler n hw c" "bg_step compile" "crew_ok n hw"
  by unfold_locales (simp add: crew_ok_def BackgroundCompiler_def, simp add: crew_ok_def crew_step)

lemma worker_tasks_size: "size (worker_tasks w) \<le> 1"
  by (cases w) simp_all

lemma in_flight_size: "size (in_flight ws) \<le> length ws"
proof (induction ws)
  case (Cons w ws)
  then show ?case using worker_tasks_size [of w] by (simp add: in_flight_def)
qed (simp add: in_flight_def)

lemma in_flight_below: "crew_ok n hw s \<Longrightarrow> size (in_flight (workers s)) < 2 ^ 31"
  using in_flight_size [of "workers s"] thread_count_bounds(2) [of n hw] by (simp add: crew_ok_def)

text \<open>The states of a run with one worker and one task.\<close>

definition one_task_state ::
  "CompileTask \<Rightarrow> 'm KernelCache \<Rightarrow> int \<Rightarrow> int \<Rightarrow> client \<Rightarrow> worker \<Rightarrow>
     CompileTask list \<Rightarrow> CompileTask list \<Rightarrow> 'm bg" where
  "one_task_state t c completed active k w q done =
     \<lparr>queue = q, active_tasks = active, completed_count = completed, shutdown = False,
      workers = [w], client = k, cache = c, submitted = [t], processed = done\<rparr>"

lemma one_task_submitted:
  "bg_step compile (BackgroundCompiler 1 h c) (one_task_state t c 0 1 CPushed WAwake [t] [])"
  "bg_step compile (one_task_state t c 0 1 CPushed WAwake [t] []) (one_task_state t c 0 1 CIdle WAwake [t] [])"
  "bg_step compile (one_task_state t c 0 1 CIdle WAwake [t] []) (one_task_state t c 0 1 CIdle (WBusy t) [] [])"
  using Submit_step.push [of "BackgroundCompiler 1 h c" t]
    NotifyOne_step.nobody [of "one_task_state t c 0 1 CPushed WAwake [t] []"]
    WorkerLoop_step.take_task [of 0 "one_task_state t c 0 1 CIdle WAwake [t] []" t compile]
  by (auto simp: bg_step_def run_step_def one_task_state_def lock_free_def BackgroundCompiler_def)

lemma one_task_busy: "reachable compile 1 h c (one_task_state t c 0 1 CIdle (WBusy t) [] [])"
proof -
  note then_step = converse_rtranclp_into_rtranclp [where r = "bg_step compile"]
  show ?thesis
    by (rule then_step [OF one_task_submitted(1)] then_step [OF one_task_submitted(2)]
        r_into_rtranclp [where r = "bg_step compile", OF one_task_submitted(3)])+
qed

text \<open>
C18. The counter of active tasks is exact in every reachable state, up to the width of an
\<^verbatim>\<open>int\<close>: it is what 32 bits hold of the number of queued tasks plus the number of tasks
workers hold, hence that number itself while it is below \<open>2 ^ 31\<close>. Every submitted task is in
exactly one of the queue, the hands of a worker, or the tasks whose processing is over.
\<close>

theorem active_tasks_exact:
  assumes "reachable compile n hw c s"
  shows "active_tasks s = i32 (int (length (queue s) + size (in_flight (workers s)))) \<and>
         (length (queue s) + size (in_flight (workers s)) < 2 ^ 31 \<longrightarrow>
            active_tasks s = int (length (queue s) + size (in_flight (workers s)))) \<and>
         mset (submitted s) = mset (queue s) + in_flight (workers s) + mset (processed s)"
  using counts.reachable [OF assms] by (simp add: counts_ok_def is_i32_def)

theorem active_tasks_exact_witness:
  "active_tasks (one_task_state \<lparr>target_shape = [[4]], priority = 2\<rparr> [] 0 1 CIdle
     (WBusy \<lparr>target_shape = [[4]], priority = 2\<rparr>) [] [] :: nat bg) = 1 \<and>
   in_flight [WBusy \<lparr>target_shape = [[4]], priority = 2\<rparr>] = {#\<lparr>target_shape = [[4]], priority = 2\<rparr>#}"
proof -
  let ?t = "\<lparr>target_shape = [[4]], priority = 2\<rparr>"
  let ?s = "one_task_state ?t [] 0 1 CIdle (WBusy ?t) [] [] :: nat bg"
  have w: "queue ?s = []" "workers ?s = [WBusy ?t]" by (simp_all add: one_task_state_def)
  have f: "in_flight [WBusy ?t] = {#?t#}" by (simp add: in_flight_def)
  have "active_tasks ?s = i32 (int (length ([] :: CompileTask list) + size {#?t#}))"
    using active_tasks_exact [OF one_task_busy [of "\<lambda>_. None :: nat option" 4 "[]" ?t]]
    unfolding w f by (rule conjunct1)
  then show ?thesis using f by simp
qed

text \<open>
When \<^verbatim>\<open>WaitAll\<close> returns, the work is done: the queue is empty, no worker holds a task, and the
processing of every task submitted so far is over.
\<close>

lemma wait_all_complete:
  assumes "reachable compile n hw c s" "WaitAll_step s s'" "client s' = CIdle"
  shows "queue s' = [] \<and> in_flight (workers s') = {#} \<and> mset (processed s') = mset (submitted s')"
proof -
  have eq: "queue s = []" "active_tasks s = 0" "queue s' = queue s" "workers s' = workers s"
      "processed s' = processed s" "submitted s' = submitted s"
    using assms(2,3) by (auto elim!: WaitAll_stepE)
  note counts = counts.reachable [OF assms(1)]
  have "i32 (int (size (in_flight (workers s)))) = 0" using counts eq by (simp add: counts_ok_def)
  then have "int (size (in_flight (workers s))) = 0"
    by (rule i32_eq_0) (use in_flight_below [OF crew.reachable [OF assms(1)]] in simp_all)
  then show ?thesis using counts eq by (simp add: counts_ok_def)
qed

lemma wait_all_complete_witness:
  "queue ((BackgroundCompiler 1 4 [])\<lparr>client := CIdle\<rparr>) = [] \<and>
   in_flight (workers ((BackgroundCompiler 1 4 ([] :: nat KernelCache))\<lparr>client := CIdle\<rparr>)) = {#} \<and>
   mset (processed ((BackgroundCompiler 1 4 ([] :: nat KernelCache))\<lparr>client := CIdle\<rparr>)) =
     mset (submitted ((BackgroundCompiler 1 4 ([] :: nat KernelCache))\<lparr>client := CIdle\<rparr>))"
proof -
  let ?s = "(BackgroundCompiler 1 4 ([] :: nat KernelCache))\<lparr>client := CWaiting\<rparr>"
  have "WaitAll_call (BackgroundCompiler 1 4 []) ?s"
    by (rule WaitAll_call.call) (simp add: BackgroundCompiler_def)
  then have "reachable (\<lambda>_. None) 1 4 [] ?s" by (intro r_into_rtranclp) (simp add: bg_step_def)
  moreover have "WaitAll_step ?s (?s\<lparr>client := CIdle\<rparr>)"
    by (rule WaitAll_step.returns) (simp_all add: BackgroundCompiler_def lock_free_def)
  ultimately show ?thesis using wait_all_complete [of "\<lambda>_. None" 1 4 "[]" ?s "?s\<lparr>client := CIdle\<rparr>"]
    by (simp add: BackgroundCompiler_def)
qed

section \<open>No task is forgotten\<close>

definition can_work :: "worker \<Rightarrow> bool" where
  "can_work w \<longleftrightarrow> w \<noteq> WSleeping \<and> w \<noteq> WExited \<and> w \<noteq> WChecked"

fun closing :: "client \<Rightarrow> bool" where
  "closing CShutdown = True"
| "closing CJoining = True"
| "closing CGone = True"
| "closing _ = False"

text \<open>
  While a worker holds the mutex after finding the queue empty, the queue stays empty; when the
  queue is not empty and no notification is due, some worker is not asleep; workers return only
  after shutdown, with the queue empty.
\<close>

definition wakeups_ok :: "'m bg \<Rightarrow> bool" where
  "wakeups_ok s \<longleftrightarrow>
     (queue s \<noteq> [] \<longrightarrow> WChecked \<notin> set (workers s) \<and> WExited \<notin> set (workers s)) \<and>
     (queue s \<noteq> [] \<and> client s \<noteq> CPushed \<longrightarrow> list_ex can_work (workers s)) \<and>
     (WExited \<in> set (workers s) \<longrightarrow> closing (client s)) \<and>
     shutdown s = closing (client s) \<and> workers s \<noteq> []"

lemma can_work_simps [simp]:
  "can_work WAwake" "can_work (WBusy t)" "can_work (WFinishing t)" "can_work WNotifying"
  "\<not> can_work WSleeping" "\<not> can_work WExited" "\<not> can_work WChecked"
  by (simp_all add: can_work_def)

lemma list_ex_update: "i < length ws \<Longrightarrow> p w \<Longrightarrow> list_ex p (ws[i := w])"
  by (auto simp: list_ex_iff intro: set_update_memI)

lemma not_mem_update: "x \<noteq> w \<Longrightarrow> x \<notin> set ws \<Longrightarrow> x \<notin> set (ws[i := w])"
  using set_update_subset_insert [of ws i w] by blast

lemma mem_updateD: "x \<in> set (ws[i := w]) \<Longrightarrow> x \<noteq> w \<Longrightarrow> x \<in> set ws"
  using not_mem_update by fastforce

lemma wakeups_update:
  assumes inv: "wakeups_ok s" and i: "i < length (workers s)" and w: "can_work w"
    and q: "queue s = [] \<Longrightarrow> queue s' = []" and k: "closing (client s') = closing (client s)"
    and ws: "workers s' = (workers s)[i := w]" and sh: "shutdown s' = shutdown s"
  shows "wakeups_ok s'"
proof -
  have "w \<noteq> WChecked" "w \<noteq> WExited" using w by auto
  then have "WExited \<in> set (workers s') \<Longrightarrow> WExited \<in> set (workers s)"
    and "WChecked \<in> set (workers s') \<Longrightarrow> WChecked \<in> set (workers s)"
    unfolding ws by (auto dest: mem_updateD)
  moreover have "list_ex can_work (workers s')" unfolding ws using i w by (rule list_ex_update)
  ultimately show ?thesis using inv q k sh ws unfolding wakeups_ok_def by auto
qed

lemma wakeups_worker:
  assumes "WorkerLoop_step compile i s s'" "wakeups_ok s"
  shows "wakeups_ok s'"
  using assms(1)
proof (cases rule: WorkerLoop_step.cases)
  case (exits)
  then show ?thesis using assms(2) not_mem_update [of WChecked WExited "workers s" i]
    by (auto simp: wakeups_ok_def)
next
  case (checks)
  then show ?thesis using assms(2) by (auto simp: wakeups_ok_def dest: mem_updateD)
next
  case (sleeps)
  then have "WChecked \<in> set (workers s)" by (metis nth_mem)
  then have "queue s = []" using assms(2) by (auto simp: wakeups_ok_def)
  then show ?thesis using sleeps assms(2) by (auto simp: wakeups_ok_def dest: mem_updateD)
next
  case (take_task t)
  then show ?thesis by (intro wakeups_update [OF assms(2), of i "WBusy t"]) auto
next
  case (compiles t m)
  then show ?thesis by (intro wakeups_update [OF assms(2), of i "WFinishing t"]) auto
next
  case (fails t)
  then show ?thesis by (intro wakeups_update [OF assms(2), of i "WFinishing t"]) auto
next
  case (decrements t)
  then show ?thesis by (intro wakeups_update [OF assms(2), of i WNotifying]) auto
next
  case notifies
  then show ?thesis by (intro wakeups_update [OF assms(2), of i WAwake]) auto
qed

lemma wakeups_step: "bg_step compile s s' \<Longrightarrow> wakeups_ok s \<Longrightarrow> wakeups_ok s'"
  unfolding bg_step_def run_step_def
proof (elim disjE exE)
  assume "NotifyOne_step s s'" and inv: "wakeups_ok s"
  then show "wakeups_ok s'"
  proof (cases rule: NotifyOne_step.cases)
    case (wakes i)
    then show ?thesis by (intro wakeups_update [OF inv, of i WAwake]) auto
  next
    case nobody
    have "list_ex can_work (workers s)" if "queue s \<noteq> []"
      using nobody that inv by (cases "workers s") (auto simp: wakeups_ok_def can_work_def)
    then show ?thesis using nobody inv by (auto simp: wakeups_ok_def)
  qed
next
  assume "Destroy_step s s'" and inv: "wakeups_ok s"
  then show "wakeups_ok s'"
  proof (cases rule: Destroy_step.cases)
    case notifies
    have "list_ex can_work (workers s) \<Longrightarrow> list_ex can_work (map wake (workers s))"
      by (auto simp: list_ex_iff wake_def)
    then show ?thesis using notifies inv by (auto simp: wakeups_ok_def wake_def split: if_splits)
  qed (use inv in \<open>auto simp: wakeups_ok_def\<close>)
next
  assume "Spurious_wakeup s s'" and inv: "wakeups_ok s"
  then show "wakeups_ok s'"
  proof (cases rule: Spurious_wakeup.cases)
    case (worker i)
    then show ?thesis by (intro wakeups_update [OF inv, of i WAwake]) auto
  next
    case owner
    then show ?thesis using inv by (auto simp: wakeups_ok_def)
  qed
next
  assume "Submit_step s s'" and inv: "wakeups_ok s"
  then show "wakeups_ok s'"
    using inv by (cases rule: Submit_step.cases) (auto simp: wakeups_ok_def lock_free_def)
next
  assume "WaitAll_step s s'" and inv: "wakeups_ok s"
  then show "wakeups_ok s'" by (cases rule: WaitAll_step.cases) (auto simp: wakeups_ok_def)
next
  assume "WaitAll_call s s'" and inv: "wakeups_ok s"
  then show "wakeups_ok s'" by (cases rule: WaitAll_call.cases) (auto simp: wakeups_ok_def)
next
  assume "Destroy_call s s'" and inv: "wakeups_ok s"
  then show "wakeups_ok s'" by (cases rule: Destroy_call.cases) (auto simp: wakeups_ok_def)
qed (rule wakeups_worker)

interpretation wakeups: step_invariant "BackgroundCompiler n hw c" "bg_step compile" wakeups_ok
  by unfold_locales
     (auto intro: wakeups_step, use thread_count_bounds [of n hw] in \<open>simp add: wakeups_ok_def BackgroundCompiler_def\<close>)

section \<open>Termination and progress\<close>

text \<open>
  A weight that every step the threads take by themselves decreases: a task in the queue weighs
  more than what a worker does after taking it, and a notification more than the threads it
  wakes.
\<close>

fun worker_weight :: "worker \<Rightarrow> nat" where
  "worker_weight WAwake = 2"
| "worker_weight WChecked = 1"
| "worker_weight WSleeping = 0"
| "worker_weight (WBusy t) = 7"
| "worker_weight (WFinishing t) = 6"
| "worker_weight WNotifying = 5"
| "worker_weight WExited = 0"

fun client_weight :: "nat \<Rightarrow> client \<Rightarrow> nat" where
  "client_weight n CPushed = 3"
| "client_weight n CWaiting = 2"
| "client_weight n CWaitChecked = 1"
| "client_weight n CShutdown = 2 * n + 2"
| "client_weight n CJoining = 1"
| "client_weight n _ = 0"

definition weight :: "'m bg \<Rightarrow> nat" where
  "weight s = 6 * length (queue s) + sum_list (map worker_weight (workers s)) +
     client_weight (length (workers s)) (client s)"

lemma weight_update:
  "i < length ws \<Longrightarrow>
     sum_list (map worker_weight (ws[i := w])) + worker_weight (ws ! i) =
     sum_list (map worker_weight ws) + worker_weight w"
  by (rule sum_list_map_update)

lemma weight_wake: "sum_list (map worker_weight (map wake ws)) \<le> sum_list (map worker_weight ws) + 2 * length ws"
  by (induction ws) (auto simp: wake_def)

lemma run_step_weight:
  assumes "run_step compile s s'" shows "weight s' < weight s"
proof -
  have w: "weight s' < weight s" if step: "WorkerLoop_step compile i s s'" for i
    using step
  proof (cases rule: WorkerLoop_step.cases)
    case (take_task t)
    then have "length (queue s) = Suc (length (remove1 t (queue s)))"
      using length_pos_if_in_set [of t "queue s"] by (simp add: length_remove1)
    then show ?thesis using take_task weight_update [of i "workers s" "WBusy t"] by (simp add: weight_def)
  next
    case exits
    then show ?thesis using weight_update [of i "workers s" WExited] by (simp add: weight_def)
  next
    case checks
    then show ?thesis using weight_update [of i "workers s" WChecked] by (simp add: weight_def)
  next
    case sleeps
    then show ?thesis using weight_update [of i "workers s" WSleeping] by (simp add: weight_def)
  next
    case (compiles t m)
    then show ?thesis using weight_update [of i "workers s" "WFinishing t"] by (simp add: weight_def)
  next
    case (fails t)
    then show ?thesis using weight_update [of i "workers s" "WFinishing t"] by (simp add: weight_def)
  next
    case (decrements t)
    then show ?thesis using weight_update [of i "workers s" WNotifying] by (simp add: weight_def)
  next
    case notifies
    then show ?thesis using weight_update [of i "workers s" WAwake] by (simp add: weight_def)
  qed
  have n: "weight s' < weight s" if "NotifyOne_step s s'"
    using that
  proof (cases rule: NotifyOne_step.cases)
    case (wakes i)
    then show ?thesis using weight_update [of i "workers s" WAwake] by (simp add: weight_def)
  qed (simp add: weight_def)
  have d: "weight s' < weight s" if "Destroy_step s s'"
    using that weight_wake [of "workers s"] by (auto elim!: Destroy_stepE simp: weight_def)
  show ?thesis
    using assms w n d unfolding run_step_def by (auto elim!: WaitAll_stepE simp: weight_def)
qed

lemma max_priority:
  assumes "q \<noteq> []" shows "\<exists>t \<in> set q. \<forall>t' \<in> set q. priority t' \<le> priority t"
proof -
  have "Max (priority ` set q) \<in> priority ` set q" using assms by (intro Max_in) auto
  then obtain t where "t \<in> set q" "priority t = Max (priority ` set q)" by auto
  then show ?thesis by (intro bexI [of _ t]) auto
qed

lemma worker_enabled:
  assumes "i < length (workers s)" "workers s ! i \<noteq> WSleeping" "workers s ! i \<noteq> WExited"
    "workers s ! i = WAwake \<longrightarrow> lock_free s"
  shows "\<exists>s'. WorkerLoop_step compile i s s'"
proof (cases "workers s ! i")
  case WAwake
  then show ?thesis
    using assms max_priority [of "queue s"] WorkerLoop_step.take_task [OF assms(1) WAwake]
      WorkerLoop_step.exits [OF assms(1) WAwake] WorkerLoop_step.checks [OF assms(1) WAwake] by blast
next
  case (WBusy t)
  then show ?thesis
    using WorkerLoop_step.compiles [OF assms(1) WBusy] WorkerLoop_step.fails [OF assms(1) WBusy]
    by (cases "compile t") blast+
qed (use assms WorkerLoop_step.sleeps WorkerLoop_step.decrements WorkerLoop_step.notifies in \<open>blast+\<close>)

lemma quiescent_done:
  assumes counts: "counts_ok s" and wake: "wakeups_ok s" and stuck: "\<nexists>s'. run_step compile s s'"
  shows "queue s = [] \<and> in_flight (workers s) = {#} \<and> set (workers s) \<subseteq> {WSleeping, WExited}"
proof -
  have no_worker: "\<nexists>s'. WorkerLoop_step compile i s s'" for i using stuck by (auto simp: run_step_def)
  have "WChecked \<notin> set (workers s)"
    using no_worker worker_enabled [of _ s compile] by (metis in_set_conv_nth worker.distinct)
  moreover have "client s \<noteq> CWaitChecked"
    using stuck WaitAll_step.sleeps by (auto simp: run_step_def)
  ultimately have free: "lock_free s" by (simp add: lock_free_def)
  have asleep: "w = WSleeping \<or> w = WExited" if "w \<in> set (workers s)" for w
    using that no_worker worker_enabled [of _ s compile] free by (metis in_set_conv_nth)
  then have "\<not> list_ex can_work (workers s)" by (auto simp: list_ex_iff can_work_def)
  moreover have "client s \<noteq> CPushed"
    using stuck NotifyOne_step.wakes [of s] NotifyOne_step.nobody [of s]
    by (metis in_set_conv_nth run_step_def)
  ultimately have "queue s = []" using wake by (auto simp: wakeups_ok_def)
  moreover have "in_flight ws = {#}" if "list_all (\<lambda>w. w = WSleeping \<or> w = WExited) ws" for ws
    using that by (induction ws) (auto simp: in_flight_def)
  ultimately show ?thesis using asleep by (auto simp: list_all_iff)
qed

lemma run_step_submitted: "run_step compile s s' \<Longrightarrow> submitted s' = submitted s"
  unfolding run_step_def by (elim disjE exE) (auto elim!: bg_step_cases)

text \<open>
  A run of the threads without a call of the owner: \<open>m\<close> steps they take when their wait
  conditions allow it, and \<open>k\<close> spurious wakeups, in any order.
\<close>

inductive thread_run :: "(CompileTask \<Rightarrow> 'm option) \<Rightarrow> 'm bg \<Rightarrow> nat \<Rightarrow> nat \<Rightarrow> 'm bg \<Rightarrow> bool"
  for compile :: "CompileTask \<Rightarrow> 'm option" and s :: "'m bg" where
  start: "thread_run compile s 0 0 s"
| step: "thread_run compile s m k t \<Longrightarrow> run_step compile t u \<Longrightarrow> thread_run compile s (Suc m) k u"
| wakeup: "thread_run compile s m k t \<Longrightarrow> Spurious_wakeup t u \<Longrightarrow> thread_run compile s m (Suc k) u"

lemma wakeup_weight:
  assumes "Spurious_wakeup s s'" shows "weight s' \<le> weight s + 2"
  using assms
proof (cases rule: Spurious_wakeup.cases)
  case (worker i)
  then show ?thesis using weight_update [of i "workers s" WAwake] by (simp add: weight_def)
qed (simp_all add: weight_def)

lemma thread_run_weight: "thread_run compile s m k s' \<Longrightarrow> m + weight s' \<le> weight s + 2 * k"
proof (induction rule: thread_run.induct)
  case (step m k t u)
  then show ?case using run_step_weight [of compile t u] by simp
next
  case (wakeup m k t u)
  then show ?case using wakeup_weight [of t u] by simp
qed simp

lemma thread_run_bg: "thread_run compile s m k s' \<Longrightarrow> (bg_step compile)\<^sup>*\<^sup>* s s'"
  by (induction rule: thread_run.induct) (auto simp: bg_step_def intro: rtranclp.rtrancl_into_rtrancl)

lemma thread_run_submitted: "thread_run compile s m k s' \<Longrightarrow> submitted s' = submitted s"
  by (induction rule: thread_run.induct) (auto simp: run_step_submitted elim: Spurious_wakeupE)

lemma thread_run_completes:
  "\<exists>m t. thread_run compile s m 0 t \<and> (\<nexists>u. run_step compile t u)"
proof -
  have "\<exists>m' u. thread_run compile s m' 0 u \<and> (\<nexists>v. run_step compile u v)"
    if "thread_run compile s m 0 t" for m t
    using that
  proof (induction "weight t" arbitrary: m t rule: less_induct)
    case less
    then show ?case using run_step_weight thread_run.step by metis
  qed
  then show ?thesis using thread_run.start by blast
qed

lemma worker_weight_le: "worker_weight w \<le> 7"
  by (cases w) simp_all

lemma weight_bound: "weight s \<le> 6 * length (queue s) + 9 * length (workers s) + 3"
proof -
  have "sum_list (map worker_weight ws) \<le> 7 * length ws" for ws
  proof (induction ws)
    case (Cons w ws)
    then show ?case using worker_weight_le [of w] by simp
  qed simp
  moreover have "client_weight n k \<le> 2 * n + 3" for n k by (cases k) simp_all
  ultimately show ?thesis
    using add_mono [of "sum_list (map worker_weight (workers s))" "7 * length (workers s)"
        "client_weight (length (workers s)) (client s)" "2 * length (workers s) + 3"]
    by (simp add: weight_def)
qed

text \<open>
C17. Every submitted task is processed. From any reachable state and without a new call of the
owner, the threads take at most \<open>6 q + 9 w + 3 + 2 k\<close> steps of their own, where \<open>q\<close> tasks
are queued, \<open>w\<close> is the number of workers and \<open>k\<close> the number of spurious wakeups among the
steps; a run without spurious wakeups to a state where no thread can go on exists; and in every
state where none can, spurious wakeups apart, the queue is empty, every worker sleeps or has
returned and holds no task, the counter of active tasks is zero and the processing of every
submitted task is over. (The workers then sleep until the owner calls again, and the owner may
sleep in \<^verbatim>\<open>WaitAll\<close>: \<open>wait_all_lost_wakeup\<close>.)
\<close>

theorem background_tasks_finish:
  assumes "reachable compile n hw c s"
  shows "(\<forall>m k s'. thread_run compile s m k s' \<longrightarrow>
      m \<le> 6 * length (queue s) + 9 * length (workers s) + 3 + 2 * k \<and>
      ((\<nexists>s''. run_step compile s' s'') \<longrightarrow>
         queue s' = [] \<and> set (workers s') \<subseteq> {WSleeping, WExited} \<and> in_flight (workers s') = {#} \<and>
         active_tasks s' = 0 \<and> mset (processed s') = mset (submitted s))) \<and>
    (\<exists>m s'. thread_run compile s m 0 s' \<and> (\<nexists>s''. run_step compile s' s''))"
proof (intro conjI allI impI thread_run_completes)
  fix m k s' assume run: "thread_run compile s m k s'"
  show "m \<le> 6 * length (queue s) + 9 * length (workers s) + 3 + 2 * k"
    using thread_run_weight [OF run] weight_bound [of s] by simp
  have r: "reachable compile n hw c s'" using assms thread_run_bg [OF run] by (rule rtranclp_trans)
  assume "\<nexists>s''. run_step compile s' s''"
  then have "queue s' = [] \<and> in_flight (workers s') = {#} \<and> set (workers s') \<subseteq> {WSleeping, WExited}"
    by (rule quiescent_done [OF counts.reachable [OF r] wakeups.reachable [OF r]])
  then show "queue s' = []" "in_flight (workers s') = {#}" "set (workers s') \<subseteq> {WSleeping, WExited}"
    "active_tasks s' = 0" "mset (processed s') = mset (submitted s)"
    using counts.reachable [OF r] thread_run_submitted [OF run] by (simp_all add: counts_ok_def)
qed

definition example_bg :: "nat bg" where
  "example_bg = (BackgroundCompiler 1 4 [])\<lparr>queue := [\<lparr>target_shape = [[4]], priority = 2\<rparr>],
      active_tasks := 1, client := CPushed, submitted := [\<lparr>target_shape = [[4]], priority = 2\<rparr>]\<rparr>"

lemma example_bg_reachable: "reachable (\<lambda>_. Some 7) 1 4 [] example_bg"
proof -
  have "Submit_step (BackgroundCompiler 1 4 []) example_bg"
    using Submit_step.push [of "BackgroundCompiler 1 4 ([] :: nat KernelCache)" "\<lparr>target_shape = [[4]], priority = 2\<rparr>"]
    by (simp add: example_bg_def BackgroundCompiler_def lock_free_def)
  then show ?thesis by (intro r_into_rtranclp) (simp add: bg_step_def)
qed

theorem background_tasks_finish_witness:
  "\<exists>m s'. m \<le> 18 \<and> thread_run (\<lambda>_. Some (7 :: nat)) example_bg m 0 s' \<and>
      queue s' = [] \<and> active_tasks s' = 0 \<and>
      mset (processed s') = {#\<lparr>target_shape = [[4]], priority = 2\<rparr>#}"
proof -
  have eq: "submitted example_bg = [\<lparr>target_shape = [[4]], priority = 2\<rparr>]" "length (queue example_bg) = 1"
    "length (workers example_bg) = 1" by (simp_all add: example_bg_def BackgroundCompiler_def)
  show ?thesis using background_tasks_finish [OF example_bg_reachable] unfolding eq by fastforce
qed

section \<open>Results of successful compilations\<close>

text \<open>
  A task that is past its compilation and compiled successfully has left a kernel for its
  signature.
\<close>

definition results_ok :: "(CompileTask \<Rightarrow> 'm option) \<Rightarrow> 'm bg \<Rightarrow> bool" where
  "results_ok compile s \<longleftrightarrow>
     (\<forall>t \<in> set (processed s) \<union> {t. WFinishing t \<in> set (workers s)}.
        compile t \<noteq> None \<longrightarrow> GetExact (target_shape t) (cache s) \<noteq> None)"

lemma results_mono:
  assumes "results_ok compile s" "cache s' = cache s"
    "\<And>t. t \<in> set (processed s') \<Longrightarrow> t \<in> set (processed s) \<or> WFinishing t \<in> set (workers s)"
    "\<And>t. WFinishing t \<in> set (workers s') \<Longrightarrow> WFinishing t \<in> set (workers s) \<or> compile t = None"
  shows "results_ok compile s'"
  using assms unfolding results_ok_def by fastforce

lemma results_worker:
  assumes "WorkerLoop_step compile i s s'" "results_ok compile s"
  shows "results_ok compile s'"
  using assms(1)
proof (cases rule: WorkerLoop_step.cases)
  case (compiles t m)
  have "t' = t \<or> t' \<in> set (processed s) \<union> {t. WFinishing t \<in> set (workers s)}"
    if "t' \<in> set (processed s') \<union> {t. WFinishing t \<in> set (workers s')}" for t'
    using that compiles by (auto dest: mem_updateD)
  then show ?thesis using assms(2) compiles unfolding results_ok_def by (fastforce simp: GetExact_Put)
next
  case (decrements t)
  have "WFinishing t \<in> set (workers s)" using decrements by (metis nth_mem)
  then show ?thesis using decrements
    by (intro results_mono [OF assms(2)]) (auto dest: mem_updateD)
next
  case (fails t)
  have "WFinishing t' \<in> set (workers s) \<or> compile t' = None" if "WFinishing t' \<in> set (workers s')" for t'
    using fails that mem_updateD [of "WFinishing t'" "workers s" i "WFinishing t"] by (cases "t' = t") auto
  then show ?thesis using fails by (intro results_mono [OF assms(2)]) auto
qed (auto intro!: results_mono [OF assms(2)] dest: mem_updateD)

lemma results_step: "bg_step compile s s' \<Longrightarrow> results_ok compile s \<Longrightarrow> results_ok compile s'"
  unfolding bg_step_def run_step_def
  by (elim disjE exE; (erule (1) results_worker)?)
     (auto elim!: bg_step_cases results_mono dest: mem_updateD simp: wake_def split: if_splits)

interpretation results: step_invariant "BackgroundCompiler n hw c" "bg_step compile" "results_ok compile"
  by unfold_locales (auto intro: results_step, simp add: results_ok_def BackgroundCompiler_def)

text \<open>
C19. When \<^verbatim>\<open>WaitAll\<close> returns, every submitted task whose compilation succeeds has its kernel in the
cache under the signature the task was submitted for.
\<close>

theorem wait_all_results_cached:
  assumes "reachable compile n hw c s" "WaitAll_step s s'" "client s' = CIdle"
    and "t \<in> set (submitted s')" "compile t \<noteq> None"
  shows "GetExact (target_shape t) (cache s') \<noteq> None"
proof -
  have "mset (processed s') = mset (submitted s')" using wait_all_complete [OF assms(1-3)] by blast
  moreover have "processed s' = processed s" "cache s' = cache s"
    using assms(2,3) by (auto elim!: WaitAll_stepE)
  ultimately have "t \<in> set (processed s)" "cache s' = cache s"
    using assms(4) by (metis set_mset_mset)+
  then show ?thesis using results.reachable [OF assms(1)] assms(5) by (auto simp: results_ok_def)
qed

lemma one_task_compiled:
  fixes c :: "'m KernelCache"
  assumes "compile t = Some m"
  defines "c' \<equiv> Put (target_shape t) m c"
  shows "reachable compile 1 h c (one_task_state t c' 1 0 CWaiting WAwake [] [t])"
proof -
  let ?st = "one_task_state t" and ?B = "bg_step compile"
  note defs = bg_step_def run_step_def one_task_state_def lock_free_def c'_def
  have 4: "?B (?st c 0 1 CIdle (WBusy t) [] []) (?st c' 1 1 CIdle (WFinishing t) [] [])"
    using WorkerLoop_step.compiles [of 0 "?st c 0 1 CIdle (WBusy t) [] []" t compile m] assms
    by (auto simp: defs)
  have 5: "?B (?st c' 1 1 CIdle (WFinishing t) [] []) (?st c' 1 0 CIdle WNotifying [] [t])"
    using WorkerLoop_step.decrements [of 0 "?st c' 1 1 CIdle (WFinishing t) [] []" t compile] by (auto simp: defs)
  have 6: "?B (?st c' 1 0 CIdle WNotifying [] [t]) (?st c' 1 0 CIdle WAwake [] [t])"
    using WorkerLoop_step.notifies [of 0 "?st c' 1 0 CIdle WNotifying [] [t]" compile] by (auto simp: defs)
  have 7: "?B (?st c' 1 0 CIdle WAwake [] [t]) (?st c' 1 0 CWaiting WAwake [] [t])"
    using WaitAll_call.call [of "?st c' 1 0 CIdle WAwake [] [t]"] by (simp add: defs)
  note then_step = converse_rtranclp_into_rtranclp [where r = ?B]
  show ?thesis
    by (rule then_step [OF one_task_submitted(1)] then_step [OF one_task_submitted(2)]
        then_step [OF one_task_submitted(3)] then_step [OF 4] then_step [OF 5] then_step [OF 6]
        r_into_rtranclp [where r = ?B, OF 7])+
qed

theorem wait_all_results_cached_witness:
  "GetExact [[4, 8]] [([[4, 8]], 7 :: nat)] \<noteq> None"
proof -
  let ?t = "\<lparr>target_shape = [[4, 8]], priority = 2\<rparr>" and ?f = "\<lambda>_ :: CompileTask. Some (7 :: nat)"
  let ?s = "one_task_state ?t [([[4, 8]], 7)] 1 0 CWaiting WAwake [] [?t]"
  have "reachable ?f 1 4 [] ?s" using one_task_compiled [of ?f ?t 7 4 "[]"] by (simp add: Put_def)
  moreover have "WaitAll_step ?s (?s\<lparr>client := CIdle\<rparr>)"
    by (rule WaitAll_step.returns) (simp_all add: one_task_state_def lock_free_def)
  ultimately show ?thesis
    using wait_all_results_cached [of ?f 1 4 "[]" ?s "?s\<lparr>client := CIdle\<rparr>" ?t] by (simp add: one_task_state_def)
qed

section \<open>A lost wakeup\<close>

lemma lost_run:
  fixes t :: CompileTask
  defines "st \<equiv> one_task_state t ([] :: 'm KernelCache) 0"
  shows "reachable (\<lambda>_. None :: 'm option) 1 h [] (st 0 CWaitSleeping WSleeping [] [t])"
proof -
  let ?st = "one_task_state t ([] :: 'm KernelCache) 0" and ?B = "bg_step (\<lambda>_. None :: 'm option)"
  note defs = bg_step_def run_step_def one_task_state_def lock_free_def
  have 4: "?B (?st 1 CIdle (WBusy t) [] []) (?st 1 CWaiting (WBusy t) [] [])"
    using WaitAll_call.call [of "?st 1 CIdle (WBusy t) [] []"] by (simp add: defs)
  have 5: "?B (?st 1 CWaiting (WBusy t) [] []) (?st 1 CWaitChecked (WBusy t) [] [])"
    using WaitAll_step.checks [of "?st 1 CWaiting (WBusy t) [] []"] by (simp add: defs)
  have 6: "?B (?st 1 CWaitChecked (WBusy t) [] []) (?st 1 CWaitChecked (WFinishing t) [] [])"
    using WorkerLoop_step.fails [of 0 "?st 1 CWaitChecked (WBusy t) [] []" t "\<lambda>_. None"] by (auto simp: defs)
  have 7: "?B (?st 1 CWaitChecked (WFinishing t) [] []) (?st 0 CWaitChecked WNotifying [] [t])"
    using WorkerLoop_step.decrements [of 0 "?st 1 CWaitChecked (WFinishing t) [] []" t "\<lambda>_. None"]
    by (auto simp: defs)
  have 8: "?B (?st 0 CWaitChecked WNotifying [] [t]) (?st 0 CWaitChecked WAwake [] [t])"
    using WorkerLoop_step.notifies [of 0 "?st 0 CWaitChecked WNotifying [] [t]" "\<lambda>_. None"] by (auto simp: defs)
  have 9: "?B (?st 0 CWaitChecked WAwake [] [t]) (?st 0 CWaitSleeping WAwake [] [t])"
    using WaitAll_step.sleeps [of "?st 0 CWaitChecked WAwake [] [t]"] by (simp add: defs)
  have 10: "?B (?st 0 CWaitSleeping WAwake [] [t]) (?st 0 CWaitSleeping WChecked [] [t])"
    using WorkerLoop_step.checks [of 0 "?st 0 CWaitSleeping WAwake [] [t]" "\<lambda>_. None"] by (auto simp: defs)
  have 11: "?B (?st 0 CWaitSleeping WChecked [] [t]) (?st 0 CWaitSleeping WSleeping [] [t])"
    using WorkerLoop_step.sleeps [of 0 "?st 0 CWaitSleeping WChecked [] [t]" "\<lambda>_. None"] by (auto simp: defs)
  note then_step = converse_rtranclp_into_rtranclp [where r = ?B]
  show ?thesis unfolding st_def
    by (rule then_step [OF one_task_submitted(1)] then_step [OF one_task_submitted(2)]
        then_step [OF one_task_submitted(3)] then_step [OF 4] then_step [OF 5] then_step [OF 6]
        then_step [OF 7] then_step [OF 8] then_step [OF 9] then_step [OF 10]
        r_into_rtranclp [where r = ?B, OF 11])+
qed

text \<open>
\<^verbatim>\<open>WaitAll\<close> can miss the notification that ends it. The counter of active tasks is decremented
and the waiters notified without holding the mutex, so both can happen after the waiting thread
has found work in progress and before it sleeps. In the state reached all tasks are processed and
the counter is zero, yet the owner sleeps, and only a spurious wakeup can let any thread go on.
\<close>

lemma wait_all_lost_wakeup:
  "\<exists>s. reachable (\<lambda>_. None :: 'm option) 1 h [] s \<and> client s = CWaitSleeping \<and>
       queue s = [] \<and> active_tasks s = 0 \<and> mset (processed s) = mset (submitted s) \<and>
       submitted s \<noteq> [] \<and> (\<forall>s'. bg_step (\<lambda>_. None :: 'm option) s s' \<longrightarrow> Spurious_wakeup s s')"
proof -
  define s where "s = one_task_state \<lparr>target_shape = [], priority = 2\<rparr> ([] :: 'm KernelCache) 0
      0 CWaitSleeping WSleeping [] [\<lparr>target_shape = [], priority = 2\<rparr>]"
  have "reachable (\<lambda>_. None :: 'm option) 1 h [] s" unfolding s_def by (rule lost_run)
  moreover have "bg_step (\<lambda>_. None :: 'm option) s s' \<longrightarrow> Spurious_wakeup s s'" for s'
    unfolding bg_step_def run_step_def by (auto elim!: bg_step_cases simp: s_def one_task_state_def)
  ultimately show ?thesis by (intro exI [of _ s]) (simp add: s_def one_task_state_def)
qed

end
