(* ===== verification/Runtime_Session.thy ===== *)
theory Runtime_Session
  imports Runtime_Background
begin

text \<open>
  The adaptive session (\<^verbatim>\<open>src/runtime/runtime_session.cc\<close>): each call records its shape,
  runs an exact or a compatible cached kernel or compiles one, and may schedule a background
  compilation. The cache is the one the background compiler writes. Parameters stand for
  \<^verbatim>\<open>api::Compiler::Compile\<close> on the function and configuration of the session (an error
  message, or a kernel), for running a kernel on the arguments of the call, for
  \<^verbatim>\<open>std::hash<int64_t>\<close> and for the comparison of doubles in the predictor. The profiling
  events around each operation do not change the state and are left out.
\<close>

record 'm session =
  background :: "'m bg"
  predictor :: ShapePredictor
  submitted_shapes :: "64 word list"

text \<open>What a call did, with the kernel it ran.\<close>

datatype 'm outcome = ExactHit 'm | FuzzyHit 'm | SyncCompile 'm

definition RuntimeSession :: "32 word \<Rightarrow> 32 word \<Rightarrow> 'm session" where
  "RuntimeSession background_threads hardware_concurrency =
     \<lparr>background = BackgroundCompiler
        (if background_threads = 0 then max 1 (hardware_concurrency div 2) else background_threads)
        hardware_concurrency [],
      predictor = new_predictor, submitted_shapes = []\<rparr>"

abbreviation session_cache :: "'m session \<Rightarrow> 'm KernelCache" where
  "session_cache s \<equiv> cache (background s)"

definition put_kernel :: "ShapeSignature \<Rightarrow> 'm \<Rightarrow> 'm session \<Rightarrow> 'm session" where
  "put_kernel sig m s = s\<lparr>background := (background s)\<lparr>cache := Put sig m (session_cache s)\<rparr>\<rparr>"

text \<open>
  What \<^verbatim>\<open>BackgroundCompiler::Submit\<close> does to the object; the notification after the push is a
  matter of the worker threads and is a step of \<open>Runtime_Background\<close>.
\<close>

definition Submit :: "CompileTask \<Rightarrow> 'm bg \<Rightarrow> 'm bg" where
  "Submit t b = b\<lparr>queue := t # queue b, active_tasks := i32 (active_tasks b + 1),
                  submitted := t # submitted b\<rparr>"

definition MaybeScheduleOptimization ::
  "(int \<Rightarrow> 64 word) \<Rightarrow> (int \<Rightarrow> int \<Rightarrow> bool) \<Rightarrow> ShapeSignature \<Rightarrow> 'm session \<Rightarrow> 'm session" where
  "MaybeScheduleOptimization hash_int64 ratio_ge sig s =
     (let observed_count = GetCount sig (predictor s) in
      if \<not> ShouldCompile ratio_ge sig 2 (predictor s) then s
      else let sig_hash = Hash hash_int64 sig in
        if sig_hash \<in> set (submitted_shapes s) then s
        else s\<lparr>submitted_shapes := sig_hash # submitted_shapes s,
               background := Submit \<lparr>target_shape = sig, priority = observed_count\<rparr> (background s)\<rparr>)"

definition Run ::
  "(int \<Rightarrow> 64 word) \<Rightarrow> (int \<Rightarrow> int \<Rightarrow> bool) \<Rightarrow> string + 'm \<Rightarrow> ('m \<Rightarrow> string option) \<Rightarrow>
     int list list \<Rightarrow> 'm session \<Rightarrow> (string + 'm outcome) \<times> 'm session" where
  "Run hash_int64 ratio_ge compile run input_shapes s0 =
     (let sig = MakeShapeSignature input_shapes;
          s = s0\<lparr>predictor := Record sig (predictor s0)\<rparr>;
          schedule = MaybeScheduleOptimization hash_int64 ratio_ge sig in
      case GetExact sig (session_cache s) of
        Some k \<Rightarrow> (case run k of Some e \<Rightarrow> (Inl e, s) | None \<Rightarrow> (Inr (ExactHit k), s))
      | None \<Rightarrow>
          (case GetFuzzy sig (session_cache s) of
             Some k \<Rightarrow> (case run k of Some e \<Rightarrow> (Inl e, s) | None \<Rightarrow> (Inr (FuzzyHit k), schedule s))
           | None \<Rightarrow>
               (case compile of
                  Inl e \<Rightarrow> (Inl e, s)
                | Inr k \<Rightarrow>
                    let s' = put_kernel sig k s in
                    (case run k of Some e \<Rightarrow> (Inl e, s')
                     | None \<Rightarrow> (Inr (SyncCompile k), schedule s')))))"

definition WarmUp ::
  "string + 'm \<Rightarrow> int list list \<Rightarrow> 'm session \<Rightarrow> (string + unit) \<times> 'm session" where
  "WarmUp compile input_shapes s =
     (let sig = MakeShapeSignature input_shapes in
      if Has sig (session_cache s) then (Inr (), s)
      else case compile of Inl e \<Rightarrow> (Inl e, s) | Inr k \<Rightarrow> (Inr (), put_kernel sig k s))"

definition GetStatus :: "'m session \<Rightarrow> string" where
  "GetStatus s =
     ''RuntimeSession{'' @ ''cached='' @ to_string (int (Size (session_cache s))) @
     '', pending='' @ to_string (PendingCount (background s)) @
     '', completed='' @ to_string (completed_count (background s)) @
     '', total_runs='' @ to_string (TotalCount (predictor s)) @ ''}''"

section \<open>Sequences of calls\<close>

text \<open>
  A call of the owner, with what compilation and the kernel did in it: a run or a warm-up.
\<close>

datatype 'm call =
    CallRun "string + 'm" "'m \<Rightarrow> string option" "int list list"
  | CallWarmUp "string + 'm" "int list list"

fun do_call :: "(int \<Rightarrow> 64 word) \<Rightarrow> (int \<Rightarrow> int \<Rightarrow> bool) \<Rightarrow> 'm call \<Rightarrow> 'm session \<Rightarrow> 'm session" where
  "do_call h r (CallRun compile run shapes) s = snd (Run h r compile run shapes s)"
| "do_call h r (CallWarmUp compile shapes) s = snd (WarmUp compile shapes s)"

lemma schedule_fields [simp]:
  "predictor (MaybeScheduleOptimization h r sig s) = predictor s"
  "session_cache (MaybeScheduleOptimization h r sig s) = session_cache s"
  "session_cache (put_kernel sig k s) = Put sig k (session_cache s)"
  "predictor (put_kernel sig k s) = predictor s"
  by (simp_all add: MaybeScheduleOptimization_def Let_def Submit_def put_kernel_def)

lemma serves_refl: "serves c c"
  by (simp add: serves_def list_all2_same)

fun outcome_kernel :: "'m outcome \<Rightarrow> 'm" where
  "outcome_kernel (ExactHit k) = k"
| "outcome_kernel (FuzzyHit k) = k"
| "outcome_kernel (SyncCompile k) = k"

lemma GetExact_member: "GetExact sig c = Some k \<Longrightarrow> (sig, k) \<in> set c"
  by (simp add: GetExact_def map_of_SomeD)

text \<open>
C21. A call that returns has run a kernel that is in the cache afterwards under a signature that can
serve the call: the same ranks, and every dimension at least as large as the one asked for. The
call is counted by the predictor whether it succeeds or not.
\<close>

theorem run_uses_serving_kernel:
  assumes "Run h r compile run shapes s = (res, s')"
    and "\<forall>(c, m) \<in> set (session_cache s). serves c shapes \<longrightarrow> gap shapes c < INT64_MAX"
  shows "predictor s' = Record shapes (predictor s) \<and>
    (\<forall>out. res = Inr out \<longrightarrow> run (outcome_kernel out) = None \<and>
       (\<exists>c. (c, outcome_kernel out) \<in> set (session_cache s') \<and> serves c shapes))"
proof -
  have fuzzy: "\<exists>c. (c, k) \<in> set (session_cache s) \<and> serves c shapes"
    if "GetFuzzy shapes (session_cache s) = Some k" for k
    using get_fuzzy_nearest [OF assms(2)] that by blast
  have put: "\<exists>c. (c, k) \<in> set (Put shapes k (session_cache s)) \<and> serves c shapes" for k
    using GetExact_member [of shapes "Put shapes k (session_cache s)" k] serves_refl
    by (auto simp: GetExact_Put)
  show ?thesis
    using assms(1) fuzzy put serves_refl [of shapes]
    by (auto simp: Run_def MakeShapeSignature_def Let_def dest!: GetExact_member
        split: option.splits sum.splits)
qed

theorem run_uses_serving_kernel_witness:
  "\<exists>c. (c, ''k'') \<in> set [([[4, 8]], ''k'')] \<and> serves c [[4, 6]]"
  using run_uses_serving_kernel [of word_of_int "\<lambda>_ _. True" "Inl ''e''" "\<lambda>_. None" "[[4, 6]]"
      "put_kernel [[4, 8]] ''k'' (RuntimeSession 1 4)" "Inr (FuzzyHit ''k'')"
      "put_kernel [[4, 8]] ''k'' (RuntimeSession 1 4)\<lparr>predictor := Record [[4, 6]] new_predictor\<rparr>"]
  by (simp add: Run_def MakeShapeSignature_def Let_def put_kernel_def RuntimeSession_def GetExact_def
      BackgroundCompiler_def Put_def GetFuzzy_def GetFuzzyEntry_def fuzzy_step_def ShapeDistance_def
      INT64_MAX_def is_i64_def MaybeScheduleOptimization_def ShouldCompile_def Record_def freq_of_def
      new_predictor_def serves_def gap_def)

text \<open>
After a successful call that compiled, or a successful warm-up, the next call with the same shapes
finds its kernel by exact lookup: it runs that kernel and leaves the cache and the background
queue alone.
\<close>

lemma compiled_then_exact:
  assumes "Run h r compile run shapes s = (Inr (SyncCompile k), s') \<or>
           (WarmUp (Inr k) shapes s = (Inr (), s') \<and> \<not> Has shapes (session_cache s))"
    and "run' k = None"
  shows "\<exists>s''. Run h r compile' run' shapes s' = (Inr (ExactHit k), s'') \<and>
               background s'' = background s'"
proof -
  have "GetExact shapes (session_cache s') = Some k"
    using assms(1)
    by (auto simp: Run_def WarmUp_def MakeShapeSignature_def Let_def GetExact_Put
        split: option.splits sum.splits if_splits)
  then show ?thesis using assms(2) by (simp add: Run_def MakeShapeSignature_def Let_def)
qed

lemma compiled_then_exact_witness:
  "\<exists>s''. Run word_of_int (\<lambda>_ _. True) (Inl ''no compiler'') (\<lambda>_. None) [[4, 8]]
      (put_kernel [[4, 8]] (7 :: nat) (RuntimeSession 1 4)) = (Inr (ExactHit 7), s'') \<and>
     background s'' = background (put_kernel [[4, 8]] 7 (RuntimeSession 1 4))"
  by (rule compiled_then_exact [of word_of_int "\<lambda>_ _. True" "Inl ''e''" "\<lambda>_. None" _ "RuntimeSession 1 4"])
     (simp_all add: WarmUp_def Has_def MakeShapeSignature_def RuntimeSession_def BackgroundCompiler_def)

section \<open>What is scheduled\<close>

text \<open>
  The hashes recorded are those of the submitted tasks, none twice, and every submitted task
  was seen at least twice.
\<close>

definition schedule_ok :: "(int \<Rightarrow> 64 word) \<Rightarrow> 'm session \<Rightarrow> bool" where
  "schedule_ok h s \<longleftrightarrow>
     submitted_shapes s = map (\<lambda>t. Hash h (target_shape t)) (submitted (background s)) \<and>
     distinct (submitted_shapes s) \<and> (\<forall>t \<in> set (submitted (background s)). 2 \<le> priority t)"

lemma schedule_ok_schedule: "schedule_ok h s \<Longrightarrow> schedule_ok h (MaybeScheduleOptimization h r sig s)"
  by (auto simp: schedule_ok_def MaybeScheduleOptimization_def Let_def Submit_def ShouldCompile_def
      GetCount_def split: option.splits if_splits)

lemma schedule_ok_record: "schedule_ok h s \<Longrightarrow> schedule_ok h (s\<lparr>predictor := p\<rparr>)"
  and schedule_ok_put: "schedule_ok h s \<Longrightarrow> schedule_ok h (put_kernel sig k s)"
  by (auto simp: schedule_ok_def put_kernel_def)

lemma schedule_ok_call: "schedule_ok h s \<Longrightarrow> schedule_ok h (do_call h r call s)"
  by (cases call)
     (auto simp: Run_def WarmUp_def Let_def schedule_ok_schedule schedule_ok_record schedule_ok_put
       split: option.splits sum.splits)

text \<open>
C22. Whatever calls a session receives, it submits at most one background task per hash of a
signature, and only for signatures it has seen at least twice: the hashes of the submitted tasks
are pairwise different and are exactly the ones the session remembers.
\<close>

theorem scheduled_once_per_hash:
  "let s = fold (do_call h r) calls (RuntimeSession n cpus) in
     distinct (map (\<lambda>t. Hash h (target_shape t)) (submitted (background s))) \<and>
     submitted_shapes s = map (\<lambda>t. Hash h (target_shape t)) (submitted (background s)) \<and>
     list_all (\<lambda>t. 2 \<le> priority t) (submitted (background s))"
proof -
  have "schedule_ok h (fold (do_call h r) calls (RuntimeSession n cpus))"
    by (induction calls rule: rev_induct)
       (simp_all add: schedule_ok_call, simp add: schedule_ok_def RuntimeSession_def BackgroundCompiler_def)
  then show ?thesis unfolding schedule_ok_def Let_def list_all_iff by metis
qed

text \<open>
A signature whose hash collides with one already submitted is never optimised: once a task for a
1 by 65 input has been submitted, scheduling a 2 by 2 input does nothing, however often it has been
seen.
\<close>

lemma collision_never_scheduled:
  assumes "Hash word_of_int [[1, 65]] \<in> set (submitted_shapes s)"
  shows "MaybeScheduleOptimization word_of_int r [[2, 2]] s = s"
  using assms by (simp add: MaybeScheduleOptimization_def Let_def Hash_def shape_hash_def hash_combine_def)

lemma collision_never_scheduled_witness:
  "MaybeScheduleOptimization word_of_int (\<lambda>_ _. True) [[2, 2]]
     ((RuntimeSession 1 4 :: nat session)\<lparr>predictor := predictor_after [[[2, 2]], [[2, 2]]],
        submitted_shapes := [Hash word_of_int [[1, 65]]]\<rparr>) =
   (RuntimeSession 1 4)\<lparr>predictor := predictor_after [[[2, 2]], [[2, 2]]],
        submitted_shapes := [Hash word_of_int [[1, 65]]]\<rparr>"
  by (rule collision_never_scheduled) simp

text \<open>
  Submitting from a session is a push and a notification of the state machine; with no worker
  asleep the two together are the update above.
\<close>

lemma Submit_is_step:
  assumes "client b = CIdle" "lock_free b" "WSleeping \<notin> set (workers b)"
  shows "(bg_step compile)\<^sup>*\<^sup>* b (Submit t b)"
proof -
  let ?b = "b\<lparr>queue := t # queue b, active_tasks := i32 (active_tasks b + 1), client := CPushed,
              submitted := t # submitted b\<rparr>"
  have "bg_step compile b ?b" using Submit_step.push [OF assms(1,2)] by (auto simp: bg_step_def)
  moreover have "NotifyOne_step ?b (?b\<lparr>client := CIdle\<rparr>)"
    by (rule NotifyOne_step.nobody) (use assms in simp_all)
  moreover have "?b\<lparr>client := CIdle\<rparr> = Submit t b" using assms(1) by (cases b) (simp add: Submit_def)
  ultimately have "bg_step compile b ?b" "bg_step compile ?b (Submit t b)"
    by (simp_all only: bg_step_def run_step_def simp_thms)
  then show ?thesis by (meson rtranclp.rtrancl_refl rtranclp.rtrancl_into_rtrancl)
qed

end
