(* ===== verification/Plan_Json.thy ===== *)
theory Plan_Json
  imports Base_Device
begin

text \<open>
  The JSON reader and writer of \<^verbatim>\<open>src/base/execution_plan.cc\<close>: the value type \<^verbatim>\<open>J\<close>, the
  recursive-descent parser \<^verbatim>\<open>P\<close>, the escaping of strings and the typed accessors. The state of
  the parser is its position and the text that is left.
\<close>

section \<open>Values\<close>

text \<open>An object has distinct keys; its pairs are in the order of insertion.\<close>

datatype J = JN | JB bool | JI int | JS string | JA "J list" | JO "(string \<times> J) list"

definition J_kind :: "J \<Rightarrow> int" where
  "J_kind v = (case v of JN \<Rightarrow> 0 | JB _ \<Rightarrow> 1 | JI _ \<Rightarrow> 2 | JS _ \<Rightarrow> 3 | JA _ \<Rightarrow> 4 | JO _ \<Rightarrow> 5)"

section \<open>The parser\<close>

type_synonym jst = "nat \<times> string"

definition Err :: "jst \<Rightarrow> string \<Rightarrow> 'a res" where
  "Err st m = throw (''JSON parse error at '' @ show_nat (fst st) @ '': '' @ m)"

definition quote :: char where "quote = CHR 0x22"
definition backslash :: char where "backslash = CHR 0x5C"

definition quoted :: "string \<Rightarrow> string" where
  "quoted s = CHR 0x27 # s @ [CHR 0x27]"

text \<open>\<^verbatim>\<open>Peek\<close> answers the null character at the end of the text.\<close>

definition Peek :: "jst \<Rightarrow> char" where
  "Peek st = (case snd st of [] \<Rightarrow> CHR 0x00 | c # _ \<Rightarrow> c)"

definition Get :: "jst \<Rightarrow> (char \<times> jst) res" where
  "Get st = (case snd st of
     [] \<Rightarrow> Err st ''unexpected EOF''
   | c # cs \<Rightarrow> Inr (c, (Suc (fst st), cs)))"

definition is_space :: "char \<Rightarrow> bool" where
  "is_space c \<longleftrightarrow> c = CHR 0x20 \<or> (of_char c \<ge> (9::nat) \<and> of_char c \<le> (13::nat))"

definition is_digit :: "char \<Rightarrow> bool" where
  "is_digit c \<longleftrightarrow> of_char c \<ge> (48::nat) \<and> of_char c \<le> (57::nat)"

fun WS :: "jst \<Rightarrow> jst" where
  "WS (p, []) = (p, [])"
| "WS (p, c # cs) = (if is_space c then WS (Suc p, cs) else (p, c # cs))"

definition Expect :: "char \<Rightarrow> jst \<Rightarrow> jst res" where
  "Expect c st = sbind (Get st) (\<lambda>(d, st).
     if d \<noteq> c then Err st (''expected '' @ quoted [c]) else Inr st)"

fun Lit :: "string \<Rightarrow> jst \<Rightarrow> jst res" where
  "Lit [] st = Inr st"
| "Lit (c # cs) st = sbind (Get st) (\<lambda>(d, st).
     if d \<noteq> c then Err st ''invalid literal'' else Lit cs st)"

definition hex_digit :: "char \<Rightarrow> nat option" where
  "hex_digit h =
     (if is_digit h then Some (of_char h - 48)
      else if of_char h \<ge> (97::nat) \<and> of_char h \<le> (102::nat) then Some (of_char h - 97 + 10)
      else if of_char h \<ge> (65::nat) \<and> of_char h \<le> (70::nat) then Some (of_char h - 65 + 10)
      else None)"

fun read_hex :: "nat \<Rightarrow> nat \<Rightarrow> jst \<Rightarrow> (nat \<times> jst) res" where
  "read_hex 0 cp st = Inr (cp, st)"
| "read_hex (Suc k) cp st = sbind (Get st) (\<lambda>(h, st).
     case hex_digit h of
       None \<Rightarrow> Err st ''invalid unicode escape''
     | Some d \<Rightarrow> read_hex k (cp * 16 + d) st)"

text \<open>The character an escape sequence stands for, after the backslash.\<close>

definition read_escape :: "jst \<Rightarrow> (char \<times> jst) res" where
  "read_escape st = sbind (Get st) (\<lambda>(e, st).
     if e = quote then Inr (quote, st)
     else if e = backslash then Inr (backslash, st)
     else if e = CHR ''/'' then Inr (CHR ''/'', st)
     else if e = CHR ''b'' then Inr (CHR 0x08, st)
     else if e = CHR ''f'' then Inr (CHR 0x0C, st)
     else if e = CHR ''n'' then Inr (CHR 0x0A, st)
     else if e = CHR ''r'' then Inr (CHR 0x0D, st)
     else if e = CHR ''t'' then Inr (CHR 0x09, st)
     else if e = CHR ''u'' then sbind (read_hex 4 0 st) (\<lambda>(cp, st).
       Inr (if cp \<le> 0x7F then char_of cp else CHR ''?'', st))
     else Err st ''invalid escape'')"

lemma Get_shorter: "Get st = Inr (c, st') \<Longrightarrow> length (snd st') < length (snd st)"
  by (auto simp: Get_def Err_def split: list.splits)

lemma read_hex_shorter: "read_hex k cp st = Inr (v, st') \<Longrightarrow> length (snd st') \<le> length (snd st)"
proof (induction k arbitrary: cp st)
  case (Suc k)
  then obtain h st1 where g: "Get st = Inr (h, st1)" by (auto simp: sbind_Inr_iff)
  with Suc.prems obtain d where "read_hex k (cp * 16 + d) st1 = Inr (v, st')"
    by (auto simp: Err_def split: option.splits)
  from Suc.IH [OF this] Get_shorter [OF g] show ?case by simp
qed simp

lemma read_escape_shorter:
  "read_escape st = Inr (c, st') \<Longrightarrow> length (snd st') < length (snd st)"
  by (auto simp: read_escape_def sbind_Inr_iff Err_def split: if_splits
      dest!: Get_shorter read_hex_shorter)

function Str_loop :: "string \<Rightarrow> jst \<Rightarrow> (string \<times> jst) res" where
  "Str_loop out st = sbind (Get st) (\<lambda>(c, st).
     if c = quote then Inr (out, st)
     else if c = backslash then sbind (read_escape st) (\<lambda>(e, st). Str_loop (out @ [e]) st)
     else Str_loop (out @ [c]) st)"
  by pat_completeness auto
termination
  by (relation "measure (\<lambda>(_, st). length (snd st))")
    (auto dest!: Get_shorter read_escape_shorter)

declare Str_loop.simps [simp del]

definition Str :: "jst \<Rightarrow> (string \<times> jst) res" where
  "Str st = sbind (Expect quote st) (Str_loop [])"

text \<open>The digits of a number: no other digit follows a leading zero.\<close>

definition num_digits :: "jst \<Rightarrow> string" where
  "num_digits st = (if Peek st = CHR ''0'' then ''0'' else takeWhile is_digit (snd st))"

text \<open>\<^verbatim>\<open>std::stoll\<close> throws when the number is no \<^verbatim>\<open>int64_t\<close>.\<close>

definition Num :: "jst \<Rightarrow> (J \<times> jst) res" where
  "Num st0 =
     (let neg = (Peek st0 = CHR ''-'');
          st = (if neg then (Suc (fst st0), tl (snd st0)) else st0);
          digits = num_digits st;
          rest = (fst st + length digits, drop (length digits) (snd st));
          v = (if neg then - int (read_nat digits) else int (read_nat digits))
      in if digits = [] then Err st ''invalid number''
         else if Peek rest = CHR ''.'' \<or> Peek rest = CHR ''e'' \<or> Peek rest = CHR ''E''
         then Err rest ''only integer supported''
         else if \<not> is_i64 v then Err rest ''invalid integer''
         else Inr (JI v, rest))"

text \<open>
  \<open>V\<close>, \<open>Obj_loop\<close> and \<open>Arr_loop\<close> recurse through one another; the first argument bounds the
  number of nested calls.
\<close>

fun V :: "nat \<Rightarrow> jst \<Rightarrow> (J \<times> jst) res"
and Obj_loop :: "nat \<Rightarrow> (string \<times> J) list \<Rightarrow> jst \<Rightarrow> (J \<times> jst) res"
and Arr_loop :: "nat \<Rightarrow> J list \<Rightarrow> jst \<Rightarrow> (J \<times> jst) res" where
  "V 0 st = Inl NoFuel"
| "V (Suc n) st0 =
     (let st = WS st0; c = Peek st in
      if c = CHR ''{'' then
        sbind (Expect (CHR ''{'') st) (\<lambda>st.
          let st = WS st in
          if Peek st = CHR ''}'' then sbind (Get st) (\<lambda>(_, st). Inr (JO [], st))
          else Obj_loop n [] st)
      else if c = CHR ''['' then
        sbind (Expect (CHR ''['') st) (\<lambda>st.
          let st = WS st in
          if Peek st = CHR '']'' then sbind (Get st) (\<lambda>(_, st). Inr (JA [], st))
          else Arr_loop n [] st)
      else if c = quote then sbind (Str st) (\<lambda>(s, st). Inr (JS s, st))
      else if c = CHR ''t'' then sbind (Lit ''true'' st) (\<lambda>st. Inr (JB True, st))
      else if c = CHR ''f'' then sbind (Lit ''false'' st) (\<lambda>st. Inr (JB False, st))
      else if c = CHR ''n'' then sbind (Lit ''null'' st) (\<lambda>st. Inr (JN, st))
      else if c = CHR ''-'' \<or> is_digit c then Num st
      else Err st ''unexpected token'')"
| "Obj_loop 0 o_acc st = Inl NoFuel"
| "Obj_loop (Suc n) o_acc st =
     sbind (Str st) (\<lambda>(key, st).
     sbind (Expect (CHR '':'') (WS st)) (\<lambda>st.
     sbind (V n st) (\<lambda>(val, st).
     if key \<in> fst ` set o_acc then Err st ''duplicate key''
     else sbind (Get (WS st)) (\<lambda>(c, st).
       if c = CHR ''}'' then Inr (JO (o_acc @ [(key, val)]), st)
       else if c \<noteq> CHR '','' then Err st (''expected '' @ quoted '','' @ '' or '' @ quoted ''}'')
       else Obj_loop n (o_acc @ [(key, val)]) (WS st)))))"
| "Arr_loop 0 a_acc st = Inl NoFuel"
| "Arr_loop (Suc n) a_acc st =
     sbind (V n st) (\<lambda>(val, st).
     sbind (Get (WS st)) (\<lambda>(c, st).
       if c = CHR '']'' then Inr (JA (a_acc @ [val]), st)
       else if c \<noteq> CHR '','' then Err st (''expected '' @ quoted '','' @ '' or '' @ quoted '']'')
       else Arr_loop n (a_acc @ [val]) (WS st)))"

text \<open>Every call consumes a character before it recurses twice, so this bound is enough.\<close>

definition Parse :: "string \<Rightarrow> J res" where
  "Parse text =
     sbind (V (2 * length text + 2) (WS (0, text))) (\<lambda>(v, st).
       let st = WS st in
       if snd st \<noteq> [] then Err st ''trailing characters'' else Inr v)"

section \<open>The writer\<close>

definition hex_char :: "nat \<Rightarrow> char" where
  "hex_char d = (if d < 10 then char_of (48 + d) else char_of (87 + d))"

definition Esc_char :: "char \<Rightarrow> string" where
  "Esc_char c =
     (if c = quote then [backslash, quote]
      else if c = backslash then [backslash, backslash]
      else if c = CHR 0x08 then [backslash, CHR ''b'']
      else if c = CHR 0x0C then [backslash, CHR ''f'']
      else if c = CHR 0x0A then [backslash, CHR ''n'']
      else if c = CHR 0x0D then [backslash, CHR ''r'']
      else if c = CHR 0x09 then [backslash, CHR ''t'']
      else if of_char c < (0x20 :: nat)
      then [backslash, CHR ''u'', CHR ''0'', CHR ''0'', hex_char (of_char c div 16), hex_char (of_char c mod 16)]
      else [c])"

definition Esc :: "string \<Rightarrow> string" where
  "Esc s = concat (map Esc_char s)"

section \<open>Typed access\<close>

definition RK :: "J \<Rightarrow> int \<Rightarrow> string \<Rightarrow> J res" where
  "RK v k ctx =
     (if J_kind v \<noteq> k
      then throw (''Expected kind '' @ to_string k @ '' in '' @ ctx @ '', got '' @ to_string (J_kind v))
      else Inr v)"

definition pairs :: "J \<Rightarrow> (string \<times> J) list" where
  "pairs v = (case v of JO ps \<Rightarrow> ps | _ \<Rightarrow> [])"

definition items :: "J \<Rightarrow> J list" where
  "items v = (case v of JA vs \<Rightarrow> vs | _ \<Rightarrow> [])"

definition RF :: "J \<Rightarrow> string \<Rightarrow> string \<Rightarrow> J res" where
  "RF obj key ctx =
     sbind (RK obj 5 ctx) (\<lambda>_.
     case map_of (pairs obj) key of
       None \<Rightarrow> throw (''Missing required field '' @ quoted key @ '' in '' @ ctx)
     | Some v \<Rightarrow> Inr v)"

definition FF :: "J \<Rightarrow> string \<Rightarrow> J option" where
  "FF obj key = (case obj of JO ps \<Rightarrow> map_of ps key | _ \<Rightarrow> None)"

definition RI64 :: "J \<Rightarrow> string \<Rightarrow> int res" where
  "RI64 v ctx = sbind (RK v 2 ctx) (\<lambda>v. Inr (case v of JI i \<Rightarrow> i | _ \<Rightarrow> 0))"

definition RI :: "J \<Rightarrow> string \<Rightarrow> int res" where
  "RI v ctx = sbind (RI64 v ctx) (\<lambda>i.
     if \<not> is_i32 i then throw (''int out of range in '' @ ctx) else Inr i)"

definition RB :: "J \<Rightarrow> string \<Rightarrow> bool res" where
  "RB v ctx = sbind (RK v 1 ctx) (\<lambda>v. Inr (case v of JB b \<Rightarrow> b | _ \<Rightarrow> False))"

definition RS :: "J \<Rightarrow> string \<Rightarrow> string res" where
  "RS v ctx = sbind (RK v 3 ctx) (\<lambda>v. Inr (case v of JS s \<Rightarrow> s | _ \<Rightarrow> ''''))"

text \<open>A field that may be absent or null: \<open>read\<close> is applied to it otherwise.\<close>

definition optional_field ::
  "(J \<Rightarrow> string \<Rightarrow> 'a res) \<Rightarrow> J \<Rightarrow> string \<Rightarrow> 'a \<Rightarrow> string \<Rightarrow> 'a res" where
  "optional_field read obj key d ctx =
     (case FF obj key of
        None \<Rightarrow> Inr d
      | Some JN \<Rightarrow> Inr d
      | Some v \<Rightarrow> read v (ctx @ ''.'' @ key))"

definition OI :: "J \<Rightarrow> string \<Rightarrow> int \<Rightarrow> string \<Rightarrow> int res" where "OI = optional_field RI"
definition OB :: "J \<Rightarrow> string \<Rightarrow> bool \<Rightarrow> string \<Rightarrow> bool res" where "OB = optional_field RB"
definition OS :: "J \<Rightarrow> string \<Rightarrow> string \<Rightarrow> string \<Rightarrow> string res" where "OS = optional_field RS"

definition index_ctx :: "string \<Rightarrow> nat \<Rightarrow> string" where
  "index_ctx ctx i = ctx @ ''['' @ show_nat i @ '']''"

definition read_items :: "(J \<Rightarrow> string \<Rightarrow> 'a res) \<Rightarrow> J \<Rightarrow> string \<Rightarrow> 'a list res" where
  "read_items read arr ctx =
     sbind (RK arr 4 ctx) (\<lambda>_.
       smap (\<lambda>(i, v). read v (index_ctx ctx i)) (enumerate 0 (items arr)))"

definition AI :: "J \<Rightarrow> string \<Rightarrow> int list res" where "AI = read_items RI"
definition AI64 :: "J \<Rightarrow> string \<Rightarrow> int list res" where "AI64 = read_items RI64"

end
