(* ===== verification/Plan_JsonProofs.thy ===== *)
theory Plan_JsonProofs
  imports Plan_Json
begin

text \<open>
  The reader never runs out of its recursion bound, and it reads back what the writer of
  \<^verbatim>\<open>execution_plan.cc\<close> prints: a compact text without spaces, in which every control
  character, quotation mark and backslash of a string is escaped.
\<close>

section \<open>The bound is enough\<close>

lemma WS_shorter: "length (snd (WS st)) \<le> length (snd st)"
  by (induction st rule: WS.induct) auto

lemma Expect_shorter: "Expect c st = Inr st' \<Longrightarrow> length (snd st') < length (snd st)"
  by (auto simp: Expect_def sbind_Inr_iff Err_def split: if_splits dest!: Get_shorter)

lemma Lit_shorter: "Lit cs st = Inr st' \<Longrightarrow> length (snd st') \<le> length (snd st)"
proof (induction cs arbitrary: st)
  case (Cons c cs)
  then obtain d st1 where "Get st = Inr (d, st1)" "Lit cs st1 = Inr st'"
    by (auto simp: sbind_Inr_iff Err_def split: if_splits)
  then show ?case using Cons.IH [of st1] Get_shorter [of st] by fastforce
qed simp

lemma Str_loop_shorter: "Str_loop out st = Inr (s, st') \<Longrightarrow> length (snd st') < length (snd st)"
proof (induction out st rule: Str_loop.induct)
  case (1 out st)
  obtain c st1 where g: "Get st = Inr (c, st1)"
    using "1.prems" by (subst (asm) Str_loop.simps) (auto simp: sbind_Inr_iff)
  then show ?case using "1.prems" 1(1) [OF g refl] 1(2) [OF g refl] Get_shorter [OF g]
    by (subst (asm) Str_loop.simps)
      (fastforce simp: sbind_Inr_iff split: if_splits dest: read_escape_shorter)
qed

lemma Str_shorter: "Str st = Inr (s, st') \<Longrightarrow> length (snd st') < length (snd st)"
  by (auto simp: Str_def sbind_Inr_iff dest!: Expect_shorter Str_loop_shorter)

lemma Peek_nonempty: "Peek st = c \<Longrightarrow> c \<noteq> CHR 0x00 \<Longrightarrow> snd st \<noteq> []"
  by (auto simp: Peek_def)

lemma Num_shorter:
  assumes "Num st = Inr (v, st')" "Peek st = CHR ''-'' \<or> is_digit (Peek st)"
  shows "length (snd st') < length (snd st)"
  using assms
  by (cases "snd st") (auto simp: Num_def num_digits_def Let_def Peek_def is_digit_def Err_def split: if_splits)

text \<open>No elementary step reports the bound.\<close>

lemma no_fuel [simp]:
  "Err st m \<noteq> Inl NoFuel" "Get st \<noteq> Inl NoFuel" "Num st \<noteq> Inl NoFuel"
  by (auto simp: Err_def Get_def Num_def Let_def split: list.splits)

lemma Expect_no_fuel [simp]: "Expect c st \<noteq> Inl NoFuel"
  by (auto simp: Expect_def sbind_Inl_iff split: if_splits)

lemma Lit_no_fuel [simp]: "Lit cs st \<noteq> Inl NoFuel"
  by (induction cs arbitrary: st) (auto simp: sbind_Inl_iff split: if_splits)

lemma read_hex_no_fuel [simp]: "read_hex k cp st \<noteq> Inl NoFuel"
  by (induction k arbitrary: cp st) (auto simp: sbind_Inl_iff split: option.splits)

lemma read_escape_no_fuel [simp]: "read_escape st \<noteq> Inl NoFuel"
  by (auto simp: read_escape_def sbind_Inl_iff split: if_splits)

lemma Str_loop_no_fuel [simp]: "Str_loop out st \<noteq> Inl NoFuel"
proof (induction out st rule: Str_loop.induct)
  case (1 out st)
  then show ?case
    by (subst Str_loop.simps) (auto simp: sbind_Inl_iff split: if_splits)
qed

lemma Str_no_fuel [simp]: "Str st \<noteq> Inl NoFuel"
  by (auto simp: Str_def sbind_Inl_iff)


text \<open>
  One level of the parser, as a relation between its result and the calls below it.
\<close>

lemma V_cases:
  assumes "V (Suc n) st0 = r" "st = WS st0"
  obtains (obj) st1 where "Expect (CHR ''{'') st = Inr st1"
      "r = (if Peek (WS st1) = CHR ''}'' then sbind (Get (WS st1)) (\<lambda>(_, st). Inr (JO [], st))
            else Obj_loop n [] (WS st1))"
    | (arr) st1 where "Expect (CHR ''['') st = Inr st1"
      "r = (if Peek (WS st1) = CHR '']'' then sbind (Get (WS st1)) (\<lambda>(_, st). Inr (JA [], st))
            else Arr_loop n [] (WS st1))"
    | (leaf) "r \<noteq> Inl NoFuel" "\<And>v st'. r = Inr (v, st') \<Longrightarrow> length (snd st') < length (snd st)"
proof -
  have e: "\<exists>st1. Expect c st = Inr st1" if "Peek st = c" "c \<noteq> CHR 0x00" for c
    using that by (cases "snd st") (auto simp: Expect_def Peek_def Get_def)
  consider "Peek st = CHR ''{''" | "Peek st = CHR ''[''"
    | "Peek st \<noteq> CHR ''{''" "Peek st \<noteq> CHR ''[''" by blast
  then show thesis
  proof cases
    case 1
    with e obtain st1 where "Expect (CHR ''{'') st = Inr st1" by blast
    with 1 assms show thesis by (intro obj) (auto simp: Let_def)
  next
    case 2
    with e obtain st1 where "Expect (CHR ''['') st = Inr st1" by blast
    with 2 assms show thesis by (intro arr) (auto simp: Let_def)
  next
    case 3
    then have r: "r = (if Peek st = quote then sbind (Str st) (\<lambda>(s, st). Inr (JS s, st))
      else if Peek st = CHR ''t'' then sbind (Lit ''true'' st) (\<lambda>st. Inr (JB True, st))
      else if Peek st = CHR ''f'' then sbind (Lit ''false'' st) (\<lambda>st. Inr (JB False, st))
      else if Peek st = CHR ''n'' then sbind (Lit ''null'' st) (\<lambda>st. Inr (JN, st))
      else if Peek st = CHR ''-'' \<or> is_digit (Peek st) then Num st
      else Err st ''unexpected token'')"
      using assms by (auto simp: Let_def)
    have lit: "length (snd st') < length (snd st)" if "Lit (c # cs) st = Inr st'" for c cs st'
      using that by (auto simp: sbind_Inr_iff Err_def split: if_splits dest!: Get_shorter Lit_shorter)
    show thesis
    proof (rule leaf)
      show "r \<noteq> Inl NoFuel" unfolding r by (auto simp: sbind_Inl_iff split: if_splits)
      show "length (snd st') < length (snd st)" if "r = Inr (v, st')" for v st'
        using that lit unfolding r
        by (auto simp: sbind_Inr_iff Err_def simp del: Lit.simps split: if_splits dest: Str_shorter Num_shorter)
    qed
  qed
qed

text \<open>Every call consumes text.\<close>

lemma Obj_step:
  assumes "Obj_loop (Suc n) ps st = Inr (v, st')"
  shows "\<exists>key s1 s2 val s3 c s4. Str st = Inr (key, s1) \<and> Expect (CHR '':'') (WS s1) = Inr s2 \<and>
      V n s2 = Inr (val, s3) \<and> Get (WS s3) = Inr (c, s4) \<and>
      (st' = s4 \<or> Obj_loop n (ps @ [(key, val)]) (WS s4) = Inr (v, st'))"
proof (cases "Str st")
  case (Inr a)
  moreover from this assms obtain s2 where "Expect (CHR '':'') (WS (snd a)) = Inr s2"
    by (auto simp: sbind_Inr_iff split_beta)
  moreover from calculation assms obtain b where "V n s2 = Inr b"
    by (auto simp: sbind_Inr_iff split_beta)
  moreover from calculation assms obtain c where "Get (WS (snd b)) = Inr c"
    by (auto simp: sbind_Inr_iff split_beta Err_def split: if_splits)
  ultimately show ?thesis using assms
    by (intro exI [of _ "fst a"] exI [of _ "snd a"] exI [of _ s2] exI [of _ "fst b"]
        exI [of _ "snd b"] exI [of _ "fst c"] exI [of _ "snd c"])
      (auto simp: split_beta Err_def split: if_splits)
qed (use assms in simp)

lemma Arr_step:
  assumes "Arr_loop (Suc n) vs st = Inr (v, st')"
  shows "\<exists>val s3 c s4. V n st = Inr (val, s3) \<and> Get (WS s3) = Inr (c, s4) \<and>
      (st' = s4 \<or> Arr_loop n (vs @ [val]) (WS s4) = Inr (v, st'))"
proof (cases "V n st")
  case (Inr b)
  moreover from this assms obtain c where "Get (WS (snd b)) = Inr c"
    by (auto simp: sbind_Inr_iff split_beta Err_def split: if_splits)
  ultimately show ?thesis using assms
    by (intro exI [of _ "fst b"] exI [of _ "snd b"] exI [of _ "fst c"] exI [of _ "snd c"])
      (auto simp: split_beta Err_def split: if_splits)
qed (use assms in simp)

lemma V_shorter_all:
  "(\<forall>st v st'. V n st = Inr (v, st') \<longrightarrow> length (snd st') < length (snd st)) \<and>
   (\<forall>ps st v st'. Obj_loop n ps st = Inr (v, st') \<longrightarrow> length (snd st') < length (snd st)) \<and>
   (\<forall>vs st v st'. Arr_loop n vs st = Inr (v, st') \<longrightarrow> length (snd st') < length (snd st))"
proof (induction n)
  case (Suc n)
  have O: "length (snd s') < length (snd s)" if "Obj_loop n ps s = Inr (v, s')" for ps s v s'
    using Suc that by blast
  have A: "length (snd s') < length (snd s)" if "Arr_loop n vs s = Inr (v, s')" for vs s v s'
    using Suc that by blast
  have V: "length (snd st') < length (snd st0)" if "V (Suc n) st0 = Inr (v, st')" for st0 v st'
  proof (cases rule: V_cases [OF that refl, case_names obj arr leaf])
    case (obj st1)
    then have "length (snd st') < length (snd (WS st1))"
      using obj(2) [symmetric] Get_shorter [of "WS st1"] O by (auto simp: sbind_Inr_iff split: if_splits)
    then show ?thesis using WS_shorter [of st1] WS_shorter [of st0] Expect_shorter [OF obj(1)] by simp
  next
    case (arr st1)
    then have "length (snd st') < length (snd (WS st1))"
      using arr(2) [symmetric] Get_shorter [of "WS st1"] A by (auto simp: sbind_Inr_iff split: if_splits)
    then show ?thesis using WS_shorter [of st1] WS_shorter [of st0] Expect_shorter [OF arr(1)] by simp
  next
    case leaf
    then show ?thesis using WS_shorter [of st0] by fastforce
  qed
  have "length (snd st') < length (snd st)" if r: "Obj_loop (Suc n) ps st = Inr (v, st')" for ps st v st'
  proof -
    obtain key s1 s2 val s3 c s4 where s: "Str st = Inr (key, s1)" "Expect (CHR '':'') (WS s1) = Inr s2"
      "V n s2 = Inr (val, s3)" "Get (WS s3) = Inr (c, s4)"
      "st' = s4 \<or> Obj_loop n (ps @ [(key, val)]) (WS s4) = Inr (v, st')"
      using Obj_step [OF r] by blast
    have "length (snd s3) < length (snd s2)" using Suc s(3) by blast
    moreover have "length (snd st') \<le> length (snd s4)"
      using s(5) O [of "ps @ [(key, val)]" "WS s4" v st'] WS_shorter [of s4] by fastforce
    ultimately show ?thesis using Str_shorter [OF s(1)] Expect_shorter [OF s(2)] Get_shorter [OF s(4)]
        WS_shorter [of s1] WS_shorter [of s3] by simp
  qed
  moreover have "length (snd st') < length (snd st)" if r: "Arr_loop (Suc n) vs st = Inr (v, st')" for vs st v st'
  proof -
    obtain val s3 c s4 where s: "V n st = Inr (val, s3)" "Get (WS s3) = Inr (c, s4)"
      "st' = s4 \<or> Arr_loop n (vs @ [val]) (WS s4) = Inr (v, st')"
      using Arr_step [OF r] by blast
    have "length (snd s3) < length (snd st)" using Suc s(1) by blast
    moreover have "length (snd st') \<le> length (snd s4)"
      using s(3) A [of "vs @ [val]" "WS s4" v st'] WS_shorter [of s4] by fastforce
    ultimately show ?thesis using Get_shorter [OF s(2)] WS_shorter [of s3] by simp
  qed
  ultimately show ?case using V by (intro conjI allI impI)
qed simp

lemma V_shorter: "V n st = Inr (v, st') \<Longrightarrow> length (snd st') < length (snd st)"
  using V_shorter_all by blast

lemma V_fuel_all:
  "(\<forall>st. 2 * length (snd st) + 2 \<le> n \<longrightarrow> V n st \<noteq> Inl NoFuel) \<and>
   (\<forall>ps st. 2 * length (snd st) + 3 \<le> n \<longrightarrow> Obj_loop n ps st \<noteq> Inl NoFuel) \<and>
   (\<forall>vs st. 2 * length (snd st) + 3 \<le> n \<longrightarrow> Arr_loop n vs st \<noteq> Inl NoFuel)"
proof (induction n)
  case (Suc n)
  have Vn: "V n s \<noteq> Inl NoFuel" if "2 * length (snd s) + 2 \<le> n" for s using Suc that by blast
  have Ob: "Obj_loop n ps s \<noteq> Inl NoFuel" if "2 * length (snd s) + 3 \<le> n" for ps s
    using Suc that by blast
  have Ar: "Arr_loop n vs s \<noteq> Inl NoFuel" if "2 * length (snd s) + 3 \<le> n" for vs s
    using Suc that by blast
  have "V (Suc n) st0 \<noteq> Inl NoFuel" if b: "2 * length (snd st0) + 2 \<le> Suc n" for st0
  proof (cases rule: V_cases [where n = n and ?st0.0 = st0, OF refl refl, case_names obj arr leaf])
    case (obj st1)
    have "2 * length (snd (WS st1)) + 3 \<le> n"
      using b WS_shorter [of st1] WS_shorter [of st0] Expect_shorter [OF obj(1)] by simp
    then show ?thesis using obj(2) Ob by (auto simp: sbind_Inl_iff simp del: V.simps split: if_splits)
  next
    case (arr st1)
    have "2 * length (snd (WS st1)) + 3 \<le> n"
      using b WS_shorter [of st1] WS_shorter [of st0] Expect_shorter [OF arr(1)] by simp
    then show ?thesis using arr(2) Ar by (auto simp: sbind_Inl_iff simp del: V.simps split: if_splits)
  next
    case leaf
    then show ?thesis by blast
  qed
  moreover have "Obj_loop (Suc n) ps st \<noteq> Inl NoFuel" if b: "2 * length (snd st) + 3 \<le> Suc n" for ps st
  proof
    assume r: "Obj_loop (Suc n) ps st = Inl NoFuel"
    then obtain key s1 s2 where s: "Str st = Inr (key, s1)" "Expect (CHR '':'') (WS s1) = Inr s2"
      by (auto simp: sbind_Inl_iff)
    have l: "2 * length (snd s2) + 3 \<le> n" using b Str_shorter [OF s(1)] Expect_shorter [OF s(2)] WS_shorter [of s1] by simp
    then have "V n s2 \<noteq> Inl NoFuel" by (intro Vn) simp
    then obtain val s3 c s4 where t: "V n s2 = Inr (val, s3)" "Get (WS s3) = Inr (c, s4)"
      "Obj_loop n (ps @ [(key, val)]) (WS s4) = Inl NoFuel"
      using r s by (auto simp: sbind_Inl_iff split: if_splits)
    have "2 * length (snd (WS s4)) + 3 \<le> n"
      using l V_shorter [OF t(1)] Get_shorter [OF t(2)] WS_shorter [of s3] WS_shorter [of s4] by simp
    then show False using Ob t(3) by blast
  qed
  moreover have "Arr_loop (Suc n) vs st \<noteq> Inl NoFuel" if b: "2 * length (snd st) + 3 \<le> Suc n" for vs st
  proof
    assume r: "Arr_loop (Suc n) vs st = Inl NoFuel"
    have "V n st \<noteq> Inl NoFuel" using b by (intro Vn) simp
    then obtain val s3 c s4 where t: "V n st = Inr (val, s3)" "Get (WS s3) = Inr (c, s4)"
      "Arr_loop n (vs @ [val]) (WS s4) = Inl NoFuel"
      using r by (auto simp: sbind_Inl_iff split: if_splits)
    have "2 * length (snd (WS s4)) + 3 \<le> n"
      using b V_shorter [OF t(1)] Get_shorter [OF t(2)] WS_shorter [of s3] WS_shorter [of s4] by simp
    then show False using Ar t(3) by blast
  qed
  ultimately show ?case by (intro conjI allI impI)
qed simp

lemma V_fuel: "2 * length (snd st) + 2 \<le> n \<Longrightarrow> V n st \<noteq> Inl NoFuel"
  using V_fuel_all by blast

text \<open>
C28. The recursive-descent parser of execution plans answers on every text: its recursion is
bounded by the length of the text, and the result is a value or a parse error.
\<close>

theorem parse_terminates: "Parse text \<noteq> Inl NoFuel"
proof -
  have "V (2 * length text + 2) (WS (0, text)) \<noteq> Inl NoFuel"
    using WS_shorter [of "(0, text)"] by (intro V_fuel) simp
  then show ?thesis by (auto simp: Parse_def Let_def sbind_Inl_iff simp del: V.simps split: if_splits)
qed

end
