(* ===== verification/Plan_Print.thy ===== *)
theory Plan_Print
  imports Plan_JsonProofs
begin

text \<open>
  The compact text of a JSON value, as the writers of \<^verbatim>\<open>execution_plan.cc\<close> print it, and the
  proof that the parser reads it back.
\<close>

section \<open>Strings\<close>

lemma Get_Cons [simp]: "Get (p, c # cs) = Inr (c, (Suc p, cs))"
  by (simp add: Get_def)

lemma Peek_Cons [simp]: "Peek (p, c # cs) = c"
  by (simp add: Peek_def)

lemma Expect_Cons [simp]: "Expect c (p, c # cs) = Inr (Suc p, cs)"
  by (simp add: Expect_def)

lemma hex_digit_char: "d < 16 \<Longrightarrow> hex_digit (hex_char d) = Some d"
proof -
  assume "d < 16"
  then have "d \<in> {0..<16}" by simp
  moreover have "\<forall>d \<in> set [0..<16]. hex_digit (hex_char d) = Some d"
    by (simp add: upt_rec hex_digit_def hex_char_def is_digit_def)
  ultimately show ?thesis by simp
qed

lemma Str_loop_plain:
  "c \<noteq> quote \<Longrightarrow> c \<noteq> backslash \<Longrightarrow> Str_loop s (p, c # cs) = Str_loop (s @ [c]) (Suc p, cs)"
  by (subst Str_loop.simps) simp

lemma Str_loop_escape:
  "read_escape (Suc p, cs) = Inr (e, st) \<Longrightarrow>
   Str_loop s (p, backslash # cs) = Str_loop (s @ [e]) st"
  by (subst Str_loop.simps) (simp add: quote_def backslash_def)

lemma Str_loop_Esc_char:
  "Str_loop s (p, Esc_char c @ cs) = Str_loop (s @ [c]) (p + length (Esc_char c), cs)"
proof (cases "c \<in> {quote, backslash, CHR 0x08, CHR 0x0C, CHR 0x0A, CHR 0x0D, CHR 0x09}")
  case True
  have simple: ?thesis if "Esc_char c = [backslash, e]"
    and "\<And>q r. read_escape (q, e # r) = Inr (c, (Suc q, r))" for e
    using that by (simp add: Str_loop_escape)
  from True consider "c = quote" | "c = backslash" | "c = CHR 0x08" | "c = CHR 0x0C"
    | "c = CHR 0x0A" | "c = CHR 0x0D" | "c = CHR 0x09" by blast
  then show ?thesis
  proof cases
    case 1
    show ?thesis unfolding 1 by (rule simple [unfolded 1, of quote])
        (simp_all add: Esc_char_def read_escape_def)
  next
    case 2
    show ?thesis unfolding 2 by (rule simple [unfolded 2, of backslash])
        (simp_all add: Esc_char_def read_escape_def quote_def backslash_def)
  next
    case 3
    show ?thesis unfolding 3 by (rule simple [unfolded 3, of "CHR ''b''"])
        (simp_all add: Esc_char_def read_escape_def quote_def backslash_def)
  next
    case 4
    show ?thesis unfolding 4 by (rule simple [unfolded 4, of "CHR ''f''"])
        (simp_all add: Esc_char_def read_escape_def quote_def backslash_def)
  next
    case 5
    show ?thesis unfolding 5 by (rule simple [unfolded 5, of "CHR ''n''"])
        (simp_all add: Esc_char_def read_escape_def quote_def backslash_def)
  next
    case 6
    show ?thesis unfolding 6 by (rule simple [unfolded 6, of "CHR ''r''"])
        (simp_all add: Esc_char_def read_escape_def quote_def backslash_def)
  next
    case 7
    show ?thesis unfolding 7 by (rule simple [unfolded 7, of "CHR ''t''"])
        (simp_all add: Esc_char_def read_escape_def quote_def backslash_def)
  qed
next
  case False
  show ?thesis
  proof (cases "of_char c < (0x20 :: nat)")
    case True
    define k :: nat where "k = of_char c"
    have k: "k < 32" "k div 16 < 16" "k mod 16 < 16" using True by (auto simp: k_def)
    have "read_hex 4 0 (Suc (Suc p), CHR ''0'' # CHR ''0'' # hex_char (k div 16) # hex_char (k mod 16) # cs) =
        Inr (k, (p + 6, cs))"
    proof -
      have z: "hex_digit (CHR ''0'') = Some 0" by (simp add: hex_digit_def is_digit_def)
      have "read_hex (Suc (Suc (Suc (Suc 0)))) 0
          (Suc (Suc p), CHR ''0'' # CHR ''0'' # hex_char (k div 16) # hex_char (k mod 16) # cs) =
        Inr (k div 16 * 16 + k mod 16, (p + 6, cs))"
        using hex_digit_char [OF k(2)] hex_digit_char [OF k(3)] z by simp
      moreover have "(4 :: nat) = Suc (Suc (Suc (Suc 0)))" by simp
      ultimately show ?thesis by (simp only: div_mult_mod_eq)
    qed
    moreover have "char_of k = c" "k \<le> 0x7F" using k by (simp_all add: k_def)
    ultimately have "read_escape (Suc p, CHR ''u'' # CHR ''0'' # CHR ''0'' # hex_char (k div 16) #
        hex_char (k mod 16) # cs) = Inr (c, (p + 6, cs))"
      by (simp add: read_escape_def quote_def backslash_def)
    from Str_loop_escape [OF this]
    have "Str_loop s (p, backslash # CHR ''u'' # CHR ''0'' # CHR ''0'' # hex_char (k div 16) #
        hex_char (k mod 16) # cs) = Str_loop (s @ [c]) (p + 6, cs)" .
    moreover have "Esc_char c = [backslash, CHR ''u'', CHR ''0'', CHR ''0'', hex_char (k div 16), hex_char (k mod 16)]"
      using False True by (simp add: Esc_char_def k_def)
    moreover have "p + 6 = Suc (Suc (Suc (Suc (Suc (Suc p)))))" by simp
    ultimately show ?thesis by simp
  next
    case False2: False
    then have "Esc_char c = [c]" using False by (auto simp: Esc_char_def)
    then show ?thesis using False by (simp add: Str_loop_plain)
  qed
qed

lemma Str_loop_Esc:
  "Str_loop s (p, Esc t @ quote # cs) = Inr (s @ t, (p + length (Esc t) + 1, cs))"
proof (induction t arbitrary: s p)
  case Nil
  then show ?case by (subst Str_loop.simps) (simp add: Esc_def)
next
  case (Cons c t)
  have "Str_loop s (p, Esc (c # t) @ quote # cs) =
      Str_loop (s @ [c]) (p + length (Esc_char c), Esc t @ quote # cs)"
    by (simp add: Esc_def Str_loop_Esc_char)
  then show ?case using Cons.IH by (simp add: Esc_def)
qed

definition print_string :: "string \<Rightarrow> string" where
  "print_string s = quote # Esc s @ [quote]"

lemma Str_print:
  "Str (p, print_string s @ cs) = Inr (s, (p + length (print_string s), cs))"
  by (simp add: Str_def print_string_def Str_loop_Esc)

section \<open>Numbers\<close>

text \<open>What may follow a value: the end of the text or a separator.\<close>

definition sep :: "string \<Rightarrow> bool" where
  "sep cs \<longleftrightarrow> cs = [] \<or> hd cs \<in> {CHR '','', CHR '']'', CHR ''}''}"

lemma is_digit_char [simp]: "d < 10 \<Longrightarrow> is_digit (digit_char d)"
  by (simp add: is_digit_def of_char_digit)

lemma show_nat_is_digit: "c \<in> set (show_nat n) \<Longrightarrow> is_digit c"
  using show_nat_digits [of c n] by auto

lemma show_nat_ne [simp]: "show_nat n \<noteq> []"
  by (subst show_nat.simps) simp

lemma digit_char_zero: "d < 10 \<Longrightarrow> digit_char d = CHR ''0'' \<Longrightarrow> d = 0"
  using of_char_digit [of d] by simp

lemma show_nat_zero: "hd (show_nat n) = CHR ''0'' \<Longrightarrow> n = 0"
proof (induction n rule: show_nat.induct)
  case (1 n)
  show ?case
  proof (cases "n < 10")
    case True
    then show ?thesis using 1(2) digit_char_zero by (subst (asm) show_nat.simps) simp
  next
    case False
    then have "show_nat n = show_nat (n div 10) @ [digit_char (n mod 10)]" by (subst show_nat.simps) simp
    then have "hd (show_nat (n div 10)) = CHR ''0''" using 1(2) by simp
    then show ?thesis using 1(1) False by fastforce
  qed
qed

lemma sep_Peek: "sep cs \<Longrightarrow> \<not> is_digit (Peek (p, cs)) \<and> Peek (p, cs) \<noteq> CHR ''.'' \<and>
    Peek (p, cs) \<noteq> CHR ''e'' \<and> Peek (p, cs) \<noteq> CHR ''E''"
  by (cases cs) (auto simp: sep_def Peek_def is_digit_def)

lemma sep_takeWhile: "sep cs \<Longrightarrow> takeWhile is_digit cs = []"
  using sep_Peek [of cs 0] by (cases cs) auto

lemma Num_digits:
  assumes "sep cs"
  shows "num_digits (p, show_nat n @ cs) = show_nat n"
proof (cases "Peek (p, show_nat n @ cs) = CHR ''0''")
  case True
  then have "n = 0" by (intro show_nat_zero) (cases "show_nat n"; simp)
  moreover have "digit_char 0 = CHR ''0''" by (simp add: digit_char_def char_of_eq_iff)
  then have "show_nat 0 = ''0''" by (simp add: show_nat.simps)
  ultimately show ?thesis using True by (simp add: num_digits_def)
next
  case False
  then show ?thesis using sep_takeWhile [OF assms]
    by (simp add: num_digits_def takeWhile_append show_nat_is_digit)
qed

lemma Num_print:
  assumes "sep cs" "is_i64 v"
  shows "Num (p, to_string v @ cs) = Inr (JI v, (p + length (to_string v), cs))"
proof -
  have m: "Peek (p, show_nat n @ cs) \<noteq> CHR ''-''" for p n
    using show_nat_not_minus [of n] by (cases "show_nat n") auto
  have e: "\<not> (Peek (q, cs) = CHR ''.'' \<or> Peek (q, cs) = CHR ''e'' \<or> Peek (q, cs) = CHR ''E'')" for q
    using sep_Peek [OF assms(1)] by blast
  show ?thesis
  proof (cases "v < 0")
    case True
    then have "to_string v = CHR ''-'' # show_nat (nat (- v))" by (simp add: to_string_def)
    then show ?thesis using True assms(2) e Num_digits [OF assms(1), of "Suc p" "nat (- v)"]
      by (simp add: Num_def Let_def read_show_nat)
  next
    case False
    then have "to_string v = show_nat (nat v)" by (simp add: to_string_def)
    then show ?thesis using False assms(2) e m Num_digits [OF assms(1), of p "nat v"]
      by (simp add: Num_def Let_def read_show_nat)
  qed
qed

section \<open>Values\<close>

fun print_J :: "J \<Rightarrow> string" and print_pair :: "string \<times> J \<Rightarrow> string" where
  "print_J JN = ''null''"
| "print_J (JB b) = (if b then ''true'' else ''false'')"
| "print_J (JI v) = to_string v"
| "print_J (JS s) = print_string s"
| "print_J (JA vs) = ''['' @ join_with '','' (map print_J vs) @ '']''"
| "print_J (JO ps) = ''{'' @ join_with '','' (map print_pair ps) @ ''}''"
| "print_pair (k, v) = print_string k @ '':'' @ print_J v"

text \<open>Every number is an \<^verbatim>\<open>int64_t\<close> and the keys of every object are distinct.\<close>

fun json_ok :: "J \<Rightarrow> bool" where
  "json_ok (JI v) = is_i64 v"
| "json_ok (JA vs) = list_all json_ok vs"
| "json_ok (JO ps) = (distinct (map fst ps) \<and> list_all (\<lambda>(k, v). json_ok v) ps)"
| "json_ok _ = True"

text \<open>The recursion bound a value needs.\<close>

fun depth :: "J \<Rightarrow> nat" where
  "depth (JA vs) = Suc (sum_list (map (\<lambda>v. Suc (depth v)) vs))"
| "depth (JO ps) = Suc (sum_list (map (\<lambda>(k, v). Suc (depth v)) ps))"
| "depth _ = 1"

lemma J_induct [case_names JN JB JI JS JA JO]:
  assumes "P JN" "\<And>b. P (JB b)" "\<And>v. P (JI v)" "\<And>s. P (JS s)"
    and "\<And>vs. (\<And>v. v \<in> set vs \<Longrightarrow> P v) \<Longrightarrow> P (JA vs)"
    and "\<And>ps. (\<And>k v. (k, v) \<in> set ps \<Longrightarrow> P v) \<Longrightarrow> P (JO ps)"
  shows "P v"
proof (induction v)
  case (JO ps)
  then show ?case using assms(6) by (metis prod_set_simps(2) singletonI snds.intros snd_conv)
qed (use assms in auto)

definition starts_ok :: "string \<Rightarrow> bool" where
  "starts_ok s \<longleftrightarrow> s \<noteq> [] \<and> \<not> is_space (hd s) \<and> hd s \<noteq> CHR '']'' \<and> hd s \<noteq> CHR ''}''"

lemma to_string_starts: "starts_ok (to_string v)"
proof -
  have d: "is_digit c \<Longrightarrow> \<not> is_space c \<and> c \<noteq> CHR '']'' \<and> c \<noteq> CHR ''}''" for c
    by (auto simp: is_space_def is_digit_def)
  have "is_digit (hd (show_nat n))" for n using show_nat_is_digit [of "hd (show_nat n)" n] by simp
  from d [OF this] show ?thesis by (auto simp: starts_ok_def to_string_def is_space_def)
qed

lemma print_starts: "starts_ok (print_J v)"
  by (cases v) (auto simp: to_string_starts, auto simp: starts_ok_def is_space_def print_string_def quote_def)

lemma WS_starts [simp]: "starts_ok s \<Longrightarrow> WS (p, s @ cs) = (p, s @ cs)"
  by (cases s) (auto simp: starts_ok_def)

lemma WS_sep [simp]: "sep cs \<Longrightarrow> WS (p, cs) = (p, cs)"
  by (cases cs) (auto simp: sep_def is_space_def)

text \<open>A value that the parser reads back, whatever separator follows.\<close>

definition read_back :: "J \<Rightarrow> bool" where
  "read_back v \<longleftrightarrow> (\<forall>n p cs. depth v \<le> n \<longrightarrow> sep cs \<longrightarrow>
     V n (p, print_J v @ cs) = Inr (v, (p + length (print_J v), cs)))"

lemma read_backD: "read_back v \<Longrightarrow> depth v \<le> n \<Longrightarrow> sep cs \<Longrightarrow>
    V n (p, print_J v @ cs) = Inr (v, (p + length (print_J v), cs))"
  by (simp add: read_back_def)

lemma not_space [simp]: "\<not> is_space (CHR '','')" "\<not> is_space (CHR '']'')" "\<not> is_space (CHR ''}'')"
  "\<not> is_space (CHR '':'')" "\<not> is_space (CHR ''['')" "\<not> is_space (CHR ''{'')"
  by (simp_all add: is_space_def)

lemma sep_simps [simp]: "sep (CHR '','' # cs)" "sep (CHR '']'' # cs)" "sep (CHR ''}'' # cs)" "sep []"
  by (simp_all add: sep_def)

lemma Arr_loop_print:
  assumes "\<And>v. v \<in> set vs \<Longrightarrow> read_back v" "vs \<noteq> []"
    and "sum_list (map (\<lambda>v. Suc (depth v)) vs) \<le> n"
  shows "Arr_loop n a_acc (p, join_with '','' (map print_J vs) @ CHR '']'' # cs) =
    Inr (JA (a_acc @ vs), (p + length (join_with '','' (map print_J vs)) + 1, cs))"
  using assms
proof (induction vs arbitrary: a_acc p n)
  case (Cons v vs)
  then obtain m where n: "n = Suc m" "depth v \<le> m" "sum_list (map (\<lambda>v. Suc (depth v)) vs) \<le> m"
    by (cases n) auto
  have v: "read_back v" using Cons.prems by simp
  show ?case
  proof (cases vs)
    case Nil
    then show ?thesis using n read_backD [OF v n(2)] by (simp del: V.simps)
  next
    case (Cons w ws)
    have "starts_ok (join_with '','' (map print_J vs))"
      using print_starts [of w] Cons by (cases ws) (auto simp: starts_ok_def)
    then show ?thesis
      using n read_backD [OF v n(2)] Cons
        Cons.IH [of m "a_acc @ [v]" "p + length (print_J v) + 1"] Cons.prems
      by (simp del: V.simps)
  qed
qed simp

lemma print_pair_starts: "starts_ok (print_pair kv)"
  by (cases kv) (simp add: starts_ok_def print_string_def quote_def is_space_def)

lemma Obj_loop_print:
  assumes "\<And>k v. (k, v) \<in> set ps \<Longrightarrow> read_back v" "ps \<noteq> []" "distinct (map fst (o_acc @ ps))"
    and "sum_list (map (\<lambda>(k, v). Suc (depth v)) ps) \<le> n"
  shows "Obj_loop n o_acc (p, join_with '','' (map print_pair ps) @ CHR ''}'' # cs) =
    Inr (JO (o_acc @ ps), (p + length (join_with '','' (map print_pair ps)) + 1, cs))"
  using assms
proof (induction ps arbitrary: o_acc p n)
  case (Cons kv ps)
  obtain k v where kv: "kv = (k, v)" by (cases kv)
  with Cons.prems(4) obtain m where n: "n = Suc m" "depth v \<le> m"
    "sum_list (map (\<lambda>(k, v). Suc (depth v)) ps) \<le> m"
    by (cases n) auto
  have v: "read_back v" using Cons.prems(1) [of k v] kv by simp
  have k: "k \<notin> fst ` set o_acc" using Cons.prems(3) kv by auto
  have rb: "\<And>k v. (k, v) \<in> set ps \<Longrightarrow> read_back v" using Cons.prems(1) by auto
  have key: "Str (p, print_string k @ CHR '':'' # cs) = Inr (k, (p + length (print_string k), CHR '':'' # cs))"
    for p cs by (rule Str_print)
  have colon: "WS (q, CHR '':'' # cs) = (q, CHR '':'' # cs)" for q cs by (simp add: is_space_def)
  show ?case
  proof (cases ps)
    case Nil
    then show ?thesis using n kv k read_backD [OF v n(2)] by (simp add: key colon del: V.simps WS.simps)
  next
    case (Cons w ws)
    have "starts_ok (join_with '','' (map print_pair ps))"
      using print_pair_starts [of w] Cons by (cases ws) (auto simp: starts_ok_def)
    then show ?thesis
      using n kv k read_backD [OF v n(2)] Cons
        Cons.IH [where o_acc = "o_acc @ [(k, v)]" and n = m
          and p = "p + length (print_pair (k, v)) + 1", OF rb] Cons.prems(3)
      by (simp add: key colon add_ac del: V.simps WS.simps)
  qed
qed simp

lemma V_print: "json_ok v \<Longrightarrow> read_back v"
proof (induction v rule: J_induct)
  case (JI v)
  have "V n (p, to_string v @ cs) = Inr (JI v, (p + length (to_string v), cs))"
    if pos: "1 \<le> n" and "sep cs" for n p cs
  proof -
    obtain m where n: "n = Suc m" using pos by (cases n) auto
    have "starts_ok (to_string v)" by (rule to_string_starts)
    moreover have "Peek (p, to_string v @ cs) = CHR ''-'' \<or> is_digit (Peek (p, to_string v @ cs))"
      using show_nat_is_digit [of "hd (show_nat (nat v))" "nat v"]
      by (cases "show_nat (nat v)") (auto simp: to_string_def)
    moreover have "c \<noteq> CHR ''{'' \<and> c \<noteq> CHR ''['' \<and> c \<noteq> quote \<and> c \<noteq> CHR ''t'' \<and> c \<noteq> CHR ''f'' \<and> c \<noteq> CHR ''n''"
      if "c = CHR ''-'' \<or> is_digit c" for c
      using that by (auto simp: is_digit_def quote_def)
    ultimately show ?thesis using Num_print [OF that(2)] JI n by (simp add: Let_def)
  qed
  then show ?case by (simp add: read_back_def)
next
  case (JA vs)
  then have rb: "\<And>v. v \<in> set vs \<Longrightarrow> read_back v" by (auto simp: list_all_iff)
  show ?case unfolding read_back_def
  proof (intro allI impI)
    fix n p cs assume n: "depth (JA vs) \<le> n" and "sep cs"
    then obtain m where m: "n = Suc m" by (cases n) auto
    show "V n (p, print_J (JA vs) @ cs) = Inr (JA vs, (p + length (print_J (JA vs)), cs))"
    proof (cases "vs = []")
      case True
      then show ?thesis by (simp add: m Let_def is_space_def)
    next
      case False
      have s: "starts_ok (join_with '','' (map print_J vs))"
        using False print_starts [of "hd vs"] by (cases vs; cases "tl vs") (auto simp: starts_ok_def)
      then have "Peek (Suc p, join_with '','' (map print_J vs) @ CHR '']'' # cs) \<noteq> CHR '']''"
        by (cases "join_with '','' (map print_J vs)") (auto simp: starts_ok_def)
      then show ?thesis using s Arr_loop_print [OF rb False, of m "[]" "Suc p" cs] n m
        by (simp add: Let_def is_space_def)
    qed
  qed
next
  case (JO ps)
  then have rb: "\<And>k v. (k, v) \<in> set ps \<Longrightarrow> read_back v" by (auto simp: list_all_iff)
  show ?case unfolding read_back_def
  proof (intro allI impI)
    fix n p cs assume n: "depth (JO ps) \<le> n" and "sep cs"
    then obtain m where m: "n = Suc m" by (cases n) auto
    show "V n (p, print_J (JO ps) @ cs) = Inr (JO ps, (p + length (print_J (JO ps)), cs))"
    proof (cases "ps = []")
      case True
      then show ?thesis by (simp add: m Let_def is_space_def)
    next
      case False
      have s: "starts_ok (join_with '','' (map print_pair ps))"
        using False print_pair_starts [of "hd ps"] by (cases ps; cases "tl ps") (auto simp: starts_ok_def)
      then have "Peek (Suc p, join_with '','' (map print_pair ps) @ CHR ''}'' # cs) \<noteq> CHR ''}''"
        by (cases "join_with '','' (map print_pair ps)") (auto simp: starts_ok_def)
      then show ?thesis using s Obj_loop_print [where o_acc = "[]" and n = m and p = "Suc p" and cs = cs, OF rb False] n m JO.prems
        by (simp add: Let_def is_space_def)
    qed
  qed
next
  case (JS s)
  have "V n (p, print_string s @ cs) = Inr (JS s, (p + length (print_string s), cs))"
    if pos: "1 \<le> n" for n p cs
  proof -
    obtain m where n: "n = Suc m" using pos by (cases n) auto
    have "WS (p, print_string s @ cs) = (p, print_string s @ cs)" "Peek (p, print_string s @ cs) = quote"
      by (simp_all add: print_string_def is_space_def quote_def)
    then show ?thesis using n Str_print by (simp add: Let_def quote_def)
  qed
  then show ?case by (simp add: read_back_def)
next
  case (JB b)
  show ?case unfolding read_back_def
    by (auto simp: Let_def is_space_def quote_def Lit.simps not_less_eq_eq Suc_le_eq gr0_conv_Suc split: if_splits)
next
  case JN
  show ?case unfolding read_back_def
    by (auto simp: Let_def is_space_def quote_def Lit.simps Suc_le_eq gr0_conv_Suc split: if_splits)
qed

section \<open>The bound of the parser is enough for a printed value\<close>

lemma length_join_with:
  "xs \<noteq> [] \<Longrightarrow> length (join_with [c] xs) = sum_list (map length xs) + length xs - 1"
  by (induction "[c]" xs rule: join_with.induct) auto

lemma depth_bound: "depth v \<le> 2 * length (print_J v)"
proof (induction v rule: J_induct)
  case (JA vs)
  have "sum_list (map (\<lambda>v. Suc (depth v)) vs) \<le> 2 * sum_list (map (length \<circ> print_J) vs) + length vs"
    using JA by (induction vs) (fastforce, force)
  then show ?case
    by (cases "vs = []") (auto simp: length_join_with)
next
  case (JO ps)
  have "sum_list (map (\<lambda>(k, v). Suc (depth v)) ps) \<le> 2 * sum_list (map (length \<circ> print_pair) ps) + length ps"
    using JO by (induction ps) (fastforce, force)
  then show ?case
    by (cases "ps = []") (auto simp: length_join_with)
qed (auto simp: to_string_def print_string_def Suc_le_eq)

text \<open>The parser reads back every value the writer prints.\<close>

lemma Parse_print: "json_ok v \<Longrightarrow> Parse (print_J v) = Inr v"
proof -
  assume "json_ok v"
  then have rb: "read_back v" by (rule V_print)
  have "WS (0, print_J v) = (0, print_J v)" using WS_starts [OF print_starts, of 0 v "[]"] by simp
  moreover have "V (2 * length (print_J v) + 2) (0, print_J v @ []) =
      Inr (v, (0 + length (print_J v), []))"
    by (rule read_backD [OF rb]) (use depth_bound [of v] in simp_all)
  ultimately show ?thesis by (simp add: Parse_def Let_def del: V.simps)
qed

end
