(* ===== verification/Pass_Context.thy ===== *)
theory Pass_Context
  imports Relay_InferProofs
begin

text \<open>
  The placement pass of \<^verbatim>\<open>src/base/pass.cc\<close>: the context of a Relay graph, with a placement of its
  virtual devices. The contexts themselves are in \<open>Pass_Base\<close>, those of a graph in \<open>Relay_Visit\<close>.
\<close>

definition BuildDiscoPlacementPass ::
  "device_api \<Rightarrow> 's RelayState_scheme \<Rightarrow> 'd rexpr \<Rightarrow> PassContext res" where
  "BuildDiscoPlacementPass api st e =
     sbind (FromRelay api st e) (\<lambda>pass_ctx.
       if pc_disco pass_ctx \<noteq> None then Inr pass_ctx
       else sbind (BuildDiscoPlacement api (pc_virtual_devices pass_ctx) 1) (\<lambda>placement.
         Inr (WithDiscoPlacement pass_ctx (Some placement))))"

end
