(* ===== verification/Exec_Plan.thy ===== *)
theory Exec_Plan
  imports Plan_Print Pass_Context TIR_IR
begin

text \<open>
  Execution plans and their JSON form: the rest of \<^verbatim>\<open>src/base/execution_plan.cc\<close> and
  \<^verbatim>\<open>include/base/execution_plan.h\<close>. A reader allocates the virtual devices it creates at
  the addresses \<open>p\<close>, \<open>p + 1\<close>, ... and returns the next free one.
\<close>

section \<open>Plans\<close>

text \<open>
  \<open>OtherObject\<close> is an object that is no execution node. \<open>'d\<close> is the type of the floating-point
  constants of a \<^verbatim>\<open>PrimFunc\<close>.
\<close>

datatype 'd ExecNode =
    KernelExec string "'d PrimFunc option" "int list" "int list" "int list" string
  | CommExec string Attrs "int list" "int list" "int list"
  | BarrierExec string "int list"
  | OtherObject nat

record 'd ExecutionPlan =
  ep_nodes :: "'d ExecNode option list"
  value_virtual_devices :: "(int \<times> VirtualDevice option) list"
  input_value_ids :: "int list"
  constant_value_ids :: "int list"
  value_shapes :: "(int \<times> int list) list"
  value_dtypes :: "(int \<times> string) list"
  num_values :: int
  ep_pass_ctx :: PassContext
  output_value :: int

definition ExecutionPlanToString :: "'d ExecutionPlan option \<Rightarrow> string" where
  "ExecutionPlanToString plan =
     (case plan of
        None \<Rightarrow> ''ExecutionPlan(undefined)''
      | Some n \<Rightarrow> ''ExecutionPlan(nodes='' @ show_nat (length (ep_nodes n)) @
          '', values='' @ to_string (num_values n) @
          '', inputs='' @ show_nat (length (input_value_ids n)) @
          '', constants='' @ show_nat (length (constant_value_ids n)) @
          '', output='' @ to_string (output_value n) @ '')'')"

definition IsCommunicationOpName :: "string \<Rightarrow> bool" where
  "IsCommunicationOpName op_name = prefix ''device.'' op_name"

section \<open>The writer\<close>

text \<open>The name of a field, quoted and followed by a colon.\<close>

definition name_of :: "string \<Rightarrow> string" where
  "name_of k = quote # k @ [quote, CHR '':'']"

definition WI :: "int list \<Rightarrow> string" where
  "WI arr = ''['' @ join_with '','' (map to_string arr) @ '']''"

definition WI64 :: "int list \<Rightarrow> string" where
  "WI64 arr = ''['' @ join_with '','' (map to_string arr) @ '']''"

definition WB :: "bool \<Rightarrow> string" where
  "WB b = (if b then ''true'' else ''false'')"

definition WriteDeviceObj :: "Device option \<Rightarrow> string" where
  "WriteDeviceObj dev =
     (case dev of
        None \<Rightarrow> ''null''
      | Some d \<Rightarrow> ''{'' @ name_of ''device_type'' @ to_string (dev_type d) @ '','' @
          name_of ''device_id'' @ to_string (dev_id d) @ ''}'')"

definition WriteTargetObj :: "Target option \<Rightarrow> string" where
  "WriteTargetObj target =
     (case target of
        None \<Rightarrow> ''null''
      | Some t \<Rightarrow> ''{'' @
          name_of ''kind'' @ [quote] @ Esc (tgt_kind t) @ [quote] @ '','' @
          name_of ''device_type'' @ to_string (tgt_device_type t) @ '','' @
          name_of ''device_id'' @ to_string (tgt_device_id t) @ '','' @
          name_of ''attrs'' @ ''{'' @
          name_of ''arch'' @ [quote] @ Esc (da_arch (tgt_attrs t)) @ [quote] @ '','' @
          name_of ''compute_version'' @ [quote] @ Esc (da_compute_version (tgt_attrs t)) @ [quote] @ '','' @
          name_of ''max_threads_per_block'' @ to_string (da_max_threads_per_block (tgt_attrs t)) @ '','' @
          name_of ''warp_size'' @ to_string (da_warp_size (tgt_attrs t)) @ '','' @
          name_of ''max_shared_memory_per_block'' @
            to_string (da_max_shared_memory_per_block (tgt_attrs t)) @ ''}}'')"

definition WriteVD :: "VirtualDevice option \<Rightarrow> string" where
  "WriteVD vd_ref =
     (case vd_ref of
        None \<Rightarrow> ''null''
      | Some vd \<Rightarrow> ''{'' @
          name_of ''virtual_device_id'' @ to_string (vd_id vd) @ '','' @
          name_of ''memory_scope'' @ [quote] @ Esc (vd_memory_scope vd) @ [quote] @ '','' @
          name_of ''device'' @ WriteDeviceObj (vd_device_obj vd) @ '','' @
          name_of ''target'' @ WriteTargetObj (vd_target vd) @ ''}'')"

text \<open>
  The workers sorted by number, the undefined ones last. Workers of equal number keep their
  order here, which \<^verbatim>\<open>std::sort\<close> leaves open.
\<close>

definition sorted_workers :: "WorkerPlacement option list \<Rightarrow> WorkerPlacement option list" where
  "sorted_workers ws =
     map Some (sort_key worker_id (List.map_filter id ws)) @ filter (\<lambda>w. w = None) ws"

definition WriteWorker :: "WorkerPlacement option \<Rightarrow> string" where
  "WriteWorker worker =
     (case worker of
        None \<Rightarrow> ''null''
      | Some w \<Rightarrow> ''{'' @
          name_of ''worker_id'' @ to_string (worker_id w) @ '','' @
          name_of ''group_id'' @ to_string (group_id w) @ '','' @
          name_of ''local_rank'' @ to_string (local_rank w) @ '','' @
          name_of ''device'' @ WriteDeviceObj (wp_device w) @ '','' @
          name_of ''target'' @ WriteTargetObj (wp_target w) @ '','' @
          name_of ''virtual_device'' @ WriteVD (wp_virtual_device w) @ ''}'')"

definition WritePlacement :: "PassContext \<Rightarrow> string" where
  "WritePlacement pass_ctx =
     (case pc_disco pass_ctx of
        None \<Rightarrow> ''null''
      | Some p \<Rightarrow> ''{'' @
          name_of ''num_groups'' @ to_string (num_groups p) @ '','' @
          name_of ''workers'' @ ''['' @
          join_with '','' (map WriteWorker (sorted_workers (placement_workers p))) @ '']}'')"

definition WriteCommAttrs :: "Attrs \<Rightarrow> string" where
  "WriteCommAttrs a =
     (case a of
        ADeviceCopy src dst asyn in_group \<Rightarrow> ''{'' @
          name_of ''src_virtual_device'' @ WriteVD src @ '','' @
          name_of ''dst_virtual_device'' @ WriteVD dst @ '','' @
          name_of ''async'' @ WB asyn @ '','' @
          name_of ''in_group'' @ WB in_group @ ''}''
      | ACollective kind reduce_kind in_group g_id root_worker \<Rightarrow> ''{'' @
          name_of ''kind'' @ [quote] @ Esc kind @ [quote] @ '','' @
          name_of ''reduce_kind'' @ [quote] @ Esc reduce_kind @ [quote] @ '','' @
          name_of ''in_group'' @ WB in_group @ '','' @
          name_of ''group_id'' @ to_string g_id @ '','' @
          name_of ''root_worker'' @ to_string root_worker @ ''}''
      | _ \<Rightarrow> ''null'')"

definition SortedIds :: "(int \<times> 'a) list \<Rightarrow> int list" where
  "SortedIds m = sort (map fst m)"

definition SortedInfoIds :: "(int \<times> 'a) list \<Rightarrow> (int \<times> 'b) list \<Rightarrow> int list" where
  "SortedInfoIds shapes dtypes = sort (remdups (map fst shapes @ map fst dtypes))"

definition WriteNode :: "'d ExecNode option \<Rightarrow> string res" where
  "WriteNode node =
     (case node of
        None \<Rightarrow> Inr ''null''
      | Some (KernelExec op_name primfunc ins outs workers kernel_symbol) \<Rightarrow> Inr (''{'' @
          name_of ''kind'' @ print_string ''kernel'' @ '','' @
          name_of ''input_values'' @ WI ins @ '','' @
          name_of ''output_values'' @ WI outs @ '','' @
          name_of ''worker_set'' @ WI workers @ '','' @
          name_of ''op_name'' @ [quote] @ Esc op_name @ [quote] @ '','' @
          name_of ''kernel_symbol'' @ [quote] @ Esc kernel_symbol @ [quote] @ ''}'')
      | Some (CommExec op_name a ins outs workers) \<Rightarrow> Inr (''{'' @
          name_of ''kind'' @ print_string ''comm'' @ '','' @
          name_of ''input_values'' @ WI ins @ '','' @
          name_of ''output_values'' @ WI outs @ '','' @
          name_of ''worker_set'' @ WI workers @ '','' @
          name_of ''op_name'' @ [quote] @ Esc op_name @ [quote] @ '','' @
          name_of ''attrs'' @ WriteCommAttrs a @ ''}'')
      | Some (BarrierExec tag workers) \<Rightarrow> Inr (''{'' @
          name_of ''kind'' @ print_string ''barrier'' @ '','' @
          name_of ''input_values'' @ ''[],'' @ name_of ''output_values'' @ ''[],'' @
          name_of ''worker_set'' @ WI workers @ '','' @
          name_of ''tag'' @ [quote] @ Esc tag @ [quote] @ ''}'')
      | Some (OtherObject _) \<Rightarrow>
          throw ''SerializeExecutionPlanToJson encountered unknown node type'')"

text \<open>The value of a key that is present.\<close>

definition the_at :: "(int \<times> 'a) list \<Rightarrow> int \<Rightarrow> 'a" where
  "the_at m k = the (map_of m k)"

definition WriteValueVD :: "(int \<times> VirtualDevice option) list \<Rightarrow> int \<Rightarrow> string" where
  "WriteValueVD m i =
     ''{'' @ name_of ''value_id'' @ to_string i @ '','' @
     name_of ''virtual_device'' @ WriteVD (the_at m i) @ ''}''"

definition WriteInfo ::
  "(int \<times> int list) list \<Rightarrow> (int \<times> string) list \<Rightarrow> int \<Rightarrow> string" where
  "WriteInfo shapes dtypes i =
     ''{'' @ name_of ''value_id'' @ to_string i @ '','' @
     name_of ''shape'' @ (case map_of shapes i of Some s \<Rightarrow> WI64 s | None \<Rightarrow> ''[]'') @ '','' @
     name_of ''dtype'' @ [quote] @
       Esc (case map_of dtypes i of Some d \<Rightarrow> d | None \<Rightarrow> '''') @ [quote] @ ''}''"

definition SerializeExecutionPlanToJson :: "'d ExecutionPlan option \<Rightarrow> string res" where
  "SerializeExecutionPlanToJson plan_ref =
     (case plan_ref of
        None \<Rightarrow> throw ''SerializeExecutionPlanToJson requires a defined ExecutionPlan''
      | Some plan \<Rightarrow>
          sbind (smap WriteNode (ep_nodes plan)) (\<lambda>nodes.
          Inr (''{'' @
            name_of ''schema_version'' @ ''1,'' @
            name_of ''num_values'' @ to_string (num_values plan) @ '','' @
            name_of ''output_value'' @ to_string (output_value plan) @ '','' @
            name_of ''nodes'' @ ''['' @ join_with '','' nodes @ ''],'' @
            name_of ''value_virtual_devices'' @ ''['' @
              join_with '','' (map (WriteValueVD (value_virtual_devices plan))
                (SortedIds (value_virtual_devices plan))) @ ''],'' @
            name_of ''input_value_ids'' @ WI (input_value_ids plan) @ '','' @
            name_of ''constant_value_ids'' @ WI (constant_value_ids plan) @ '','' @
            name_of ''value_info'' @ ''['' @
              join_with '','' (map (WriteInfo (value_shapes plan) (value_dtypes plan))
                (SortedInfoIds (value_shapes plan) (value_dtypes plan))) @ ''],'' @
            name_of ''disco_placement'' @ WritePlacement (ep_pass_ctx plan) @ '','' @
            name_of ''reserved'' @ ''{}'' @ ''}'')))"

section \<open>The reader\<close>

definition ParseDeviceObj :: "J \<Rightarrow> string \<Rightarrow> Device option res" where
  "ParseDeviceObj j ctx =
     (if J_kind j = 0 then Inr None
      else
        sbind (RK j 5 ctx) (\<lambda>_.
        sbind (sbind (RF j ''device_type'' ctx) (\<lambda>v. RI v (ctx @ ''.device_type''))) (\<lambda>t.
        sbind (sbind (RF j ''device_id'' ctx) (\<lambda>v. RI v (ctx @ ''.device_id''))) (\<lambda>i.
        Inr (Some \<lparr>dev_type = t, dev_id = i\<rparr>)))))"

definition ParseTargetAttrs :: "J \<Rightarrow> string \<Rightarrow> DeviceAttributes res" where
  "ParseTargetAttrs j ctx =
     (case FF j ''attrs'' of
        None \<Rightarrow> Inr default_attributes
      | Some a \<Rightarrow>
          if J_kind a = 0 then Inr default_attributes
          else
            sbind (RK a 5 (ctx @ ''.attrs'')) (\<lambda>_.
            sbind (OS a ''arch'' '''' (ctx @ ''.attrs'')) (\<lambda>arch.
            sbind (OS a ''compute_version'' ''0.0'' (ctx @ ''.attrs'')) (\<lambda>ver.
            sbind (OI a ''max_threads_per_block'' 1 (ctx @ ''.attrs'')) (\<lambda>threads.
            sbind (OI a ''warp_size'' 1 (ctx @ ''.attrs'')) (\<lambda>warp.
            sbind (OI a ''max_shared_memory_per_block'' 0 (ctx @ ''.attrs'')) (\<lambda>mem.
            Inr (default_attributes\<lparr>da_arch := arch, da_compute_version := ver,
              da_max_threads_per_block := threads, da_warp_size := warp,
              da_max_shared_memory_per_block := mem\<rparr>))))))))"

definition ParseTargetObj :: "J \<Rightarrow> string \<Rightarrow> Target option res" where
  "ParseTargetObj j ctx =
     (if J_kind j = 0 then Inr None
      else
        sbind (RK j 5 ctx) (\<lambda>_.
        sbind (OS j ''kind'' '''' ctx) (\<lambda>kind.
        sbind (OI j ''device_type'' kUnknown ctx) (\<lambda>t.
        sbind (OI j ''device_id'' (-1) ctx) (\<lambda>i.
        sbind (ParseTargetAttrs j ctx) (\<lambda>ats.
        Inr (Some \<lparr>tgt_kind = kind, tgt_device_type = t, tgt_device_id = i,
          tgt_attrs = ats\<rparr>)))))))"

text \<open>An optional field read by \<open>read\<close>, which itself treats null.\<close>

definition field_or_none ::
  "(J \<Rightarrow> string \<Rightarrow> 'a option res) \<Rightarrow> J \<Rightarrow> string \<Rightarrow> string \<Rightarrow> 'a option res" where
  "field_or_none read j key ctx =
     (case FF j key of None \<Rightarrow> Inr None | Some v \<Rightarrow> read v (ctx @ ''.'' @ key))"

definition ParseVD :: "J \<Rightarrow> string \<Rightarrow> nat \<Rightarrow> (VirtualDevice option \<times> nat) res" where
  "ParseVD j ctx p =
     (if J_kind j = 0 then Inr (None, p)
      else
        sbind (RK j 5 ctx) (\<lambda>_.
        sbind (OS j ''memory_scope'' '''' ctx) (\<lambda>scope.
        sbind (OI j ''virtual_device_id'' kInvalidVirtualDeviceId ctx) (\<lambda>vid.
        sbind (field_or_none ParseDeviceObj j ''device'' ctx) (\<lambda>dev.
        sbind (field_or_none ParseTargetObj j ''target'' ctx) (\<lambda>target.
        case dev of
          Some d \<Rightarrow> sbind (VirtualDevice_device p d target scope vid) (\<lambda>vd. Inr (Some vd, Suc p))
        | None \<Rightarrow> Inr (Some (VirtualDevice_target p target scope vid), Suc p)))))))"

definition vd_field_or_none ::
  "J \<Rightarrow> string \<Rightarrow> string \<Rightarrow> nat \<Rightarrow> (VirtualDevice option \<times> nat) res" where
  "vd_field_or_none j key ctx p =
     (case FF j key of None \<Rightarrow> Inr (None, p) | Some v \<Rightarrow> ParseVD v (ctx @ ''.'' @ key) p)"

text \<open>The device of a worker whose field is absent is made of its device or target.\<close>

definition worker_vd ::
  "J \<Rightarrow> Device option \<Rightarrow> Target option \<Rightarrow> string \<Rightarrow> nat \<Rightarrow> (VirtualDevice option \<times> nat) res" where
  "worker_vd item dev target wctx p =
     (case FF item ''virtual_device'' of
        Some v \<Rightarrow> ParseVD v (wctx @ ''.virtual_device'') p
      | None \<Rightarrow>
          (case (dev, target) of
             (Some d, _) \<Rightarrow>
               sbind (VirtualDevice_device p d target '''' kInvalidVirtualDeviceId) (\<lambda>vd.
                 Inr (Some vd, Suc p))
           | (None, Some _) \<Rightarrow>
               Inr (Some (VirtualDevice_target p target '''' kInvalidVirtualDeviceId), Suc p)
           | (None, None) \<Rightarrow> Inr (None, p)))"

text \<open>One worker: the workers and the table so far, and the next address.\<close>

type_synonym placement_state = "WorkerPlacement option list \<times> (nat \<times> int) list \<times> nat"

definition ParseWorker ::
  "string \<Rightarrow> nat \<times> J \<Rightarrow> placement_state \<Rightarrow> placement_state res" where
  "ParseWorker ctx = (\<lambda>(i, item) (ws, table, p).
     let wctx = index_ctx (ctx @ ''.workers'') i in
     sbind (RK item 5 wctx) (\<lambda>_.
     sbind (sbind (RF item ''worker_id'' wctx) (\<lambda>v. RI v (wctx @ ''.worker_id''))) (\<lambda>wid.
     sbind (OI item ''group_id'' 0 wctx) (\<lambda>gid.
     sbind (OI item ''local_rank'' wid wctx) (\<lambda>rank.
     sbind (field_or_none ParseDeviceObj item ''device'' wctx) (\<lambda>dev.
     sbind (field_or_none ParseTargetObj item ''target'' wctx) (\<lambda>target.
     sbind (worker_vd item dev target wctx p) (\<lambda>(vd, p).
     Inr (ws @ [Some \<lparr>worker_id = wid, group_id = gid, local_rank = rank, wp_device = dev,
                      wp_target = target, wp_virtual_device = vd\<rparr>],
          (case vd of Some v \<Rightarrow> AList.update (vd_ptr v) wid table | None \<Rightarrow> table), p)))))))))"

definition ParsePlacement :: "J \<Rightarrow> string \<Rightarrow> nat \<Rightarrow> (DiscoPlacement option \<times> nat) res" where
  "ParsePlacement j ctx p =
     (if J_kind j = 0 then Inr (None, p)
      else
        sbind (RK j 5 ctx) (\<lambda>_.
        sbind (OI j ''num_groups'' 1 ctx) (\<lambda>groups.
        sbind (RF j ''workers'' ctx) (\<lambda>workers.
        sbind (RK workers 4 (ctx @ ''.workers'')) (\<lambda>_.
        sbind (sfold (ParseWorker ctx) (enumerate 0 (items workers)) ([], [], p)) (\<lambda>(ws, table, p).
        Inr (Some (DiscoPlacement_new ws table groups), p)))))))"

definition ParseCommAttrs ::
  "string \<Rightarrow> J option \<Rightarrow> string \<Rightarrow> nat \<Rightarrow> (Attrs \<times> nat) res" where
  "ParseCommAttrs op_name ats ctx p =
     (let absent = (case ats of None \<Rightarrow> True | Some j \<Rightarrow> J_kind j = 0);
          j = (case ats of None \<Rightarrow> JN | Some a \<Rightarrow> a) in
      if op_name = ''device.copy'' then
        if absent then Inr (ADeviceCopy None None False True, p)
        else
          sbind (RK j 5 ctx) (\<lambda>_.
          sbind (vd_field_or_none j ''src_virtual_device'' ctx p) (\<lambda>(src, p).
          sbind (vd_field_or_none j ''dst_virtual_device'' ctx p) (\<lambda>(dst, p).
          sbind (OB j ''async'' False ctx) (\<lambda>asyn.
          sbind (OB j ''in_group'' True ctx) (\<lambda>in_group.
          Inr (ADeviceCopy src dst asyn in_group, p))))))
      else if absent then Inr (ACollective op_name ''sum'' True 0 0, p)
      else
        sbind (RK j 5 ctx) (\<lambda>_.
        sbind (OS j ''kind'' op_name ctx) (\<lambda>kind.
        sbind (OS j ''reduce_kind'' ''sum'' ctx) (\<lambda>reduce_kind.
        sbind (OB j ''in_group'' True ctx) (\<lambda>in_group.
        sbind (OI j ''group_id'' 0 ctx) (\<lambda>g_id.
        sbind (OI j ''root_worker'' 0 ctx) (\<lambda>root_worker.
        Inr (ACollective kind reduce_kind in_group g_id root_worker, p))))))))"

text \<open>One element of the nodes: null is skipped.\<close>

definition required :: "(J \<Rightarrow> string \<Rightarrow> 'a res) \<Rightarrow> J \<Rightarrow> string \<Rightarrow> string \<Rightarrow> 'a res" where
  "required read j key ctx = sbind (RF j key ctx) (\<lambda>v. read v (ctx @ ''.'' @ key))"

definition ParseNode ::
  "nat \<times> J \<Rightarrow> 'd ExecNode option list \<times> nat \<Rightarrow> ('d ExecNode option list \<times> nat) res" where
  "ParseNode = (\<lambda>(i, n) (nodes, p).
     if J_kind n = 0 then Inr (nodes, p)
     else
       let ctx = index_ctx ''root.nodes'' i in
       sbind (RK n 5 ctx) (\<lambda>_.
       sbind (required RS n ''kind'' ctx) (\<lambda>kind.
       sbind (required AI n ''input_values'' ctx) (\<lambda>ins.
       sbind (required AI n ''output_values'' ctx) (\<lambda>outs.
       sbind (required AI n ''worker_set'' ctx) (\<lambda>workers.
       if kind = ''kernel'' then
         sbind (required RS n ''op_name'' ctx) (\<lambda>op_name.
         sbind (OS n ''kernel_symbol'' '''' ctx) (\<lambda>kernel_symbol.
         Inr (nodes @ [Some (KernelExec op_name None ins outs workers kernel_symbol)], p)))
       else if kind = ''comm'' then
         sbind (required RS n ''op_name'' ctx) (\<lambda>op_name.
         sbind (ParseCommAttrs op_name (FF n ''attrs'') (ctx @ ''.attrs'') p) (\<lambda>(ats, p).
         Inr (nodes @ [Some (CommExec op_name ats ins outs workers)], p)))
       else if kind = ''barrier'' then
         sbind (required RS n ''tag'' ctx) (\<lambda>tag.
         Inr (nodes @ [Some (BarrierExec tag workers)], p))
       else throw (''Unsupported node kind in ExecutionPlan JSON: '' @ kind)))))))"

definition ParseValueVD ::
  "nat \<times> J \<Rightarrow> (int \<times> VirtualDevice option) list \<times> nat \<Rightarrow>
     ((int \<times> VirtualDevice option) list \<times> nat) res" where
  "ParseValueVD = (\<lambda>(i, item) (m, p).
     let ctx = index_ctx ''root.value_virtual_devices'' i in
     sbind (RK item 5 ctx) (\<lambda>_.
     sbind (required RI item ''value_id'' ctx) (\<lambda>k.
     sbind (RF item ''virtual_device'' ctx) (\<lambda>v.
     sbind (ParseVD v (ctx @ ''.virtual_device'') p) (\<lambda>(vd, p).
     Inr (if vd \<noteq> None then AList.update k vd m else m, p))))))"

definition ParseInfo ::
  "nat \<times> J \<Rightarrow> (int \<times> int list) list \<times> (int \<times> string) list \<Rightarrow>
     ((int \<times> int list) list \<times> (int \<times> string) list) res" where
  "ParseInfo = (\<lambda>(i, item) (shapes, dtypes).
     let ctx = index_ctx ''root.value_info'' i in
     sbind (RK item 5 ctx) (\<lambda>_.
     sbind (required RI item ''value_id'' ctx) (\<lambda>k.
     sbind (required AI64 item ''shape'' ctx) (\<lambda>shape.
     sbind (required RS item ''dtype'' ctx) (\<lambda>dt.
     Inr (AList.update k shape shapes, AList.update k dt dtypes))))))"

text \<open>The elements of a required array of the top-level object.\<close>

definition array_of :: "J \<Rightarrow> string \<Rightarrow> (nat \<times> J) list res" where
  "array_of top_j key =
     sbind (RF top_j key ''root'') (\<lambda>v.
     sbind (RK v 4 (''root.'' @ key)) (\<lambda>_. Inr (enumerate 0 (items v))))"

definition plan_of_J :: "J \<Rightarrow> nat \<Rightarrow> ('d ExecutionPlan \<times> nat) res" where
  "plan_of_J top_j p =
     sbind (RK top_j 5 ''root'') (\<lambda>_.
     sbind (required RI top_j ''schema_version'' ''root'') (\<lambda>version.
     if version \<noteq> 1
     then throw (''Unsupported ExecutionPlan JSON schema_version: '' @ to_string version)
     else
     sbind (required RI top_j ''num_values'' ''root'') (\<lambda>nvalues.
     sbind (required RI top_j ''output_value'' ''root'') (\<lambda>out.
     sbind (array_of top_j ''nodes'') (\<lambda>nodes_j.
     sbind (sfold ParseNode nodes_j ([], p)) (\<lambda>(nodes, p).
     sbind (array_of top_j ''value_virtual_devices'') (\<lambda>value_vd_j.
     sbind (sfold ParseValueVD value_vd_j ([], p)) (\<lambda>(vds, p).
     sbind (required AI top_j ''input_value_ids'' ''root'') (\<lambda>ins.
     sbind (required AI top_j ''constant_value_ids'' ''root'') (\<lambda>consts.
     sbind (array_of top_j ''value_info'') (\<lambda>info_j.
     sbind (sfold ParseInfo info_j ([], [])) (\<lambda>(shapes, dtypes).
     sbind (RF top_j ''disco_placement'' ''root'') (\<lambda>placement_j.
     sbind (ParsePlacement placement_j ''root.disco_placement'' p) (\<lambda>(placement, p).
     sbind (RF top_j ''reserved'' ''root'') (\<lambda>reserved.
     sbind (RK reserved 5 ''root.reserved'') (\<lambda>_.
     Inr (\<lparr>ep_nodes = nodes, value_virtual_devices = vds, input_value_ids = ins,
           constant_value_ids = consts, value_shapes = shapes, value_dtypes = dtypes,
           num_values = nvalues, ep_pass_ctx = WithDiscoPlacement PassContext_undefined placement,
           output_value = out\<rparr>, p)))))))))))))))))"

definition DeserializeExecutionPlanFromJson ::
  "nat \<Rightarrow> string \<Rightarrow> ('d ExecutionPlan \<times> nat) res" where
  "DeserializeExecutionPlanFromJson p json_text =
     sbind (Parse json_text) (\<lambda>top_j. plan_of_J top_j p)"

end
