(* ===== verification/Exec_PlanProofs.thy ===== *)
theory Exec_PlanProofs
  imports Exec_Plan
begin

text \<open>
  Writing an execution plan and reading it back: every writer prints the JSON value of an
  abstract tree (\<open>*_json\<close>), the parser gives the tree back, and every reader inverts its tree
  up to what the format drops.
\<close>

section \<open>The written trees\<close>

definition device_json :: "Device option \<Rightarrow> J" where
  "device_json dev = (case dev of None \<Rightarrow> JN
     | Some d \<Rightarrow> JO [(''device_type'', JI (dev_type d)), (''device_id'', JI (dev_id d))])"

definition attrs_json :: "DeviceAttributes \<Rightarrow> J" where
  "attrs_json a = JO [(''arch'', JS (da_arch a)), (''compute_version'', JS (da_compute_version a)),
     (''max_threads_per_block'', JI (da_max_threads_per_block a)),
     (''warp_size'', JI (da_warp_size a)),
     (''max_shared_memory_per_block'', JI (da_max_shared_memory_per_block a))]"

definition target_json :: "Target option \<Rightarrow> J" where
  "target_json target = (case target of None \<Rightarrow> JN
     | Some t \<Rightarrow> JO [(''kind'', JS (tgt_kind t)), (''device_type'', JI (tgt_device_type t)),
         (''device_id'', JI (tgt_device_id t)), (''attrs'', attrs_json (tgt_attrs t))])"

definition vd_json :: "VirtualDevice option \<Rightarrow> J" where
  "vd_json vd_ref = (case vd_ref of None \<Rightarrow> JN
     | Some vd \<Rightarrow> JO [(''virtual_device_id'', JI (vd_id vd)), (''memory_scope'', JS (vd_memory_scope vd)),
         (''device'', device_json (vd_device_obj vd)), (''target'', target_json (vd_target vd))])"

definition worker_json :: "WorkerPlacement option \<Rightarrow> J" where
  "worker_json worker = (case worker of None \<Rightarrow> JN
     | Some w \<Rightarrow> JO [(''worker_id'', JI (worker_id w)), (''group_id'', JI (group_id w)),
         (''local_rank'', JI (local_rank w)), (''device'', device_json (wp_device w)),
         (''target'', target_json (wp_target w)), (''virtual_device'', vd_json (wp_virtual_device w))])"

definition placement_json :: "DiscoPlacement option \<Rightarrow> J" where
  "placement_json placement = (case placement of None \<Rightarrow> JN
     | Some p \<Rightarrow> JO [(''num_groups'', JI (num_groups p)),
         (''workers'', JA (map worker_json (sorted_workers (placement_workers p))))])"

definition comm_json :: "Attrs \<Rightarrow> J" where
  "comm_json a = (case a of
     ADeviceCopy src dst asyn in_group \<Rightarrow> JO [(''src_virtual_device'', vd_json src),
       (''dst_virtual_device'', vd_json dst), (''async'', JB asyn), (''in_group'', JB in_group)]
   | ACollective kind reduce_kind in_group g_id root_worker \<Rightarrow> JO [(''kind'', JS kind),
       (''reduce_kind'', JS reduce_kind), (''in_group'', JB in_group), (''group_id'', JI g_id),
       (''root_worker'', JI root_worker)]
   | _ \<Rightarrow> JN)"

definition ints_json :: "int list \<Rightarrow> J" where
  "ints_json xs = JA (map JI xs)"

definition node_json :: "'d ExecNode option \<Rightarrow> J" where
  "node_json node = (case node of
     Some (KernelExec op_name primfunc ins outs workers kernel_symbol) \<Rightarrow>
       JO [(''kind'', JS ''kernel''), (''input_values'', ints_json ins),
         (''output_values'', ints_json outs), (''worker_set'', ints_json workers),
         (''op_name'', JS op_name), (''kernel_symbol'', JS kernel_symbol)]
   | Some (CommExec op_name a ins outs workers) \<Rightarrow>
       JO [(''kind'', JS ''comm''), (''input_values'', ints_json ins),
         (''output_values'', ints_json outs), (''worker_set'', ints_json workers),
         (''op_name'', JS op_name), (''attrs'', comm_json a)]
   | Some (BarrierExec tag workers) \<Rightarrow>
       JO [(''kind'', JS ''barrier''), (''input_values'', JA []), (''output_values'', JA []),
         (''worker_set'', ints_json workers), (''tag'', JS tag)]
   | _ \<Rightarrow> JN)"

definition value_json :: "(int \<times> VirtualDevice option) list \<Rightarrow> int \<Rightarrow> J" where
  "value_json m i = JO [(''value_id'', JI i), (''virtual_device'', vd_json (the_at m i))]"

definition shape_of :: "(int \<times> int list) list \<Rightarrow> int \<Rightarrow> int list" where
  "shape_of shapes i = (case map_of shapes i of Some s \<Rightarrow> s | None \<Rightarrow> [])"

definition dtype_of :: "(int \<times> string) list \<Rightarrow> int \<Rightarrow> string" where
  "dtype_of dtypes i = (case map_of dtypes i of Some d \<Rightarrow> d | None \<Rightarrow> '''')"

definition info_json :: "(int \<times> int list) list \<Rightarrow> (int \<times> string) list \<Rightarrow> int \<Rightarrow> J" where
  "info_json shapes dtypes i = JO [(''value_id'', JI i), (''shape'', ints_json (shape_of shapes i)),
     (''dtype'', JS (dtype_of dtypes i))]"

definition plan_json :: "'d ExecutionPlan \<Rightarrow> J" where
  "plan_json plan = JO [(''schema_version'', JI 1), (''num_values'', JI (num_values plan)),
     (''output_value'', JI (output_value plan)), (''nodes'', JA (map node_json (ep_nodes plan))),
     (''value_virtual_devices'', JA (map (value_json (value_virtual_devices plan))
        (SortedIds (value_virtual_devices plan)))),
     (''input_value_ids'', ints_json (input_value_ids plan)),
     (''constant_value_ids'', ints_json (constant_value_ids plan)),
     (''value_info'', JA (map (info_json (value_shapes plan) (value_dtypes plan))
        (SortedInfoIds (value_shapes plan) (value_dtypes plan)))),
     (''disco_placement'', placement_json (pc_disco (ep_pass_ctx plan))),
     (''reserved'', JO [])]"

section \<open>The writers print the trees\<close>

definition plain :: "string \<Rightarrow> bool" where
  "plain k \<longleftrightarrow> list_all (\<lambda>c. Esc_char c = [c]) k"

lemma Esc_plain: "plain k \<Longrightarrow> Esc k = k"
  by (induction k) (auto simp: plain_def Esc_def)

lemma plain_names:
  "plain ''device_type''" "plain ''device_id''" "plain ''kind''" "plain ''attrs''" "plain ''arch''"
  "plain ''compute_version''" "plain ''max_threads_per_block''" "plain ''warp_size''"
  "plain ''max_shared_memory_per_block''" "plain ''virtual_device_id''" "plain ''memory_scope''"
  "plain ''device''" "plain ''target''" "plain ''worker_id''" "plain ''group_id''" "plain ''local_rank''"
  "plain ''virtual_device''" "plain ''num_groups''" "plain ''workers''" "plain ''src_virtual_device''"
  "plain ''dst_virtual_device''" "plain ''async''" "plain ''in_group''" "plain ''reduce_kind''"
  "plain ''root_worker''" "plain ''input_values''" "plain ''output_values''" "plain ''worker_set''"
  "plain ''op_name''" "plain ''kernel_symbol''" "plain ''tag''" "plain ''value_id''" "plain ''shape''"
  "plain ''dtype''" "plain ''schema_version''" "plain ''num_values''" "plain ''output_value''"
  "plain ''nodes''" "plain ''value_virtual_devices''" "plain ''input_value_ids''"
  "plain ''constant_value_ids''" "plain ''value_info''" "plain ''disco_placement''" "plain ''reserved''"
  by (simp_all add: plain_def Esc_char_def quote_def backslash_def)

lemma name_of_print: "plain k \<Longrightarrow> name_of k = print_string k @ '':''"
  by (simp add: name_of_def print_string_def Esc_plain)

lemmas name_of_names = plain_names [THEN name_of_print]

lemma WriteDeviceObj_print: "WriteDeviceObj d = print_J (device_json d)"
  by (simp add: WriteDeviceObj_def device_json_def name_of_names split: option.split)

lemma WriteTargetObj_print: "WriteTargetObj t = print_J (target_json t)"
  by (simp add: WriteTargetObj_def target_json_def attrs_json_def name_of_names
    print_string_def [of "tgt_kind _"] print_string_def [of "da_arch _"]
    print_string_def [of "da_compute_version _"] split: option.split)

lemma WriteVD_print: "WriteVD v = print_J (vd_json v)"
  by (simp add: WriteVD_def vd_json_def name_of_names WriteDeviceObj_print WriteTargetObj_print
    print_string_def [of "vd_memory_scope _"] split: option.split)

lemma WriteWorker_print: "WriteWorker w = print_J (worker_json w)"
  by (simp add: WriteWorker_def worker_json_def name_of_names WriteDeviceObj_print WriteTargetObj_print
    WriteVD_print split: option.split)

lemma WritePlacement_print: "WritePlacement ctx = print_J (placement_json (pc_disco ctx))"
  by (simp add: WritePlacement_def placement_json_def name_of_names ext [OF WriteWorker_print] comp_def
    split: option.split)

lemma WB_print: "WB b = print_J (JB b)"
  by (simp add: WB_def)

lemma WI_print: "WI xs = print_J (ints_json xs)"
  by (simp add: WI_def ints_json_def comp_def)

lemma WI64_print: "WI64 xs = print_J (ints_json xs)"
  by (simp add: WI64_def ints_json_def comp_def)

lemma WriteCommAttrs_print: "WriteCommAttrs a = print_J (comm_json a)"
  by (cases a) (simp_all add: WriteCommAttrs_def comm_json_def name_of_names WriteVD_print WB_print
    print_string_def [of "_ :: string"] del: print_J.simps(2))

lemma WriteNode_print:
  "\<not> (\<exists>i. node = Some (OtherObject i)) \<Longrightarrow> WriteNode node = Inr (print_J (node_json node))"
  by (auto simp: WriteNode_def node_json_def name_of_names WI_print WriteCommAttrs_print
    print_string_def [of "_ :: string"] split: option.split ExecNode.split)

lemma WriteValueVD_print: "WriteValueVD m i = print_J (value_json m i)"
  by (simp add: WriteValueVD_def value_json_def name_of_names WriteVD_print)

lemma WriteInfo_print: "WriteInfo shapes dtypes i = print_J (info_json shapes dtypes i)"
  by (simp add: WriteInfo_def info_json_def shape_of_def dtype_of_def name_of_names WI64_print
    ints_json_def print_string_def [of "_ :: string"] split: option.split)

lemma to_string_one: "to_string 1 = ''1''"
  by (simp add: to_string_def show_nat.simps digit_char_def char_of_eq_iff)

lemma Serialize_print:
  assumes "\<forall>i. Some (OtherObject i) \<notin> set (ep_nodes plan)"
  shows "SerializeExecutionPlanToJson (Some plan) = Inr (print_J (plan_json plan))"
proof -
  have "smap WriteNode (ep_nodes plan) = Inr (map (\<lambda>n. print_J (node_json n)) (ep_nodes plan))"
    using assms by (intro smap_total WriteNode_print) auto
  then show ?thesis
    by (simp add: SerializeExecutionPlanToJson_def plan_json_def name_of_names WI_print
      WritePlacement_print ext [OF WriteValueVD_print] ext [OF WriteInfo_print] comp_def to_string_one)
qed

section \<open>Plans the format can hold\<close>

text \<open>
  Every number fits its C++ type, those of the target attributes also the \<^verbatim>\<open>int\<close> they are read
  with; virtual devices are as their constructors build them; the attributes of a communication
  node are of the class its operator has; the workers of the placement are defined.
\<close>

definition device_ok :: "Device \<Rightarrow> bool" where
  "device_ok d \<longleftrightarrow> is_i32 (dev_type d) \<and> is_i32 (dev_id d)"

definition target_ok :: "Target \<Rightarrow> bool" where
  "target_ok t \<longleftrightarrow> is_i32 (tgt_device_type t) \<and> is_i32 (tgt_device_id t) \<and>
     is_i32 (da_max_threads_per_block (tgt_attrs t)) \<and> is_i32 (da_warp_size (tgt_attrs t)) \<and>
     is_i32 (da_max_shared_memory_per_block (tgt_attrs t))"

definition vd_built :: "VirtualDevice \<Rightarrow> bool" where
  "vd_built vd \<longleftrightarrow> ValidateTargetDevicePair (vd_device_obj vd) (vd_target vd) = Inr () \<and>
     (vd_id vd = kInvalidVirtualDeviceId \<longrightarrow>
        (case vd_device_obj vd of Some d \<Rightarrow> dev_id d = kInvalidVirtualDeviceId
         | None \<Rightarrow> (case vd_target vd of Some t \<Rightarrow> tgt_device_id t = kInvalidVirtualDeviceId
                   | None \<Rightarrow> True)))"

lemma constructors_built:
  "VirtualDevice_device p d t scope i = Inr vd \<Longrightarrow> vd_built vd"
  "vd_built (VirtualDevice_target p t scope i)"
  by (auto simp: VirtualDevice_device_def VirtualDevice_target_def vd_built_def sbind_Inr_iff
    ValidateTargetDevicePair_def split: option.splits if_splits)

definition vd_ok :: "VirtualDevice \<Rightarrow> bool" where
  "vd_ok vd \<longleftrightarrow> vd_built vd \<and> is_i32 (vd_id vd) \<and> pred_option device_ok (vd_device_obj vd) \<and>
     pred_option target_ok (vd_target vd)"

definition worker_ok :: "WorkerPlacement \<Rightarrow> bool" where
  "worker_ok w \<longleftrightarrow> is_i32 (worker_id w) \<and> is_i32 (group_id w) \<and> is_i32 (local_rank w) \<and>
     pred_option device_ok (wp_device w) \<and> pred_option target_ok (wp_target w) \<and>
     pred_option vd_ok (wp_virtual_device w)"

definition placement_ok :: "DiscoPlacement \<Rightarrow> bool" where
  "placement_ok p \<longleftrightarrow> num_groups p > 0 \<and> is_i32 (num_groups p) \<and>
     (\<forall>w \<in> set (placement_workers p). w \<noteq> None \<and> pred_option worker_ok w)"

definition comm_ok :: "string \<Rightarrow> Attrs \<Rightarrow> bool" where
  "comm_ok op_name a = (case a of
     ADeviceCopy src dst asyn in_group \<Rightarrow>
       op_name = ''device.copy'' \<and> pred_option vd_ok src \<and> pred_option vd_ok dst
   | ACollective kind reduce_kind in_group g_id root_worker \<Rightarrow>
       op_name \<noteq> ''device.copy'' \<and> is_i32 g_id \<and> is_i32 root_worker
   | _ \<Rightarrow> True)"

definition exec_node_ok :: "'d ExecNode option \<Rightarrow> bool" where
  "exec_node_ok node = (case node of
     None \<Rightarrow> True
   | Some (KernelExec op_name primfunc ins outs workers kernel_symbol) \<Rightarrow>
       list_all is_i32 ins \<and> list_all is_i32 outs \<and> list_all is_i32 workers
   | Some (CommExec op_name a ins outs workers) \<Rightarrow>
       list_all is_i32 ins \<and> list_all is_i32 outs \<and> list_all is_i32 workers \<and> comm_ok op_name a
   | Some (BarrierExec tag workers) \<Rightarrow> list_all is_i32 workers
   | Some (OtherObject i) \<Rightarrow> False)"

definition plan_ok :: "'d ExecutionPlan \<Rightarrow> bool" where
  "plan_ok plan \<longleftrightarrow> is_i32 (num_values plan) \<and> is_i32 (output_value plan) \<and>
     list_all exec_node_ok (ep_nodes plan) \<and>
     distinct (map fst (value_virtual_devices plan)) \<and>
     list_all (\<lambda>(k, vd). is_i32 k \<and> pred_option vd_ok vd) (value_virtual_devices plan) \<and>
     list_all is_i32 (input_value_ids plan) \<and> list_all is_i32 (constant_value_ids plan) \<and>
     list_all (\<lambda>(k, s). is_i32 k \<and> list_all is_i64 s) (value_shapes plan) \<and>
     list_all (\<lambda>(k, d). is_i32 k) (value_dtypes plan) \<and>
     pred_option placement_ok (pc_disco (ep_pass_ctx plan))"

section \<open>Reading the trees\<close>

lemma RI_JI: "is_i32 v \<Longrightarrow> RI (JI v) ctx = Inr v"
  by (simp add: RI_def RI64_def RK_def J_kind_def)

lemma RI64_JI: "RI64 (JI v) ctx = Inr v"
  by (simp add: RI64_def RK_def J_kind_def)

lemma RS_JS: "RS (JS s) ctx = Inr s"
  by (simp add: RS_def RK_def J_kind_def)

lemma RB_JB: "RB (JB b) ctx = Inr b"
  by (simp add: RB_def RK_def J_kind_def)

lemma RK_JO: "RK (JO ps) 5 ctx = Inr (JO ps)"
  by (simp add: RK_def J_kind_def)

lemma RK_JA: "RK (JA vs) 4 ctx = Inr (JA vs)"
  by (simp add: RK_def J_kind_def)

lemma RF_JO: "map_of ps key = Some v \<Longrightarrow> RF (JO ps) key ctx = Inr v"
  by (simp add: RF_def RK_JO pairs_def)

lemma FF_JO: "FF (JO ps) key = map_of ps key"
  by (simp add: FF_def)

lemma optional_JI: "FF obj key = Some (JI v) \<Longrightarrow> is_i32 v \<Longrightarrow> OI obj key d ctx = Inr v"
  by (simp add: OI_def optional_field_def RI_JI)

lemma optional_JS: "FF obj key = Some (JS s) \<Longrightarrow> OS obj key d ctx = Inr s"
  by (simp add: OS_def optional_field_def RS_JS)

lemma optional_JB: "FF obj key = Some (JB b) \<Longrightarrow> OB obj key d ctx = Inr b"
  by (simp add: OB_def optional_field_def RB_JB)

lemmas reader_simps = RI_JI RI64_JI RS_JS RB_JB RK_JO RK_JA RF_JO FF_JO optional_JI optional_JS
  optional_JB

lemma read_items_map:
  "(\<And>x i. x \<in> set xs \<Longrightarrow> read (f x) (index_ctx ctx i) = Inr x) \<Longrightarrow>
     read_items read (JA (map f xs)) ctx = Inr xs"
proof -
  assume r: "\<And>x i. x \<in> set xs \<Longrightarrow> read (f x) (index_ctx ctx i) = Inr x"
  have "smap (\<lambda>(i, v). read v (index_ctx ctx i)) (enumerate k (map f xs)) = Inr xs" for k
    using r by (induction xs arbitrary: k) simp_all
  then show ?thesis by (simp add: read_items_def RK_JA items_def)
qed

lemma AI_ints: "list_all is_i32 xs \<Longrightarrow> AI (ints_json xs) ctx = Inr xs"
  by (simp add: AI_def ints_json_def read_items_map RI_JI list_all_iff)

lemma AI64_ints: "AI64 (ints_json xs) ctx = Inr xs"
  by (simp add: AI64_def ints_json_def read_items_map RI64_JI)

lemma AI_empty: "AI (JA []) ctx = Inr []"
  using AI_ints [of "[]"] by (simp add: ints_json_def)

lemma ParseDeviceObj_json: "pred_option device_ok d \<Longrightarrow> ParseDeviceObj (device_json d) ctx = Inr d"
  by (cases d) (simp_all add: ParseDeviceObj_def device_json_def device_ok_def J_kind_def reader_simps)

text \<open>Of the attributes of a target the format keeps five.\<close>

definition wire_target :: "Target \<Rightarrow> Target" where
  "wire_target t = t\<lparr>tgt_attrs := default_attributes\<lparr>da_arch := da_arch (tgt_attrs t),
     da_compute_version := da_compute_version (tgt_attrs t),
     da_max_threads_per_block := da_max_threads_per_block (tgt_attrs t),
     da_warp_size := da_warp_size (tgt_attrs t),
     da_max_shared_memory_per_block := da_max_shared_memory_per_block (tgt_attrs t)\<rparr>\<rparr>"

lemma ParseTargetObj_json:
  "pred_option target_ok t \<Longrightarrow> ParseTargetObj (target_json t) ctx = Inr (map_option wire_target t)"
  by (cases t) (simp_all add: ParseTargetObj_def ParseTargetAttrs_def target_json_def attrs_json_def
    target_ok_def wire_target_def J_kind_def reader_simps)

definition wire_vd :: "nat \<Rightarrow> VirtualDevice \<Rightarrow> VirtualDevice" where
  "wire_vd p vd = vd\<lparr>vd_ptr := p, vd_target := map_option wire_target (vd_target vd)\<rparr>"

definition next_free :: "nat \<Rightarrow> 'a option \<Rightarrow> nat" where
  "next_free p v = (if v = None then p else Suc p)"

lemma ParseVD_json:
  assumes "pred_option vd_ok v"
  shows "ParseVD (vd_json v) ctx p = Inr (map_option (wire_vd p) v, next_free p v)"
proof (cases v)
  case None
  then show ?thesis by (simp add: ParseVD_def vd_json_def J_kind_def next_free_def)
next
  case (Some vd)
  with assms have ok: "vd_built vd" "is_i32 (vd_id vd)" "pred_option device_ok (vd_device_obj vd)"
    "pred_option target_ok (vd_target vd)" by (simp_all add: vd_ok_def)
  have parts: "ParseVD (vd_json v) ctx p =
      (case vd_device_obj vd of
         Some d \<Rightarrow> sbind (VirtualDevice_device p d (map_option wire_target (vd_target vd))
           (vd_memory_scope vd) (vd_id vd)) (\<lambda>vd. Inr (Some vd, Suc p))
       | None \<Rightarrow> Inr (Some (VirtualDevice_target p (map_option wire_target (vd_target vd))
           (vd_memory_scope vd) (vd_id vd)), Suc p))"
    using ok by (simp add: Some ParseVD_def vd_json_def J_kind_def reader_simps field_or_none_def
      ParseDeviceObj_json ParseTargetObj_json)
  have wire: "tgt_device_type (wire_target t) = tgt_device_type t" "tgt_device_id (wire_target t) = tgt_device_id t"
    for t by (simp_all add: wire_target_def)
  show ?thesis
    using ok(1) unfolding parts
    by (cases vd; cases "vd_device_obj vd"; cases "vd_target vd")
      (auto simp: Some VirtualDevice_device_def VirtualDevice_target_def vd_built_def
        ValidateTargetDevicePair_def wire wire_vd_def next_free_def split: if_splits)
qed

section \<open>Placements\<close>

definition same_vd :: "VirtualDevice \<Rightarrow> VirtualDevice \<Rightarrow> bool" where
  "same_vd v v' \<longleftrightarrow> v' = wire_vd (vd_ptr v') v"

lemma same_vd_wire [simp]: "same_vd v (wire_vd p v)"
  by (simp add: same_vd_def wire_vd_def)

lemma vd_ptr_wire [simp]: "vd_ptr (wire_vd p v) = p"
  by (simp add: wire_vd_def)

lemma rel_option_wire [simp]: "rel_option same_vd v (map_option (wire_vd p) v)"
  by (cases v) simp_all

lemma next_free_le [simp]: "p \<le> next_free p v"
  by (simp add: next_free_def)

definition same_worker :: "WorkerPlacement \<Rightarrow> WorkerPlacement \<Rightarrow> bool" where
  "same_worker w w' \<longleftrightarrow>
     w' = w\<lparr>wp_target := map_option wire_target (wp_target w), wp_virtual_device := wp_virtual_device w'\<rparr> \<and>
     rel_option same_vd (wp_virtual_device w) (wp_virtual_device w')"

definition wire_worker :: "nat \<Rightarrow> WorkerPlacement \<Rightarrow> WorkerPlacement" where
  "wire_worker p w = w\<lparr>wp_target := map_option wire_target (wp_target w),
     wp_virtual_device := map_option (wire_vd p) (wp_virtual_device w)\<rparr>"

lemma same_worker_wire [simp]: "same_worker w (wire_worker p w)"
  by (simp add: same_worker_def wire_worker_def)

text \<open>The table of a list of workers: the address of every device and the number of its worker.\<close>

definition table_of :: "WorkerPlacement list \<Rightarrow> (nat \<times> int) list" where
  "table_of ws = List.map_filter (\<lambda>w. map_option (\<lambda>v. (vd_ptr v, worker_id w)) (wp_virtual_device w)) ws"

lemma table_of_simps:
  "table_of [] = []"
  "table_of (ws @ [w]) = table_of ws @
     (case wp_virtual_device w of None \<Rightarrow> [] | Some v \<Rightarrow> [(vd_ptr v, worker_id w)])"
  by (auto simp: table_of_def map_filter_def split: option.split)

lemma update_fresh: "k \<notin> fst ` set al \<Longrightarrow> AList.update k v al = al @ [(k, v)]"
  by (induction al) auto

lemma ParseWorker_json:
  assumes "worker_ok w"
  shows "ParseWorker ctx (i, worker_json (Some w)) (ws, table, p) =
    Inr (ws @ [Some (wire_worker p w)],
      (case wp_virtual_device w of None \<Rightarrow> table | Some _ \<Rightarrow> AList.update p (worker_id w) table),
      next_free p (wp_virtual_device w))"
  using assms
  by (cases w) (auto simp: ParseWorker_def worker_json_def worker_ok_def reader_simps Let_def
      field_or_none_def ParseDeviceObj_json ParseTargetObj_json ParseVD_json worker_vd_def
      wire_worker_def split: option.splits)

lemma ParseWorkers_json:
  assumes "list_all worker_ok ws" "\<forall>k \<in> fst ` set (table_of acc). k < p" "distinct (map fst (table_of acc))"
  shows "\<exists>ws' p'. sfold (ParseWorker ctx) (enumerate i (map (\<lambda>w. worker_json (Some w)) ws))
      (map Some acc, table_of acc, p) = Inr (map Some (acc @ ws'), table_of (acc @ ws'), p') \<and>
    list_all2 same_worker ws ws' \<and> distinct (map fst (table_of (acc @ ws')))"
  using assms
proof (induction ws arbitrary: i acc p)
  case Nil
  then show ?case by simp
next
  case (Cons w ws)
  let ?w = "wire_worker p w" and ?q = "next_free p (wp_virtual_device w)"
  have fresh: "p \<notin> fst ` set (table_of acc)" using Cons.prems(2) by auto
  have t: "(case wp_virtual_device w of None \<Rightarrow> table_of acc
      | Some _ \<Rightarrow> AList.update p (worker_id w) (table_of acc)) = table_of (acc @ [?w])"
    by (simp add: table_of_simps wire_worker_def update_fresh [OF fresh] split: option.split)
  have bound: "\<forall>k \<in> fst ` set (table_of (acc @ [?w])). k < ?q"
    using Cons.prems(2) by (auto simp: table_of_simps wire_worker_def next_free_def less_Suc_eq split: option.splits)
  have dist: "distinct (map fst (table_of (acc @ [?w])))"
    using Cons.prems(3) fresh by (auto simp: table_of_simps wire_worker_def split: option.splits)
  obtain ws' p' where IH: "sfold (ParseWorker ctx) (enumerate (Suc i) (map (\<lambda>w. worker_json (Some w)) ws))
      (map Some (acc @ [?w]), table_of (acc @ [?w]), ?q) =
      Inr (map Some ((acc @ [?w]) @ ws'), table_of ((acc @ [?w]) @ ws'), p')"
    "list_all2 same_worker ws ws'" "distinct (map fst (table_of ((acc @ [?w]) @ ws')))"
    using Cons.IH [OF _ bound dist] Cons.prems(1) by auto blast
  have "sfold (ParseWorker ctx) (enumerate i (map (\<lambda>w. worker_json (Some w)) (w # ws)))
      (map Some acc, table_of acc, p) = Inr (map Some (acc @ ?w # ws'), table_of (acc @ ?w # ws'), p')"
    using IH(1) Cons.prems(1) by (simp add: ParseWorker_json t)
  moreover have "list_all2 same_worker (w # ws) (?w # ws')" using IH(2) by simp
  moreover have "distinct (map fst (table_of (acc @ ?w # ws')))" using IH(3) by simp
  ultimately show ?case by blast
qed

definition same_placement :: "DiscoPlacement \<Rightarrow> DiscoPlacement \<Rightarrow> bool" where
  "same_placement pl pl' \<longleftrightarrow> num_groups pl' = num_groups pl \<and>
     (\<exists>ws. placement_workers pl' = map Some ws \<and> vd_to_worker pl' = table_of ws \<and>
        distinct (map fst (table_of ws)) \<and>
        list_all2 same_worker (sort_key worker_id (List.map_filter id (placement_workers pl))) ws)"

lemma ParsePlacement_json:
  assumes "pred_option placement_ok pl"
  shows "\<exists>pl' p'. ParsePlacement (placement_json pl) ctx p = Inr (pl', p') \<and>
    rel_option same_placement pl pl'"
proof (cases pl)
  case None
  then show ?thesis by (simp add: ParsePlacement_def placement_json_def J_kind_def)
next
  case (Some q)
  let ?ws = "sort_key worker_id (List.map_filter id (placement_workers q))"
  from Some assms have ok: "num_groups q > 0" "is_i32 (num_groups q)"
    "\<forall>w \<in> set (placement_workers q). w \<noteq> None \<and> pred_option worker_ok w"
    by (simp_all add: placement_ok_def)
  have sorted: "sorted_workers (placement_workers q) = map Some ?ws"
    using ok(3) by (auto simp: sorted_workers_def filter_empty_conv)
  have "list_all worker_ok ?ws"
    using ok(3) by (auto simp: list_all_iff map_filter_def)
  then obtain ws' p' where ws': "sfold (ParseWorker ctx)
      (enumerate 0 (map (\<lambda>w. worker_json (Some w)) ?ws)) ([], [], p) = Inr (map Some ws', table_of ws', p')"
    "list_all2 same_worker ?ws ws'" "distinct (map fst (table_of ws'))"
    using ParseWorkers_json [of ?ws "[]" p ctx 0] by (auto simp: table_of_simps)
  have "ParsePlacement (placement_json pl) ctx p =
      Inr (Some (DiscoPlacement_new (map Some ws') (table_of ws') (num_groups q)), p')"
    using ok ws'(1) by (simp add: Some ParsePlacement_def placement_json_def J_kind_def reader_simps
      items_def sorted comp_def)
  then show ?thesis
    using ok ws' by (auto simp: Some same_placement_def DiscoPlacement_new_def)
qed

section \<open>Nodes\<close>

text \<open>
  Attributes read back: a null object becomes the default attributes of the operator.
\<close>

fun same_comm :: "string \<Rightarrow> Attrs \<Rightarrow> Attrs \<Rightarrow> bool" where
  "same_comm op_name (ADeviceCopy src dst asyn in_group) a' \<longleftrightarrow>
     (\<exists>src' dst'. a' = ADeviceCopy src' dst' asyn in_group \<and>
        rel_option same_vd src src' \<and> rel_option same_vd dst dst')"
| "same_comm op_name (ACollective kind reduce_kind in_group g_id root_worker) a' \<longleftrightarrow>
     a' = ACollective kind reduce_kind in_group g_id root_worker"
| "same_comm op_name _ a' \<longleftrightarrow>
     a' = (if op_name = ''device.copy'' then ADeviceCopy None None False True
           else ACollective op_name ''sum'' True 0 0)"

fun same_node :: "'d ExecNode \<Rightarrow> 'd ExecNode \<Rightarrow> bool" where
  "same_node (KernelExec op_name primfunc ins outs workers kernel_symbol) n' \<longleftrightarrow>
     n' = KernelExec op_name None ins outs workers kernel_symbol"
| "same_node (CommExec op_name a ins outs workers) n' \<longleftrightarrow>
     (\<exists>a'. n' = CommExec op_name a' ins outs workers \<and> same_comm op_name a a')"
| "same_node (BarrierExec tag workers) n' \<longleftrightarrow> n' = BarrierExec tag workers"
| "same_node (OtherObject i) n' \<longleftrightarrow> False"

lemma ParseCommAttrs_json:
  assumes "comm_ok op_name a"
  shows "\<exists>a' p'. ParseCommAttrs op_name (Some (comm_json a)) ctx p = Inr (a', p') \<and> same_comm op_name a a'"
proof (cases "\<exists>src dst asyn in_group. a = ADeviceCopy src dst asyn in_group")
  case True
  then obtain src dst asyn in_group where a: "a = ADeviceCopy src dst asyn in_group" by blast
  have "ParseCommAttrs op_name (Some (comm_json a)) ctx p =
      Inr (ADeviceCopy (map_option (wire_vd p) src) (map_option (wire_vd (next_free p src)) dst)
        asyn in_group, next_free (next_free p src) dst)"
    using assms by (simp add: a comm_ok_def ParseCommAttrs_def comm_json_def J_kind_def reader_simps
      vd_field_or_none_def ParseVD_json)
  then show ?thesis by (simp add: a)
next
  case False
  then show ?thesis
    using assms by (cases a) (simp_all add: comm_ok_def ParseCommAttrs_def comm_json_def J_kind_def
      reader_simps)
qed

lemma ParseNode_json:
  assumes "exec_node_ok (Some n)"
  shows "\<exists>n' p'. ParseNode (i, node_json (Some n)) (acc, p) = Inr (acc @ [Some n'], p') \<and> same_node n n'"
proof (cases n)
  case (KernelExec op_name primfunc ins outs workers kernel_symbol)
  then show ?thesis
    using assms by (simp add: exec_node_ok_def ParseNode_def node_json_def J_kind_def reader_simps Let_def
      required_def AI_ints)
next
  case (CommExec op_name a ins outs workers)
  with assms have "comm_ok op_name a" by (simp add: exec_node_ok_def)
  from ParseCommAttrs_json [OF this, of "index_ctx ''root.nodes'' i @ ''.attrs''" p]
  obtain a' p' where a': "ParseCommAttrs op_name (Some (comm_json a)) (index_ctx ''root.nodes'' i @ ''.attrs'') p =
      Inr (a', p')" "same_comm op_name a a'" by blast
  have "ParseNode (i, node_json (Some n)) (acc, p) =
      Inr (acc @ [Some (CommExec op_name a' ins outs workers)], p')"
    using assms a'(1) by (simp add: CommExec exec_node_ok_def ParseNode_def node_json_def J_kind_def
      reader_simps Let_def required_def AI_ints)
  then show ?thesis using a'(2) by (auto simp: CommExec)
next
  case (BarrierExec tag workers)
  then show ?thesis
    using assms by (simp add: exec_node_ok_def ParseNode_def node_json_def J_kind_def reader_simps Let_def
      required_def AI_ints AI_empty)
qed (use assms in \<open>simp add: exec_node_ok_def\<close>)

lemma ParseNode_null: "ParseNode (i, node_json None) (acc, p) = Inr (acc, p)"
  by (simp add: ParseNode_def node_json_def J_kind_def)

lemma ParseNodes_json:
  assumes "list_all exec_node_ok ns"
  shows "\<exists>ns' p'. sfold ParseNode (enumerate i (map node_json ns)) (acc, p) =
      Inr (acc @ map Some ns', p') \<and> list_all2 same_node (List.map_filter id ns) ns'"
  using assms
proof (induction ns arbitrary: i acc p)
  case Nil
  then show ?case by simp
next
  case (Cons n ns)
  show ?case
  proof (cases n)
    case None
    then show ?thesis using Cons.IH [of "Suc i" acc p] Cons.prems by (simp add: ParseNode_null)
  next
    case (Some m)
    then obtain m' q where m': "ParseNode (i, node_json (Some m)) (acc, p) = Inr (acc @ [Some m'], q)"
      "same_node m m'" using ParseNode_json [of m i acc p] Cons.prems by auto
    obtain ns' p' where ns': "sfold ParseNode (enumerate (Suc i) (map node_json ns)) (acc @ [Some m'], q) =
        Inr ((acc @ [Some m']) @ map Some ns', p')" "list_all2 same_node (List.map_filter id ns) ns'"
      using Cons.IH [of "Suc i" "acc @ [Some m']" q] Cons.prems by (auto simp: id_def)
    have "sfold ParseNode (enumerate i (map node_json (n # ns))) (acc, p) =
        Inr (acc @ map Some (m' # ns'), p')"
      using m'(1) ns'(1) by (simp add: Some)
    moreover have "list_all2 same_node (List.map_filter id (n # ns)) (m' # ns')"
      using m'(2) ns'(2) by (simp add: Some)
    ultimately show ?thesis by blast
  qed
qed

section \<open>Tables of values\<close>

definition same_vds :: "(int \<times> VirtualDevice option) list \<Rightarrow> (int \<times> VirtualDevice option) list \<Rightarrow> bool" where
  "same_vds m m' \<longleftrightarrow>
     (\<forall>k. case map_of m k of
        Some (Some v) \<Rightarrow> \<exists>v'. map_of m' k = Some (Some v') \<and> same_vd v v'
      | _ \<Rightarrow> map_of m' k = None)"

lemma ParseValueVD_json:
  assumes "is_i32 k" "pred_option vd_ok (the_at m k)"
  shows "ParseValueVD (i, value_json m k) (acc, p) =
    Inr (case the_at m k of None \<Rightarrow> acc | Some v \<Rightarrow> AList.update k (Some (wire_vd p v)) acc,
      next_free p (the_at m k))"
  using assms by (cases "the_at m k") (simp_all add: ParseValueVD_def value_json_def reader_simps Let_def
    required_def ParseVD_json)

lemma ParseValueVDs_json:
  assumes "distinct ks" "\<forall>k \<in> set ks. is_i32 k \<and> pred_option vd_ok (the_at m k)"
  shows "\<exists>acc' p'. sfold ParseValueVD (enumerate i (map (value_json m) ks)) (acc, p) = Inr (acc', p') \<and>
    (\<forall>k. case (if k \<in> set ks then the_at m k else None) of
        Some v \<Rightarrow> \<exists>v'. map_of acc' k = Some (Some v') \<and> same_vd v v'
      | None \<Rightarrow> map_of acc' k = map_of acc k)"
  using assms
proof (induction ks arbitrary: i acc p)
  case Nil
  then show ?case by simp
next
  case (Cons k ks)
  let ?acc = "case the_at m k of None \<Rightarrow> acc | Some v \<Rightarrow> AList.update k (Some (wire_vd p v)) acc"
  obtain acc' p' where IH: "sfold ParseValueVD (enumerate (Suc i) (map (value_json m) ks))
      (?acc, next_free p (the_at m k)) = Inr (acc', p')"
    "\<forall>j. case (if j \<in> set ks then the_at m j else None) of
        Some v \<Rightarrow> \<exists>v'. map_of acc' j = Some (Some v') \<and> same_vd v v'
      | None \<Rightarrow> map_of acc' j = map_of ?acc j"
    using Cons.IH [of "Suc i" ?acc "next_free p (the_at m k)"] Cons.prems by auto
  have run: "sfold ParseValueVD (enumerate i (map (value_json m) (k # ks))) (acc, p) = Inr (acc', p')"
    using IH(1) Cons.prems(2) by (simp add: ParseValueVD_json)
  have at_k: "map_of acc' k = map_of ?acc k" using spec [OF IH(2), of k] Cons.prems(1) by simp
  have other: "map_of ?acc j = map_of acc j" if "j \<noteq> k" for j
    using that by (simp add: update_conv split: option.split)
  have "case (if j \<in> set (k # ks) then the_at m j else None) of
        Some v \<Rightarrow> \<exists>v'. map_of acc' j = Some (Some v') \<and> same_vd v v'
      | None \<Rightarrow> map_of acc' j = map_of acc j" for j
  proof (cases "j = k")
    case True
    then show ?thesis by (simp add: at_k update_conv' split: option.split)
  next
    case False
    then show ?thesis using spec [OF IH(2), of j] by (simp add: other [OF False] split: if_splits option.splits)
  qed
  with run show ?case by blast
qed

lemma ParseInfo_json:
  assumes "is_i32 k"
  shows "ParseInfo (i, info_json shapes dtypes k) (a, b) =
    Inr (AList.update k (shape_of shapes k) a, AList.update k (dtype_of dtypes k) b)"
  using assms by (simp add: ParseInfo_def info_json_def reader_simps Let_def required_def AI64_ints)

lemma ParseInfos_json:
  assumes "\<forall>k \<in> set ks. is_i32 k"
  shows "\<exists>a' b'. sfold ParseInfo (enumerate i (map (info_json shapes dtypes) ks)) (a, b) = Inr (a', b') \<and>
    map_of a' = (\<lambda>k. if k \<in> set ks then Some (shape_of shapes k) else map_of a k) \<and>
    map_of b' = (\<lambda>k. if k \<in> set ks then Some (dtype_of dtypes k) else map_of b k)"
  using assms
proof (induction ks arbitrary: i a b)
  case (Cons k ks)
  obtain a' b' where IH: "sfold ParseInfo (enumerate (Suc i) (map (info_json shapes dtypes) ks))
      (AList.update k (shape_of shapes k) a, AList.update k (dtype_of dtypes k) b) = Inr (a', b')"
    "map_of a' = (\<lambda>j. if j \<in> set ks then Some (shape_of shapes j)
       else map_of (AList.update k (shape_of shapes k) a) j)"
    "map_of b' = (\<lambda>j. if j \<in> set ks then Some (dtype_of dtypes j)
       else map_of (AList.update k (dtype_of dtypes k) b) j)"
    using Cons.IH [of "Suc i" "AList.update k (shape_of shapes k) a"
      "AList.update k (dtype_of dtypes k) b"] Cons.prems by auto
  have "sfold ParseInfo (enumerate i (map (info_json shapes dtypes) (k # ks))) (a, b) = Inr (a', b')"
    using IH(1) Cons.prems by (simp add: ParseInfo_json)
  moreover have "map_of a' = (\<lambda>j. if j \<in> set (k # ks) then Some (shape_of shapes j) else map_of a j)"
    "map_of b' = (\<lambda>j. if j \<in> set (k # ks) then Some (dtype_of dtypes j) else map_of b j)"
    using IH(2,3) by (auto simp: update_conv fun_eq_iff)
  ultimately show ?case by blast
qed simp

section \<open>The trees are legal JSON\<close>

lemma json_ok_ints: "list_all is_i64 xs \<Longrightarrow> json_ok (ints_json xs)"
  by (simp add: ints_json_def list_all_iff)

lemma i32_ints: "list_all is_i32 xs \<Longrightarrow> list_all is_i64 xs"
  by (auto simp: list_all_iff is_i32_is_i64)

lemma json_ok_device: "pred_option device_ok d \<Longrightarrow> json_ok (device_json d)"
  by (cases d) (simp_all add: device_json_def device_ok_def is_i32_is_i64)

lemma json_ok_target: "pred_option target_ok t \<Longrightarrow> json_ok (target_json t)"
  by (cases t) (simp_all add: target_json_def attrs_json_def target_ok_def is_i32_is_i64)

lemma json_ok_vd: "pred_option vd_ok v \<Longrightarrow> json_ok (vd_json v)"
  by (cases v) (simp_all add: vd_json_def vd_ok_def is_i32_is_i64 json_ok_device json_ok_target)

lemma json_ok_worker: "pred_option worker_ok w \<Longrightarrow> json_ok (worker_json w)"
  by (cases w) (simp_all add: worker_json_def worker_ok_def is_i32_is_i64 json_ok_device json_ok_target
    json_ok_vd)

lemma json_ok_placement: "pred_option placement_ok p \<Longrightarrow> json_ok (placement_json p)"
  by (cases p) (auto simp: placement_json_def placement_ok_def is_i32_is_i64 json_ok_worker
    sorted_workers_def list_all_iff map_filter_def)

lemma json_ok_comm: "comm_ok op_name a \<Longrightarrow> json_ok (comm_json a)"
  by (cases a) (simp_all add: comm_json_def comm_ok_def json_ok_vd is_i32_is_i64)

lemma json_ok_node: "exec_node_ok n \<Longrightarrow> json_ok (node_json n)"
  by (auto simp: node_json_def exec_node_ok_def json_ok_ints i32_ints json_ok_comm
    split: option.splits ExecNode.splits)

lemma the_at_in: "k \<in> set (map fst m) \<Longrightarrow> (k, the_at m k) \<in> set m"
  unfolding the_at_def by (metis map_of_SomeD map_of_eq_None_iff option.collapse set_map)

lemma shape_of_i64:
  "list_all (\<lambda>(k, s). is_i32 k \<and> list_all is_i64 s) shapes \<Longrightarrow> list_all is_i64 (shape_of shapes k)"
  by (cases "map_of shapes k") (auto simp: shape_of_def list_all_iff dest!: map_of_SomeD)

lemma plan_ok_vds:
  assumes "plan_ok plan" "k \<in> set (SortedIds (value_virtual_devices plan))"
  shows "is_i32 k" "pred_option vd_ok (the_at (value_virtual_devices plan) k)"
proof -
  have "(k, the_at (value_virtual_devices plan) k) \<in> set (value_virtual_devices plan)"
    using assms(2) by (intro the_at_in) (simp add: SortedIds_def)
  then show "is_i32 k" "pred_option vd_ok (the_at (value_virtual_devices plan) k)"
    using assms(1) by (auto simp: plan_ok_def list_all_iff)
qed

lemma plan_ok_infos:
  "plan_ok plan \<Longrightarrow> k \<in> set (SortedInfoIds (value_shapes plan) (value_dtypes plan)) \<Longrightarrow> is_i32 k"
  by (auto simp: plan_ok_def SortedInfoIds_def list_all_iff)

lemma json_ok_plan:
  assumes "plan_ok plan"
  shows "json_ok (plan_json plan)"
proof -
  have "list_all json_ok (map node_json (ep_nodes plan))"
    using assms by (auto simp: plan_ok_def list_all_iff json_ok_node)
  moreover have "list_all json_ok (map (value_json (value_virtual_devices plan)) (SortedIds (value_virtual_devices plan)))"
    using plan_ok_vds [OF assms] by (simp add: list_all_iff value_json_def json_ok_vd is_i32_is_i64)
  moreover have "list_all json_ok (map (info_json (value_shapes plan) (value_dtypes plan))
      (SortedInfoIds (value_shapes plan) (value_dtypes plan)))"
    using plan_ok_infos [OF assms] assms
    by (auto simp: list_all_iff [of json_ok] info_json_def json_ok_ints plan_ok_def shape_of_i64
      is_i32_is_i64)
  moreover have "json_ok (placement_json (pc_disco (ep_pass_ctx plan)))"
    using assms by (simp add: plan_ok_def json_ok_placement)
  ultimately show ?thesis
    using assms by (simp add: plan_json_def plan_ok_def json_ok_ints i32_ints is_i32_is_i64 rng_simps)
qed

section \<open>The round trip\<close>

text \<open>
  What a plan keeps: its numbers and lists, its nodes without the undefined ones and without
  their \<^verbatim>\<open>PrimFunc\<close>s, the defined virtual devices, a shape and a dtype for every value that had
  one of them (an empty one for the other), and of the pass context the placement alone.
\<close>

definition same_plan :: "'d ExecutionPlan \<Rightarrow> 'd ExecutionPlan \<Rightarrow> bool" where
  "same_plan plan plan' \<longleftrightarrow>
     num_values plan' = num_values plan \<and> output_value plan' = output_value plan \<and>
     input_value_ids plan' = input_value_ids plan \<and>
     constant_value_ids plan' = constant_value_ids plan \<and>
     (\<exists>ns. ep_nodes plan' = map Some ns \<and> list_all2 same_node (List.map_filter id (ep_nodes plan)) ns) \<and>
     same_vds (value_virtual_devices plan) (value_virtual_devices plan') \<and>
     (let infos = fst ` set (value_shapes plan) \<union> fst ` set (value_dtypes plan) in
      map_of (value_shapes plan') =
        (\<lambda>k. if k \<in> infos then Some (shape_of (value_shapes plan) k) else None) \<and>
      map_of (value_dtypes plan') =
        (\<lambda>k. if k \<in> infos then Some (dtype_of (value_dtypes plan) k) else None)) \<and>
     (\<exists>pl. ep_pass_ctx plan' = WithDiscoPlacement PassContext_undefined pl \<and>
        rel_option same_placement (pc_disco (ep_pass_ctx plan)) pl)"

lemma same_vds_read:
  assumes "\<forall>k. case (if k \<in> set (SortedIds m) then the_at m k else None) of
        Some v \<Rightarrow> \<exists>v'. map_of m' k = Some (Some v') \<and> same_vd v v'
      | None \<Rightarrow> map_of m' k = map_of [] k"
  shows "same_vds m m'"
  unfolding same_vds_def
proof
  fix k
  show "case map_of m k of
        Some (Some v) \<Rightarrow> \<exists>v'. map_of m' k = Some (Some v') \<and> same_vd v v'
      | _ \<Rightarrow> map_of m' k = None"
  proof (cases "map_of m k")
    case None
    then have "k \<notin> set (SortedIds m)" by (simp add: SortedIds_def map_of_eq_None_iff)
    then show ?thesis using spec [OF assms, of k] None by simp
  next
    case (Some v)
    then have "k \<in> set (SortedIds m)"
      by (simp add: SortedIds_def) (metis domI dom_map_of_conv_image_fst)
    then show ?thesis using spec [OF assms, of k] Some by (cases v) (simp_all add: the_at_def)
  qed
qed

lemma plan_of_J_json:
  assumes "plan_ok plan"
  shows "\<exists>plan' p'. plan_of_J (plan_json plan) p = Inr (plan', p') \<and> same_plan plan plan'"
proof -
  let ?vds = "value_virtual_devices plan" and ?pl = "pc_disco (ep_pass_ctx plan)"
  obtain ns p1 where ns: "sfold ParseNode (enumerate 0 (map node_json (ep_nodes plan))) ([], p) =
      Inr (map Some ns, p1)" "list_all2 same_node (List.map_filter id (ep_nodes plan)) ns"
    using ParseNodes_json [of "ep_nodes plan" 0 "[]" p] assms by (auto simp: plan_ok_def)
  have d: "distinct (SortedIds ?vds)" using assms by (simp add: SortedIds_def plan_ok_def)
  obtain m p2 where m: "sfold ParseValueVD (enumerate 0 (map (value_json ?vds) (SortedIds ?vds))) ([], p1) =
      Inr (m, p2)" "same_vds ?vds m"
    using ParseValueVDs_json [OF d, of ?vds 0 "[]" p1] plan_ok_vds [OF assms] same_vds_read by blast
  let ?ids = "SortedInfoIds (value_shapes plan) (value_dtypes plan)"
  obtain a b where infos: "sfold ParseInfo (enumerate 0
      (map (info_json (value_shapes plan) (value_dtypes plan)) ?ids)) ([], []) = Inr (a, b)"
    "map_of a = (\<lambda>k. if k \<in> set ?ids then Some (shape_of (value_shapes plan) k) else None)"
    "map_of b = (\<lambda>k. if k \<in> set ?ids then Some (dtype_of (value_dtypes plan) k) else None)"
    using ParseInfos_json [of ?ids 0 "value_shapes plan" "value_dtypes plan" "[]" "[]"]
      plan_ok_infos [OF assms] by (auto simp: fun_eq_iff)
  obtain pl p3 where pl: "ParsePlacement (placement_json ?pl) ''root.disco_placement'' p2 = Inr (pl, p3)"
    "rel_option same_placement ?pl pl"
    using ParsePlacement_json [of ?pl "''root.disco_placement''" p2] assms by (auto simp: plan_ok_def)
  let ?plan = "\<lparr>ep_nodes = map Some ns, value_virtual_devices = m, input_value_ids = input_value_ids plan,
    constant_value_ids = constant_value_ids plan, value_shapes = a, value_dtypes = b,
    num_values = num_values plan, ep_pass_ctx = WithDiscoPlacement PassContext_undefined pl,
    output_value = output_value plan\<rparr>"
  have one: "is_i32 1" by (simp add: rng_simps)
  have "plan_of_J (plan_json plan) p = Inr (?plan, p3)"
    using assms ns(1) m(1) infos(1) pl(1) one
    by (simp add: plan_of_J_def plan_json_def reader_simps required_def array_of_def items_def AI_ints
      plan_ok_def)
  moreover have "same_plan plan ?plan"
    using ns(2) m(2) infos(2,3) pl(2)
    by (auto simp: same_plan_def SortedInfoIds_def Let_def)
  ultimately show ?thesis by blast
qed

text \<open>
C30. Writing an execution plan as JSON and reading the text back succeeds and gives what the
format holds of the plan. Kept are the numbers of the plan, its inputs and constants, every
defined node in order with its operator, values, workers and kernel symbol or communication
attributes, the defined virtual devices of the values, shapes and dtypes, and the placement with
its workers sorted by number and its table rebuilt. Not kept are undefined nodes and undefined
virtual devices, the PrimFuncs of kernels, the target attributes other than five, the addresses
of virtual devices, and the rest of the pass context; a value that had only a shape or only a
dtype gets an empty one for the other. The plan must be one that can be read (\<open>plan_ok\<close>): its
numbers, the five target attributes included, are in the range of \<^verbatim>\<open>int\<close>, its virtual devices
are as their constructors leave them, its workers are defined and its group count positive, its
communication attributes fit their operator, every node is of a known kind.
\<close>

theorem execution_plan_roundtrip:
  assumes "plan_ok plan"
  shows "\<exists>text plan' p'. SerializeExecutionPlanToJson (Some plan) = Inr text \<and>
    DeserializeExecutionPlanFromJson p text = Inr (plan', p') \<and> same_plan plan plan'"
proof -
  have "Some (OtherObject i) \<notin> set (ep_nodes plan)" for i
    using assms by (force simp: plan_ok_def list_all_iff exec_node_ok_def)
  then have "SerializeExecutionPlanToJson (Some plan) = Inr (print_J (plan_json plan))"
    by (intro Serialize_print) blast
  moreover obtain plan' p' where "plan_of_J (plan_json plan) p = Inr (plan', p')" "same_plan plan plan'"
    using plan_of_J_json [OF assms] by blast
  then have "DeserializeExecutionPlanFromJson p (print_J (plan_json plan)) = Inr (plan', p') \<and>
      same_plan plan plan'"
    by (simp add: DeserializeExecutionPlanFromJson_def Parse_print json_ok_plan [OF assms])
  ultimately show ?thesis by blast
qed

text \<open>A copy and a kernel behind an undefined node, with a placement of two workers.\<close>

definition sample_plan :: "nat ExecutionPlan" where
  "sample_plan = \<lparr>
     ep_nodes = [None, Some (CommExec ''device.copy'' (ADeviceCopy (Some (cpu_vd 1 0)) (Some (cpu_vd 2 1)) False True) [0] [1] [0, 1]),
       Some (KernelExec ''add'' None [1, 1] [2] [1] '''')],
     value_virtual_devices = [(2, Some (cpu_vd 2 1)), (0, Some (cpu_vd 1 0))],
     input_value_ids = [0], constant_value_ids = [], value_shapes = [(0, [2, 3])],
     value_dtypes = [(0, ''float32'')], num_values = 3,
     ep_pass_ctx = WithDiscoPlacement PassContext_undefined (Some \<lparr>placement_workers =
       [Some \<lparr>worker_id = 0, group_id = 0, local_rank = 0, wp_device = None, wp_target = None,
              wp_virtual_device = Some (cpu_vd 1 0)\<rparr>,
        Some \<lparr>worker_id = 1, group_id = 0, local_rank = 1, wp_device = None, wp_target = None,
              wp_virtual_device = Some (cpu_vd 2 1)\<rparr>], vd_to_worker = [(1, 0), (2, 1)], num_groups = 1\<rparr>),
     output_value = 2\<rparr>"

lemma cpu_vd_ok: "i \<in> {0, 1} \<Longrightarrow> vd_ok (cpu_vd p i)"
  by (auto simp: vd_ok_def vd_built_def cpu_vd_def ValidateTargetDevicePair_def device_ok_def kCPU_def
    kInvalidVirtualDeviceId_def rng_simps)

theorem execution_plan_roundtrip_witness:
  "\<exists>str plan' p'. SerializeExecutionPlanToJson (Some sample_plan) = Inr str \<and>
    DeserializeExecutionPlanFromJson 10 str = Inr (plan' :: nat ExecutionPlan, p') \<and> output_value plan' = 2 \<and>
    length (ep_nodes plan') = 2"
proof -
  have "plan_ok sample_plan"
    by (simp add: plan_ok_def sample_plan_def exec_node_ok_def comm_ok_def cpu_vd_ok placement_ok_def
      worker_ok_def WithDiscoPlacement_def rng_simps)
  from execution_plan_roundtrip [OF this, of 10] obtain str plan' p' where
    s: "SerializeExecutionPlanToJson (Some sample_plan) = Inr str"
    and d: "DeserializeExecutionPlanFromJson 10 str = Inr (plan', p')" and same: "same_plan sample_plan plan'"
    by blast
  have "output_value plan' = 2" using same by (simp add: same_plan_def sample_plan_def)
  moreover have "length (ep_nodes plan') = 2"
    using same by (auto simp: same_plan_def sample_plan_def dest: list_all2_lengthD)
  ultimately show ?thesis using s d by blast
qed

text \<open>
  What cannot be read back: the attributes of a target are 64-bit numbers, and are written as
  such, but read as \<^verbatim>\<open>int\<close>; an undefined worker is written as null, which the reader refuses.
\<close>

lemma large_attribute_unreadable:
  assumes "is_i32 (tgt_device_type t)" "is_i32 (tgt_device_id t)"
    and "is_i32 (da_max_threads_per_block (tgt_attrs t))" "is_i32 (da_warp_size (tgt_attrs t))"
    and "\<not> is_i32 (da_max_shared_memory_per_block (tgt_attrs t))"
  shows "ParseTargetObj (target_json (Some t)) ctx =
    throw (''int out of range in '' @ ctx @ ''.attrs.max_shared_memory_per_block'')"
  using assms by (simp add: ParseTargetObj_def ParseTargetAttrs_def target_json_def attrs_json_def
    J_kind_def reader_simps) (simp add: OI_def optional_field_def RI_def RI64_def RK_def J_kind_def
    FF_def)

lemma null_worker_unreadable:
  "ParseWorker ctx (i, worker_json None) st =
     throw (''Expected kind 5 in '' @ ctx @ ''.workers['' @ show_nat i @ ''], got 0'')"
  by (cases st) (simp add: ParseWorker_def worker_json_def RK_def J_kind_def index_ctx_def Let_def
    to_string_def show_nat.simps digit_char_def char_of_eq_iff)

end
