(* ===== verification/Pass_ContextProofs.thy ===== *)
theory Pass_ContextProofs
  imports Pass_Context
begin

text \<open>
  A context survives its passage through the attributes of a \<^verbatim>\<open>PrimFunc\<close>, and scopes restore
  the context of the thread however they nest.
\<close>

section \<open>Through the attributes of a \<^verbatim>\<open>PrimFunc\<close>\<close>

lemmas attr_keys = kPrimaryVirtualDeviceAttr_def kDefaultTargetAttr_def kDefaultDeviceAttr_def
  kMultiDeviceAttr_def kDiscoPlacementAttr_def

lemma attr_keys_distinct:
  "distinct [kPrimaryVirtualDeviceAttr, kDefaultTargetAttr, kDefaultDeviceAttr, kMultiDeviceAttr,
     kDiscoPlacementAttr]"
  by (simp add: attr_keys)

lemma map_of_set_attr:
  "map_of (set_attr key obj v m) k =
     (if k = key then (case v of None \<Rightarrow> map_of m k | Some x \<Rightarrow> Some (obj x)) else map_of m k)"
  by (cases v) (simp_all add: set_attr_def update_conv)

lemma attached:
  assumes "pc_defined ctx" "\<forall>k \<in> pass_ctx_keys. map_of ats k = None"
  shows
    "map_of (AttachPassContextAttrs ats ctx) kPrimaryVirtualDeviceAttr =
       map_option AttrVirtualDevice (pc_primary ctx)"
    "map_of (AttachPassContextAttrs ats ctx) kDefaultTargetAttr =
       map_option AttrTarget (pc_default_target ctx)"
    "map_of (AttachPassContextAttrs ats ctx) kDefaultDeviceAttr =
       map_option AttrDevice (pc_default_device ctx)"
    "map_of (AttachPassContextAttrs ats ctx) kMultiDeviceAttr =
       Some (AttrIntImm (if pc_multi_device ctx then 1 else 0))"
    "map_of (AttachPassContextAttrs ats ctx) kDiscoPlacementAttr =
       map_option AttrPlacement (pc_disco ctx)"
  using assms attr_keys_distinct
  by (auto simp: AttachPassContextAttrs_def Let_def map_of_set_attr update_conv pass_ctx_keys_def
    split: option.split)

text \<open>What a successful build tells of the first device.\<close>

lemma BuildFrom_single:
  assumes "BuildFromVirtualDevices api (Some v # vds) = Inr ctx"
  shows "\<exists>single. BuildFromVirtualDevices api [Some v] = Inr single \<and> pc_defined single \<and>
    pc_primary single = Some v \<and> pc_virtual_devices single = [Some v] \<and>
    pc_default_target single = pc_default_target ctx \<and> pc_default_device single = pc_default_device ctx"
    and "pc_defined ctx" "pc_primary ctx = Some v" "pc_default_device ctx = vd_device_obj v"
    "pc_disco ctx \<noteq> None"
proof -
  let ?target = "case (vd_target v, vd_device_obj v) of
      (None, Some dev) \<Rightarrow> sbind (BuildTarget api dev) (\<lambda>t. Inr (Some t)) | (t, _) \<Rightarrow> Inr t"
  obtain t where t: "?target = Inr t" "pc_default_target ctx = t"
    and ctx: "pc_defined ctx" "pc_primary ctx = Some v" "pc_default_device ctx = vd_device_obj v"
      "pc_disco ctx \<noteq> None"
    using assms by (auto simp: BuildFromVirtualDevices_def sbind_Inr_iff Let_def)
  have "\<exists>p. BuildDiscoPlacement api [Some v] 1 = Inr p"
    using t(1) by (auto simp: BuildDiscoPlacement_def place_device_def sbind_Inr_iff Let_def)
  then show "\<exists>single. BuildFromVirtualDevices api [Some v] = Inr single \<and> pc_defined single \<and>
    pc_primary single = Some v \<and> pc_virtual_devices single = [Some v] \<and>
    pc_default_target single = pc_default_target ctx \<and> pc_default_device single = pc_default_device ctx"
    using t ctx by (auto simp: BuildFromVirtualDevices_def Let_def)
  show "pc_defined ctx" "pc_primary ctx = Some v" "pc_default_device ctx = vd_device_obj v"
    "pc_disco ctx \<noteq> None" using ctx .
qed

text \<open>
C31. A context built from virtual devices and attached to the attributes of a PrimFunc is read
back by FromTIR with every field but the list of virtual devices, of which the first is kept.
\<close>

theorem pass_context_roundtrip:
  assumes "BuildFromVirtualDevices api vds = Inr ctx" "vds \<noteq> []"
    and "\<forall>k \<in> pass_ctx_keys. map_of ats k = None"
  shows "FromTIR api (Some (AttachPassContextAttrs ats ctx)) =
    Inr (ctx\<lparr>pc_virtual_devices := [pc_primary ctx]\<rparr>)"
proof -
  obtain v vs where vds: "vds = Some v # vs"
    using assms(1,2) by (auto simp: BuildFromVirtualDevices_def split: list.splits option.splits)
  note built = BuildFrom_single [OF assms(1) [unfolded vds]]
  obtain single where single: "BuildFromVirtualDevices api [Some v] = Inr single" "pc_defined single"
    "pc_primary single = Some v" "pc_virtual_devices single = [Some v]"
    "pc_default_target single = pc_default_target ctx" "pc_default_device single = pc_default_device ctx"
    using built(1) by blast
  note reads = attached [OF built(2) assms(3)]
  obtain d where d: "pc_disco ctx = Some d" using built(5) by blast
  have "FromTIR api (Some (AttachPassContextAttrs ats ctx)) =
      Inr (single\<lparr>pc_multi_device := pc_multi_device ctx, pc_disco := Some d\<rparr>)"
    using single built(2,3) by (cases "pc_default_target ctx"; cases "pc_default_device ctx")
      (simp_all add: FromTIR_def reads d Let_def)
  also have "single\<lparr>pc_multi_device := pc_multi_device ctx, pc_disco := Some d\<rparr> =
      ctx\<lparr>pc_virtual_devices := [pc_primary ctx]\<rparr>"
    using single built(2,3) d by (cases single; cases ctx) simp
  finally show ?thesis .
qed

lemma pass_context_roundtrip_witness:
  "\<exists>ctx. BuildFromVirtualDevices (\<lambda>d. Inr (''cpu'', default_attributes)) [Some (cpu_vd 5 0)] = Inr ctx \<and>
     FromTIR (\<lambda>d. Inr (''cpu'', default_attributes))
       (Some (AttachPassContextAttrs [(''global_symbol'', AttrOther 3)] ctx)) =
     Inr (ctx\<lparr>pc_virtual_devices := [pc_primary ctx]\<rparr>)"
proof -
  let ?api = "\<lambda>d. Inr (''cpu'', default_attributes)"
  obtain ctx where b: "BuildFromVirtualDevices ?api [Some (cpu_vd 5 0)] = Inr ctx"
    by (simp add: BuildFromVirtualDevices_def BuildDiscoPlacement_def place_device_def BuildTarget_def
      cpu_vd_def Let_def)
  have "\<forall>k \<in> pass_ctx_keys. map_of [(''global_symbol'', AttrOther 3)] k = None"
    by (simp add: pass_ctx_keys_def attr_keys)
  from pass_context_roundtrip [OF b _ this] b show ?thesis by blast
qed

section \<open>Scopes\<close>

text \<open>
  The runs of a thread whose contexts change through scopes only: nothing, one run after
  another, or a scope around a run.
\<close>

inductive scope_run :: "ThreadContext \<Rightarrow> ThreadContext \<Rightarrow> bool" where
  nothing: "scope_run t t"
| sequence: "scope_run t t1 \<Longrightarrow> scope_run t1 t2 \<Longrightarrow> scope_run t t2"
| around: "Scope_enter ctx t = (sc, t1) \<Longrightarrow> scope_run t1 t2 \<Longrightarrow> scope_run t (Scope_exit sc t2)"

definition thread_ok :: "ThreadContext \<Rightarrow> bool" where
  "thread_ok t \<longleftrightarrow> (if has_current_pass_ctx t then pc_defined (current_pass_ctx t)
     else current_pass_ctx t = PassContext_undefined)"

lemma thread_start_ok: "thread_ok thread_start"
  by (simp add: thread_ok_def thread_start_def)

lemma enter_ok:
  "Scope_enter ctx t = (sc, t1) \<Longrightarrow> thread_ok t \<Longrightarrow> thread_ok t1"
  by (auto simp: Scope_enter_def SetCurrent_def thread_ok_def split: if_splits)

lemma exit_restores:
  "Scope_enter ctx t = (sc, t1) \<Longrightarrow> thread_ok t \<Longrightarrow> t2 = t1 \<Longrightarrow> Scope_exit sc t2 = t"
  by (cases t) (auto simp: Scope_enter_def Scope_exit_def SetCurrent_def ClearCurrent_def Current_def
    thread_ok_def PassContext_undefined_def split: if_splits)

text \<open>
C32. However scopes nest and follow one another, a thread has after them the context it had
before them; inside a scope for a defined context, that context is the current one.
\<close>

theorem scopes_restore_context:
  assumes "scope_run t t'" "thread_ok t"
  shows "t' = t \<and> thread_ok t' \<and>
    (pc_defined ctx \<longrightarrow> Current (snd (Scope_enter ctx t')) = ctx)"
proof -
  have "t' = t" using assms
  proof induction
    case (around ctx t sc t1 t2)
    then show ?case using enter_ok exit_restores by blast
  qed auto
  then show ?thesis using assms(2) by (simp add: Scope_enter_def SetCurrent_def Current_def)
qed

definition defined_ctx :: PassContext where
  "defined_ctx = PassContext_undefined\<lparr>pc_defined := True\<rparr>"

lemma scopes_restore_context_witness:
  "scope_run thread_start (Scope_exit (fst (Scope_enter defined_ctx thread_start))
     (snd (Scope_enter defined_ctx thread_start))) \<and>
   Scope_exit (fst (Scope_enter defined_ctx thread_start))
     (snd (Scope_enter defined_ctx thread_start)) = thread_start"
proof -
  let ?e = "Scope_enter defined_ctx thread_start"
  have s: "scope_run thread_start (Scope_exit (fst ?e) (snd ?e))"
    by (rule scope_run.around [of defined_ctx _ _ "snd ?e"]) (simp_all add: scope_run.nothing)
  with scopes_restore_context [OF s thread_start_ok] show ?thesis by blast
qed

end
