(* ===== verification/Disco_Session.thy ===== *)
theory Disco_Session
  imports Base_Device TIR_IR "HOL-Library.Word"
begin

text \<open>
  Arrays in memory and the sessions of the distributed runtime: \<^verbatim>\<open>src/base/ndarray.cc\<close>,
  \<^verbatim>\<open>src/base/disco/dref.cc\<close> and \<^verbatim>\<open>src/base/disco/threaded_session.cc\<close>. A session is a file
  of registers, one list per worker; every access holds the mutex of the session, so the operations
  are atomic steps and are functions on the state of the session.
\<close>

section \<open>Arrays\<close>

text \<open>
  The shape, the element type and the bytes \<^verbatim>\<open>dl_tensor.data\<close> points to. The failure of an
  allocation is not modelled.
\<close>

record RuntimeArray =
  ra_shape :: "int list"
  ra_dtype :: DataType
  ra_bytes :: "8 word list"

definition dl_type :: "nat \<Rightarrow> nat \<Rightarrow> DataType" where
  "dl_type c b = \<lparr>code = c, bits = b, lanes = 1\<rparr>"

text \<open>The product of the dimensions in \<^verbatim>\<open>int64_t\<close>, and a size in \<^verbatim>\<open>size_t\<close>.\<close>

definition element_count :: "int list \<Rightarrow> int" where
  "element_count shape = fold (\<lambda>d n. i64 (n * d)) shape 1"

definition size_of_int :: "int \<Rightarrow> nat" where
  "size_of_int v = nat (v mod 2 ^ 64)"

definition NBytes_array :: "int list \<Rightarrow> DataType \<Rightarrow> nat" where
  "NBytes_array shape dt =
     (let bytes = size_of_int (element_count shape * int ((bits dt + 7) div 8)) in
      if bytes = 0 then 1 else bytes)"

definition RuntimeArray_new :: "int list \<Rightarrow> string \<Rightarrow> RuntimeArray" where
  "RuntimeArray_new shape dtype_str =
     (let dt = ParseDType dtype_str in
      \<lparr>ra_shape = shape, ra_dtype = dt, ra_bytes = replicate (NBytes_array shape dt) 0\<rparr>)"

text \<open>\<open>data\<close> is \<open>None\<close> when the pointer is null.\<close>

definition CopyFromBytes ::
  "RuntimeArray option \<Rightarrow> 8 word list option \<Rightarrow> nat \<Rightarrow> RuntimeArray res" where
  "CopyFromBytes array data nbytes =
     (case array of
        None \<Rightarrow> throw ''CopyFromBytes requires a defined NDArray''
      | Some a \<Rightarrow>
          if data = None \<and> nbytes \<noteq> 0 then throw ''CopyFromBytes received null data''
          else
            let expected = NBytes_array (ra_shape a) (ra_dtype a) in
            if nbytes \<noteq> expected then
              throw (''CopyFromBytes byte size mismatch: expected '' @ show_nat expected @
                '', got '' @ show_nat nbytes)
            else Inr (a\<lparr>ra_bytes := take nbytes (the data) @ drop nbytes (ra_bytes a)\<rparr>))"

section \<open>References\<close>

text \<open>A register number and whether the session of the reference is defined.\<close>

record DRefNode =
  dref_reg_id :: int
  dref_session :: bool

type_synonym DRef = "DRefNode option"

definition DRef_reg_id :: "DRef \<Rightarrow> int" where
  "DRef_reg_id ref = (case ref of None \<Rightarrow> -1 | Some r \<Rightarrow> dref_reg_id r)"

definition DRef_valid :: "DRef \<Rightarrow> bool" where
  "DRef_valid ref = (case ref of None \<Rightarrow> False | Some r \<Rightarrow> dref_reg_id r \<ge> 0 \<and> dref_session r)"

section \<open>The threaded session\<close>

record DiscoSessionNode =
  ds_num_workers :: int
  ds_num_groups :: int
  reg_count :: int
  ds_shutdown :: bool
  register_file :: "RuntimeArray option list list"

type_synonym DiscoSession = "DiscoSessionNode option"

definition ThreadedSession :: "int \<Rightarrow> int \<Rightarrow> DiscoSession" where
  "ThreadedSession num_workers groups =
     (let workers = (if num_workers > 0 then num_workers else 1) in
      Some \<lparr>ds_num_workers = workers,
        ds_num_groups = (if groups > 0 then groups else 1), reg_count = 0,
        ds_shutdown = False, register_file = replicate (nat workers) []\<rparr>)"

definition AllocateRegister :: "DiscoSessionNode \<Rightarrow> int \<times> DiscoSessionNode" where
  "AllocateRegister s =
     (reg_count s,
      s\<lparr>reg_count := reg_count s + 1, register_file := map (\<lambda>regs. regs @ [None]) (register_file s)\<rparr>)"

definition ValidateWorkerId :: "DiscoSessionNode \<Rightarrow> int \<Rightarrow> unit res" where
  "ValidateWorkerId s w =
     (if w < 0 \<or> w \<ge> ds_num_workers s then throw ''DiscoSession worker_id out of range'' else Inr ())"

definition ValidateRegId :: "DiscoSessionNode \<Rightarrow> int \<Rightarrow> unit res" where
  "ValidateRegId s r =
     (if r < 0 \<or> r \<ge> reg_count s then throw ''DiscoSession reg_id out of range'' else Inr ())"

definition GetRegister :: "DiscoSessionNode \<Rightarrow> int \<Rightarrow> int \<Rightarrow> RuntimeArray option res" where
  "GetRegister s w r =
     sbind (ValidateWorkerId s w) (\<lambda>_. sbind (ValidateRegId s r) (\<lambda>_.
       Inr (register_file s ! nat w ! nat r)))"

definition SetRegister ::
  "DiscoSessionNode \<Rightarrow> int \<Rightarrow> int \<Rightarrow> RuntimeArray option \<Rightarrow> DiscoSessionNode res" where
  "SetRegister s w r v =
     sbind (ValidateWorkerId s w) (\<lambda>_. sbind (ValidateRegId s r) (\<lambda>_.
       Inr (s\<lparr>register_file :=
         (register_file s)[nat w := (register_file s ! nat w)[nat r := v]]\<rparr>)))"

definition num_workers :: "DiscoSession \<Rightarrow> int" where
  "num_workers s = (case s of None \<Rightarrow> 0 | Some n \<Rightarrow> ds_num_workers n)"

definition session_groups :: "DiscoSession \<Rightarrow> int" where
  "session_groups s = (case s of None \<Rightarrow> 0 | Some n \<Rightarrow> ds_num_groups n)"

definition NewDRef :: "DiscoSession \<Rightarrow> (DRef \<times> DiscoSession) res" where
  "NewDRef s =
     (case s of
        None \<Rightarrow> throw ''NewDRef requires a defined DiscoSession''
      | Some n \<Rightarrow>
          let (r, n') = AllocateRegister n in
          Inr (Some \<lparr>dref_reg_id = r, dref_session = True\<rparr>, Some n'))"

definition Session_Get :: "DiscoSession \<Rightarrow> int \<Rightarrow> DRef \<Rightarrow> RuntimeArray option res" where
  "Session_Get s w ref =
     (case s of
        None \<Rightarrow> Inr None
      | Some n \<Rightarrow> if \<not> DRef_valid ref then Inr None else GetRegister n w (DRef_reg_id ref))"

definition Session_Set ::
  "DiscoSession \<Rightarrow> int \<Rightarrow> DRef \<Rightarrow> RuntimeArray option \<Rightarrow> DiscoSession res" where
  "Session_Set s w ref v =
     (case s of
        None \<Rightarrow> throw ''DiscoSession::Set requires valid session and DRef''
      | Some n \<Rightarrow>
          if \<not> DRef_valid ref then throw ''DiscoSession::Set requires valid session and DRef''
          else sbind (SetRegister n w (DRef_reg_id ref) v) (\<lambda>n. Inr (Some n)))"

definition Session_SyncWorker :: "DiscoSession \<Rightarrow> int \<Rightarrow> DiscoSession res" where
  "Session_SyncWorker s w =
     (case s of None \<Rightarrow> Inr s | Some n \<Rightarrow> sbind (ValidateWorkerId n w) (\<lambda>_. Inr s))"

definition Session_Shutdown :: "DiscoSession \<Rightarrow> DiscoSession" where
  "Session_Shutdown s = map_option (\<lambda>n. n\<lparr>ds_shutdown := True\<rparr>) s"

text \<open>The numbers of the workers and of the groups, in order.\<close>

definition worker_range :: "int \<Rightarrow> int list" where
  "worker_range n = [0..n - 1]"

text \<open>\<^verbatim>\<open>workers / groups\<close>: the number of groups of a defined session is positive.\<close>

definition workers_per_group :: "DiscoSession \<Rightarrow> int" where
  "workers_per_group s = num_workers s div session_groups s"

definition Session_Empty ::
  "DiscoSession \<Rightarrow> int list \<Rightarrow> string \<Rightarrow> bool \<Rightarrow> bool \<Rightarrow> (DRef \<times> DiscoSession) res" where
  "Session_Empty s shape dtype_s worker0_only in_group =
     sbind (NewDRef s) (\<lambda>(ref, s).
     let set_at = (\<lambda>w s. Session_Set s w ref (Some (RuntimeArray_new shape dtype_s))) in
     sbind
       (if \<not> worker0_only then sfold set_at (worker_range (num_workers s)) s
        else if \<not> in_group then set_at 0 s
        else sfold (\<lambda>g. set_at (g * workers_per_group s)) (worker_range (session_groups s)) s)
       (\<lambda>s. Inr (ref, s)))"

section \<open>The number of the current worker\<close>

definition CurrentWorkerId :: "int \<Rightarrow> int" where
  "CurrentWorkerId tls_worker_id = tls_worker_id"

definition SetCurrentWorkerId :: "int \<Rightarrow> int \<Rightarrow> int" where
  "SetCurrentWorkerId worker tls_worker_id = worker"

section \<open>The registers as a store\<close>

text \<open>Every worker has a register for every number handed out.\<close>

definition session_ok :: "DiscoSessionNode \<Rightarrow> bool" where
  "session_ok s \<longleftrightarrow>
     0 < ds_num_workers s \<and> 0 < ds_num_groups s \<and> 0 \<le> reg_count s \<and>
     int (length (register_file s)) = ds_num_workers s \<and>
     (\<forall>regs \<in> set (register_file s). int (length regs) = reg_count s)"

definition worker_in :: "DiscoSessionNode \<Rightarrow> int \<Rightarrow> bool" where
  "worker_in s w \<longleftrightarrow> 0 \<le> w \<and> w < ds_num_workers s"

definition ref_in :: "DiscoSessionNode \<Rightarrow> DRef \<Rightarrow> bool" where
  "ref_in s ref \<longleftrightarrow> DRef_valid ref \<and> DRef_reg_id ref < reg_count s"

text \<open>What register \<open>ref\<close> of worker \<open>w\<close> holds.\<close>

definition held :: "DiscoSessionNode \<Rightarrow> int \<Rightarrow> DRef \<Rightarrow> RuntimeArray option" where
  "held s w ref = register_file s ! nat w ! nat (DRef_reg_id ref)"

definition write_reg ::
  "DiscoSessionNode \<Rightarrow> int \<Rightarrow> DRef \<Rightarrow> RuntimeArray option \<Rightarrow> DiscoSessionNode" where
  "write_reg s w ref v = s\<lparr>register_file :=
     (register_file s)[nat w := (register_file s ! nat w)[nat (DRef_reg_id ref) := v]]\<rparr>"

lemma valid_reg: "DRef_valid ref \<Longrightarrow> 0 \<le> DRef_reg_id ref"
  by (simp add: DRef_valid_def DRef_reg_id_def split: option.splits)

lemma session_start_ok: "\<exists>s. ThreadedSession n g = Some s \<and> session_ok s \<and> reg_count s = 0"
  by (simp add: ThreadedSession_def session_ok_def Let_def)

lemma Session_Get_held:
  assumes "worker_in s w" "ref_in s ref"
  shows "Session_Get (Some s) w ref = Inr (held s w ref)"
  using assms valid_reg [of ref]
  by (simp add: Session_Get_def GetRegister_def ValidateWorkerId_def ValidateRegId_def worker_in_def
      ref_in_def held_def)

lemma Session_Set_write:
  assumes "worker_in s w" "ref_in s ref"
  shows "Session_Set (Some s) w ref v = Inr (Some (write_reg s w ref v))"
  using assms valid_reg [of ref]
  by (simp add: Session_Set_def SetRegister_def ValidateWorkerId_def ValidateRegId_def worker_in_def
      ref_in_def write_reg_def)

lemma Session_Set_bad_worker:
  assumes "\<not> worker_in s w" "DRef_valid ref"
  shows "Session_Set (Some s) w ref v = throw ''DiscoSession worker_id out of range''"
proof -
  have "w < 0 \<or> w \<ge> ds_num_workers s" using assms(1) by (auto simp: worker_in_def)
  then show ?thesis using assms(2) by (simp add: Session_Set_def SetRegister_def ValidateWorkerId_def)
qed

lemma write_reg_simps [simp]:
  "ds_num_workers (write_reg s w ref v) = ds_num_workers s"
  "ds_num_groups (write_reg s w ref v) = ds_num_groups s"
  "reg_count (write_reg s w ref v) = reg_count s"
  "worker_in (write_reg s w ref v) = worker_in s"
  "ref_in (write_reg s w ref v) = ref_in s"
  by (auto simp: write_reg_def worker_in_def ref_in_def fun_eq_iff)

lemma write_reg_ok [simp]:
  assumes "session_ok s"
  shows "session_ok (write_reg s w ref v)"
proof (cases "nat w < length (register_file s)")
  case True
  then have "int (length ((register_file s ! nat w)[nat (DRef_reg_id ref) := v])) = reg_count s"
    using assms by (simp add: session_ok_def)
  then show ?thesis
    using assms set_update_subset_insert [of "register_file s" "nat w" "(register_file s ! nat w)[nat (DRef_reg_id ref) := v]"]
    unfolding session_ok_def write_reg_def by auto
next
  case False
  then show ?thesis using assms by (simp add: session_ok_def write_reg_def list_update_beyond)
qed

lemma row_length:
  assumes "session_ok s" "worker_in s w"
  shows "nat w < length (register_file s)" "length (register_file s ! nat w) = nat (reg_count s)"
proof -
  show w: "nat w < length (register_file s)"
    using assms by (auto simp: session_ok_def worker_in_def)
  then have "int (length (register_file s ! nat w)) = reg_count s"
    using assms(1) by (simp add: session_ok_def)
  then show "length (register_file s ! nat w) = nat (reg_count s)" by simp
qed

text \<open>A register holds what was last written to it, and the others are not changed.\<close>

lemma held_write_reg:
  assumes "session_ok s" "worker_in s w" "ref_in s ref" "worker_in s w'" "ref_in s ref'"
  shows "held (write_reg s w ref v) w' ref' =
    (if w' = w \<and> DRef_reg_id ref' = DRef_reg_id ref then v else held s w' ref')"
proof -
  note w = row_length [OF assms(1,2)] row_length [OF assms(1,4)]
  have r: "nat (DRef_reg_id ref) < length (register_file s ! nat w)"
    using assms(3) valid_reg [of ref] w by (auto simp: ref_in_def)
  have "nat w = nat w' \<longleftrightarrow> w = w'" "nat (DRef_reg_id ref) = nat (DRef_reg_id ref') \<longleftrightarrow> DRef_reg_id ref = DRef_reg_id ref'"
    using assms(2-5) valid_reg by (auto simp: worker_in_def ref_in_def eq_nat_nat_iff)
  then show ?thesis using w r by (auto simp: held_def write_reg_def nth_list_update)
qed

text \<open>A new register: it is fresh and undefined on every worker, and the old ones are kept.\<close>

lemma NewDRef_spec:
  assumes "session_ok s"
  obtains ref s' where "NewDRef (Some s) = Inr (ref, Some s')" "session_ok s'" "ref_in s' ref"
    "DRef_reg_id ref = reg_count s" "ds_num_workers s' = ds_num_workers s"
    "ds_num_groups s' = ds_num_groups s" "reg_count s' = reg_count s + 1"
    "\<And>w. worker_in s w \<Longrightarrow> held s' w ref = None"
    "\<And>w r. worker_in s w \<Longrightarrow> ref_in s r \<Longrightarrow> held s' w r = held s w r"
proof
  let ?s = "snd (AllocateRegister s)"
  let ?ref = "Some \<lparr>dref_reg_id = reg_count s, dref_session = True\<rparr>"
  show "NewDRef (Some s) = Inr (?ref, Some ?s)" by (simp add: NewDRef_def AllocateRegister_def)
  show "session_ok ?s" using assms by (auto simp: session_ok_def AllocateRegister_def)
  show "ref_in ?s ?ref" using assms
    by (simp add: ref_in_def DRef_valid_def DRef_reg_id_def AllocateRegister_def session_ok_def)
  show "held ?s w ?ref = None" if "worker_in s w" for w
    using row_length [OF assms that]
    by (simp add: held_def AllocateRegister_def DRef_reg_id_def nth_append)
  show "held ?s w r = held s w r" if "worker_in s w" "ref_in s r" for w r
    using row_length [OF assms that(1)] that(2) valid_reg [of r]
    by (simp add: held_def AllocateRegister_def ref_in_def nth_append nat_less_iff)
qed (simp_all add: AllocateRegister_def DRef_reg_id_def)

end
