(* ===== verification/Disco_CCL.thy ===== *)
theory Disco_CCL
  imports Disco_Session
begin

text \<open>
  The communication backends of \<^verbatim>\<open>src/base/disco/ccl_cpu.cc\<close> and
  \<^verbatim>\<open>src/base/disco/ccl_nccl.cc\<close>, behind the interface \<^verbatim>\<open>CCLBackend\<close> of
  \<^verbatim>\<open>include/base/disco/ccl_backend.h\<close>. An operation that throws is its error: the writes it has
  made before are not described.
\<close>

section \<open>Bytes and elements\<close>

text \<open>Numbers are stored with their lowest byte first.\<close>

definition bytes_of_word :: "nat \<Rightarrow> 'w::len word \<Rightarrow> 8 word list" where
  "bytes_of_word k w = map (\<lambda>i. ucast (drop_bit (8 * i) w)) [0..<k]"

fun word_of_bytes :: "8 word list \<Rightarrow> 'w::len word" where
  "word_of_bytes [] = 0"
| "word_of_bytes (b # bs) = or (ucast b) (push_bit 8 (word_of_bytes bs))"

definition element_at :: "nat \<Rightarrow> 8 word list \<Rightarrow> nat \<Rightarrow> 'w::len word" where
  "element_at k bs i = word_of_bytes (take k (drop (k * i) bs))"

text \<open>\<open>a[i] += b[i]\<close> for the first \<open>numel\<close> elements of \<open>k\<close> bytes.\<close>

definition add_elements ::
  "nat \<Rightarrow> ('w::len word \<Rightarrow> 'w word \<Rightarrow> 'w word) \<Rightarrow> nat \<Rightarrow> 8 word list \<Rightarrow> 8 word list \<Rightarrow> 8 word list" where
  "add_elements k add numel a b =
     concat (map (\<lambda>i. bytes_of_word k (add (element_at k a i) (element_at k b i))) [0..<numel]) @
     drop (k * numel) a"

text \<open>The additions of \<^verbatim>\<open>float\<close> and \<^verbatim>\<open>double\<close> on their bit patterns.\<close>

record FloatAdd =
  add_f32 :: "32 word \<Rightarrow> 32 word \<Rightarrow> 32 word"
  add_f64 :: "64 word \<Rightarrow> 64 word \<Rightarrow> 64 word"

definition memcpy :: "8 word list \<Rightarrow> nat \<Rightarrow> 8 word list \<Rightarrow> nat \<Rightarrow> 8 word list" where
  "memcpy dst offset src n = take offset dst @ take n src @ drop (offset + n) dst"

section \<open>Helpers of the CPU backend\<close>

definition DTypeToString_ccl :: "DataType \<Rightarrow> string res" where
  "DTypeToString_ccl dt =
     (if lanes dt \<noteq> 1 then throw ''CpuCCLBackend only supports lanes=1''
      else if code dt = 2 \<and> bits dt = 32 then Inr ''float32''
      else if code dt = 2 \<and> bits dt = 64 then Inr ''float64''
      else if code dt = 0 \<and> bits dt = 32 then Inr ''int32''
      else if code dt = 0 \<and> bits dt = 64 then Inr ''int64''
      else if code dt = 0 \<and> bits dt = 8 then Inr ''int8''
      else throw ''Unsupported dtype in CpuCCLBackend'')"

definition NumElements :: "RuntimeArray option \<Rightarrow> int" where
  "NumElements array = (case array of None \<Rightarrow> 0 | Some a \<Rightarrow> element_count (ra_shape a))"

definition NBytes :: "RuntimeArray \<Rightarrow> nat" where
  "NBytes a =
     size_of_int (NumElements (Some a) * (int (bits (ra_dtype a) div 8) * int (lanes (ra_dtype a))))"

definition CloneArray :: "RuntimeArray option \<Rightarrow> RuntimeArray option res" where
  "CloneArray src =
     (case src of
        None \<Rightarrow> Inr None
      | Some a \<Rightarrow>
          sbind (DTypeToString_ccl (ra_dtype a)) (\<lambda>dt.
          let dst = RuntimeArray_new (ra_shape a) dt in
          Inr (Some (dst\<lparr>ra_bytes := memcpy (ra_bytes dst) 0 (ra_bytes a) (NBytes a)\<rparr>))))"

text \<open>The new contents of \<open>acc\<close>.\<close>

definition AddInPlace ::
  "FloatAdd \<Rightarrow> RuntimeArray option \<Rightarrow> RuntimeArray option \<Rightarrow> RuntimeArray option res" where
  "AddInPlace F acc_ref other_ref =
     (case (acc_ref, other_ref) of
        (Some acc, Some other) \<Rightarrow>
          if NumElements acc_ref \<noteq> NumElements other_ref
          then throw ''AllReduce requires equal tensor size''
          else
            let dt = ra_dtype acc; numel = nat (NumElements acc_ref);
                added = (\<lambda>bs. Inr (Some (acc\<lparr>ra_bytes := bs\<rparr>))) in
            if code dt = 2 \<and> bits dt = 32
            then added (add_elements 4 (add_f32 F) numel (ra_bytes acc) (ra_bytes other))
            else if code dt = 2 \<and> bits dt = 64
            then added (add_elements 8 (add_f64 F) numel (ra_bytes acc) (ra_bytes other))
            else if code dt = 0 \<and> bits dt = 32
            then added (add_elements 4 ((+) :: 32 word \<Rightarrow> _) numel (ra_bytes acc) (ra_bytes other))
            else if code dt = 0 \<and> bits dt = 64
            then added (add_elements 8 ((+) :: 64 word \<Rightarrow> _) numel (ra_bytes acc) (ra_bytes other))
            else throw ''Unsupported dtype for sum allreduce''
      | _ \<Rightarrow> throw ''AllReduce requires defined arrays'')"

definition SliceFirstDim :: "RuntimeArray option \<Rightarrow> int \<Rightarrow> int \<Rightarrow> RuntimeArray option res" where
  "SliceFirstDim src shard_start shard_len =
     (case src of
        None \<Rightarrow> Inr None
      | Some a \<Rightarrow>
          if ra_shape a = [] then throw ''Scatter expects rank >= 1 tensor''
          else if shard_start < 0 \<or> shard_len < 0 \<or> i64 (shard_start + shard_len) > hd (ra_shape a)
          then throw ''Scatter shard out of bounds''
          else
            sbind (DTypeToString_ccl (ra_dtype a)) (\<lambda>dt.
            let dst = RuntimeArray_new (shard_len # tl (ra_shape a)) dt;
                inner = element_count (tl (ra_shape a));
                bytes_per_elem = bits (ra_dtype a) div 8;
                copy_bytes = size_of_int (size_of_int (i64 (shard_len * inner)) * bytes_per_elem);
                src_offset = size_of_int (size_of_int (i64 (shard_start * inner)) * bytes_per_elem)
            in Inr (Some (dst\<lparr>ra_bytes :=
                 memcpy (ra_bytes dst) 0 (drop src_offset (ra_bytes a)) copy_bytes\<rparr>))))"

text \<open>The first dimension of every shard; one of an array without dimensions is not there.\<close>

definition shard_dim0 :: "RuntimeArray option \<Rightarrow> int \<Rightarrow> int res" where
  "shard_dim0 arr total_dim0 =
     (case arr of
        None \<Rightarrow> throw ''Gather source contains undefined shard''
      | Some a \<Rightarrow> if ra_shape a = [] then Inl OutOfRange else Inr (i64 (total_dim0 + hd (ra_shape a))))"

definition append_shard ::
  "int \<Rightarrow> nat \<Rightarrow> RuntimeArray option \<Rightarrow> 8 word list \<times> nat \<Rightarrow> 8 word list \<times> nat" where
  "append_shard inner bytes_per_elem arr = (\<lambda>(dst, offset).
     case arr of
       None \<Rightarrow> (dst, offset)
     | Some a \<Rightarrow>
         let n = size_of_int (size_of_int (i64 (hd (ra_shape a) * inner)) * bytes_per_elem) in
         (memcpy dst offset (ra_bytes a) n, offset + n))"

definition ConcatFirstDim :: "RuntimeArray option list \<Rightarrow> RuntimeArray option res" where
  "ConcatFirstDim arrays =
     (case arrays of
        [] \<Rightarrow> Inr None
      | None # _ \<Rightarrow> Inr None
      | Some first # _ \<Rightarrow>
          if ra_shape first = [] then throw ''Gather expects rank >= 1 tensor''
          else
            sbind (sfold shard_dim0 arrays 0) (\<lambda>total_dim0.
            sbind (DTypeToString_ccl (ra_dtype first)) (\<lambda>dt.
            let dst = RuntimeArray_new (total_dim0 # tl (ra_shape first)) dt;
                inner = element_count (tl (ra_shape first));
                bytes_per_elem = bits (ra_dtype first) div 8
            in Inr (Some (dst\<lparr>ra_bytes :=
                 fst (fold (append_shard inner bytes_per_elem) arrays (ra_bytes dst, 0))\<rparr>)))))"

section \<open>The operations of the CPU backend\<close>

text \<open>\<^verbatim>\<open>session.Set(worker, ref, CloneArray(array))\<close>, a step of most operations.\<close>

definition set_clone ::
  "DRef \<Rightarrow> RuntimeArray option \<Rightarrow> int \<Rightarrow> DiscoSession \<Rightarrow> DiscoSession res" where
  "set_clone dst array w s = sbind (CloneArray array) (\<lambda>a. Session_Set s w dst a)"

definition Cpu_Copy :: "DiscoSession \<Rightarrow> DRef \<Rightarrow> DRef \<Rightarrow> int \<Rightarrow> int \<Rightarrow> DiscoSession res" where
  "Cpu_Copy s src dst src_worker dst_worker =
     sbind (Session_Get s src_worker src) (\<lambda>src_array.
     if src_array = None then throw ''kxc.disco.copy source is undefined''
     else set_clone dst src_array dst_worker s)"

text \<open>The accumulation over the workers: undefined arrays are skipped.\<close>

definition reduce_worker ::
  "FloatAdd \<Rightarrow> DiscoSession \<Rightarrow> DRef \<Rightarrow> int \<Rightarrow> RuntimeArray option \<Rightarrow> RuntimeArray option res" where
  "reduce_worker F s src w acc =
     sbind (Session_Get s w src) (\<lambda>v.
     if v = None then Inr acc
     else if acc = None then CloneArray v
     else AddInPlace F acc v)"

definition Cpu_AllReduce ::
  "FloatAdd \<Rightarrow> DiscoSession \<Rightarrow> DRef \<Rightarrow> DRef \<Rightarrow> string \<Rightarrow> bool \<Rightarrow> DiscoSession res" where
  "Cpu_AllReduce F s src dst reduce_kind in_group =
     (if reduce_kind \<noteq> ''sum'' then throw ''CpuCCLBackend supports only sum allreduce''
      else
        sbind (sfold (reduce_worker F s src) (worker_range (num_workers s)) None) (\<lambda>acc.
        if acc = None then throw ''AllReduce has no source tensors''
        else sfold (set_clone dst acc) (worker_range (num_workers s)) s))"

text \<open>The workers of group \<open>g\<close>, its first worker first.\<close>

definition group_workers :: "DiscoSession \<Rightarrow> int \<Rightarrow> int list" where
  "group_workers s g = map (\<lambda>i. g * workers_per_group s + i) (worker_range (workers_per_group s))"

definition broadcast_group ::
  "DRef \<Rightarrow> DRef \<Rightarrow> RuntimeArray option \<Rightarrow> int \<Rightarrow> DiscoSession \<Rightarrow> DiscoSession res" where
  "broadcast_group src dst root_array g s =
     sbind (Session_Get s (g * workers_per_group s) src) (\<lambda>v.
     sfold (set_clone dst (if v = None then root_array else v)) (group_workers s g) s)"

definition Cpu_BroadcastFromWorker0 ::
  "DiscoSession \<Rightarrow> DRef \<Rightarrow> DRef \<Rightarrow> bool \<Rightarrow> DiscoSession res" where
  "Cpu_BroadcastFromWorker0 s src dst in_group =
     sbind (Session_Get s 0 src) (\<lambda>root_array.
     if root_array = None then throw ''Broadcast source on worker0 is undefined''
     else if \<not> in_group then sfold (set_clone dst root_array) (worker_range (num_workers s)) s
     else sfold (broadcast_group src dst root_array) (worker_range (session_groups s)) s)"

text \<open>Worker \<open>w\<close> receives part \<open>i\<close>.\<close>

definition set_slice ::
  "DRef \<Rightarrow> RuntimeArray option \<Rightarrow> int \<Rightarrow> int \<times> int \<Rightarrow> DiscoSession \<Rightarrow> DiscoSession res" where
  "set_slice dst array shard = (\<lambda>(w, i) s.
     sbind (SliceFirstDim array (i * shard) shard) (\<lambda>a. Session_Set s w dst a))"

definition scatter_group ::
  "DRef \<Rightarrow> DRef \<Rightarrow> RuntimeArray option \<Rightarrow> int \<Rightarrow> int \<Rightarrow> DiscoSession \<Rightarrow> DiscoSession res" where
  "scatter_group src dst root_array shard g s =
     sbind (Session_Get s (g * workers_per_group s) src) (\<lambda>v.
     sfold (set_slice dst (if v = None then root_array else v) shard)
       (zip (group_workers s g) (worker_range (workers_per_group s))) s)"

text \<open>With more groups than workers the receivers of a group are none and the remainder divides by zero.\<close>

definition Cpu_ScatterFromWorker0 ::
  "DiscoSession \<Rightarrow> DRef \<Rightarrow> DRef \<Rightarrow> bool \<Rightarrow> DiscoSession res" where
  "Cpu_ScatterFromWorker0 s src dst in_group =
     sbind (Session_Get s 0 src) (\<lambda>root_array.
     case root_array of
       None \<Rightarrow> throw ''Scatter source on worker0 is undefined''
     | Some a \<Rightarrow>
         let receivers = (if in_group then workers_per_group s else num_workers s) in
         if ra_shape a = []
         then throw ''Scatter expects first dimension divisible by receiver count''
         else if receivers = 0 then Inl DivisionByZero
         else if hd (ra_shape a) smod receivers \<noteq> 0
         then throw ''Scatter expects first dimension divisible by receiver count''
         else
           let shard = hd (ra_shape a) sdiv receivers in
           if \<not> in_group
           then sfold (set_slice dst root_array shard)
             (zip (worker_range (num_workers s)) (worker_range (num_workers s))) s
           else sfold (scatter_group src dst root_array shard) (worker_range (session_groups s)) s)"

definition gather_from :: "DRef \<Rightarrow> DRef \<Rightarrow> int list \<Rightarrow> int \<Rightarrow> DiscoSession \<Rightarrow> DiscoSession res" where
  "gather_from src dst ws root_worker s =
     sbind (smap (\<lambda>w. Session_Get s w src) ws) (\<lambda>shards.
     sbind (ConcatFirstDim shards) (\<lambda>a. Session_Set s root_worker dst a))"

definition Cpu_GatherToWorker0 ::
  "DiscoSession \<Rightarrow> DRef \<Rightarrow> DRef \<Rightarrow> bool \<Rightarrow> DiscoSession res" where
  "Cpu_GatherToWorker0 s src dst in_group =
     (if \<not> in_group then gather_from src dst (worker_range (num_workers s)) 0 s
      else if session_groups s = 0 then Inl DivisionByZero
      else sfold (\<lambda>g s. gather_from src dst (group_workers s g) (g * workers_per_group s) s)
        (worker_range (session_groups s)) s)"

definition Cpu_SendToWorker :: "DiscoSession \<Rightarrow> DRef \<Rightarrow> DRef \<Rightarrow> int \<Rightarrow> DiscoSession res" where
  "Cpu_SendToWorker s src dst receiver_worker =
     sbind (Session_Get s 0 src) (\<lambda>v.
     if v = None then throw ''SendToWorker expects source on worker0''
     else set_clone dst v receiver_worker s)"

definition Cpu_RecvFromWorker :: "DiscoSession \<Rightarrow> DRef \<Rightarrow> DRef \<Rightarrow> int \<Rightarrow> DiscoSession res" where
  "Cpu_RecvFromWorker s src dst sender_worker =
     sbind (Session_Get s sender_worker src) (\<lambda>v.
     if v = None then throw ''RecvFromWorker source is undefined''
     else set_clone dst v 0 s)"

section \<open>Backends\<close>

record CCLBackend =
  ccl_Copy :: "DiscoSession \<Rightarrow> DRef \<Rightarrow> DRef \<Rightarrow> int \<Rightarrow> int \<Rightarrow> DiscoSession res"
  ccl_AllReduce :: "DiscoSession \<Rightarrow> DRef \<Rightarrow> DRef \<Rightarrow> string \<Rightarrow> bool \<Rightarrow> DiscoSession res"
  ccl_BroadcastFromWorker0 :: "DiscoSession \<Rightarrow> DRef \<Rightarrow> DRef \<Rightarrow> bool \<Rightarrow> DiscoSession res"
  ccl_ScatterFromWorker0 :: "DiscoSession \<Rightarrow> DRef \<Rightarrow> DRef \<Rightarrow> bool \<Rightarrow> DiscoSession res"
  ccl_GatherToWorker0 :: "DiscoSession \<Rightarrow> DRef \<Rightarrow> DRef \<Rightarrow> bool \<Rightarrow> DiscoSession res"
  ccl_SendToWorker :: "DiscoSession \<Rightarrow> DRef \<Rightarrow> DRef \<Rightarrow> int \<Rightarrow> DiscoSession res"
  ccl_RecvFromWorker :: "DiscoSession \<Rightarrow> DRef \<Rightarrow> DRef \<Rightarrow> int \<Rightarrow> DiscoSession res"
  ccl_SyncWorker :: "DiscoSession \<Rightarrow> int \<Rightarrow> DiscoSession res"

definition CpuCCLBackend :: "FloatAdd \<Rightarrow> CCLBackend" where
  "CpuCCLBackend F = \<lparr>ccl_Copy = Cpu_Copy, ccl_AllReduce = Cpu_AllReduce F,
     ccl_BroadcastFromWorker0 = Cpu_BroadcastFromWorker0,
     ccl_ScatterFromWorker0 = Cpu_ScatterFromWorker0,
     ccl_GatherToWorker0 = Cpu_GatherToWorker0, ccl_SendToWorker = Cpu_SendToWorker,
     ccl_RecvFromWorker = Cpu_RecvFromWorker, ccl_SyncWorker = Session_SyncWorker\<rparr>"

definition nccl_error :: "DiscoSession res" where
  "nccl_error = throw ''NCCL backend is not implemented in this phase''"

definition NcclCCLBackend :: CCLBackend where
  "NcclCCLBackend = \<lparr>ccl_Copy = \<lambda>_ _ _ _ _. nccl_error, ccl_AllReduce = \<lambda>_ _ _ _ _. nccl_error,
     ccl_BroadcastFromWorker0 = \<lambda>_ _ _ _. nccl_error,
     ccl_ScatterFromWorker0 = \<lambda>_ _ _ _. nccl_error,
     ccl_GatherToWorker0 = \<lambda>_ _ _ _. nccl_error, ccl_SendToWorker = \<lambda>_ _ _ _. nccl_error,
     ccl_RecvFromWorker = \<lambda>_ _ _ _. nccl_error, ccl_SyncWorker = \<lambda>_ _. nccl_error\<rparr>"

end
