(* ===== verification/Disco_CCLProofs.thy ===== *)
theory Disco_CCLProofs
  imports Disco_CCL
begin

text \<open>
  What the collectives of the CPU backend compute: a scatter followed by a gather gives the array
  back, and a reduction leaves the sum of all workers on every worker.
\<close>

section \<open>Bytes\<close>

lemma bit_word_of_bytes:
  "bit (word_of_bytes bs :: 'w::len word) n \<longleftrightarrow>
     n < LENGTH('w) \<and> n div 8 < length bs \<and> bit (bs ! (n div 8)) (n mod 8)"
proof (induction bs arbitrary: n)
  case Nil
  then show ?case by simp
next
  case (Cons b bs)
  show ?case
  proof (cases "n < 8")
    case True
    then show ?thesis by (auto simp: bit_or_iff bit_unsigned_iff bit_push_bit_iff)
  next
    case False
    then have "\<not> bit b n" by (auto dest: bit_imp_le_length)
    moreover have "n div 8 = Suc ((n - 8) div 8)" "(n - 8) mod 8 = n mod 8"
      using False by (simp_all add: le_div_geq le_mod_geq)
    ultimately show ?thesis using False Cons.IH [of "n - 8"]
      by (auto simp: bit_or_iff bit_unsigned_iff bit_push_bit_iff)
  qed
qed

lemma word_of_bytes_of_word:
  assumes "LENGTH('w::len) = 8 * k"
  shows "word_of_bytes (bytes_of_word k w) = (w :: 'w word)"
proof (rule bit_word_eqI)
  fix n
  assume n: "n < LENGTH('w)"
  then have "n div 8 < k" using assms by auto
  moreover have "bit (ucast (drop_bit (8 * (n div 8)) w) :: 8 word) (n mod 8) = bit w n"
    by (simp add: bit_unsigned_iff bit_drop_bit_eq)
  ultimately show "bit (word_of_bytes (bytes_of_word k w) :: 'w word) n = bit w n"
    using n by (simp add: bit_word_of_bytes bytes_of_word_def)
qed

lemma length_bytes_of_word [simp]: "length (bytes_of_word k w) = k"
  by (simp add: bytes_of_word_def)

lemma nth_chunk:
  "\<forall>x \<in> set xs. length (g x) = k \<Longrightarrow> i < length xs \<Longrightarrow>
     take k (drop (k * i) (concat (map g xs) @ r)) = g (xs ! i)"
proof (induction xs arbitrary: i)
  case (Cons x xs)
  then show ?case by (cases i) simp_all
qed simp

lemma concat_chunks: "concat (map (\<lambda>i. take m (drop (i * m) bs)) [0..<n]) = take (n * m) bs"
proof (induction n)
  case (Suc n)
  have "take (Suc n * m) bs = take (n * m) bs @ take m (drop (n * m) bs)"
    by (simp add: take_add [symmetric] add.commute)
  then show ?case using Suc.IH by simp
qed simp

text \<open>The elements of a sum are the sums of the elements.\<close>

lemma element_at_add:
  fixes add :: "'w::len word \<Rightarrow> 'w word \<Rightarrow> 'w word"
  assumes "LENGTH('w) = 8 * k" "i < numel"
  shows "element_at k (add_elements k add numel a b) i = add (element_at k a i) (element_at k b i)"
proof -
  let ?g = "\<lambda>i. bytes_of_word k (add (element_at k a i) (element_at k b i))"
  have "take k (drop (k * i) (add_elements k add numel a b)) = ?g i"
    unfolding add_elements_def using nth_chunk [of "[0..<numel]" ?g k i "drop (k * numel) a"] assms(2)
    by (simp del: drop_append take_append)
  then show ?thesis unfolding element_at_def [of k "add_elements k add numel a b"]
    by (simp add: word_of_bytes_of_word [OF assms(1)])
qed

lemma length_add_elements:
  "k * numel \<le> length a \<Longrightarrow> length (add_elements k add numel a b) = length a"
  by (simp add: add_elements_def length_concat comp_def sum_list_triv mult.commute)

section \<open>Well-formed arrays\<close>

definition supported_type :: "DataType \<Rightarrow> bool" where
  "supported_type dt \<longleftrightarrow> lanes dt = 1 \<and> (code dt = 2 \<and> bits dt \<in> {32, 64} \<or> code dt = 0 \<and> bits dt \<in> {8, 32, 64})"

definition elem_bytes :: "DataType \<Rightarrow> nat" where
  "elem_bytes dt = bits dt div 8"

text \<open>Positive dimensions, a supported type, and as many bytes as the elements need.\<close>

definition array_ok :: "RuntimeArray \<Rightarrow> bool" where
  "array_ok a \<longleftrightarrow> (\<forall>d \<in> set (ra_shape a). 0 < d) \<and> supported_type (ra_dtype a) \<and>
     prod_list (ra_shape a) * int (elem_bytes (ra_dtype a)) < 2 ^ 63 \<and>
     length (ra_bytes a) = nat (prod_list (ra_shape a)) * elem_bytes (ra_dtype a)"

lemma supported_cases:
  assumes "supported_type dt"
  obtains "dt = dl_type 2 32" | "dt = dl_type 2 64" | "dt = dl_type 0 8" | "dt = dl_type 0 32" | "dt = dl_type 0 64"
  using assms by (cases dt) (auto simp: supported_type_def dl_type_def)

lemma supported_bytes:
  assumes "supported_type dt"
  shows "1 \<le> elem_bytes dt" "(bits dt + 7) div 8 = elem_bytes dt" "lanes dt = 1"
    "\<exists>nm. DTypeToString_ccl dt = Inr nm \<and> ParseDType nm = dt"
  using supported_cases [OF assms]
  by (cases; simp add: elem_bytes_def dl_type_def DTypeToString_ccl_def ParseDType_def)+

lemma prod_pos: "\<forall>d \<in> set ds. 0 < d \<Longrightarrow> 1 \<le> prod_list (ds :: int list)"
  by (induction ds) (auto simp: mult_ge1_I int_one_le_iff_zero_less)

lemma element_count_fold:
  assumes "\<forall>d \<in> set ds. 0 < d" "1 \<le> m" "m * prod_list ds < 2 ^ 63"
  shows "fold (\<lambda>d n. i64 (n * d)) ds m = m * prod_list ds"
  using assms
proof (induction ds arbitrary: m)
  case (Cons d ds)
  have pos: "1 \<le> prod_list ds" using Cons.prems(1) by (simp add: prod_pos)
  have "1 \<le> m * d" using Cons.prems mult_mono [of 1 m 1 d] by simp
  moreover have "m * d * 1 \<le> m * d * prod_list ds"
    using pos \<open>1 \<le> m * d\<close> by (intro mult_left_mono) auto
  ultimately have "is_i64 (m * d)" using Cons.prems(3) by (simp add: is_i64_def mult.assoc)
  then show ?case using Cons.IH [of "m * d"] Cons.prems \<open>1 \<le> m * d\<close> by (simp add: mult.assoc)
qed simp

lemma element_count_prod:
  "\<forall>d \<in> set ds. 0 < d \<Longrightarrow> prod_list ds < 2 ^ 63 \<Longrightarrow> element_count ds = prod_list ds"
  unfolding element_count_def using element_count_fold [of ds 1] by simp

lemma size_of_int_small: "0 \<le> v \<Longrightarrow> v < 2 ^ 64 \<Longrightarrow> size_of_int v = nat v"
  by (simp add: size_of_int_def)

text \<open>Sizes of an array whose dimensions are positive and whose bytes fit.\<close>

lemma sizes:
  assumes "\<forall>d \<in> set ds. 0 < d" "supported_type dt" "prod_list ds * int (elem_bytes dt) < 2 ^ 63"
  shows "element_count ds = prod_list ds" "NBytes_array ds dt = nat (prod_list ds) * elem_bytes dt"
    "size_of_int (prod_list ds * int (elem_bytes dt)) = nat (prod_list ds) * elem_bytes dt"
    "1 \<le> prod_list ds" "prod_list ds < 2 ^ 63"
proof -
  show p: "1 \<le> prod_list ds" using assms(1) by (rule prod_pos)
  note e = supported_bytes [OF assms(2)]
  have "prod_list ds * 1 \<le> prod_list ds * int (elem_bytes dt)"
    using p e(1) by (intro mult_left_mono) auto
  then show lt: "prod_list ds < 2 ^ 63" using assms(3) by simp
  show c: "element_count ds = prod_list ds" using assms(1) lt by (rule element_count_prod)
  show s: "size_of_int (prod_list ds * int (elem_bytes dt)) = nat (prod_list ds) * elem_bytes dt"
    using assms(3) p by (subst size_of_int_small) (simp_all add: nat_mult_distrib)
  have "0 < nat (prod_list ds) * elem_bytes dt" using p e(1) by simp
  then show "NBytes_array ds dt = nat (prod_list ds) * elem_bytes dt"
    by (simp add: NBytes_array_def c e(2) s Let_def)
qed

text \<open>A clone of a well-formed array is the array.\<close>

lemma CloneArray_ok:
  assumes "array_ok a"
  shows "CloneArray (Some a) = Inr (Some a)"
proof -
  have dims: "\<forall>d \<in> set (ra_shape a). 0 < d" and ty: "supported_type (ra_dtype a)"
    and lt: "prod_list (ra_shape a) * int (elem_bytes (ra_dtype a)) < 2 ^ 63"
    and len: "length (ra_bytes a) = nat (prod_list (ra_shape a)) * elem_bytes (ra_dtype a)"
    using assms by (simp_all add: array_ok_def)
  note sz = sizes [OF dims ty lt]
  obtain nm where nm: "DTypeToString_ccl (ra_dtype a) = Inr nm" "ParseDType nm = ra_dtype a"
    using supported_bytes(4) [OF ty] by blast
  have "NBytes a = length (ra_bytes a)"
    using sz(1,3) len supported_bytes(3) [OF ty] by (simp add: NBytes_def NumElements_def elem_bytes_def)
  then show ?thesis
    by (simp add: CloneArray_def nm RuntimeArray_new_def Let_def memcpy_def sz(2) len)
qed

section \<open>Shards\<close>

text \<open>Part \<open>i\<close> of length \<open>k\<close> of the first dimension.\<close>

definition shard_of :: "RuntimeArray \<Rightarrow> int \<Rightarrow> nat \<Rightarrow> RuntimeArray" where
  "shard_of a k i =
     (let m = nat (k * prod_list (tl (ra_shape a))) * elem_bytes (ra_dtype a) in
      a\<lparr>ra_shape := k # tl (ra_shape a), ra_bytes := take m (drop (i * m) (ra_bytes a))\<rparr>)"

text \<open>The first dimension is \<open>n\<close> parts of length \<open>k\<close>.\<close>

definition sharded :: "RuntimeArray \<Rightarrow> int \<Rightarrow> nat \<Rightarrow> bool" where
  "sharded a k n \<longleftrightarrow> array_ok a \<and> ra_shape a \<noteq> [] \<and> hd (ra_shape a) = int n * k \<and> 0 < k"

definition inner_of :: "RuntimeArray \<Rightarrow> int" where
  "inner_of a = prod_list (tl (ra_shape a))"

definition shard_size :: "RuntimeArray \<Rightarrow> int \<Rightarrow> nat" where
  "shard_size a k = nat (k * inner_of a) * elem_bytes (ra_dtype a)"

lemma shard_bytes: "ra_bytes (shard_of a k i) = take (shard_size a k) (drop (i * shard_size a k) (ra_bytes a))"
  by (simp add: shard_of_def shard_size_def inner_of_def Let_def)

lemma shardedD:
  assumes "sharded a k n"
  shows "\<forall>d \<in> set (ra_shape a). 0 < d" "supported_type (ra_dtype a)" "ra_shape a \<noteq> []" "0 < k"
    "ra_shape a = (int n * k) # tl (ra_shape a)" "hd (ra_shape a) = int n * k" "array_ok a"
    "\<forall>d \<in> set (tl (ra_shape a)). 0 < d" "1 \<le> elem_bytes (ra_dtype a)" "1 \<le> n" "1 \<le> inner_of a"
proof -
  show basic: "\<forall>d \<in> set (ra_shape a). 0 < d" "supported_type (ra_dtype a)" "ra_shape a \<noteq> []" "0 < k"
    "hd (ra_shape a) = int n * k" "array_ok a"
    using assms by (simp_all add: sharded_def array_ok_def)
  show "ra_shape a = (int n * k) # tl (ra_shape a)" using basic(3,5) by (cases "ra_shape a") auto
  show tl: "\<forall>d \<in> set (tl (ra_shape a)). 0 < d" using basic(1,3) by (cases "ra_shape a") auto
  show "1 \<le> elem_bytes (ra_dtype a)" by (rule supported_bytes(1) [OF basic(2)])
  have "0 < int n * k" using basic(1,3,5) by (metis hd_in_set)
  then show "1 \<le> n" by (cases n) auto
  show "1 \<le> inner_of a" unfolding inner_of_def by (rule prod_pos [OF tl])
qed

lemma shard_total:
  assumes "sharded a k n"
  shows "int n * k * inner_of a * int (elem_bytes (ra_dtype a)) < 2 ^ 63"
    "length (ra_bytes a) = n * shard_size a k"
proof -
  note d = shardedD [OF assms]
  have p: "prod_list (ra_shape a) = int n * (k * inner_of a)"
    by (subst d(5)) (simp add: inner_of_def mult.assoc)
  show "int n * k * inner_of a * int (elem_bytes (ra_dtype a)) < 2 ^ 63"
    using d(7) by (simp add: array_ok_def p mult.assoc)
  show "length (ra_bytes a) = n * shard_size a k"
    using d(4,7,11) by (simp add: array_ok_def p shard_size_def nat_mult_distrib)
qed

text \<open>Products of the dimensions are in range.\<close>

lemma part_total:
  assumes "sharded a k n" "0 \<le> i" "i \<le> int n"
  shows "i * k * inner_of a * int (elem_bytes (ra_dtype a)) < 2 ^ 63" "i * k * inner_of a < 2 ^ 63"
    "i * k < 2 ^ 63" "0 \<le> i * k * inner_of a"
proof -
  note d = shardedD [OF assms(1)]
  have nn: "0 \<le> i * k" using assms(2) d(4) by simp
  show p: "0 \<le> i * k * inner_of a" using nn d(11) by simp
  have "i * k * inner_of a * int (elem_bytes (ra_dtype a)) \<le> int n * k * inner_of a * int (elem_bytes (ra_dtype a))"
    using assms(3) d(4,11) by (intro mult_right_mono) auto
  then show t: "i * k * inner_of a * int (elem_bytes (ra_dtype a)) < 2 ^ 63"
    using shard_total(1) [OF assms(1)] by simp
  have "i * k * inner_of a * 1 \<le> i * k * inner_of a * int (elem_bytes (ra_dtype a))"
    using p d(9) by (intro mult_left_mono) auto
  then show "i * k * inner_of a < 2 ^ 63" using t by simp
  moreover have "i * k * 1 \<le> i * k * inner_of a" using nn d(11) by (intro mult_left_mono) auto
  ultimately show "i * k < 2 ^ 63" by simp
qed

lemma inner_count:
  assumes "sharded a k n"
  shows "element_count (tl (ra_shape a)) = inner_of a"
proof -
  note d = shardedD [OF assms]
  have "inner_of a * 1 \<le> inner_of a * k" using d(4,11) by (intro mult_left_mono) auto
  then have "inner_of a < 2 ^ 63" using part_total(2) [OF assms, of 1] d(10) by (simp add: mult.commute)
  then show ?thesis unfolding inner_of_def by (rule element_count_prod [OF d(8)])
qed

lemma shard_offset:
  assumes "sharded a k n" "i \<le> n"
  shows "size_of_int (int (size_of_int (i64 (int i * k * inner_of a))) * int (elem_bytes (ra_dtype a))) = i * shard_size a k"
proof -
  note d = shardedD [OF assms(1)]
  note t = part_total [OF assms(1), of "int i"]
  have "is_i64 (int i * k * inner_of a)" using t(2,4) assms(2) by (simp add: is_i64_def)
  then have "size_of_int (i64 (int i * k * inner_of a)) = nat (int i * k * inner_of a)"
    using t(2,4) assms(2) by (simp add: size_of_int_small)
  then show ?thesis
    using t(1,4) assms(2) d(4,11) by (simp add: size_of_int_small shard_size_def nat_mult_distrib)
qed

lemma shard_sizes:
  assumes "sharded a k n"
  shows "NBytes_array (k # tl (ra_shape a)) (ra_dtype a) = shard_size a k"
    "NBytes_array (int n * k # tl (ra_shape a)) (ra_dtype a) = n * shard_size a k"
proof -
  note d = shardedD [OF assms]
  have "\<forall>d \<in> set (k # tl (ra_shape a)). 0 < d" using d(4,8) by simp
  moreover have "prod_list (k # tl (ra_shape a)) * int (elem_bytes (ra_dtype a)) < 2 ^ 63"
    using part_total(1) [OF assms, of 1] d(10) by (simp add: inner_of_def)
  ultimately show "NBytes_array (k # tl (ra_shape a)) (ra_dtype a) = shard_size a k"
    using sizes(2) d(2) by (simp add: shard_size_def inner_of_def)
  have "NBytes_array (ra_shape a) (ra_dtype a) = length (ra_bytes a)"
    using sizes(2) [OF d(1,2)] d(7) by (simp add: array_ok_def)
  then show "NBytes_array (int n * k # tl (ra_shape a)) (ra_dtype a) = n * shard_size a k"
    using shard_total(2) [OF assms] d(5) by simp
qed

lemma shard_length:
  assumes "sharded a k n" "i < n"
  shows "length (ra_bytes (shard_of a k i)) = shard_size a k"
proof -
  have "i * shard_size a k + shard_size a k \<le> n * shard_size a k"
    using mult_le_mono1 [of "Suc i" n "shard_size a k"] assms(2) by simp
  then show ?thesis using shard_total(2) [OF assms(1)] by (simp add: shard_bytes)
qed

text \<open>A slice is the shard, and the shards together are the array.\<close>

lemma SliceFirstDim_shard:
  assumes "sharded a k n" "i < n"
  shows "SliceFirstDim (Some a) (int i * k) k = Inr (Some (shard_of a k i))"
proof -
  note d = shardedD [OF assms(1)]
  obtain nm where nm: "DTypeToString_ccl (ra_dtype a) = Inr nm" "ParseDType nm = ra_dtype a"
    using supported_bytes(4) [OF d(2)] by blast
  have le: "int i * k + k \<le> int n * k"
    using mult_right_mono [of "int i + 1" "int n" k] assms(2) d(4) by (simp add: distrib_right)
  have "0 \<le> int i * k + k" using d(4) by simp
  then have "is_i64 (int i * k + k)" using part_total(3) [OF assms(1), of "int n"] le by (simp add: is_i64_def)
  then have bound: "i64 (int i * k + k) \<le> hd (ra_shape a)" using le d(6) by simp
  have one: "size_of_int (int (size_of_int (i64 (k * inner_of a))) * int (elem_bytes (ra_dtype a))) = shard_size a k"
    using shard_offset [OF assms(1), of 1] d(10) by simp
  have off: "size_of_int (int (size_of_int (i64 (int i * k * inner_of a))) * int (elem_bytes (ra_dtype a))) = i * shard_size a k"
    using shard_offset [OF assms(1), of i] assms(2) by simp
  have "shard_of a k i = RuntimeArray_new (k # tl (ra_shape a)) nm
      \<lparr>ra_bytes := memcpy (ra_bytes (RuntimeArray_new (k # tl (ra_shape a)) nm)) 0
        (drop (i * shard_size a k) (ra_bytes a)) (shard_size a k)\<rparr>"
    using shard_sizes(1) [OF assms(1)]
    by (simp add: RuntimeArray_new_def nm(2) memcpy_def Let_def shard_of_def shard_size_def inner_of_def)
  moreover have "\<not> int i * k < 0" "\<not> k < 0" using d(4) by (simp_all add: not_less)
  ultimately show ?thesis
    using d(3) bound one off
    by (simp add: SliceFirstDim_def nm(1) Let_def inner_count [OF assms(1)] elem_bytes_def)
qed

lemma append_shards:
  assumes "\<forall>x \<in> set xs. size_of_int (size_of_int (i64 (hd (ra_shape x) * c)) * e) = m \<and> length (ra_bytes x) = m"
    "off + length xs * m \<le> length dst"
  shows "fold (append_shard c e) (map Some xs) (dst, off) =
    (take off dst @ concat (map ra_bytes xs) @ drop (off + length xs * m) dst, off + length xs * m)"
  using assms
proof (induction xs arbitrary: dst off)
  case (Cons x xs)
  let ?dst = "take off dst @ ra_bytes x @ drop (off + m) dst"
  have x: "append_shard c e (Some x) (dst, off) = (?dst, off + m)"
    using Cons.prems(1) by (simp add: append_shard_def memcpy_def Let_def)
  have len: "length ?dst = length dst" using Cons.prems by simp
  have "take (off + m) ?dst = take off dst @ ra_bytes x" using Cons.prems by simp
  moreover have "drop (off + m + length xs * m) ?dst = drop (off + m + length xs * m) dst"
    using Cons.prems by (simp add: add.commute)
  ultimately show ?case
    using Cons.IH [of "off + m" ?dst] Cons.prems len
    by (simp add: x add.assoc)
qed simp

lemma sum_dim0:
  assumes "\<forall>x \<in> set xs. ra_shape x \<noteq> [] \<and> hd (ra_shape x) = k" "0 \<le> k" "0 \<le> acc"
    "acc + int (length xs) * k < 2 ^ 63"
  shows "sfold shard_dim0 (map Some xs) acc = Inr (acc + int (length xs) * k)"
  using assms
proof (induction xs arbitrary: acc)
  case (Cons x xs)
  have "0 \<le> int (length xs) * k" using Cons.prems(2) by simp
  moreover have "int (length (x # xs)) * k = k + int (length xs) * k" by (simp add: distrib_right)
  ultimately have "acc + k < 2 ^ 63" using Cons.prems(4) by linarith
  then have "is_i64 (acc + k)" using Cons.prems(2,3) by (simp add: is_i64_def)
  then show ?case using Cons.IH [of "acc + k"] Cons.prems by (simp add: shard_dim0_def distrib_right)
qed simp

lemma ConcatFirstDim_shards:
  assumes "sharded a k n"
  shows "ConcatFirstDim (map (\<lambda>i. Some (shard_of a k i)) [0..<n]) = Inr (Some a)"
proof -
  note d = shardedD [OF assms]
  define xs where "xs = map (shard_of a k) [0..<n]"
  have n: "length xs = n" "xs \<noteq> []" using d(10) by (auto simp: xs_def)
  have hd: "hd xs = shard_of a k 0" using d(10) by (simp add: xs_def hd_map)
  obtain nm where nm: "DTypeToString_ccl (ra_dtype a) = Inr nm" "ParseDType nm = ra_dtype a"
    using supported_bytes(4) [OF d(2)] by blast
  have shape: "ra_shape (shard_of a k i) = k # tl (ra_shape a)" "ra_dtype (shard_of a k i) = ra_dtype a" for i
    by (simp_all add: shard_of_def Let_def)
  have sum: "sfold shard_dim0 (map Some xs) 0 = Inr (int n * k)"
    using sum_dim0 [of xs k 0] d(4) n(1) part_total(3) [OF assms, of "int n"] by (simp add: xs_def shape)
  have "size_of_int (int (size_of_int (i64 (k * inner_of a))) * int (elem_bytes (ra_dtype a))) = shard_size a k"
    using shard_offset [OF assms, of 1] d(10) by simp
  then have "fold (append_shard (inner_of a) (elem_bytes (ra_dtype a))) (map Some xs) (replicate (n * shard_size a k) 0, 0) =
      (concat (map ra_bytes xs), n * shard_size a k)"
    using append_shards [of xs "inner_of a" "elem_bytes (ra_dtype a)" "shard_size a k" 0 "replicate (n * shard_size a k) 0"]
      n(1) shard_length [OF assms] by (simp add: xs_def shape)
  moreover have "concat (map ra_bytes xs) = ra_bytes a"
    using concat_chunks [of "shard_size a k" "ra_bytes a" n] shard_total(2) [OF assms]
    by (simp add: xs_def comp_def shard_bytes)
  moreover obtain ys where "xs = shard_of a k 0 # ys" using n(2) hd by (cases xs) auto
  ultimately have "ConcatFirstDim (map Some xs) = Inr (Some a)"
    using sum d(5) shard_sizes(2) [OF assms]
    by (simp add: ConcatFirstDim_def shape nm RuntimeArray_new_def Let_def inner_count [OF assms]
        elem_bytes_def [symmetric])
  then show ?thesis by (simp add: xs_def comp_def)
qed

end
