(* ===== verification/Disco_Collectives.thy ===== *)
theory Disco_Collectives
  imports Disco_CCLProofs
begin

text \<open>
  The collectives on a session: each is a list of writes to one register of several workers.
\<close>

section \<open>Writes\<close>

definition write_all ::
  "DiscoSessionNode \<Rightarrow> DRef \<Rightarrow> (int \<times> RuntimeArray option) list \<Rightarrow> DiscoSessionNode" where
  "write_all s ref wvs = fold (\<lambda>(w, v) s. write_reg s w ref v) wvs s"

lemma write_all_simps [simp]:
  "write_all s ref [] = s"
  "write_all s ref ((w, v) # wvs) = write_all (write_reg s w ref v) ref wvs"
  "write_all s ref (xs @ ys) = write_all (write_all s ref xs) ref ys"
  by (simp_all add: write_all_def)

lemma write_all_keeps [simp]:
  "ds_num_workers (write_all s ref wvs) = ds_num_workers s"
  "ds_num_groups (write_all s ref wvs) = ds_num_groups s"
  "reg_count (write_all s ref wvs) = reg_count s"
  "worker_in (write_all s ref wvs) = worker_in s"
  "ref_in (write_all s ref wvs) = ref_in s"
  by (induction wvs arbitrary: s) auto

lemma write_all_ok [simp]: "session_ok s \<Longrightarrow> session_ok (write_all s ref wvs)"
  by (induction wvs arbitrary: s) auto

lemma held_write_all_other:
  assumes "session_ok s" "ref_in s ref" "\<forall>(w, v) \<in> set wvs. worker_in s w" "worker_in s w'" "ref_in s r"
    "DRef_reg_id r \<noteq> DRef_reg_id ref \<or> w' \<notin> fst ` set wvs"
  shows "held (write_all s ref wvs) w' r = held s w' r"
  using assms
proof (induction wvs arbitrary: s)
  case (Cons p wvs)
  obtain w v where p: "p = (w, v)" by fastforce
  have "held (write_all (write_reg s w ref v) ref wvs) w' r = held (write_reg s w ref v) w' r"
    by (rule Cons.IH) (use Cons.prems p in auto)
  then show ?case using held_write_reg [of s w ref w' r v] Cons.prems p by auto
qed simp

text \<open>A worker all of whose writes are of one value holds it.\<close>

lemma held_write_all:
  assumes "session_ok s" "ref_in s ref" "\<forall>(w, v) \<in> set wvs. worker_in s w" "(w, v) \<in> set wvs"
    "\<forall>v'. (w, v') \<in> set wvs \<longrightarrow> v' = v"
  shows "held (write_all s ref wvs) w ref = v"
  using assms
proof (induction wvs arbitrary: s)
  case (Cons p wvs)
  obtain w' v' where p: "p = (w', v')" by fastforce
  have rest: "\<forall>v'. (w, v') \<in> set wvs \<longrightarrow> v' = v" using Cons.prems(5) by (meson list.set_intros(2))
  have ws: "worker_in s w'" "\<forall>(w, v) \<in> set wvs. worker_in s w" using Cons.prems(3) by (simp_all add: p)
  show ?case
  proof (cases "(w, v) \<in> set wvs")
    case True
    have "held (write_all (write_reg s w' ref v') ref wvs) w ref = v"
      by (rule Cons.IH [OF _ _ _ True rest]) (simp_all add: Cons.prems(1,2) ws)
    then show ?thesis by (simp add: p)
  next
    case False
    then have "w = w'" "v = v'" using Cons.prems(4) by (simp_all add: p)
    moreover have "w \<notin> fst ` set wvs"
    proof
      assume "w \<in> fst ` set wvs"
      then obtain x where "(w, x) \<in> set wvs" by auto
      moreover from this have "x = v" using rest by blast
      ultimately show False using False by simp
    qed
    ultimately have "w = w'" "v = v'" "w \<notin> fst ` set wvs" by simp_all
    have "held (write_all (write_reg s w ref v) ref wvs) w ref = held (write_reg s w ref v) w ref"
      by (rule held_write_all_other) (simp_all add: Cons.prems(1,2) ws \<open>w = w'\<close> \<open>w \<notin> fst ` set wvs\<close> [unfolded \<open>w = w'\<close>])
    also have "\<dots> = v"
      using held_write_reg [of s w ref w ref v] Cons.prems(1,2) ws(1) \<open>w = w'\<close> by simp
    finally show ?thesis using \<open>w = w'\<close> \<open>v = v'\<close> by (simp add: p)
  qed
qed simp

text \<open>The loops of the collectives.\<close>

lemma sfold_writes:
  assumes "ref_in s ref" "\<forall>(w, v) \<in> set wvs. worker_in s w"
  shows "sfold (\<lambda>(w, v) s. Session_Set s w ref v) wvs (Some s) = Inr (Some (write_all s ref wvs))"
  using assms
proof (induction wvs arbitrary: s)
  case (Cons p wvs)
  obtain w v where p: "p = (w, v)" by fastforce
  have "Session_Set (Some s) w ref v = Inr (Some (write_reg s w ref v))"
    using Cons.prems p by (intro Session_Set_write) auto
  then show ?case using Cons.IH [of "write_reg s w ref v"] Cons.prems p by simp
qed simp

lemma sfold_map: "(\<And>x s. x \<in> set xs \<Longrightarrow> f x s = g (h x) s) \<Longrightarrow> sfold f xs s = sfold g (map h xs) s"
proof (induction xs arbitrary: s)
  case (Cons x xs)
  then show ?case by (cases "g (h x) s") auto
qed simp

lemma set_clone_loop:
  assumes "ref_in s ref" "\<forall>w \<in> set ws. worker_in s w" "array_ok a"
  shows "sfold (set_clone ref (Some a)) ws (Some s) = Inr (Some (write_all s ref (map (\<lambda>w. (w, Some a)) ws)))"
proof -
  have "sfold (set_clone ref (Some a)) ws (Some s) =
      sfold (\<lambda>(w, v) s. Session_Set s w ref v) (map (\<lambda>w. (w, Some a)) ws) (Some s)"
    by (rule sfold_map) (simp add: set_clone_def CloneArray_ok assms(3))
  also have "\<dots> = Inr (Some (write_all s ref (map (\<lambda>w. (w, Some a)) ws)))"
    by (rule sfold_writes) (use assms in auto)
  finally show ?thesis .
qed

section \<open>Workers and groups\<close>

lemma set_worker_range [simp]: "set (worker_range n) = {0..<n}"
  by (auto simp: worker_range_def)

lemma worker_range_nat: "worker_range (int m) = map int [0..<m]"
  by (induction m) (simp_all add: worker_range_def upto_rec2)

lemma num_workers_Some [simp]: "num_workers (Some s) = ds_num_workers s"
  "session_groups (Some s) = ds_num_groups s"
  "workers_per_group (Some s) = ds_num_workers s div ds_num_groups s"
  by (simp_all add: num_workers_def session_groups_def workers_per_group_def)

section \<open>Scatter and gather\<close>

text \<open>Worker \<open>i\<close> of group \<open>g\<close> when groups have \<open>n\<close> workers, and the array its first worker scatters.\<close>

definition member :: "nat \<Rightarrow> int \<Rightarrow> nat \<Rightarrow> int" where
  "member n g i = g * int n + int i"

definition source_array :: "DiscoSessionNode \<Rightarrow> DRef \<Rightarrow> nat \<Rightarrow> int \<Rightarrow> RuntimeArray option" where
  "source_array s src n g =
     (case held s (member n g 0) src of None \<Rightarrow> held s 0 src | Some a \<Rightarrow> Some a)"

definition shard_writes :: "RuntimeArray \<Rightarrow> int \<Rightarrow> nat \<Rightarrow> int \<Rightarrow> (int \<times> RuntimeArray option) list" where
  "shard_writes a k n g = map (\<lambda>i. (member n g i, Some (shard_of a k i))) [0..<n]"

lemma member_inject:
  assumes "i < n" "j < n" "member n g i = member n h j"
  shows "g = h \<and> i = j"
proof -
  have "(g * int n + int i) div int n = (h * int n + int j) div int n"
    "(g * int n + int i) mod int n = (h * int n + int j) mod int n"
    using assms(3) by (simp_all add: member_def)
  then show ?thesis using assms(1,2) by simp
qed

lemma scatter_part:
  assumes "ref_in s dst" "\<forall>i < n. worker_in s (member n g i)" "sharded a k n"
  shows "sfold (set_slice dst (Some a) k) (zip (map (member n g) [0..<n]) (worker_range (int n))) (Some s) =
    Inr (Some (write_all s dst (shard_writes a k n g)))"
proof -
  have "zip (map (member n g) [0..<n]) (worker_range (int n)) = map (\<lambda>i. (member n g i, int i)) [0..<n]"
    by (simp add: worker_range_nat zip_map_map zip_same_conv_map comp_def)
  moreover have "sfold (set_slice dst (Some a) k) (map (\<lambda>i. (member n g i, int i)) [0..<n]) (Some s) =
      sfold (\<lambda>(w, v) s. Session_Set s w dst v)
        (map (\<lambda>(w, i). (w, Some (shard_of a k (nat i)))) (map (\<lambda>i. (member n g i, int i)) [0..<n])) (Some s)"
    by (rule sfold_map) (auto simp: set_slice_def SliceFirstDim_shard [OF assms(3)])
  moreover have "map (\<lambda>(w, i). (w, Some (shard_of a k (nat i)))) (map (\<lambda>i. (member n g i, int i)) [0..<n]) =
      shard_writes a k n g"
    by (simp add: shard_writes_def)
  moreover have "sfold (\<lambda>(w, v) s. Session_Set s w dst v) (shard_writes a k n g) (Some s) =
      Inr (Some (write_all s dst (shard_writes a k n g)))"
    by (rule sfold_writes) (use assms in \<open>auto simp: shard_writes_def\<close>)
  ultimately show ?thesis by simp
qed

lemma group_workers_member:
  assumes "workers_per_group s = int n"
  shows "group_workers s g = map (member n g) [0..<n]" "g * workers_per_group s = member n g 0"
  by (simp_all add: group_workers_def assms worker_range_nat member_def)

text \<open>What a group scatters, read before any write.\<close>

definition scatters :: "DiscoSessionNode \<Rightarrow> DRef \<Rightarrow> (int \<Rightarrow> RuntimeArray) \<Rightarrow> int \<Rightarrow> nat \<Rightarrow> int list \<Rightarrow> bool" where
  "scatters s src A k n gs \<longleftrightarrow>
     (\<forall>g \<in> set gs. source_array s src n g = Some (A g) \<and> sharded (A g) k n \<and>
        (\<forall>i < n. worker_in s (member n g i)))"

lemma scatter_groups:
  assumes "session_ok s" "ref_in s src" "ref_in s dst" "DRef_reg_id src \<noteq> DRef_reg_id dst" "worker_in s 0"
    "scatters s src A k n gs" "workers_per_group (Some s) = int n" "root_array = held s 0 src" "0 < n"
  shows "sfold (scatter_group src dst root_array k) gs (Some s) =
    Inr (Some (write_all s dst (concat (map (\<lambda>g. shard_writes (A g) k n g) gs))))"
  using assms
proof (induction gs arbitrary: s)
  case (Cons g gs)
  have g: "source_array s src n g = Some (A g)" "sharded (A g) k n" "\<forall>i < n. worker_in s (member n g i)"
    using Cons.prems(6) by (auto simp: scatters_def)
  have "Session_Get (Some s) (member n g 0) src = Inr (held s (member n g 0) src)"
    using g(3) Cons.prems(9) by (intro Session_Get_held [OF _ Cons.prems(2)]) simp
  moreover have "(if held s (member n g 0) src = None then root_array else held s (member n g 0) src) = Some (A g)"
    using g(1) Cons.prems(8) by (auto simp: source_array_def split: option.splits)
  ultimately have step: "scatter_group src dst root_array k g (Some s) =
      Inr (Some (write_all s dst (shard_writes (A g) k n g)))"
    using scatter_part [OF Cons.prems(3) g(3,2)] group_workers_member [OF Cons.prems(7)] Cons.prems(7)
    by (simp add: scatter_group_def)
  let ?s = "write_all s dst (shard_writes (A g) k n g)"
  have same: "held ?s w src = held s w src" if "worker_in s w" for w
    by (rule held_write_all_other) (use Cons.prems g(3) that in \<open>auto simp: shard_writes_def\<close>)
  have "scatters ?s src A k n gs"
    using Cons.prems(6,9) same same [OF Cons.prems(5)]
    by (auto simp: scatters_def source_array_def cong: option.case_cong)
  moreover have "workers_per_group (Some ?s) = int n" using Cons.prems(7) by simp
  moreover have "root_array = held ?s 0 src" using same [OF Cons.prems(5)] Cons.prems(8) by simp
  ultimately have "sfold (scatter_group src dst root_array k) gs (Some ?s) =
      Inr (Some (write_all ?s dst (concat (map (\<lambda>g. shard_writes (A g) k n g) gs))))"
    using Cons.prems(1-5,9) by (intro Cons.IH) simp_all
  then show ?case by (simp add: step)
qed simp

lemma scattered_held:
  assumes "session_ok s" "ref_in s dst" "scatters s src A k n gs" "g \<in> set gs" "i < n"
  shows "held (write_all s dst (concat (map (\<lambda>g. shard_writes (A g) k n g) gs))) (member n g i) dst =
    Some (shard_of (A g) k i)"
proof (rule held_write_all [OF assms(1,2)])
  show "\<forall>(w, v) \<in> set (concat (map (\<lambda>g. shard_writes (A g) k n g) gs)). worker_in s w"
    using assms(3) by (auto simp: shard_writes_def scatters_def)
  show "(member n g i, Some (shard_of (A g) k i)) \<in> set (concat (map (\<lambda>g. shard_writes (A g) k n g) gs))"
    using assms(4,5) by (force simp: shard_writes_def)
  show "\<forall>v'. (member n g i, v') \<in> set (concat (map (\<lambda>g. shard_writes (A g) k n g) gs)) \<longrightarrow>
      v' = Some (shard_of (A g) k i)"
    using assms(5) by (auto simp: shard_writes_def dest!: member_inject [OF assms(5), rotated 1])
qed

lemma gather_part:
  assumes "ref_in s src" "ref_in s dst" "sharded a k n" "0 < n"
    "\<forall>i < n. worker_in s (member n g i) \<and> held s (member n g i) src = Some (shard_of a k i)"
  shows "gather_from src dst (map (member n g) [0..<n]) (member n g 0) (Some s) =
    Inr (Some (write_reg s (member n g 0) dst (Some a)))"
proof -
  have "smap (\<lambda>w. Session_Get (Some s) w src) (map (member n g) [0..<n]) =
      Inr (map (\<lambda>w. held s w src) (map (member n g) [0..<n]))"
    by (rule smap_total) (use assms(1,5) in \<open>auto intro: Session_Get_held\<close>)
  moreover have "map (\<lambda>w. held s w src) (map (member n g) [0..<n]) = map (\<lambda>i. Some (shard_of a k i)) [0..<n]"
    using assms(5) by simp
  ultimately show ?thesis
    using Session_Set_write [of s "member n g 0" dst "Some a"] assms(2,4,5)
    by (simp add: gather_from_def ConcatFirstDim_shards [OF assms(3)] del: map_map)
qed

lemma gather_groups:
  assumes "session_ok s" "ref_in s src" "ref_in s dst" "DRef_reg_id src \<noteq> DRef_reg_id dst" "0 < n"
    "\<forall>g \<in> set gs. sharded (A g) k n \<and>
       (\<forall>i < n. worker_in s (member n g i) \<and> held s (member n g i) src = Some (shard_of (A g) k i))"
    "workers_per_group (Some s) = int n"
  shows "sfold (\<lambda>g s. gather_from src dst (group_workers s g) (g * workers_per_group s) s) gs (Some s) =
    Inr (Some (write_all s dst (map (\<lambda>g. (member n g 0, Some (A g))) gs)))"
  using assms
proof (induction gs arbitrary: s)
  case (Cons g gs)
  let ?s = "write_reg s (member n g 0) dst (Some (A g))"
  have step: "gather_from src dst (group_workers (Some s) g) (g * workers_per_group (Some s)) (Some s) = Inr (Some ?s)"
    unfolding group_workers_member [OF Cons.prems(7)]
    by (rule gather_part) (use Cons.prems in auto)
  have "worker_in s (member n g 0)" using Cons.prems(5,6) by simp
  then have same: "held ?s w src = held s w src" if "worker_in s w" for w
    using held_write_reg [of s "member n g 0" dst w src] Cons.prems(1-4) that by simp
  have "sfold (\<lambda>g s. gather_from src dst (group_workers s g) (g * workers_per_group s) s) gs (Some ?s) =
      Inr (Some (write_all ?s dst (map (\<lambda>g. (member n g 0, Some (A g))) gs)))"
    using Cons.prems same by (intro Cons.IH) simp_all
  then show ?case using step by (simp del: num_workers_Some)
qed simp

text \<open>
C36. Scattering an array and gathering the parts gives it back: when the first dimension of the
array of every group is the number of its workers times a positive length, then after
ScatterFromWorker0 and GatherToWorker0 the first worker of every group holds the array it
scattered, or that of worker 0 where it had none. Without groups all workers are one group.
\<close>

theorem scatter_gather_roundtrip:
  assumes "session_ok s" "ref_in s src" "ref_in s mid" "ref_in s dst"
    and "DRef_reg_id src \<noteq> DRef_reg_id mid" "DRef_reg_id mid \<noteq> DRef_reg_id dst"
    and "groups = (if in_group then ds_num_groups s else 1)" "int n = ds_num_workers s div groups" "0 < n"
    and "\<forall>g \<in> {0..<groups}. \<exists>a. source_array s src n g = Some a \<and> sharded a k n"
  shows "\<exists>s1 s2. Cpu_ScatterFromWorker0 (Some s) src mid in_group = Inr (Some s1) \<and>
    Cpu_GatherToWorker0 (Some s1) mid dst in_group = Inr (Some s2) \<and>
    (\<forall>g \<in> {0..<groups}. held s2 (member n g 0) dst = source_array s src n g)"
proof -
  define A where "A g = the (source_array s src n g)" for g
  let ?gs = "worker_range groups"
  have pos: "0 < groups" "0 < ds_num_workers s"
    using assms(1,7) by (auto simp: session_ok_def)
  have worker: "worker_in s (member n g i)" if "g \<in> {0..<groups}" "i < n" for g i
  proof -
    have "member n g i < (g + 1) * int n" using that(2) by (simp add: member_def distrib_right)
    also have "\<dots> \<le> groups * int n" using that(1) by (intro mult_right_mono) auto
    also have "\<dots> \<le> ds_num_workers s"
      using assms(8) minus_mod_eq_mult_div [of "ds_num_workers s" groups] pos_mod_sign [OF pos(1), of "ds_num_workers s"]
      by simp
    finally show ?thesis using that(1) by (simp add: worker_in_def member_def)
  qed
  have w0: "worker_in s 0" using pos by (simp add: worker_in_def)
  have sc: "scatters s src A k n ?gs"
    using assms(10) worker by (fastforce simp: scatters_def A_def)
  define ws where "ws = concat (map (\<lambda>g. shard_writes (A g) k n g) ?gs)"
  let ?s1 = "write_all s mid ws"
  have "source_array s src n 0 = Some (A 0)" and sh0: "sharded (A 0) k n"
    using sc pos(1) by (simp_all add: scatters_def)
  then have source0: "held s 0 src = Some (A 0)"
    by (auto simp: source_array_def member_def split: option.splits)
  note d = shardedD [OF sh0]
  have div0: "hd (ra_shape (A 0)) smod int n = 0" "hd (ra_shape (A 0)) sdiv int n = k"
    using d(4,6) assms(9) by (simp_all add: signed_divide_int_def signed_modulo_int_def sgn_mult)
  have get0: "Session_Get (Some s) 0 src = Inr (Some (A 0))"
    using Session_Get_held [OF w0 assms(2)] source0 by simp
  have scat: "Cpu_ScatterFromWorker0 (Some s) src mid in_group = Inr (Some ?s1)"
  proof (cases in_group)
    case True
    have "workers_per_group (Some s) = int n" using assms(7,8) True by simp
    from scatter_groups [OF assms(1-3,5) w0 sc this source0 [symmetric] assms(9)]
    show ?thesis using True get0 d(3) div0 assms(7-9) by (simp add: Cpu_ScatterFromWorker0_def Let_def ws_def)
  next
    case False
    then have n: "ds_num_workers s = int n" "groups = 1" "?gs = [0]"
      using assms(7,8) by (simp_all add: worker_range_def)
    have "worker_range (int n) = map (member n 0) [0..<n]"
      by (simp add: worker_range_nat member_def)
    moreover have "\<forall>i < n. worker_in s (member n 0 i)" using worker n(2) by simp
    ultimately have "sfold (set_slice mid (Some (A 0)) k) (zip (worker_range (int n)) (worker_range (int n))) (Some s) =
        Inr (Some ?s1)"
      using scatter_part [OF assms(3) _ sh0, of 0] n(3) by (simp add: ws_def)
    then show ?thesis using False get0 d(3) div0 assms(9) n(1) by (simp add: Cpu_ScatterFromWorker0_def Let_def)
  qed
  have parts: "\<forall>g \<in> set ?gs. sharded (A g) k n \<and> (\<forall>i < n. worker_in ?s1 (member n g i) \<and>
      held ?s1 (member n g i) mid = Some (shard_of (A g) k i))"
    using scattered_held [OF assms(1,3) sc] sc unfolding ws_def by (auto simp: scatters_def)
  define s2 where "s2 = write_all ?s1 dst (map (\<lambda>g. (member n g 0, Some (A g))) ?gs)"
  have ok: "session_ok ?s1" "ref_in ?s1 mid" "ref_in ?s1 dst" using assms(1,3,4) by simp_all
  have gath: "Cpu_GatherToWorker0 (Some ?s1) mid dst in_group = Inr (Some s2)"
  proof (cases in_group)
    case True
    have "workers_per_group (Some ?s1) = int n" using assms(7,8) True by simp
    from gather_groups [OF ok assms(6,9) parts this]
    show ?thesis using True assms(7) pos(1) by (simp add: Cpu_GatherToWorker0_def s2_def)
  next
    case False
    then have n: "ds_num_workers s = int n" "groups = 1" "?gs = [0]"
      using assms(7,8) by (simp_all add: worker_range_def)
    have "worker_range (int n) = map (member n 0) [0..<n]" "member n 0 0 = 0"
      by (simp_all add: worker_range_nat member_def)
    moreover have "gather_from mid dst (map (member n 0) [0..<n]) (member n 0 0) (Some ?s1) =
        Inr (Some (write_reg ?s1 (member n 0 0) dst (Some (A 0))))"
      by (rule gather_part) (use ok parts sh0 assms(9) n(3) in auto)
    ultimately show ?thesis using False n(1,3) by (simp add: Cpu_GatherToWorker0_def s2_def)
  qed
  have "held s2 (member n g 0) dst = source_array s src n g" if g: "g \<in> {0..<groups}" for g
  proof -
    have "held s2 (member n g 0) dst = Some (A g)"
      unfolding s2_def
    proof (rule held_write_all [OF ok(1,3)])
      show "\<forall>v'. (member n g 0, v') \<in> set (map (\<lambda>g. (member n g 0, Some (A g))) ?gs) \<longrightarrow> v' = Some (A g)"
        using member_inject [OF assms(9) assms(9)] by auto
    qed (use g worker assms(9) in auto)
    then show ?thesis using sc g by (simp add: scatters_def)
  qed
  with scat gath show ?thesis by blast
qed

text \<open>Two workers with three registers; worker 0 holds the two numbers 5 and 7.\<close>

definition reg :: "int \<Rightarrow> DRef" where
  "reg i = Some \<lparr>dref_reg_id = i, dref_session = True\<rparr>"

definition pair_array :: "8 word \<Rightarrow> 8 word \<Rightarrow> RuntimeArray" where
  "pair_array x y = \<lparr>ra_shape = [2], ra_dtype = dl_type 0 32, ra_bytes = [x, 0, 0, 0, y, 0, 0, 0]\<rparr>"

definition two_workers :: "RuntimeArray option \<Rightarrow> RuntimeArray option \<Rightarrow> DiscoSessionNode" where
  "two_workers a b = \<lparr>ds_num_workers = 2, ds_num_groups = 1, reg_count = 3, ds_shutdown = False,
     register_file = [[a, None, None], [b, None, None]]\<rparr>"

lemma two_workers_ok: "session_ok (two_workers a b)" "ref_in (two_workers a b) (reg 0)"
  "ref_in (two_workers a b) (reg 1)" "ref_in (two_workers a b) (reg 2)"
  "ds_num_workers (two_workers a b) = 2" "ds_num_groups (two_workers a b) = 1"
  "held (two_workers a b) 0 (reg 0) = a" "held (two_workers a b) 1 (reg 0) = b" "DRef_reg_id (reg i) = i"
  by (simp_all add: two_workers_def session_ok_def ref_in_def reg_def DRef_valid_def DRef_reg_id_def held_def)

lemma pair_array_ok: "array_ok (pair_array x y)"
  by (simp add: array_ok_def pair_array_def supported_type_def dl_type_def elem_bytes_def)

lemma scatter_gather_roundtrip_witness:
  "\<exists>s1 s2. Cpu_ScatterFromWorker0 (Some (two_workers (Some (pair_array 5 7)) None)) (reg 0) (reg 1) False = Inr (Some s1) \<and>
     Cpu_GatherToWorker0 (Some s1) (reg 1) (reg 2) False = Inr (Some s2) \<and>
     held s2 0 (reg 2) = Some (pair_array 5 7)"
proof -
  let ?s = "two_workers (Some (pair_array 5 7)) None"
  have src: "source_array ?s (reg 0) 2 0 = Some (pair_array 5 7)" and m: "member 2 0 0 = 0"
    by (simp_all add: source_array_def member_def two_workers_ok)
  have "sharded (pair_array 5 7) 1 2"
    using pair_array_ok [of 5 7] by (simp add: sharded_def pair_array_def)
  moreover have "g = 0" if "g \<in> {0..<1}" for g :: int using that by simp
  ultimately have "\<forall>g \<in> {0..<1}. \<exists>a. source_array ?s (reg 0) 2 g = Some a \<and> sharded a 1 2"
    using src by metis
  from scatter_gather_roundtrip [where s = ?s and src = "reg 0" and mid = "reg 1" and dst = "reg 2"
      and in_group = False and groups = 1 and n = 2 and k = 1, OF two_workers_ok(1-4) _ _ _ _ _ this]
  obtain s1 s2 where r: "Cpu_ScatterFromWorker0 (Some ?s) (reg 0) (reg 1) False = Inr (Some s1)"
    "Cpu_GatherToWorker0 (Some s1) (reg 1) (reg 2) False = Inr (Some s2)"
    "\<forall>g \<in> {0..<1}. held s2 (member 2 g 0) (reg 2) = source_array ?s (reg 0) 2 g"
    by (auto simp: two_workers_ok)
  have "held s2 0 (reg 2) = Some (pair_array 5 7)" using bspec [OF r(3), of 0] src m by simp
  with r(1,2) show ?thesis by blast
qed

section \<open>Reduction\<close>

text \<open>The arrays the workers hold, in the order of the workers.\<close>

definition held_arrays :: "DiscoSessionNode \<Rightarrow> DRef \<Rightarrow> RuntimeArray list" where
  "held_arrays s ref = List.map_filter (\<lambda>w. held s w ref) (worker_range (ds_num_workers s))"

text \<open>One step of the accumulation when both arrays have the same shape and element type.\<close>

definition same_layout :: "RuntimeArray \<Rightarrow> RuntimeArray \<Rightarrow> bool" where
  "same_layout a b \<longleftrightarrow> ra_shape a = ra_shape b \<and> ra_dtype a = ra_dtype b"

text \<open>The operations with an addition: the size of an element and the addition of its bytes.\<close>

definition sum_into :: "FloatAdd \<Rightarrow> RuntimeArray \<Rightarrow> RuntimeArray \<Rightarrow> RuntimeArray" where
  "sum_into F acc v =
     (let dt = ra_dtype acc; numel = nat (prod_list (ra_shape acc)) in
      acc\<lparr>ra_bytes :=
        (if code dt = 2 \<and> bits dt = 32 then add_elements 4 (add_f32 F) numel (ra_bytes acc) (ra_bytes v)
         else if code dt = 2 \<and> bits dt = 64 then add_elements 8 (add_f64 F) numel (ra_bytes acc) (ra_bytes v)
         else if code dt = 0 \<and> bits dt = 32
         then add_elements 4 ((+) :: 32 word \<Rightarrow> _) numel (ra_bytes acc) (ra_bytes v)
         else add_elements 8 ((+) :: 64 word \<Rightarrow> _) numel (ra_bytes acc) (ra_bytes v))\<rparr>)"

lemma add_sizes:
  assumes "array_ok a"
  shows "length (ra_bytes a) = elem_bytes (ra_dtype a) * nat (prod_list (ra_shape a))"
    "element_count (ra_shape a) = prod_list (ra_shape a)"
  using assms sizes(1) [of "ra_shape a" "ra_dtype a"] by (auto simp: array_ok_def)

lemma AddInPlace_sum:
  assumes "array_ok a" "same_layout a b" "bits (ra_dtype a) \<noteq> 8"
  shows "AddInPlace F (Some a) (Some b) = Inr (Some (sum_into F a b))"
    "array_ok (sum_into F a b)" "same_layout (sum_into F a b) b"
proof -
  have ty: "supported_type (ra_dtype a)" using assms(1) by (simp add: array_ok_def)
  have n: "NumElements (Some a) = prod_list (ra_shape a)" "NumElements (Some b) = prod_list (ra_shape a)"
    using add_sizes(2) [OF assms(1)] assms(2) by (simp_all add: NumElements_def same_layout_def)
  show "AddInPlace F (Some a) (Some b) = Inr (Some (sum_into F a b))"
    using ty assms(3) n by (auto simp: AddInPlace_def sum_into_def Let_def supported_type_def)
  have "length (ra_bytes (sum_into F a b)) = length (ra_bytes a)"
    using add_sizes(1) [OF assms(1)]
    by (simp add: sum_into_def Let_def elem_bytes_def length_add_elements split: if_splits)
      (use ty assms(3) in \<open>auto simp: supported_type_def length_add_elements\<close>)
  then show "array_ok (sum_into F a b)" using assms(1) by (simp add: array_ok_def sum_into_def Let_def)
  show "same_layout (sum_into F a b) b" using assms(2) by (simp add: same_layout_def sum_into_def Let_def)
qed

lemma reduce_loop:
  assumes "ref_in s src" "\<forall>w \<in> set ws. worker_in s w" "array_ok acc" "bits (ra_dtype acc) \<noteq> 8"
    "\<forall>v \<in> set (List.map_filter (\<lambda>w. held s w src) ws). same_layout acc v"
  shows "sfold (reduce_worker F (Some s) src) ws (Some acc) =
    Inr (Some (fold (\<lambda>v acc. sum_into F acc v) (List.map_filter (\<lambda>w. held s w src) ws) acc)) \<and>
    array_ok (fold (\<lambda>v acc. sum_into F acc v) (List.map_filter (\<lambda>w. held s w src) ws) acc)"
  using assms
proof (induction ws arbitrary: acc)
  case (Cons w ws)
  have get: "Session_Get (Some s) w src = Inr (held s w src)"
    using Cons.prems(1,2) by (simp add: Session_Get_held)
  show ?case
  proof (cases "held s w src")
    case None
    then show ?thesis using Cons.IH [of acc] Cons.prems get by (simp add: reduce_worker_def List.map_filter_simps)
  next
    case (Some v)
    note sum = AddInPlace_sum [OF Cons.prems(3) _ Cons.prems(4), of v F]
    have v: "same_layout acc v" using Cons.prems(5) Some by (simp add: List.map_filter_simps)
    have ty: "ra_dtype (sum_into F acc v) = ra_dtype acc" by (simp add: sum_into_def Let_def)
    have "\<forall>u \<in> set (List.map_filter (\<lambda>w. held s w src) ws). same_layout acc u"
      using Cons.prems(5) Some by (simp add: List.map_filter_simps)
    then have "\<forall>u \<in> set (List.map_filter (\<lambda>w. held s w src) ws). same_layout (sum_into F acc v) u"
      by (simp add: same_layout_def sum_into_def Let_def)
    then show ?thesis
      using Cons.IH [of "sum_into F acc v"] Cons.prems sum v get Some ty
      by (simp add: reduce_worker_def List.map_filter_simps)
  qed
qed (simp add: List.map_filter_simps)

text \<open>The workers before the first that holds an array leave the accumulator undefined.\<close>

lemma reduce_start:
  assumes "ref_in s src" "\<forall>w \<in> set ws. worker_in s w"
    "List.map_filter (\<lambda>w. held s w src) ws = a # vs" "array_ok a" "bits (ra_dtype a) \<noteq> 8"
    "\<forall>v \<in> set vs. same_layout a v"
  shows "sfold (reduce_worker F (Some s) src) ws None = Inr (Some (fold (\<lambda>v acc. sum_into F acc v) vs a)) \<and>
    array_ok (fold (\<lambda>v acc. sum_into F acc v) vs a)"
  using assms
proof (induction ws)
  case (Cons w ws)
  have get: "Session_Get (Some s) w src = Inr (held s w src)"
    using Cons.prems(1,2) by (simp add: Session_Get_held)
  show ?case
  proof (cases "held s w src")
    case None
    then show ?thesis using Cons get by (simp add: reduce_worker_def List.map_filter_simps)
  next
    case (Some v)
    then have "v = a" "List.map_filter (\<lambda>w. held s w src) ws = vs"
      using Cons.prems(3) by (simp_all add: List.map_filter_simps)
    moreover from this have "reduce_worker F (Some s) src w None = Inr (Some a)"
      using get Some Cons.prems(4) by (simp add: reduce_worker_def CloneArray_ok)
    ultimately show ?thesis using reduce_loop [of s src ws a F] Cons.prems by simp
  qed
qed (simp add: List.map_filter_simps)

lemma all_reduce:
  assumes "session_ok s" "ref_in s src" "ref_in s dst" "held_arrays s src = a # vs" "array_ok a"
    "bits (ra_dtype a) \<noteq> 8" "\<forall>v \<in> set vs. same_layout a v"
  shows "\<exists>s'. Cpu_AllReduce F (Some s) src dst ''sum'' in_group = Inr (Some s') \<and>
    (\<forall>w. worker_in s w \<longrightarrow> held s' w dst = Some (fold (\<lambda>v acc. sum_into F acc v) vs a))"
proof -
  let ?ws = "worker_range (ds_num_workers s)" and ?acc = "fold (\<lambda>v acc. sum_into F acc v) vs a"
  have ws: "\<forall>w \<in> set ?ws. worker_in s w" by (simp add: worker_in_def)
  note r = reduce_start [OF assms(2) ws assms(4) [unfolded held_arrays_def] assms(5-7), of F]
  let ?s = "write_all s dst (map (\<lambda>w. (w, Some ?acc)) ?ws)"
  have "Cpu_AllReduce F (Some s) src dst ''sum'' in_group = Inr (Some ?s)"
    using r set_clone_loop [OF assms(3) ws] by (simp add: Cpu_AllReduce_def)
  moreover have "held ?s w dst = Some ?acc" if "worker_in s w" for w
    by (rule held_write_all [OF assms(1,3)]) (use ws that in \<open>auto simp: worker_in_def\<close>)
  ultimately show ?thesis by blast
qed

lemma sum_into_int32:
  assumes "code (ra_dtype a) = 0" "bits (ra_dtype a) = 32" "i < nat (prod_list (ra_shape a))"
  shows "(element_at 4 (ra_bytes (fold (\<lambda>v acc. sum_into F acc v) vs a)) i :: 32 word) =
    element_at 4 (ra_bytes a) i + (\<Sum>v \<leftarrow> vs. element_at 4 (ra_bytes v) i)"
  using assms
proof (induction vs arbitrary: a)
  case (Cons v vs)
  have "(element_at 4 (ra_bytes (sum_into F a v)) i :: 32 word) = element_at 4 (ra_bytes a) i + element_at 4 (ra_bytes v) i"
    using Cons.prems by (simp add: sum_into_def Let_def element_at_add)
  moreover have "ra_dtype (sum_into F a v) = ra_dtype a" "ra_shape (sum_into F a v) = ra_shape a"
    by (simp_all add: sum_into_def Let_def)
  ultimately show ?case using Cons.IH [of "sum_into F a v"] Cons.prems by (simp add: add.assoc)
qed simp

text \<open>
C37. An allreduce of 32-bit integers leaves on every worker the same array: each of its elements is
the sum, modulo 2 to the 32, of that element of the arrays the workers hold, a worker without an
array adding nothing. It does not throw when the arrays have one shape.
\<close>

theorem allreduce_sums:
  assumes "session_ok s" "ref_in s src" "ref_in s dst" "held_arrays s src = a # vs" "array_ok a"
    and "ra_dtype a = dl_type 0 32" "\<forall>v \<in> set vs. same_layout a v"
  shows "\<exists>s' c. Cpu_AllReduce F (Some s) src dst ''sum'' in_group = Inr (Some s') \<and>
    (\<forall>w. worker_in s w \<longrightarrow> held s' w dst = Some c) \<and> same_layout c a \<and>
    (\<forall>i < nat (prod_list (ra_shape a)). (element_at 4 (ra_bytes c) i :: 32 word) =
       (\<Sum>v \<leftarrow> held_arrays s src. element_at 4 (ra_bytes v) i))"
proof -
  have ty: "bits (ra_dtype a) = 32" "code (ra_dtype a) = 0" by (simp_all add: assms(6) dl_type_def)
  let ?c = "fold (\<lambda>v acc. sum_into F acc v) vs a"
  have "\<exists>s'. Cpu_AllReduce F (Some s) src dst ''sum'' in_group = Inr (Some s') \<and>
      (\<forall>w. worker_in s w \<longrightarrow> held s' w dst = Some ?c)"
    by (rule all_reduce [OF assms(1-5) _ assms(7)]) (simp add: ty)
  moreover have "same_layout ?c a"
    by (rule fold_invariant [where Q = "\<lambda>_. True" and P = "\<lambda>x. same_layout x a"])
      (simp_all add: same_layout_def sum_into_def Let_def)
  moreover have "\<forall>i < nat (prod_list (ra_shape a)). (element_at 4 (ra_bytes ?c) i :: 32 word) =
      (\<Sum>v \<leftarrow> held_arrays s src. element_at 4 (ra_bytes v) i)"
    using sum_into_int32 [OF ty(2,1)] by (simp add: assms(4))
  ultimately show ?thesis by blast
qed

lemma allreduce_sums_witness:
  "\<exists>s' c. Cpu_AllReduce \<lparr>add_f32 = (+), add_f64 = (+)\<rparr>
       (Some (two_workers (Some (pair_array 5 7)) (Some (pair_array 1 2)))) (reg 0) (reg 1) ''sum'' True = Inr (Some s') \<and>
     held s' 1 (reg 1) = Some c \<and> (element_at 4 (ra_bytes c) 1 :: 32 word) = 9"
proof -
  let ?s = "two_workers (Some (pair_array 5 7)) (Some (pair_array 1 2))"
  have arrays: "held_arrays ?s (reg 0) = [pair_array 5 7, pair_array 1 2]"
    by (simp add: held_arrays_def two_workers_ok worker_range_nat [of 2, simplified] List.map_filter_simps upt_rec)
  have e: "element_at 4 (ra_bytes (pair_array x y)) 1 = (ucast y :: 32 word)" for x y
    by (simp add: element_at_def pair_array_def)
  have ty: "ra_dtype (pair_array 5 7) = dl_type 0 32" "\<forall>v \<in> set [pair_array 1 2]. same_layout (pair_array 5 7) v"
    "nat (prod_list (ra_shape (pair_array 5 7))) = 2"
    by (simp_all add: pair_array_def same_layout_def)
  from allreduce_sums [OF two_workers_ok(1-3) arrays pair_array_ok ty(1,2), of "\<lparr>add_f32 = (+), add_f64 = (+)\<rparr>" True]
  obtain s' c where c: "Cpu_AllReduce \<lparr>add_f32 = (+), add_f64 = (+)\<rparr> (Some ?s) (reg 0) (reg 1) ''sum'' True = Inr (Some s')"
    "\<forall>w. worker_in ?s w \<longrightarrow> held s' w (reg 1) = Some c"
    "\<forall>i < 2. (element_at 4 (ra_bytes c) i :: 32 word) = (\<Sum>v \<leftarrow> held_arrays ?s (reg 0). element_at 4 (ra_bytes v) i)"
    unfolding ty(3) by blast
  have "held s' 1 (reg 1) = Some c" using c(2) by (simp add: worker_in_def two_workers_ok)
  moreover have "(element_at 4 (ra_bytes c) 1 :: 32 word) = 9"
    using spec [OF c(3), of 1] unfolding arrays by (simp add: e del: One_nat_def)
  ultimately show ?thesis using c(1) by blast
qed

end
