(* ===== verification/Multi_Device.thy ===== *)
theory Multi_Device
  imports Exec_Plan Relay_Semantics
begin

text \<open>
  Multi-device lowering, \<^verbatim>\<open>src/relay/transforms/multi_device.cc\<close>: the insertion of
  \<^verbatim>\<open>device.copy\<close> where a call reads a value of another device, and the builder that turns a
  Relay function into an execution plan.
\<close>

section \<open>Virtual devices and workers\<close>

definition GetVirtualDeviceFromExpr ::
  "'s RelayState_scheme \<Rightarrow> 'd rexpr \<Rightarrow> VirtualDevice option" where
  "GetVirtualDeviceFromExpr st e =
     (case node_addr e of None \<Rightarrow> None | Some a \<Rightarrow> virtual_device st a)"

definition extract_dev :: "VirtualDevice \<Rightarrow> int \<times> int" where
  "extract_dev vd =
     (case (vd_device_obj vd, vd_target vd) of
        (Some d, _) \<Rightarrow> (dev_type d, dev_id d)
      | (None, Some t) \<Rightarrow> (tgt_device_type t, tgt_device_id t)
      | (None, None) \<Rightarrow> (kUnknown, kInvalidVirtualDeviceId))"

definition SameVirtualDevice :: "VirtualDevice option \<Rightarrow> VirtualDevice option \<Rightarrow> bool" where
  "SameVirtualDevice a b =
     (case (a, b) of
        (Some x, Some y) \<Rightarrow>
          vd_ptr x = vd_ptr y \<or>
          (extract_dev x = extract_dev y \<and> vd_memory_scope x = vd_memory_scope y \<and> vd_id x = vd_id y)
      | _ \<Rightarrow> a = None \<and> b = None)"

definition PushUniqueWorker :: "int list \<Rightarrow> int \<Rightarrow> int list" where
  "PushUniqueWorker workers w =
     (if w < 0 then workers else if w \<in> set workers then workers else workers @ [w])"

definition ResolveWorkerForVirtualDevice :: "PassContext \<Rightarrow> VirtualDevice option \<Rightarrow> int" where
  "ResolveWorkerForVirtualDevice ctx vd =
     (if vd = None then -1
      else case pc_disco ctx of
        Some p \<Rightarrow> FindWorkerForVirtualDevice (Some p) vd
      | None \<Rightarrow> (case pc_default_device ctx of Some d \<Rightarrow> dev_id d | None \<Rightarrow> 0))"

definition WorkerSetFromVirtualDevice :: "PassContext \<Rightarrow> VirtualDevice option \<Rightarrow> int list" where
  "WorkerSetFromVirtualDevice ctx vd =
     (let w = ResolveWorkerForVirtualDevice ctx vd in if w < 0 then [0] else [w])"

definition DTypeToString_plan :: "DataType \<Rightarrow> string" where
  "DTypeToString_plan dt =
     (let prefix_s = (if code dt = 2 then ''float'' else if code dt = 0 then ''int''
            else if code dt = 1 then (if bits dt = 1 then ''bool'' else ''uint'') else ''unknown'') in
      if prefix_s = ''bool'' then ''bool''
      else if lanes dt > 1 then prefix_s @ show_nat (bits dt) @ ''x'' @ show_nat (lanes dt)
      else prefix_s @ show_nat (bits dt))"

section \<open>The insertion of copies\<close>

text \<open>
  \<open>copy_op\<close> is the address of the registered operator \<^verbatim>\<open>device.copy\<close>, which \<^verbatim>\<open>Op::Get\<close> returns.
\<close>

definition set_virtual_device ::
  "nat \<Rightarrow> VirtualDevice option \<Rightarrow> 's RelayState_scheme \<Rightarrow> 's RelayState_scheme" where
  "set_virtual_device a vd st = st\<lparr>virtual_device := (virtual_device st)(a := vd)\<rparr>"

text \<open>One argument of a call on \<open>consumer\<close>: the new argument, whether it changed, the store.\<close>

definition copy_arg ::
  "nat \<Rightarrow> VirtualDevice \<Rightarrow> 'd rexpr \<Rightarrow> 's RelayState_scheme \<Rightarrow>
     ('d rexpr \<times> bool) \<times> 's RelayState_scheme" where
  "copy_arg copy_op consumer arg st =
     (let producer = GetVirtualDeviceFromExpr st arg in
      if producer \<noteq> None \<and> \<not> SameVirtualDevice producer (Some consumer) then
        let (n, st) = alloc_node st in
        ((RCall n (ROp copy_op ''device.copy'') [arg] (ADeviceCopy producer (Some consumer) False True), True),
         set_virtual_device n (Some consumer) st)
      else ((arg, False), st))"

fun copy_args ::
  "nat \<Rightarrow> VirtualDevice \<Rightarrow> 'd rexpr list \<Rightarrow> 's RelayState_scheme \<Rightarrow>
     ('d rexpr list \<times> bool) \<times> 's RelayState_scheme" where
  "copy_args copy_op consumer [] st = (([], False), st)"
| "copy_args copy_op consumer (arg # args) st =
     (let ((arg', c), st) = copy_arg copy_op consumer arg st;
          ((args', cs), st) = copy_args copy_op consumer args st
      in ((arg' # args', c \<or> cs), st))"

text \<open>The attributes a communication call is given, and the device of the new call.\<close>

definition normal_copy_attrs ::
  "'d rexpr list \<Rightarrow> VirtualDevice option \<Rightarrow> Attrs \<Rightarrow> 's RelayState_scheme \<Rightarrow>
     VirtualDevice option \<times> VirtualDevice option \<times> bool \<times> bool" where
  "normal_copy_attrs args own ats st =
     (let src = (case args of [] \<Rightarrow> None | a # _ \<Rightarrow> GetVirtualDeviceFromExpr st a) in
      case ats of
        ADeviceCopy s d asyn in_group \<Rightarrow>
          (if s \<noteq> None then s else src, if d \<noteq> None then d else own, asyn, in_group)
      | _ \<Rightarrow> (src, own, False, True))"

definition normal_collective :: "string \<Rightarrow> Attrs \<Rightarrow> Attrs" where
  "normal_collective op_name ats =
     (case ats of
        ACollective kind reduce_kind in_group g_id root_worker \<Rightarrow>
          ACollective (if kind \<noteq> '''' then kind else op_name) reduce_kind in_group g_id root_worker
      | _ \<Rightarrow> ACollective op_name ''sum'' True 0 0)"

definition NormalizeCommunicationCall ::
  "nat \<Rightarrow> 'd rexpr \<Rightarrow> 'd rexpr list \<Rightarrow> Attrs \<Rightarrow> string \<Rightarrow> 's RelayState_scheme \<Rightarrow>
     'd rexpr \<times> 's RelayState_scheme" where
  "NormalizeCommunicationCall a op args ats op_name st =
     (let own = virtual_device st a in
      if op_name = ''device.copy'' then
        let (src, dst, asyn, in_group) = normal_copy_attrs args own ats st;
            (n, st) = alloc_node st in
        (RCall n op args (ADeviceCopy src dst asyn in_group),
         if dst \<noteq> None then set_virtual_device n dst st
         else if own \<noteq> None then set_virtual_device n own st else st)
      else
        let (n, st) = alloc_node st in
        (RCall n op args (normal_collective op_name ats),
         if own \<noteq> None then set_virtual_device n own st else st))"

definition DeviceCommunicationInserter :: "nat \<Rightarrow> ('d, 's) rhook" where
  "DeviceCommunicationInserter copy_op rewritten st =
     (case rewritten of
        RCall a op args ats \<Rightarrow>
          let op_name = GetCallOpName rewritten in
          if op_name = '''' then (rewritten, st)
          else if IsCommunicationOpName op_name
          then NormalizeCommunicationCall a op args ats op_name st
          else (case virtual_device st a of
             None \<Rightarrow> (rewritten, st)
           | Some consumer \<Rightarrow>
               let ((new_args, changed), st) = copy_args copy_op consumer args st in
               if \<not> changed then (rewritten, st)
               else let (n, st) = alloc_node st in
                 (RCall n op new_args ats, set_virtual_device n (Some consumer) st))
      | _ \<Rightarrow> (rewritten, st))"

definition InsertDeviceCommunicationPass :: "pass_env \<Rightarrow> nat \<Rightarrow> ('d, 's) mutator" where
  "InsertDeviceCommunicationPass E copy_op =
     MutateFunction E (post_rewriter (DeviceCommunicationInserter copy_op))"

section \<open>The plan builder\<close>

record 'd PlanBuilder =
  pb_nodes :: "'d ExecNode option list"
  pb_vds :: "(int \<times> VirtualDevice option) list"
  pb_inputs :: "int list"
  pb_constants :: "int list"
  pb_shapes :: "(int \<times> int list) list"
  pb_dtypes :: "(int \<times> string) list"
  pb_memo :: "nat \<Rightarrow> int option"
  pb_bindings :: "nat \<Rightarrow> int option"
  pb_next :: int

definition builder_start :: "'d PlanBuilder" where
  "builder_start = \<lparr>pb_nodes = [], pb_vds = [], pb_inputs = [], pb_constants = [], pb_shapes = [],
     pb_dtypes = [], pb_memo = (\<lambda>_. None), pb_bindings = (\<lambda>_. None), pb_next = 0\<rparr>"

text \<open>\<^verbatim>\<open>expr.get()\<close>.\<close>

definition obj_addr :: "'d rexpr \<Rightarrow> nat" where
  "obj_addr e = (case node_ptr e of Some a \<Rightarrow> a | None \<Rightarrow> 0)"

definition AllocateValue ::
  "'s RelayState_scheme \<Rightarrow> 'd rexpr \<Rightarrow> 'd PlanBuilder \<Rightarrow> int \<times> 'd PlanBuilder" where
  "AllocateValue st e b =
     (let i = pb_next b; vd = GetVirtualDeviceFromExpr st e in
      (i, b\<lparr>pb_next := i + 1,
            pb_vds := (if vd \<noteq> None then AList.update i vd (pb_vds b) else pb_vds b)\<rparr>))"

definition CaptureValueInfoFromType :: "int \<Rightarrow> RType \<Rightarrow> 'd PlanBuilder \<Rightarrow> 'd PlanBuilder" where
  "CaptureValueInfoFromType i ty b =
     (case ty of
        TensorType shape dt \<Rightarrow> b\<lparr>pb_shapes := AList.update i shape (pb_shapes b),
          pb_dtypes := AList.update i dt (pb_dtypes b)\<rparr>
      | _ \<Rightarrow> b)"

fun first_vd :: "(int \<times> VirtualDevice option) list \<Rightarrow> int list \<Rightarrow> VirtualDevice option" where
  "first_vd vds [] = None"
| "first_vd vds (i # is) = (case map_of vds i of Some vd \<Rightarrow> vd | None \<Rightarrow> first_vd vds is)"

definition ResolveComputeWorkerSet ::
  "PassContext \<Rightarrow> 's RelayState_scheme \<Rightarrow> 'd rexpr \<Rightarrow> int list \<Rightarrow> 'd PlanBuilder \<Rightarrow> int list" where
  "ResolveComputeWorkerSet ctx st ref ins b =
     (let own = GetVirtualDeviceFromExpr st ref;
          vd = (if own = None then first_vd (pb_vds b) ins else own)
      in WorkerSetFromVirtualDevice ctx vd)"

definition collective_names :: "string list" where
  "collective_names = [''device.allreduce'', ''device.broadcast_from_worker0'',
     ''device.scatter_from_worker0'', ''device.gather_to_worker0'']"

text \<open>The workers an operator names itself.\<close>

definition named_workers ::
  "PassContext \<Rightarrow> 's RelayState_scheme \<Rightarrow> string \<Rightarrow> 'd rexpr list \<Rightarrow> Attrs \<Rightarrow> 'd rexpr \<Rightarrow> int list" where
  "named_workers ctx st op_name args ats ref =
     (let own = GetVirtualDeviceFromExpr st ref in
      if op_name = ''device.copy'' then
        let (src, dst, _, _) = normal_copy_attrs args own ats st in
        PushUniqueWorker (PushUniqueWorker [] (ResolveWorkerForVirtualDevice ctx src))
          (ResolveWorkerForVirtualDevice ctx dst)
      else if op_name \<in> set collective_names then
        (case pc_disco ctx of
           Some p \<Rightarrow> fold (\<lambda>w ws. case w of Some w \<Rightarrow> PushUniqueWorker ws (worker_id w) | None \<Rightarrow> ws)
             (placement_workers p) []
         | None \<Rightarrow> [])
      else if op_name = ''device.send_to_worker'' \<or> op_name = ''device.recv_from_worker'' then
        PushUniqueWorker [] (ResolveWorkerForVirtualDevice ctx own)
      else [])"

text \<open>Otherwise the workers of its inputs, or the first worker.\<close>

definition input_workers ::
  "PassContext \<Rightarrow> (int \<times> VirtualDevice option) list \<Rightarrow> int list \<Rightarrow> int list" where
  "input_workers ctx vds ins =
     fold (\<lambda>i ws. case map_of vds i of
       Some vd \<Rightarrow> PushUniqueWorker ws (ResolveWorkerForVirtualDevice ctx vd) | None \<Rightarrow> ws) ins []"

definition ResolveCommunicationWorkerSet ::
  "PassContext \<Rightarrow> 's RelayState_scheme \<Rightarrow> string \<Rightarrow> 'd rexpr list \<Rightarrow> Attrs \<Rightarrow> 'd rexpr \<Rightarrow>
     int list \<Rightarrow> 'd PlanBuilder \<Rightarrow> int list" where
  "ResolveCommunicationWorkerSet ctx st op_name args ats ref ins b =
     (let workers = named_workers ctx st op_name args ats ref;
          workers = (if workers = [] then input_workers ctx (pb_vds b) ins else workers)
      in if workers = [] then [0] else workers)"

definition push_node :: "'d ExecNode \<Rightarrow> 'd PlanBuilder \<Rightarrow> 'd PlanBuilder" where
  "push_node n b = b\<lparr>pb_nodes := pb_nodes b @ [Some n]\<rparr>"

text \<open>The node of a call whose arguments have the values \<open>ins\<close>.\<close>

definition plan_call ::
  "PassContext \<Rightarrow> 's RelayState_scheme \<Rightarrow> 'd rexpr \<Rightarrow> string \<Rightarrow> 'd rexpr list \<Rightarrow> Attrs \<Rightarrow>
     int list \<Rightarrow> 'd PlanBuilder \<Rightarrow> int \<times> 'd PlanBuilder" where
  "plan_call ctx st ref op_name args ats ins b =
     (let (out, b) = AllocateValue st ref b in
      if IsCommunicationOpName op_name then
        (out, push_node (CommExec op_name ats ins [out]
           (ResolveCommunicationWorkerSet ctx st op_name args ats ref ins b)) b)
      else
        (out, push_node (KernelExec op_name None ins [out]
           (ResolveComputeWorkerSet ctx st ref ins b) '''') b))"

text \<open>A kernel the builder makes up for tuples.\<close>

definition plan_kernel ::
  "PassContext \<Rightarrow> 's RelayState_scheme \<Rightarrow> 'd rexpr \<Rightarrow> string \<Rightarrow> int list \<Rightarrow> 'd PlanBuilder \<Rightarrow>
     int \<times> 'd PlanBuilder" where
  "plan_kernel ctx st ref op_name ins b =
     (let (out, b) = AllocateValue st ref b in
      (out, push_node (KernelExec op_name None ins [out]
         (ResolveComputeWorkerSet ctx st ref ins b) '''') b))"

definition plan_constant ::
  "'s RelayState_scheme \<Rightarrow> nat \<Rightarrow> 'd NDArray option \<Rightarrow> 'd PlanBuilder \<Rightarrow> int \<times> 'd PlanBuilder" where
  "plan_constant st a d b =
     (let (i, b) = AllocateValue st (RConst a d) b;
          b = b\<lparr>pb_constants := pb_constants b @ [i]\<rparr> in
      (i, case d of
            None \<Rightarrow> b
          | Some array \<Rightarrow> b\<lparr>pb_shapes := AList.update i (nd_shape array) (pb_shapes b),
              pb_dtypes := AList.update i (DTypeToString_plan (nd_dtype array)) (pb_dtypes b)\<rparr>))"

definition memoize :: "nat \<Rightarrow> int \<times> 'd PlanBuilder \<Rightarrow> int \<times> 'd PlanBuilder" where
  "memoize a = (\<lambda>(i, b). (i, b\<lparr>pb_memo := (pb_memo b)(a \<mapsto> i)\<rparr>))"

text \<open>\<open>PlanVisit\<close> is \<^verbatim>\<open>Visit\<close>, \<open>PlanVisitExpr\<close> the dispatch, \<open>PlanVisitList\<close> the loop over arguments.\<close>

fun PlanVisit :: "PassContext \<Rightarrow> 's RelayState_scheme \<Rightarrow> 'd rexpr \<Rightarrow> 'd PlanBuilder \<Rightarrow>
    (int \<times> 'd PlanBuilder) res"
and PlanVisitExpr :: "PassContext \<Rightarrow> 's RelayState_scheme \<Rightarrow> 'd rexpr \<Rightarrow> 'd PlanBuilder \<Rightarrow>
    (int \<times> 'd PlanBuilder) res"
and PlanVisitList :: "PassContext \<Rightarrow> 's RelayState_scheme \<Rightarrow> 'd rexpr list \<Rightarrow> 'd PlanBuilder \<Rightarrow>
    (int list \<times> 'd PlanBuilder) res" where
  "PlanVisit ctx st e b =
     (if e = RUndef then Inr (-1, b)
      else case pb_memo b (obj_addr e) of
        Some i \<Rightarrow> Inr (i, b)
      | None \<Rightarrow> sbind (PlanVisitExpr ctx st e b) (\<lambda>r. Inr (memoize (obj_addr e) r)))"
| "PlanVisitExpr ctx st (RVar v) b =
     Inr (case pb_bindings b (rv_addr v) of
            Some i \<Rightarrow> (i, b)
          | None \<Rightarrow> AllocateValue st (RVar v) b)"
| "PlanVisitExpr ctx st (RConst a d) b = Inr (plan_constant st a d b)"
| "PlanVisitExpr ctx st (RCall a op args ats) b =
     (let op_name = GetCallOpName (RCall a op args ats) in
      if op_name = '''' then throw ''LowerRelayToExecPlanPass only supports Call.op=Op''
      else sbind (PlanVisitList ctx st args b) (\<lambda>(ins, b).
        Inr (plan_call ctx st (RCall a op args ats) op_name args ats ins b)))"
| "PlanVisitExpr ctx st (RFunction a ps bd) b = PlanVisit ctx st bd b"
| "PlanVisitExpr ctx st (RLet a x v bd) b =
     sbind (PlanVisit ctx st v b) (\<lambda>(i, b).
     sbind (PlanVisit ctx st bd (b\<lparr>pb_bindings := (pb_bindings b)(rv_addr x \<mapsto> i)\<rparr>)) (\<lambda>(j, b).
     Inr (memoize a (j, b\<lparr>pb_bindings := (pb_bindings b)(rv_addr x := None)\<rparr>))))"
| "PlanVisitExpr ctx st (RTuple a fs) b =
     sbind (PlanVisitList ctx st fs b) (\<lambda>(ins, b).
       Inr (plan_kernel ctx st (RTuple a fs) ''__make_tuple__'' ins b))"
| "PlanVisitExpr ctx st (RTupleGetItem a t i) b =
     sbind (PlanVisit ctx st t b) (\<lambda>(k, b).
       Inr (plan_kernel ctx st (RTupleGetItem a t i) (''__tuple_getitem_'' @ to_string i) [k] b))"
| "PlanVisitExpr ctx st (RIf a c t f) b =
     throw ''LowerRelayToExecPlanPass does not support IfNode in phase-1''"
| "PlanVisitExpr ctx st (ROp a nm) b =
     throw ''LowerRelayToExecPlanPass encountered an unsupported Relay node''"
| "PlanVisitExpr ctx st (ROther a) b =
     throw ''LowerRelayToExecPlanPass encountered an unsupported Relay node''"
| "PlanVisitExpr ctx st RUndef b = Inr (0, b)"
| "PlanVisitList ctx st [] b = Inr ([], b)"
| "PlanVisitList ctx st (e # es) b =
     sbind (PlanVisit ctx st e b) (\<lambda>(i, b).
     sbind (PlanVisitList ctx st es b) (\<lambda>(is, b). Inr (i # is, b)))"

definition plan_param ::
  "'s RelayState_scheme \<Rightarrow> RVarNode \<Rightarrow> 'd PlanBuilder \<Rightarrow> 'd PlanBuilder" where
  "plan_param st x b =
     (let (i, b) = AllocateValue st (RVar x :: 'd rexpr) b in
      CaptureValueInfoFromType i (rv_annotation x)
        (b\<lparr>pb_bindings := (pb_bindings b)(rv_addr x \<mapsto> i), pb_inputs := pb_inputs b @ [i]\<rparr>))"

text \<open>An undefined function would be dereferenced.\<close>

definition Build ::
  "PassContext \<Rightarrow> 's RelayState_scheme \<Rightarrow> 'd rexpr \<Rightarrow> 'd ExecutionPlan res" where
  "Build ctx st func =
     (case func of
        RFunction a ps bd \<Rightarrow>
          sbind (PlanVisit ctx st bd (fold (plan_param st) ps builder_start)) (\<lambda>(out, b).
          Inr \<lparr>ep_nodes = pb_nodes b, value_virtual_devices = pb_vds b,
               input_value_ids = pb_inputs b, constant_value_ids = pb_constants b,
               value_shapes = pb_shapes b, value_dtypes = pb_dtypes b, num_values = pb_next b,
               ep_pass_ctx = ctx, output_value = out\<rparr>)
      | _ \<Rightarrow> Inl OutOfRange)"

definition LowerRelayToExecPlanPass ::
  "device_api \<Rightarrow> nat \<Rightarrow> ThreadContext \<Rightarrow> 'd rexpr \<Rightarrow> 's RelayState_scheme \<Rightarrow>
     ('d ExecutionPlan \<times> 's RelayState_scheme) res" where
  "LowerRelayToExecPlanPass api copy_op thread func st =
     (if func = RUndef then throw ''LowerRelayToExecPlanPass expects a defined function''
      else
        sbind (if pc_defined (Current thread) then Inr (Current thread)
               else BuildDiscoPlacementPass api st func) (\<lambda>pass_ctx.
        let thread = snd (Scope_enter pass_ctx thread) in
        sbind (InsertDeviceCommunicationPass (api, thread) copy_op func st) (\<lambda>(with_comm, st).
        sbind (Build (Current thread) st with_comm) (\<lambda>plan. Inr (plan, st)))))"

end
