(* ===== verification/Disco_Executor.thy ===== *)
theory Disco_Executor
  imports Disco_Collectives Multi_Device
begin

text \<open>
  The interpreter of execution plans, \<^verbatim>\<open>src/base/disco/executor.cc\<close>. Its state is the session and
  the table of values; the table it is given is changed in place, as the \<^verbatim>\<open>Map\<close> of the caller is
  in the source. Profiling spans are left out.
\<close>

type_synonym exec_state = "DiscoSession \<times> (int \<Rightarrow> DRef option)"

definition EffectiveWorkerSet :: "int list \<Rightarrow> int \<Rightarrow> int list" where
  "EffectiveWorkerSet worker_set fallback_worker =
     (if worker_set \<noteq> [] then worker_set else [if fallback_worker \<ge> 0 then fallback_worker else 0])"

definition ExecutionPlanExecutor_new ::
  "DiscoSession \<Rightarrow> CCLBackend option \<Rightarrow> (DiscoSession \<times> CCLBackend) res" where
  "ExecutionPlanExecutor_new session backend =
     (if session = None then throw ''ExecutionPlanExecutor requires a defined DiscoSession''
      else case backend of
        None \<Rightarrow> throw ''ExecutionPlanExecutor requires a CCL backend''
      | Some B \<Rightarrow> Inr (session, B))"

section \<open>Workers\<close>

definition exec_worker_for_vd :: "'d ExecutionPlan \<Rightarrow> VirtualDevice option \<Rightarrow> int" where
  "exec_worker_for_vd plan vd_ref =
     (case vd_ref of
        None \<Rightarrow> 0
      | Some vd \<Rightarrow>
          let worker = (if pc_disco (ep_pass_ctx plan) \<noteq> None
                then FindWorkerForVirtualDevice (pc_disco (ep_pass_ctx plan)) vd_ref else -1) in
          if worker \<ge> 0 then worker
          else case (vd_device_obj vd, vd_target vd) of
            (Some d, _) \<Rightarrow> dev_id d
          | (None, Some t) \<Rightarrow> tgt_device_id t
          | (None, None) \<Rightarrow> 0)"

definition ResolveWorkerForValue :: "'d ExecutionPlan \<Rightarrow> int \<Rightarrow> int" where
  "ResolveWorkerForValue plan i =
     (case map_of (value_virtual_devices plan) i of None \<Rightarrow> 0 | Some vd \<Rightarrow> exec_worker_for_vd plan vd)"

section \<open>Values\<close>

text \<open>A new value starts as a copy of the prototype on every worker that has it.\<close>

definition copy_if_held :: "CCLBackend \<Rightarrow> DRef \<Rightarrow> DRef \<Rightarrow> int \<Rightarrow> DiscoSession \<Rightarrow> DiscoSession res" where
  "copy_if_held B prototype ref w s =
     sbind (Session_Get s w prototype) (\<lambda>src.
     if src = None then Inr s else ccl_Copy B s prototype ref w w)"

definition EnsureValue :: "CCLBackend \<Rightarrow> int \<Rightarrow> DRef \<Rightarrow> exec_state \<Rightarrow> (DRef \<times> exec_state) res" where
  "EnsureValue B i prototype = (\<lambda>(s, values).
     case values i of
       Some ref \<Rightarrow> Inr (ref, s, values)
     | None \<Rightarrow>
         sbind (NewDRef s) (\<lambda>(ref, s).
         let values = values(i \<mapsto> ref) in
         if \<not> DRef_valid prototype then Inr (ref, s, values)
         else
           sbind (sfold (copy_if_held B prototype ref) (worker_range (num_workers s)) s) (\<lambda>s.
           Inr (ref, s, values))))"

section \<open>Nodes\<close>

text \<open>An output of a kernel without inputs, and one of a kernel with inputs.\<close>

definition fill_output :: "CCLBackend \<Rightarrow> int list \<Rightarrow> int \<Rightarrow> exec_state \<Rightarrow> exec_state res" where
  "fill_output B ws out st =
     sbind (EnsureValue B out None st) (\<lambda>(ref, s, values).
     sbind (sfold (\<lambda>w s. Session_Set s w ref (Some (RuntimeArray_new [1] ''float32'')))
       (EffectiveWorkerSet ws 0) s) (\<lambda>s. Inr (s, values)))"

definition copy_output ::
  "CCLBackend \<Rightarrow> 'd ExecutionPlan \<Rightarrow> int list \<Rightarrow> int \<Rightarrow> DRef \<Rightarrow> int \<Rightarrow> exec_state \<Rightarrow> exec_state res" where
  "copy_output B plan ws input_id input out st =
     sbind (EnsureValue B out input st) (\<lambda>(ref, s, values).
     sbind (sfold (\<lambda>w s. ccl_Copy B s input ref w w)
       (EffectiveWorkerSet ws (ResolveWorkerForValue plan input_id)) s) (\<lambda>s.
     Inr (s, values(out \<mapsto> ref))))"

text \<open>A kernel is not run: every output becomes a copy of the first input.\<close>

definition ExecuteKernel ::
  "CCLBackend \<Rightarrow> 'd ExecutionPlan \<Rightarrow> int list \<Rightarrow> int list \<Rightarrow> int list \<Rightarrow> exec_state \<Rightarrow> exec_state res" where
  "ExecuteKernel B plan ins outs ws st =
     (if outs = [] then Inr st
      else case ins of
        [] \<Rightarrow> sfold (fill_output B ws) outs st
      | input_id # _ \<Rightarrow>
          (case snd st input_id of
             None \<Rightarrow> throw ''Kernel input value is not available''
           | Some input \<Rightarrow> sfold (copy_output B plan ws input_id input) outs st))"

text \<open>The workers of a copy.\<close>

definition copy_workers :: "'d ExecutionPlan \<Rightarrow> Attrs \<Rightarrow> int \<Rightarrow> int \<Rightarrow> int \<times> int" where
  "copy_workers plan ats input_id output_id =
     (let src_worker = ResolveWorkerForValue plan input_id;
          dst_worker = ResolveWorkerForValue plan output_id in
      case ats of
        ADeviceCopy src dst _ _ \<Rightarrow>
          (if src \<noteq> None then exec_worker_for_vd plan src else src_worker,
           if dst \<noteq> None then exec_worker_for_vd plan dst else dst_worker)
      | _ \<Rightarrow> (src_worker, dst_worker))"

definition collective_attrs :: "Attrs \<Rightarrow> string \<times> bool \<times> int" where
  "collective_attrs ats =
     (case ats of
        ACollective kind reduce_kind in_group g_id root_worker \<Rightarrow> (reduce_kind, in_group, root_worker)
      | _ \<Rightarrow> (''sum'', True, 0))"

definition communicate ::
  "CCLBackend \<Rightarrow> 'd ExecutionPlan \<Rightarrow> string \<Rightarrow> Attrs \<Rightarrow> int \<Rightarrow> int \<Rightarrow> DRef \<Rightarrow> DRef \<Rightarrow> DiscoSession \<Rightarrow>
     DiscoSession res" where
  "communicate B plan op_name ats input_id output_id src dst s =
     (let (reduce_kind, in_group, root_worker) = collective_attrs ats in
      if op_name = ''device.copy''
      then (case copy_workers plan ats input_id output_id of (sw, dw) \<Rightarrow> ccl_Copy B s src dst sw dw)
      else if op_name = ''device.allreduce'' then ccl_AllReduce B s src dst reduce_kind in_group
      else if op_name = ''device.broadcast_from_worker0''
      then ccl_BroadcastFromWorker0 B s src dst in_group
      else if op_name = ''device.scatter_from_worker0''
      then ccl_ScatterFromWorker0 B s src dst in_group
      else if op_name = ''device.gather_to_worker0'' then ccl_GatherToWorker0 B s src dst in_group
      else if op_name = ''device.send_to_worker'' then ccl_SendToWorker B s src dst root_worker
      else if op_name = ''device.recv_from_worker'' then ccl_RecvFromWorker B s src dst root_worker
      else throw (''Unsupported communication op in executor: '' @ op_name))"

definition ExecuteComm ::
  "CCLBackend \<Rightarrow> 'd ExecutionPlan \<Rightarrow> string \<Rightarrow> Attrs \<Rightarrow> int list \<Rightarrow> int list \<Rightarrow> exec_state \<Rightarrow> exec_state res" where
  "ExecuteComm B plan op_name ats ins outs st =
     (case outs of
        [] \<Rightarrow> Inr st
      | output_id # more_outs \<Rightarrow>
          (case ins of
             [] \<Rightarrow> throw ''Communication node requires at least one input''
           | input_id # _ \<Rightarrow>
               (case snd st input_id of
                  None \<Rightarrow> throw ''Communication input value is missing''
                | Some src \<Rightarrow>
                    sbind (EnsureValue B output_id src st) (\<lambda>(dst, s, values).
                    sbind (communicate B plan op_name ats input_id output_id src dst s) (\<lambda>s.
                    Inr (s, fold (\<lambda>i values. values(i \<mapsto> dst)) outs values))))))"

fun ExecuteNode :: "CCLBackend \<Rightarrow> 'd ExecutionPlan \<Rightarrow> 'd ExecNode option \<Rightarrow> exec_state \<Rightarrow> exec_state res" where
  "ExecuteNode B plan None st = Inr st"
| "ExecuteNode B plan (Some (KernelExec _ _ ins outs ws _)) st = ExecuteKernel B plan ins outs ws st"
| "ExecuteNode B plan (Some (CommExec op_name ats ins outs _)) st = ExecuteComm B plan op_name ats ins outs st"
| "ExecuteNode B plan (Some (BarrierExec _ ws)) st =
     sbind (sfold (\<lambda>w s. ccl_SyncWorker B s w) (EffectiveWorkerSet ws 0) (fst st)) (\<lambda>s. Inr (s, snd st))"
| "ExecuteNode B plan (Some (OtherObject _)) st = throw ''ExecutionPlan contains unknown node type''"

section \<open>Plans\<close>

definition Execute :: "CCLBackend \<Rightarrow> 'd ExecutionPlan option \<Rightarrow> exec_state \<Rightarrow> exec_state res" where
  "Execute B plan_ref st =
     (case plan_ref of
        None \<Rightarrow> throw ''Execute requires a defined ExecutionPlan''
      | Some plan \<Rightarrow> sfold (ExecuteNode B plan) (ep_nodes plan) st)"

definition ExecuteForOutput ::
  "CCLBackend \<Rightarrow> 'd ExecutionPlan option \<Rightarrow> exec_state \<Rightarrow> (DRef \<times> exec_state) res" where
  "ExecuteForOutput B plan_ref st =
     sbind (Execute B plan_ref st) (\<lambda>(s, values).
     let out = (case plan_ref of Some plan \<Rightarrow> output_value plan | None \<Rightarrow> -1) in
     if out < 0 then throw ''ExecutionPlan output value is missing after execution''
     else case values out of
       None \<Rightarrow> throw ''ExecutionPlan output value is missing after execution''
     | Some ref \<Rightarrow> Inr (ref, s, values))"

text \<open>The registered functions start with no values; a text is parsed with the next address \<open>p\<close>.\<close>

definition execute_plan ::
  "FloatAdd \<Rightarrow> DiscoSession \<Rightarrow> 'd ExecutionPlan option \<Rightarrow> exec_state res" where
  "execute_plan F session plan =
     sbind (ExecutionPlanExecutor_new session (Some (CpuCCLBackend F))) (\<lambda>(s, B).
     Execute B plan (s, Map.empty))"

definition execute_plan_output ::
  "FloatAdd \<Rightarrow> DiscoSession \<Rightarrow> 'd ExecutionPlan option \<Rightarrow> (DRef \<times> exec_state) res" where
  "execute_plan_output F session plan =
     sbind (ExecutionPlanExecutor_new session (Some (CpuCCLBackend F))) (\<lambda>(s, B).
     ExecuteForOutput B plan (s, Map.empty))"

definition execute_plan_json ::
  "FloatAdd \<Rightarrow> DiscoSession \<Rightarrow> nat \<Rightarrow> string \<Rightarrow> exec_state res" where
  "execute_plan_json F session p json_text =
     sbind (ExecutionPlanExecutor_new session (Some (CpuCCLBackend F))) (\<lambda>(s, B).
     sbind (DeserializeExecutionPlanFromJson p json_text :: (int ExecutionPlan \<times> nat) res) (\<lambda>(plan, _).
     Execute B (Some plan) (s, Map.empty)))"

definition execute_plan_json_output ::
  "FloatAdd \<Rightarrow> DiscoSession \<Rightarrow> nat \<Rightarrow> string \<Rightarrow> (DRef \<times> exec_state) res" where
  "execute_plan_json_output F session p json_text =
     sbind (ExecutionPlanExecutor_new session (Some (CpuCCLBackend F))) (\<lambda>(s, B).
     sbind (DeserializeExecutionPlanFromJson p json_text :: (int ExecutionPlan \<times> nat) res) (\<lambda>(plan, _).
     ExecuteForOutput B (Some plan) (s, Map.empty)))"

end
