(* ===== verification/Multi_DeviceProofs.thy ===== *)
theory Multi_DeviceProofs
  imports Multi_Device Relay_Passes
begin

text \<open>
  The insertion of copies keeps the meaning of every function and leaves no call that reads a
  value of another device.
\<close>

section \<open>Copies keep the meaning\<close>

text \<open>
  What the pass relies on: \<^verbatim>\<open>device.copy\<close> returns its argument, whatever its attributes, and a
  collective communication operator reads missing attributes as the default ones. Every other
  operator may use its attributes as it likes.
\<close>

definition comm_meaning :: "('d, 't) rsem \<Rightarrow> bool" where
  "comm_meaning S \<longleftrightarrow>
     (\<forall>ats v. op_val S ''device.copy'' ats [v] = Some v) \<and>
     (\<forall>ats ats' vs. op_val S ''device.copy'' ats vs = op_val S ''device.copy'' ats' vs) \<and>
     (\<forall>nm ats vs. IsCommunicationOpName nm \<longrightarrow> nm \<noteq> ''device.copy'' \<longrightarrow>
        op_val S nm (normal_collective nm ats) vs = op_val S nm ats vs)"

lemma pass_preserves_runs:
  assumes "pass_preserves S p" "mutate_context E st (RFunction a ps b) = Inr ctx"
  shows "\<exists>f' st'. p E (RFunction a ps b) st = Inr (f', st')"
proof -
  obtain a' b' st' where "p E (RFunction a ps b) st =
      sbind (mutate_context E st (RFunction a ps b)) (\<lambda>_. Inr (RFunction a' ps b', st'))"
    using assms(1) unfolding pass_preserves_def by blast
  then show ?thesis by (simp add: assms(2))
qed

lemma copy_arg_value:
  assumes "comm_meaning S" "copy_arg copy_op c arg st = ((arg', ch), st')"
  shows "reval S env arg' = reval S env arg"
  using assms by (auto simp: copy_arg_def alloc_node_def comm_meaning_def Let_def
    split: if_splits option.splits)

lemma copy_args_value:
  assumes "comm_meaning S" "copy_args copy_op c args st = ((args', ch), st')"
  shows "map (reval S env) args' = map (reval S env) args"
  using assms(2)
proof (induction args arbitrary: st args' ch st')
  case (Cons a as)
  obtain a' c1 s1 where 1: "copy_arg copy_op c a st = ((a', c1), s1)" by (metis prod.collapse)
  obtain as' c2 s2 where 2: "copy_args copy_op c as s1 = ((as', c2), s2)" by (metis prod.collapse)
  show ?case using Cons.prems Cons.IH [OF 2] copy_arg_value [OF assms(1) 1] 1 2 by auto
qed simp

lemma call_rle:
  assumes "\<And>env. map (reval S env) args' = map (reval S env) args"
    and "op_val S (GetCallOpName (RCall a op args ats)) ats' = op_val S (GetCallOpName (RCall a op args ats)) ats"
  shows "rle S (RCall a op args ats) (RCall n op args' ats')"
proof (rule rleI)
  fix env v
  show "reval S env (RCall a op args ats) = Some v \<Longrightarrow> reval S env (RCall n op args' ats') = Some v"
    using assms(1) [of env] assms(2) by (cases op) simp_all
qed (simp add: op_name_of_def)

lemma inserter_hook:
  assumes "comm_meaning S"
  shows "sound_hook S (DeviceCommunicationInserter copy_op :: ('d, 's) rhook)"
proof
  fix e :: "'d rexpr" and st :: "'s RelayState_scheme"
  show "rle S e (fst (DeviceCommunicationInserter copy_op e st))"
  proof (cases "\<exists>a op args ats. e = RCall a op args ats")
    case True
    then obtain a op args ats where e: "e = RCall a op args ats" by blast
    have copy: "rle S e (RCall n op args ats')" if "GetCallOpName e = ''device.copy''" for n ats'
      using assms that unfolding e by (intro call_rle) (auto simp: comm_meaning_def)
    have coll: "rle S e (RCall n op args (normal_collective (GetCallOpName e) ats))"
      if "IsCommunicationOpName (GetCallOpName e)" "GetCallOpName e \<noteq> ''device.copy''" for n
      using assms that unfolding e by (intro call_rle) (auto simp: comm_meaning_def)
    have args: "rle S e (RCall n op args' ats)" if "copy_args copy_op c args s = ((args', ch), s')"
      for n c s args' ch s'
      unfolding e using copy_args_value [OF assms that] by (intro call_rle) auto
    consider "GetCallOpName e = ''''" | "GetCallOpName e \<noteq> ''''" "IsCommunicationOpName (GetCallOpName e)"
      | "GetCallOpName e \<noteq> ''''" "\<not> IsCommunicationOpName (GetCallOpName e)" by blast
    then show ?thesis
    proof cases
      case 2
      then have "fst (DeviceCommunicationInserter copy_op e st) =
          fst (NormalizeCommunicationCall a op args ats (GetCallOpName e) st)"
        by (simp add: e DeviceCommunicationInserter_def Let_def)
      then show ?thesis
        using copy coll [OF 2(2)] by (cases "GetCallOpName e = ''device.copy''")
          (simp_all add: NormalizeCommunicationCall_def alloc_node_def Let_def split: prod.split)
    next
      case 3
      show ?thesis
      proof (cases "virtual_device st a")
        case None
        then show ?thesis using 3 by (simp add: e DeviceCommunicationInserter_def Let_def)
      next
        case (Some c)
        obtain args' ch s' where c: "copy_args copy_op c args st = ((args', ch), s')"
          by (metis prod.collapse)
        have "fst (DeviceCommunicationInserter copy_op e st) = (if ch then RCall (next_node s') op args' ats else e)"
          using 3 Some c by (simp add: e DeviceCommunicationInserter_def Let_def alloc_node_def)
        then show ?thesis using args [OF c] by simp
      qed
    qed (simp add: e DeviceCommunicationInserter_def Let_def)
  next
    case False
    then show ?thesis by (cases e) (auto simp: DeviceCommunicationInserter_def)
  qed
qed (simp_all add: DeviceCommunicationInserter_def)

lemma inserter_preserves:
  assumes "comm_meaning S"
  shows "pass_preserves S (\<lambda>E. InsertDeviceCommunicationPass E copy_op)"
  unfolding InsertDeviceCommunicationPass_def
  by (rule sound_hook_preserves) (rule inserter_hook [OF assms])

text \<open>
C33. Inserting device copies preserves the value of every function, when device.copy returns its
argument and the collective operators read missing attributes as the defaults the pass writes; the
other operators are arbitrary functions of their attributes and arguments. The pass throws only what
deriving the context of the function throws.
\<close>

theorem insert_copies_preserves:
  assumes "comm_meaning S"
  shows "pass_preserves S (\<lambda>E. InsertDeviceCommunicationPass E copy_op)"
  by (rule inserter_preserves [OF assms])

text \<open>A meaning with a copy, collectives that read their kind of reduction, a cast and a sum.\<close>

definition copying_val :: "string \<Rightarrow> Attrs \<Rightarrow> int rval list \<Rightarrow> int rval option" where
  "copying_val nm ats vs =
     (if nm = ''device.copy'' then (case vs of [v] \<Rightarrow> Some v | _ \<Rightarrow> None)
      else if IsCommunicationOpName nm then
        (case (normal_collective nm ats, vs) of
           (ACollective kind reduce_kind in_group g_id root_worker, [VTensor x]) \<Rightarrow>
             (if reduce_kind = ''sum'' then Some (VTensor (2 * x)) else Some (VTensor x))
         | _ \<Rightarrow> None)
      else
        (case (ats, vs) of
           (ACast t, [VTensor x]) \<Rightarrow> Some (VTensor (x mod (t + 1)))
         | (_, [VTensor x, VTensor y]) \<Rightarrow> Some (VTensor (x + y))
         | _ \<Rightarrow> None))"

definition copying_sem :: "(int, int) rsem" where
  "copying_sem = \<lparr>op_val = copying_val, const_val = (\<lambda>d. 0), cond_val = (\<lambda>_. None)\<rparr>"

lemma normal_collective_idem: "normal_collective nm (normal_collective nm ats) = normal_collective nm ats"
  by (simp add: normal_collective_def split: Attrs.split)

lemma copying_meaning: "comm_meaning copying_sem"
  by (simp add: comm_meaning_def copying_sem_def copying_val_def normal_collective_idem)

lemma insert_copies_preserves_witness:
  "pass_preserves copying_sem (\<lambda>E. InsertDeviceCommunicationPass E 3 :: (int, unit) mutator)"
  by (rule insert_copies_preserves [OF copying_meaning])

section \<open>No call reads a value of another device\<close>

definition edge_ok :: "'s RelayState_scheme \<Rightarrow> 'd rexpr \<Rightarrow> bool" where
  "edge_ok st e \<longleftrightarrow>
     (case e of RCall a op args ats \<Rightarrow>
        GetCallOpName e \<noteq> '''' \<and> \<not> IsCommunicationOpName (GetCallOpName e) \<longrightarrow>
        (\<forall>c. virtual_device st a = Some c \<longrightarrow>
           (\<forall>x \<in> set args. GetVirtualDeviceFromExpr st x = None \<or>
              SameVirtualDevice (GetVirtualDeviceFromExpr st x) (Some c)))
      | _ \<Rightarrow> True)"

text \<open>The annotations of old nodes stay; the nodes of an expression are old.\<close>

definition extends :: "'s RelayState_scheme \<Rightarrow> 's RelayState_scheme \<Rightarrow> bool" where
  "extends st st' \<longleftrightarrow> next_node st \<le> next_node st' \<and>
     (\<forall>a < next_node st. virtual_device st' a = virtual_device st a)"

definition below :: "nat \<Rightarrow> 's RelayState_scheme \<Rightarrow> 'd rexpr \<Rightarrow> bool" where
  "below k st e \<longleftrightarrow> k < next_node st \<and> (\<forall>s \<in> rsubs e. \<forall>p. node_ptr s = Some p \<longrightarrow> p < next_node st)"

definition good :: "nat \<Rightarrow> 's RelayState_scheme \<Rightarrow> 'd rexpr \<Rightarrow> bool" where
  "good k st e \<longleftrightarrow> below k st e \<and> (\<forall>s \<in> rsubs e. edge_ok st s)"

lemma extends_refl [simp]: "extends st st"
  by (simp add: extends_def)

lemma extends_trans: "extends a b \<Longrightarrow> extends b c \<Longrightarrow> extends a c"
  by (auto simp: extends_def)

lemma below_extends: "below k st e \<Longrightarrow> extends st st' \<Longrightarrow> below k st' e"
  by (force simp: below_def extends_def)

lemma below_child: "below k st e \<Longrightarrow> c \<in> set (relay_children e) \<Longrightarrow> below k st c"
  using rsubs_child by (fastforce simp: below_def)

lemma below_self: "below k st e \<Longrightarrow> node_ptr e = Some p \<Longrightarrow> p < next_node st"
  using rsubs_self by (fastforce simp: below_def)

lemma node_addr_ptr: "node_addr e = Some a \<Longrightarrow> node_ptr e = Some a"
  by (cases e) simp_all

lemma device_extends:
  assumes "below k st e" "extends st st'"
  shows "GetVirtualDeviceFromExpr st' e = GetVirtualDeviceFromExpr st e"
proof (cases "node_addr e")
  case (Some a)
  then show ?thesis
    using assms(2) below_self [OF assms(1) node_addr_ptr [OF Some]]
    by (simp add: GetVirtualDeviceFromExpr_def extends_def)
qed (simp add: GetVirtualDeviceFromExpr_def)

lemma edge_extends:
  assumes "below k st e" "extends st st'" "edge_ok st e"
  shows "edge_ok st' e"
proof (cases e)
  case (RCall a op args ats)
  have "virtual_device st' a = virtual_device st a"
    using assms(2) below_self [OF assms(1), of a] by (simp add: RCall extends_def)
  moreover have "GetVirtualDeviceFromExpr st' x = GetVirtualDeviceFromExpr st x" if "x \<in> set args" for x
    using device_extends [OF below_child [OF assms(1)] assms(2)] that by (simp add: RCall)
  ultimately show ?thesis using assms(3) by (simp add: RCall edge_ok_def)
qed (use assms in \<open>simp_all add: edge_ok_def\<close>)

lemma below_sub: "below k st e \<Longrightarrow> s \<in> rsubs e \<Longrightarrow> below k st s"
  using rsubs_mono by (fastforce simp: below_def)

lemma good_extends: "good k st e \<Longrightarrow> extends st st' \<Longrightarrow> good k st' e"
  using below_extends below_sub edge_extends unfolding good_def by blast

lemma below_node:
  "k < next_node st \<Longrightarrow> (\<And>p. node_ptr e = Some p \<Longrightarrow> p < next_node st) \<Longrightarrow> (\<And>c. c \<in> set (relay_children e) \<Longrightarrow> below k st c) \<Longrightarrow>
     below k st e"
  unfolding below_def by (subst rsubs.simps) blast

lemma good_node:
  "below k st e \<Longrightarrow> edge_ok st e \<Longrightarrow> (\<And>c. c \<in> set (relay_children e) \<Longrightarrow> good k st c) \<Longrightarrow> good k st e"
  using rsubs.simps [of e] by (auto simp: good_def)

lemma goodD: "good k st e \<Longrightarrow> below k st e"
  by (simp add: good_def)

text \<open>A base method of the mutator over children that come back good.\<close>

lemma alloc_extends: "alloc_node st = (n, st') \<Longrightarrow> n = next_node st \<and> next_node st' = Suc n \<and> extends st st'"
  by (auto simp: alloc_node_def extends_def)

lemma renew_extends:
  assumes "renew_node ref mk st = Inr (e', st')" "node_addr (mk (next_node st)) = Some (next_node st)"
  shows "e' = mk (next_node st) \<and> next_node st' = Suc (next_node st) \<and> extends st st'"
  using assms by (auto simp: renew_node_def alloc_node_def CopyRelayVirtualDevice_def extends_def
    split: option.splits)

definition visit_good :: "nat \<Rightarrow> ('d, 's) mutator \<Rightarrow> 'd rexpr \<Rightarrow> bool" where
  "visit_good k mut c \<longleftrightarrow> (\<forall>s c' s'. below k s c \<longrightarrow> mut c s = Inr (c', s') \<longrightarrow> extends s s' \<and> good k s' c')"

lemma visit_goodD: "visit_good k mut c \<Longrightarrow> below k s c \<Longrightarrow> mut c s = Inr (c', s') \<Longrightarrow> extends s s' \<and> good k s' c'"
  by (simp add: visit_good_def)

lemma MutateList_good:
  assumes "MutateList mut es s = Inr (es', s')" "\<And>c. c \<in> set es \<Longrightarrow> visit_good k mut c"
    and "\<And>c. c \<in> set es \<Longrightarrow> below k s c"
  shows "extends s s' \<and> (\<forall>c' \<in> set es'. good k s' c')"
  using assms
proof (induction es arbitrary: s es')
  case (Cons e es)
  from Cons.prems(1) obtain e1 s1 es1 where 1: "mut e s = Inr (e1, s1)" "MutateList mut es s1 = Inr (es1, s')"
    "es' = e1 # es1" by (auto simp: sbind_Inr_iff)
  have g: "extends s s1" "good k s1 e1" using visit_goodD [where mut = mut, OF _ _ 1(1)] Cons.prems(2,3) by auto
  have "extends s1 s' \<and> (\<forall>c' \<in> set es1. good k s' c')"
    using Cons.IH [OF 1(2)] Cons.prems(2,3) below_extends [OF _ g(1)] by auto
  then show ?case using g 1(3) by (auto intro: extends_trans good_extends)
qed simp

text \<open>\<open>visited k st e st1 e1\<close>: what the base method leaves, a node over good children.\<close>

definition visited :: "nat \<Rightarrow> 's RelayState_scheme \<Rightarrow> 's RelayState_scheme \<Rightarrow> 'd rexpr \<Rightarrow> bool" where
  "visited k st st1 e1 \<longleftrightarrow> extends st st1 \<and> below k st1 e1 \<and> (\<forall>c \<in> set (relay_children e1). good k st1 c)"

lemma visited_old:
  assumes "below k st e" "extends st st1" "\<And>c. c \<in> set (relay_children e) \<Longrightarrow> good k st1 c"
  shows "visited k st st1 e"
  using assms below_extends by (auto simp: visited_def)

lemma visited_new:
  assumes "renew_node ref mk s = Inr (e1, st1)" "extends st s" "node_addr (mk (next_node s)) = Some (next_node s)"
    and "\<And>c. c \<in> set (relay_children (mk (next_node s))) \<Longrightarrow> good k s c" "k < next_node s"
  shows "visited k st st1 e1"
proof -
  note r = renew_extends [OF assms(1,3)]
  have ptr: "node_ptr e1 = Some (next_node s)" using node_addr_ptr [OF assms(3)] r by simp
  have kids: "good k st1 c" if "c \<in> set (relay_children e1)" for c
    using good_extends [OF assms(4)] r that by simp
  have "below k st1 e1"
    by (rule below_node) (use ptr r kids assms(5) goodD in auto)
  then show ?thesis
    unfolding visited_def using extends_trans [OF assms(2)] r kids by simp
qed

lemma good_var: "k < next_node st \<Longrightarrow> rv_addr v < next_node st \<Longrightarrow> good k st (RVar v)"
  by (auto simp: good_def below_def edge_ok_def rsubs_leaf)

lemma visit_base:
  assumes "RelayVisitExpr mut e st = Inr (e1, st1)" "below k st e"
    and "\<And>c. rsize c < rsize e \<Longrightarrow> visit_good k mut c"
    and "\<And>v s. mut (RVar v) s = Inr (RVar v, s)"
  shows "visited k st st1 e1"
proof -
  have ks: "k < next_node s" if "extends st s" for s
    using assms(2) that by (auto simp: below_def extends_def)
  show ?thesis
proof (cases e)
  case (RCall a op args ats)
  from assms(1) obtain op' s1 args' s2 where 1: "mut op st = Inr (op', s1)"
    "MutateList mut args s1 = Inr (args', s2)"
    and 2: "(if op' = op \<and> args' = args then Inr (RCall a op args ats, s2)
      else renew_node (RCall a op args ats) (\<lambda>n. RCall n op' args' ats) s2) = Inr (e1, st1)"
    by (auto simp: RCall RelayVisitExpr_def RelayVisitCall_def sbind_Inr_iff)
  have kids: "below k st c" "visit_good k mut c" if "c \<in> set (op # args)" for c
    using that below_child [OF assms(2), of c] assms(3) rsize_child [of c e] by (auto simp: RCall)
  have g1: "extends st s1" "good k s1 op'" using visit_goodD [where mut = mut, OF _ _ 1(1)] kids [of op] by auto
  have g2: "extends s1 s2 \<and> (\<forall>c' \<in> set args'. good k s2 c')"
    using MutateList_good [where k = k, OF 1(2)] kids below_extends [OF _ g1(1)] by auto
  have g: "extends st s2" "\<And>c. c \<in> set (op' # args') \<Longrightarrow> good k s2 c"
    using g1 g2 by (auto intro: extends_trans good_extends)
  show ?thesis
  proof (cases "op' = op \<and> args' = args")
    case True
    then have "e1 = e" "st1 = s2" using 2 by (auto simp: RCall)
    then show ?thesis using visited_old [OF assms(2) g(1)] g(2) True by (auto simp: RCall)
  next
    case False
    with 2 have "renew_node (RCall a op args ats) (\<lambda>n. RCall n op' args' ats) s2 = Inr (e1, st1)" by argo
    from visited_new [OF this g(1)] g(2) ks [OF g(1)] show ?thesis by simp
  qed
next
  case (RFunction a ps b)
  have ps: "MutateParams mut ps st = Inr (ps, st)" by (rule MutateParams_keep) (rule assms(4))
  from assms(1) obtain b' s1 where 1: "mut b st = Inr (b', s1)"
    and 2: "(if b' = b then Inr (RFunction a ps b, s1)
      else renew_node (RFunction a ps b) (\<lambda>n. RFunction n ps b') s1) = Inr (e1, st1)"
    by (auto simp: RFunction RelayVisitExpr_def RelayVisitFunction_def sbind_Inr_iff ps)
  have kids: "below k st c" "visit_good k mut c" if "c \<in> set (relay_children e)" for c
    using that below_child [OF assms(2), of c] assms(3) rsize_child [of c e] by auto
  have g1: "extends st s1" "good k s1 b'" using visit_goodD [where mut = mut, OF _ _ 1] kids [of b] by (auto simp: RFunction)
  have "good k s1 (RVar v)" if "v \<in> set ps" for v
    using below_self [OF kids(1) [of "RVar v"]] that g1(1) ks [OF g1(1)] by (intro good_var) (auto simp: RFunction extends_def)
  then have g: "\<And>c. c \<in> set (map RVar ps @ [b']) \<Longrightarrow> good k s1 c" using g1(2) by auto
  show ?thesis
  proof (cases "b' = b")
    case True
    then have "e1 = e" "st1 = s1" using 2 by (auto simp: RFunction)
    then show ?thesis using visited_old [OF assms(2) g1(1)] g True by (auto simp: RFunction)
  next
    case False
    with 2 have "renew_node (RFunction a ps b) (\<lambda>n. RFunction n ps b') s1 = Inr (e1, st1)" by argo
    from visited_new [OF this g1(1)] g ks [OF g1(1)] show ?thesis by simp
  qed
next
  case (RIf a c t f)
  from assms(1) obtain c' s1 t' s2 f' s3 where 1: "mut c st = Inr (c', s1)" "mut t s1 = Inr (t', s2)"
    "mut f s2 = Inr (f', s3)"
    and 2: "(if c' = c \<and> t' = t \<and> f' = f then Inr (RIf a c t f, s3)
      else renew_node (RIf a c t f) (\<lambda>n. RIf n c' t' f') s3) = Inr (e1, st1)"
    by (auto simp: RIf RelayVisitExpr_def RelayVisitIf_def sbind_Inr_iff)
  have kids: "below k st x" "visit_good k mut x" if "x \<in> {c, t, f}" for x
    using that below_child [OF assms(2), of x] assms(3) rsize_child [of x e] by (auto simp: RIf)
  have g1: "extends st s1" "good k s1 c'" using visit_goodD [where mut = mut, OF _ _ 1(1)] kids [of c] by auto
  have g2: "extends s1 s2" "good k s2 t'"
    using visit_goodD [where mut = mut, OF _ _ 1(2)] kids [of t] below_extends [OF _ g1(1)] by auto
  have g3: "extends s2 s3" "good k s3 f'"
    using visit_goodD [where mut = mut, OF _ _ 1(3)] kids [of f] below_extends g1(1) g2(1) by blast+
  have g: "extends st s3" by (rule extends_trans [OF extends_trans [OF g1(1) g2(1)] g3(1)])
  have "good k s3 c'" "good k s3 t'"
    using good_extends [OF g1(2) extends_trans [OF g2(1) g3(1)]] good_extends [OF g2(2) g3(1)] by auto
  then have gs: "\<And>x. x \<in> set [c', t', f'] \<Longrightarrow> good k s3 x" using g3(2) by auto
  show ?thesis
  proof (cases "c' = c \<and> t' = t \<and> f' = f")
    case True
    then have "e1 = e" "st1 = s3" using 2 by (auto simp: RIf)
    then show ?thesis using visited_old [OF assms(2) g] gs True by (simp add: RIf)
  next
    case False
    with 2 have "renew_node (RIf a c t f) (\<lambda>n. RIf n c' t' f') s3 = Inr (e1, st1)" by argo
    from visited_new [OF this g] gs ks [OF g] show ?thesis by simp
  qed
next
  case (RLet a x v b)
  have x: "RelayMutateToVar mut x st = Inr (x, st)" by (simp add: RelayMutateToVar_def assms(4))
  from assms(1) obtain v' s1 b' s2 where 1: "mut v st = Inr (v', s1)" "mut b s1 = Inr (b', s2)"
    and 2: "(if v' = v \<and> b' = b then Inr (RLet a x v b, s2)
      else renew_node (RLet a x v b) (\<lambda>n. RLet n x v' b') s2) = Inr (e1, st1)"
    by (auto simp: RLet RelayVisitExpr_def RelayVisitLet_def sbind_Inr_iff x)
  have kids: "below k st c" "visit_good k mut c" if "c \<in> {RVar x, v, b}" for c
    using that below_child [OF assms(2), of c] assms(3) rsize_child [of c e] by (auto simp: RLet)
  have g1: "extends st s1" "good k s1 v'" using visit_goodD [where mut = mut, OF _ _ 1(1)] kids [of v] by auto
  have g2: "extends s1 s2" "good k s2 b'"
    using visit_goodD [where mut = mut, OF _ _ 1(2)] kids [of b] below_extends [OF _ g1(1)] by auto
  have ext: "extends st s2" using g1(1) g2(1) by (rule extends_trans)
  have "good k s2 (RVar x)"
    using below_self [OF kids(1) [of "RVar x"]] ext ks [OF ext] by (intro good_var) (auto simp: extends_def)
  then have g: "\<And>c. c \<in> set [RVar x, v', b'] \<Longrightarrow> good k s2 c"
    using good_extends [OF g1(2) g2(1)] g2(2) by auto
  show ?thesis
  proof (cases "v' = v \<and> b' = b")
    case True
    then have "e1 = e" "st1 = s2" using 2 by (auto simp: RLet)
    then show ?thesis using visited_old [OF assms(2) ext] g True by (auto simp: RLet)
  next
    case False
    with 2 have "renew_node (RLet a x v b) (\<lambda>n. RLet n x v' b') s2 = Inr (e1, st1)" by argo
    from visited_new [OF this ext] g ks [OF ext] show ?thesis by simp
  qed
next
  case (RTuple a fs)
  from assms(1) obtain fs' s1 where 1: "MutateList mut fs st = Inr (fs', s1)"
    and 2: "(if fs' = fs then Inr (RTuple a fs, s1)
      else renew_node (RTuple a fs) (\<lambda>n. RTuple n fs') s1) = Inr (e1, st1)"
    by (auto simp: RTuple RelayVisitExpr_def RelayVisitTuple_def sbind_Inr_iff)
  have kids: "below k st c" "visit_good k mut c" if "c \<in> set fs" for c
    using that below_child [OF assms(2), of c] assms(3) rsize_child [of c e] by (auto simp: RTuple)
  have g: "extends st s1 \<and> (\<forall>c' \<in> set fs'. good k s1 c')" using MutateList_good [where k = k, OF 1] kids by auto
  show ?thesis
  proof (cases "fs' = fs")
    case True
    then have "e1 = e" "st1 = s1" using 2 by (auto simp: RTuple)
    then show ?thesis using visited_old [OF assms(2) conjunct1 [OF g]] conjunct2 [OF g] True by (auto simp: RTuple)
  next
    case False
    with 2 have "renew_node (RTuple a fs) (\<lambda>n. RTuple n fs') s1 = Inr (e1, st1)" by argo
    from visited_new [OF this] g ks show ?thesis by simp
  qed
next
  case (RTupleGetItem a t i)
  from assms(1) obtain t' s1 where 1: "mut t st = Inr (t', s1)"
    and 2: "(if t' = t then Inr (RTupleGetItem a t i, s1)
      else renew_node (RTupleGetItem a t i) (\<lambda>n. RTupleGetItem n t' i) s1) = Inr (e1, st1)"
    by (auto simp: RTupleGetItem RelayVisitExpr_def RelayVisitTupleGetItem_def sbind_Inr_iff)
  have "below k st t" "visit_good k mut t"
    using below_child [OF assms(2), of t] assms(3) rsize_child [of t e] by (auto simp: RTupleGetItem)
  then have g: "extends st s1" "good k s1 t'" using visit_goodD [where mut = mut, OF _ _ 1] by auto
  show ?thesis
  proof (cases "t' = t")
    case True
    then have "e1 = e" "st1 = s1" using 2 by (auto simp: RTupleGetItem)
    then show ?thesis using visited_old [OF assms(2) g(1)] g(2) True by (auto simp: RTupleGetItem)
  next
    case False
    with 2 have "renew_node (RTupleGetItem a t i) (\<lambda>n. RTupleGetItem n t' i) s1 = Inr (e1, st1)" by argo
    from visited_new [OF this g(1)] g ks [OF g(1)] show ?thesis by simp
  qed
qed (use assms(1,2) in \<open>auto simp: RelayVisitExpr_def visited_def below_def rsubs_leaf\<close>)
qed

text \<open>What the step of the pass does to a node over good children.\<close>

definition reads_from :: "'s RelayState_scheme \<Rightarrow> VirtualDevice \<Rightarrow> 'd rexpr \<Rightarrow> bool" where
  "reads_from st c x \<longleftrightarrow> GetVirtualDeviceFromExpr st x = None \<or>
     SameVirtualDevice (GetVirtualDeviceFromExpr st x) (Some c)"

lemma reads_from_extends: "reads_from st c x \<Longrightarrow> good copy_op st x \<Longrightarrow> extends st st' \<Longrightarrow> reads_from st' c x"
  using device_extends [OF goodD, of copy_op st x st'] by (simp add: reads_from_def)

lemma set_device_extends:
  "extends st s \<Longrightarrow> a \<ge> next_node st \<Longrightarrow> extends st (set_virtual_device a vd s)"
  by (auto simp: extends_def set_virtual_device_def)

lemma good_new_call:
  assumes "alloc_node st = (n, s)" "\<And>c. c \<in> set (op # args) \<Longrightarrow> good copy_op st c" "s' \<in> {s, set_virtual_device n vd s}"
    and "edge_ok s' (RCall n op args ats)"
  shows "extends st s' \<and> good copy_op s' (RCall n op args ats)"
proof -
  note a = alloc_extends [OF assms(1)]
  have e: "extends st s'" using a assms(3) set_device_extends [of st s n vd] by auto
  have n: "n < next_node s'" using a assms(3) by (auto simp: set_virtual_device_def)
  have kids: "good copy_op s' c" if "c \<in> set (op # args)" for c
    using good_extends [OF assms(2) [OF that] e] .
  have "below copy_op s' (RCall n op args ats)"
    by (rule below_node) (use n kids goodD [OF kids [of op]] goodD in \<open>auto simp: below_def [of _ _ op]\<close>)
  then show ?thesis using e kids assms(4) by (auto intro: good_node)
qed

lemma copy_arg_good:
  assumes "copy_arg copy_op c arg st = ((arg', ch), st')" "good copy_op st arg" "copy_op < next_node st"
  shows "extends st st' \<and> good copy_op st' arg' \<and> reads_from st' c arg'"
proof (cases "GetVirtualDeviceFromExpr st arg \<noteq> None \<and> \<not> SameVirtualDevice (GetVirtualDeviceFromExpr st arg) (Some c)")
  case True
  obtain n s where a: "alloc_node st = (n, s)" by fastforce
  have arg': "arg' = RCall n (ROp copy_op ''device.copy'') [arg]
      (ADeviceCopy (GetVirtualDeviceFromExpr st arg) (Some c) False True)"
    and st': "st' = set_virtual_device n (Some c) s"
    using assms(1) True a by (auto simp: copy_arg_def Let_def)
  have op: "good copy_op st (ROp copy_op ''device.copy'')"
    using assms(3) by (auto simp: good_def below_def edge_ok_def rsubs_leaf)
  have "extends st st' \<and> good copy_op st' arg'"
    unfolding arg' st' using op assms(2)
    by (intro good_new_call [OF a, where vd = "Some c"]) (auto simp: edge_ok_def IsCommunicationOpName_def)
  then show ?thesis
    by (simp add: reads_from_def arg' st' GetVirtualDeviceFromExpr_def set_virtual_device_def SameVirtualDevice_def)
next
  case False
  then have "arg' = arg" "st' = st" using assms(1) by (auto simp: copy_arg_def Let_def split: if_splits)
  then show ?thesis using False assms(2) by (auto simp: reads_from_def)
qed

lemma copy_args_good:
  assumes "copy_args copy_op c args st = ((args', ch), st')" "\<forall>x \<in> set args. good copy_op st x" "copy_op < next_node st"
  shows "extends st st' \<and> (\<forall>x \<in> set args'. good copy_op st' x \<and> reads_from st' c x) \<and> (\<not> ch \<longrightarrow> args' = args)"
  using assms
proof (induction args arbitrary: st args' ch)
  case (Cons a as)
  obtain a' c1 s1 where 1: "copy_arg copy_op c a st = ((a', c1), s1)" by (metis prod.collapse)
  obtain as' c2 s2 where 2: "copy_args copy_op c as s1 = ((as', c2), s2)" by (metis prod.collapse)
  have r: "args' = a' # as'" "ch = (c1 \<or> c2)" "st' = s2" using Cons.prems(1) 1 2 by auto
  have g1: "extends st s1" "good copy_op s1 a'" "reads_from s1 c a'"
    using copy_arg_good [OF 1] Cons.prems(2,3) by auto
  have n: "copy_op < next_node s1" using g1(1) Cons.prems(3) by (simp add: extends_def)
  have as: "\<forall>x \<in> set as. good copy_op s1 x" using Cons.prems(2) good_extends [OF _ g1(1)] by auto
  note g2 = Cons.IH [OF 2 [folded r(3)] as n]
  have "\<not> c1 \<longrightarrow> a' = a" using 1 by (auto simp: copy_arg_def Let_def split: if_splits prod.splits)
  then show ?case
    using g1 g2 r extends_trans [of st s1 s2] good_extends [of copy_op s1 a' s2] reads_from_extends [of s1 c a' copy_op s2]
    by auto
qed simp

lemma inserter_good:
  assumes "below copy_op st e" "\<And>c. c \<in> set (relay_children e) \<Longrightarrow> good copy_op st c" "copy_op < next_node st"
    and "DeviceCommunicationInserter copy_op e st = (e', st')"
  shows "extends st st' \<and> good copy_op st' e'"
proof (cases "\<exists>a op args ats. e = RCall a op args ats")
  case False
  then have "e' = e" "st' = st" "edge_ok st e"
    using assms(4) by (cases e; auto simp: DeviceCommunicationInserter_def edge_ok_def)+
  then show ?thesis using good_node [OF assms(1) _ assms(2)] by simp
next
  case True
  then obtain a op args ats where e: "e = RCall a op args ats" by blast
  let ?nm = "GetCallOpName e"
  have kids: "good copy_op st c" if "c \<in> set (op # args)" for c using assms(2) that by (simp add: e)
  have same_nm: "GetCallOpName (RCall n op args' ats') = ?nm" for n args' ats' by (cases op) (simp_all add: e)
  consider "?nm = ''''" | "?nm \<noteq> ''''" "IsCommunicationOpName ?nm" | "?nm \<noteq> ''''" "\<not> IsCommunicationOpName ?nm"
    by blast
  then show ?thesis
  proof cases
    case 1
    then have "e' = e" "st' = st" using assms(4) by (simp_all add: e DeviceCommunicationInserter_def Let_def)
    then show ?thesis using good_node [OF assms(1) _ assms(2)] 1 by (simp add: edge_ok_def e)
  next
    case 2
    obtain n s where al: "alloc_node st = (n, s)" by fastforce
    have h: "NormalizeCommunicationCall a op args ats ?nm st = (e', st')"
      using assms(4) 2 by (simp add: e DeviceCommunicationInserter_def Let_def)
    have "\<exists>ats' vd. e' = RCall n op args ats' \<and> st' \<in> {s, set_virtual_device n vd s}"
      using h by (auto simp: NormalizeCommunicationCall_def al Let_def split: prod.splits if_splits)
    then obtain ats' vd where e': "e' = RCall n op args ats'" "st' \<in> {s, set_virtual_device n vd s}" by blast
    have "edge_ok st' e'" using 2 same_nm [of n args ats'] by (simp add: edge_ok_def e'(1))
    then show ?thesis using good_new_call [OF al kids e'(2)] e'(1) by blast
  next
    case 3
    show ?thesis
    proof (cases "virtual_device st a")
      case None
      then have "e' = e" "st' = st"
        using assms(4) 3 by (simp_all add: e DeviceCommunicationInserter_def Let_def)
      moreover have "edge_ok st e" using None by (simp add: e edge_ok_def)
      ultimately show ?thesis using good_node [OF assms(1) _ assms(2)] by simp
    next
      case (Some c)
      obtain args' ch s1 where c: "copy_args copy_op c args st = ((args', ch), s1)" by (metis prod.collapse)
      have g: "extends st s1" "\<forall>x \<in> set args'. good copy_op s1 x \<and> reads_from s1 c x" "\<not> ch \<longrightarrow> args' = args"
        using copy_args_good [OF c _ assms(3)] kids by auto
      obtain n s2 where al: "alloc_node s1 = (n, s2)" by fastforce
      show ?thesis
      proof (cases ch)
        case False
        then have e': "e' = e" "st' = s1"
          using assms(4) 3 Some c by (simp_all add: e DeviceCommunicationInserter_def Let_def)
        have "virtual_device s1 a = Some c"
          using g(1) below_self [OF assms(1), of a] Some by (simp add: e extends_def)
        then have "edge_ok s1 e" using g(2,3) False by (simp add: e edge_ok_def reads_from_def)
        then show ?thesis
          using e' g(1) good_node [OF below_extends [OF assms(1) g(1)]] good_extends [OF assms(2) g(1)] by simp
      next
        case True
        then have e': "e' = RCall n op args' ats" "st' = set_virtual_device n (Some c) s2"
          using assms(4) 3 Some c al by (simp_all add: e DeviceCommunicationInserter_def Let_def)
        have k: "good copy_op s1 x" if "x \<in> set (op # args')" for x
          using that g(2) good_extends [OF kids g(1), of op] by auto
        have "extends s1 st'"
          using alloc_extends [OF al] set_device_extends [of s1 s2 n "Some c"] by (simp add: e'(2))
        then have "edge_ok st' e'"
          using g(2) reads_from_extends [of s1 c _ copy_op st']
          by (auto simp: e'(1) edge_ok_def reads_from_def e'(2) set_virtual_device_def)
        then show ?thesis
          using good_new_call [OF al k, where s' = st' and vd = "Some c" and ats = ats] e'
            extends_trans [OF g(1)] by auto
      qed
    qed
  qed
qed

lemma inserter_rewrites_good: "visit_good copy_op (post_rewriter (DeviceCommunicationInserter copy_op)) e"
  (is "visit_good _ ?mut _")
proof (induction e rule: measure_induct_rule [where f = rsize])
  case (less e)
  show ?case
    unfolding visit_good_def
  proof (intro allI impI)
    fix st e' st'
    assume b: "below copy_op st e" and run: "?mut e st = Inr (e', st')"
    from run obtain e1 s1 where 1: "RelayVisitExpr ?mut e st = Inr (e1, s1)"
      and 2: "DeviceCommunicationInserter copy_op e1 s1 = (e', st')"
      by (subst (asm) post_rewriter.simps) (auto simp: sbind_Inr_iff)
    have var: "?mut (RVar v) s = Inr (RVar v, s)" for v s
      by (subst post_rewriter.simps) (simp add: RelayVisitExpr_def DeviceCommunicationInserter_def)
    have v: "visited copy_op st s1 e1" by (rule visit_base [OF 1 b less.IH var])
    then have "copy_op < next_node s1" by (simp add: visited_def below_def)
    then have "extends s1 st' \<and> good copy_op st' e'"
      using v inserter_good [OF _ _ _ 2] by (simp add: visited_def)
    then show "extends st st' \<and> good copy_op st' e'"
      using v extends_trans by (auto simp: visited_def)
  qed
qed

text \<open>
C34. After InsertDeviceCommunicationPass no call but a communication reads a value of another
device: every argument of a call with a device has no device or the device of the call. The
devices of the nodes that existed before are unchanged.
\<close>

theorem no_cross_device_reads:
  assumes "InsertDeviceCommunicationPass E copy_op (RFunction a ps b) st = Inr (f', st')"
    and "below copy_op st (RFunction a ps b)"
  shows "(\<forall>s \<in> rsubs f'. edge_ok st' s) \<and>
    (\<forall>n < next_node st. virtual_device st' n = virtual_device st n)"
proof -
  have "post_rewriter (DeviceCommunicationInserter copy_op) (RFunction a ps b) st = Inr (f', st')"
  proof -
    from assms(1) obtain out s where "post_rewriter (DeviceCommunicationInserter copy_op) (RFunction a ps b) st = Inr (out, s)"
      "(case out of RUndef \<Rightarrow> Inr (RUndef, s) | RFunction _ _ _ \<Rightarrow> Inr (out, s)
        | _ \<Rightarrow> throw ''RelayPass expected Function result when mutating Function'') = Inr (f', st')"
      by (auto simp: InsertDeviceCommunicationPass_def MutateFunction_def sbind_Inr_iff)
    then show ?thesis by (cases out) simp_all
  qed
  then show ?thesis
    using visit_goodD [OF inserter_rewrites_good assms(2)] by (simp add: good_def extends_def)
qed

text \<open>A sum of a value on one CPU and a value on another, placed on the first.\<close>

definition two_cpus :: RelayState where
  "two_cpus = \<lparr>next_node = 10, checked_type = (\<lambda>_. UndefinedType),
     virtual_device = (\<lambda>_. None)(1 := Some (cpu_vd 1 0), 2 := Some (cpu_vd 2 1), 4 := Some (cpu_vd 1 0)),
     span = (\<lambda>_. None)\<rparr>"

definition var_x :: RVarNode where "var_x = \<lparr>rv_addr = 1, rv_name = ''x'', rv_annotation = UndefinedType\<rparr>"
definition var_y :: RVarNode where "var_y = \<lparr>rv_addr = 2, rv_name = ''y'', rv_annotation = UndefinedType\<rparr>"

definition sum_fun :: "int rexpr" where
  "sum_fun = RFunction 5 [var_x, var_y] (RCall 4 (ROp 3 ''add'') [RVar var_x, RVar var_y] OtherAttrs)"

definition ex_env :: pass_env where
  "ex_env = (\<lambda>d. Inr (''cpu'', default_attributes), thread_start)"

lemma two_cpus_context: "\<exists>ctx. mutate_context ex_env two_cpus sum_fun = Inr ctx"
  by (simp add: mutate_context_def ex_env_def Current_def thread_start_def PassContext_undefined_def FromRelay_def
    CollectRelayVirtualDevices_def sum_fun_def VisitRelayExpr.simps collect_device_def two_cpus_def var_x_def var_y_def
    BuildFromVirtualDevices_def cpu_vd_def BuildTarget_def BuildDiscoPlacement_def place_device_def Let_def)

lemma no_cross_device_reads_witness:
  "\<exists>f' st'. InsertDeviceCommunicationPass ex_env 6 sum_fun two_cpus = Inr (f', st') \<and>
     (\<forall>s \<in> rsubs f'. edge_ok st' s)"
proof -
  obtain ctx where "mutate_context ex_env two_cpus sum_fun = Inr ctx" using two_cpus_context by blast
  then obtain f' st' where run: "InsertDeviceCommunicationPass ex_env 6 sum_fun two_cpus = Inr (f', st')"
    using pass_preserves_runs [OF inserter_preserves [OF copying_meaning]] unfolding sum_fun_def by blast
  have "below 6 two_cpus sum_fun"
    by (simp add: below_def sum_fun_def rsubs_simps rsubs_leaf two_cpus_def var_x_def var_y_def)
  from no_cross_device_reads [OF run [unfolded sum_fun_def] this [unfolded sum_fun_def]] run
  show ?thesis by blast
qed

end
