(* ===== verification/Plan_Builder.thy ===== *)
theory Plan_Builder
  imports Multi_DeviceProofs
begin

text \<open>
  The plans the builder of \<^verbatim>\<open>multi_device.cc\<close> produces: every value is defined exactly once and
  before it is read, and every node runs on a non-empty set of workers.
\<close>

section \<open>Plans in static single assignment form\<close>

fun node_inputs :: "'d ExecNode \<Rightarrow> int list" where
  "node_inputs (KernelExec _ _ ins _ _ _) = ins"
| "node_inputs (CommExec _ _ ins _ _) = ins"
| "node_inputs _ = []"

fun node_outputs :: "'d ExecNode \<Rightarrow> int list" where
  "node_outputs (KernelExec _ _ _ outs _ _) = outs"
| "node_outputs (CommExec _ _ _ outs _) = outs"
| "node_outputs _ = []"

fun node_workers :: "'d ExecNode \<Rightarrow> int list" where
  "node_workers (KernelExec _ _ _ _ ws _) = ws"
| "node_workers (CommExec _ _ _ _ ws) = ws"
| "node_workers (BarrierExec _ ws) = ws"
| "node_workers (OtherObject _) = []"

definition outputs_of :: "'d ExecNode option list \<Rightarrow> int list" where
  "outputs_of ns = concat (map (\<lambda>n. case n of Some m \<Rightarrow> node_outputs m | None \<Rightarrow> []) ns)"

text \<open>Every node reads what is there: \<open>A\<close> at the start, and the outputs of the nodes before it.\<close>

fun reads_defined :: "int set \<Rightarrow> 'd ExecNode option list \<Rightarrow> bool" where
  "reads_defined A [] \<longleftrightarrow> True"
| "reads_defined A (None # ns) \<longleftrightarrow> reads_defined A ns"
| "reads_defined A (Some n # ns) \<longleftrightarrow>
     set (node_inputs n) \<subseteq> A \<and> reads_defined (A \<union> set (node_outputs n)) ns"

definition workers_ok :: "'d ExecNode option \<Rightarrow> bool" where
  "workers_ok n \<longleftrightarrow> (\<exists>m. n = Some m \<and> node_workers m \<noteq> [] \<and> distinct (node_workers m) \<and>
     (\<forall>w \<in> set (node_workers m). 0 \<le> w))"

definition plan_ssa :: "'d ExecutionPlan \<Rightarrow> bool" where
  "plan_ssa plan \<longleftrightarrow>
     (let defs = input_value_ids plan @ constant_value_ids plan @ outputs_of (ep_nodes plan) in
      distinct defs \<and> set defs = {0..<num_values plan}) \<and>
     reads_defined (set (input_value_ids plan) \<union> set (constant_value_ids plan)) (ep_nodes plan) \<and>
     0 \<le> output_value plan \<and> output_value plan < num_values plan \<and>
     list_all workers_ok (ep_nodes plan)"

lemma outputs_of_simps [simp]:
  "outputs_of [] = []" "outputs_of (Some n # ns) = node_outputs n @ outputs_of ns"
  "outputs_of (None # ns) = outputs_of ns" "outputs_of (ms @ ns) = outputs_of ms @ outputs_of ns"
  by (simp_all add: outputs_of_def)

lemma reads_defined_append:
  "reads_defined A (ns @ [Some n]) \<longleftrightarrow>
     reads_defined A ns \<and> set (node_inputs n) \<subseteq> A \<union> set (outputs_of ns)"
proof (induction ns arbitrary: A)
  case (Cons m ns)
  then show ?case by (cases m) (auto simp: Un_assoc)
qed simp

lemma reads_defined_mono:
  fixes ns :: "'d ExecNode option list"
  shows "reads_defined A ns \<Longrightarrow> A \<subseteq> B \<Longrightarrow> reads_defined B ns"
proof (induction ns arbitrary: A B)
  case (Cons m ns)
  show ?case
  proof (cases m)
    case None
    then show ?thesis using Cons.IH [OF _ Cons.prems(2)] Cons.prems(1) by simp
  next
    case (Some n)
    then have "set (node_inputs n) \<subseteq> A" "reads_defined (A \<union> set (node_outputs n)) ns"
      using Cons.prems(1) by simp_all
    moreover from this(2) have "reads_defined (B \<union> set (node_outputs n)) ns"
      by (rule Cons.IH) (use Cons.prems(2) in blast)
    ultimately show ?thesis using Some Cons.prems(2) by auto
  qed
qed simp

section \<open>Worker sets\<close>

definition good_workers :: "int list \<Rightarrow> bool" where
  "good_workers ws \<longleftrightarrow> distinct ws \<and> (\<forall>w \<in> set ws. 0 \<le> w)"

lemma good_push [simp]: "good_workers ws \<Longrightarrow> good_workers (PushUniqueWorker ws w)"
  by (simp add: good_workers_def PushUniqueWorker_def)

lemma good_nil [simp]: "good_workers []"
  by (simp add: good_workers_def)

lemma good_fold: "good_workers ws \<Longrightarrow> (\<And>x ws. good_workers ws \<Longrightarrow> good_workers (f x ws)) \<Longrightarrow>
   good_workers (fold f xs ws)"
  by (induction xs arbitrary: ws) simp_all

lemma compute_workers:
  "good_workers (ResolveComputeWorkerSet ctx st ref ins b) \<and> ResolveComputeWorkerSet ctx st ref ins b \<noteq> []"
  by (simp add: ResolveComputeWorkerSet_def WorkerSetFromVirtualDevice_def good_workers_def Let_def)

lemma named_workers_good: "good_workers (named_workers ctx st nm args ats ref)"
proof -
  have "good_workers (fold (\<lambda>w ws. case w of Some w \<Rightarrow> PushUniqueWorker ws (worker_id w) | None \<Rightarrow> ws) xs [])"
    for xs :: "WorkerPlacement option list"
    by (intro good_fold) (simp_all split: option.split)
  then show ?thesis by (simp add: named_workers_def Let_def split: prod.split option.split)
qed

lemma input_workers_good: "good_workers (input_workers ctx vds ins)"
  unfolding input_workers_def by (intro good_fold) (simp_all split: option.split)

lemma communication_workers:
  "good_workers (ResolveCommunicationWorkerSet ctx st nm args ats ref ins b) \<and>
   ResolveCommunicationWorkerSet ctx st nm args ats ref ins b \<noteq> []"
  using good_workers_def [of "[0]"]
  by (simp add: ResolveCommunicationWorkerSet_def Let_def named_workers_good input_workers_good)

section \<open>The invariant of the builder\<close>

definition builder_inv :: "'d PlanBuilder \<Rightarrow> bool" where
  "builder_inv b \<longleftrightarrow>
     (let defs = pb_inputs b @ pb_constants b @ outputs_of (pb_nodes b) in
      distinct defs \<and> set defs = {0..<pb_next b}) \<and> 0 \<le> pb_next b \<and>
     reads_defined (set (pb_inputs b) \<union> set (pb_constants b)) (pb_nodes b) \<and>
     list_all workers_ok (pb_nodes b) \<and>
     ran (pb_memo b) \<subseteq> {0..<pb_next b} \<and> ran (pb_bindings b) \<subseteq> {0..<pb_next b}"

lemma AllocateValue_simps:
  assumes "AllocateValue st e b = (i, b')"
  shows "i = pb_next b" "pb_next b' = pb_next b + 1" "pb_inputs b' = pb_inputs b"
    "pb_constants b' = pb_constants b" "pb_nodes b' = pb_nodes b" "pb_memo b' = pb_memo b"
    "pb_bindings b' = pb_bindings b"
  using assms by (auto simp: AllocateValue_def Let_def)

lemma range_step: "0 \<le> (n :: int) \<Longrightarrow> {0..<n + 1} = insert n {0..<n}"
  by auto

text \<open>A new node whose inputs are values defined before.\<close>

lemma push_inv:
  assumes inv: "builder_inv b" and al: "AllocateValue st e b = (out, b')" and ins: "set ins \<subseteq> {0..<pb_next b}"
    and n: "node_inputs n = ins" "node_outputs n = [out]" "good_workers (node_workers n)" "node_workers n \<noteq> []"
  shows "builder_inv (push_node n b') \<and> 0 \<le> out \<and> out < pb_next (push_node n b') \<and>
    pb_next b \<le> pb_next (push_node n b') \<and> pb_bindings (push_node n b') = pb_bindings b"
proof -
  note a = AllocateValue_simps [OF al]
  have base: "distinct (pb_inputs b @ pb_constants b @ outputs_of (pb_nodes b))"
    "set (pb_inputs b @ pb_constants b @ outputs_of (pb_nodes b)) = {0..<pb_next b}" "0 \<le> pb_next b"
    "reads_defined (set (pb_inputs b) \<union> set (pb_constants b)) (pb_nodes b)" "list_all workers_ok (pb_nodes b)"
    "ran (pb_memo b) \<subseteq> {0..<pb_next b}" "ran (pb_bindings b) \<subseteq> {0..<pb_next b}"
    using inv by (simp_all add: builder_inv_def Let_def)
  have new: "pb_next b \<notin> set (pb_inputs b @ pb_constants b @ outputs_of (pb_nodes b))"
    unfolding base(2) by simp
  have "set ins \<subseteq> set (pb_inputs b) \<union> set (pb_constants b) \<union> set (outputs_of (pb_nodes b))"
    using ins base(2) by auto
  then have reads: "reads_defined (set (pb_inputs b) \<union> set (pb_constants b)) (pb_nodes b @ [Some n])"
    using base(4) n(1) by (simp add: reads_defined_append)
  have "workers_ok (Some n)" using n(3,4) by (simp add: workers_ok_def good_workers_def)
  then have "builder_inv (push_node n b')"
    using base new reads n(2) a by (auto simp: builder_inv_def push_node_def Let_def range_step)
  then show ?thesis using a base(3) by (simp add: push_node_def)
qed

text \<open>A constant, and what the memo table and the bindings do.\<close>

lemma constant_inv:
  assumes inv: "builder_inv b" and c: "plan_constant st a d b = (i, b')"
  shows "builder_inv b' \<and> 0 \<le> i \<and> i < pb_next b' \<and> pb_next b \<le> pb_next b' \<and> pb_bindings b' = pb_bindings b"
proof -
  obtain j b1 where al: "AllocateValue st (RConst a d) b = (j, b1)" by fastforce
  note s = AllocateValue_simps [OF al]
  have b': "i = j" "pb_next b' = pb_next b1" "pb_inputs b' = pb_inputs b1"
    "pb_constants b' = pb_constants b1 @ [j]" "pb_nodes b' = pb_nodes b1" "pb_memo b' = pb_memo b1"
    "pb_bindings b' = pb_bindings b1"
    using c by (auto simp: plan_constant_def al Let_def split: option.splits)
  have base: "distinct (pb_inputs b @ pb_constants b @ outputs_of (pb_nodes b))"
    "set (pb_inputs b @ pb_constants b @ outputs_of (pb_nodes b)) = {0..<pb_next b}" "0 \<le> pb_next b"
    "reads_defined (set (pb_inputs b) \<union> set (pb_constants b)) (pb_nodes b)" "list_all workers_ok (pb_nodes b)"
    "ran (pb_memo b) \<subseteq> {0..<pb_next b}" "ran (pb_bindings b) \<subseteq> {0..<pb_next b}"
    using inv by (simp_all add: builder_inv_def Let_def)
  have new: "pb_next b \<notin> set (pb_inputs b @ pb_constants b @ outputs_of (pb_nodes b))"
    unfolding base(2) by simp
  have "reads_defined (insert (pb_next b) (set (pb_inputs b) \<union> set (pb_constants b))) (pb_nodes b)"
    by (rule reads_defined_mono [OF base(4)]) blast
  then have "builder_inv b'"
    using base new by (auto simp: builder_inv_def Let_def b' s range_step)
  then show ?thesis using b' s base(3) by simp
qed

lemma memo_inv:
  assumes "builder_inv b" "0 \<le> i" "i < pb_next b"
  shows "builder_inv (b\<lparr>pb_memo := (pb_memo b)(a \<mapsto> i)\<rparr>)" "builder_inv (b\<lparr>pb_bindings := (pb_bindings b)(x \<mapsto> i)\<rparr>)"
    "builder_inv (b\<lparr>pb_bindings := (pb_bindings b)(x := None)\<rparr>)"
  using assms by (auto simp: builder_inv_def Let_def ran_def split: if_splits)

lemma param_inv:
  assumes inv: "builder_inv b"
  shows "builder_inv (plan_param st x b) \<and>
    Map.dom (pb_bindings (plan_param st x b)) = insert (rv_addr x) (Map.dom (pb_bindings b))"
proof -
  obtain i b1 where al: "AllocateValue st (RVar x) b = (i, b1)" by fastforce
  note s = AllocateValue_simps [OF al]
  have p: "pb_next (plan_param st x b) = pb_next b1" "pb_inputs (plan_param st x b) = pb_inputs b1 @ [i]"
    "pb_constants (plan_param st x b) = pb_constants b1" "pb_nodes (plan_param st x b) = pb_nodes b1"
    "pb_memo (plan_param st x b) = pb_memo b1"
    "pb_bindings (plan_param st x b) = (pb_bindings b1)(rv_addr x \<mapsto> i)"
    by (auto simp: plan_param_def al CaptureValueInfoFromType_def split: RType.split)
  have base: "distinct (pb_inputs b @ pb_constants b @ outputs_of (pb_nodes b))"
    "set (pb_inputs b @ pb_constants b @ outputs_of (pb_nodes b)) = {0..<pb_next b}" "0 \<le> pb_next b"
    "reads_defined (set (pb_inputs b) \<union> set (pb_constants b)) (pb_nodes b)" "list_all workers_ok (pb_nodes b)"
    "ran (pb_memo b) \<subseteq> {0..<pb_next b}" "ran (pb_bindings b) \<subseteq> {0..<pb_next b}"
    using inv by (simp_all add: builder_inv_def Let_def)
  have new: "pb_next b \<notin> set (pb_inputs b @ pb_constants b @ outputs_of (pb_nodes b))"
    unfolding base(2) by simp
  have "reads_defined (insert (pb_next b) (set (pb_inputs b) \<union> set (pb_constants b))) (pb_nodes b)"
    by (rule reads_defined_mono [OF base(4)]) blast
  moreover have "ran ((pb_bindings b)(rv_addr x \<mapsto> pb_next b)) \<subseteq> {0..<pb_next b + 1}"
    using base(3,7) by (auto simp: ran_def split: if_splits)
  ultimately have "builder_inv (plan_param st x b)"
    using base new by (auto simp: builder_inv_def Let_def p s range_step simp del: fun_upd_apply)
  then show ?thesis by (auto simp: p s)
qed

lemma params_inv:
  assumes "builder_inv b"
  shows "builder_inv (fold (plan_param st) ps b) \<and>
    Map.dom (pb_bindings (fold (plan_param st) ps b)) = rv_addr ` set ps \<union> Map.dom (pb_bindings b)"
  using assms
proof (induction ps arbitrary: b)
  case (Cons p ps)
  have "builder_inv (plan_param st p b)" "Map.dom (pb_bindings (plan_param st p b)) = insert (rv_addr p) (Map.dom (pb_bindings b))"
    using param_inv [OF Cons.prems] by blast+
  with Cons.IH [of "plan_param st p b"] show ?case by auto
qed simp

section \<open>The visit\<close>

text \<open>
  What the builder can lower: no conditional, calls of named operators, every variable bound by
  a parameter or an enclosing binding, and no binding that rebinds a variable in scope.
\<close>

fun plannable :: "nat set \<Rightarrow> 'd rexpr \<Rightarrow> bool" where
  "plannable \<Gamma> (RVar v) \<longleftrightarrow> rv_addr v \<in> \<Gamma>"
| "plannable \<Gamma> (RConst _ _) \<longleftrightarrow> True"
| "plannable \<Gamma> (RCall a op args ats) \<longleftrightarrow>
     GetCallOpName (RCall a op args ats) \<noteq> '''' \<and> (\<forall>e \<in> set args. plannable \<Gamma> e)"
| "plannable \<Gamma> (RFunction _ _ b) \<longleftrightarrow> plannable \<Gamma> b"
| "plannable \<Gamma> (RLet _ x v b) \<longleftrightarrow>
     plannable \<Gamma> v \<and> rv_addr x \<notin> \<Gamma> \<and> plannable (insert (rv_addr x) \<Gamma>) b"
| "plannable \<Gamma> (RTuple _ fs) \<longleftrightarrow> (\<forall>e \<in> set fs. plannable \<Gamma> e)"
| "plannable \<Gamma> (RTupleGetItem _ t _) \<longleftrightarrow> plannable \<Gamma> t"
| "plannable \<Gamma> _ \<longleftrightarrow> False"

definition plan_result :: "nat set \<Rightarrow> 'd PlanBuilder \<Rightarrow> (int \<times> 'd PlanBuilder) res \<Rightarrow> bool" where
  "plan_result \<Gamma> b r \<longleftrightarrow>
     (\<exists>i b'. r = Inr (i, b') \<and> builder_inv b' \<and> 0 \<le> i \<and> i < pb_next b' \<and> pb_next b \<le> pb_next b' \<and>
        (\<forall>x \<in> \<Gamma>. pb_bindings b' x = pb_bindings b x))"

definition planned :: "PassContext \<Rightarrow> 's RelayState_scheme \<Rightarrow> 'd rexpr \<Rightarrow> bool" where
  "planned ctx st e \<longleftrightarrow>
     (\<forall>\<Gamma> b. builder_inv b \<longrightarrow> plannable \<Gamma> e \<longrightarrow> \<Gamma> \<subseteq> Map.dom (pb_bindings b) \<longrightarrow>
        plan_result \<Gamma> b (PlanVisit ctx st e b))"

lemma plannedD:
  assumes "planned ctx st e" "builder_inv b" "plannable \<Gamma> e" "\<Gamma> \<subseteq> Map.dom (pb_bindings b)"
  obtains i b' where "PlanVisit ctx st e b = Inr (i, b')" "builder_inv b'" "0 \<le> i" "i < pb_next b'"
    "pb_next b \<le> pb_next b'" "\<forall>x \<in> \<Gamma>. pb_bindings b' x = pb_bindings b x"
  using assms unfolding planned_def plan_result_def by blast

lemma keeps_scope: "\<Gamma> \<subseteq> Map.dom (pb_bindings b) \<Longrightarrow> \<forall>x \<in> \<Gamma>. pb_bindings b' x = pb_bindings b x \<Longrightarrow>
   \<Gamma> \<subseteq> Map.dom (pb_bindings b')"
  by (auto simp: Map.dom_def)

lemma PlanVisitList_planned:
  assumes "\<forall>e \<in> set es. planned ctx st e" "builder_inv b" "\<forall>e \<in> set es. plannable \<Gamma> e"
    "\<Gamma> \<subseteq> Map.dom (pb_bindings b)"
  shows "\<exists>is b'. PlanVisitList ctx st es b = Inr (is, b') \<and> builder_inv b' \<and> set is \<subseteq> {0..<pb_next b'} \<and>
    pb_next b \<le> pb_next b' \<and> (\<forall>x \<in> \<Gamma>. pb_bindings b' x = pb_bindings b x)"
  using assms
proof (induction es arbitrary: b)
  case Nil
  then show ?case by (simp del: PlanVisit.simps)
next
  case (Cons e es)
  obtain i b1 where 1: "PlanVisit ctx st e b = Inr (i, b1)" "builder_inv b1" "0 \<le> i" "i < pb_next b1"
    "pb_next b \<le> pb_next b1" "\<forall>x \<in> \<Gamma>. pb_bindings b1 x = pb_bindings b x"
    using plannedD [of ctx st e b \<Gamma>] Cons.prems by auto
  obtain js b2 where 2: "PlanVisitList ctx st es b1 = Inr (js, b2)" "builder_inv b2"
    "set js \<subseteq> {0..<pb_next b2}" "pb_next b1 \<le> pb_next b2" "\<forall>x \<in> \<Gamma>. pb_bindings b2 x = pb_bindings b1 x"
    using Cons.IH [OF _ 1(2) _ keeps_scope [OF Cons.prems(4) 1(6)]] Cons.prems(1,3) by auto
  have "PlanVisitList ctx st (e # es) b = Inr (i # js, b2)" using 1(1) 2(1) by (simp del: PlanVisit.simps)
  then show ?case using 1 2 by (auto simp del: PlanVisit.simps PlanVisitList.simps)
qed

lemma memoize_result:
  assumes "plan_result \<Gamma> b r"
  shows "plan_result \<Gamma> b (sbind r (\<lambda>r. Inr (memoize a r)))"
  using assms memo_inv(1) [of _ _ a] unfolding plan_result_def
  by (auto simp: memoize_def)

lemma memo_range: "builder_inv b \<Longrightarrow> pb_memo b a = Some i \<Longrightarrow> 0 \<le> i \<and> i < pb_next b"
  by (auto simp: builder_inv_def Let_def ran_def)

lemma binding_range: "builder_inv b \<Longrightarrow> pb_bindings b a = Some i \<Longrightarrow> 0 \<le> i \<and> i < pb_next b"
  by (auto simp: builder_inv_def Let_def ran_def)

lemma call_result:
  assumes "builder_inv b" "set ins \<subseteq> {0..<pb_next b}"
  shows "plan_result \<Gamma> b (Inr (plan_call ctx st ref op_name args ats ins b))"
    and "plan_result \<Gamma> b (Inr (plan_kernel ctx st ref op_name ins b))"
proof -
  obtain out b' where al: "AllocateValue st ref b = (out, b')" by fastforce
  note push = push_inv [OF assms(1) al assms(2)]
  show "plan_result \<Gamma> b (Inr (plan_call ctx st ref op_name args ats ins b))"
    using push [of "CommExec op_name ats ins [out] (ResolveCommunicationWorkerSet ctx st op_name args ats ref ins b')"]
      push [of "KernelExec op_name None ins [out] (ResolveComputeWorkerSet ctx st ref ins b') ''''"]
      communication_workers [of ctx st op_name args ats ref ins b'] compute_workers [of ctx st ref ins b']
    by (simp add: plan_result_def plan_call_def al)
  show "plan_result \<Gamma> b (Inr (plan_kernel ctx st ref op_name ins b))"
    using push [of "KernelExec op_name None ins [out] (ResolveComputeWorkerSet ctx st ref ins b') ''''"]
      compute_workers [of ctx st ref ins b']
    by (simp add: plan_result_def plan_kernel_def al)
qed

lemma plan_result_trans:
  assumes "plan_result \<Gamma> b1 r" "pb_next b \<le> pb_next b1" "\<forall>x \<in> \<Gamma>. pb_bindings b1 x = pb_bindings b x"
  shows "plan_result \<Gamma> b r"
  using assms unfolding plan_result_def by fastforce

lemma all_planned:
  fixes e :: "'d rexpr"
  shows "planned ctx st e"
proof (induction e rule: measure_induct_rule [where f = rsize])
  case (less e)
  have lists: "\<forall>c \<in> set es. planned ctx st c" if "sum_list (map rsize es) < rsize e" for es :: "'d rexpr list"
  proof
    fix c
    assume "c \<in> set es"
    then have "rsize c < rsize e" using rsize_in_list [of c es] that by simp
    then show "planned ctx st c" by (rule less.IH)
  qed
  have expr: "plan_result \<Gamma> b (PlanVisitExpr ctx st e b)"
    if inv: "builder_inv b" and ok: "plannable \<Gamma> e" and \<Gamma>: "\<Gamma> \<subseteq> Map.dom (pb_bindings b)" for \<Gamma> b
  proof (cases e)
    case (RVar v)
    then obtain i where "pb_bindings b (rv_addr v) = Some i" using ok \<Gamma> by auto
    then show ?thesis using binding_range [OF inv] inv by (simp add: RVar plan_result_def)
  next
    case (RConst a d)
    obtain i b' where c: "plan_constant st a d b = (i, b')" by fastforce
    then show ?thesis using constant_inv [OF inv c] by (simp add: RConst plan_result_def)
  next
    case (RCall a op args ats)
    have "\<forall>c \<in> set args. planned ctx st c" using lists [of args] RCall by simp
    then obtain js b1 where 1: "PlanVisitList ctx st args b = Inr (js, b1)" "builder_inv b1"
      "set js \<subseteq> {0..<pb_next b1}" "pb_next b \<le> pb_next b1" "\<forall>x \<in> \<Gamma>. pb_bindings b1 x = pb_bindings b x"
      using PlanVisitList_planned [OF _ inv _ \<Gamma>, of args ctx st] ok RCall by auto
    have "PlanVisitExpr ctx st e b =
        Inr (plan_call ctx st e (GetCallOpName e) args ats js b1)"
      using ok 1(1) by (simp add: RCall Let_def del: GetCallOpName.simps)
    then show ?thesis
      using plan_result_trans [OF call_result(1) [OF 1(2,3)] 1(4,5)] by simp
  next
    case (RFunction a ps bd)
    then have "planned ctx st bd" "plannable \<Gamma> bd" using less.IH [of bd] ok by simp_all
    then have "plan_result \<Gamma> b (PlanVisit ctx st bd b)" using inv \<Gamma> unfolding planned_def by blast
    then show ?thesis by (simp add: RFunction del: PlanVisit.simps)
  next
    case (RLet a x v bd)
    obtain i b1 where 1: "PlanVisit ctx st v b = Inr (i, b1)" "builder_inv b1" "0 \<le> i" "i < pb_next b1"
      "pb_next b \<le> pb_next b1" "\<forall>y \<in> \<Gamma>. pb_bindings b1 y = pb_bindings b y"
      using plannedD [OF less.IH [of v] inv _ \<Gamma>] ok RLet by auto
    let ?b = "b1\<lparr>pb_bindings := (pb_bindings b1)(rv_addr x \<mapsto> i)\<rparr>"
    have dom': "insert (rv_addr x) \<Gamma> \<subseteq> Map.dom (pb_bindings ?b)" using keeps_scope [OF \<Gamma> 1(6)] by auto
    have bd: "planned ctx st bd" "plannable (insert (rv_addr x) \<Gamma>) bd" using less.IH [of bd] ok RLet by simp_all
    obtain j b2 where 2: "PlanVisit ctx st bd ?b = Inr (j, b2)" "builder_inv b2" "0 \<le> j" "j < pb_next b2"
      "pb_next ?b \<le> pb_next b2" "\<forall>y \<in> insert (rv_addr x) \<Gamma>. pb_bindings b2 y = pb_bindings ?b y"
      by (rule plannedD [OF bd(1) memo_inv(2) [OF 1(2-4)] bd(2) dom'])
    have "PlanVisitExpr ctx st e b =
        Inr (memoize a (j, b2\<lparr>pb_bindings := (pb_bindings b2)(rv_addr x := None)\<rparr>))"
      using 1(1) 2(1) by (simp add: RLet del: PlanVisit.simps)
    moreover have "builder_inv (snd (memoize a (j, b2\<lparr>pb_bindings := (pb_bindings b2)(rv_addr x := None)\<rparr>)))"
      using memo_inv(1) [OF memo_inv(3) [OF 2(2-4)], of j] 2(3,4) by (simp add: memoize_def)
    moreover have "pb_bindings b2 y = pb_bindings b y \<and> y \<noteq> rv_addr x" if "y \<in> \<Gamma>" for y
      using that 1(6) 2(6) ok RLet by auto
    ultimately show ?thesis using 1 2 by (auto simp: plan_result_def memoize_def)
  next
    case (RTuple a fs)
    have "\<forall>c \<in> set fs. planned ctx st c" using lists [of fs] RTuple by simp
    then obtain js b1 where 1: "PlanVisitList ctx st fs b = Inr (js, b1)" "builder_inv b1"
      "set js \<subseteq> {0..<pb_next b1}" "pb_next b \<le> pb_next b1" "\<forall>x \<in> \<Gamma>. pb_bindings b1 x = pb_bindings b x"
      using PlanVisitList_planned [OF _ inv _ \<Gamma>, of fs ctx st] ok RTuple by auto
    then show ?thesis
      using plan_result_trans [OF call_result(2) [OF 1(2,3)] 1(4,5)] by (simp add: RTuple)
  next
    case (RTupleGetItem a t i)
    obtain k b1 where 1: "PlanVisit ctx st t b = Inr (k, b1)" "builder_inv b1" "0 \<le> k" "k < pb_next b1"
      "pb_next b \<le> pb_next b1" "\<forall>y \<in> \<Gamma>. pb_bindings b1 y = pb_bindings b y"
      using plannedD [OF less.IH [of t] inv _ \<Gamma>] ok RTupleGetItem by auto
    have "set [k] \<subseteq> {0..<pb_next b1}" using 1(3,4) by simp
    then show ?thesis
      using plan_result_trans [OF call_result(2) [OF 1(2), of "[k]"] 1(5,6)] 1(1)
      by (simp add: RTupleGetItem del: PlanVisit.simps)
  qed (use ok in simp_all)
  show ?case
    unfolding planned_def
  proof (intro allI impI)
    fix \<Gamma> and b :: "'d PlanBuilder"
    assume inv: "builder_inv b" and ok: "plannable \<Gamma> e" and \<Gamma>: "\<Gamma> \<subseteq> Map.dom (pb_bindings b)"
    have e: "e \<noteq> RUndef" using ok by auto
    show "plan_result \<Gamma> b (PlanVisit ctx st e b)"
    proof (cases "pb_memo b (obj_addr e)")
      case None
      then show ?thesis using e memoize_result [OF expr [OF inv ok \<Gamma>]] by simp
    next
      case (Some i)
      then show ?thesis using e memo_range [OF inv Some] inv by (simp add: plan_result_def)
    qed
  qed
qed

lemma built_plan_ssa:
  fixes bd :: "'d rexpr"
  assumes "plannable (rv_addr ` set ps) bd"
  shows "\<exists>plan. Build ctx st (RFunction a ps bd) = Inr plan \<and> plan_ssa plan \<and> ep_pass_ctx plan = ctx"
proof -
  have start: "builder_inv (builder_start :: 'd PlanBuilder)"
    by (simp add: builder_inv_def builder_start_def)
  let ?b = "fold (plan_param st) ps (builder_start :: 'd PlanBuilder)"
  have b: "builder_inv ?b" "rv_addr ` set ps \<subseteq> Map.dom (pb_bindings ?b)"
    using params_inv [OF start, of st ps] by simp_all
  obtain out b' where v: "PlanVisit ctx st bd ?b = Inr (out, b')" "builder_inv b'" "0 \<le> out" "out < pb_next b'"
    by (rule plannedD [OF all_planned b(1) assms b(2), of ctx st]) auto
  have "Build ctx st (RFunction a ps bd) = Inr \<lparr>ep_nodes = pb_nodes b', value_virtual_devices = pb_vds b',
      input_value_ids = pb_inputs b', constant_value_ids = pb_constants b', value_shapes = pb_shapes b',
      value_dtypes = pb_dtypes b', num_values = pb_next b', ep_pass_ctx = ctx, output_value = out\<rparr>"
    using v(1) by (simp add: Build_def del: PlanVisit.simps)
  then show ?thesis using v(2-4) by (auto simp: plan_ssa_def builder_inv_def Let_def)
qed

text \<open>
C35. The plan the builder makes of a function without conditionals whose variables are bound is in
static single assignment form: it always exists, its values are 0 to num_values - 1, each is an
input, a constant or the output of one node, every node reads only values defined before it and
runs on a non-empty set of workers, and the output is one of the values.
\<close>

theorem build_plan_ssa:
  fixes bd :: "'d rexpr"
  assumes "plannable (rv_addr ` set ps) bd"
  shows "\<exists>plan. Build ctx st (RFunction a ps bd) = Inr plan \<and> plan_ssa plan \<and> ep_pass_ctx plan = ctx"
  by (rule built_plan_ssa [OF assms])

lemma build_plan_ssa_witness:
  "\<exists>plan. Build PassContext_undefined two_cpus sum_fun = Inr plan \<and> plan_ssa plan"
proof -
  have "plannable (rv_addr ` set [var_x, var_y]) (RCall 4 (ROp 3 ''add'') [RVar var_x, RVar var_y] OtherAttrs :: int rexpr)"
    by simp
  from build_plan_ssa [OF this] show ?thesis unfolding sum_fun_def by blast
qed

end
