(* ===== verification/Disco_ExecutorProofs.thy ===== *)
theory Disco_ExecutorProofs
  imports Disco_Executor Plan_Builder
begin

text \<open>
  Running a plan: what the executor needs of a backend, and that a plan of kernels and copies runs
  to its end.
\<close>

section \<open>What the executor needs of a backend\<close>

locale copying_backend =
  fixes B :: CCLBackend
  assumes copy_law: "worker_in s w \<Longrightarrow> worker_in s w' \<Longrightarrow> ref_in s src \<Longrightarrow> ref_in s dst \<Longrightarrow>
      held s w src = Some a \<Longrightarrow> array_ok a \<Longrightarrow>
      ccl_Copy B (Some s) src dst w w' = Inr (Some (write_reg s w' dst (Some a)))"
    and sync_law: "worker_in s w \<Longrightarrow> ccl_SyncWorker B (Some s) w = Inr (Some s)"

section \<open>Plans that run\<close>

text \<open>A kernel or a copy with an input, on workers of the session.\<close>

definition runnable :: "DiscoSessionNode \<Rightarrow> 'd ExecutionPlan \<Rightarrow> 'd ExecNode option \<Rightarrow> bool" where
  "runnable s plan n \<longleftrightarrow>
     (case n of
        None \<Rightarrow> True
      | Some (KernelExec _ _ ins outs ws _) \<Rightarrow> ins \<noteq> [] \<and> ws \<noteq> [] \<and> (\<forall>w \<in> set ws. worker_in s w)
      | Some (CommExec op_name ats ins outs _) \<Rightarrow>
          op_name = ''device.copy'' \<and> ins \<noteq> [] \<and> outs \<noteq> [] \<and>
          worker_in s (fst (copy_workers plan ats (hd ins) (hd outs))) \<and>
          worker_in s (snd (copy_workers plan ats (hd ins) (hd outs)))
      | Some (BarrierExec _ ws) \<Rightarrow> \<forall>w \<in> set ws. worker_in s w
      | Some (OtherObject _) \<Rightarrow> False)"

text \<open>Every value is a register that holds one of the arrays \<open>T\<close> on every worker.\<close>

definition filled :: "RuntimeArray set \<Rightarrow> DiscoSessionNode \<Rightarrow> DRef \<Rightarrow> bool" where
  "filled T s ref \<longleftrightarrow> ref_in s ref \<and> (\<forall>w. worker_in s w \<longrightarrow> (\<exists>a \<in> T. held s w ref = Some a))"

definition exec_inv :: "RuntimeArray set \<Rightarrow> DiscoSessionNode \<Rightarrow> (int \<Rightarrow> DRef option) \<Rightarrow> bool" where
  "exec_inv T s vals \<longleftrightarrow> session_ok s \<and> (\<forall>i ref. vals i = Some ref \<longrightarrow> filled T s ref)"

lemma exec_invD: "exec_inv T s vals \<Longrightarrow> vals i = Some ref \<Longrightarrow> filled T s ref"
  by (simp add: exec_inv_def)

lemma filled_write:
  assumes "session_ok s" "worker_in s w" "ref_in s r" "a \<in> T" "filled T s ref"
  shows "filled T (write_reg s w r (Some a)) ref"
  using assms held_write_reg [OF assms(1-3)] by (auto simp: filled_def)

lemma exec_inv_write:
  assumes "exec_inv T s vals" "worker_in s w" "ref_in s r" "a \<in> T"
  shows "exec_inv T (write_reg s w r (Some a)) vals"
  using assms filled_write [of s w r a T] by (auto simp: exec_inv_def)

text \<open>What a step of the executor keeps: the workers, and every value that was there.\<close>

definition steps_to :: "RuntimeArray set \<Rightarrow> DiscoSessionNode \<Rightarrow> (int \<Rightarrow> DRef option) \<Rightarrow> int set \<Rightarrow> exec_state res \<Rightarrow> bool" where
  "steps_to T s vals outs r \<longleftrightarrow>
     (\<exists>s' vals'. r = Inr (Some s', vals') \<and> exec_inv T s' vals' \<and>
        ds_num_workers s' = ds_num_workers s \<and> Map.dom vals \<union> outs \<subseteq> Map.dom vals' \<and> reg_count s \<le> reg_count s')"

lemma steps_toE:
  assumes "steps_to T s vals outs r"
  obtains s' vals' where "r = Inr (Some s', vals')" "exec_inv T s' vals'"
    "ds_num_workers s' = ds_num_workers s" "worker_in s' = worker_in s"
    "Map.dom vals \<union> outs \<subseteq> Map.dom vals'" "reg_count s \<le> reg_count s'"
  using assms by (auto simp: steps_to_def worker_in_def fun_eq_iff)

lemma steps_to_trans:
  assumes "steps_to T s1 vals1 outs r" "ds_num_workers s1 = ds_num_workers s" "reg_count s \<le> reg_count s1"
    "Map.dom vals \<union> outs' \<subseteq> Map.dom vals1"
  shows "steps_to T s vals (outs' \<union> outs) r"
  using assms(1)
proof (rule steps_toE)
  fix s' vals'
  assume "r = Inr (Some s', vals')" "exec_inv T s' vals'" "ds_num_workers s' = ds_num_workers s1"
    "Map.dom vals1 \<union> outs \<subseteq> Map.dom vals'" "reg_count s1 \<le> reg_count s'"
  moreover from this(4) have "Map.dom vals \<union> (outs' \<union> outs) \<subseteq> Map.dom vals'" using assms(4) by blast
  ultimately show ?thesis using assms(2,3) unfolding steps_to_def by fastforce
qed

lemma ref_in_mono: "ref_in s ref \<Longrightarrow> reg_count s \<le> reg_count s' \<Longrightarrow> ref_in s' ref"
  by (simp add: ref_in_def)

context copying_backend
begin

text \<open>A copy between two workers of a filled register.\<close>

lemma copy_step:
  assumes "exec_inv T s vals" "\<forall>a \<in> T. array_ok a" "filled T s src" "ref_in s dst" "worker_in s w" "worker_in s w'"
  obtains a where "a \<in> T" "ccl_Copy B (Some s) src dst w w' = Inr (Some (write_reg s w' dst (Some a)))"
    "exec_inv T (write_reg s w' dst (Some a)) vals"
proof -
  obtain a where a: "a \<in> T" "held s w src = Some a" "ref_in s src"
    using assms(3,5) by (auto simp: filled_def)
  then show ?thesis
    using that copy_law [OF assms(5,6) a(3) assms(4) a(2)] exec_inv_write [OF assms(1,6,4) a(1)] assms(2) by blast
qed

text \<open>A loop that copies within every worker.\<close>

lemma copy_loop:
  assumes "exec_inv T s vals" "\<forall>a \<in> T. array_ok a" "filled T s src" "ref_in s dst" "\<forall>w \<in> set ws. worker_in s w"
    and body: "\<And>s w. worker_in s w \<Longrightarrow> filled T s src \<Longrightarrow> f w (Some s) = ccl_Copy B (Some s) src dst w w"
  shows "\<exists>s'. sfold f ws (Some s) = Inr (Some s') \<and> exec_inv T s' vals \<and> filled T s' src \<and>
    ds_num_workers s' = ds_num_workers s \<and> reg_count s' = reg_count s \<and>
    (\<forall>w. worker_in s w \<longrightarrow> w \<in> set ws \<or> (\<exists>a \<in> T. held s w dst = Some a) \<longrightarrow> (\<exists>a \<in> T. held s' w dst = Some a))"
  using assms(1-5)
proof (induction ws arbitrary: s)
  case (Cons w ws)
  obtain a where a: "a \<in> T" "ccl_Copy B (Some s) src dst w w = Inr (Some (write_reg s w dst (Some a)))"
    "exec_inv T (write_reg s w dst (Some a)) vals"
    using copy_step [OF Cons.prems(1-4), of w w] Cons.prems(5) by auto
  let ?s = "write_reg s w dst (Some a)"
  have ok: "session_ok s" and w: "worker_in s w" using Cons.prems by (simp_all add: exec_inv_def)
  have "filled T ?s src" using filled_write [OF ok w Cons.prems(4) a(1) Cons.prems(3)] .
  then obtain s' where s': "sfold f ws (Some ?s) = Inr (Some s')"
    "exec_inv T s' vals" "filled T s' src" "ds_num_workers s' = ds_num_workers s" "reg_count s' = reg_count s"
    "\<forall>w. worker_in s w \<longrightarrow> w \<in> set ws \<or> (\<exists>a \<in> T. held ?s w dst = Some a) \<longrightarrow> (\<exists>a \<in> T. held s' w dst = Some a)"
    using Cons.IH [OF a(3) Cons.prems(2)] Cons.prems(4,5) by auto
  have "\<exists>a \<in> T. held ?s v dst = Some a" if "worker_in s v" "v = w \<or> (\<exists>a \<in> T. held s v dst = Some a)" for v
    using held_write_reg [OF ok w Cons.prems(4) that(1) Cons.prems(4)] that(2) a(1) by auto
  then have "\<forall>v. worker_in s v \<longrightarrow> v \<in> set (w # ws) \<or> (\<exists>a \<in> T. held s v dst = Some a) \<longrightarrow>
      (\<exists>a \<in> T. held s' v dst = Some a)"
    using s'(6) by auto
  then show ?case using s'(1-5) a(2) body [OF w Cons.prems(3)] by auto
qed auto

lemma ensure_filled:
  assumes inv: "exec_inv T s vals" and T: "\<forall>a \<in> T. array_ok a" and src: "filled T s src"
  obtains ref s' where "EnsureValue B i src (Some s, vals) = Inr (ref, Some s', vals(i \<mapsto> ref))"
    "exec_inv T s' (vals(i \<mapsto> ref))" "filled T s' ref" "filled T s' src" "ds_num_workers s' = ds_num_workers s"
    "reg_count s \<le> reg_count s'"
proof (cases "vals i")
  case (Some ref)
  then have "vals(i \<mapsto> ref) = vals" by (simp add: fun_upd_idem)
  then show ?thesis using that [of ref s] Some inv src exec_invD [OF inv Some] by (simp add: EnsureValue_def)
next
  case None
  have ok: "session_ok s" using inv by (simp add: exec_inv_def)
  obtain ref s1 where n: "NewDRef (Some s) = Inr (ref, Some s1)" "session_ok s1" "ref_in s1 ref"
    "ds_num_workers s1 = ds_num_workers s" "reg_count s1 = reg_count s + 1"
    "\<And>w r. worker_in s w \<Longrightarrow> ref_in s r \<Longrightarrow> held s1 w r = held s w r"
    using NewDRef_spec [OF ok] by metis
  have win: "worker_in s1 = worker_in s" using n(4) by (simp add: worker_in_def fun_eq_iff)
  have keep: "filled T s1 r" if "filled T s r" for r
    using that n(5,6) ref_in_mono [of s r s1] win by (auto simp: filled_def)
  have inv1: "exec_inv T s1 vals" using inv n(2) keep by (simp add: exec_inv_def)
  have ws: "\<forall>w \<in> set (worker_range (ds_num_workers s1)). worker_in s1 w" by (simp add: worker_in_def)
  have body: "copy_if_held B src ref w (Some s) = ccl_Copy B (Some s) src ref w w"
    if "worker_in s w" "filled T s src" for s w
    using that Session_Get_held [of s w src] by (auto simp: copy_if_held_def filled_def)
  obtain s2 where s2: "sfold (copy_if_held B src ref) (worker_range (ds_num_workers s1)) (Some s1) = Inr (Some s2)"
    "exec_inv T s2 vals" "filled T s2 src" "ds_num_workers s2 = ds_num_workers s1" "reg_count s2 = reg_count s1"
    "\<forall>w. worker_in s1 w \<longrightarrow> w \<in> set (worker_range (ds_num_workers s1)) \<or> (\<exists>a \<in> T. held s1 w ref = Some a) \<longrightarrow>
       (\<exists>a \<in> T. held s2 w ref = Some a)"
    using copy_loop [OF inv1 T keep [OF src] n(3) ws body] by blast
  have "worker_in s2 = worker_in s1" using s2(4) by (simp add: worker_in_def fun_eq_iff)
  then have ref2: "filled T s2 ref"
    using s2(5,6) ref_in_mono [OF n(3), of s2] by (auto simp: filled_def worker_in_def)
  then have "exec_inv T s2 (vals(i \<mapsto> ref))" using s2(2) by (auto simp: exec_inv_def)
  moreover have "DRef_valid src" using src by (simp add: filled_def ref_in_def)
  then have "EnsureValue B i src (Some s, vals) = Inr (ref, Some s2, vals(i \<mapsto> ref))"
    using None n(1) s2(1) by (simp add: EnsureValue_def)
  ultimately show ?thesis using that [OF _ _ ref2 s2(3)] s2(4,5) n(4,5) by simp
qed

text \<open>A step of a kernel, of all its outputs, of a copy.\<close>

lemma copy_output_runs:
  assumes inv: "exec_inv T s vals" and T: "\<forall>a \<in> T. array_ok a" and src: "filled T s input"
    and ws: "ws \<noteq> []" "\<forall>w \<in> set ws. worker_in s w"
  obtains ref s' where "copy_output B plan ws j input out (Some s, vals) = Inr (Some s', vals(out \<mapsto> ref))"
    "exec_inv T s' (vals(out \<mapsto> ref))" "filled T s' input" "ds_num_workers s' = ds_num_workers s"
    "reg_count s \<le> reg_count s'"
proof -
  obtain ref s1 where e: "EnsureValue B out input (Some s, vals) = Inr (ref, Some s1, vals(out \<mapsto> ref))"
    "exec_inv T s1 (vals(out \<mapsto> ref))" "filled T s1 ref" "filled T s1 input"
    "ds_num_workers s1 = ds_num_workers s" "reg_count s \<le> reg_count s1"
    using ensure_filled [OF inv T src] by blast
  have w1: "\<forall>w \<in> set ws. worker_in s1 w" using ws(2) e(5) by (simp add: worker_in_def)
  have "ref_in s1 ref" using e(3) by (simp add: filled_def)
  from copy_loop [OF e(2) T e(4) this w1, of "\<lambda>w s. ccl_Copy B s input ref w w"]
  obtain s2 where "sfold (\<lambda>w s. ccl_Copy B s input ref w w) ws (Some s1) = Inr (Some s2)"
    "exec_inv T s2 (vals(out \<mapsto> ref))" "filled T s2 input" "ds_num_workers s2 = ds_num_workers s1"
    "reg_count s2 = reg_count s1"
    by blast
  then show ?thesis using that e(1,5,6) ws(1) by (simp add: copy_output_def EffectiveWorkerSet_def)
qed

lemma kernel_runs:
  assumes "exec_inv T s vals" "\<forall>a \<in> T. array_ok a" "filled T s input" "ws \<noteq> []" "\<forall>w \<in> set ws. worker_in s w"
  shows "steps_to T s vals (set outs) (sfold (\<lambda>out. copy_output B plan ws j input out) outs (Some s, vals))"
  using assms
proof (induction outs arbitrary: s vals)
  case Nil
  then show ?case by (simp add: steps_to_def)
next
  case (Cons out outs)
  obtain ref s1 where c: "copy_output B plan ws j input out (Some s, vals) = Inr (Some s1, vals(out \<mapsto> ref))"
    "exec_inv T s1 (vals(out \<mapsto> ref))" "filled T s1 input" "ds_num_workers s1 = ds_num_workers s"
    "reg_count s \<le> reg_count s1"
    using copy_output_runs [OF Cons.prems] by blast
  have "\<forall>w \<in> set ws. worker_in s1 w" using Cons.prems(5) c(4) by (simp add: worker_in_def)
  from Cons.IH [OF c(2) Cons.prems(2) c(3) Cons.prems(4) this]
  have "steps_to T s vals ({out} \<union> set outs) (sfold (\<lambda>out. copy_output B plan ws j input out) outs (Some s1, vals(out \<mapsto> ref)))"
    by (rule steps_to_trans) (use c(4,5) in auto)
  then show ?case using c(1) by (simp del: fun_upd_apply)
qed

lemma fold_values: "fold (\<lambda>i vals. vals(i \<mapsto> dst)) outs vals = (\<lambda>i. if i \<in> set outs then Some dst else vals i)"
  by (induction outs arbitrary: vals) (auto simp: fun_eq_iff)

lemma comm_runs:
  assumes inv: "exec_inv T s vals" and T: "\<forall>a \<in> T. array_ok a" and src: "vals (hd ins) = Some src"
    and ne: "ins \<noteq> []" "outs \<noteq> []"
    and ws: "worker_in s (fst (copy_workers plan ats (hd ins) (hd outs)))"
      "worker_in s (snd (copy_workers plan ats (hd ins) (hd outs)))"
  shows "steps_to T s vals (set outs) (ExecuteComm B plan ''device.copy'' ats ins outs (Some s, vals))"
proof -
  obtain i rest where ins: "ins = i # rest" using ne(1) by (cases ins) auto
  obtain j js where outs: "outs = j # js" using ne(2) by (cases outs) auto
  have f: "filled T s src" using exec_invD [OF inv src] .
  obtain ref s1 where e: "EnsureValue B j src (Some s, vals) = Inr (ref, Some s1, vals(j \<mapsto> ref))"
    "exec_inv T s1 (vals(j \<mapsto> ref))" "filled T s1 ref" "filled T s1 src"
    "ds_num_workers s1 = ds_num_workers s" "reg_count s \<le> reg_count s1"
    using ensure_filled [OF inv T f] by blast
  obtain sw dw where w: "copy_workers plan ats i j = (sw, dw)" "worker_in s1 sw" "worker_in s1 dw"
    using ws e(5) ins outs by (cases "copy_workers plan ats i j") (simp add: worker_in_def)
  have "ref_in s1 ref" using e(3) by (simp add: filled_def)
  then obtain a where a: "a \<in> T" "ccl_Copy B (Some s1) src ref sw dw = Inr (Some (write_reg s1 dw ref (Some a)))"
    "exec_inv T (write_reg s1 dw ref (Some a)) (vals(j \<mapsto> ref))"
    using copy_step [OF e(2) T e(4) _ w(2,3)] by blast
  let ?s = "write_reg s1 dw ref (Some a)"
  have "exec_inv T ?s (fold (\<lambda>i vals. vals(i \<mapsto> ref)) outs (vals(j \<mapsto> ref)))"
    using a(3) exec_invD [OF a(3), of j ref] by (auto simp: exec_inv_def fold_values split: if_splits)
  moreover have "Map.dom vals \<union> set outs \<subseteq> Map.dom (fold (\<lambda>i vals. vals(i \<mapsto> ref)) outs (vals(j \<mapsto> ref)))"
    by (auto simp: fold_values Map.dom_def)
  moreover have "ExecuteComm B plan ''device.copy'' ats ins outs (Some s, vals) =
      Inr (Some ?s, fold (\<lambda>i vals. vals(i \<mapsto> ref)) outs (vals(j \<mapsto> ref)))"
    using src e(1) w(1) a(2)
    by (simp add: ExecuteComm_def ins outs communicate_def split: prod.split)
  ultimately show ?thesis using e(5,6) by (simp add: steps_to_def)
qed

lemma barrier_runs:
  "\<forall>w \<in> set ws. worker_in s w \<Longrightarrow> sfold (\<lambda>w s. ccl_SyncWorker B s w) ws (Some s) = Inr (Some s)"
  by (induction ws) (simp_all add: sync_law)

lemma runnable_same: "ds_num_workers s' = ds_num_workers s \<Longrightarrow> runnable s' = runnable s"
  by (auto simp: runnable_def worker_in_def fun_eq_iff split: option.split ExecNode.split)

lemma node_runs:
  assumes inv: "exec_inv T s vals" and T: "\<forall>a \<in> T. array_ok a" and run: "runnable s plan (Some n)"
    and ins: "set (node_inputs n) \<subseteq> Map.dom vals"
  shows "steps_to T s vals (set (node_outputs n)) (ExecuteNode B plan (Some n) (Some s, vals))"
proof (cases n)
  case (KernelExec nm pf ins outs ws sym)
  then obtain j js where j: "ins = j # js" using run by (cases ins) (auto simp: runnable_def)
  then obtain input where "vals j = Some input" using ins KernelExec by auto
  moreover have "ws \<noteq> []" "\<forall>w \<in> set ws. worker_in s w" using run KernelExec by (simp_all add: runnable_def)
  ultimately have "steps_to T s vals (set outs) (sfold (\<lambda>out. copy_output B plan ws j input out) outs (Some s, vals))"
    using kernel_runs [OF inv T exec_invD [OF inv]] by blast
  then show ?thesis using KernelExec j \<open>vals j = Some input\<close> by (cases outs) (simp_all add: ExecuteKernel_def)
next
  case (CommExec nm ats ins outs ws)
  have c: "nm = ''device.copy''" "ins \<noteq> []" "outs \<noteq> []" "worker_in s (fst (copy_workers plan ats (hd ins) (hd outs)))"
    "worker_in s (snd (copy_workers plan ats (hd ins) (hd outs)))"
    using run CommExec by (simp_all add: runnable_def)
  then obtain src where "vals (hd ins) = Some src" using ins CommExec by (metis domD hd_in_set node_inputs.simps(2) subsetD)
  from comm_runs [OF inv T this c(2-5)] show ?thesis using CommExec c(1) by simp
next
  case (BarrierExec tag ws)
  have "session_ok s" using inv by (simp add: exec_inv_def)
  then have "worker_in s 0" by (simp add: session_ok_def worker_in_def)
  then have "\<forall>w \<in> set (EffectiveWorkerSet ws 0). worker_in s w"
    using run BarrierExec by (simp add: runnable_def EffectiveWorkerSet_def)
  then show ?thesis using BarrierExec inv by (simp add: barrier_runs steps_to_def)
next
  case (OtherObject i)
  then show ?thesis using run by (simp add: runnable_def)
qed

lemma nodes_run:
  assumes "exec_inv T s vals" "\<forall>a \<in> T. array_ok a" "\<forall>n \<in> set ns. runnable s plan n" "reads_defined (Map.dom vals) ns"
  shows "steps_to T s vals (set (outputs_of ns)) (sfold (ExecuteNode B plan) ns (Some s, vals))"
  using assms
proof (induction ns arbitrary: s vals)
  case Nil
  then show ?case by (simp add: steps_to_def)
next
  case (Cons m ns)
  show ?case
  proof (cases m)
    case None
    then show ?thesis using Cons by simp
  next
    case (Some n)
    have "runnable s plan (Some n)" "set (node_inputs n) \<subseteq> Map.dom vals"
      using Cons.prems(3,4) Some by simp_all
    from node_runs [OF Cons.prems(1,2) this]
    obtain s1 vals1 where 1: "ExecuteNode B plan (Some n) (Some s, vals) = Inr (Some s1, vals1)" "exec_inv T s1 vals1"
      "ds_num_workers s1 = ds_num_workers s" "Map.dom vals \<union> set (node_outputs n) \<subseteq> Map.dom vals1" "reg_count s \<le> reg_count s1"
      by (rule steps_toE)
    have "reads_defined (Map.dom vals \<union> set (node_outputs n)) ns" using Cons.prems(4) Some by simp
    then have "reads_defined (Map.dom vals1) ns" by (rule reads_defined_mono [OF _ 1(4)])
    moreover have "\<forall>n \<in> set ns. runnable s1 plan n" using Cons.prems(3) by (simp add: runnable_same [OF 1(3)])
    ultimately have "steps_to T s1 vals1 (set (outputs_of ns)) (sfold (ExecuteNode B plan) ns (Some s1, vals1))"
      using Cons.IH [OF 1(2) Cons.prems(2)] by blast
    then have "steps_to T s vals (set (node_outputs n) \<union> set (outputs_of ns)) (sfold (ExecuteNode B plan) ns (Some s1, vals1))"
      by (rule steps_to_trans [OF _ 1(3,5,4)])
    then show ?thesis using 1(1) Some by simp
  qed
qed

lemma execute_for_output:
  assumes "exec_inv T s vals" "\<forall>a \<in> T. array_ok a" "\<forall>n \<in> set (ep_nodes plan). runnable s plan n"
    "reads_defined (Map.dom vals) (ep_nodes plan)" "0 \<le> output_value plan"
    "output_value plan \<in> Map.dom vals \<union> set (outputs_of (ep_nodes plan))"
  shows "\<exists>ref s' vals'. ExecuteForOutput B (Some plan) (Some s, vals) = Inr (ref, Some s', vals') \<and>
    filled T s' ref \<and> ds_num_workers s' = ds_num_workers s"
proof -
  from nodes_run [OF assms(1-4)] obtain s' vals' where r: "sfold (ExecuteNode B plan) (ep_nodes plan) (Some s, vals) = Inr (Some s', vals')"
    "exec_inv T s' vals'" "ds_num_workers s' = ds_num_workers s"
    "Map.dom vals \<union> set (outputs_of (ep_nodes plan)) \<subseteq> Map.dom vals'"
    by (rule steps_toE)
  then obtain ref where "vals' (output_value plan) = Some ref" using assms(6) by blast
  then show ?thesis using r(1-3) assms(5) exec_invD [OF r(2)] by (simp add: ExecuteForOutput_def Execute_def)
qed

end

text \<open>The CPU backend keeps the laws.\<close>

interpretation cpu: copying_backend "CpuCCLBackend F" for F
proof
  show "ccl_Copy (CpuCCLBackend F) (Some s) src dst w w' = Inr (Some (write_reg s w' dst (Some a)))"
    if "worker_in s w" "worker_in s w'" "ref_in s src" "ref_in s dst" "held s w src = Some a" "array_ok a"
    for s w w' src dst a
    using that by (simp add: CpuCCLBackend_def Cpu_Copy_def set_clone_def Session_Get_held Session_Set_write CloneArray_ok)
  show "ccl_SyncWorker (CpuCCLBackend F) (Some s) w = Inr (Some s)" if "worker_in s w" for s w
    using that by (auto simp: CpuCCLBackend_def Session_SyncWorker_def ValidateWorkerId_def worker_in_def)
qed

lemma ssa_plan_executes:
  assumes "plan_ssa plan" "session_ok s" "\<forall>n \<in> set (ep_nodes plan). runnable s plan n"
    and "Map.dom vals = set (input_value_ids plan) \<union> set (constant_value_ids plan)"
    and "\<forall>i ref. vals i = Some ref \<longrightarrow> filled T s ref" "\<forall>a \<in> T. array_ok a"
  shows "\<exists>ref s' vals'. ExecuteForOutput (CpuCCLBackend F) (Some plan) (Some s, vals) = Inr (ref, Some s', vals') \<and>
    (\<forall>w. worker_in s w \<longrightarrow> (\<exists>a \<in> T. held s' w ref = Some a))"
proof -
  have inv: "exec_inv T s vals" using assms(2,5) by (simp add: exec_inv_def)
  have ids: "set (input_value_ids plan @ constant_value_ids plan @ outputs_of (ep_nodes plan)) = {0..<num_values plan}"
    "reads_defined (Map.dom vals) (ep_nodes plan)" "0 \<le> output_value plan" "output_value plan < num_values plan"
    using assms(1,4) by (simp_all add: plan_ssa_def Let_def)
  have "output_value plan \<in> {0..<num_values plan}" using ids(3,4) by simp
  then have out: "output_value plan \<in> Map.dom vals \<union> set (outputs_of (ep_nodes plan))"
    unfolding ids(1) [symmetric] assms(4) by auto
  obtain ref s' vals' where r: "ExecuteForOutput (CpuCCLBackend F) (Some plan) (Some s, vals) = Inr (ref, Some s', vals')"
    "filled T s' ref" "ds_num_workers s' = ds_num_workers s"
    using cpu.execute_for_output [OF inv assms(6,3) ids(2,3) out] by blast
  then have "\<forall>w. worker_in s w \<longrightarrow> (\<exists>a \<in> T. held s' w ref = Some a)" by (simp add: filled_def worker_in_def)
  with r(1) show ?thesis by blast
qed

text \<open>
C38. Executing a plan of kernels, device copies and barriers in static single assignment form on
the CPU backend always returns its output, when every input and constant is a register that holds
a well-formed array on every worker and the plan names only workers of the session. And the
output on every worker is one of the arrays it was given: the executor runs no kernel.
\<close>

theorem plan_executes:
  assumes "plan_ssa plan" "session_ok s" "\<forall>n \<in> set (ep_nodes plan). runnable s plan n"
    and "Map.dom vals = set (input_value_ids plan) \<union> set (constant_value_ids plan)"
    and "\<forall>i ref. vals i = Some ref \<longrightarrow> filled T s ref" "\<forall>a \<in> T. array_ok a"
  shows "\<exists>ref s' vals'. ExecuteForOutput (CpuCCLBackend F) (Some plan) (Some s, vals) = Inr (ref, Some s', vals') \<and>
    (\<forall>w. worker_in s w \<longrightarrow> (\<exists>a \<in> T. held s' w ref = Some a))"
  by (rule ssa_plan_executes [OF assms])

text \<open>A plan of one kernel on worker 1.\<close>

definition relu_plan :: "int ExecutionPlan" where
  "relu_plan = \<lparr>ep_nodes = [Some (KernelExec ''relu'' None [0] [1] [1] '''')], value_virtual_devices = [],
     input_value_ids = [0], constant_value_ids = [], value_shapes = [], value_dtypes = [], num_values = 2,
     ep_pass_ctx = PassContext_undefined, output_value = 1\<rparr>"

lemma plan_executes_witness:
  "\<exists>ref s' vals'. ExecuteForOutput (CpuCCLBackend \<lparr>add_f32 = (+), add_f64 = (+)\<rparr>) (Some relu_plan)
       (Some (two_workers (Some (pair_array 5 7)) (Some (pair_array 1 2))), [0 \<mapsto> reg 0]) = Inr (ref, Some s', vals') \<and>
     held s' 1 ref \<noteq> None"
proof -
  let ?s = "two_workers (Some (pair_array 5 7)) (Some (pair_array 1 2))"
  have w: "worker_in ?s v \<longleftrightarrow> v = 0 \<or> v = 1" for v by (auto simp: worker_in_def two_workers_ok)
  have "plan_ssa relu_plan"
    by (auto simp: plan_ssa_def relu_plan_def workers_ok_def)
  moreover have "\<forall>n \<in> set (ep_nodes relu_plan). runnable ?s relu_plan n"
    by (simp add: relu_plan_def runnable_def w)
  moreover have "Map.dom [0 \<mapsto> reg 0] = set (input_value_ids relu_plan) \<union> set (constant_value_ids relu_plan)"
    by (simp add: relu_plan_def)
  moreover have "filled {pair_array 5 7, pair_array 1 2} ?s (reg 0)"
    by (auto simp: filled_def w two_workers_ok)
  then have "\<forall>i ref. [0 \<mapsto> reg 0] i = Some ref \<longrightarrow> filled {pair_array 5 7, pair_array 1 2} ?s ref"
    by (simp split: if_splits)
  ultimately have "\<exists>ref s' vals'. ExecuteForOutput (CpuCCLBackend \<lparr>add_f32 = (+), add_f64 = (+)\<rparr>) (Some relu_plan)
       (Some ?s, [0 \<mapsto> reg 0]) = Inr (ref, Some s', vals') \<and>
     (\<forall>v. worker_in ?s v \<longrightarrow> (\<exists>a \<in> {pair_array 5 7, pair_array 1 2}. held s' v ref = Some a))"
    by (intro plan_executes [OF _ two_workers_ok(1)]) (auto simp: pair_array_ok)
  then show ?thesis using w [of 1] by fastforce
qed

text \<open>
The registered function that executes a plan passes no values: a plan whose first node is a
kernel that reads an input of the plan cannot be executed by it, whatever the session.
\<close>

lemma execute_plan_without_inputs:
  assumes "ep_nodes plan = Some (KernelExec nm pf (i # ins) (j # outs) ws symbol) # ns"
  shows "execute_plan F (Some s) (Some plan) = throw ''Kernel input value is not available''"
  using assms by (simp add: execute_plan_def ExecutionPlanExecutor_new_def Execute_def ExecuteKernel_def)

lemma execute_plan_without_inputs_witness:
  "execute_plan \<lparr>add_f32 = (+), add_f64 = (+)\<rparr> (Some (two_workers None None)) (Some relu_plan) =
     throw ''Kernel input value is not available''"
  by (rule execute_plan_without_inputs [of relu_plan "''relu''" None 0 "[]" 1 "[]" "[1]" "''''" "[]"])
    (simp add: relu_plan_def)

end
