(* ===== verification/Plan_Runs.thy ===== *)
theory Plan_Runs
  imports Disco_ExecutorProofs
begin

text \<open>
  The builder and the executor together: the plan of a function that computes without
  communication runs to its end.
\<close>

section \<open>The nodes of a built plan\<close>

text \<open>Calls of operators that do not communicate, every call and tuple with an argument.\<close>

fun compute_only :: "'d rexpr \<Rightarrow> bool" where
  "compute_only (RCall a op args ats) \<longleftrightarrow>
     \<not> IsCommunicationOpName (GetCallOpName (RCall a op args ats)) \<and> args \<noteq> [] \<and> (\<forall>e \<in> set args. compute_only e)"
| "compute_only (RFunction _ _ b) \<longleftrightarrow> compute_only b"
| "compute_only (RLet _ x v b) \<longleftrightarrow> compute_only v \<and> compute_only b"
| "compute_only (RTuple _ fs) \<longleftrightarrow> fs \<noteq> [] \<and> (\<forall>e \<in> set fs. compute_only e)"
| "compute_only (RTupleGetItem _ t _) \<longleftrightarrow> compute_only t"
| "compute_only _ \<longleftrightarrow> True"

definition kernel_within :: "int \<Rightarrow> 'd ExecNode option \<Rightarrow> bool" where
  "kernel_within n node \<longleftrightarrow>
     (\<exists>nm pf ins outs ws ksym. node = Some (KernelExec nm pf ins outs ws ksym) \<and> ins \<noteq> [] \<and> ws \<noteq> [] \<and>
        (\<forall>w \<in> set ws. 0 \<le> w \<and> w < n))"

definition kernels_within :: "int \<Rightarrow> 'd PlanBuilder \<Rightarrow> bool" where
  "kernels_within n b \<longleftrightarrow> (\<forall>node \<in> set (pb_nodes b). kernel_within n node)"

text \<open>No device is resolved to a worker the session does not have.\<close>

definition workers_below :: "int \<Rightarrow> PassContext \<Rightarrow> bool" where
  "workers_below n ctx \<longleftrightarrow> 0 < n \<and> (\<forall>vd. ResolveWorkerForVirtualDevice ctx vd < n)"

lemma kernel_pushed:
  assumes "workers_below n ctx" "kernels_within n b" "ins \<noteq> []" "AllocateValue st ref b = (out, b')"
  shows "kernels_within n (push_node (KernelExec nm None ins [out] (ResolveComputeWorkerSet ctx st ref ins b') ksym) b')"
proof -
  have "\<forall>w \<in> set (ResolveComputeWorkerSet ctx st ref ins b'). 0 \<le> w \<and> w < n"
    using assms(1) by (auto simp: ResolveComputeWorkerSet_def WorkerSetFromVirtualDevice_def Let_def workers_below_def)
  moreover have "ResolveComputeWorkerSet ctx st ref ins b' \<noteq> []" using compute_workers by blast
  ultimately show ?thesis
    using assms(2,3) AllocateValue_simps [OF assms(4)] by (auto simp: kernels_within_def push_node_def kernel_within_def)
qed

lemma kernels_same_nodes: "kernels_within n b \<Longrightarrow> pb_nodes b' = pb_nodes b \<Longrightarrow> kernels_within n b'"
  by (simp add: kernels_within_def)

lemma PlanVisitList_length: "PlanVisitList ctx st es b = Inr (ins, b') \<Longrightarrow> length ins = length es"
  by (induction es arbitrary: b ins) (auto simp: sbind_simps simp del: PlanVisit.simps)

lemma PlanVisit_kernels:
  assumes n: "workers_below n ctx"
  shows "PlanVisit ctx st e b = Inr (i, b') \<Longrightarrow> kernels_within n b \<Longrightarrow> compute_only e \<Longrightarrow> kernels_within n b'"
    and "PlanVisitExpr ctx st e b = Inr (i, b') \<Longrightarrow> kernels_within n b \<Longrightarrow> compute_only e \<Longrightarrow> kernels_within n b'"
    and "PlanVisitList ctx st es b = Inr (is, b') \<Longrightarrow> kernels_within n b \<Longrightarrow> \<forall>e \<in> set es. compute_only e \<Longrightarrow>
      kernels_within n b'"
  using n
proof (induction ctx st e b and ctx st e b and ctx st es b arbitrary: i b' and i b' and "is" b'
    rule: PlanVisit_PlanVisitExpr_PlanVisitList.induct)
  case (1 ctx st e b)
  show ?case
  proof (cases "e = RUndef \<or> pb_memo b (obj_addr e) \<noteq> None")
    case True
    then show ?thesis using 1(2,3) by (auto simp del: PlanVisitExpr.simps split: if_splits option.splits)
  next
    case False
    then obtain j c where "PlanVisitExpr ctx st e b = Inr (j, c)" "b' = c\<lparr>pb_memo := (pb_memo c)(obj_addr e \<mapsto> j)\<rparr>"
      using 1(2) by (auto simp: sbind_simps memoize_def)
    then show ?thesis using 1(1) [of j c] 1(3-5) False by (auto intro: kernels_same_nodes)
  qed
next
  case (2 ctx st v b)
  then show ?case by (auto simp: AllocateValue_def Let_def intro: kernels_same_nodes split: option.splits)
next
  case (3 ctx st a d b)
  then show ?case by (auto simp: plan_constant_def AllocateValue_def Let_def intro: kernels_same_nodes split: option.splits)
next
  case (4 ctx st a op args ats b)
  let ?e = "RCall a op args ats"
  obtain js b1 where 1: "GetCallOpName ?e \<noteq> ''''" "PlanVisitList ctx st args b = Inr (js, b1)"
    "(i, b') = plan_call ctx st ?e (GetCallOpName ?e) args ats js b1"
    using 4(2) by (auto simp: sbind_simps Let_def simp del: GetCallOpName.simps split: if_splits)
  have b1: "kernels_within n b1" using 4(1) [OF refl 1(1) 1(2)] 4(3-5) by simp
  have js: "js \<noteq> []" using PlanVisitList_length [OF 1(2)] 4(4) by auto
  obtain out b2 where al: "AllocateValue st ?e b1 = (out, b2)" by fastforce
  show ?case using kernel_pushed [OF 4(5) b1 js al] 1(3) 4(4) by (simp add: plan_call_def al del: GetCallOpName.simps)
next
  case (5 ctx st a ps bd b)
  then show ?case by simp
next
  case (6 ctx st a x v bd b)
  obtain j b1 k b2 where 1: "PlanVisit ctx st v b = Inr (j, b1)"
    "PlanVisit ctx st bd (b1\<lparr>pb_bindings := (pb_bindings b1)(rv_addr x \<mapsto> j)\<rparr>) = Inr (k, b2)"
    "(i, b') = memoize a (k, b2\<lparr>pb_bindings := (pb_bindings b2)(rv_addr x := None)\<rparr>)"
    using 6(3) by (auto simp: sbind_simps simp del: PlanVisit.simps)
  have "kernels_within n b1" using 6(1) [OF 1(1)] 6(4-6) by simp
  then have "kernels_within n (b1\<lparr>pb_bindings := (pb_bindings b1)(rv_addr x \<mapsto> j)\<rparr>)"
    by (rule kernels_same_nodes) simp
  then have "kernels_within n b2" using 6(2) [OF 1(1) refl 1(2)] 6(5,6) by simp
  then show ?case using 1(3) by (auto simp: memoize_def intro: kernels_same_nodes)
next
  case (7 ctx st a fs b)
  obtain js b1 where 1: "PlanVisitList ctx st fs b = Inr (js, b1)"
    "(i, b') = plan_kernel ctx st (RTuple a fs) ''__make_tuple__'' js b1"
    using 7(2) by (auto simp: sbind_simps simp del: PlanVisit.simps)
  have b1: "kernels_within n b1" using 7(1) [OF 1(1)] 7(3-5) by simp
  have js: "js \<noteq> []" using PlanVisitList_length [OF 1(1)] 7(4) by auto
  obtain out b2 where al: "AllocateValue st (RTuple a fs) b1 = (out, b2)" by fastforce
  show ?case using kernel_pushed [OF 7(5) b1 js al] 1(2) by (simp add: plan_kernel_def al)
next
  case (8 ctx st a t k b)
  obtain j b1 where 1: "PlanVisit ctx st t b = Inr (j, b1)"
    "(i, b') = plan_kernel ctx st (RTupleGetItem a t k) (''__tuple_getitem_'' @ to_string k) [j] b1"
    using 8(2) by (auto simp: sbind_simps simp del: PlanVisit.simps)
  have b1: "kernels_within n b1" using 8(1) [OF 1(1)] 8(3-5) by simp
  obtain out b2 where al: "AllocateValue st (RTupleGetItem a t k) b1 = (out, b2)" by fastforce
  show ?case using kernel_pushed [OF 8(5) b1 _ al, of "[j]"] 1(2) by (simp add: plan_kernel_def al)
qed (auto simp: sbind_simps simp del: PlanVisit.simps)

section \<open>A built plan runs\<close>

lemma kernel_within_runnable: "kernel_within (ds_num_workers s) node \<Longrightarrow> runnable s plan node"
  by (auto simp: kernel_within_def runnable_def worker_in_def)

text \<open>
C39. What the builder makes of a function that computes without communication, the executor runs:
the plan exists, and on a session with enough workers, with the inputs and the constants of the
plan filled on every worker, it returns an output that is filled on every worker.
\<close>

theorem built_plan_executes:
  fixes bd :: "'d rexpr"
  assumes "plannable (rv_addr ` set ps) bd" "compute_only bd"
    and "session_ok s" "workers_below (ds_num_workers s) ctx" "\<forall>a \<in> T. array_ok a"
  shows "\<exists>plan. Build ctx st (RFunction addr ps bd) = Inr plan \<and>
    (\<forall>vals. Map.dom vals = set (input_value_ids plan) \<union> set (constant_value_ids plan) \<and>
        (\<forall>i ref. vals i = Some ref \<longrightarrow> filled T s ref) \<longrightarrow>
      (\<exists>ref s' vals'. ExecuteForOutput (CpuCCLBackend F) (Some plan) (Some s, vals) = Inr (ref, Some s', vals') \<and>
         (\<forall>w. worker_in s w \<longrightarrow> (\<exists>a \<in> T. held s' w ref = Some a))))"
proof -
  obtain plan where plan: "Build ctx st (RFunction addr ps bd) = Inr plan" "plan_ssa plan"
    using built_plan_ssa [OF assms(1)] by blast
  then obtain out b where b: "PlanVisit ctx st bd (fold (plan_param st) ps builder_start) = Inr (out, b)"
    "ep_nodes plan = pb_nodes b"
    by (auto simp: Build_def sbind_simps simp del: PlanVisit.simps)
  have "pb_nodes (fold (plan_param st) ps c) = pb_nodes c" for c :: "'d PlanBuilder"
    by (induction ps arbitrary: c)
      (auto simp: plan_param_def AllocateValue_def CaptureValueInfoFromType_def Let_def split: RType.split)
  then have "kernels_within (ds_num_workers s) (fold (plan_param st) ps (builder_start :: 'd PlanBuilder))"
    by (simp add: kernels_within_def builder_start_def)
  then have "kernels_within (ds_num_workers s) b"
    using PlanVisit_kernels(1) [OF assms(4) b(1) _ assms(2)] by blast
  then have "\<forall>node \<in> set (ep_nodes plan). runnable s plan node"
    using b(2) by (auto simp: kernels_within_def intro: kernel_within_runnable)
  then show ?thesis using plan(1) ssa_plan_executes [OF plan(2) assms(3) _ _ _ assms(5)] by blast
qed

text \<open>The sum of two variables, on two workers.\<close>

lemma built_plan_executes_witness:
  "\<exists>plan ref s' vals'. Build PassContext_undefined two_cpus sum_fun = Inr plan \<and>
     ExecuteForOutput (CpuCCLBackend \<lparr>add_f32 = (+), add_f64 = (+)\<rparr>) (Some plan)
       (Some (two_workers (Some (pair_array 5 7)) (Some (pair_array 1 2))),
        (\<lambda>i. if i \<in> set (input_value_ids plan) \<union> set (constant_value_ids plan) then Some (reg 0) else None)) =
     Inr (ref, s', vals')"
proof -
  let ?s = "two_workers (Some (pair_array 5 7)) (Some (pair_array 1 2))"
  let ?T = "{pair_array 5 7, pair_array 1 2}"
  let ?bd = "RCall 4 (ROp 3 ''add'') [RVar var_x, RVar var_y] OtherAttrs :: int rexpr"
  have w: "worker_in ?s v \<longleftrightarrow> v = 0 \<or> v = 1" for v by (auto simp: worker_in_def two_workers_ok)
  have body: "plannable (rv_addr ` set [var_x, var_y]) ?bd" "compute_only ?bd"
    by (simp_all add: IsCommunicationOpName_def)
  have below: "workers_below (ds_num_workers ?s) PassContext_undefined"
    by (simp add: workers_below_def two_workers_ok ResolveWorkerForVirtualDevice_def PassContext_undefined_def)
  have T: "\<forall>a \<in> ?T. array_ok a" by (simp add: pair_array_ok)
  obtain plan where "Build PassContext_undefined two_cpus (RFunction 5 [var_x, var_y] ?bd) = Inr plan \<and>
    (\<forall>vals. Map.dom vals = set (input_value_ids plan) \<union> set (constant_value_ids plan) \<and>
        (\<forall>i ref. vals i = Some ref \<longrightarrow> filled ?T ?s ref) \<longrightarrow>
      (\<exists>ref s' vals'. ExecuteForOutput (CpuCCLBackend \<lparr>add_f32 = (+), add_f64 = (+)\<rparr>) (Some plan) (Some ?s, vals) =
           Inr (ref, Some s', vals') \<and> (\<forall>w. worker_in ?s w \<longrightarrow> (\<exists>a \<in> ?T. held s' w ref = Some a))))"
    using built_plan_executes [OF body two_workers_ok(1) below T, of two_cpus 5 "\<lparr>add_f32 = (+), add_f64 = (+)\<rparr>"] ..
  note plan = conjunct1 [OF this] conjunct2 [OF this]
  have "filled ?T ?s (reg 0)" by (auto simp: filled_def w two_workers_ok)
  then have "\<exists>ref s' vals'. ExecuteForOutput (CpuCCLBackend \<lparr>add_f32 = (+), add_f64 = (+)\<rparr>) (Some plan)
      (Some ?s, (\<lambda>i. if i \<in> set (input_value_ids plan) \<union> set (constant_value_ids plan) then Some (reg 0) else None)) =
      Inr (ref, Some s', vals') \<and> (\<forall>w. worker_in ?s w \<longrightarrow> (\<exists>a \<in> ?T. held s' w ref = Some a))"
    by (intro plan(2) [rule_format]) (auto simp: Map.dom_def split: if_splits)
  then show ?thesis using plan(1) unfolding sum_fun_def by blast
qed

end
