(* ===== verification/TE_Graph.thy ===== *)
theory TE_Graph
  imports Relay_Utils
begin

text \<open>
  The tensor expressions of \<^verbatim>\<open>include/te/te.h\<close> and \<^verbatim>\<open>src/te/te.cc\<close>: tensors, the operations
  that produce them, and the scalar expressions of a computed tensor. Nodes are immutable once
  built (the schedule, which writes to iteration variables, is the theory \<open>TE_Schedule\<close>) and
  compared by address, so a node is the tree below it with its address. A function that allocates
  passes the next free address.
\<close>

section \<open>Nodes\<close>

datatype ReduceType = kSum | kMax | kMin

record 'd te_iter_var =
  iv_addr :: nat
  iv_var :: tir_var
  iv_min :: "'d PrimExpr"
  iv_extent :: "'d PrimExpr"
  iv_type :: IterVarType
  iv_thread_tag :: string

text \<open>
  A scalar expression is a TIR expression, one of the two classes of \<^verbatim>\<open>te.h\<close> (the read of a
  tensor and the reduction), or an operator over such. \<open>T_Load\<close> is the TIR load of a buffer.
\<close>

datatype 'd te_expr =
    T_Null
  | T_Int int DataType
  | T_Float 'd DataType
  | T_Var tir_var
  | T_Bin bop "'d te_expr" "'d te_expr"
  | T_Not "'d te_expr"
  | T_Load tir_var "'d te_expr" "'d te_expr"
  | T_Call DataType string "'d te_expr list"
  | T_Select "'d te_expr" "'d te_expr" "'d te_expr"
  | ProducerLoad "'d te_tensor" "'d te_expr list"
  | Reduce "'d te_iter_var list" "'d te_expr list" ReduceType
and 'd te_tensor =
    NullTensor
  | Tensor nat string "'d PrimExpr list" DataType "'d te_operation" int
and 'd te_operation =
    NullOp
  | PlaceholderOp nat string "'d PrimExpr list" DataType
  | ComputeOp nat string string "tir_var list" "'d te_iter_var list" "'d te_expr list"
      "'d PrimExpr list"

text \<open>The fields of a tensor; reading one of an undefined tensor is an error of the caller.\<close>

fun t_defined :: "'d te_tensor \<Rightarrow> bool" where
  "t_defined NullTensor = False" | "t_defined (Tensor _ _ _ _ _ _) = True"

fun t_addr :: "'d te_tensor \<Rightarrow> nat option" where
  "t_addr NullTensor = None" | "t_addr (Tensor a _ _ _ _ _) = Some a"

fun t_name :: "'d te_tensor \<Rightarrow> string" where
  "t_name NullTensor = []" | "t_name (Tensor _ n _ _ _ _) = n"

fun t_shape :: "'d te_tensor \<Rightarrow> 'd PrimExpr list" where
  "t_shape NullTensor = []" | "t_shape (Tensor _ _ sh _ _ _) = sh"

fun t_dtype :: "'d te_tensor \<Rightarrow> DataType" where
  "t_dtype NullTensor = dt_Void" | "t_dtype (Tensor _ _ _ dt _ _) = dt"

fun t_op :: "'d te_tensor \<Rightarrow> 'd te_operation" where
  "t_op NullTensor = NullOp" | "t_op (Tensor _ _ _ _ op _) = op"

fun op_addr :: "'d te_operation \<Rightarrow> nat option" where
  "op_addr NullOp = None"
| "op_addr (PlaceholderOp a _ _ _) = Some a"
| "op_addr (ComputeOp a _ _ _ _ _ _) = Some a"

fun oper_name :: "'d te_operation \<Rightarrow> string" where
  "oper_name NullOp = []"
| "oper_name (PlaceholderOp _ n _ _) = n"
| "oper_name (ComputeOp _ n _ _ _ _ _) = n"

fun is_compute :: "'d te_operation \<Rightarrow> bool" where
  "is_compute (ComputeOp _ _ _ _ _ _ _) = True" | "is_compute _ = False"

fun is_placeholder :: "'d te_operation \<Rightarrow> bool" where
  "is_placeholder (PlaceholderOp _ _ _ _) = True" | "is_placeholder _ = False"

text \<open>The type of a node; that of a reduction without a source is never set.\<close>

fun te_dtype :: "'d te_expr \<Rightarrow> DataType" where
  "te_dtype T_Null = dt_Void"
| "te_dtype (T_Int v dt) = dt"
| "te_dtype (T_Float x dt) = dt"
| "te_dtype (T_Var v) = vdtype v"
| "te_dtype (T_Bin op a b) = (if is_arith op then te_dtype a else dt_Bool 1)"
| "te_dtype (T_Not a) = dt_Bool 1"
| "te_dtype (T_Load b i p) = vdtype b"
| "te_dtype (T_Call dt f as) = dt"
| "te_dtype (T_Select c t f) = te_dtype t"
| "te_dtype (ProducerLoad t is) = t_dtype t"
| "te_dtype (Reduce ax [] ty) = dt_Void"
| "te_dtype (Reduce ax (s # ss) ty) = te_dtype s"

text \<open>\<^verbatim>\<open>virtual int num_outputs()\<close> of the two operation classes.\<close>

fun num_outputs :: "'d te_operation \<Rightarrow> nat" where
  "num_outputs NullOp = 0"
| "num_outputs (PlaceholderOp _ _ _ _) = 1"
| "num_outputs (ComputeOp _ _ _ _ _ bd _) = length bd"

fun output_dtype :: "'d te_operation \<Rightarrow> nat \<Rightarrow> DataType res" where
  "output_dtype NullOp i = Inl OutOfRange"
| "output_dtype (PlaceholderOp _ _ _ dt) i = Inr dt"
| "output_dtype (ComputeOp _ _ _ _ _ bd _) i =
     (if i < length bd then Inr (te_dtype (bd ! i)) else Inl OutOfRange)"

fun output_shape :: "'d te_operation \<Rightarrow> nat \<Rightarrow> 'd PrimExpr list" where
  "output_shape NullOp i = []"
| "output_shape (PlaceholderOp _ _ sh _) i = sh"
| "output_shape (ComputeOp _ _ _ _ _ _ sh) i = sh"

text \<open>
  The constants of type \<^verbatim>\<open>double\<close> the tensor-level code names: both infinities and the
  literal \<^verbatim>\<open>-1e30\<close>.
\<close>

record 'd te_host = "'d host" +
  dbl_neg_inf :: 'd
  dbl_pos_inf :: 'd
  dbl_m1e30 :: 'd

section \<open>TIR expressions as tensor expressions\<close>

text \<open>A TIR expression, such as a dimension, used inside the body of a computed tensor.\<close>

fun te_of :: "'d PrimExpr \<Rightarrow> 'd te_expr" where
  "te_of NullExpr = T_Null"
| "te_of (IntImm v dt) = T_Int v dt"
| "te_of (FloatImm x dt) = T_Float x dt"
| "te_of (VarE v) = T_Var v"
| "te_of (Bin op a b) = T_Bin op (te_of a) (te_of b)"
| "te_of (NotE a) = T_Not (te_of a)"
| "te_of (Load b i p) = T_Load b (te_of i) (te_of p)"
| "te_of (Call dt f as) = T_Call dt f (map te_of as)"
| "te_of (Select c t f) = T_Select (te_of c) (te_of t) (te_of f)"

lemma te_dtype_te_of [simp]: "te_dtype (te_of e) = dtype e"
  by (induction e) auto

section \<open>Construction\<close>

type_synonym 'a alloc = "nat \<Rightarrow> ('a \<times> nat) res"

definition te_ret :: "'a \<Rightarrow> 'a alloc" where
  "te_ret x = (\<lambda>n. Inr (x, n))"

definition te_bind :: "'a alloc \<Rightarrow> ('a \<Rightarrow> 'b alloc) \<Rightarrow> 'b alloc" where
  "te_bind m f = (\<lambda>n. sbind (m n) (\<lambda>(x, n'). f x n'))"

definition Tensor_new ::
  "'d PrimExpr list \<Rightarrow> DataType \<Rightarrow> 'd te_operation \<Rightarrow> int \<Rightarrow> 'd te_tensor alloc" where
  "Tensor_new shape dt op value_index = (\<lambda>n.
     Inr (Tensor n (oper_name op @ (if num_outputs op > 1 then ''.v'' @ to_string value_index else []))
            shape dt op value_index, Suc n))"

definition Var_new :: "string \<Rightarrow> DataType \<Rightarrow> tir_var alloc" where
  "Var_new name dt = (\<lambda>n. Inr (\<lparr>vid = n, name_hint = name, vdtype = dt\<rparr>, Suc n))"

definition IterVar_new ::
  "'d PrimExpr \<Rightarrow> 'd PrimExpr \<Rightarrow> IterVarType \<Rightarrow> string \<Rightarrow> string \<Rightarrow> 'd te_iter_var alloc" where
  "IterVar_new mn ext ty tag name =
     te_bind (Var_new name (dt_Int 32 1)) (\<lambda>v n.
       Inr (\<lparr>iv_addr = n, iv_var = v, iv_min = mn, iv_extent = ext, iv_type = ty,
             iv_thread_tag = tag\<rparr>, Suc n))"

definition reduce_axis :: "'d PrimExpr \<Rightarrow> 'd PrimExpr \<Rightarrow> string \<Rightarrow> 'd te_iter_var alloc" where
  "reduce_axis mn ext name = IterVar_new mn ext kCommReduce [] name"

definition thread_axis :: "'d PrimExpr \<Rightarrow> string \<Rightarrow> 'd te_iter_var alloc" where
  "thread_axis dm tag = IterVar_new (IntImm 0 (dt_Int 32 1)) dm kThreadIndex tag tag"

definition te_sum :: "'d te_expr \<Rightarrow> 'd te_iter_var list \<Rightarrow> 'd te_expr" where
  "te_sum e ax = Reduce ax [e] kSum"

definition te_max :: "'d te_expr \<Rightarrow> 'd te_iter_var list \<Rightarrow> 'd te_expr" where
  "te_max e ax = Reduce ax [e] kMax"

definition te_min :: "'d te_expr \<Rightarrow> 'd te_iter_var list \<Rightarrow> 'd te_expr" where
  "te_min e ax = Reduce ax [e] kMin"

text \<open>The axes a body reduces over, each once, in the order they are met.\<close>

definition add_axis :: "'d te_iter_var \<Rightarrow> 'd te_iter_var list \<Rightarrow> 'd te_iter_var list" where
  "add_axis ax found = (if \<exists>x \<in> set found. iv_addr x = iv_addr ax then found else found @ [ax])"

fun find_reduce :: "'d te_expr \<Rightarrow> 'd te_iter_var list \<Rightarrow> 'd te_iter_var list" where
  "find_reduce (Reduce ax src ty) acc = fold find_reduce src (fold add_axis ax acc)"
| "find_reduce (T_Bin op a b) acc = find_reduce b (find_reduce a acc)"
| "find_reduce (T_Call dt f as) acc = fold find_reduce as acc"
| "find_reduce (T_Select c t f) acc = find_reduce f (find_reduce t (find_reduce c acc))"
| "find_reduce (T_Not a) acc = find_reduce a acc"
| "find_reduce (ProducerLoad t is) acc = fold find_reduce is acc"
| "find_reduce _ acc = acc"

definition ComputeOp_new ::
  "string \<Rightarrow> string \<Rightarrow> tir_var list \<Rightarrow> 'd te_expr list \<Rightarrow> 'd PrimExpr list \<Rightarrow>
     'd te_operation alloc" where
  "ComputeOp_new name tag axis bd shape = (\<lambda>n.
     Inr (ComputeOp n name tag axis (fold find_reduce bd []) bd shape, Suc n))"

definition placeholder :: "'d PrimExpr list \<Rightarrow> DataType \<Rightarrow> string \<Rightarrow> 'd te_tensor alloc" where
  "placeholder shape dt name = (\<lambda>n. Tensor_new shape dt (PlaceholderOp n name shape dt) 0 (Suc n))"

text \<open>The fresh axis variables of \<^verbatim>\<open>compute\<close>, one for each dimension.\<close>

fun new_axes :: "nat \<Rightarrow> nat \<Rightarrow> tir_var list alloc" where
  "new_axes i 0 = te_ret []"
| "new_axes i (Suc k) =
     te_bind (Var_new (''ax'' @ show_nat i) (dt_Int 32 1)) (\<lambda>v.
     te_bind (new_axes (Suc i) k) (\<lambda>vs. te_ret (v # vs)))"

definition compute ::
  "'d PrimExpr list \<Rightarrow> (tir_var list \<Rightarrow> 'd te_expr res) \<Rightarrow> string \<Rightarrow> string \<Rightarrow> 'd te_tensor alloc" where
  "compute shape fcompute name tag =
     te_bind (new_axes 0 (length shape)) (\<lambda>axis n.
       sbind (fcompute axis) (\<lambda>bd.
       te_bind (ComputeOp_new name tag axis [bd] shape) (\<lambda>op.
         Tensor_new shape (te_dtype bd) op 0) n))"

section \<open>Facts about construction\<close>

lemma te_bind_Inr [sbind_simps]:
  "te_bind m f n = Inr (y, n'') \<longleftrightarrow> (\<exists>x n'. m n = Inr (x, n') \<and> f x n' = Inr (y, n''))"
  by (auto simp: te_bind_def sbind_simps)

lemma te_ret_Inr [sbind_simps]: "te_ret x n = Inr (y, n') \<longleftrightarrow> y = x \<and> n' = n"
  by (auto simp: te_ret_def)

definition axis_var :: "nat \<Rightarrow> nat \<Rightarrow> nat \<Rightarrow> tir_var" where
  "axis_var n i j = \<lparr>vid = n + j, name_hint = ''ax'' @ show_nat (i + j), vdtype = dt_Int 32 1\<rparr>"

lemma axis_var_simps [simp]:
  "vid (axis_var n i j) = n + j" "vdtype (axis_var n i j) = dt_Int 32 1"
  by (simp_all add: axis_var_def)

lemma new_axes_eq: "new_axes i k n = Inr (map (axis_var n i) [0..<k], n + k)"
proof (induction k arbitrary: i n)
  case (Suc k)
  have "map (axis_var n i) [0..<Suc k] = axis_var n i 0 # map (axis_var (Suc n) (Suc i)) [0..<k]"
    by (rule nth_equalityI) (auto simp: axis_var_def nth_Cons nth_append simp del: upt_Suc split: nat.splits)
  moreover have "\<lparr>vid = n, name_hint = ''ax'' @ show_nat i, vdtype = dt_Int 32 1\<rparr> = axis_var n i 0"
    by (simp add: axis_var_def)
  ultimately show ?case
    by (simp add: te_bind_def Var_new_def Suc te_ret_def del: upt_Suc)
qed (simp add: te_ret_def)

text \<open>The tensor \<^verbatim>\<open>compute\<close> returns, with the addresses it has taken.\<close>

lemma compute_eq:
  "compute shape f name tag n =
     (let axis = map (axis_var n 0) [0..<length shape]; k = n + length shape in
      sbind (f axis) (\<lambda>bd. Inr (Tensor (Suc k) name shape (te_dtype bd)
        (ComputeOp k name tag axis (find_reduce bd []) [bd] shape) 0, k + 2)))"
  by (cases "f (map (axis_var n 0) [0..<length shape])")
    (simp_all add: compute_def te_bind_def new_axes_eq ComputeOp_new_def Tensor_new_def Let_def)

lemma placeholder_eq:
  "placeholder shape dt name n =
     Inr (Tensor (Suc n) name shape dt (PlaceholderOp n name shape dt) 0, n + 2)"
  by (simp add: placeholder_def Tensor_new_def)

lemma reduce_axis_eq:
  "reduce_axis mn ext name n =
     Inr (\<lparr>iv_addr = Suc n, iv_var = \<lparr>vid = n, name_hint = name, vdtype = dt_Int 32 1\<rparr>,
           iv_min = mn, iv_extent = ext, iv_type = kCommReduce, iv_thread_tag = []\<rparr>, n + 2)"
  by (simp add: reduce_axis_def IterVar_new_def te_bind_def Var_new_def)

end
