(* ===== verification/Lower_TIR.thy ===== *)
theory Lower_TIR
  imports TE_Graph Pass_Context
begin

text \<open>
  The lowering of a Relay function to a TIR function, \<^verbatim>\<open>src/relay/backend/lower.cc\<close>: a converter
  turns the Relay graph into tensors with the lowering hooks of the operators, the operations are
  sorted so that each follows those it reads, and every computed tensor becomes a loop nest that
  stores its elements into a buffer. The hooks are found through the operator registry, a
  parameter here (\<open>Topi_Ops\<close> models the hooks of the repository). Spans and IR dumps, which only
  report, are left out.
\<close>

definition IsDeviceCommunicationOpName :: "string \<Rightarrow> bool" where
  "IsDeviceCommunicationOpName op_name \<longleftrightarrow> prefix ''device.'' op_name"

definition DTypeFromString :: "string \<Rightarrow> DataType res" where
  "DTypeFromString s =
     (if s = ''float32'' then Inr (dt_Float 32 1)
      else if s = ''float64'' then Inr (dt_Float 64 1)
      else if s = ''int32'' then Inr (dt_Int 32 1)
      else if s = ''int64'' then Inr (dt_Int 64 1)
      else if s = ''int8'' then Inr (dt_Int 8 1)
      else if s = ''uint8'' then Inr (dt_UInt 8 1)
      else if s = ''bool'' then Inr (dt_Bool 1)
      else throw (''Unsupported dtype string: '' @ s))"

definition DTypeFromDL :: "DataType \<Rightarrow> DataType res" where
  "DTypeFromDL dl =
     (if code dl = 2 then Inr (dt_Float (bits dl) (lanes dl))
      else if code dl = 0 then Inr (dt_Int (bits dl) (lanes dl))
      else if code dl = 1 then Inr (dt_UInt (bits dl) (lanes dl))
      else throw ''Unsupported DLDataType code in constant'')"

definition ShapeFromTensorType :: "int list \<Rightarrow> 'd PrimExpr list" where
  "ShapeFromTensorType shape = map (\<lambda>d. IntImm d (dt_Int 64 1)) shape"

text \<open>The loop of \<^verbatim>\<open>FlattenIndex\<close> from the second index on.\<close>

fun flatten_from :: "'d PrimExpr \<Rightarrow> 'd PrimExpr list \<Rightarrow> 'd PrimExpr list \<Rightarrow> 'd PrimExpr" where
  "flatten_from lin (i # is) (d # ds) = flatten_from (Bin AddOp (Bin MulOp lin d) i) is ds"
| "flatten_from lin _ _ = lin"

definition FlattenIndex :: "'d PrimExpr list \<Rightarrow> 'd PrimExpr list \<Rightarrow> 'd PrimExpr res" where
  "FlattenIndex indices shape =
     (if shape = [] then Inr (IntImm 0 (dt_Int 32 1))
      else if length indices \<noteq> length shape then throw ''Index rank mismatch during flattening''
      else Inr (flatten_from (hd indices) (tl indices) (tl shape)))"

text \<open>
  The literal a reduction starts from. The source writes the floating-point ones as \<^verbatim>\<open>float\<close> or
  \<^verbatim>\<open>double\<close> by the width; zero and the infinities are the same number in both.
\<close>

definition MakeIdentityForReduce :: "'d te_host \<Rightarrow> ReduceType \<Rightarrow> DataType \<Rightarrow> 'd PrimExpr" where
  "MakeIdentityForReduce H rtype dt =
     (case rtype of
        kSum \<Rightarrow> if code dt = 2 then FloatImm (dbl_of_int H 0) dt else IntImm 0 dt
      | kMax \<Rightarrow> if code dt = 2 then FloatImm (dbl_neg_inf H) dt else IntImm (- (2 ^ 63)) dt
      | kMin \<Rightarrow> if code dt = 2 then FloatImm (dbl_pos_inf H) dt else IntImm (2 ^ 63 - 1) dt)"

fun RelayNodeKind :: "'d rexpr \<Rightarrow> string" where
  "RelayNodeKind RUndef = ''<undefined>''"
| "RelayNodeKind (RVar _) = ''Var''"
| "RelayNodeKind (RConst _ _) = ''Constant''"
| "RelayNodeKind (RCall _ _ _ _) = ''Call''"
| "RelayNodeKind (RFunction _ _ _) = ''Function''"
| "RelayNodeKind (RTuple _ _) = ''Tuple''"
| "RelayNodeKind (RTupleGetItem _ _ _) = ''TupleGetItem''"
| "RelayNodeKind (RIf _ _ _ _) = ''If''"
| "RelayNodeKind (RLet _ _ _ _) = ''Let''"
| "RelayNodeKind (ROp _ _) = ''Op''"
| "RelayNodeKind (ROther _) = ''<unknown>''"

section \<open>From Relay to tensors\<close>

text \<open>
  The hooks registered for each operator name, \<^verbatim>\<open>FRelayToTE\<close> and \<^verbatim>\<open>FRelayToTEMulti\<close> of
  \<^verbatim>\<open>include/relay/op_attr_types.h\<close>. They are typed here, so the failing \<^verbatim>\<open>any_cast\<close> branches of
  the source have no counterpart.
\<close>

record 'd registry =
  FRelayToTE :: "string \<Rightarrow> (Attrs \<Rightarrow> 'd te_tensor list \<Rightarrow> RType \<Rightarrow> 'd te_tensor alloc) option"
  FRelayToTEMulti ::
    "string \<Rightarrow> (Attrs \<Rightarrow> 'd te_tensor list \<Rightarrow> RType \<Rightarrow> 'd te_tensor list alloc) option"

definition InvokeRelayToTE ::
  "'d registry \<Rightarrow> string \<Rightarrow> Attrs \<Rightarrow> 'd te_tensor list \<Rightarrow> RType \<Rightarrow> 'd te_tensor list alloc" where
  "InvokeRelayToTE reg name ats inputs out_type n =
     (case out_type of
        UndefinedType \<Rightarrow> throw (''LowerToTIR requires checked_type for op: '' @ name)
      | TensorType _ _ \<Rightarrow>
          (case FRelayToTE reg name of
             None \<Rightarrow> throw (''No FRelayToTE registered for op: '' @ name)
           | Some lower \<Rightarrow> sbind (lower ats inputs out_type n) (\<lambda>(t, n). Inr ([t], n)))
      | TupleType flds \<Rightarrow>
          (case FRelayToTEMulti reg name of
             None \<Rightarrow> throw (''No FRelayToTEMulti registered for tuple-output op: '' @ name @
                            '', got '' @ TypeToString out_type)
           | Some lower \<Rightarrow> sbind (lower ats inputs out_type n) (\<lambda>(ts, n).
               if length ts \<noteq> length flds
               then throw (''FRelayToTEMulti output count mismatch for op: '' @ name @
                      '', expected '' @ show_nat (length flds) @ '', got '' @ show_nat (length ts))
               else Inr (ts, n))))"

text \<open>The members of \<^verbatim>\<open>RelayToTEConverter\<close> and the next free address.\<close>

record 'd ConvState =
  cv_memo :: "('d rexpr \<times> 'd te_tensor list) list"
  cv_vars :: "(nat \<times> 'd te_tensor) list"
  cv_inputs :: "'d te_tensor list"
  cv_constants :: "'d te_tensor list"
  cv_counter :: nat
  cv_next :: nat

definition add_param :: "RVarNode \<Rightarrow> 'd ConvState \<Rightarrow> 'd ConvState res" where
  "add_param p s =
     (case rv_annotation p of
        TensorType shape dtype_str \<Rightarrow>
          sbind (DTypeFromString dtype_str) (\<lambda>dt.
          sbind (placeholder (ShapeFromTensorType shape) dt (rv_name p) (cv_next s)) (\<lambda>(t, n).
          Inr (s\<lparr>cv_vars := AList.update (rv_addr p) t (cv_vars s),
                 cv_inputs := cv_inputs s @ [t], cv_next := n\<rparr>)))
      | _ \<Rightarrow> throw (''LowerToTIR requires TensorType on function parameters: '' @ rv_name p))"

definition RelayToTEConverter :: "RVarNode list \<Rightarrow> nat \<Rightarrow> 'd ConvState res" where
  "RelayToTEConverter ps n = sfold add_param ps
     \<lparr>cv_memo = [], cv_vars = [], cv_inputs = [], cv_constants = [], cv_counter = 0, cv_next = n\<rparr>"

definition VisitConstant_te ::
  "'d NDArray option \<Rightarrow> 'd ConvState \<Rightarrow> ('d te_tensor list \<times> 'd ConvState) res" where
  "VisitConstant_te data s =
     (case data of
        None \<Rightarrow> Inl OutOfRange
      | Some d \<Rightarrow>
          sbind (DTypeFromDL (nd_dtype d)) (\<lambda>dt.
          sbind (placeholder (ShapeFromTensorType (nd_shape d)) dt
                   (''const_'' @ show_nat (cv_counter s)) (cv_next s)) (\<lambda>(t, n).
          Inr ([t], s\<lparr>cv_constants := cv_constants s @ [t], cv_counter := Suc (cv_counter s),
                      cv_next := n\<rparr>))))"

text \<open>
  \<^verbatim>\<open>Convert\<close>, with the visits of the node classes; \<open>ConvertArgs\<close> is the loop over the arguments
  of a call and \<open>ConvertFields\<close> that over the fields of a tuple. \<open>ck\<close> reads the checked type of a
  node. An undefined reference yields no tensor.
\<close>

fun Convert :: "'d registry \<Rightarrow> (nat \<Rightarrow> RType) \<Rightarrow> 'd rexpr \<Rightarrow> 'd ConvState \<Rightarrow>
    ('d te_tensor list \<times> 'd ConvState) res"
and ConvertArgs :: "'d registry \<Rightarrow> (nat \<Rightarrow> RType) \<Rightarrow> 'd rexpr list \<Rightarrow> 'd ConvState \<Rightarrow>
    ('d te_tensor list \<times> 'd ConvState) res"
and ConvertFields :: "'d registry \<Rightarrow> (nat \<Rightarrow> RType) \<Rightarrow> nat \<Rightarrow> 'd rexpr list \<Rightarrow> 'd ConvState \<Rightarrow>
    ('d te_tensor list \<times> 'd ConvState) res"
where
  "Convert reg ck e s =
     (case map_of (cv_memo s) e of
        Some ts \<Rightarrow> Inr (ts, s)
      | None \<Rightarrow>
          sbind (case e of
              RUndef \<Rightarrow> Inr ([], s)
            | RConst a data \<Rightarrow> VisitConstant_te data s
            | RVar v \<Rightarrow>
                (case map_of (cv_vars s) (rv_addr v) of
                   None \<Rightarrow> throw (''Unexpected free var in LowerToTIR: '' @ rv_name v)
                 | Some t \<Rightarrow> Inr ([t], s))
            | RCall a callee args ats \<Rightarrow>
                sbind (ConvertArgs reg ck args s) (\<lambda>(inputs, s).
                case callee of
                  ROp _ name \<Rightarrow>
                    if IsDeviceCommunicationOpName name
                    then throw (''LowerToTIR does not lower device communication ops. '' @
                                ''Run LowerRelayToExecPlanPass before LowerToTIR.'')
                    else sbind (InvokeRelayToTE reg name ats inputs (ck a) (cv_next s)) (\<lambda>(ts, n).
                           Inr (ts, s\<lparr>cv_next := n\<rparr>))
                | _ \<Rightarrow> throw ''Call.op is not OpNode in LowerToTIR'')
            | RTuple a flds \<Rightarrow> ConvertFields reg ck 0 flds s
            | RTupleGetItem a tup idx \<Rightarrow>
                sbind (Convert reg ck tup s) (\<lambda>(ts, s).
                if idx < 0 \<or> int (length ts) \<le> idx
                then throw (''TupleGetItem index out of range during LowerToTIR: '' @
                            to_string idx @ '', tuple size '' @ show_nat (length ts))
                else Inr ([ts ! nat idx], s))
            | _ \<Rightarrow> throw (''Unsupported Relay node in LowerToTIR: '' @ RelayNodeKind e))
          (\<lambda>(ts, s). Inr (ts, s\<lparr>cv_memo := (e, ts) # cv_memo s\<rparr>)))"
| "ConvertArgs reg ck [] s = Inr ([], s)"
| "ConvertArgs reg ck (e # es) s =
     sbind (Convert reg ck e s) (\<lambda>(ts, s).
     sbind (ConvertArgs reg ck es s) (\<lambda>(us, s). Inr (ts @ us, s)))"
| "ConvertFields reg ck i [] s = Inr ([], s)"
| "ConvertFields reg ck i (e # es) s =
     sbind (Convert reg ck e s) (\<lambda>(ts, s).
     if length ts \<noteq> 1
     then throw (''LowerToTIR does not support nested tuple field '' @ show_nat i @
                 ''; field produced '' @ show_nat (length ts) @ '' tensors'')
     else sbind (ConvertFields reg ck (Suc i) es s) (\<lambda>(us, s). Inr (hd ts # us, s)))"

declare Convert.simps [simp del]

section \<open>The order of the operations\<close>

fun FindProducerLoads :: "'d te_expr \<Rightarrow> 'd te_tensor list" where
  "FindProducerLoads (ProducerLoad t is) = t # concat (map FindProducerLoads is)"
| "FindProducerLoads (Reduce ax src ty) = concat (map FindProducerLoads src)"
| "FindProducerLoads (T_Bin op a b) = FindProducerLoads a @ FindProducerLoads b"
| "FindProducerLoads (T_Call dt f as) = concat (map FindProducerLoads as)"
| "FindProducerLoads (T_Select c t f) =
     FindProducerLoads c @ FindProducerLoads t @ FindProducerLoads f"
| "FindProducerLoads (T_Not a) = FindProducerLoads a"
| "FindProducerLoads (T_Load b i p) = FindProducerLoads i @ FindProducerLoads p"
| "FindProducerLoads _ = []"

lemma size_list_member: "x \<in> set xs \<Longrightarrow> f x < size_list f xs"
  by (induction xs) auto

lemma FindProducerLoads_size: "t \<in> set (FindProducerLoads e) \<Longrightarrow> size t < size e"
proof (induction e rule: FindProducerLoads.induct)
  case (1 u ixs)
  show ?case
  proof (cases "t = u")
    case False
    then obtain e where "e \<in> set ixs" "size t < size e" using 1 by auto
    then show ?thesis using size_list_member [of e ixs size] by simp
  qed simp
next
  case (2 ax src ty)
  then obtain e where "e \<in> set src" "size t < size e" by auto
  then show ?case using size_list_member [of e src size] by simp
next
  case (4 dt f args)
  then obtain e where "e \<in> set args" "size t < size e" by auto
  then show ?case using size_list_member [of e args size] by simp
qed force+

fun op_body :: "'d te_operation \<Rightarrow> 'd te_expr list" where
  "op_body (ComputeOp _ _ _ _ _ bd _) = bd" | "op_body _ = []"

definition op_deps :: "'d te_operation \<Rightarrow> 'd te_tensor list" where
  "op_deps op = concat (map FindProducerLoads (op_body op))"

lemma op_deps_size: "t \<in> set (op_deps op) \<Longrightarrow> size t < size op"
proof (cases op)
  case (ComputeOp a n tag axis rax bd sh)
  assume "t \<in> set (op_deps op)"
  then obtain e where "e \<in> set bd" "size t < size e"
    using FindProducerLoads_size by (auto simp: op_deps_def ComputeOp)
  then show ?thesis using size_list_member [of e bd size] by (simp add: ComputeOp)
qed (auto simp: op_deps_def)

record 'd TopoState =
  visited :: "nat set"
  op_output :: "nat \<Rightarrow> 'd te_tensor option"
  topo :: "'d te_operation list"

function CollectOpsDFS :: "'d te_tensor \<Rightarrow> 'd TopoState \<Rightarrow> 'd TopoState" where
  "CollectOpsDFS t s =
     (case op_addr (t_op t) of
        None \<Rightarrow> s
      | Some p \<Rightarrow>
          if p \<in> visited s then s
          else let s' = fold CollectOpsDFS (op_deps (t_op t)) s in
            s'\<lparr>visited := insert p (visited s'), op_output := (op_output s')(p \<mapsto> t),
               topo := topo s' @ [t_op t]\<rparr>)"
  by pat_completeness auto
termination
proof (relation "measure (\<lambda>(t, s). size t)", simp)
  fix t :: "'a te_tensor" and s :: "'a TopoState" and p x y
  assume "x \<in> set (op_deps (t_op t))"
  then show "((x, y), (t, s)) \<in> measure (\<lambda>(t, s). size t)"
    using op_deps_size [of x "t_op t"] by (cases t) (auto simp: op_deps_def)
qed

declare CollectOpsDFS.simps [simp del]

section \<open>Lowering an operation\<close>

lemma smap_cong [fundef_cong]:
  "xs = ys \<Longrightarrow> (\<And>x. x \<in> set ys \<Longrightarrow> f x = g x) \<Longrightarrow> smap f xs = smap g ys"
proof (induction xs arbitrary: ys)
  case (Cons x xs)
  then obtain zs where "ys = x # zs" "xs = zs" by auto
  then show ?case using Cons.IH [of zs] Cons.prems(2) by simp
qed simp

definition buffer_of :: "(nat \<Rightarrow> tir_var option) \<Rightarrow> 'd te_tensor \<Rightarrow> tir_var option" where
  "buffer_of bv t = Option.bind (t_addr t) bv"

text \<open>\<^verbatim>\<open>ExprLowerer::Lower\<close>; \<open>bv\<close> is the map from tensors to their buffer variables.\<close>

fun Lower :: "(nat \<Rightarrow> tir_var option) \<Rightarrow> 'd te_expr \<Rightarrow> 'd PrimExpr res" where
  "Lower bv T_Null = Inr NullExpr"
| "Lower bv (ProducerLoad t is) =
     (case buffer_of bv t of
        None \<Rightarrow> throw ''Missing buffer var for tensor in ProducerLoad''
      | Some b \<Rightarrow>
          sbind (smap (Lower bv) is) (\<lambda>lowered.
          sbind (FlattenIndex lowered (t_shape t)) (\<lambda>lin. Inr (Load b lin NullExpr))))"
| "Lower bv (T_Bin op a b) = sbind (Lower bv a) (\<lambda>a. sbind (Lower bv b) (\<lambda>b. Inr (Bin op a b)))"
| "Lower bv (T_Not a) = sbind (Lower bv a) (\<lambda>a. Inr (NotE a))"
| "Lower bv (T_Select c t f) =
     sbind (Lower bv c) (\<lambda>c. sbind (Lower bv t) (\<lambda>t. sbind (Lower bv f) (\<lambda>f. Inr (Select c t f))))"
| "Lower bv (T_Call dt f as) = sbind (smap (Lower bv) as) (\<lambda>as. Inr (Call dt f as))"
| "Lower bv (T_Load b i p) = sbind (Lower bv p) (\<lambda>p. sbind (Lower bv i) (\<lambda>i. Inr (Load b i p)))"
| "Lower bv (Reduce ax src ty) = throw ''Reduce must be lowered at statement level''"
| "Lower bv (T_Int v dt) = Inr (IntImm v dt)"
| "Lower bv (T_Float x dt) = Inr (FloatImm x dt)"
| "Lower bv (T_Var v) = Inr (VarE v)"

text \<open>An operation with more axes than dimensions is read past the end of its shape.\<close>

fun WrapDataLoops :: "tir_var list \<Rightarrow> 'd PrimExpr list \<Rightarrow> 'd Stmt \<Rightarrow> 'd Stmt res" where
  "WrapDataLoops [] shape s = Inr s"
| "WrapDataLoops (v # vs) [] s = Inl OutOfRange"
| "WrapDataLoops (v # vs) (d # ds) s =
     sbind (WrapDataLoops vs ds s) (\<lambda>s. Inr (For v (IntImm 0 (dt_Int 32 1)) d Serial s))"

definition wrap_reduce_loops :: "'d te_iter_var list \<Rightarrow> 'd Stmt \<Rightarrow> 'd Stmt" where
  "wrap_reduce_loops rx s = foldr (\<lambda>r s. For (iv_var r) (iv_min r) (iv_extent r) Serial s) rx s"

fun reduce_bop :: "ReduceType \<Rightarrow> bop" where
  "reduce_bop kSum = AddOp" | "reduce_bop kMax = MaxOp" | "reduce_bop kMin = MinOp"

definition LowerComputeStmt ::
  "'d te_host \<Rightarrow> (nat \<Rightarrow> tir_var option) \<Rightarrow> 'd te_tensor \<Rightarrow> 'd Stmt res" where
  "LowerComputeStmt H bv out =
     (case t_op out of
        ComputeOp _ _ _ axis _ bd shape \<Rightarrow>
          if bd = [] then throw ''ComputeOp body is empty''
          else if length bd \<noteq> 1
          then throw (''LowerComputeStmt does not support multi-body TE compute for tensor '' @
                 [CHR 0x27] @ t_name out @ [CHR 0x27] @ '': body_count='' @ show_nat (length bd))
          else (case buffer_of bv out of
            None \<Rightarrow> throw ''Missing output buffer var for compute tensor''
          | Some out_var \<Rightarrow>
              sbind (FlattenIndex (map VarE axis) shape) (\<lambda>out_index.
              case hd bd of
                Reduce rx srcs ty \<Rightarrow>
                  if length srcs \<noteq> 1 then throw ''Only single-source reduce is supported''
                  else
                    sbind (Lower bv (hd srcs)) (\<lambda>src.
                    let init = Store out_var (MakeIdentityForReduce H ty (t_dtype out)) out_index NullExpr;
                        update = Store out_var
                          (Bin (reduce_bop ty) (Load out_var out_index NullExpr) src) out_index NullExpr
                    in WrapDataLoops axis shape (SeqStmt [init, wrap_reduce_loops rx update]))
              | b \<Rightarrow>
                  sbind (Lower bv b) (\<lambda>lowered.
                    WrapDataLoops axis shape (Store out_var lowered out_index NullExpr))))
      | _ \<Rightarrow> throw ''LowerComputeStmt expects ComputeOpNode'')"

section \<open>The lowered function\<close>

text \<open>The loop that appends underscores to a name until it is free.\<close>

function free_name :: "string \<Rightarrow> string set \<Rightarrow> string" where
  "free_name name used =
     (if finite used \<and> name \<in> used then free_name (name @ ''_'') used else name)"
  by pat_completeness auto
termination
proof (relation "measure (\<lambda>(name, used). card {u \<in> used. length name \<le> length u})", simp)
  fix name :: string and used :: "string set"
  assume a: "finite used \<and> name \<in> used"
  let ?A = "{u \<in> used. length (name @ ''_'') \<le> length u}" and ?B = "{u \<in> used. length name \<le> length u}"
  have "name \<in> ?B" "name \<notin> ?A" "?A \<subseteq> ?B" using a by auto
  then have "?A \<subset> ?B" by blast
  then have "card ?A < card ?B" using a by (intro psubset_card_mono) simp_all
  then show "((name @ ''_'', used), (name, used)) \<in>
      measure (\<lambda>(name, used). card {u \<in> used. length name \<le> length u})" by simp
qed

declare free_name.simps [simp del]

definition MakeOutputVarName :: "'d te_tensor \<Rightarrow> nat \<Rightarrow> string list \<Rightarrow> string \<times> string list" where
  "MakeOutputVarName t output_index used_names =
     (let base = (if t_name t = [] then ''output'' else t_name t);
          name = base @ ''_out'' @ (if output_index \<noteq> 0 then ''_'' @ show_nat output_index else []);
          name = free_name name (set used_names)
      in (name, name # used_names))"

record 'd LowerState =
  ls_params :: "tir_var list"
  ls_buffers :: "(tir_var \<times> 'd BufferNode option) list"
  ls_bv :: "nat \<Rightarrow> tir_var option"
  ls_next :: nat

text \<open>A parameter of the function with its buffer: of an input, a constant or an output.\<close>

definition add_buffer :: "'d te_tensor \<Rightarrow> string \<Rightarrow> 'd LowerState \<Rightarrow> 'd LowerState" where
  "add_buffer t name s =
     (let v = \<lparr>vid = ls_next s, name_hint = name, vdtype = t_dtype t\<rparr>;
          buf = \<lparr>bdata = v, bdtype = t_dtype t, bshape = t_shape t, bstrides = [],
                 elem_offset = IntImm 0 (dt_Int 32 1), bname = name, data_alignment = 0,
                 offset_factor = 0\<rparr>
      in s\<lparr>ls_params := ls_params s @ [v], ls_buffers := ls_buffers s @ [(v, Some buf)],
           ls_bv := (ls_bv s)(the (t_addr t) \<mapsto> v), ls_next := Suc (ls_next s)\<rparr>)"

definition add_data :: "'d te_tensor \<Rightarrow> 'd LowerState \<Rightarrow> 'd LowerState" where
  "add_data t = add_buffer t (t_name t)"

fun add_outputs :: "nat \<Rightarrow> string list \<Rightarrow> 'd te_tensor list \<Rightarrow> 'd LowerState \<Rightarrow> 'd LowerState" where
  "add_outputs i used [] s = s"
| "add_outputs i used (t # ts) s =
     (let (name, used) = MakeOutputVarName t i used in
      add_outputs (Suc i) used ts (add_buffer t name s))"

definition add_local :: "'d te_tensor \<Rightarrow> 'd LowerState \<Rightarrow> 'd LowerState" where
  "add_local t s =
     s\<lparr>ls_bv := (ls_bv s)(the (t_addr t) \<mapsto> \<lparr>vid = ls_next s, name_hint = t_name t, vdtype = t_dtype t\<rparr>),
       ls_next := Suc (ls_next s)\<rparr>"

text \<open>The checks on the output tensors; \<open>seen\<close> lists those before, the latest first.\<close>

fun check_outputs :: "nat \<Rightarrow> (nat \<times> nat) list \<Rightarrow> 'd te_tensor list \<Rightarrow> unit res" where
  "check_outputs i seen [] = Inr ()"
| "check_outputs i seen (t # ts) =
     (case t_addr t of
        None \<Rightarrow> throw (''LowerToTIR output tensor '' @ show_nat i @ '' is undefined'')
      | Some a \<Rightarrow>
          (case map_of seen a of
             Some j \<Rightarrow> throw (''LowerToTIR does not support duplicate output tensor '' @ [CHR 0x27] @
               t_name t @ [CHR 0x27] @ '' at output '' @ show_nat i @ ''; first seen at output '' @
               show_nat j)
           | None \<Rightarrow>
               if \<not> is_compute (t_op t)
               then throw (''LowerToTIR requires output tensor '' @ show_nat i @ '' ('' @ [CHR 0x27] @
                      t_name t @ [CHR 0x27] @ '') to lower to a compute tensor'')
               else check_outputs (Suc i) ((a, i) # seen) ts))"

definition intermediate_tensors ::
  "'d te_tensor list \<Rightarrow> 'd TopoState \<Rightarrow> 'd te_tensor list" where
  "intermediate_tensors outputs topo_st =
     filter (\<lambda>t. t_addr t \<notin> set (map t_addr outputs))
       (List.map_filter (\<lambda>op. Option.bind (op_addr op) (op_output topo_st))
         (filter is_compute (topo topo_st)))"

definition lower_operation ::
  "'d te_host \<Rightarrow> (nat \<Rightarrow> tir_var option) \<Rightarrow> 'd TopoState \<Rightarrow> 'd te_operation \<Rightarrow> 'd Stmt res" where
  "lower_operation H bv topo_st op =
     (case Option.bind (op_addr op) (op_output topo_st) of
        None \<Rightarrow> throw ''Missing tensor for operation during statement lowering''
      | Some t \<Rightarrow>
          if \<not> is_compute (t_op t) then throw ''Unsupported non-compute operation in TIR lowering''
          else (case LowerComputeStmt H bv t of
                  Inl (RuntimeError m) \<Rightarrow> throw (''LowerComputeStmt failed for tensor '' @ [CHR 0x27] @
                    t_name t @ [CHR 0x27] @ '': '' @ m)
                | r \<Rightarrow> r))"

definition seq_of :: "'d Stmt list \<Rightarrow> 'd Stmt" where
  "seq_of ss = (case ss of [] \<Rightarrow> NullStmt | [s] \<Rightarrow> s | _ \<Rightarrow> SeqStmt ss)"

definition allocate_locals ::
  "(nat \<Rightarrow> tir_var option) \<Rightarrow> 'd te_tensor list \<Rightarrow> 'd Stmt \<Rightarrow> 'd Stmt" where
  "allocate_locals bv ts s =
     foldr (\<lambda>t s. Allocate (the (buffer_of bv t)) (t_dtype t) (t_shape t) (IntImm 1 (dt_Bool 1)) s) ts s"

text \<open>
  \<^verbatim>\<open>LowerToTIR\<close> on the tensors of the converter: the parameters, the statements and the
  allocations.
\<close>

definition lower_tensors ::
  "'d te_host \<Rightarrow> 'd te_tensor list \<Rightarrow> 'd te_tensor list \<Rightarrow> 'd te_tensor list \<Rightarrow> nat \<Rightarrow>
     (tir_var list \<times> (tir_var \<times> 'd BufferNode option) list \<times> 'd Stmt) res" where
  "lower_tensors H inputs constants outputs n =
     (if outputs = [] then throw ''LowerToTIR produced no output tensors''
      else sbind (check_outputs 0 [] outputs) (\<lambda>_.
      let topo_st = fold CollectOpsDFS outputs \<lparr>visited = {}, op_output = (\<lambda>_. None), topo = []\<rparr>;
          s = \<lparr>ls_params = [], ls_buffers = [], ls_bv = (\<lambda>_. None), ls_next = n\<rparr>;
          s = fold add_data constants (fold add_data inputs s);
          s = add_outputs 0 [] outputs s;
          locals = intermediate_tensors outputs topo_st;
          s = fold add_local locals s
      in sbind (smap (lower_operation H (ls_bv s) topo_st)
                 (filter (\<lambda>op. \<not> is_placeholder op) (topo topo_st))) (\<lambda>compute_seq.
         Inr (ls_params s, ls_buffers s,
              allocate_locals (ls_bv s) locals (seq_of compute_seq)))))"

definition lowered_attrs :: "nat \<Rightarrow> nat \<Rightarrow> nat \<Rightarrow> attr_map" where
  "lowered_attrs input_count constant_count output_count =
     [(''global_symbol'', AttrString ''main''), (''tir.noalias'', AttrIntImm 1),
      (''kxc.input_count'', AttrIntImm (int input_count)),
      (''kxc.constant_count'', AttrIntImm (int constant_count)),
      (''kxc.output_count'', AttrIntImm (int output_count)),
      (''kxc.output_param_start'', AttrIntImm (int (input_count + constant_count)))]"

definition LowerToTIR ::
  "'d te_host \<Rightarrow> 'd registry \<Rightarrow> device_api \<Rightarrow> ThreadContext \<Rightarrow> 'd rexpr \<Rightarrow> RelayState \<Rightarrow> nat \<Rightarrow>
     'd PrimFunc res" where
  "LowerToTIR H reg api thread func st n =
     (if func = RUndef then throw ''LowerToTIR expects a defined function''
      else sbind (InferTypePass func st) (\<lambda>(func, st).
      case func of
        RFunction _ ps bd \<Rightarrow>
          if bd = RUndef then throw ''LowerToTIR expects function body to be defined''
          else sbind (mutate_context (api, thread) st func) (\<lambda>ctx.
            let thread = snd (Scope_enter ctx thread) in
            sbind (RelayToTEConverter ps n) (\<lambda>s.
            sbind (Convert reg (checked_type st) bd s) (\<lambda>(outputs, s).
            sbind (lower_tensors H (cv_inputs s) (cv_constants s) outputs (cv_next s)) (\<lambda>(ps, bufs, bd).
            let ats = AttachPassContextAttrs
                  (lowered_attrs (length (cv_inputs s)) (length (cv_constants s)) (length outputs))
                  (Current thread)
            in Inr \<lparr>params = ps, body = bd, buffer_map = bufs, attrs = ats\<rparr>))))
      | _ \<Rightarrow> Inl OutOfRange))"

end
