(* ===== verification/TE_Semantics.thy ===== *)
theory TE_Semantics
  imports TE_Graph TIR_Semantics
begin

text \<open>
  The reference meaning of a tensor: the value of each of its elements, given the elements of
  the placeholders. It specifies, and models no code of its own. Like the meaning of TIR it is a
  checked semantics, \<open>None\<close> standing for a value a generated program may not compute; so an
  element is defined when every scalar on the way has the type its node declares, every index
  stays within its dimension and the position of the element is representable in the type of the
  index. A reduction is the fold of its operator over the reduction domain in row-major order.
\<close>

section \<open>Constant expressions and shapes\<close>

definition const_int :: "'d fp \<Rightarrow> 'd sem \<Rightarrow> 'd PrimExpr \<Rightarrow> int option" where
  "const_int F S e = Option.bind (eval F S Map.empty (\<lambda>_. None) e) int_of_val"

definition dims_of :: "'d fp \<Rightarrow> 'd sem \<Rightarrow> 'd PrimExpr list \<Rightarrow> int list option" where
  "dims_of F S shape = omap (const_int F S) shape"

fun row_from :: "int \<Rightarrow> int list \<Rightarrow> int list \<Rightarrow> int" where
  "row_from acc (i # is) (d # ds) = row_from (acc * d + i) is ds"
| "row_from acc _ _ = acc"

text \<open>The position of an element in row-major order.\<close>

definition row_major :: "int list \<Rightarrow> int list \<Rightarrow> int" where
  "row_major is ds = row_from 0 is ds"

definition in_shape :: "int list \<Rightarrow> int list \<Rightarrow> bool" where
  "in_shape is ds \<longleftrightarrow> list_all2 (\<lambda>i d. 0 \<le> i \<and> i < d) is ds"

text \<open>Every index of a shape, in row-major order.\<close>

fun all_indices :: "int list \<Rightarrow> int list list" where
  "all_indices [] = [[]]"
| "all_indices (d # ds) = concat (map (\<lambda>i. map (Cons i) (all_indices ds)) [0..d - 1])"

section \<open>Elements\<close>

fun bind_axes :: "tir_var list \<Rightarrow> int list \<Rightarrow> 'd env \<Rightarrow> 'd env" where
  "bind_axes (v # vs) (i # is) en = bind_axes vs is (en(vid v \<mapsto> VI i))"
| "bind_axes _ _ en = en"

definition reduce_start :: "'d te_host \<Rightarrow> 'd sem \<Rightarrow> ReduceType \<Rightarrow> DataType \<Rightarrow> 'd val option" where
  "reduce_start H S ty dt = Option.bind
     (chk S dt
       (case ty of
          kSum \<Rightarrow> if code dt = 2 then VF (dbl_of_int H 0) else VI 0
        | kMax \<Rightarrow> if code dt = 2 then VF (dbl_neg_inf H) else VI (- (2 ^ 63))
        | kMin \<Rightarrow> if code dt = 2 then VF (dbl_pos_inf H) else VI (2 ^ 63 - 1)))
     (chk S dt)"

fun reduce_op :: "ReduceType \<Rightarrow> bop" where
  "reduce_op kSum = AddOp" | "reduce_op kMax = MaxOp" | "reduce_op kMin = MinOp"

definition iter_range :: "'d fp \<Rightarrow> 'd sem \<Rightarrow> 'd te_iter_var \<Rightarrow> int list option" where
  "iter_range F S r =
     Option.bind (const_int F S (iv_min r)) (\<lambda>l. Option.bind (const_int F S (iv_extent r)) (\<lambda>k.
       loop_range (vdtype (iv_var r)) (VI l :: 'd val) (VI k)))"

text \<open>The fold of \<open>f\<close> over the domain of the axes, the last axis fastest.\<close>

fun reduce_over ::
  "'d fp \<Rightarrow> 'd sem \<Rightarrow> ('d env \<Rightarrow> 'v \<Rightarrow> 'v option) \<Rightarrow> 'd te_iter_var list \<Rightarrow> 'd env \<Rightarrow> 'v \<Rightarrow> 'v option"
where
  "reduce_over F S f [] en acc = f en acc"
| "reduce_over F S f (r # rs) en acc =
     Option.bind (iter_range F S r)
       (\<lambda>is. ofold (\<lambda>i acc. reduce_over F S f rs (en(vid (iv_var r) \<mapsto> VI i)) acc) is acc)"

lemma reduce_over_cong [fundef_cong]:
  assumes "rs = rs'" "en = en'" "acc = acc'" "\<And>en acc. f en acc = g en acc"
  shows "reduce_over F S f rs en acc = reduce_over F S g rs' en' acc'"
proof -
  have "f = g" using assms(4) by (intro ext) simp
  then show ?thesis using assms(1-3) by simp
qed

text \<open>One step of a reduction: the accumulator is read, combined and stored at its type.\<close>

definition reduce_step ::
  "'d fp \<Rightarrow> 'd sem \<Rightarrow> DataType \<Rightarrow> ReduceType \<Rightarrow> 'd val option \<Rightarrow> 'd val \<Rightarrow> 'd val option" where
  "reduce_step F S dt ty src acc =
     Option.bind (chk S dt acc) (\<lambda>x. Option.bind src (\<lambda>y.
     Option.bind (strict_op F (reduce_op ty) x y) (\<lambda>z. Option.bind (chk S dt z) (chk S dt))))"

text \<open>The read of a tensor with shape \<open>ds\<close> and type \<open>dt\<close> at evaluated indices.\<close>

definition read_at ::
  "'d sem \<Rightarrow> DataType \<Rightarrow> DataType \<Rightarrow> int list option \<Rightarrow> (int list \<Rightarrow> 'd val option) \<Rightarrow>
     'd val list option \<Rightarrow> 'd val option" where
  "read_at S idt dt shape elem vs =
     Option.bind (Option.bind vs (omap int_of_val)) (\<lambda>is. Option.bind shape (\<lambda>ds.
       if in_shape is ds \<and> (is = [] \<or> fits (row_major is ds) idt)
       then Option.bind (elem is) (chk S dt) else None))"

definition index_dtype :: "'d te_expr list \<Rightarrow> DataType" where
  "index_dtype is = (case is of [] \<Rightarrow> dt_Int 32 1 | i # _ \<Rightarrow> te_dtype i)"

fun te_eval :: "'d te_host \<Rightarrow> 'd sem \<Rightarrow> (nat \<Rightarrow> int list \<Rightarrow> 'd val option) \<Rightarrow> 'd env \<Rightarrow> 'd te_expr \<Rightarrow>
    'd val option"
and te_elem :: "'d te_host \<Rightarrow> 'd sem \<Rightarrow> (nat \<Rightarrow> int list \<Rightarrow> 'd val option) \<Rightarrow> 'd te_tensor \<Rightarrow>
    int list \<Rightarrow> 'd val option"
and op_elem :: "'d te_host \<Rightarrow> 'd sem \<Rightarrow> (nat \<Rightarrow> int list \<Rightarrow> 'd val option) \<Rightarrow> nat \<Rightarrow> DataType \<Rightarrow>
    'd te_operation \<Rightarrow> int list \<Rightarrow> 'd val option"
where
  "te_eval H S inp en T_Null = None"
| "te_eval H S inp en (T_Int v dt) = (if is_i64 v then chk S dt (VI v) else None)"
| "te_eval H S inp en (T_Float x dt) = chk S dt (VF x)"
| "te_eval H S inp en (T_Var v) = Option.bind (en (vid v)) (chk S (vdtype v))"
| "te_eval H S inp en (T_Bin op a b) =
     Option.bind (bin_val (fp.truncate H) op (te_eval H S inp en a) (te_eval H S inp en b))
       (chk S (te_dtype (T_Bin op a b)))"
| "te_eval H S inp en (T_Not a) =
     map_option (\<lambda>b. of_bool_val (\<not> b)) (Option.bind (te_eval H S inp en a) truth)"
| "te_eval H S inp en (T_Load b i p) = None"
| "te_eval H S inp en (T_Call dt f args) =
     Option.bind (omap (te_eval H S inp en) args) (\<lambda>vs. Option.bind (callf S f vs) (chk S dt))"
| "te_eval H S inp en (T_Select c t f) =
     (case Option.bind (te_eval H S inp en c) truth of
        Some b \<Rightarrow> Option.bind (if b then te_eval H S inp en t else te_eval H S inp en f)
                    (chk S (te_dtype t))
      | None \<Rightarrow> None)"
| "te_eval H S inp en (ProducerLoad t is) =
     read_at S (index_dtype is) (t_dtype t) (dims_of (fp.truncate H) S (t_shape t)) (te_elem H S inp t)
       (omap (te_eval H S inp en) is)"
| "te_eval H S inp en (Reduce rx srcs ty) = None"
| "te_elem H S inp NullTensor idx = None"
| "te_elem H S inp (Tensor a nm sh dt op vi) idx = op_elem H S inp a dt op idx"
| "op_elem H S inp a dt NullOp idx = None"
| "op_elem H S inp a dt (PlaceholderOp oa nm sh odt) idx = inp a idx"
| "op_elem H S inp a dt (ComputeOp oa nm tag axis rax bd sh) idx =
     (case bd of
        [b] \<Rightarrow>
          (case b of
             Reduce rx srcs ty \<Rightarrow>
               (case srcs of
                  [src] \<Rightarrow>
                    Option.bind (reduce_start H S ty dt)
                      (reduce_over (fp.truncate H) S
                         (\<lambda>en acc. reduce_step (fp.truncate H) S dt ty (te_eval H S inp en src) acc)
                         rx (bind_axes axis idx Map.empty))
                | _ \<Rightarrow> None)
           | _ \<Rightarrow> Option.bind (te_eval H S inp (bind_axes axis idx Map.empty) b) (chk S dt))
      | _ \<Rightarrow> None)"

end
