(* ===== verification/Lower_Proofs.thy ===== *)
theory Lower_Proofs
  imports Lower_TIR TE_Semantics TIR_Sound
begin

text \<open>
  The lowering preserves the meaning of the tensors: the statement of an operation stores every
  element of its tensor, and the lowered function computes the elements of every output.
\<close>

section \<open>Positions in row-major order\<close>

lemma row_from_bounds:
  assumes "list_all2 (\<lambda>i d. 0 \<le> i \<and> i < d) is ds" "0 \<le> acc"
  shows "acc * prod_list ds \<le> row_from acc is ds \<and> row_from acc is ds < (acc + 1) * prod_list ds"
  using assms
proof (induction "is" ds arbitrary: acc rule: list_all2_induct)
  case (Cons i "is" d ds)
  from Cons have "0 \<le> acc * d + i" by auto
  note IH = Cons.IH [OF this]
  have p: "0 \<le> prod_list ds" using Cons.hyps(2)
    by (induction rule: list_all2_induct) auto
  have "acc * d * prod_list ds \<le> (acc * d + i) * prod_list ds"
    using Cons p by (intro mult_right_mono) auto
  moreover have "(acc * d + i + 1) * prod_list ds \<le> ((acc + 1) * d) * prod_list ds"
    using Cons p by (intro mult_right_mono) (auto simp: algebra_simps)
  ultimately show ?case using IH by (auto simp: mult.assoc)
qed simp

lemma row_from_ge: "list_all2 (\<lambda>i d. 0 \<le> i \<and> i < d) is ds \<Longrightarrow> 0 \<le> acc \<Longrightarrow> acc \<le> row_from acc is ds"
proof (induction "is" ds arbitrary: acc rule: list_all2_induct)
  case (Cons i "is" d ds)
  then have "acc \<le> acc * d + i"
    by (metis add.commute add_increasing int_one_le_iff_zero_less le_less_trans mult_le_cancel_left1 not_le)
  moreover have "acc * d + i \<le> row_from (acc * d + i) is ds"
    using Cons.IH [of "acc * d + i"] Cons.hyps Cons.prems by auto
  ultimately show ?case by simp
qed simp

lemma row_major_bounds: "in_shape is ds \<Longrightarrow> 0 \<le> row_major is ds \<and> row_major is ds < prod_list ds"
  using row_from_bounds [of "is" ds 0] by (auto simp: in_shape_def row_major_def)

lemma row_from_inj:
  assumes "list_all2 (\<lambda>i d. 0 \<le> i \<and> i < d) is ds" "list_all2 (\<lambda>i d. 0 \<le> i \<and> i < d) js ds"
    "0 \<le> a" "0 \<le> b" "row_from a is ds = row_from b js ds"
  shows "a = b \<and> is = js"
  using assms
proof (induction "is" ds arbitrary: a b js rule: list_all2_induct)
  case (Cons i "is" d ds)
  from Cons.prems(1) obtain j js' where js: "js = j # js'" "0 \<le> j" "j < d"
    "list_all2 (\<lambda>i d. 0 \<le> i \<and> i < d) js' ds"
    by (auto simp: list_all2_Cons2)
  have "a * d + i = b * d + j \<and> is = js'"
    using Cons.IH [OF js(4), of "a * d + i" "b * d + j"] Cons.prems js Cons.hyps by auto
  moreover have "(a * d + i) div d = a" "(b * d + j) div d = b"
    using Cons.hyps js by (simp_all add: div_pos_pos_trivial)
  ultimately show ?case using js by auto
qed (auto simp: list_all2_Nil2)

lemma row_major_inj:
  "in_shape is ds \<Longrightarrow> in_shape js ds \<Longrightarrow> row_major is ds = row_major js ds \<Longrightarrow> is = js"
  unfolding in_shape_def row_major_def using row_from_inj [of "is" ds js 0 0] by simp

lemma set_all_indices: "set (all_indices ds) = {is. in_shape is ds}"
proof (induction ds)
  case Nil
  then show ?case by (auto simp: in_shape_def)
next
  case (Cons d ds)
  then show ?case by (auto simp: in_shape_def list_all2_Cons2)
qed

lemma distinct_all_indices: "distinct (all_indices ds)"
proof (induction ds)
  case (Cons d ds)
  have "distinct (concat (map (\<lambda>i. map (Cons i) (all_indices ds)) xs))" if "distinct xs" for xs
    using that Cons by (induction xs) (auto simp: distinct_map)
  then show ?case by simp
qed simp

section \<open>Evaluation depends on the defined part of the environment\<close>

lemma omap_Some_iff: "omap f xs = Some ys \<longleftrightarrow> list_all2 (\<lambda>x y. f x = Some y) xs ys"
  by (induction xs arbitrary: ys) (auto simp: bind_eq_Some_conv list_all2_Cons1)

text \<open>An expression that evaluates without variables and memory is a constant.\<close>

lemma eval_const:
  "eval F S Map.empty (\<lambda>_. None) e = Some v \<Longrightarrow> eval F S en m e = Some v"
proof (induction e arbitrary: v)
  case (Bin op a b)
  from Bin.prems obtain w where
    w: "bin_val F op (eval F S Map.empty (\<lambda>_. None) a) (eval F S Map.empty (\<lambda>_. None) b) = Some w"
      "chk S (dtype (Bin op a b)) w = Some v"
    by (auto simp: bind_eq_Some_conv simp del: dtype.simps)
  have "bin_val F op (eval F S en m a) (eval F S en m b) = Some w"
    by (rule bin_val_mono [OF w(1)]) (simp_all add: Bin.IH)
  then show ?case using w(2) by (simp del: dtype.simps)
next
  case (Load b i p)
  show ?case
  proof (cases "pred_val p (eval F S Map.empty (\<lambda>_. None) p)")
    case (Some c)
    then have "pred_val p (eval F S en m p) = Some c"
      using Load.IH(2) by (auto simp: pred_val_def bind_eq_Some_conv split: if_splits)
    then show ?thesis using Load Some
      by (cases c) (auto simp: bind_eq_Some_conv load_def)
  qed (use Load in auto)
next
  case (Call dt f args)
  have "omap (eval F S en m) args = Some vs" if "omap (eval F S Map.empty (\<lambda>_. None)) args = Some vs" for vs
    using that Call.IH by (fastforce simp: omap_Some_iff list_all2_conv_all_nth)
  then show ?case using Call.prems by (auto simp: bind_eq_Some_conv)
next
  case (Select c t f)
  from Select.prems obtain x c' w where s: "eval F S Map.empty (\<lambda>_. None) c = Some x" "truth x = Some c'"
    "(if c' then eval F S Map.empty (\<lambda>_. None) t else eval F S Map.empty (\<lambda>_. None) f) = Some w"
    "chk S (dtype t) w = Some v"
    by (auto simp: bind_eq_Some_conv split: option.splits)
  have "(if c' then eval F S en m t else eval F S en m f) = Some w"
    using s(3) Select.IH(2,3) by (cases c') auto
  then show ?case using Select.IH(1) [OF s(1)] s(2,4) by simp
next
  case (NotE a)
  from NotE.prems obtain x where "eval F S Map.empty (\<lambda>_. None) a = Some x"
    by (auto simp: bind_eq_Some_conv)
  then show ?case using NotE.prems NotE.IH by simp
qed simp_all

lemma const_int_eval: "const_int F S e = Some k \<Longrightarrow> eval F S en m e = Some (VI k)"
proof -
  assume "const_int F S e = Some k"
  then obtain v where v: "eval F S Map.empty (\<lambda>_. None) e = Some v" "int_of_val v = Some k"
    by (auto simp: const_int_def bind_eq_Some_conv)
  then show ?thesis using eval_const [OF v(1), of en m] by (cases v) auto
qed

lemma dims_of_eval: "dims_of F S shape = Some ds \<Longrightarrow> omap (eval F S en m) shape = Some (map VI ds)"
  by (auto simp: dims_of_def omap_Some_iff list_all2_map2 intro: const_int_eval elim!: list_all2_mono)

section \<open>Indices\<close>

lemma fits_below: "fits v dt \<Longrightarrow> 0 \<le> x \<Longrightarrow> x \<le> v \<Longrightarrow> fits x dt"
  by (auto simp: fits_def)

lemma eval_flatten_from:
  assumes "list_all2 (\<lambda>i d. 0 \<le> i \<and> i < d) is ds"
    and "eval F S en m lin = Some (VI acc)" "0 \<le> acc"
    and "list_all2 (\<lambda>e i. eval F S en m e = Some (VI i)) es is"
    and "list_all2 (\<lambda>e d. const_int F S e = Some d) sh ds"
    and "fits (row_from acc is ds) (dtype lin)"
  shows "eval F S en m (flatten_from lin es sh) = Some (VI (row_from acc is ds))"
  using assms
proof (induction "is" ds arbitrary: acc lin es sh rule: list_all2_induct)
  case (Cons i "is" d ds)
  from Cons.prems obtain e es' s sh' where
    e: "es = e # es'" "eval F S en m e = Some (VI i)"
      "list_all2 (\<lambda>e i. eval F S en m e = Some (VI i)) es' is"
    and s: "sh = s # sh'" "const_int F S s = Some d" "list_all2 (\<lambda>e d. const_int F S e = Some d) sh' ds"
    by (auto simp: list_all2_Cons2)
  let ?next = "Bin AddOp (Bin MulOp lin s) e"
  have nonneg: "0 \<le> acc * d" "0 \<le> acc * d + i" using Cons.hyps Cons.prems(2) by auto
  have le: "acc * d + i \<le> row_from (acc * d + i) is ds"
    using row_from_ge Cons.hyps(2) nonneg(2) by blast
  have f: "fits (row_from (acc * d + i) is ds) (dtype lin)" using Cons.prems(5) by simp
  have fs: "fits (acc * d) (dtype lin)" "fits (acc * d + i) (dtype lin)"
    using fits_below [OF f] nonneg le Cons.hyps(1) by auto
  have "eval F S en m ?next = Some (VI (acc * d + i))"
    using Cons.prems(1) e(2) const_int_eval [OF s(2), of en m] fs by (simp add: bin_val_def)
  then have "eval F S en m (flatten_from ?next es' sh') = Some (VI (row_from (acc * d + i) is ds))"
    by (rule Cons.IH [OF _ nonneg(2) e(3) s(3)]) (use f in simp)
  then show ?case by (simp add: e(1) s(1))
qed simp

text \<open>The flattened index evaluates to the position of the element.\<close>

lemma eval_FlattenIndex:
  assumes "in_shape is ds" "dims_of F S shape = Some ds"
    and "list_all2 (\<lambda>e i. eval F S en m e = Some (VI i)) es is"
    and "is = [] \<or> fits (row_major is ds) (dtype (hd es))"
    and "FlattenIndex es shape = Inr lin"
  shows "eval F S en m lin = Some (VI (row_major is ds))"
proof (cases shape)
  case Nil
  then have "ds = []" "is = []" using assms(1,2) by (auto simp: dims_of_def in_shape_def)
  moreover have "lin = IntImm 0 (dt_Int 32 1)" using Nil assms(5) by (simp add: FlattenIndex_def)
  ultimately show ?thesis by (simp add: row_major_def is_i64_def fits_def dt_Int_def)
next
  case (Cons s shape')
  have dims: "list_all2 (\<lambda>e d. const_int F S e = Some d) shape ds"
    using assms(2) by (simp add: dims_of_def omap_Some_iff)
  then obtain d ds' where ds: "ds = d # ds'" "list_all2 (\<lambda>e d. const_int F S e = Some d) shape' ds'"
    by (auto simp: Cons list_all2_Cons1)
  obtain i is' where i: "is = i # is'" "0 \<le> i" "list_all2 (\<lambda>i d. 0 \<le> i \<and> i < d) is' ds'"
    using assms(1) ds by (auto simp: in_shape_def list_all2_Cons2)
  obtain e es' where e: "es = e # es'" "eval F S en m e = Some (VI i)"
    "list_all2 (\<lambda>e i. eval F S en m e = Some (VI i)) es' is'"
    using assms(3) i by (auto simp: list_all2_Cons2)
  have lin: "lin = flatten_from e es' shape'"
    using assms(5) Cons e(1) by (auto simp: FlattenIndex_def split: if_splits)
  have row: "row_major is ds = row_from i is' ds'" by (simp add: row_major_def i(1) ds(1))
  show ?thesis unfolding lin row
    by (rule eval_flatten_from [OF i(3) e(2) i(2) e(3) ds(2)]) (use assms(4) row i(1) e(1) in auto)
qed

lemma dtype_flatten_from [simp]: "dtype (flatten_from lin es sh) = dtype lin"
  by (induction lin es sh rule: flatten_from.induct) simp_all

section \<open>Lowered expressions\<close>

text \<open>A tensor is held by a buffer: every defined element is at its row-major position.\<close>

definition holds ::
  "'d te_host \<Rightarrow> 'd sem \<Rightarrow> (nat \<Rightarrow> int list \<Rightarrow> 'd val option) \<Rightarrow> 'd mem \<Rightarrow> tir_var \<Rightarrow> 'd te_tensor \<Rightarrow>
     bool" where
  "holds H S inp m b t \<longleftrightarrow>
     (\<exists>cells ds. dims_of (fp.truncate H) S (t_shape t) = Some ds \<and> m (vid b) = Some cells \<and>
        int (length cells) = prod_list ds \<and>
        (\<forall>is v. in_shape is ds \<longrightarrow> te_elem H S inp t is = Some v \<longrightarrow>
           cells ! nat (row_major is ds) = Some v))"

definition typed_buffer :: "(nat \<Rightarrow> tir_var option) \<Rightarrow> 'd te_tensor \<Rightarrow> bool" where
  "typed_buffer bv t \<longleftrightarrow> (\<forall>b. buffer_of bv t = Some b \<longrightarrow> vdtype b = t_dtype t)"

lemma Lower_dtype:
  "Lower bv e = Inr e' \<Longrightarrow> (\<forall>t \<in> set (FindProducerLoads e). typed_buffer bv t) \<Longrightarrow>
   dtype e' = te_dtype e"
proof (induction e arbitrary: e' rule: te_dtype.induct)
  case (5 op a b)
  then show ?case by (auto simp: sbind_simps)
qed (auto simp: sbind_simps typed_buffer_def split: option.splits)

lemma load_holds:
  assumes "holds H S inp m b t" "dims_of (fp.truncate H) S (t_shape t) = Some ds" "in_shape is ds"
    and "te_elem H S inp t is = Some v"
  shows "load m (vid b) (VI (row_major is ds)) = Some v"
  using assms row_major_bounds [OF assms(3)] by (auto simp: holds_def load_def)

text \<open>Evaluating a lowered expression yields the meaning of the tensor expression.\<close>

lemma Lower_eval:
  assumes "te_eval H S inp en e = Some v" "Lower bv e = Inr e'"
    and "\<forall>t \<in> set (FindProducerLoads e). typed_buffer bv t \<and>
           (\<forall>b. buffer_of bv t = Some b \<longrightarrow> holds H S inp m b t)"
    and "\<And>x w. en x = Some w \<Longrightarrow> en' x = Some w"
  shows "eval (fp.truncate H) S en' m e' = Some v"
  using assms(1-3)
proof (induction bv e arbitrary: v e' rule: Lower.induct)
  case (2 bv t ixs)
  let ?F = "fp.truncate H"
  from "2.prems"(2) obtain b es lin where
    b: "buffer_of bv t = Some b" "smap (Lower bv) ixs = Inr es" "FlattenIndex es (t_shape t) = Inr lin"
      "e' = Load b lin NullExpr"
    by (auto simp: sbind_simps split: option.splits)
  from "2.prems"(1) obtain vs "is" ds w where
    r: "omap (te_eval H S inp en) ixs = Some vs" "omap int_of_val vs = Some is"
      "dims_of ?F S (t_shape t) = Some ds" "in_shape is ds"
      "is = [] \<or> fits (row_major is ds) (index_dtype ixs)"
      "te_elem H S inp t is = Some w" "chk S (t_dtype t) w = Some v"
    by (auto simp: read_at_def bind_eq_Some_conv split: if_splits)
  have es: "list_all2 (\<lambda>x y. Lower bv x = Inr y) ixs es"
    using b(2) by (simp add: smap_Inr_iff)
  have vs: "list_all2 (\<lambda>x y. te_eval H S inp en x = Some y) ixs vs" "vs = map VI is"
    using r(1,2) by (auto simp: omap_Some_iff list_all2_conv_all_nth intro!: nth_equalityI
        elim!: int_of_val.elims)
  have loads: "\<forall>u \<in> set (FindProducerLoads x). typed_buffer bv u \<and>
      (\<forall>b. buffer_of bv u = Some b \<longrightarrow> holds H S inp m b u)" if "x \<in> set ixs" for x
    using "2.prems"(3) that by auto
  have ev: "list_all2 (\<lambda>e i. eval ?F S en' m e = Some (VI i)) es is"
    unfolding list_all2_conv_all_nth
  proof (intro conjI allI impI)
    show len: "length es = length is" using es vs by (auto dest!: list_all2_lengthD)
    fix k assume k: "k < length es"
    then have k': "k < length ixs" using es by (auto dest: list_all2_lengthD)
    show "eval ?F S en' m (es ! k) = Some (VI (is ! k))"
    proof (rule "2.IH" [OF b(1), of "ixs ! k"])
      show "ixs ! k \<in> set ixs" using k' by simp
      show "te_eval H S inp en (ixs ! k) = Some (VI (is ! k))"
        using vs k' k len by (auto dest: list_all2_nthD)
      show "Lower bv (ixs ! k) = Inr (es ! k)" using es k' by (auto dest: list_all2_nthD)
      show "\<forall>t\<in>set (FindProducerLoads (ixs ! k)). typed_buffer bv t \<and>
         (\<forall>b. buffer_of bv t = Some b \<longrightarrow> holds H S inp m b t)"
        using loads [OF nth_mem [OF k']] .
    qed
  qed
  have "is = [] \<or> fits (row_major is ds) (dtype (hd es))"
  proof (cases ixs)
    case Nil
    then show ?thesis using vs by simp
  next
    case (Cons x xs)
    then obtain y ys where "es = y # ys" "Lower bv x = Inr y" using es by (auto simp: list_all2_Cons1)
    then show ?thesis using Lower_dtype [of bv x y] loads [of x] r(5) Cons by (auto simp: index_dtype_def)
  qed
  from eval_FlattenIndex [OF r(4,3) ev this b(3)]
  have "eval ?F S en' m lin = Some (VI (row_major is ds))" .
  moreover have "load m (vid b) (VI (row_major is ds)) = Some w"
    using load_holds [OF _ r(3,4,6)] "2.prems"(3) b(1) by simp
  moreover have "vdtype b = t_dtype t" using "2.prems"(3) b(1) by (simp add: typed_buffer_def)
  ultimately show ?case using r(7) by (simp add: b(4) pred_val_def)
next
  case (3 bv op a b)
  let ?F = "fp.truncate H"
  from "3.prems"(2) obtain a' b' where l: "Lower bv a = Inr a'" "Lower bv b = Inr b'" "e' = Bin op a' b'"
    by (auto simp: sbind_simps)
  from "3.prems"(1) obtain w where
    w: "bin_val ?F op (te_eval H S inp en a) (te_eval H S inp en b) = Some w"
      "chk S (te_dtype (T_Bin op a b)) w = Some v"
    by (auto simp: bind_eq_Some_conv simp del: te_dtype.simps)
  have "bin_val ?F op (eval ?F S en' m a') (eval ?F S en' m b') = Some w"
    by (rule bin_val_mono [OF w(1)]) (use "3.IH" "3.prems"(3) l in auto)
  moreover have "dtype a' = te_dtype a" using Lower_dtype [OF l(1)] "3.prems"(3) by simp
  ultimately show ?case using w(2) by (cases "is_arith op") (simp_all add: l(3))
next
  case (4 bv a)
  then show ?case by (auto simp: sbind_simps bind_eq_Some_conv)
next
  case (5 bv c t f)
  let ?F = "fp.truncate H"
  from "5.prems"(2) obtain c' t' f' where
    l: "Lower bv c = Inr c'" "Lower bv t = Inr t'" "Lower bv f = Inr f'" "e' = Select c' t' f'"
    by (auto simp: sbind_simps)
  from "5.prems"(1) obtain x q w where
    s: "te_eval H S inp en c = Some x" "truth x = Some q"
      "(if q then te_eval H S inp en t else te_eval H S inp en f) = Some w"
      "chk S (te_dtype t) w = Some v"
    by (auto simp: bind_eq_Some_conv split: option.splits)
  have "eval ?F S en' m c' = Some x" using "5.IH"(1) [OF s(1) l(1)] "5.prems"(3) by simp
  moreover have "(if q then eval ?F S en' m t' else eval ?F S en' m f') = Some w"
    using s(3) "5.IH"(2) [OF l(1) _ l(2)] "5.IH"(3) [OF l(1,2) _ l(3)] "5.prems"(3)
    by (cases q) auto
  moreover have "dtype t' = te_dtype t" using Lower_dtype [OF l(2)] "5.prems"(3) by simp
  ultimately show ?case using s(2,4) by (simp add: l(4))
next
  case (6 bv dt f args)
  let ?F = "fp.truncate H"
  from "6.prems"(2) obtain es where l: "smap (Lower bv) args = Inr es" "e' = Call dt f es"
    by (auto simp: sbind_simps)
  from "6.prems"(1) obtain vs where
    vs: "omap (te_eval H S inp en) args = Some vs" "Option.bind (callf S f vs) (chk S dt) = Some v"
    by (auto simp: bind_eq_Some_conv)
  have es: "list_all2 (\<lambda>x y. Lower bv x = Inr y) args es" using l(1) by (simp add: smap_Inr_iff)
  have vs': "list_all2 (\<lambda>x y. te_eval H S inp en x = Some y) args vs" using vs(1) by (simp add: omap_Some_iff)
  have "eval ?F S en' m (es ! k) = Some (vs ! k)" if "k < length args" for k
    by (rule "6.IH" [OF nth_mem [OF that] list_all2_nthD [OF vs' that] list_all2_nthD [OF es that]])
      (use "6.prems"(3) nth_mem [OF that] in auto)
  then have "omap (eval ?F S en' m) es = Some vs"
    using list_all2_lengthD [OF es] list_all2_lengthD [OF vs'] by (simp add: omap_Some_iff list_all2_conv_all_nth)
  then show ?case using vs(2) by (simp add: l(2))
next
  case (11 bv x)
  then show ?case using assms(4) by (auto simp: bind_eq_Some_conv)
qed (auto split: if_splits)

end
