(* ===== verification/Lower_StmtProofs.thy ===== *)
theory Lower_StmtProofs
  imports Lower_Proofs
begin

text \<open>
  The statement of one operation: its loop nest runs over every index of the tensor and stores the
  element there.
\<close>

section \<open>Loop nests\<close>

lemma ofold_single [simp]: "ofold f [x] s = f x s"
  by (cases "f x s") simp_all

lemma bind_axes_other: "x \<notin> vid ` set axis \<Longrightarrow> bind_axes axis is en x = en x"
  by (induction axis "is" en rule: bind_axes.induct) auto

lemma bind_axes_nth:
  "distinct (map vid axis) \<Longrightarrow> length axis = length is \<Longrightarrow> k < length axis \<Longrightarrow>
   bind_axes axis is en (vid (axis ! k)) = Some (VI (is ! k))"
proof (induction axis "is" en arbitrary: k rule: bind_axes.induct)
  case (1 v vs i "is" en)
  show ?case
  proof (cases k)
    case 0
    then show ?thesis using 1 bind_axes_other [of "vid v" vs "is" "en(vid v \<mapsto> VI i)"] by simp
  next
    case (Suc j)
    then show ?thesis using 1(1) [of j] 1(2-) by (simp del: fun_upd_apply)
  qed
qed auto

lemma bind_axes_le:
  "(\<And>x w. en x = Some w \<Longrightarrow> en' x = Some w) \<Longrightarrow> bind_axes axis is en x = Some w \<Longrightarrow>
   bind_axes axis is en' x = Some w"
proof (induction axis "is" en arbitrary: en' rule: bind_axes.induct)
  case (1 v vs i "is" en)
  have "(en'(vid v \<mapsto> VI i)) y = Some w" if "(en(vid v \<mapsto> VI i)) y = Some w" for y w
    using that 1(2) by (auto split: if_splits)
  from 1(1) [OF this] 1(3) show ?case by (simp del: fun_upd_apply)
qed auto

lemma length_in_shape: "in_shape is ds \<Longrightarrow> length is = length ds"
  by (auto simp: in_shape_def dest: list_all2_lengthD)

lemma length_dims_of: "dims_of F S shape = Some ds \<Longrightarrow> length shape = length ds"
  by (auto simp: dims_of_def omap_Some_iff dest: list_all2_lengthD)

lemma dims_of_Cons [simp]:
  "dims_of F S (e # es) = Some ds \<longleftrightarrow>
     (\<exists>d ds'. ds = d # ds' \<and> const_int F S e = Some d \<and> dims_of F S es = Some ds')"
  by (auto simp: dims_of_def bind_eq_Some_conv)

text \<open>The data loops run their body once for each index of the shape.\<close>

lemma exec_data_loops:
  assumes "WrapDataLoops axis shape s = Inr s'" "dims_of F S shape = Some ds"
    and "length axis = length shape" "\<forall>v \<in> set axis. vdtype v = dt_Int 32 1"
    and "\<forall>d \<in> set ds. fits d (dt_Int 32 1)"
  shows "exec F S s' en m = ofold (\<lambda>is m. exec F S s (bind_axes axis is en) m) (all_indices ds) m"
  using assms
proof (induction axis shape s arbitrary: s' ds en m rule: WrapDataLoops.induct)
  case (1 shape s)
  then have "ds = []" "s' = s" by (auto simp: dims_of_def)
  then show ?case by (cases "exec F S s en m") simp_all
next
  case (3 v vs e es s)
  from "3.prems"(2) obtain d ds' where d: "ds = d # ds'" "const_int F S e = Some d" "dims_of F S es = Some ds'"
    by auto
  from "3.prems"(1) obtain s'' where s'': "WrapDataLoops vs es s = Inr s''"
    "s' = For v (IntImm 0 (dt_Int 32 1)) e Serial s''"
    by (auto simp: sbind_simps)
  have IH: "exec F S s'' en = ofold (\<lambda>is. exec F S s (bind_axes vs is en)) (all_indices ds')" for en
    using "3.IH" [OF s''(1) d(3)] "3.prems"(3-5) d(1) by (intro ext) simp
  have map: "ofold f (map g xs) = ofold (\<lambda>x. f (g x)) xs" for f :: "'c \<Rightarrow> 'e \<Rightarrow> 'e option" and g :: "'b \<Rightarrow> 'c" and xs
    by (rule ext) (rule ofold_map)
  have z: "fits 0 (dt_Int 32 1)" by (simp add: fits_def dt_Int_def)
  have "loop_range (vdtype v) (VI 0 :: 'a val) (VI d) = Some [0..d - 1]"
    using z "3.prems"(4,5) d(1) by (simp add: loop_range_def)
  moreover have "eval F S en m (IntImm 0 (dt_Int 32 1)) = Some (VI 0)" using z by (simp add: is_i64_def)
  ultimately show ?case using const_int_eval [OF d(2)]
    by (simp add: s''(2) d(1) IH ofold_concat map del: eval.simps(2))
qed (auto simp: sbind_simps)

text \<open>A loop over indices with different positions fills the cells of one buffer.\<close>

lemma ofold_stores:
  assumes "\<And>x m cells. x \<in> set xs \<Longrightarrow> m b = Some cells \<Longrightarrow> length cells = N \<Longrightarrow>
      (\<And>c. c \<noteq> b \<Longrightarrow> m c = m0 c) \<Longrightarrow> f x m = Some (m(b \<mapsto> cells[pos x := Some (val x)]))"
    and "distinct xs" "inj_on pos (set xs)" "\<And>x. x \<in> set xs \<Longrightarrow> pos x < N"
    and "m b = Some cells" "length cells = N" "\<And>c. c \<noteq> b \<Longrightarrow> m c = m0 c"
  shows "\<exists>cells'. ofold f xs m = Some (m(b \<mapsto> cells')) \<and> length cells' = N \<and>
     (\<forall>x \<in> set xs. cells' ! pos x = Some (val x)) \<and> (\<forall>p. p \<notin> pos ` set xs \<longrightarrow> cells' ! p = cells ! p)"
  using assms
proof (induction xs arbitrary: m cells)
  case Nil
  then show ?case by (metis empty_iff fun_upd_triv list.set(1) ofold.simps(1))
next
  case (Cons x xs)
  let ?cells = "cells[pos x := Some (val x)]" and ?m = "m(b \<mapsto> cells[pos x := Some (val x)])"
  have step: "f x m = Some ?m" by (rule Cons.prems(1)) (use Cons.prems(5-7) in auto)
  have "\<exists>cells'. ofold f xs ?m = Some (?m(b \<mapsto> cells')) \<and> length cells' = N \<and>
     (\<forall>x \<in> set xs. cells' ! pos x = Some (val x)) \<and> (\<forall>p. p \<notin> pos ` set xs \<longrightarrow> cells' ! p = ?cells ! p)"
    by (rule Cons.IH) (use Cons.prems in \<open>simp_all\<close>)
  then obtain cells' where c: "ofold f xs ?m = Some (?m(b \<mapsto> cells'))" "length cells' = N"
    "\<forall>x \<in> set xs. cells' ! pos x = Some (val x)" "\<forall>p. p \<notin> pos ` set xs \<longrightarrow> cells' ! p = ?cells ! p"
    by blast
  have "pos x \<notin> pos ` set xs" using Cons.prems(2,3) by auto
  then have "cells' ! pos x = Some (val x)" using c(4) Cons.prems(4) [of x] Cons.prems(6) by simp
  moreover have "cells' ! p = cells ! p" if "p \<notin> pos ` set (x # xs)" for p
    using that c(4) by (metis image_insert insertCI list.simps(15) nth_list_update_neq)
  moreover have "ofold f (x # xs) m = Some (m(b \<mapsto> cells'))" using c(1) step by (simp del: fun_upd_apply)
  ultimately show ?case using c(2,3) by (intro exI [of _ cells']) (simp del: fun_upd_apply)
qed

section \<open>Reductions\<close>

lemma ofold_sim:
  assumes "ofold g is acc = Some r" "Q acc s"
    and "\<And>i acc r s. i \<in> set is \<Longrightarrow> g i acc = Some r \<Longrightarrow> Q acc s \<Longrightarrow> \<exists>t. f i s = Some t \<and> Q r t"
  shows "\<exists>t. ofold f is s = Some t \<and> Q r t"
  using assms
proof (induction "is" arbitrary: acc s)
  case (Cons i "is")
  from Cons.prems(1) obtain acc' where a: "g i acc = Some acc'" "ofold g is acc' = Some r"
    by (auto simp: bind_eq_Some_conv)
  obtain s' where s': "f i s = Some s'" "Q acc' s'"
    using Cons.prems(3) [OF _ a(1) Cons.prems(2)] by auto
  show ?case using Cons.IH [OF a(2) s'(2)] Cons.prems(3) s'(1) by (metis bind.bind_lunit list.set_intros(2) ofold.simps(2))
qed simp

text \<open>
  The loops of a reduction fold the cell of the element as \<open>reduce_over\<close> folds its accumulator.
  \<open>E\<close> relates the environment of the reference meaning to that of the program.
\<close>

lemma exec_reduce_loops:
  assumes "reduce_over F S g rx en acc = Some r" "E en en'"
    and "\<And>en en' x i. E en en' \<Longrightarrow> x \<in> set rx \<Longrightarrow> E (en(vid (iv_var x) \<mapsto> VI i)) (en'(vid (iv_var x) \<mapsto> VI i))"
    and "\<And>en en' acc r cells. E en en' \<Longrightarrow> g en acc = Some r \<Longrightarrow> length cells = N \<Longrightarrow>
      cells ! p = Some acc \<Longrightarrow>
      exec F S upd en' (m(b \<mapsto> cells)) = Some (m(b \<mapsto> cells[p := Some r]))"
    and "length cells = N" "p < N" "cells ! p = Some acc"
  shows "exec F S (wrap_reduce_loops rx upd) en' (m(b \<mapsto> cells)) = Some (m(b \<mapsto> cells[p := Some r]))"
  using assms
proof (induction rx arbitrary: en en' acc r cells)
  case Nil
  then show ?case by (simp add: wrap_reduce_loops_def)
next
  case (Cons x rx)
  from Cons.prems(1) obtain "is" where "is": "iter_range F S x = Some is"
    "ofold (\<lambda>i acc. reduce_over F S g rx (en(vid (iv_var x) \<mapsto> VI i)) acc) is acc = Some r"
    by (auto simp: bind_eq_Some_conv)
  from "is"(1) obtain l k where lk: "const_int F S (iv_min x) = Some l" "const_int F S (iv_extent x) = Some k"
    "loop_range (vdtype (iv_var x)) (VI l :: 'a val) (VI k) = Some is"
    by (auto simp: iter_range_def bind_eq_Some_conv)
  let ?Q = "\<lambda>acc m'. m' = m(b \<mapsto> cells[p := Some acc])"
  have "\<exists>t. ofold (\<lambda>i. exec F S (wrap_reduce_loops rx upd) (en'(vid (iv_var x) \<mapsto> VI i))) is
       (m(b \<mapsto> cells[p := Some acc])) = Some t \<and> ?Q r t"
  proof (rule ofold_sim [OF "is"(2), where Q = ?Q])
    fix i a q s
    assume a: "reduce_over F S g rx (en(vid (iv_var x) \<mapsto> VI i)) a = Some q" "?Q a s"
    have "exec F S (wrap_reduce_loops rx upd) (en'(vid (iv_var x) \<mapsto> VI i)) (m(b \<mapsto> cells[p := Some a])) =
        Some (m(b \<mapsto> cells[p := Some a, p := Some q]))"
    proof (rule Cons.IH [OF a(1)])
      show "E (en(vid (iv_var x) \<mapsto> VI i)) (en'(vid (iv_var x) \<mapsto> VI i))"
        by (rule Cons.prems(3) [OF Cons.prems(2)]) simp
    qed (use Cons.prems in simp_all)
    then show "\<exists>t. exec F S (wrap_reduce_loops rx upd) (en'(vid (iv_var x) \<mapsto> VI i)) s = Some t \<and> ?Q q t"
      using a(2) by simp
  qed simp
  moreover have "cells[p := Some acc] = cells" using Cons.prems(7) by (metis list_update_id)
  ultimately show ?case
    using const_int_eval [OF lk(1)] const_int_eval [OF lk(2)] lk(3)
    by (simp add: wrap_reduce_loops_def del: fun_upd_apply)
qed

section \<open>The statement of an operation\<close>

text \<open>
  What \<^verbatim>\<open>compute\<close> guarantees of a computed tensor: one body over as many distinct 32-bit axes as
  there are dimensions, and reduction axes different from these.
\<close>

definition op_ok :: "'d te_tensor \<Rightarrow> bool" where
  "op_ok t \<longleftrightarrow> (\<exists>a nm dt vi oa onm tag axis rax b sh.
     t = Tensor a nm sh dt (ComputeOp oa onm tag axis rax [b] sh) vi \<and>
     length axis = length sh \<and> distinct (map vid axis) \<and> (\<forall>v \<in> set axis. vdtype v = dt_Int 32 1) \<and>
     (\<forall>rx srcs ty. b = Reduce rx srcs ty \<longrightarrow>
        length srcs = 1 \<and> (\<forall>r \<in> set rx. vid (iv_var r) \<notin> vid ` set axis)))"

text \<open>Shapes whose positions a 32-bit index reaches.\<close>

definition small_shape :: "int list \<Rightarrow> bool" where
  "small_shape ds \<longleftrightarrow> prod_list ds < 2 ^ 31 \<and> (\<forall>d \<in> set ds. 0 \<le> d \<and> d < 2 ^ 31)"

lemma small_shape_fits: "small_shape ds \<Longrightarrow> d \<in> set ds \<Longrightarrow> fits d (dt_Int 32 1)"
  by (auto simp: small_shape_def fits_def dt_Int_def)

lemma small_position: "small_shape ds \<Longrightarrow> in_shape is ds \<Longrightarrow> fits (row_major is ds) (dt_Int 32 1)"
  using row_major_bounds [of "is" ds] by (auto simp: small_shape_def fits_def dt_Int_def)

lemma prod_list_dims_nonneg: "(\<And>d. d \<in> set ds \<Longrightarrow> 0 \<le> d) \<Longrightarrow> 0 \<le> prod_list (ds :: int list)"
  by (induction ds) auto

lemma small_shape_prod: "small_shape ds \<Longrightarrow> 0 \<le> prod_list ds"
  unfolding small_shape_def by (rule prod_list_dims_nonneg) simp

lemma eval_axis:
  "en (vid v) = Some (VI i) \<Longrightarrow> fits i (vdtype v) \<Longrightarrow> eval F S en m (VarE v) = Some (VI i)"
  by simp

lemma in_shape_fits: "small_shape ds \<Longrightarrow> in_shape is ds \<Longrightarrow> k < length is \<Longrightarrow> fits (is ! k) (dt_Int 32 1)"
  by (force simp: in_shape_def small_shape_def list_all2_conv_all_nth fits_def dt_Int_def
      dest: nth_mem)

text \<open>The index expression of the store, wherever the axes are bound to \<open>is\<close>.\<close>

lemma eval_out_index:
  assumes "\<And>k. k < length axis \<Longrightarrow> en (vid (axis ! k)) = Some (VI (is ! k))"
    and "length axis = length shape" "\<forall>v \<in> set axis. vdtype v = dt_Int 32 1"
    and "dims_of F S shape = Some ds" "small_shape ds" "in_shape is ds"
    and "FlattenIndex (map VarE axis) shape = Inr idx"
  shows "eval F S en m idx = Some (VI (row_major is ds))"
proof (rule eval_FlattenIndex [OF assms(6,4) _ _ assms(7)])
  have len: "length axis = length is"
    using assms(2) length_in_shape [OF assms(6)] length_dims_of [OF assms(4)] by simp
  show "list_all2 (\<lambda>e i. eval F S en m e = Some (VI i)) (map VarE axis) is"
    unfolding list_all2_conv_all_nth
  proof (intro conjI allI impI)
    fix k assume "k < length (map VarE axis :: 'a PrimExpr list)"
    then have k: "k < length axis" by simp
    then show "eval F S en m (map VarE axis ! k) = Some (VI (is ! k))"
      using eval_axis [of en "axis ! k" "is ! k" F S m] assms(1) [OF k] assms(3)
        in_shape_fits [OF assms(5,6), of k] len by (simp del: eval.simps)
  qed (simp add: len)
  show "is = [] \<or> fits (row_major is ds) (dtype (hd (map VarE axis)))"
    using small_position [OF assms(5,6)] assms(3) len by (cases axis) auto
qed

lemma reduce_ops: "reduce_bop ty = reduce_op ty"
  by (cases ty) simp_all

lemma is_arith_reduce [simp]: "is_arith (reduce_op ty)"
  by (cases ty) simp_all

lemma eval_identity:
  "Option.bind (eval F S en m (MakeIdentityForReduce H ty dt)) (chk S dt) = reduce_start H S ty dt"
  by (cases ty) (simp_all add: MakeIdentityForReduce_def reduce_start_def is_i64_def)

lemma bin_val_reduce: "bin_val F (reduce_op ty) (Some x) (Some y) = strict_op F (reduce_op ty) x y"
  by (cases ty) (simp_all add: bin_val_def)

lemma store_cell:
  "m b = Some cells \<Longrightarrow> 0 \<le> p \<Longrightarrow> p < int (length cells) \<Longrightarrow>
   store m b (VI p) v = Some (m(b \<mapsto> cells[nat p := Some v]))"
  by (simp add: store_def)

lemma load_cell:
  "m b = Some cells \<Longrightarrow> 0 \<le> p \<Longrightarrow> p < int (length cells) \<Longrightarrow> load m b (VI p) = cells ! nat p"
  by (simp add: load_def)

lemma exec_Store:
  "eval F S en m i = Some (VI p) \<Longrightarrow> eval F S en m v = Some x \<Longrightarrow> chk S (vdtype b) x = Some y \<Longrightarrow>
   m (vid b) = Some cells \<Longrightarrow> 0 \<le> p \<Longrightarrow> p < int (length cells) \<Longrightarrow>
   exec F S (Store b v i NullExpr) en m = Some (m(vid b \<mapsto> cells[nat p := Some y]))"
  by (simp add: pred_val_def store_cell del: fun_upd_apply)

lemma holds_cong: "m (vid b) = m' (vid b) \<Longrightarrow> holds H S inp m b t = holds H S inp m' b t"
  by (simp add: holds_def)

lemma te_elem_plain:
  "(\<forall>rx srcs ty. b \<noteq> Reduce rx srcs ty) \<Longrightarrow>
   te_elem H S inp (Tensor a nm sh dt (ComputeOp oa onm tag axis rax [b] sh') vi) is =
     Option.bind (te_eval H S inp (bind_axes axis is Map.empty) b) (chk S dt)"
  by (cases b) auto

lemma LowerComputeStmt_plain:
  "(\<forall>rx srcs ty. b \<noteq> Reduce rx srcs ty) \<Longrightarrow>
   LowerComputeStmt H bv (Tensor a nm sh dt (ComputeOp oa onm tag axis rax [b] sh') vi) =
     (case buffer_of bv (Tensor a nm sh dt (ComputeOp oa onm tag axis rax [b] sh') vi) of
        None \<Rightarrow> throw ''Missing output buffer var for compute tensor''
      | Some out_var \<Rightarrow>
          sbind (FlattenIndex (map VarE axis) sh') (\<lambda>out_index.
          sbind (Lower bv b) (\<lambda>lowered.
            WrapDataLoops axis sh' (Store out_var lowered out_index NullExpr))))"
  by (cases b) (simp_all add: LowerComputeStmt_def cong: option.case_cong)

text \<open>One iteration of the nest stores the element at its position.\<close>

lemma store_plain:
  assumes b: "\<forall>rx srcs ty. b \<noteq> Reduce rx srcs ty"
    and elem: "te_elem H S inp (Tensor a nm sh dt (ComputeOp oa onm tag axis rax [b] sh') vi) is = Some v"
    and low: "Lower bv b = Inr e"
    and deps: "\<forall>t \<in> set (FindProducerLoads b). typed_buffer bv t \<and>
           (\<forall>c. buffer_of bv t = Some c \<longrightarrow> holds H S inp m c t)"
    and idx: "eval (fp.truncate H) S (bind_axes axis is en) m idx = Some (VI p)"
    and out: "vdtype out = dt" "m (vid out) = Some cells" "0 \<le> p" "p < int (length cells)"
  shows "exec (fp.truncate H) S (Store out e idx NullExpr) (bind_axes axis is en) m =
     Some (m(vid out \<mapsto> cells[nat p := Some v]))"
proof -
  from elem have "Option.bind (te_eval H S inp (bind_axes axis is Map.empty) b) (chk S dt) = Some v"
    unfolding te_elem_plain [OF b] .
  then obtain w where w: "te_eval H S inp (bind_axes axis is Map.empty) b = Some w" "chk S dt w = Some v"
    by (auto simp: bind_eq_Some_conv)
  have "eval (fp.truncate H) S (bind_axes axis is en) m e = Some w"
    by (rule Lower_eval [OF w(1) low deps]) (rule bind_axes_le, simp_all)
  from exec_Store [OF idx this] show ?thesis using w(2) out by simp
qed

lemma exec_reduce_update:
  assumes r: "reduce_step (fp.truncate H) S dt ty (te_eval H S inp en src) acc = Some r"
    and en: "\<And>x w. en x = Some w \<Longrightarrow> en' x = Some w"
    and low: "Lower bv src = Inr e"
    and deps: "\<forall>t \<in> set (FindProducerLoads src). typed_buffer bv t \<and>
           (\<forall>c. buffer_of bv t = Some c \<longrightarrow> holds H S inp m c t)"
    and idx: "eval (fp.truncate H) S en' m idx = Some (VI p)"
    and out: "vdtype out = dt" "m (vid out) = Some cells" "0 \<le> p" "p < int (length cells)"
      "cells ! nat p = Some acc"
  shows "exec (fp.truncate H) S
       (Store out (Bin (reduce_bop ty) (Load out idx NullExpr) e) idx NullExpr) en' m =
     Some (m(vid out \<mapsto> cells[nat p := Some r]))"
proof -
  from r obtain x y z w where
    s: "chk S dt acc = Some x" "te_eval H S inp en src = Some y"
      "strict_op (fp.truncate H) (reduce_op ty) x y = Some z" "chk S dt z = Some w" "chk S dt w = Some r"
    by (auto simp: reduce_step_def bind_eq_Some_conv)
  have "eval (fp.truncate H) S en' m e = Some y" by (rule Lower_eval [OF s(2) low deps en])
  moreover have "eval (fp.truncate H) S en' m (Load out idx NullExpr) = Some x"
    using idx out s(1) by (simp add: pred_val_def load_cell)
  ultimately have
    "eval (fp.truncate H) S en' m (Bin (reduce_bop ty) (Load out idx NullExpr) e) = Some w"
    using s(3,4) out(1) by (simp add: reduce_ops bin_val_reduce)
  from exec_Store [OF idx this] show ?thesis using s(5) out by simp
qed

lemma store_reduce:
  assumes elem: "te_elem H S inp
      (Tensor a nm sh dt (ComputeOp oa onm tag axis rax [Reduce rx [src] ty] sh') vi) is = Some v"
    and low: "Lower bv src = Inr e"
    and deps: "\<forall>t \<in> set (FindProducerLoads src). typed_buffer bv t \<and>
           (\<forall>c. buffer_of bv t = Some c \<longrightarrow> holds H S inp m c t \<and> vid c \<noteq> vid out)"
    and fresh: "\<forall>r \<in> set rx. vid (iv_var r) \<notin> vid ` set axis"
    and axis: "distinct (map vid axis)" "length axis = length is"
    and idx: "\<And>en m. (\<And>k. k < length axis \<Longrightarrow> en (vid (axis ! k)) = Some (VI (is ! k))) \<Longrightarrow>
      eval (fp.truncate H) S en m idx = Some (VI p)"
    and out: "vdtype out = dt" "m (vid out) = Some cells" "0 \<le> p" "p < int (length cells)"
  shows "exec (fp.truncate H) S
       (SeqStmt [Store out (MakeIdentityForReduce H ty dt) idx NullExpr,
         wrap_reduce_loops rx
           (Store out (Bin (reduce_bop ty) (Load out idx NullExpr) e) idx NullExpr)])
       (bind_axes axis is en) m = Some (m(vid out \<mapsto> cells[nat p := Some v]))"
proof -
  let ?F = "fp.truncate H"
  let ?upd = "Store out (Bin (reduce_bop ty) (Load out idx NullExpr) e) idx NullExpr"
  let ?g = "\<lambda>en acc. reduce_step ?F S dt ty (te_eval H S inp en src) acc"
  define E where "E = (\<lambda>(en :: 'a env) (en' :: 'a env). (\<forall>x w. en x = Some w \<longrightarrow> en' x = Some w) \<and>
    (\<forall>k < length axis. en' (vid (axis ! k)) = Some (VI (is ! k))))"
  from elem obtain s where s: "reduce_start H S ty dt = Some s"
    "reduce_over ?F S ?g rx (bind_axes axis is Map.empty) s = Some v"
    by (auto simp: bind_eq_Some_conv)
  have E: "E (bind_axes axis is Map.empty) (bind_axes axis is en)"
    using bind_axes_nth [OF axis] by (auto simp: E_def intro: bind_axes_le [rotated])
  have start: "exec ?F S (Store out (MakeIdentityForReduce H ty dt) idx NullExpr) (bind_axes axis is en) m =
      Some (m(vid out \<mapsto> cells[nat p := Some s]))"
  proof -
    from s(1) eval_identity [of ?F S "bind_axes axis is en" m H ty dt]
    obtain w where w: "eval ?F S (bind_axes axis is en) m (MakeIdentityForReduce H ty dt) = Some w"
      "chk S dt w = Some s"
      by (auto simp: bind_eq_Some_conv)
    show ?thesis by (rule exec_Store [OF idx w(1)]) (use bind_axes_nth [OF axis] w(2) out in simp_all)
  qed
  let ?cells = "cells[nat p := Some s]"
  have "exec ?F S (wrap_reduce_loops rx ?upd) (bind_axes axis is en) (m(vid out \<mapsto> ?cells)) =
      Some (m(vid out \<mapsto> ?cells[nat p := Some v]))"
  proof (rule exec_reduce_loops [where E = E and N = "length cells", OF s(2) E])
    fix en en' x i
    assume e: "E en en'" "x \<in> set rx"
    then have "axis ! k \<in> set axis \<and> vid (axis ! k) \<noteq> vid (iv_var x)" if "k < length axis" for k
      using fresh that by (metis image_eqI nth_mem)
    then show "E (en(vid (iv_var x) \<mapsto> VI i)) (en'(vid (iv_var x) \<mapsto> VI i))"
      using e(1) by (simp add: E_def)
  next
    fix en en' acc r and cs :: "'a val option list"
    assume e: "E en en'" "?g en acc = Some r" "length cs = length cells" "cs ! nat p = Some acc"
    show "exec ?F S ?upd en' (m(vid out \<mapsto> cs)) = Some (m(vid out \<mapsto> cs[nat p := Some r]))"
    proof -
      let ?m = "m(vid out \<mapsto> cs)"
      have "exec ?F S ?upd en' ?m = Some (?m(vid out \<mapsto> cs[nat p := Some r]))"
      proof (rule exec_reduce_update [OF e(2) _ low])
        show "\<And>x w. en x = Some w \<Longrightarrow> en' x = Some w" using e(1) by (simp add: E_def)
        have "holds H S inp ?m c t = holds H S inp m c t" if "vid c \<noteq> vid out" for c t
          using that by (intro holds_cong) simp
        then show "\<forall>t\<in>set (FindProducerLoads src). typed_buffer bv t \<and>
            (\<forall>c. buffer_of bv t = Some c \<longrightarrow> holds H S inp ?m c t)"
          using deps by blast
        show "eval ?F S en' ?m idx = Some (VI p)" by (rule idx) (use e(1) in \<open>simp add: E_def\<close>)
      qed (use out e in simp_all)
      then show ?thesis by (simp del: fun_upd_apply)
    qed
  qed (use out in simp_all)
  then show ?thesis using start by (simp del: fun_upd_apply exec.simps(3))
qed

text \<open>The body of the nest, for both kinds of operations.\<close>

lemma LowerComputeStmt_body:
  assumes ok: "op_ok t" and dims: "dims_of (fp.truncate H) S (t_shape t) = Some ds" "small_shape ds"
    and low: "LowerComputeStmt H bv t = Inr s"
    and out: "buffer_of bv t = Some out" "typed_buffer bv t"
  obtains axis X where "length axis = length (t_shape t)" "\<forall>v \<in> set axis. vdtype v = dt_Int 32 1"
    "WrapDataLoops axis (t_shape t) X = Inr s"
    "\<And>is v en m cells. in_shape is ds \<Longrightarrow> te_elem H S inp t is = Some v \<Longrightarrow>
       \<forall>u \<in> set (op_deps (t_op t)). typed_buffer bv u \<and>
         (\<forall>c. buffer_of bv u = Some c \<longrightarrow> holds H S inp m c u \<and> vid c \<noteq> vid out) \<Longrightarrow>
       m (vid out) = Some cells \<Longrightarrow> int (length cells) = prod_list ds \<Longrightarrow>
       exec (fp.truncate H) S X (bind_axes axis is en) m =
         Some (m(vid out \<mapsto> cells[nat (row_major is ds) := Some v]))"
proof -
  from ok obtain a nm dt vi oa onm tag axis rax b sh where
    t: "t = Tensor a nm sh dt (ComputeOp oa onm tag axis rax [b] sh) vi" and
    ax: "length axis = length sh" "distinct (map vid axis)" "\<forall>v \<in> set axis. vdtype v = dt_Int 32 1" and
    red: "\<forall>rx srcs ty. b = Reduce rx srcs ty \<longrightarrow>
        length srcs = 1 \<and> (\<forall>r \<in> set rx. vid (iv_var r) \<notin> vid ` set axis)"
    unfolding op_ok_def by blast
  have dt: "vdtype out = dt" using out by (simp add: typed_buffer_def t)
  have dsh: "dims_of (fp.truncate H) S sh = Some ds" using dims(1) by (simp add: t)
  have deps: "op_deps (t_op t) = FindProducerLoads b" by (simp add: t op_deps_def)
  have idx_at: "eval (fp.truncate H) S en m idx = Some (VI (row_major is ds))"
    if "FlattenIndex (map VarE axis) sh = Inr idx" "in_shape is ds"
      "\<And>k. k < length axis \<Longrightarrow> en (vid (axis ! k)) = Some (VI (is ! k))" for en m idx "is"
    using eval_out_index [OF that(3) ax(1,3) dsh dims(2) that(2,1)] .
  have bound: "bind_axes axis is en (vid (axis ! k)) = Some (VI (is ! k))"
    if "in_shape is ds" "k < length axis" for "is" k and en :: "'a env"
  proof -
    have "length axis = length is" using ax(1) length_in_shape [OF that(1)] length_dims_of [OF dsh] by simp
    from bind_axes_nth [OF ax(2) this that(2)] show ?thesis .
  qed
  show thesis
  proof (cases "\<exists>rx srcs ty. b = Reduce rx srcs ty")
    case False
    then have b: "\<forall>rx srcs ty. b \<noteq> Reduce rx srcs ty" by blast
    from low [unfolded t LowerComputeStmt_plain [OF b]] out(1) [unfolded t] obtain idx e where
      l: "FlattenIndex (map VarE axis) sh = Inr idx" "Lower bv b = Inr e"
        "WrapDataLoops axis sh (Store out e idx NullExpr) = Inr s"
      by (auto simp: sbind_simps)
    show thesis
    proof (rule that [of axis "Store out e idx NullExpr"])
      fix "is" v and en :: "'a env" and m cells
      assume p: "in_shape is ds" "te_elem H S inp t is = Some v"
        "\<forall>u \<in> set (op_deps (t_op t)). typed_buffer bv u \<and>
         (\<forall>c. buffer_of bv u = Some c \<longrightarrow> holds H S inp m c u \<and> vid c \<noteq> vid out)"
        "m (vid out) = Some cells" "int (length cells) = prod_list ds"
      show "exec (fp.truncate H) S (Store out e idx NullExpr) (bind_axes axis is en) m =
         Some (m(vid out \<mapsto> cells[nat (row_major is ds) := Some v]))"
      proof (rule store_plain [where m = m and out = out and cells = cells, OF b p(2) [unfolded t] l(2) _ _ dt p(4)])
        show "eval (fp.truncate H) S (bind_axes axis is en) m idx = Some (VI (row_major is ds))"
          by (rule idx_at [OF l(1) p(1)]) (rule bound [OF p(1)])
      qed (use p(3,5) row_major_bounds [OF p(1)] in \<open>auto simp: deps\<close>)
    qed (use ax l in \<open>simp_all add: t\<close>)
  next
    case True
    then obtain rx src ty where b: "b = Reduce rx [src] ty" using red by (force simp: length_Suc_conv)
    from low [unfolded t b] out(1) [unfolded t b] obtain idx e where
      l: "FlattenIndex (map VarE axis) sh = Inr idx" "Lower bv src = Inr e"
        "WrapDataLoops axis sh (SeqStmt [Store out (MakeIdentityForReduce H ty dt) idx NullExpr,
         wrap_reduce_loops rx
           (Store out (Bin (reduce_bop ty) (Load out idx NullExpr) e) idx NullExpr)]) = Inr s"
      by (auto simp: LowerComputeStmt_def sbind_simps Let_def)
    show thesis
    proof (rule that [of axis "SeqStmt [Store out (MakeIdentityForReduce H ty dt) idx NullExpr,
         wrap_reduce_loops rx (Store out (Bin (reduce_bop ty) (Load out idx NullExpr) e) idx NullExpr)]"])
      fix "is" v and en :: "'a env" and m cells
      assume p: "in_shape is ds" "te_elem H S inp t is = Some v"
        "\<forall>u \<in> set (op_deps (t_op t)). typed_buffer bv u \<and>
         (\<forall>c. buffer_of bv u = Some c \<longrightarrow> holds H S inp m c u \<and> vid c \<noteq> vid out)"
        "m (vid out) = Some cells" "int (length cells) = prod_list ds"
      have len: "length axis = length is"
        using ax(1) length_in_shape [OF p(1)] length_dims_of [OF dsh] by simp
      show "exec (fp.truncate H) S (SeqStmt [Store out (MakeIdentityForReduce H ty dt) idx NullExpr,
         wrap_reduce_loops rx (Store out (Bin (reduce_bop ty) (Load out idx NullExpr) e) idx NullExpr)])
         (bind_axes axis is en) m = Some (m(vid out \<mapsto> cells[nat (row_major is ds) := Some v]))"
      proof (rule store_reduce [where m = m and out = out and cells = cells, OF p(2) [unfolded t b] l(2) _ _ ax(2) len _ dt p(4)])
        show "eval (fp.truncate H) S en m idx = Some (VI (row_major is ds))"
          if "\<And>k. k < length axis \<Longrightarrow> en (vid (axis ! k)) = Some (VI (is ! k))" for en m
          by (rule idx_at [OF l(1) p(1) that])
      qed (use p(3,5) row_major_bounds [OF p(1)] red b in \<open>auto simp: deps\<close>)
    qed (use ax l in \<open>simp_all add: t\<close>)
  qed
qed

text \<open>The statement stores every element of its tensor and touches no other buffer.\<close>

lemma LowerComputeStmt_correct:
  assumes ok: "op_ok t" and dims: "dims_of (fp.truncate H) S (t_shape t) = Some ds" "small_shape ds"
    and low: "LowerComputeStmt H bv t = Inr s"
    and out: "buffer_of bv t = Some out" "typed_buffer bv t"
    and deps: "\<forall>u \<in> set (op_deps (t_op t)). typed_buffer bv u \<and>
         (\<forall>c. buffer_of bv u = Some c \<longrightarrow> holds H S inp m c u \<and> vid c \<noteq> vid out)"
    and elem: "\<And>is. in_shape is ds \<Longrightarrow> te_elem H S inp t is \<noteq> None"
    and mem: "m (vid out) = Some cells" "int (length cells) = prod_list ds"
  shows "\<exists>cells'. exec (fp.truncate H) S s en m = Some (m(vid out \<mapsto> cells')) \<and>
     length cells' = length cells \<and> holds H S inp (m(vid out \<mapsto> cells')) out t"
proof -
  let ?F = "fp.truncate H"
  let ?pos = "\<lambda>is. nat (row_major is ds)" and ?val = "\<lambda>is. the (te_elem H S inp t is)"
  obtain axis X where X: "length axis = length (t_shape t)" "\<forall>v \<in> set axis. vdtype v = dt_Int 32 1"
    "WrapDataLoops axis (t_shape t) X = Inr s"
    "\<And>is v en m cells. in_shape is ds \<Longrightarrow> te_elem H S inp t is = Some v \<Longrightarrow>
       \<forall>u \<in> set (op_deps (t_op t)). typed_buffer bv u \<and>
         (\<forall>c. buffer_of bv u = Some c \<longrightarrow> holds H S inp m c u \<and> vid c \<noteq> vid out) \<Longrightarrow>
       m (vid out) = Some cells \<Longrightarrow> int (length cells) = prod_list ds \<Longrightarrow>
       exec ?F S X (bind_axes axis is en) m = Some (m(vid out \<mapsto> cells[?pos is := Some v]))"
    by (rule LowerComputeStmt_body [where inp = inp, OF ok dims low out]) blast
  have "\<exists>cells'. ofold (\<lambda>is m. exec ?F S X (bind_axes axis is en) m) (all_indices ds) m =
      Some (m(vid out \<mapsto> cells')) \<and> length cells' = length cells \<and>
     (\<forall>x \<in> set (all_indices ds). cells' ! ?pos x = Some (?val x)) \<and>
     (\<forall>p. p \<notin> ?pos ` set (all_indices ds) \<longrightarrow> cells' ! p = cells ! p)"
  proof (rule ofold_stores [where ?m0.0 = m])
    fix x m1 cs
    assume a: "x \<in> set (all_indices ds)" "m1 (vid out) = Some cs" "length cs = length cells"
      "\<And>c. c \<noteq> vid out \<Longrightarrow> m1 c = m c"
    have x: "in_shape x ds" using a(1) by (simp add: set_all_indices)
    have "holds H S inp m1 c u = holds H S inp m c u" if "vid c \<noteq> vid out" for c u
      using a(4) [OF that] by (rule holds_cong)
    then have d: "\<forall>u \<in> set (op_deps (t_op t)). typed_buffer bv u \<and>
         (\<forall>c. buffer_of bv u = Some c \<longrightarrow> holds H S inp m1 c u \<and> vid c \<noteq> vid out)"
      using deps by blast
    show "exec ?F S X (bind_axes axis x en) m1 = Some (m1(vid out \<mapsto> cs[?pos x := Some (?val x)]))"
      by (rule X(4) [OF x _ d a(2)]) (use elem [OF x] a(3) mem(2) in auto)
  next
    show "inj_on ?pos (set (all_indices ds))"
      using row_major_inj row_major_bounds by (auto simp: inj_on_def set_all_indices eq_nat_nat_iff)
    show "?pos x < length cells" if "x \<in> set (all_indices ds)" for x
      using that row_major_bounds [of x ds] mem(2) by (auto simp: set_all_indices)
  qed (simp_all add: distinct_all_indices mem)
  then obtain cells' where c: "ofold (\<lambda>is m. exec ?F S X (bind_axes axis is en) m) (all_indices ds) m =
      Some (m(vid out \<mapsto> cells'))" "length cells' = length cells"
     "\<forall>x \<in> set (all_indices ds). cells' ! ?pos x = Some (?val x)"
    by blast
  have "exec ?F S s en m = Some (m(vid out \<mapsto> cells'))"
    using exec_data_loops [OF X(3) dims(1) X(1,2), of en m] small_shape_fits [OF dims(2)] c(1) by simp
  moreover have "holds H S inp (m(vid out \<mapsto> cells')) out t"
    unfolding holds_def by (intro exI [of _ cells'] exI [of _ ds]) (use c(2,3) dims(1) mem(2) in
      \<open>auto simp: set_all_indices\<close>)
  ultimately show ?thesis using c(2) by blast
qed

end
