(* ===== verification/Lower_FuncProofs.thy ===== *)
theory Lower_FuncProofs
  imports Lower_StmtProofs
begin

text \<open>
  The lowered function: the operations are sorted, every tensor gets a buffer of its own, and
  running the statements in that order leaves the elements of every output in its buffer.
\<close>

section \<open>Graphs of tensors\<close>

text \<open>
  The tensors of a conversion: closed under the tensors their bodies read, identified by their
  address and by the address of their operation, each a placeholder or a result of \<^verbatim>\<open>compute\<close>.
\<close>

definition te_graph :: "'d te_tensor set \<Rightarrow> bool" where
  "te_graph U \<longleftrightarrow>
     (\<forall>t \<in> U. t_addr t \<noteq> None \<and> op_addr (t_op t) \<noteq> None \<and> (is_placeholder (t_op t) \<or> op_ok t) \<and>
        set (op_deps (t_op t)) \<subseteq> U) \<and>
     inj_on t_addr U \<and> inj_on (\<lambda>t. op_addr (t_op t)) U"

lemma te_graphD:
  assumes "te_graph U" "t \<in> U"
  shows "t_addr t \<noteq> None" "op_addr (t_op t) \<noteq> None" "is_placeholder (t_op t) \<or> op_ok t"
    "set (op_deps (t_op t)) \<subseteq> U"
  using assms by (auto simp: te_graph_def)

lemma op_ok_compute: "op_ok t \<Longrightarrow> is_compute (t_op t)"
  by (auto simp: op_ok_def)

lemma op_kinds: "op_addr op \<noteq> None \<Longrightarrow> is_compute op \<longleftrightarrow> \<not> is_placeholder op"
  by (cases op) simp_all

section \<open>The order of the operations\<close>

text \<open>Each tensor comes after those its operation reads.\<close>

fun sorted_after :: "'d te_tensor set \<Rightarrow> 'd te_tensor list \<Rightarrow> bool" where
  "sorted_after before [] = True"
| "sorted_after before (t # ts) \<longleftrightarrow>
     set (op_deps (t_op t)) \<subseteq> before \<and> sorted_after (insert t before) ts"

lemma sorted_after_snoc:
  "sorted_after B (ts @ [t]) \<longleftrightarrow> sorted_after B ts \<and> set (op_deps (t_op t)) \<subseteq> B \<union> set ts"
  by (induction ts arbitrary: B) auto

text \<open>The state of the search after the tensors \<open>ts\<close>.\<close>

definition dfs_state :: "'d te_tensor set \<Rightarrow> 'd te_tensor list \<Rightarrow> 'd TopoState \<Rightarrow> bool" where
  "dfs_state U ts s \<longleftrightarrow>
     set ts \<subseteq> U \<and> distinct ts \<and> sorted_after {} ts \<and> topo s = map t_op ts \<and>
     visited s = {p. \<exists>t \<in> set ts. op_addr (t_op t) = Some p} \<and>
     (\<forall>t \<in> set ts. Option.bind (op_addr (t_op t)) (op_output s) = Some t)"

lemma dfs_state_start: "dfs_state U [] \<lparr>visited = {}, op_output = (\<lambda>_. None), topo = []\<rparr>"
  by (simp add: dfs_state_def)

text \<open>The visit of one tensor appends it and what it still needs, all no larger than it.\<close>

lemma CollectOpsDFS_state:
  assumes "te_graph U" "dfs_state U ts s" "t \<in> U"
  shows "\<exists>us. dfs_state U (ts @ us) (CollectOpsDFS t s) \<and> t \<in> set (ts @ us) \<and>
     (\<forall>u \<in> set us. size u \<le> size t)"
  using assms(2,3)
proof (induction t s arbitrary: ts rule: CollectOpsDFS.induct)
  case (1 t s)
  note G = te_graphD [OF assms(1) "1.prems"(2)]
  obtain p where p: "op_addr (t_op t) = Some p" using G(2) by blast
  have same: "u = t" if "u \<in> U" "op_addr (t_op u) = Some p" for u
    using assms(1) that "1.prems"(2) p by (auto simp: te_graph_def inj_on_def)
  show ?case
  proof (cases "p \<in> visited s")
    case True
    then have "t \<in> set ts" using "1.prems"(1) same by (auto simp: dfs_state_def)
    then show ?thesis using True p "1.prems"(1)
      by (intro exI [of _ "[]"]) (simp add: CollectOpsDFS.simps [of t s])
  next
    case False
    have "\<exists>us. dfs_state U (ts @ us) (fold CollectOpsDFS ds s0) \<and> set ds \<subseteq> set (ts @ us) \<and>
        (\<forall>u \<in> set us. size u < size t)"
      if "dfs_state U ts s0" "set ds \<subseteq> set (op_deps (t_op t))" for ds s0 ts
      using that
    proof (induction ds arbitrary: s0 ts)
      case Nil
      then show ?case by (intro exI [of _ "[]"]) simp
    next
      case (Cons d ds)
      have d: "d \<in> set (op_deps (t_op t))" using Cons.prems(2) by simp
      then have lt: "size d < size t" using op_deps_size [of d "t_op t"] p by (cases t) auto
      obtain us where us: "dfs_state U (ts @ us) (CollectOpsDFS d s0)" "d \<in> set (ts @ us)"
        "\<forall>u \<in> set us. size u \<le> size d"
        using "1.IH" [OF p False d Cons.prems(1)] G(4) d by blast
      obtain vs where vs: "dfs_state U ((ts @ us) @ vs) (fold CollectOpsDFS ds (CollectOpsDFS d s0))"
        "set ds \<subseteq> set ((ts @ us) @ vs)" "\<forall>u \<in> set vs. size u < size t"
        using Cons.IH [OF us(1)] Cons.prems(2) by auto
      show ?case using us vs lt by (intro exI [of _ "us @ vs"]) auto
    qed
    from this [OF "1.prems"(1) subset_refl] obtain us where us:
      "dfs_state U (ts @ us) (fold CollectOpsDFS (op_deps (t_op t)) s)"
      "set (op_deps (t_op t)) \<subseteq> set (ts @ us)" "\<forall>u \<in> set us. size u < size t"
      by blast
    let ?s = "fold CollectOpsDFS (op_deps (t_op t)) s"
    have "t \<notin> set ts" using False "1.prems"(1) p by (auto simp: dfs_state_def)
    moreover have "t \<notin> set us" using us(3) by auto
    ultimately have new: "t \<notin> set (ts @ us)" by simp
    have other: "op_addr (t_op u) \<noteq> Some p" if "u \<in> set (ts @ us)" for u
      using same [of u] that us(1) new by (auto simp: dfs_state_def)
    have "CollectOpsDFS t s = ?s\<lparr>visited := insert p (visited ?s), op_output := (op_output ?s)(p \<mapsto> t),
        topo := topo ?s @ [t_op t]\<rparr>"
      using p False by (simp add: CollectOpsDFS.simps [of t s] Let_def)
    moreover have "Option.bind (op_addr (t_op u)) ((op_output ?s)(p \<mapsto> t)) = Some u"
      if "u \<in> set (ts @ us @ [t])" for u
    proof (cases "u = t")
      case False
      then have u: "u \<in> set (ts @ us)" using that by auto
      have "Option.bind (op_addr (t_op u)) (op_output ?s) = Some u"
        using us(1) u unfolding dfs_state_def by blast
      then show ?thesis using other [OF u] by (cases "op_addr (t_op u)") simp_all
    qed (simp add: p)
    ultimately have "dfs_state U (ts @ us @ [t]) (CollectOpsDFS t s)"
      using us(1,2) new p "1.prems"(2) sorted_after_snoc [of "{}" "ts @ us" t]
      by (auto simp: dfs_state_def)
    then show ?thesis using us(3) by (intro exI [of _ "us @ [t]"]) auto
  qed
qed

lemma CollectOps_fold:
  assumes "te_graph U" "dfs_state U ts s" "set outs \<subseteq> U"
  shows "\<exists>us. dfs_state U (ts @ us) (fold CollectOpsDFS outs s) \<and> set outs \<subseteq> set (ts @ us)"
  using assms(2,3)
proof (induction outs arbitrary: ts s)
  case Nil
  then show ?case by (intro exI [of _ "[]"]) simp
next
  case (Cons t outs)
  obtain us where us: "dfs_state U (ts @ us) (CollectOpsDFS t s)" "t \<in> set (ts @ us)"
    using CollectOpsDFS_state [OF assms(1) Cons.prems(1), of t] Cons.prems(2) by auto
  obtain vs where "dfs_state U ((ts @ us) @ vs) (fold CollectOpsDFS outs (CollectOpsDFS t s))"
    "set outs \<subseteq> set ((ts @ us) @ vs)"
    using Cons.IH [OF us(1)] Cons.prems(2) by auto
  then show ?case using us(2) by (intro exI [of _ "us @ vs"]) auto
qed

section \<open>Buffers\<close>

text \<open>The buffer variables of the tensors \<open>L\<close>, numbered from \<open>n\<close> in their order.\<close>

definition buffers_for :: "'d te_tensor list \<Rightarrow> nat \<Rightarrow> 'd LowerState \<Rightarrow> bool" where
  "buffers_for L n s \<longleftrightarrow>
     ls_next s = n + length L \<and> distinct (map t_addr L) \<and> None \<notin> t_addr ` set L \<and>
     (\<forall>i < length L. \<exists>v. buffer_of (ls_bv s) (L ! i) = Some v \<and> vid v = n + i \<and>
        vdtype v = t_dtype (L ! i))"

lemma buffers_for_step:
  assumes "buffers_for L n s" "t_addr t = Some a" "Some a \<notin> t_addr ` set L"
    and "ls_bv s' = (ls_bv s)(a \<mapsto> v)" "vid v = ls_next s" "vdtype v = t_dtype t"
    and "ls_next s' = Suc (ls_next s)"
  shows "buffers_for (L @ [t]) n s'" "u \<in> set L \<Longrightarrow> buffer_of (ls_bv s') u = buffer_of (ls_bv s) u"
proof -
  have same: "buffer_of (ls_bv s') u = buffer_of (ls_bv s) u" if "u \<in> set L" for u
    using that assms(3,4) by (cases "t_addr u") (auto simp: buffer_of_def image_iff)
  then show "u \<in> set L \<Longrightarrow> buffer_of (ls_bv s') u = buffer_of (ls_bv s) u" .
  have "\<exists>v. buffer_of (ls_bv s') ((L @ [t]) ! i) = Some v \<and> vid v = n + i \<and>
      vdtype v = t_dtype ((L @ [t]) ! i)" if "i < length (L @ [t])" for i
  proof (cases "i < length L")
    case True
    then show ?thesis using assms(1) same [of "L ! i"] by (auto simp: buffers_for_def nth_append)
  next
    case False
    then have "i = length L" using that by simp
    then show ?thesis using assms by (simp add: buffers_for_def buffer_of_def)
  qed
  then show "buffers_for (L @ [t]) n s'" using assms by (simp add: buffers_for_def)
qed

definition params_for :: "'d te_tensor list \<Rightarrow> 'd LowerState \<Rightarrow> bool" where
  "params_for L s \<longleftrightarrow> map Some (ls_params s) = map (buffer_of (ls_bv s)) L"

lemma add_buffer_for:
  assumes "buffers_for L n s" "params_for L s" "t_addr t \<noteq> None" "t_addr t \<notin> t_addr ` set L"
  shows "buffers_for (L @ [t]) n (add_buffer t name s)" "params_for (L @ [t]) (add_buffer t name s)"
proof -
  obtain a where a: "t_addr t = Some a" using assms(3) by blast
  let ?v = "\<lparr>vid = ls_next s, name_hint = name, vdtype = t_dtype t\<rparr>"
  have bv: "ls_bv (add_buffer t name s) = (ls_bv s)(a \<mapsto> ?v)" "ls_next (add_buffer t name s) = Suc (ls_next s)"
    "ls_params (add_buffer t name s) = ls_params s @ [?v]"
    by (simp_all add: add_buffer_def Let_def a)
  note step = buffers_for_step [OF assms(1) a _ bv(1) _ _ bv(2)]
  show "buffers_for (L @ [t]) n (add_buffer t name s)" using step(1) assms(4) a by simp
  have "buffer_of (ls_bv (add_buffer t name s)) t = Some ?v" by (simp add: buffer_of_def a bv(1))
  moreover have "map (buffer_of (ls_bv (add_buffer t name s))) L = map (buffer_of (ls_bv s)) L"
    using step(2) assms(4) a by simp
  ultimately show "params_for (L @ [t]) (add_buffer t name s)"
    using assms(2) by (simp add: params_for_def bv(3))
qed

lemma add_data_for:
  assumes "buffers_for L n s" "params_for L s" "distinct (map t_addr (L @ ts))" "None \<notin> t_addr ` set ts"
  shows "buffers_for (L @ ts) n (fold add_data ts s) \<and> params_for (L @ ts) (fold add_data ts s)"
  using assms
proof (induction ts arbitrary: L s)
  case (Cons t ts)
  have "buffers_for (L @ [t]) n (add_data t s) \<and> params_for (L @ [t]) (add_data t s)"
    unfolding add_data_def by (intro conjI add_buffer_for) (use Cons.prems in auto)
  then show ?case using Cons.IH [of "L @ [t]" "add_data t s"] Cons.prems by (simp add: comp_def)
qed simp

lemma add_outputs_for:
  assumes "buffers_for L n s" "params_for L s" "distinct (map t_addr (L @ ts))" "None \<notin> t_addr ` set ts"
  shows "buffers_for (L @ ts) n (add_outputs i used ts s) \<and> params_for (L @ ts) (add_outputs i used ts s)"
  using assms
proof (induction ts arbitrary: L s i used)
  case (Cons t ts)
  obtain name used' where n: "MakeOutputVarName t i used = (name, used')" by fastforce
  have "buffers_for (L @ [t]) n (add_buffer t name s) \<and> params_for (L @ [t]) (add_buffer t name s)"
    by (intro conjI add_buffer_for) (use Cons.prems in auto)
  then show ?case using Cons.IH [of "L @ [t]" "add_buffer t name s"] Cons.prems by (simp add: n)
qed simp

lemma add_local_for:
  assumes "buffers_for L n s" "distinct (map t_addr (L @ ts))" "None \<notin> t_addr ` set ts"
  shows "buffers_for (L @ ts) n (fold add_local ts s) \<and> ls_params (fold add_local ts s) = ls_params s \<and>
    (\<forall>u \<in> set L. buffer_of (ls_bv (fold add_local ts s)) u = buffer_of (ls_bv s) u)"
  using assms
proof (induction ts arbitrary: L s)
  case (Cons t ts)
  obtain a where a: "t_addr t = Some a" using Cons.prems(3) by (cases "t_addr t") auto
  let ?v = "\<lparr>vid = ls_next s, name_hint = t_name t, vdtype = t_dtype t\<rparr>"
  have bv: "ls_bv (add_local t s) = (ls_bv s)(a \<mapsto> ?v)" "ls_next (add_local t s) = Suc (ls_next s)"
    "ls_params (add_local t s) = ls_params s"
    by (simp_all add: add_local_def a)
  have new: "Some a \<notin> t_addr ` set L" using Cons.prems(2) a by auto
  note step = buffers_for_step [OF Cons.prems(1) a new bv(1) _ _ bv(2)]
  have "buffers_for (L @ [t]) n (add_local t s)" using step(1) by simp
  from Cons.IH [OF this] Cons.prems(2,3) step(2) bv(3) show ?case by simp
qed simp

lemma buffers_for_member:
  assumes "buffers_for L n s" "t \<in> set L"
  shows "\<exists>b. buffer_of (ls_bv s) t = Some b \<and> vdtype b = t_dtype t"
  using assms by (auto simp: buffers_for_def in_set_conv_nth)

lemma buffers_for_apart:
  assumes "buffers_for L n s" "t \<in> set L" "u \<in> set L" "t \<noteq> u"
    and "buffer_of (ls_bv s) t = Some b" "buffer_of (ls_bv s) u = Some c"
  shows "vid b \<noteq> vid c"
proof -
  obtain i j where "i < length L" "L ! i = t" "j < length L" "L ! j = u" "i \<noteq> j"
    using assms(2-4) by (metis in_set_conv_nth)
  then show ?thesis using assms(1,5,6) by (auto simp: buffers_for_def) (metis add_left_cancel option.inject)
qed

section \<open>Running the statements\<close>

text \<open>Every element of a tensor is defined, at positions a 32-bit index reaches.\<close>

definition all_defined ::
  "'d te_host \<Rightarrow> 'd sem \<Rightarrow> (nat \<Rightarrow> int list \<Rightarrow> 'd val option) \<Rightarrow> 'd te_tensor \<Rightarrow> bool" where
  "all_defined H S inp t \<longleftrightarrow>
     (\<exists>ds. dims_of (fp.truncate H) S (t_shape t) = Some ds \<and> small_shape ds \<and>
        (\<forall>is. in_shape is ds \<longrightarrow> te_elem H S inp t is \<noteq> None))"

text \<open>A buffer with room for the elements of a tensor.\<close>

definition room_for :: "'d te_host \<Rightarrow> 'd sem \<Rightarrow> 'd mem \<Rightarrow> tir_var \<Rightarrow> 'd te_tensor \<Rightarrow> bool" where
  "room_for H S m b t \<longleftrightarrow>
     (\<exists>cells ds. dims_of (fp.truncate H) S (t_shape t) = Some ds \<and> m (vid b) = Some cells \<and>
        int (length cells) = prod_list ds)"

lemma room_for_cong: "m (vid b) = m' (vid b) \<Longrightarrow> room_for H S m b t = room_for H S m' b t"
  by (simp add: room_for_def)

lemma exec_computes:
  assumes "te_graph U" "B \<union> set ts \<subseteq> U" "sorted_after B ts" "distinct ts" "B \<inter> set ts = {}"
    and "list_all2 (\<lambda>t s. LowerComputeStmt H bv t = Inr s) (filter (\<lambda>t. is_compute (t_op t)) ts) ss"
    and buf: "\<And>t. t \<in> B \<union> set ts \<Longrightarrow> \<exists>b. buffer_of bv t = Some b \<and> vdtype b = t_dtype t"
    and apart: "\<And>t u b c. t \<in> B \<union> set ts \<Longrightarrow> u \<in> B \<union> set ts \<Longrightarrow> t \<noteq> u \<Longrightarrow> buffer_of bv t = Some b \<Longrightarrow>
      buffer_of bv u = Some c \<Longrightarrow> vid b \<noteq> vid c"
    and "\<And>t b. t \<in> B \<Longrightarrow> buffer_of bv t = Some b \<Longrightarrow> holds H S inp m b t"
    and "\<And>t b. t \<in> set ts \<Longrightarrow> \<not> is_compute (t_op t) \<Longrightarrow> buffer_of bv t = Some b \<Longrightarrow> holds H S inp m b t"
    and "\<And>t b. t \<in> set ts \<Longrightarrow> is_compute (t_op t) \<Longrightarrow> buffer_of bv t = Some b \<Longrightarrow> room_for H S m b t"
    and "\<And>t. t \<in> set ts \<Longrightarrow> is_compute (t_op t) \<Longrightarrow> all_defined H S inp t"
  shows "\<exists>m'. ofold (\<lambda>s. exec (fp.truncate H) S s en) ss m = Some m' \<and>
     (\<forall>t \<in> B \<union> set ts. \<forall>b. buffer_of bv t = Some b \<longrightarrow> holds H S inp m' b t) \<and>
     (\<forall>x. (\<forall>t \<in> set ts. \<forall>b. is_compute (t_op t) \<longrightarrow> buffer_of bv t = Some b \<longrightarrow> x \<noteq> vid b) \<longrightarrow> m' x = m x)"
  using assms
proof (induction ts arbitrary: B m ss)
  case Nil
  then show ?case by simp
next
  case (Cons t ts)
  note G = te_graphD [OF assms(1), of t]
  have tU: "t \<in> U" using Cons.prems(2) by simp
  have deps: "set (op_deps (t_op t)) \<subseteq> B" using Cons.prems(3) by simp
  obtain b where b: "buffer_of bv t = Some b" "vdtype b = t_dtype t" using Cons.prems(7) [of t] by auto
  have tB: "t \<notin> B" using Cons.prems(5) by simp
  show ?case
  proof (cases "is_compute (t_op t)")
    case False
    then have held: "holds H S inp m c u" if "u \<in> insert t B" "buffer_of bv u = Some c" for u c
      using that Cons.prems(9,10) by auto
    have "\<exists>m'. ofold (\<lambda>s. exec (fp.truncate H) S s en) ss m = Some m' \<and>
     (\<forall>u \<in> insert t B \<union> set ts. \<forall>b. buffer_of bv u = Some b \<longrightarrow> holds H S inp m' b u) \<and>
     (\<forall>x. (\<forall>u \<in> set ts. \<forall>b. is_compute (t_op u) \<longrightarrow> buffer_of bv u = Some b \<longrightarrow> x \<noteq> vid b) \<longrightarrow> m' x = m x)"
      by (rule Cons.IH [OF assms(1)]) (use Cons.prems False held in auto)
    then show ?thesis using False by auto
  next
    case True
    have ok: "op_ok t" using G(3) tU G(2) True op_kinds by auto
    obtain s ss' where s: "ss = s # ss'" "LowerComputeStmt H bv t = Inr s"
      "list_all2 (\<lambda>t s. LowerComputeStmt H bv t = Inr s) (filter (\<lambda>t. is_compute (t_op t)) ts) ss'"
      using Cons.prems(6) True by (auto simp: list_all2_Cons1)
    obtain ds where ds: "dims_of (fp.truncate H) S (t_shape t) = Some ds" "small_shape ds"
      "\<And>is. in_shape is ds \<Longrightarrow> te_elem H S inp t is \<noteq> None"
      using Cons.prems(12) [of t] True by (auto simp: all_defined_def)
    obtain cells where cells: "m (vid b) = Some cells" "int (length cells) = prod_list ds"
      using Cons.prems(11) [of t b] True b(1) ds(1) by (auto simp: room_for_def)
    have d: "\<forall>u \<in> set (op_deps (t_op t)). typed_buffer bv u \<and>
         (\<forall>c. buffer_of bv u = Some c \<longrightarrow> holds H S inp m c u \<and> vid c \<noteq> vid b)"
    proof (intro ballI conjI allI impI)
      fix u assume u: "u \<in> set (op_deps (t_op t))"
      then have uB: "u \<in> B" using deps by blast
      show "typed_buffer bv u" using Cons.prems(7) [of u] uB by (auto simp: typed_buffer_def)
      fix c assume c: "buffer_of bv u = Some c"
      show "holds H S inp m c u" using Cons.prems(9) uB c by blast
      show "vid c \<noteq> vid b" using Cons.prems(8) [of u t c b] uB tB c b(1) by auto
    qed
    have ty: "typed_buffer bv t" using b by (simp add: typed_buffer_def)
    obtain cells' where e: "exec (fp.truncate H) S s en m = Some (m(vid b \<mapsto> cells'))"
      "length cells' = length cells" "holds H S inp (m(vid b \<mapsto> cells')) b t"
      using LowerComputeStmt_correct [OF ok ds(1,2) s(2) b(1) ty d ds(3) cells, of en] by blast
    let ?m = "m(vid b \<mapsto> cells')"
    have other: "?m (vid c) = m (vid c)" if "u \<in> B \<union> set ts" "buffer_of bv u = Some c" for u c
      using Cons.prems(8) [of u t c b] that b(1) tB Cons.prems(4) by auto
    have "\<exists>m'. ofold (\<lambda>s. exec (fp.truncate H) S s en) ss' ?m = Some m' \<and>
     (\<forall>u \<in> insert t B \<union> set ts. \<forall>b. buffer_of bv u = Some b \<longrightarrow> holds H S inp m' b u) \<and>
     (\<forall>x. (\<forall>u \<in> set ts. \<forall>b. is_compute (t_op u) \<longrightarrow> buffer_of bv u = Some b \<longrightarrow> x \<noteq> vid b) \<longrightarrow> m' x = ?m x)"
    proof (rule Cons.IH [OF assms(1)])
      show "holds H S inp ?m c u" if "u \<in> insert t B" "buffer_of bv u = Some c" for u c
        using that e(3) b(1) Cons.prems(9) [of u c] other [of u c] holds_cong [of ?m c m H S inp u] tB
        by (cases "u = t") auto
      show "holds H S inp ?m c u" if "u \<in> set ts" "\<not> is_compute (t_op u)" "buffer_of bv u = Some c" for u c
        using Cons.prems(10) [of u c] that other [of u c] holds_cong [of ?m c m H S inp u] by auto
      show "room_for H S ?m c u" if "u \<in> set ts" "is_compute (t_op u)" "buffer_of bv u = Some c" for u c
        using Cons.prems(11) [of u c] that other [of u c] room_for_cong [of ?m c m H S u] by auto
    qed (use Cons.prems s(3) in auto)
    then obtain m' where m': "ofold (\<lambda>s. exec (fp.truncate H) S s en) ss' ?m = Some m'"
      "\<forall>u \<in> insert t B \<union> set ts. \<forall>b. buffer_of bv u = Some b \<longrightarrow> holds H S inp m' b u"
      "\<forall>x. (\<forall>u \<in> set ts. \<forall>b. is_compute (t_op u) \<longrightarrow> buffer_of bv u = Some b \<longrightarrow> x \<noteq> vid b) \<longrightarrow> m' x = ?m x"
      by blast
    have "ofold (\<lambda>s. exec (fp.truncate H) S s en) ss m = Some m'" using m'(1) e(1) by (simp add: s(1))
    moreover have "m' x = m x"
      if "\<forall>u \<in> set (t # ts). \<forall>b. is_compute (t_op u) \<longrightarrow> buffer_of bv u = Some b \<longrightarrow> x \<noteq> vid b" for x
      using m'(3) that b(1) True by (metis fun_upd_apply list.set_intros(1,2))
    ultimately show ?thesis using m'(2) by auto
  qed
qed

lemma bind_ofold_Nil [simp]: "Option.bind x (ofold f []) = x"
  by (cases x) simp_all

lemma exec_seq_of: "exec F S (seq_of ss) en m = ofold (\<lambda>s. exec F S s en) ss m"
  by (auto simp: seq_of_def split: list.splits)

lemma alloc_size_ints:
  "(\<And>k. k \<in> set ds \<Longrightarrow> 0 \<le> k) \<Longrightarrow> alloc_size (map VI ds :: 'd val list) = Some (nat (prod_list ds))"
proof -
  have "omap int_of_val (map VI ds :: 'd val list) = Some ds" by (induction ds) auto
  moreover assume "\<And>k. k \<in> set ds \<Longrightarrow> 0 \<le> k"
  ultimately show ?thesis by (simp add: alloc_size_def)
qed

text \<open>The allocations give every local tensor room and leave the other buffers alone.\<close>

lemma exec_allocate_locals:
  assumes "\<And>t. t \<in> set ts \<Longrightarrow> \<exists>b. buffer_of bv t = Some b"
    and "\<And>t. t \<in> set ts \<Longrightarrow> all_defined H S inp t"
    and "\<And>m'. (\<And>t b. t \<in> set ts \<Longrightarrow> buffer_of bv t = Some b \<Longrightarrow> room_for H S m' b t) \<Longrightarrow>
       (\<And>x. (\<forall>t \<in> set ts. \<forall>b. buffer_of bv t = Some b \<longrightarrow> x \<noteq> vid b) \<Longrightarrow> m' x = m x) \<Longrightarrow>
       \<exists>m''. exec (fp.truncate H) S s en m' = Some m'' \<and> Q m''"
    and "\<And>m m' :: 'd mem. Q m \<Longrightarrow>
       (\<And>x. (\<forall>t \<in> set ts. \<forall>b. buffer_of bv t = Some b \<longrightarrow> x \<noteq> vid b) \<Longrightarrow> m' x = m x) \<Longrightarrow> Q m'"
    and "\<And>t u b c. t \<in> set ts \<Longrightarrow> u \<in> set ts \<Longrightarrow> t \<noteq> u \<Longrightarrow> buffer_of bv t = Some b \<Longrightarrow>
       buffer_of bv u = Some c \<Longrightarrow> vid b \<noteq> vid c"
    and "distinct ts"
  shows "\<exists>m''. exec (fp.truncate H) S (allocate_locals bv ts s) en (m :: 'd mem) = Some m'' \<and> Q m''"
  using assms
proof (induction ts arbitrary: m)
  case Nil
  then show ?case by (simp add: allocate_locals_def)
next
  case (Cons t ts)
  obtain b where b: "buffer_of bv t = Some b" using Cons.prems(1) by auto
  obtain ds where ds: "dims_of (fp.truncate H) S (t_shape t) = Some ds" "small_shape ds"
    using Cons.prems(2) [of t] by (auto simp: all_defined_def)
  have nn: "0 \<le> d" if "d \<in> set ds" for d using ds(2) that by (simp add: small_shape_def)
  let ?m = "m(vid b \<mapsto> replicate (nat (prod_list ds)) None)"
  have room: "room_for H S ?m b t"
    using ds(1) prod_list_nonneg [of ds] nn by (auto simp: room_for_def)
  have "\<exists>m''. exec (fp.truncate H) S (allocate_locals bv ts s) en ?m = Some m'' \<and> Q m''"
  proof (rule Cons.IH)
    fix m'
    assume a: "\<And>u c. u \<in> set ts \<Longrightarrow> buffer_of bv u = Some c \<Longrightarrow> room_for H S m' c u"
      "\<And>x. (\<forall>u \<in> set ts. \<forall>c. buffer_of bv u = Some c \<longrightarrow> x \<noteq> vid c) \<Longrightarrow> m' x = ?m x"
    have "vid b \<noteq> vid c" if "u \<in> set ts" "buffer_of bv u = Some c" for u c
      using Cons.prems(5) [of t u b c] Cons.prems(6) that b by auto
    then have "m' (vid b) = ?m (vid b)" by (intro a(2)) blast
    then have mb: "room_for H S m' b t" using room room_for_cong [of m' b ?m] by simp
    show "\<exists>m''. exec (fp.truncate H) S s en m' = Some m'' \<and> Q m''"
    proof (rule Cons.prems(3))
      show "room_for H S m' c u" if "u \<in> set (t # ts)" "buffer_of bv u = Some c" for u c
        using that a(1) mb b by auto
      show "m' x = m x" if "\<forall>u \<in> set (t # ts). \<forall>c. buffer_of bv u = Some c \<longrightarrow> x \<noteq> vid c" for x
        using that a(2) [of x] b by auto
    qed
  next
    fix m m' :: "'d mem"
    assume q: "Q m" "\<And>x. (\<forall>u \<in> set ts. \<forall>c. buffer_of bv u = Some c \<longrightarrow> x \<noteq> vid c) \<Longrightarrow> m' x = m x"
    show "Q m'" by (rule Cons.prems(4) [OF q(1)]) (use q(2) in auto)
  next
    show "vid c \<noteq> vid d" if "u \<in> set ts" "v \<in> set ts" "u \<noteq> v" "buffer_of bv u = Some c"
      "buffer_of bv v = Some d" for u v c d
      by (rule Cons.prems(5) [OF _ _ that(3-5)]) (use that(1,2) in simp_all)
  qed (use Cons.prems(1,2,6) in auto)
  then obtain m'' where m'': "exec (fp.truncate H) S (allocate_locals bv ts s) en ?m = Some m''" "Q m''"
    by blast
  have size: "alloc_size (map VI ds :: 'd val list) = Some (nat (prod_list ds))"
    by (rule alloc_size_ints) (rule nn)
  have "exec (fp.truncate H) S (allocate_locals bv (t # ts) s) en m = Some (m''(vid b := m (vid b)))"
    using m''(1) dims_of_eval [OF ds(1), of en m] size b
    by (simp add: allocate_locals_def del: fun_upd_apply)
  moreover have "Q (m''(vid b := m (vid b)))"
    by (rule Cons.prems(4) [OF m''(2)]) (use b in auto)
  ultimately show ?case by blast
qed

section \<open>The whole function\<close>

lemma intermediates_eq:
  assumes "dfs_state U ts st"
  shows "intermediate_tensors outputs st =
     filter (\<lambda>t. t_addr t \<notin> t_addr ` set outputs) (filter (\<lambda>t. is_compute (t_op t)) ts)"
proof -
  have "List.map_filter (\<lambda>op. Option.bind (op_addr op) (op_output st)) (filter is_compute (map t_op us)) =
      filter (\<lambda>t. is_compute (t_op t)) us" if "set us \<subseteq> set ts" for us
    using that
  proof (induction us)
    case (Cons u us)
    then have "Option.bind (op_addr (t_op u)) (op_output st) = Some u"
      using assms by (auto simp: dfs_state_def)
    then show ?case using Cons by (simp add: List.map_filter_simps)
  qed (simp add: List.map_filter_simps)
  then show ?thesis using assms by (simp add: intermediate_tensors_def dfs_state_def)
qed

lemma operations_lowered:
  assumes "te_graph U" "dfs_state U ts st"
    and "smap (lower_operation H bv st) (filter (\<lambda>op. \<not> is_placeholder op) (topo st)) = Inr ss"
  shows "list_all2 (\<lambda>t s. LowerComputeStmt H bv t = Inr s) (filter (\<lambda>t. is_compute (t_op t)) ts) ss"
proof -
  have "list_all2 (\<lambda>t s. LowerComputeStmt H bv t = Inr s) (filter (\<lambda>t. is_compute (t_op t)) us) ss"
    if "set us \<subseteq> set ts" "smap (lower_operation H bv st) (filter (\<lambda>op. \<not> is_placeholder op) (map t_op us)) = Inr ss"
    for us ss using that
  proof (induction us arbitrary: ss)
    case (Cons u us)
    have u: "u \<in> U" "u \<in> set ts" using assms(2) Cons.prems(1) by (auto simp: dfs_state_def)
    have k: "is_compute (t_op u) \<longleftrightarrow> \<not> is_placeholder (t_op u)"
      using te_graphD(2) [OF assms(1) u(1)] op_kinds by blast
    have o: "Option.bind (op_addr (t_op u)) (op_output st) = Some u"
      using assms(2) u(2) by (auto simp: dfs_state_def)
    show ?case
    proof (cases "is_compute (t_op u)")
      case True
      then obtain s ss' where s: "lower_operation H bv st (t_op u) = Inr s" "ss = s # ss'"
        "smap (lower_operation H bv st) (filter (\<lambda>op. \<not> is_placeholder op) (map t_op us)) = Inr ss'"
        using Cons.prems(2) k by (auto simp: sbind_simps)
      have "LowerComputeStmt H bv u = Inr s"
        using s(1) o True by (auto simp: lower_operation_def split: sum.splits cpp_error.splits)
      then show ?thesis using Cons.IH [OF _ s(3)] Cons.prems(1) True s(2) by simp
    qed (use Cons k in simp)
  qed simp
  from this [OF subset_refl] show ?thesis using assms(2,3) by (simp add: dfs_state_def)
qed

lemma check_outputs_ok:
  "check_outputs i seen outs = Inr u \<Longrightarrow>
   (\<forall>t \<in> set outs. t_addr t \<noteq> None \<and> is_compute (t_op t) \<and> the (t_addr t) \<notin> fst ` set seen) \<and>
   distinct (map t_addr outs)"
proof (induction i seen outs rule: check_outputs.induct)
  case (2 i seen t ts)
  obtain a where a: "t_addr t = Some a" "map_of seen a = None" "is_compute (t_op t)"
    "check_outputs (Suc i) ((a, i) # seen) ts = Inr u"
    using "2.prems" by (auto split: option.splits if_splits)
  from "2.IH" [OF a(1,2) _ a(4)] a(3)
  have "\<forall>t \<in> set ts. t_addr t \<noteq> None \<and> is_compute (t_op t) \<and> the (t_addr t) \<notin> fst ` set ((a, i) # seen)"
    "distinct (map t_addr ts)" by simp_all
  then show ?case using a by (auto simp: map_of_eq_None_iff)
qed simp

text \<open>
C2. Lowering preserves the meaning of tensors. Let the lowering of a graph of tensors return, let
every element of a computed tensor be defined (for its shape, whose extents and number of elements
are below 2^31) and let the buffers of the inputs and constants hold their tensors and those of the
outputs have room. Then the lowered statement runs to its end, the output buffers hold the elements
of the output tensors in row-major order, and the inputs and constants are unchanged. The graph is
closed under reads, its tensors have an address of their own and an operation of their own, and each
is a placeholder among the inputs and constants or has one body as \<^verbatim>\<open>compute\<close> makes it.
\<close>

theorem lower_tensors_correct:
  assumes low: "lower_tensors H inputs constants outputs n = Inr (ps, bufs, s)"
    and graph: "te_graph U" "set inputs \<union> set constants \<union> set outputs \<subseteq> U"
    and data: "\<And>t. t \<in> U \<Longrightarrow> is_placeholder (t_op t) \<longleftrightarrow> t \<in> set (inputs @ constants)"
      "distinct (inputs @ constants)"
    and elems: "\<And>t. t \<in> U \<Longrightarrow> is_compute (t_op t) \<Longrightarrow> all_defined H S inp t"
    and inputs_held: "\<And>i. i < length (inputs @ constants) \<Longrightarrow>
      holds H S inp m (ps ! i) ((inputs @ constants) ! i)"
    and room: "\<And>j. j < length outputs \<Longrightarrow>
      room_for H S m (ps ! (length (inputs @ constants) + j)) (outputs ! j)"
  shows "\<exists>m'. exec (fp.truncate H) S s en m = Some m' \<and>
     (\<forall>j < length outputs.
        holds H S inp m' (ps ! (length (inputs @ constants) + j)) (outputs ! j)) \<and>
     (\<forall>i < length (inputs @ constants). m' (vid (ps ! i)) = m (vid (ps ! i)))"
proof -
  let ?D = "inputs @ constants" and ?F = "fp.truncate H"
  let ?s0 = "\<lparr>ls_params = [], ls_buffers = [], ls_bv = (\<lambda>_. None), ls_next = n\<rparr> :: 'a LowerState"
  define st where "st = fold CollectOpsDFS outputs \<lparr>visited = {}, op_output = (\<lambda>_. None), topo = []\<rparr>"
  define s1 where "s1 = add_outputs 0 [] outputs (fold add_data constants (fold add_data inputs ?s0))"
  define locals where "locals = intermediate_tensors outputs st"
  define s2 where "s2 = fold add_local locals s1"
  let ?bv = "ls_bv s2"
  from low obtain ss where
    chk: "check_outputs 0 [] outputs = Inr ()" and
    ss: "smap (lower_operation H ?bv st) (filter (\<lambda>op. \<not> is_placeholder op) (topo st)) = Inr ss" and
    res: "ps = ls_params s2" "s = allocate_locals ?bv locals (seq_of ss)"
    by (auto simp: lower_tensors_def Let_def sbind_simps st_def s1_def s2_def locals_def
        split: if_splits)
  note outs = check_outputs_ok [OF chk]
  obtain ts where ts: "dfs_state U ts st" "set outputs \<subseteq> set ts"
    using CollectOps_fold [OF graph(1) dfs_state_start, of outputs] graph(2) by (auto simp: st_def)
  have tsU: "set ts \<subseteq> U" "distinct ts" "sorted_after {} ts" using ts(1) by (auto simp: dfs_state_def)
  have inj: "t = u" if "t \<in> U" "u \<in> U" "t_addr t = t_addr u" for t u
    using graph(1) that by (auto simp: te_graph_def inj_on_def)
  have kind: "is_compute (t_op t) \<longleftrightarrow> t \<notin> set ?D" if "t \<in> U" for t
    using te_graphD(2) [OF graph(1) that] op_kinds data(1) [OF that] by blast
  have locs: "locals = filter (\<lambda>t. t_addr t \<notin> t_addr ` set outputs) (filter (\<lambda>t. is_compute (t_op t)) ts)"
    unfolding locals_def by (rule intermediates_eq [OF ts(1)])
  have sub: "set (?D @ outputs @ locals) \<subseteq> U" using graph(2) tsU(1) locs by auto
  have some: "None \<notin> t_addr ` set (?D @ outputs @ locals)"
    using sub te_graphD(1) [OF graph(1)] by force
  then have somes: "None \<notin> t_addr ` set inputs" "None \<notin> t_addr ` set constants"
    "None \<notin> t_addr ` set outputs" "None \<notin> t_addr ` set locals" by auto
  have "distinct (?D @ outputs @ locals)"
  proof -
    have "t \<notin> set ?D" if "t \<in> set (outputs @ locals)" for t
    proof -
      have "t \<in> U" using sub that by auto
      moreover have "is_compute (t_op t)" using that outs locs by auto
      ultimately show ?thesis using kind by blast
    qed
    then have "set ?D \<inter> set (outputs @ locals) = {}" by blast
    moreover have "set outputs \<inter> set locals = {}" using locs by auto
    moreover have "distinct outputs" using outs by (simp add: distinct_map)
    moreover have "distinct locals" using tsU(2) locs by simp
    ultimately show ?thesis using data(2) by auto
  qed
  moreover have "inj_on t_addr (set (?D @ outputs @ locals))"
    using sub inj by (meson inj_onI subsetD)
  ultimately have dist: "distinct (map t_addr (?D @ outputs @ locals))"
    by (simp only: distinct_map)
  then have dists: "distinct (map t_addr inputs)" "distinct (map t_addr ?D)"
    "distinct (map t_addr (?D @ outputs))" "distinct (map t_addr ((?D @ outputs) @ locals))"
    by auto
  have s1: "buffers_for (?D @ outputs) n s1 \<and> params_for (?D @ outputs) s1"
  proof -
    have "buffers_for [] n ?s0 \<and> params_for [] ?s0" by (simp add: buffers_for_def params_for_def)
    then have "buffers_for inputs n (fold add_data inputs ?s0) \<and> params_for inputs (fold add_data inputs ?s0)"
      using add_data_for [of "[]" n ?s0 inputs] dists(1) somes(1) by simp
    then have "buffers_for ?D n (fold add_data constants (fold add_data inputs ?s0)) \<and>
        params_for ?D (fold add_data constants (fold add_data inputs ?s0))"
      using add_data_for [of inputs n "fold add_data inputs ?s0" constants] dists(2) somes(2) by blast
    then show ?thesis unfolding s1_def
      using add_outputs_for [of ?D n _ outputs 0 "[]"] dists(3) somes(3) by blast
  qed
  have s2: "buffers_for (?D @ outputs @ locals) n s2" "ls_params s2 = ls_params s1"
    "\<forall>u \<in> set (?D @ outputs). buffer_of ?bv u = buffer_of (ls_bv s1) u"
    using add_local_for [OF conjunct1 [OF s1] dists(4) somes(4)] unfolding s2_def append_assoc by blast+
  have "map (buffer_of (ls_bv s1)) (?D @ outputs) = map (buffer_of ?bv) (?D @ outputs)"
    using s2(3) by simp
  then have params: "map Some ps = map (buffer_of ?bv) (?D @ outputs)"
    using s1 s2(2) by (simp add: params_for_def res(1) del: map_append)
  then have lenp: "length ps = length (?D @ outputs)" by (metis length_map)
  have param: "buffer_of ?bv ((?D @ outputs) ! i) = Some (ps ! i)" if "i < length (?D @ outputs)" for i
    using arg_cong [OF params, of "\<lambda>xs. xs ! i"] that lenp by (simp del: map_append append_assoc)
  have param_in: "buffer_of ?bv (?D ! i) = Some (ps ! i)" if "i < length ?D" for i
    using param [of i] that nth_append_left [OF that, of outputs] by (simp del: append_assoc)
  have param_out: "buffer_of ?bv (outputs ! j) = Some (ps ! (length ?D + j))" if "j < length outputs" for j
    using param [of "length ?D + j"] that nth_append_length_plus [of ?D outputs j] by (simp del: append_assoc)
  have all: "set ts \<union> set ?D \<subseteq> set (?D @ outputs @ locals)"
    using kind tsU(1) locs ts(2) inj graph(2) by auto (metis (no_types, lifting) image_iff subset_iff)
  note member = buffers_for_member [OF s2(1)] and apart = buffers_for_apart [OF s2(1)]
  let ?Q = "\<lambda>m'. (\<forall>t \<in> set outputs. \<forall>b. buffer_of ?bv t = Some b \<longrightarrow> holds H S inp m' b t) \<and>
      (\<forall>t \<in> set ?D. \<forall>b. buffer_of ?bv t = Some b \<longrightarrow> m' (vid b) = m (vid b))"
  have held: "holds H S inp m b t" if "t \<in> set ?D" "buffer_of ?bv t = Some b" for t b
  proof -
    obtain i where i: "i < length ?D" "?D ! i = t" using \<open>t \<in> set ?D\<close> by (metis in_set_conv_nth)
    then have "buffer_of ?bv t = Some (ps ! i)" using param_in [OF i(1)] by simp
    then have "b = ps ! i" using that(2) by (simp only: option.inject)
    then show ?thesis using inputs_held [OF i(1)] i(2) by (simp only:)
  qed
  have out_room: "room_for H S m b t" if "t \<in> set outputs" "buffer_of ?bv t = Some b" for t b
  proof -
    obtain j where j: "j < length outputs" "outputs ! j = t" using \<open>t \<in> set outputs\<close> by (metis in_set_conv_nth)
    then have "buffer_of ?bv t = Some (ps ! (length ?D + j))"
      using param_out [OF j(1)] by simp
    then have "b = ps ! (length ?D + j)" using that(2) by (simp only: option.inject)
    then show ?thesis using room [OF j(1)] j(2) by (simp only:)
  qed
  have "\<exists>m''. exec ?F S (allocate_locals ?bv locals (seq_of ss)) en m = Some m'' \<and> ?Q m''"
  proof (rule exec_allocate_locals [where inp = inp])
    fix m'
    assume a: "\<And>t b. t \<in> set locals \<Longrightarrow> buffer_of ?bv t = Some b \<Longrightarrow> room_for H S m' b t"
      "\<And>x. (\<forall>t \<in> set locals. \<forall>b. buffer_of ?bv t = Some b \<longrightarrow> x \<noteq> vid b) \<Longrightarrow> m' x = m x"
    have same: "m' (vid b) = m (vid b)" if "t \<in> set (?D @ outputs)" "buffer_of ?bv t = Some b" for t b
    proof (rule a(2), intro ballI allI impI)
      fix u c assume u: "u \<in> set locals" "buffer_of ?bv u = Some c"
      have "t \<noteq> u" using that(1) u(1) dist by auto
      then show "vid b \<noteq> vid c" using apart [of t u b c] that u by auto
    qed
    have "\<exists>m''. ofold (\<lambda>s. exec ?F S s en) ss m' = Some m'' \<and>
     (\<forall>t \<in> {} \<union> set ts. \<forall>b. buffer_of ?bv t = Some b \<longrightarrow> holds H S inp m'' b t) \<and>
     (\<forall>x. (\<forall>t \<in> set ts. \<forall>b. is_compute (t_op t) \<longrightarrow> buffer_of ?bv t = Some b \<longrightarrow> x \<noteq> vid b) \<longrightarrow> m'' x = m' x)"
    proof (rule exec_computes [OF graph(1)])
      show "list_all2 (\<lambda>t s. LowerComputeStmt H ?bv t = Inr s) (filter (\<lambda>t. is_compute (t_op t)) ts) ss"
        by (rule operations_lowered [OF graph(1) ts(1) ss])
      show "\<exists>b. buffer_of ?bv t = Some b \<and> vdtype b = t_dtype t" if "t \<in> {} \<union> set ts" for t
        using member [of t] that all by auto
      show "vid b \<noteq> vid c" if "t \<in> {} \<union> set ts" "u \<in> {} \<union> set ts" "t \<noteq> u" "buffer_of ?bv t = Some b"
        "buffer_of ?bv u = Some c" for t u b c
        using apart [of t u b c] that all by auto
      show "holds H S inp m' b t" if "t \<in> set ts" "\<not> is_compute (t_op t)" "buffer_of ?bv t = Some b" for t b
      proof -
        have t: "t \<in> set ?D" using kind tsU(1) that(1,2) by blast
        show ?thesis using held [OF t that(3)] same [of t b] that(3) t holds_cong [of m' b m H S inp t] by auto
      qed
      show "room_for H S m' b t" if t: "t \<in> set ts" "is_compute (t_op t)" "buffer_of ?bv t = Some b" for t b
      proof (cases "t \<in> set locals")
        case False
        then have o: "t \<in> set outputs" using all kind t tsU(1) by auto
        show ?thesis using out_room [OF o t(3)] same [of t b] o t(3) room_for_cong [of m' b m H S t] by auto
      qed (use a(1) t(3) in blast)
    qed (use tsU elems in auto)
    then obtain m'' where m'': "ofold (\<lambda>s. exec ?F S s en) ss m' = Some m''"
      "\<forall>t \<in> set ts. \<forall>b. buffer_of ?bv t = Some b \<longrightarrow> holds H S inp m'' b t"
      "\<forall>x. (\<forall>t \<in> set ts. \<forall>b. is_compute (t_op t) \<longrightarrow> buffer_of ?bv t = Some b \<longrightarrow> x \<noteq> vid b) \<longrightarrow> m'' x = m' x"
      by auto
    have "m'' (vid b) = m (vid b)" if t: "t \<in> set ?D" "buffer_of ?bv t = Some b" for t b
    proof -
      have "vid b \<noteq> vid c" if "u \<in> set ts" "is_compute (t_op u)" "buffer_of ?bv u = Some c" for u c
      proof -
        have "t \<noteq> u" using kind [of u] that(1,2) t(1) tsU(1) by auto
        then show ?thesis using apart [of t u b c] t that all by auto
      qed
      then have "m'' (vid b) = m' (vid b)" using m''(3) by blast
      then show ?thesis using same [of t b] t by auto
    qed
    then have "?Q m''" using m''(2) ts(2) by blast
    then show "\<exists>m''. exec ?F S (seq_of ss) en m' = Some m'' \<and> ?Q m''"
      using m''(1) by (simp add: exec_seq_of)
  next
    fix m1 m2
    assume q: "?Q m1" "\<And>x. (\<forall>t \<in> set locals. \<forall>b. buffer_of ?bv t = Some b \<longrightarrow> x \<noteq> vid b) \<Longrightarrow> m2 x = m1 x"
    have eq: "m2 (vid b) = m1 (vid b)" if "t \<in> set (?D @ outputs)" "buffer_of ?bv t = Some b" for t b
    proof (rule q(2), intro ballI allI impI)
      fix u c assume u: "u \<in> set locals" "buffer_of ?bv u = Some c"
      have "t \<noteq> u" using that(1) u(1) dist by auto
      then show "vid b \<noteq> vid c" using apart [of t u b c] that u by auto
    qed
    show "?Q m2"
    proof (intro conjI ballI allI impI)
      fix t b assume t: "t \<in> set outputs" "buffer_of ?bv t = Some b"
      have "m2 (vid b) = m1 (vid b)" by (rule eq [OF _ t(2)]) (use t(1) in auto)
      then have "holds H S inp m2 b t = holds H S inp m1 b t" by (rule holds_cong)
      then show "holds H S inp m2 b t" using q(1) t by blast
    next
      fix t b assume t: "t \<in> set ?D" "buffer_of ?bv t = Some b"
      have "m2 (vid b) = m1 (vid b)" by (rule eq [OF _ t(2)]) (use t(1) in auto)
      then show "m2 (vid b) = m (vid b)" using q(1) t by auto
    qed
  next
    show "\<exists>b. buffer_of ?bv t = Some b" if "t \<in> set locals" for t using member [of t] that by auto
    show "all_defined H S inp t" if "t \<in> set locals" for t
      using elems [of t] that locs tsU(1) by auto
    show "vid b \<noteq> vid c" if "t \<in> set locals" "u \<in> set locals" "t \<noteq> u" "buffer_of ?bv t = Some b"
        "buffer_of ?bv u = Some c" for t u b c
      using apart [of t u b c] that by auto
    show "distinct locals" using dist by (simp add: distinct_map)
  qed
  then obtain m'' where m'': "exec ?F S s en m = Some m''" "?Q m''" using res(2) by blast
  have "holds H S inp m'' (ps ! (length ?D + j)) (outputs ! j)" if "j < length outputs" for j
    using m''(2) param_out [OF that] nth_mem [OF that] by blast
  moreover have "m'' (vid (ps ! i)) = m (vid (ps ! i))" if "i < length ?D" for i
  proof -
    have "?D ! i \<in> set ?D" using that by (rule nth_mem)
    then show ?thesis using m''(2) param_in [OF that] by blast
  qed
  ultimately show ?thesis using m''(1) by blast
qed

section \<open>An example\<close>

text \<open>
  An input of two elements, their doubles in an intermediate tensor, and the sum of these. The host
  computes on integers.
\<close>

definition te_int :: "int te_host" where
  "te_int = \<lparr>ld_prec = 64, dbl_of_int = id, dbl_add = (+), dbl_sub = (-), dbl_mul = (*),
     dbl_div = (sdiv), dbl_fmod = (smod), dbl_lt = (<), dbl_eq = (=), dbl_finite = (\<lambda>_. True),
     dbl_to_float = id, dbl_cast = (\<lambda>_ _. id), dbl_neg_inf = 0, dbl_pos_inf = 0, dbl_m1e30 = 0\<rparr>"

definition ex_i32 :: DataType where
  "ex_i32 = dt_Int 32 1"

definition ex_input :: "int te_tensor" where
  "ex_input = Tensor 1 ''A'' [IntImm 2 ex_i32] ex_i32
     (PlaceholderOp 2 ''A'' [IntImm 2 ex_i32] ex_i32) 0"

definition ex_double :: "int te_tensor" where
  "ex_double = (let i = \<lparr>vid = 3, name_hint = ''i'', vdtype = ex_i32\<rparr>;
       a = ProducerLoad ex_input [T_Var i] in
     Tensor 4 ''B'' [IntImm 2 ex_i32] ex_i32
       (ComputeOp 5 ''B'' [] [i] [] [T_Bin AddOp a a] [IntImm 2 ex_i32]) 0)"

definition ex_sum :: "int te_tensor" where
  "ex_sum = (let k = \<lparr>iv_addr = 6, iv_var = \<lparr>vid = 7, name_hint = ''k'', vdtype = ex_i32\<rparr>,
         iv_min = IntImm 0 ex_i32, iv_extent = IntImm 2 ex_i32, iv_type = kCommReduce,
         iv_thread_tag = []\<rparr> in
     Tensor 8 ''C'' [] ex_i32
       (ComputeOp 9 ''C'' [] [] [k] [Reduce [k] [ProducerLoad ex_double [T_Var (iv_var k)]] kSum] []) 0)"

definition ex_elems :: "nat \<Rightarrow> int list \<Rightarrow> int val option" where
  "ex_elems a is = (if is = [0] then Some (VI 5) else if is = [1] then Some (VI 7) else None)"

lemmas ex_tensor_defs = ex_input_def ex_double_def ex_sum_def

lemma ex_graph: "te_graph {ex_input, ex_double, ex_sum}"
  by (auto simp: te_graph_def ex_tensor_defs Let_def op_deps_def op_ok_def ex_i32_def)

definition ex_ints :: "int sem" where
  "ex_ints = \<lparr>rnd = (\<lambda>_. id), callf = (\<lambda>_ _. None)\<rparr>"

lemma ex_dims:
  "dims_of (fp.truncate te_int) ex_ints [IntImm 2 ex_i32] = Some [2]"
  "dims_of (fp.truncate te_int) ex_ints [] = Some []"
  by (simp_all add: dims_of_def const_int_def is_i64_def fits_def ex_i32_def dt_Int_def)

lemma ex_i32_simps:
  "fits k ex_i32 \<longleftrightarrow> - 2147483648 \<le> k \<and> k < 2147483648" "code ex_i32 = 0" "lanes ex_i32 = 1"
  by (auto simp: fits_def ex_i32_def dt_Int_def)

lemma ex_shapes: "t_shape ex_double = [IntImm 2 ex_i32]" "t_dtype ex_double = ex_i32"
  "t_shape ex_sum = []" "t_dtype ex_sum = ex_i32"
  by (simp_all add: ex_tensor_defs Let_def)

lemmas ex_reads = read_at_def index_dtype_def in_shape_def row_major_def ex_dims

lemma ex_elem_double:
  "i = 0 \<or> i = 1 \<Longrightarrow>
     te_elem te_int ex_ints ex_elems ex_double [i] = Some (VI (if i = 0 then 10 else 14))"
  by (auto simp: ex_tensor_defs Let_def ex_reads ex_i32_simps ex_elems_def bin_val_def)

lemma ex_range:
  "iter_range (fp.truncate te_int) ex_ints
     \<lparr>iv_addr = 6, iv_var = \<lparr>vid = 7, name_hint = n, vdtype = ex_i32\<rparr>, iv_min = IntImm 0 ex_i32, iv_extent = IntImm 2 ex_i32, iv_type = kCommReduce,
     iv_thread_tag = []\<rparr> = Some [0, 1]"
  by (simp add: iter_range_def const_int_def is_i64_def ex_i32_simps loop_range_def upto.simps)

lemma ex_elem_sum: "te_elem te_int ex_ints ex_elems ex_sum [] = Some (VI 24)"
  by (simp add: ex_sum_def Let_def ex_range reduce_start_def ex_i32_simps reduce_step_def ex_shapes
    ex_elem_double ex_reads)

lemma ex_lowered:
  "\<exists>bufs s. lower_tensors te_int [ex_input] [] [ex_sum] 20 =
     Inr ([\<lparr>vid = 20, name_hint = ''A'', vdtype = ex_i32\<rparr>,
           \<lparr>vid = 21, name_hint = ''C_out'', vdtype = ex_i32\<rparr>], bufs, s)"
  by (simp add: lower_tensors_def ex_tensor_defs Let_def CollectOpsDFS.simps op_deps_def
    intermediate_tensors_def add_data_def add_buffer_def add_local_def MakeOutputVarName_def
    free_name.simps sbind_simps lower_operation_def LowerComputeStmt_def buffer_of_def FlattenIndex_def)


definition ex_mem :: "int mem" where
  "ex_mem = [20 \<mapsto> [Some (VI 5), Some (VI 7)], 21 \<mapsto> [None]]"

lemma ex_indices: "in_shape is [2] \<longleftrightarrow> is = [0] \<or> is = [1]"
  by (auto simp: in_shape_def list_all2_Cons2)

lemma ex_indices_sum: "in_shape is [] \<longleftrightarrow> is = []"
  by (simp add: in_shape_def)

lemma ex_defined:
  "all_defined te_int ex_ints ex_elems ex_double" "all_defined te_int ex_ints ex_elems ex_sum"
  by (auto simp: all_defined_def ex_shapes ex_dims ex_indices ex_indices_sum ex_elem_double
      ex_elem_sum small_shape_def)

lemma ex_held: "vid b = 20 \<Longrightarrow> holds te_int ex_ints ex_elems ex_mem b ex_input"
  by (auto simp: holds_def ex_input_def ex_mem_def ex_dims ex_indices ex_elems_def row_major_def)

lemma ex_room: "vid b = 21 \<Longrightarrow> room_for te_int ex_ints ex_mem b ex_sum"
  by (simp add: room_for_def ex_shapes ex_mem_def ex_dims)

theorem lower_tensors_correct_witness:
  "\<exists>ps bufs s m'. lower_tensors te_int [ex_input] [] [ex_sum] 20 = Inr (ps, bufs, s) \<and>
     exec (fp.truncate te_int) ex_ints s Map.empty ex_mem = Some m' \<and>
     m' (vid (ps ! 1)) = Some [Some (VI 24)] \<and> m' (vid (ps ! 0)) = ex_mem (vid (ps ! 0))"
proof -
  obtain ps bufs s where low: "lower_tensors te_int [ex_input] [] [ex_sum] 20 = Inr (ps, bufs, s)"
    and ps: "ps = [\<lparr>vid = 20, name_hint = ''A'', vdtype = ex_i32\<rparr>,
      \<lparr>vid = 21, name_hint = ''C_out'', vdtype = ex_i32\<rparr>]"
    using ex_lowered by blast
  have "\<exists>m'. exec (fp.truncate te_int) ex_ints s Map.empty ex_mem = Some m' \<and>
     (\<forall>j < length [ex_sum].
        holds te_int ex_ints ex_elems m' (ps ! (length ([ex_input] @ []) + j)) ([ex_sum] ! j)) \<and>
     (\<forall>i < length ([ex_input] @ []). m' (vid (ps ! i)) = ex_mem (vid (ps ! i)))"
  proof (rule lower_tensors_correct [OF low ex_graph])
    show "is_placeholder (t_op t) \<longleftrightarrow> t \<in> set ([ex_input] @ [])"
      if "t \<in> {ex_input, ex_double, ex_sum}" for t
      using that by (auto simp: ex_tensor_defs Let_def)
    show "all_defined te_int ex_ints ex_elems t"
      if "t \<in> {ex_input, ex_double, ex_sum}" "is_compute (t_op t)" for t
      using that ex_defined by (auto simp: ex_input_def)
  qed (auto simp: ps intro: ex_held ex_room)
  then obtain m' where m': "exec (fp.truncate te_int) ex_ints s Map.empty ex_mem = Some m'"
    "holds te_int ex_ints ex_elems m' (ps ! 1) ex_sum" "m' (vid (ps ! 0)) = ex_mem (vid (ps ! 0))"
    by auto
  have "m' (vid (ps ! 1)) = Some [Some (VI 24)]"
    using m'(2)
    by (auto simp: holds_def ex_shapes ex_dims ex_indices_sum ex_elem_sum row_major_def length_Suc_conv)
  then show ?thesis using low m' by blast
qed

end
