(* ===== verification/TE_Topi.thy ===== *)
theory TE_Topi
  imports TE_Graph
begin

text \<open>
  The library of tensor computations under \<^verbatim>\<open>include/te/topi\<close>: each function builds one or a few
  computed tensors. An operator between expressions is the TIR constructor behind the overloaded
  C++ operator, an integer operand becomes a 32-bit literal, and an access past the end of an
  \<^verbatim>\<open>Array\<close> is \<open>Inl OutOfRange\<close>. The tags of \<^verbatim>\<open>tags.h\<close> are written out.
\<close>

section \<open>Helpers\<close>

abbreviation imm32 :: "int \<Rightarrow> 'd PrimExpr" where
  "imm32 k \<equiv> IntImm k (dt_Int 32 1)"

abbreviation t_imm32 :: "int \<Rightarrow> 'd te_expr" where
  "t_imm32 k \<equiv> T_Int k (dt_Int 32 1)"

definition te_lift :: "'a res \<Rightarrow> 'a alloc" where
  "te_lift r = (\<lambda>n. sbind r (\<lambda>x. Inr (x, n)))"

text \<open>\<^verbatim>\<open>Tensor::operator()\<close> on variables.\<close>

definition tensor_at :: "'d te_tensor \<Rightarrow> tir_var list \<Rightarrow> 'd te_expr" where
  "tensor_at t vs = ProducerLoad t (map T_Var vs)"

definition shape_at :: "'d te_tensor \<Rightarrow> nat \<Rightarrow> 'd PrimExpr res" where
  "shape_at t i = (if i < length (t_shape t) then Inr (t_shape t ! i) else Inl OutOfRange)"

definition elem_at :: "'a list \<Rightarrow> int \<Rightarrow> 'a res" where
  "elem_at xs i = (if 0 \<le> i \<and> i < int (length xs) then Inr (xs ! nat i) else Inl OutOfRange)"

definition iv_expr :: "'d te_iter_var \<Rightarrow> 'd te_expr" where
  "iv_expr k = T_Var (iv_var k)"

subsection \<open>\<^verbatim>\<open>utils.h\<close>\<close>

definition GetRealAxis :: "nat \<Rightarrow> int list \<Rightarrow> nat list" where
  "GetRealAxis ndim axis =
     (if axis = [] then [0..<ndim]
      else sort (map nat (filter (\<lambda>a. 0 \<le> a \<and> a < int ndim)
             (map (\<lambda>a. if a < 0 then a + int ndim else a) axis))))"

fun GetConstInt :: "'d PrimExpr \<Rightarrow> int option" where
  "GetConstInt (IntImm v dt) = Some v"
| "GetConstInt _ = None"

definition make_const :: "'d te_host \<Rightarrow> DataType \<Rightarrow> 'd \<Rightarrow> 'd te_expr" where
  "make_const H t value =
     (if code t = 2 then (if bits t = 64 then T_Float value t else T_Float (dbl_to_float H value) t)
      else if code t = 0 \<or> code t = 1 then T_Int (dbl_cast H True 64 value) t
      else T_Float value t)"

definition te_gt :: "'d te_expr \<Rightarrow> 'd te_expr \<Rightarrow> 'd te_expr" where
  "te_gt a b = T_Bin LTOp b a"

definition te_ge :: "'d te_expr \<Rightarrow> 'd te_expr \<Rightarrow> 'd te_expr" where
  "te_ge a b = T_Not (T_Bin LTOp a b)"

definition te_le :: "'d te_expr \<Rightarrow> 'd te_expr \<Rightarrow> 'd te_expr" where
  "te_le a b = T_Not (T_Bin LTOp b a)"

section \<open>\<^verbatim>\<open>broadcast.h\<close>\<close>

definition broadcast_index ::
  "tir_var list \<Rightarrow> 'd PrimExpr list \<Rightarrow> 'd PrimExpr list \<Rightarrow> nat \<Rightarrow> 'd te_expr res" where
  "broadcast_index output_indices input_shape out_shape i =
     (if GetConstInt (input_shape ! i) = Some 1 then Inr (t_imm32 0)
      else sbind (elem_at output_indices
             (int i + (int (length out_shape) - int (length input_shape))))
           (\<lambda>v. Inr (T_Var v)))"

definition GetBroadcastIndices ::
  "tir_var list \<Rightarrow> 'd PrimExpr list \<Rightarrow> 'd PrimExpr list \<Rightarrow> 'd te_expr list res" where
  "GetBroadcastIndices output_indices input_shape out_shape =
     smap (broadcast_index output_indices input_shape out_shape) [0..<length input_shape]"

definition infer_dim :: "'d PrimExpr \<Rightarrow> 'd PrimExpr \<Rightarrow> 'd PrimExpr" where
  "infer_dim dim1 dim2 =
     (case (GetConstInt dim1, GetConstInt dim2) of
        (Some v1, Some v2) \<Rightarrow>
          if v1 = 1 then dim2 else if v2 = 1 then dim1 else if v1 = v2 then dim1
          else if v1 > v2 then dim1 else dim2
      | _ \<Rightarrow> dim1)"

definition padded_dim :: "nat \<Rightarrow> 'd PrimExpr list \<Rightarrow> nat \<Rightarrow> 'd PrimExpr" where
  "padded_dim out_ndim shape i =
     (let offset = out_ndim - length shape in if i \<ge> offset then shape ! (i - offset) else imm32 1)"

definition InferBroadcastShape :: "'d PrimExpr list \<Rightarrow> 'd PrimExpr list \<Rightarrow> 'd PrimExpr list" where
  "InferBroadcastShape shape1 shape2 =
     (let out_ndim = max (length shape1) (length shape2) in
      map (\<lambda>i. infer_dim (padded_dim out_ndim shape1 i) (padded_dim out_ndim shape2 i)) [0..<out_ndim])"

definition topi_broadcast_to ::
  "'d te_tensor \<Rightarrow> 'd PrimExpr list \<Rightarrow> string \<Rightarrow> string \<Rightarrow> 'd te_tensor alloc" where
  "topi_broadcast_to t out_shape name tag =
     compute out_shape (\<lambda>indices.
       sbind (GetBroadcastIndices indices (t_shape t) out_shape) (\<lambda>is. Inr (ProducerLoad t is)))
       name tag"

text \<open>\<^verbatim>\<open>KXC_TOPI_BINARY_BROADCAST_OP\<close>, and \<^verbatim>\<open>maximum\<close> and \<^verbatim>\<open>minimum\<close>, which repeat it.\<close>

definition topi_binary ::
  "bop \<Rightarrow> 'd te_tensor \<Rightarrow> 'd te_tensor \<Rightarrow> string \<Rightarrow> string \<Rightarrow> 'd te_tensor alloc" where
  "topi_binary op A B name tag =
     (let out_shape = InferBroadcastShape (t_shape A) (t_shape B) in
      compute out_shape (\<lambda>indices.
        sbind (GetBroadcastIndices indices (t_shape A) out_shape) (\<lambda>a_indices.
        sbind (GetBroadcastIndices indices (t_shape B) out_shape) (\<lambda>b_indices.
        Inr (T_Bin op (ProducerLoad A a_indices) (ProducerLoad B b_indices))))) name tag)"

definition topi_add :: "'d te_tensor \<Rightarrow> 'd te_tensor \<Rightarrow> string \<Rightarrow> 'd te_tensor alloc" where
  "topi_add A B name = topi_binary AddOp A B name ''broadcast''"

definition topi_subtract :: "'d te_tensor \<Rightarrow> 'd te_tensor \<Rightarrow> string \<Rightarrow> 'd te_tensor alloc" where
  "topi_subtract A B name = topi_binary SubOp A B name ''broadcast''"

definition topi_multiply :: "'d te_tensor \<Rightarrow> 'd te_tensor \<Rightarrow> string \<Rightarrow> 'd te_tensor alloc" where
  "topi_multiply A B name = topi_binary MulOp A B name ''broadcast''"

definition topi_divide :: "'d te_tensor \<Rightarrow> 'd te_tensor \<Rightarrow> string \<Rightarrow> 'd te_tensor alloc" where
  "topi_divide A B name = topi_binary DivOp A B name ''broadcast''"

definition topi_maximum :: "'d te_tensor \<Rightarrow> 'd te_tensor \<Rightarrow> string \<Rightarrow> 'd te_tensor alloc" where
  "topi_maximum A B name = topi_binary MaxOp A B name ''broadcast''"

definition topi_minimum :: "'d te_tensor \<Rightarrow> 'd te_tensor \<Rightarrow> string \<Rightarrow> 'd te_tensor alloc" where
  "topi_minimum A B name = topi_binary MinOp A B name ''broadcast''"

section \<open>\<^verbatim>\<open>elemwise.h\<close>\<close>

definition call_same :: "string \<Rightarrow> 'd te_expr \<Rightarrow> 'd te_expr" where
  "call_same f x = T_Call (te_dtype x) f [x]"

text \<open>\<^verbatim>\<open>0 - x\<close> is a subtraction from the 32-bit integer literal.\<close>

definition te_neg :: "'d te_expr \<Rightarrow> 'd te_expr" where
  "te_neg x = T_Bin SubOp (t_imm32 0) x"

definition sigmoid_expr :: "'d te_host \<Rightarrow> 'd te_expr \<Rightarrow> 'd te_expr" where
  "sigmoid_expr H x =
     (let dt = te_dtype x;
          one = (if code dt = 2 then T_Float (dbl_of_int H 1) dt
                 else T_Float (dbl_of_int H 1) (dt_Float 32 1))
      in T_Bin DivOp one (T_Bin AddOp one (call_same ''exp'' (te_neg x))))"

text \<open>\<^verbatim>\<open>KXC_TOPI_UNARY_ELEMWISE_OP\<close> and the functions of its shape.\<close>

definition topi_unary ::
  "('d te_expr \<Rightarrow> 'd te_expr) \<Rightarrow> 'd te_tensor \<Rightarrow> string \<Rightarrow> string \<Rightarrow> 'd te_tensor alloc" where
  "topi_unary f x name tag = compute (t_shape x) (\<lambda>indices. Inr (f (tensor_at x indices))) name tag"

definition topi_exp :: "'d te_tensor \<Rightarrow> string \<Rightarrow> 'd te_tensor alloc" where
  "topi_exp x name = topi_unary (call_same ''exp'') x name ''elemwise''"

definition topi_log :: "'d te_tensor \<Rightarrow> string \<Rightarrow> 'd te_tensor alloc" where
  "topi_log x name = topi_unary (call_same ''log'') x name ''elemwise''"

definition topi_sqrt :: "'d te_tensor \<Rightarrow> string \<Rightarrow> 'd te_tensor alloc" where
  "topi_sqrt x name = topi_unary (call_same ''sqrt'') x name ''elemwise''"

definition topi_floor :: "'d te_tensor \<Rightarrow> string \<Rightarrow> 'd te_tensor alloc" where
  "topi_floor x name = topi_unary (call_same ''floor'') x name ''elemwise''"

definition topi_ceil :: "'d te_tensor \<Rightarrow> string \<Rightarrow> 'd te_tensor alloc" where
  "topi_ceil x name = topi_unary (call_same ''ceil'') x name ''elemwise''"

definition topi_sigmoid :: "'d te_host \<Rightarrow> 'd te_tensor \<Rightarrow> string \<Rightarrow> 'd te_tensor alloc" where
  "topi_sigmoid H x name = topi_unary (sigmoid_expr H) x name ''elemwise''"

definition topi_identity :: "'d te_tensor \<Rightarrow> string \<Rightarrow> 'd te_tensor alloc" where
  "topi_identity x name = topi_unary (\<lambda>e. e) x name ''elemwise''"

definition topi_negative :: "'d te_tensor \<Rightarrow> string \<Rightarrow> 'd te_tensor alloc" where
  "topi_negative x name = topi_unary te_neg x name ''elemwise''"

definition topi_clip ::
  "'d te_tensor \<Rightarrow> 'd te_expr \<Rightarrow> 'd te_expr \<Rightarrow> string \<Rightarrow> 'd te_tensor alloc" where
  "topi_clip x a_min a_max name =
     topi_unary (\<lambda>e. T_Bin MaxOp (T_Bin MinOp e a_max) a_min) x name ''elemwise''"

definition topi_cast :: "'d te_tensor \<Rightarrow> DataType \<Rightarrow> string \<Rightarrow> 'd te_tensor alloc" where
  "topi_cast x dt name = topi_unary (\<lambda>e. T_Call dt ''cast'' [e]) x name ''elemwise''"

section \<open>\<^verbatim>\<open>reduction.h\<close>\<close>

text \<open>The reduction axes of \<^verbatim>\<open>comm_reduce\<close>, named by their number.\<close>

fun new_reduce_axes :: "nat \<Rightarrow> 'd PrimExpr list \<Rightarrow> 'd te_iter_var list alloc" where
  "new_reduce_axes i [] = te_ret []"
| "new_reduce_axes i (d # ds) =
     te_bind (reduce_axis (imm32 0) d (''k'' @ show_nat i)) (\<lambda>k.
     te_bind (new_reduce_axes (Suc i) ds) (\<lambda>ks. te_ret (k # ks)))"

definition reduce_shape :: "nat set \<Rightarrow> bool \<Rightarrow> 'd PrimExpr list \<Rightarrow> 'd PrimExpr list" where
  "reduce_shape rs keepdims shape =
     concat (map (\<lambda>i. if i \<in> rs then (if keepdims then [imm32 1] else []) else [shape ! i])
       [0..<length shape])"

text \<open>
  The indices of the operand: the next reduction axis for a reduced dimension, the next output
  axis for another one.
\<close>

fun reduce_indices ::
  "bool list \<Rightarrow> 'd te_iter_var list \<Rightarrow> tir_var list \<Rightarrow> 'd te_expr list res" where
  "reduce_indices [] ks vs = Inr []"
| "reduce_indices (True # bs) (k # ks) vs =
     sbind (reduce_indices bs ks vs) (\<lambda>es. Inr (iv_expr k # es))"
| "reduce_indices (False # bs) ks (v # vs) =
     sbind (reduce_indices bs ks vs) (\<lambda>es. Inr (T_Var v # es))"
| "reduce_indices _ _ _ = Inl OutOfRange"

definition comm_reduce ::
  "'d te_tensor \<Rightarrow> int list \<Rightarrow> bool \<Rightarrow> ('d te_expr \<Rightarrow> 'd te_iter_var list \<Rightarrow> 'd te_expr) \<Rightarrow>
     string \<Rightarrow> string \<Rightarrow> 'd te_tensor alloc" where
  "comm_reduce data axis keepdims combiner name tag =
     (let ndim = length (t_shape data);
          rs = set (GetRealAxis ndim axis)
      in te_bind (new_reduce_axes 0
           (map (\<lambda>i. t_shape data ! i) (filter (\<lambda>i. i \<in> rs) [0..<ndim]))) (\<lambda>ks.
         compute (reduce_shape rs keepdims (t_shape data)) (\<lambda>indices.
           sbind (reduce_indices (map (\<lambda>i. i \<in> rs) [0..<ndim]) ks indices) (\<lambda>eval_indices.
           Inr (combiner (ProducerLoad data eval_indices) ks))) name tag))"

definition topi_sum :: "'d te_tensor \<Rightarrow> int list \<Rightarrow> bool \<Rightarrow> string \<Rightarrow> 'd te_tensor alloc" where
  "topi_sum data axis keepdims name = comm_reduce data axis keepdims te_sum name ''comm_reduce''"

definition topi_max :: "'d te_tensor \<Rightarrow> int list \<Rightarrow> bool \<Rightarrow> string \<Rightarrow> 'd te_tensor alloc" where
  "topi_max data axis keepdims name = comm_reduce data axis keepdims te_max name ''comm_reduce''"

definition topi_min :: "'d te_tensor \<Rightarrow> int list \<Rightarrow> bool \<Rightarrow> string \<Rightarrow> 'd te_tensor alloc" where
  "topi_min data axis keepdims name = comm_reduce data axis keepdims te_min name ''comm_reduce''"

definition topi_prod :: "'d te_tensor \<Rightarrow> int list \<Rightarrow> bool \<Rightarrow> string \<Rightarrow> 'd te_tensor alloc" where
  "topi_prod data axis keepdims name =
     te_lift (throw ''topi::prod is not supported by the current TE reducer set'')"

definition topi_einsum :: "string \<Rightarrow> 'd te_tensor list \<Rightarrow> string \<Rightarrow> 'd te_tensor alloc" where
  "topi_einsum equation operands name =
     te_lift (throw ''topi::einsum is not supported by the current TE/TIR lowering'')"

section \<open>\<^verbatim>\<open>transform.h\<close>\<close>

text \<open>\<^verbatim>\<open>input_indices[axes[i]] = indices[i]\<close> for each \<open>i\<close> below the rank.\<close>

fun scatter_indices :: "int list \<Rightarrow> tir_var list \<Rightarrow> nat \<Rightarrow> 'd te_expr list \<Rightarrow> 'd te_expr list res" where
  "scatter_indices axes vs 0 acc = Inr acc"
| "scatter_indices (a # axes) (v # vs) (Suc k) acc =
     (if 0 \<le> a \<and> a < int (length acc) then scatter_indices axes vs k (acc[nat a := T_Var v])
      else Inl OutOfRange)"
| "scatter_indices _ _ _ _ = Inl OutOfRange"

definition topi_transpose :: "'d te_tensor \<Rightarrow> int list \<Rightarrow> string \<Rightarrow> 'd te_tensor alloc" where
  "topi_transpose x axes name =
     (let ndim = length (t_shape x);
          axes = (if axes = [] then rev (map int [0..<ndim]) else axes)
      in te_bind (te_lift (smap (elem_at (t_shape x)) axes)) (\<lambda>out_shape.
         compute out_shape (\<lambda>indices.
           sbind (scatter_indices axes indices ndim (replicate ndim (t_imm32 0))) (\<lambda>is.
           Inr (ProducerLoad x is))) name ''injective''))"

text \<open>An \<open>axis\<close> below the first position is read as a huge unsigned number and runs off the shape.\<close>

definition topi_expand_dims :: "'d te_tensor \<Rightarrow> int \<Rightarrow> int \<Rightarrow> string \<Rightarrow> 'd te_tensor alloc" where
  "topi_expand_dims x axis num_newaxis name =
     (let ndim = length (t_shape x);
          axis = (if axis < 0 then axis + int ndim + 1 else axis)
      in if axis < 0 \<or> int ndim < axis then te_lift (Inl OutOfRange)
         else
           let out_shape = take (nat axis) (t_shape x) @ replicate (nat num_newaxis) (imm32 1) @
                 drop (nat axis) (t_shape x)
           in compute out_shape (\<lambda>indices.
                Inr (ProducerLoad x (map (\<lambda>i. T_Var (indices ! i))
                  (filter (\<lambda>i. \<not> (axis \<le> int i \<and> int i < axis + num_newaxis))
                    [0..<length out_shape])))) name ''broadcast'')"

fun squeeze_indices :: "bool list \<Rightarrow> tir_var list \<Rightarrow> 'd te_expr list res" where
  "squeeze_indices [] vs = Inr []"
| "squeeze_indices (True # bs) vs = sbind (squeeze_indices bs vs) (\<lambda>es. Inr (t_imm32 0 # es))"
| "squeeze_indices (False # bs) (v # vs) = sbind (squeeze_indices bs vs) (\<lambda>es. Inr (T_Var v # es))"
| "squeeze_indices (False # bs) [] = Inl OutOfRange"

definition topi_squeeze :: "'d te_tensor \<Rightarrow> int list \<Rightarrow> string \<Rightarrow> 'd te_tensor alloc" where
  "topi_squeeze x axes name =
     (let ndim = length (t_shape x);
          sq = set (GetRealAxis ndim axes);
          sq = (if sq = {} then {i. i < ndim \<and> GetConstInt (t_shape x ! i) = Some 1} else sq)
      in compute (map (\<lambda>i. t_shape x ! i) (filter (\<lambda>i. i \<notin> sq) [0..<ndim])) (\<lambda>indices.
           sbind (squeeze_indices (map (\<lambda>i. i \<in> sq) [0..<ndim]) indices) (\<lambda>is.
           Inr (ProducerLoad x is))) name ''injective'')"

text \<open>The chain of selections of \<^verbatim>\<open>concatenate\<close>, from an input on, with its offset.\<close>

fun concat_chain ::
  "nat \<Rightarrow> tir_var list \<Rightarrow> 'd te_expr \<Rightarrow> 'd te_tensor list \<Rightarrow> 'd te_expr res" where
  "concat_chain axis vs offset [] = Inl OutOfRange"
| "concat_chain axis vs offset [t] =
     Inr (ProducerLoad t ((map T_Var vs)[axis := T_Bin SubOp (T_Var (vs ! axis)) offset]))"
| "concat_chain axis vs offset (t # ts) =
     sbind (shape_at t axis) (\<lambda>d.
     let next = T_Bin AddOp offset (te_of d) in
     sbind (concat_chain axis vs next ts) (\<lambda>rest.
     Inr (T_Select (T_Bin LTOp (T_Var (vs ! axis)) next)
       (ProducerLoad t ((map T_Var vs)[axis := T_Bin SubOp (T_Var (vs ! axis)) offset])) rest)))"

definition topi_concatenate :: "'d te_tensor list \<Rightarrow> int \<Rightarrow> string \<Rightarrow> 'd te_tensor alloc" where
  "topi_concatenate inputs axis name =
     (case inputs of
        [] \<Rightarrow> te_lift (throw ''topi::concatenate expects at least one input tensor'')
      | first # _ \<Rightarrow>
          let ndim = length (t_shape first);
              axis = (if axis < 0 then axis + int ndim else axis)
          in if axis < 0 \<or> int ndim \<le> axis then te_lift (Inl OutOfRange)
             else te_bind (te_lift (smap (\<lambda>t. shape_at t (nat axis)) inputs)) (\<lambda>lens.
               let axis_len = foldl (\<lambda>acc d. Bin AddOp acc d) (imm32 0) lens
               in compute ((t_shape first)[nat axis := axis_len]) (\<lambda>indices.
                    concat_chain (nat axis) indices (t_imm32 0) inputs) name ''injective''))"

end
