(* ===== verification/Topi_Ops.thy ===== *)
theory Topi_Ops
  imports TE_Topi Lower_TIR
begin

text \<open>
  The tensor computations of \<^verbatim>\<open>include/te/topi/nn.h\<close> and the lowering hooks of the Relay operators,
  the functions registered as \<^verbatim>\<open>FRelayToTE\<close> under \<^verbatim>\<open>src/relay/op\<close>. \<open>FRelayToTE_registry\<close> collects
  them as the registry the lowering is given. The scale factors of \<^verbatim>\<open>nn_gemm\<close>, which the attribute
  classes of the model leave out, are a parameter.
\<close>

section \<open>\<^verbatim>\<open>nn.h\<close>\<close>

definition zero_const :: "'d te_host \<Rightarrow> DataType \<Rightarrow> 'd te_expr" where
  "zero_const H dt = make_const H dt (dbl_of_int H 0)"

definition topi_relu :: "'d te_host \<Rightarrow> 'd te_tensor \<Rightarrow> string \<Rightarrow> 'd te_tensor alloc" where
  "topi_relu H x name =
     compute (t_shape x)
       (\<lambda>indices. Inr (T_Bin MaxOp (tensor_at x indices) (zero_const H (t_dtype x)))) name ''elemwise''"

definition topi_leaky_relu :: "'d te_host \<Rightarrow> 'd te_tensor \<Rightarrow> 'd \<Rightarrow> string \<Rightarrow> 'd te_tensor alloc" where
  "topi_leaky_relu H x alpha name =
     compute (t_shape x) (\<lambda>indices.
       let v = tensor_at x indices in
       Inr (T_Select (te_gt v (zero_const H (t_dtype x))) v
              (T_Bin MulOp v (make_const H (t_dtype x) alpha)))) name ''elemwise''"

definition topi_dense ::
  "'d te_tensor \<Rightarrow> 'd te_tensor \<Rightarrow> 'd te_tensor \<Rightarrow> string \<Rightarrow> 'd te_tensor alloc" where
  "topi_dense A B bias name =
     te_bind (te_lift (shape_at A 0)) (\<lambda>M. te_bind (te_lift (shape_at A 1)) (\<lambda>K.
     te_bind (te_lift (shape_at B 0)) (\<lambda>N.
     te_bind (reduce_axis (imm32 0) K ''k'') (\<lambda>k.
     te_bind (compute [M, N] (\<lambda>indices.
         Inr (te_sum (T_Bin MulOp (ProducerLoad A [T_Var (indices ! 0), iv_expr k])
                        (ProducerLoad B [T_Var (indices ! 1), iv_expr k])) [k]))
         (name @ ''_matmul'') ''matmul'') (\<lambda>matmul.
     if t_defined bias then topi_add matmul bias name else te_ret matmul)))))"

definition topi_matmul :: "'d te_tensor \<Rightarrow> 'd te_tensor \<Rightarrow> string \<Rightarrow> 'd te_tensor alloc" where
  "topi_matmul A B name =
     te_bind (te_lift (shape_at A 0)) (\<lambda>M. te_bind (te_lift (shape_at A 1)) (\<lambda>K.
     te_bind (te_lift (shape_at B 1)) (\<lambda>N.
     te_bind (reduce_axis (imm32 0) K ''k'') (\<lambda>k.
     compute [M, N] (\<lambda>indices.
         Inr (te_sum (T_Bin MulOp (ProducerLoad A [T_Var (indices ! 0), iv_expr k])
                        (ProducerLoad B [iv_expr k, T_Var (indices ! 1)])) [k]))
         name ''matmul''))))"

text \<open>The test that a window position lies inside the image.\<close>

definition inside_image ::
  "'d te_expr \<Rightarrow> 'd te_expr \<Rightarrow> 'd PrimExpr \<Rightarrow> 'd PrimExpr \<Rightarrow> 'd te_expr" where
  "inside_image h_in w_in Hd Wd =
     T_Bin AndOp (T_Bin AndOp (T_Bin AndOp (te_ge h_in (t_imm32 0)) (T_Bin LTOp h_in (te_of Hd)))
       (te_ge w_in (t_imm32 0))) (T_Bin LTOp w_in (te_of Wd))"

definition conv_out_dim :: "'d PrimExpr \<Rightarrow> 'd PrimExpr \<Rightarrow> int \<Rightarrow> int \<Rightarrow> int \<Rightarrow> 'd PrimExpr" where
  "conv_out_dim Hd KH stride pad dilation =
     (let dil = Bin AddOp (Bin MulOp (Bin SubOp KH (imm32 1)) (imm32 dilation)) (imm32 1) in
      Bin AddOp (Bin DivOp (Bin SubOp (Bin AddOp Hd (imm32 (i32 (2 * pad)))) dil) (imm32 stride))
        (imm32 1))"

definition conv_in_index :: "tir_var \<Rightarrow> 'd te_iter_var \<Rightarrow> int \<Rightarrow> int \<Rightarrow> int \<Rightarrow> 'd te_expr" where
  "conv_in_index v r stride dilation pad =
     T_Bin SubOp (T_Bin AddOp (T_Bin MulOp (T_Var v) (t_imm32 stride))
       (T_Bin MulOp (iv_expr r) (t_imm32 dilation))) (t_imm32 pad)"

definition topi_conv2d_nchw ::
  "'d te_host \<Rightarrow> 'd te_tensor \<Rightarrow> 'd te_tensor \<Rightarrow> int \<Rightarrow> int \<Rightarrow> int \<Rightarrow> int \<Rightarrow> int \<Rightarrow> int \<Rightarrow> string \<Rightarrow>
     'd te_tensor alloc" where
  "topi_conv2d_nchw H data krnl stride_h stride_w pad_h pad_w dilation_h dilation_w name =
     te_bind (te_lift (smap (shape_at data) [0, 1, 2, 3])) (\<lambda>ds.
     te_bind (te_lift (smap (shape_at krnl) [0, 2, 3])) (\<lambda>ks.
     let OH = conv_out_dim (ds ! 2) (ks ! 1) stride_h pad_h dilation_h;
         OW = conv_out_dim (ds ! 3) (ks ! 2) stride_w pad_w dilation_w in
     te_bind (reduce_axis (imm32 0) (ds ! 1) ''rc'') (\<lambda>rc.
     te_bind (reduce_axis (imm32 0) (ks ! 1) ''rh'') (\<lambda>rh.
     te_bind (reduce_axis (imm32 0) (ks ! 2) ''rw'') (\<lambda>rw.
     compute [ds ! 0, ks ! 0, OH, OW] (\<lambda>indices.
       let h_in = conv_in_index (indices ! 2) rh stride_h dilation_h pad_h;
           w_in = conv_in_index (indices ! 3) rw stride_w dilation_w pad_w;
           in_val = T_Select (inside_image h_in w_in (ds ! 2) (ds ! 3))
             (ProducerLoad data [T_Var (indices ! 0), iv_expr rc, h_in, w_in])
             (zero_const H (t_dtype data))
       in Inr (te_sum (T_Bin MulOp in_val
                (ProducerLoad krnl [T_Var (indices ! 1), iv_expr rc, iv_expr rh, iv_expr rw]))
            [rc, rh, rw])) name ''conv2d'')))))"

definition window_padding :: "int list \<Rightarrow> int \<times> int \<times> int \<times> int" where
  "window_padding padding =
     (if length padding \<ge> 4 then (padding ! 0, padding ! 1, padding ! 2, padding ! 3)
      else if length padding \<ge> 2 then (padding ! 0, padding ! 1, padding ! 0, padding ! 1)
      else (0, 0, 0, 0))"

definition pool_out_dim :: "'d PrimExpr \<Rightarrow> int \<Rightarrow> int \<Rightarrow> int \<Rightarrow> int \<Rightarrow> bool \<Rightarrow> 'd PrimExpr" where
  "pool_out_dim Hd K pad_before pad_after stride ceil_mode =
     (let numerator = Bin SubOp (Bin AddOp (Bin AddOp Hd (imm32 pad_before)) (imm32 pad_after)) (imm32 K)
      in if ceil_mode
         then Bin AddOp (Bin DivOp (Bin SubOp (Bin AddOp numerator (imm32 stride)) (imm32 1))
                (imm32 stride)) (imm32 1)
         else Bin AddOp (Bin DivOp numerator (imm32 stride)) (imm32 1))"

definition pool_in_index :: "tir_var \<Rightarrow> 'd te_iter_var \<Rightarrow> int \<Rightarrow> int \<Rightarrow> 'd te_expr" where
  "pool_in_index v r stride pad =
     T_Bin SubOp (T_Bin AddOp (T_Bin MulOp (T_Var v) (t_imm32 stride)) (iv_expr r)) (t_imm32 pad)"

definition topi_pool2d ::
  "'d te_host \<Rightarrow> 'd te_tensor \<Rightarrow> int list \<Rightarrow> int list \<Rightarrow> int list \<Rightarrow> string \<Rightarrow> bool \<Rightarrow> string \<Rightarrow>
     'd te_tensor alloc" where
  "topi_pool2d H data kernel_size stride padding pool_type ceil_mode name =
     (if length kernel_size < 2
      then te_lift (throw ''topi::pool2d expects kernel_size with at least 2 elements'')
      else if length stride < 2
      then te_lift (throw ''topi::pool2d expects stride with at least 2 elements'')
      else if pool_type \<noteq> ''max'' \<and> pool_type \<noteq> ''avg''
      then te_lift (throw ''topi::pool2d only supports pool_type=max/avg'')
      else
        te_bind (te_lift (smap (shape_at data) [0, 1, 2, 3])) (\<lambda>ds.
        let KH = kernel_size ! 0; KW = kernel_size ! 1; SH = stride ! 0; SW = stride ! 1;
            (pad_top, pad_left, pad_bottom, pad_right) = window_padding padding;
            OH = pool_out_dim (ds ! 2) KH pad_top pad_bottom SH ceil_mode;
            OW = pool_out_dim (ds ! 3) KW pad_left pad_right SW ceil_mode;
            shape = [ds ! 0, ds ! 1, OH, OW] in
        te_bind (reduce_axis (imm32 0) (imm32 KH) ''rh'') (\<lambda>rh.
        te_bind (reduce_axis (imm32 0) (imm32 KW) ''rw'') (\<lambda>rw.
        let in_val = (\<lambda>indices fill.
              let h_in = pool_in_index (indices ! 2) rh SH pad_top;
                  w_in = pool_in_index (indices ! 3) rw SW pad_left
              in T_Select (inside_image h_in w_in (ds ! 2) (ds ! 3))
                   (ProducerLoad data [T_Var (indices ! 0), T_Var (indices ! 1), h_in, w_in]) fill)
        in if pool_type = ''max''
           then compute shape
                  (\<lambda>indices. Inr (te_max (in_val indices (make_const H (t_dtype data) (dbl_m1e30 H))) [rh, rw]))
                  name ''pool''
           else
             te_bind (compute shape
                 (\<lambda>indices. Inr (te_sum (in_val indices (zero_const H (t_dtype data))) [rh, rw]))
                 (name @ ''_sum'') ''pool'') (\<lambda>sum_out.
             compute (t_shape sum_out) (\<lambda>indices.
               Inr (T_Bin DivOp (tensor_at sum_out indices)
                 (make_const H (t_dtype sum_out) (dbl_of_int H (i32 (KH * KW)))))) name ''pool'')))))"

definition topi_global_avg_pool2d :: "'d te_tensor \<Rightarrow> string \<Rightarrow> 'd te_tensor alloc" where
  "topi_global_avg_pool2d data name =
     te_bind (te_lift (smap (shape_at data) [0, 1, 2, 3])) (\<lambda>ds.
     te_bind (reduce_axis (imm32 0) (ds ! 2) ''rh'') (\<lambda>rh.
     te_bind (reduce_axis (imm32 0) (ds ! 3) ''rw'') (\<lambda>rw.
     te_bind (compute [ds ! 0, ds ! 1, imm32 1, imm32 1] (\<lambda>indices.
         Inr (te_sum (ProducerLoad data [T_Var (indices ! 0), T_Var (indices ! 1), iv_expr rh, iv_expr rw])
                [rh, rw])) (name @ ''_sum'') ''pool'') (\<lambda>sum_out.
     compute (t_shape sum_out) (\<lambda>indices.
       Inr (T_Bin DivOp (tensor_at sum_out indices) (T_Bin MulOp (te_of (ds ! 2)) (te_of (ds ! 3)))))
       name ''pool''))))"

section \<open>Checks of the hooks\<close>

definition RequireInputCount :: "string \<Rightarrow> 'd te_tensor list \<Rightarrow> nat \<Rightarrow> unit res" where
  "RequireInputCount nm inputs expected =
     require (length inputs = expected)
       (RuntimeError (nm @ '' expects exactly '' @ show_nat expected @ '' input(s)''))"

definition RequireTensorOutput :: "string \<Rightarrow> RType \<Rightarrow> int list res" where
  "RequireTensorOutput nm out_type =
     (case out_type of TensorType shape _ \<Rightarrow> Inr shape | _ \<Rightarrow> throw (nm @ '' expects TensorType output''))"

definition RequireDefined :: "string \<Rightarrow> 'd te_tensor \<Rightarrow> 'd te_tensor alloc" where
  "RequireDefined nm t =
     (if t_defined t then te_ret t
      else te_lift (throw (nm @ '' lowering returned undefined tensor'')))"

text \<open>The first checks of a hook, then its computation on its tensors.\<close>

definition checked_hook ::
  "string \<Rightarrow> nat \<Rightarrow> ('d te_tensor list \<Rightarrow> 'd te_tensor alloc) \<Rightarrow> 'd te_tensor list \<Rightarrow> RType \<Rightarrow>
     'd te_tensor alloc" where
  "checked_hook nm k f inputs out_type =
     te_bind (te_lift (RequireInputCount nm inputs k)) (\<lambda>_.
     te_bind (te_lift (RequireTensorOutput nm out_type)) (\<lambda>_.
     te_bind (f inputs) (RequireDefined nm)))"

section \<open>\<^verbatim>\<open>tensor/math.cc\<close>\<close>

definition AddCompute :: "Attrs \<Rightarrow> 'd te_tensor list \<Rightarrow> RType \<Rightarrow> 'd te_tensor alloc" where
  "AddCompute ats = checked_hook ''add'' 2 (\<lambda>is. topi_add (is ! 0) (is ! 1) ''T_add'')"

definition SubtractCompute :: "Attrs \<Rightarrow> 'd te_tensor list \<Rightarrow> RType \<Rightarrow> 'd te_tensor alloc" where
  "SubtractCompute ats =
     checked_hook ''subtract'' 2 (\<lambda>is. topi_subtract (is ! 0) (is ! 1) ''T_subtract'')"

definition MultiplyCompute :: "Attrs \<Rightarrow> 'd te_tensor list \<Rightarrow> RType \<Rightarrow> 'd te_tensor alloc" where
  "MultiplyCompute ats = checked_hook ''mul'' 2 (\<lambda>is. topi_multiply (is ! 0) (is ! 1) ''T_mul'')"

definition DivideCompute :: "Attrs \<Rightarrow> 'd te_tensor list \<Rightarrow> RType \<Rightarrow> 'd te_tensor alloc" where
  "DivideCompute ats = checked_hook ''divide'' 2 (\<lambda>is. topi_divide (is ! 0) (is ! 1) ''T_divide'')"

definition SqrtCompute :: "Attrs \<Rightarrow> 'd te_tensor list \<Rightarrow> RType \<Rightarrow> 'd te_tensor alloc" where
  "SqrtCompute ats = checked_hook ''sqrt'' 1 (\<lambda>is. topi_sqrt (is ! 0) ''T_sqrt'')"

definition MatMulCompute :: "Attrs \<Rightarrow> 'd te_tensor list \<Rightarrow> RType \<Rightarrow> 'd te_tensor alloc" where
  "MatMulCompute ats = checked_hook ''matmul'' 2 (\<lambda>is. topi_matmul (is ! 0) (is ! 1) ''T_matmul'')"

section \<open>\<^verbatim>\<open>nn/activation.cc\<close>, \<^verbatim>\<open>nn/convolution.cc\<close>, \<^verbatim>\<open>nn/dense.cc\<close>\<close>

definition ReluCompute ::
  "'d te_host \<Rightarrow> Attrs \<Rightarrow> 'd te_tensor list \<Rightarrow> RType \<Rightarrow> 'd te_tensor alloc" where
  "ReluCompute H ats inputs out_type =
     (if length inputs \<noteq> 1 then te_lift (throw ''nn_relu expects exactly 1 input'')
      else topi_relu H (inputs ! 0) ''T_relu'')"

definition Read2DValue :: "int list \<Rightarrow> int \<Rightarrow> int \<Rightarrow> int" where
  "Read2DValue v idx default_value =
     (if idx < 0 \<or> int (length v) \<le> idx then default_value else i32 (v ! nat idx))"

definition Conv2DCompute ::
  "'d te_host \<Rightarrow> Attrs \<Rightarrow> 'd te_tensor list \<Rightarrow> RType \<Rightarrow> 'd te_tensor alloc" where
  "Conv2DCompute H ats inputs out_type =
     (if length inputs < 2 \<or> length inputs > 3
      then te_lift (throw ''nn_conv2d expects 2 or 3 inputs (data, weight[, bias])'')
      else case ats of
        AConv2D p \<Rightarrow>
          if conv_data_layout p \<noteq> ''NCHW'' \<and> conv_data_layout p \<noteq> []
          then te_lift (throw ''nn_conv2d currently only supports NCHW'')
          else if length (t_shape (inputs ! 0)) \<noteq> 4 \<or> length (t_shape (inputs ! 1)) \<noteq> 4
          then te_lift (throw ''nn_conv2d currently expects NCHW/OIHW rank-4 tensors'')
          else if length inputs = 3 \<and> length (t_shape (inputs ! 2)) \<noteq> 1
          then te_lift (throw ''nn_conv2d bias must be rank-1'')
          else
            te_bind (topi_conv2d_nchw H (inputs ! 0) (inputs ! 1)
                (Read2DValue (conv_strides p) 0 1) (Read2DValue (conv_strides p) 1 1)
                (Read2DValue (conv_padding p) 0 0) (Read2DValue (conv_padding p) 1 0)
                (Read2DValue (conv_dilation p) 0 1) (Read2DValue (conv_dilation p) 1 1)
                ''T_conv2d'') (\<lambda>conv_out.
            if length inputs \<noteq> 3 then te_ret conv_out
            else compute (t_shape conv_out) (\<lambda>axis.
              Inr (T_Bin AddOp (tensor_at conv_out axis) (ProducerLoad (inputs ! 2) [T_Var (axis ! 1)])))
              ''T_conv2d_bias_add'' [])
      | _ \<Rightarrow> te_lift (throw ''nn_conv2d expects Conv2DAttrs''))"

definition ScaleTensor :: "'d te_host \<Rightarrow> 'd te_tensor \<Rightarrow> 'd \<Rightarrow> string \<Rightarrow> 'd te_tensor alloc" where
  "ScaleTensor H t scale name =
     (if dbl_eq H scale (dbl_of_int H 1) then te_ret t
      else compute (t_shape t) (\<lambda>axis.
        Inr (T_Bin MulOp (tensor_at t axis) (make_const H (t_dtype t) scale))) name [])"

definition DenseCompute :: "Attrs \<Rightarrow> 'd te_tensor list \<Rightarrow> RType \<Rightarrow> 'd te_tensor alloc" where
  "DenseCompute ats inputs out_type =
     (if length inputs \<noteq> 2 then te_lift (throw ''nn_dense expects exactly 2 inputs'')
      else topi_dense (inputs ! 0) (inputs ! 1) NullTensor ''T_dense'')"

definition GemmCompute ::
  "'d te_host \<Rightarrow> 'd \<times> 'd \<Rightarrow> Attrs \<Rightarrow> 'd te_tensor list \<Rightarrow> RType \<Rightarrow> 'd te_tensor alloc" where
  "GemmCompute H scales ats inputs out_type =
     (if length inputs \<noteq> 3 then te_lift (throw ''nn_gemm expects exactly 3 inputs'')
      else case ats of
        AGemm transA transB \<Rightarrow>
          if transA \<noteq> 0 then te_lift (throw ''nn_gemm currently does not support transA=1'')
          else
            te_bind (if transB = 1 then topi_dense (inputs ! 0) (inputs ! 1) NullTensor ''T_gemm_dense''
                     else topi_matmul (inputs ! 0) (inputs ! 1) ''T_gemm_matmul'') (\<lambda>out.
            te_bind (ScaleTensor H out (fst scales) ''T_gemm_alpha'') (\<lambda>out.
            te_bind (ScaleTensor H (inputs ! 2) (snd scales) ''T_gemm_beta'') (\<lambda>bias.
            topi_add out bias ''T_gemm_out'')))
      | _ \<Rightarrow> te_lift (throw ''nn_gemm expects GemmAttrs''))"

section \<open>\<^verbatim>\<open>nn/pooling.cc\<close>\<close>

definition Read2DPair :: "int list \<Rightarrow> int \<Rightarrow> int list" where
  "Read2DPair vs default_value =
     (if length vs \<ge> 2 then [i32 (vs ! 0), i32 (vs ! 1)] else [default_value, default_value])"

definition ReadPadding_te :: "int list \<Rightarrow> int list" where
  "ReadPadding_te vs =
     (if length vs \<ge> 4 then [i32 (vs ! 0), i32 (vs ! 1), i32 (vs ! 2), i32 (vs ! 3)]
      else if length vs \<ge> 2 then [i32 (vs ! 0), i32 (vs ! 1), i32 (vs ! 0), i32 (vs ! 1)]
      else [0, 0])"

text \<open>\<^verbatim>\<open>MaxPool2DCompute\<close> and \<^verbatim>\<open>AvgPool2DCompute\<close> differ in their names and the kind of pooling.\<close>

definition Pool2DCompute ::
  "string \<Rightarrow> string \<Rightarrow> string \<Rightarrow> 'd te_host \<Rightarrow> Attrs \<Rightarrow> 'd te_tensor list \<Rightarrow> RType \<Rightarrow> 'd te_tensor alloc" where
  "Pool2DCompute nm pool_type out_name H ats inputs out_type =
     (if length inputs \<noteq> 1 then te_lift (throw (nm @ '' expects exactly 1 input''))
      else case ats of
        AMaxPool2D p \<Rightarrow>
          if pool_layout p \<noteq> ''NCHW'' \<and> pool_layout p \<noteq> [] \<or> length (t_shape (inputs ! 0)) \<noteq> 4
          then te_lift (throw (nm @ '' expects NCHW rank-4 input''))
          else topi_pool2d H (inputs ! 0) (Read2DPair (pool_pool_size p) 1) (Read2DPair (pool_strides p) 1)
                 (ReadPadding_te (pool_padding p)) pool_type (pool_ceil_mode p) out_name
      | _ \<Rightarrow> te_lift (throw (nm @ '' expects MaxPool2DAttrs'')))"

definition MaxPool2DCompute ::
  "'d te_host \<Rightarrow> Attrs \<Rightarrow> 'd te_tensor list \<Rightarrow> RType \<Rightarrow> 'd te_tensor alloc" where
  "MaxPool2DCompute = Pool2DCompute ''nn_max_pool2d'' ''max'' ''T_max_pool2d''"

definition AvgPool2DCompute ::
  "'d te_host \<Rightarrow> Attrs \<Rightarrow> 'd te_tensor list \<Rightarrow> RType \<Rightarrow> 'd te_tensor alloc" where
  "AvgPool2DCompute = Pool2DCompute ''nn_avg_pool2d'' ''avg'' ''T_avg_pool2d''"

definition GlobalAvgPool2DCompute :: "Attrs \<Rightarrow> 'd te_tensor list \<Rightarrow> RType \<Rightarrow> 'd te_tensor alloc" where
  "GlobalAvgPool2DCompute ats inputs out_type =
     (if length inputs \<noteq> 1 then te_lift (throw ''nn_global_avg_pool2d expects exactly 1 input'')
      else if length (t_shape (inputs ! 0)) \<noteq> 4
      then te_lift (throw ''nn_global_avg_pool2d expects NCHW rank-4 input'')
      else topi_global_avg_pool2d (inputs ! 0) ''T_global_avg_pool2d'')"

section \<open>\<^verbatim>\<open>nn/softmax.cc\<close>, \<^verbatim>\<open>tensor/reduce.cc\<close>\<close>

definition NormalizeAxis_te :: "string \<Rightarrow> int \<Rightarrow> int \<Rightarrow> int res" where
  "NormalizeAxis_te nm axis rank =
     (let axis = (if axis < 0 then axis + rank else axis) in
      if axis < 0 \<or> axis \<ge> rank then throw (nm @ '' axis out of range'') else Inr axis)"

text \<open>The indices of the denominator: those of the element, zero along the axis.\<close>

definition denom_indices :: "int \<Rightarrow> tir_var list \<Rightarrow> 'd te_expr list" where
  "denom_indices axis indices =
     map (\<lambda>i. if int i = axis then T_Int 0 (dt_Int 64 1) else T_Var (indices ! i)) [0..<length indices]"

definition SoftmaxCompute :: "Attrs \<Rightarrow> 'd te_tensor list \<Rightarrow> RType \<Rightarrow> 'd te_tensor alloc" where
  "SoftmaxCompute ats inputs out_type =
     te_bind (te_lift (RequireInputCount ''softmax'' inputs 1)) (\<lambda>_.
     te_bind (te_lift (RequireTensorOutput ''softmax'' out_type)) (\<lambda>_.
     if code (t_dtype (inputs ! 0)) \<noteq> 2
     then te_lift (throw ''softmax lowering requires floating-point input'')
     else
       te_bind (te_lift (NormalizeAxis_te ''softmax'' (case ats of ASoftmax a \<Rightarrow> a | _ \<Rightarrow> -1)
                           (int (length (t_shape (inputs ! 0)))))) (\<lambda>axis.
       te_bind (topi_exp (inputs ! 0) ''T_softmax_exp'') (\<lambda>exp_out.
       te_bind (topi_sum exp_out [axis] True ''T_softmax_sum'') (\<lambda>sum_out.
       compute (t_shape (inputs ! 0)) (\<lambda>indices.
         Inr (T_Bin DivOp (tensor_at exp_out indices)
                (ProducerLoad sum_out (denom_indices axis indices)))) ''T_softmax'' [])))))"

definition normalize_step :: "string \<Rightarrow> int \<Rightarrow> int \<Rightarrow> int list \<Rightarrow> int list res" where
  "normalize_step nm rank axis out =
     (let axis = (if axis < 0 then axis + rank else axis) in
      if axis < 0 \<or> axis \<ge> rank then throw (nm @ '' axis out of range'')
      else if axis \<in> set out then throw (nm @ '' duplicate axis'')
      else Inr (out @ [axis]))"

definition NormalizeAxes_te :: "string \<Rightarrow> int list \<Rightarrow> int \<Rightarrow> int list res" where
  "NormalizeAxes_te nm axes rank =
     (if axes = [] then Inr (map int [0..<nat rank]) else sfold (normalize_step nm rank) axes [])"

fun count_elements :: "'d PrimExpr list \<Rightarrow> int list \<Rightarrow> int \<Rightarrow> int res" where
  "count_elements shape [] cnt = Inr cnt"
| "count_elements shape (a # axes) cnt =
     (case GetConstInt (shape ! nat a) of
        Some extent \<Rightarrow>
          if extent < 0 then throw ''reduce_mean lowering requires static reduction shape''
          else count_elements shape axes (i64 (cnt * extent))
      | None \<Rightarrow> throw ''reduce_mean lowering requires static reduction shape'')"

definition ReductionElementCount :: "'d te_tensor \<Rightarrow> int list \<Rightarrow> int res" where
  "ReductionElementCount inp axes = count_elements (t_shape inp) axes 1"

definition ReduceMeanCompute ::
  "'d te_host \<Rightarrow> Attrs \<Rightarrow> 'd te_tensor list \<Rightarrow> RType \<Rightarrow> 'd te_tensor alloc" where
  "ReduceMeanCompute H ats inputs out_type =
     te_bind (te_lift (RequireInputCount ''reduce_mean'' inputs 1)) (\<lambda>_.
     te_bind (te_lift (RequireTensorOutput ''reduce_mean'' out_type)) (\<lambda>_.
     te_bind (te_lift (NormalizeAxes_te ''reduce_mean''
                (case ats of AReduceMean axes _ \<Rightarrow> axes | _ \<Rightarrow> [])
                (int (length (t_shape (inputs ! 0)))))) (\<lambda>axes.
     let keepdims = (case ats of AReduceMean _ keep \<Rightarrow> keep \<noteq> 0 | _ \<Rightarrow> True) in
     te_bind (topi_sum (inputs ! 0) axes keepdims ''T_reduce_mean_sum'') (\<lambda>sum_out.
     te_bind (te_lift (ReductionElementCount (inputs ! 0) axes)) (\<lambda>denominator.
     compute (t_shape sum_out) (\<lambda>indices.
       Inr (T_Bin DivOp (tensor_at sum_out indices)
              (make_const H (t_dtype sum_out) (dbl_of_int H denominator)))) ''T_reduce_mean'' [])))))"

section \<open>\<^verbatim>\<open>tensor/transform.cc\<close>\<close>

definition ShapeFromTensorType_op :: "int list \<Rightarrow> string \<Rightarrow> 'd PrimExpr list res" where
  "ShapeFromTensorType_op shape nm =
     smap (\<lambda>extent. if extent < 0 then throw (nm @ '' lowering requires static output shape'')
                else Inr (IntImm extent (dt_Int 64 1))) shape"

fun linear_from :: "'d te_expr \<Rightarrow> 'd te_expr list \<Rightarrow> 'd PrimExpr list \<Rightarrow> 'd te_expr" where
  "linear_from lin (i # is) (d # ds) =
     linear_from (T_Bin AddOp (T_Bin MulOp lin (te_of d)) i) is ds"
| "linear_from lin _ _ = lin"

definition LinearIndex :: "'d te_expr list \<Rightarrow> 'd PrimExpr list \<Rightarrow> 'd te_expr res" where
  "LinearIndex indices dims =
     (if dims = [] then Inr (T_Int 0 (dt_Int 64 1))
      else if length indices \<noteq> length dims then throw ''reshape index rank mismatch''
      else Inr (linear_from (hd indices) (tl indices) (tl dims)))"

text \<open>The loop of \<^verbatim>\<open>UnflattenIndex\<close>, over the dimensions from the last to the first.\<close>

fun unflatten_rev :: "'d te_expr \<Rightarrow> 'd PrimExpr list \<Rightarrow> 'd te_expr list" where
  "unflatten_rev cur [] = []"
| "unflatten_rev cur (d # ds) =
     T_Bin ModOp cur (te_of d) # unflatten_rev (T_Bin DivOp cur (te_of d)) ds"

definition UnflattenIndex :: "'d te_expr \<Rightarrow> 'd PrimExpr list \<Rightarrow> 'd te_expr list" where
  "UnflattenIndex pos dims = rev (unflatten_rev pos (rev dims))"

definition DTypeFromCastCode :: "int \<Rightarrow> DataType res" where
  "DTypeFromCastCode c =
     (if c = 0 then Inr (dt_Float 32 1) else if c = 1 then Inr (dt_Int 32 1)
      else if c = 2 then Inr (dt_Int 64 1) else if c = 3 then Inr (dt_Float 64 1)
      else if c = 4 then Inr (dt_Bool 1) else if c = 5 then Inr (dt_Int 8 1)
      else if c = 6 then Inr (dt_UInt 8 1)
      else throw (''cast has unsupported dtype code: '' @ to_string c))"

definition NormalizeTransposeAxes :: "'d te_tensor \<Rightarrow> Attrs \<Rightarrow> int list res" where
  "NormalizeTransposeAxes inp ats =
     (let rank = int (length (t_shape inp)) in
      sbind (case ats of
          ATranspose perm \<Rightarrow>
            smap (\<lambda>raw. let axis = i32 raw; axis = (if axis < 0 then axis + rank else axis) in
                   if axis < 0 \<or> axis \<ge> rank then throw ''transpose axis out of range'' else Inr axis) perm
        | _ \<Rightarrow> Inr []) (\<lambda>axes.
      let axes = (if axes = [] then rev (map int [0..<nat rank]) else axes) in
      if int (length axes) \<noteq> rank then throw ''transpose perm rank mismatch''
      else if \<not> distinct axes then throw ''transpose duplicate axis''
      else Inr axes))"

definition FlattenCompute :: "Attrs \<Rightarrow> 'd te_tensor list \<Rightarrow> RType \<Rightarrow> 'd te_tensor alloc" where
  "FlattenCompute ats inputs out_type =
     te_bind (te_lift (RequireInputCount ''nn_flatten'' inputs 1)) (\<lambda>_.
     te_bind (te_lift (RequireTensorOutput ''nn_flatten'' out_type)) (\<lambda>_.
     let axis = (case ats of AFlatten a \<Rightarrow> a | _ \<Rightarrow> 1);
         shape = t_shape (inputs ! 0);
         ndim = int (length shape);
         axis = (if axis < 0 then axis + ndim else axis)
     in if ndim \<le> 0 then te_lift (throw ''nn_flatten requires rank >= 1'')
        else if axis < 0 \<or> axis > ndim then te_lift (throw ''nn_flatten axis out of range'')
        else
          let outer_dims = take (nat axis) shape; inner_dims = drop (nat axis) shape;
              prod = foldl (\<lambda>acc d. Bin MulOp acc d) (imm32 1)
          in te_bind (compute [prod outer_dims, prod inner_dims] (\<lambda>indices.
               Inr (ProducerLoad (inputs ! 0)
                 (UnflattenIndex (T_Var (indices ! 0)) outer_dims @
                  UnflattenIndex (T_Var (indices ! 1)) inner_dims))) ''T_flatten'' [])
             (RequireDefined ''nn_flatten'')))"

definition ReshapeCompute :: "Attrs \<Rightarrow> 'd te_tensor list \<Rightarrow> RType \<Rightarrow> 'd te_tensor alloc" where
  "ReshapeCompute ats inputs out_type =
     te_bind (te_lift (RequireInputCount ''reshape'' inputs 1)) (\<lambda>_.
     te_bind (te_lift (RequireTensorOutput ''reshape'' out_type)) (\<lambda>tshape.
     te_bind (te_lift (ShapeFromTensorType_op tshape ''reshape'')) (\<lambda>out_shape.
     te_bind (compute out_shape (\<lambda>indices.
         sbind (LinearIndex (map T_Var indices) out_shape) (\<lambda>pos.
         Inr (ProducerLoad (inputs ! 0) (UnflattenIndex pos (t_shape (inputs ! 0)))))) ''T_reshape'' [])
       (RequireDefined ''reshape''))))"

definition TransposeCompute :: "Attrs \<Rightarrow> 'd te_tensor list \<Rightarrow> RType \<Rightarrow> 'd te_tensor alloc" where
  "TransposeCompute ats = checked_hook ''transpose'' 1 (\<lambda>is.
     te_bind (te_lift (NormalizeTransposeAxes (is ! 0) ats)) (\<lambda>axes.
       topi_transpose (is ! 0) axes ''T_transpose''))"

definition CastCompute :: "Attrs \<Rightarrow> 'd te_tensor list \<Rightarrow> RType \<Rightarrow> 'd te_tensor alloc" where
  "CastCompute ats = checked_hook ''cast'' 1 (\<lambda>is.
     case ats of
       ACast to \<Rightarrow> te_bind (te_lift (DTypeFromCastCode to)) (\<lambda>dt. topi_cast (is ! 0) dt ''T_cast'')
     | _ \<Rightarrow> te_lift (throw ''cast expects CastAttrs''))"

section \<open>The registry\<close>

definition hook_table ::
  "'d te_host \<Rightarrow> 'd \<times> 'd \<Rightarrow> (string \<times> (Attrs \<Rightarrow> 'd te_tensor list \<Rightarrow> RType \<Rightarrow> 'd te_tensor alloc)) list"
where
  "hook_table H scales =
     [(''nn_relu'', ReluCompute H), (''nn_conv2d'', Conv2DCompute H), (''nn_dense'', DenseCompute),
      (''nn_gemm'', GemmCompute H scales), (''nn_max_pool2d'', MaxPool2DCompute H),
      (''nn_avg_pool2d'', AvgPool2DCompute H), (''nn_global_avg_pool2d'', GlobalAvgPool2DCompute),
      (''softmax'', SoftmaxCompute), (''add'', AddCompute), (''subtract'', SubtractCompute),
      (''mul'', MultiplyCompute), (''divide'', DivideCompute), (''sqrt'', SqrtCompute),
      (''matmul'', MatMulCompute), (''reduce_mean'', ReduceMeanCompute H),
      (''nn_flatten'', FlattenCompute), (''reshape'', ReshapeCompute),
      (''transpose'', TransposeCompute), (''cast'', CastCompute)]"

text \<open>No operator of the repository registers a hook for tuple outputs.\<close>

definition FRelayToTE_registry :: "'d te_host \<Rightarrow> 'd \<times> 'd \<Rightarrow> 'd registry" where
  "FRelayToTE_registry H scales =
     \<lparr>FRelayToTE = map_of (hook_table H scales), FRelayToTEMulti = (\<lambda>_. None)\<rparr>"

end
