(* ===== verification/TE_Schedule.thy ===== *)
theory TE_Schedule
  imports TE_Graph "HOL-Library.Multiset"
begin

text \<open>
  The schedules of \<^verbatim>\<open>include/te/te.h\<close> and \<^verbatim>\<open>src/te/te.cc\<close>. A stage lists the leaf axes of its
  operation; the primitives replace leaves and annotate axes. All of this is mutable and shared by
  reference: axes, stages and the arrays of leaves (assigning an \<^verbatim>\<open>Array\<close> shares it) live in a heap
  and are compared by address. \<open>None\<close> is the use of an address that holds no such object. The list of
  all axes of a stage is never shared, so it is part of the stage.
\<close>

section \<open>The heap\<close>

record 'd StageNode =
  stage_op :: "'d te_operation"
  leaf_array :: nat
  all_iter_vars :: "nat list"

record 'd sched_heap =
  iters :: "nat \<rightharpoonup> 'd te_iter_var"
  arrays :: "nat \<rightharpoonup> nat list"
  stages_at :: "nat \<rightharpoonup> 'd StageNode"
  fresh :: nat

abbreviation zero32 :: "'d PrimExpr" where
  "zero32 \<equiv> IntImm 0 (dt_Int 32 1)"

definition new_iter :: "'d PrimExpr \<Rightarrow> string \<Rightarrow> 'd sched_heap \<Rightarrow> nat \<times> 'd sched_heap" where
  "new_iter extent name h =
     (let v = \<lparr>vid = fresh h, name_hint = name, vdtype = dt_Int 32 1\<rparr>;
          a = Suc (fresh h);
          iv = \<lparr>iv_addr = a, iv_var = v, iv_min = zero32, iv_extent = extent, iv_type = kDataPar,
                iv_thread_tag = []\<rparr>
      in (a, h\<lparr>iters := (iters h)(a \<mapsto> iv), fresh := Suc a\<rparr>))"

definition new_array :: "nat list \<Rightarrow> 'd sched_heap \<Rightarrow> nat \<times> 'd sched_heap" where
  "new_array xs h = (fresh h, h\<lparr>arrays := (arrays h)(fresh h \<mapsto> xs), fresh := Suc (fresh h)\<rparr>)"

section \<open>Stages\<close>

fun new_axis_iters :: "tir_var list \<Rightarrow> 'd sched_heap \<Rightarrow> nat list \<times> 'd sched_heap" where
  "new_axis_iters [] h = ([], h)"
| "new_axis_iters (v # vs) h =
     (let (a, h) = new_iter zero32 (name_hint v) h; (as, h) = new_axis_iters vs h in (a # as, h))"

text \<open>A reduction axis is an object of the operation; the heap takes it in when a stage first names it.\<close>

definition know_iter :: "'d te_iter_var \<Rightarrow> 'd sched_heap \<Rightarrow> 'd sched_heap" where
  "know_iter iv h =
     (if iters h (iv_addr iv) = None then h\<lparr>iters := (iters h)(iv_addr iv \<mapsto> iv)\<rparr> else h)"

fun stage_axes :: "'d te_operation \<Rightarrow> 'd sched_heap \<Rightarrow> nat list \<times> 'd sched_heap" where
  "stage_axes (ComputeOp _ _ _ axis reduce_axes _ _) h =
     (let (as, h) = new_axis_iters axis h in (as @ map iv_addr reduce_axes, fold know_iter reduce_axes h))"
| "stage_axes _ h = ([], h)"

definition Stage_new :: "'d te_operation \<Rightarrow> 'd sched_heap \<Rightarrow> nat \<times> 'd sched_heap" where
  "Stage_new op h =
     (let (as, h) = stage_axes op h; (arr, h) = new_array as h in
      (fresh h, h\<lparr>stages_at := (stages_at h)(fresh h \<mapsto>
          \<lparr>stage_op = op, leaf_array = arr, all_iter_vars = as\<rparr>), fresh := Suc (fresh h)\<rparr>))"

definition set_stage :: "nat \<Rightarrow> 'd StageNode \<Rightarrow> 'd sched_heap \<Rightarrow> 'd sched_heap" where
  "set_stage s nd h = h\<lparr>stages_at := (stages_at h)(s \<mapsto> nd)\<rparr>"

definition set_array :: "nat \<Rightarrow> nat list \<Rightarrow> 'd sched_heap \<Rightarrow> 'd sched_heap" where
  "set_array a xs h = h\<lparr>arrays := (arrays h)(a \<mapsto> xs)\<rparr>"

text \<open>The name of an axis, and the stage with its leaves.\<close>

definition iter_name :: "'d sched_heap \<Rightarrow> nat \<Rightarrow> string option" where
  "iter_name h a = map_option (\<lambda>iv. name_hint (iv_var iv)) (iters h a)"

definition stage_leaves :: "'d sched_heap \<Rightarrow> nat \<Rightarrow> nat list option" where
  "stage_leaves h s = Option.bind (stages_at h s) (\<lambda>nd. arrays h (leaf_array nd))"

section \<open>Primitives\<close>

text \<open>The first occurrence of the parent gives way to the two new axes.\<close>

fun split_leaf :: "nat \<Rightarrow> nat \<Rightarrow> nat \<Rightarrow> nat list \<Rightarrow> nat list" where
  "split_leaf parent outer inner [] = []"
| "split_leaf parent outer inner (x # xs) =
     (if x = parent then outer # inner # xs else x # split_leaf parent outer inner xs)"

definition stage_split ::
  "nat \<Rightarrow> nat \<Rightarrow> 'd PrimExpr \<Rightarrow> 'd sched_heap \<Rightarrow> ((nat \<times> nat) \<times> 'd sched_heap) option" where
  "stage_split s parent factor h =
     Option.bind (iter_name h parent) (\<lambda>name.
     let (outer, h) = new_iter zero32 (name @ ''.outer'') h;
         (inner, h) = new_iter factor (name @ ''.inner'') h
     in Option.bind (stages_at h s) (\<lambda>nd.
        Option.bind (arrays h (leaf_array nd)) (\<lambda>leaves.
        Some ((outer, inner),
          set_stage s (nd\<lparr>all_iter_vars := all_iter_vars nd @ [outer, inner]\<rparr>)
            (set_array (leaf_array nd) (split_leaf parent outer inner leaves) h)))))"

text \<open>
  \<^verbatim>\<open>fuse\<close> erases the inner axis, then looks the outer one up again: it is not found when both are
  the same axis.
\<close>

definition fuse_leaves :: "nat \<Rightarrow> nat \<Rightarrow> nat \<Rightarrow> nat list \<Rightarrow> nat list" where
  "fuse_leaves outer inner fused leaves =
     (if outer \<in> set leaves \<and> inner \<in> set leaves
      then (let rest = remove1 inner leaves in
            if outer \<in> set rest
            then takeWhile (\<lambda>x. x \<noteq> outer) rest @ fused # tl (dropWhile (\<lambda>x. x \<noteq> outer) rest)
            else rest)
      else leaves)"

definition stage_fuse :: "nat \<Rightarrow> nat \<Rightarrow> nat \<Rightarrow> 'd sched_heap \<Rightarrow> (nat \<times> 'd sched_heap) option" where
  "stage_fuse s outer inner h =
     Option.bind (iter_name h outer) (\<lambda>no. Option.bind (iter_name h inner) (\<lambda>ni.
     let (fused, h) = new_iter zero32 (no @ ''.'' @ ni @ ''.fused'') h
     in Option.bind (stages_at h s) (\<lambda>nd.
        Option.bind (arrays h (leaf_array nd)) (\<lambda>leaves.
        Some (fused,
          set_stage s (nd\<lparr>all_iter_vars := all_iter_vars nd @ [fused]\<rparr>)
            (set_array (leaf_array nd) (fuse_leaves outer inner fused leaves) h))))))"

text \<open>The stage takes the array of the caller itself.\<close>

definition stage_reorder :: "nat \<Rightarrow> nat \<Rightarrow> 'd sched_heap \<Rightarrow> 'd sched_heap option" where
  "stage_reorder s order h =
     Option.bind (stages_at h s) (\<lambda>nd. Some (set_stage s (nd\<lparr>leaf_array := order\<rparr>) h))"

fun tile_rest :: "nat \<Rightarrow> nat \<Rightarrow> nat list \<Rightarrow> nat list \<Rightarrow> nat list" where
  "tile_rest xp yp new_leaves [] = new_leaves"
| "tile_rest xp yp new_leaves (iv # ivs) =
     (if iv = xp \<or> iv = yp \<or> iv \<in> set new_leaves then tile_rest xp yp new_leaves ivs
      else tile_rest xp yp (new_leaves @ [iv]) ivs)"

definition stage_tile ::
  "nat \<Rightarrow> nat \<Rightarrow> nat \<Rightarrow> 'd PrimExpr \<Rightarrow> 'd PrimExpr \<Rightarrow> 'd sched_heap \<Rightarrow>
     ((nat \<times> nat \<times> nat \<times> nat) \<times> 'd sched_heap) option" where
  "stage_tile s xp yp xf yf h =
     Option.bind (stage_split s xp xf h) (\<lambda>((xo, xi), h).
     Option.bind (stage_split s yp yf h) (\<lambda>((yo, yi), h).
     Option.bind (stage_leaves h s) (\<lambda>current_leaves.
     let (order, h) = new_array [xo, yo, xi, yi] h
     in Option.bind (stage_reorder s order h) (\<lambda>h.
        Some ((xo, yo, xi, yi), set_array order (tile_rest xp yp [xo, yo, xi, yi] current_leaves) h)))))"

definition annotate :: "('d te_iter_var \<Rightarrow> 'd te_iter_var) \<Rightarrow> nat \<Rightarrow> 'd sched_heap \<Rightarrow> 'd sched_heap option"
where
  "annotate f a h = map_option (\<lambda>iv. h\<lparr>iters := (iters h)(a \<mapsto> f iv)\<rparr>) (iters h a)"

definition vectorize :: "nat \<Rightarrow> 'd sched_heap \<Rightarrow> 'd sched_heap option" where
  "vectorize = annotate (iv_type_update (\<lambda>_. kVectorized))"

definition unroll :: "nat \<Rightarrow> 'd sched_heap \<Rightarrow> 'd sched_heap option" where
  "unroll = annotate (iv_type_update (\<lambda>_. kUnrolled))"

definition parallel :: "nat \<Rightarrow> 'd sched_heap \<Rightarrow> 'd sched_heap option" where
  "parallel = annotate (iv_type_update (\<lambda>_. kParallel))"

text \<open>The tag is read after the type is written; they are different fields, so the order is not seen.\<close>

definition bind_thread :: "nat \<Rightarrow> nat \<Rightarrow> 'd sched_heap \<Rightarrow> 'd sched_heap option" where
  "bind_thread var thread h =
     Option.bind (annotate (iv_type_update (\<lambda>_. kThreadIndex)) var h) (\<lambda>h.
     Option.bind (iters h thread) (\<lambda>t.
     annotate (iv_thread_tag_update (\<lambda>_. iv_thread_tag t)) var h))"

section \<open>Schedules\<close>

record 'd ScheduleNode =
  sch_outputs :: "'d te_operation list"
  sch_stages :: "nat list"
  sch_op_map :: "nat option \<rightharpoonup> nat"

fun add_stages :: "'d te_operation list \<Rightarrow> 'd ScheduleNode \<times> 'd sched_heap \<Rightarrow> 'd ScheduleNode \<times> 'd sched_heap"
where
  "add_stages [] st = st"
| "add_stages (op # ops) (sc, h) =
     (let (s, h) = Stage_new op h in
      add_stages ops (sc\<lparr>sch_stages := sch_stages sc @ [s],
        sch_op_map := (sch_op_map sc)(op_addr op \<mapsto> s)\<rparr>, h))"

definition create_schedule :: "'d te_operation list \<Rightarrow> 'd sched_heap \<Rightarrow> 'd ScheduleNode \<times> 'd sched_heap"
where
  "create_schedule ops h =
     add_stages ops (\<lparr>sch_outputs = ops, sch_stages = [], sch_op_map = Map.empty\<rparr>, h)"

section \<open>Leaves\<close>

lemma split_leaf_at: "parent \<notin> set xs \<Longrightarrow> split_leaf parent o1 i1 (xs @ parent # ys) = xs @ o1 # i1 # ys"
  by (induction xs) auto

lemma split_leaf_none: "parent \<notin> set xs \<Longrightarrow> split_leaf parent o1 i1 xs = xs"
  by (induction xs) auto

lemma split_leaf_distinct:
  assumes "distinct xs" "distinct [o1, i1]" "o1 \<notin> set xs" "i1 \<notin> set xs"
  shows "distinct (split_leaf parent o1 i1 xs)" "set (split_leaf parent o1 i1 xs) \<subseteq> set xs \<union> set [o1, i1]"
proof -
  consider (leaf) ys zs where "xs = ys @ parent # zs" "parent \<notin> set ys" | (other) "parent \<notin> set xs"
    by (metis split_list_first)
  then have "distinct (split_leaf parent o1 i1 xs) \<and> set (split_leaf parent o1 i1 xs) \<subseteq> set xs \<union> set [o1, i1]"
  proof cases
    case leaf
    then show ?thesis using assms by (auto simp: split_leaf_at)
  qed (use assms in \<open>auto simp: split_leaf_none\<close>)
  then show "distinct (split_leaf parent o1 i1 xs)" "set (split_leaf parent o1 i1 xs) \<subseteq> set xs \<union> set [o1, i1]"
    by blast+
qed

lemma fuse_leaves_at:
  assumes "distinct (xs @ outer # ys)" "inner \<in> set (xs @ ys)"
  shows "fuse_leaves outer inner fused (xs @ outer # ys) = remove1 inner xs @ fused # remove1 inner ys"
proof -
  have ne: "outer \<noteq> inner" "outer \<notin> set xs" "outer \<notin> set (remove1 inner xs)"
    using assms set_remove1_subset [of inner xs] by auto
  have rest: "remove1 inner (xs @ outer # ys) = remove1 inner xs @ outer # remove1 inner ys"
  proof (cases "inner \<in> set xs")
    case True
    then have "inner \<notin> set ys" using assms(1) by auto
    then show ?thesis using True by (simp add: remove1_append remove1_idem)
  qed (use ne(1) in \<open>simp add: remove1_append remove1_idem\<close>)
  have "takeWhile (\<lambda>x. x \<noteq> outer) (remove1 inner xs @ outer # remove1 inner ys) = remove1 inner xs"
    "dropWhile (\<lambda>x. x \<noteq> outer) (remove1 inner xs @ outer # remove1 inner ys) = outer # remove1 inner ys"
    using ne(3) by (simp_all add: takeWhile_append dropWhile_append)
  then show ?thesis using assms(2) ne(1) by (simp add: fuse_leaves_def rest Let_def)
qed

lemma fuse_leaves_distinct:
  assumes "distinct leaves" "fused \<notin> set leaves"
  shows "distinct (fuse_leaves outer inner fused leaves) \<and>
    set (fuse_leaves outer inner fused leaves) \<subseteq> set leaves \<union> set [fused]"
proof (cases "outer \<in> set leaves \<and> inner \<in> set leaves \<and> outer \<noteq> inner")
  case True
  then obtain xs ys where l: "leaves = xs @ outer # ys" by (meson split_list)
  then have "inner \<in> set (xs @ ys)" using True by auto
  note at = fuse_leaves_at [OF assms(1) [unfolded l] this, of fused]
  have sub: "set (remove1 inner xs) \<subseteq> set xs" "set (remove1 inner ys) \<subseteq> set ys"
    by (rule set_remove1_subset)+
  then show ?thesis
    unfolding l at using assms unfolding l by (auto intro: distinct_remove1)
next
  case False
  then show ?thesis using assms set_remove1_subset [of outer leaves]
    by (auto simp: fuse_leaves_def Let_def intro: distinct_remove1)
qed

lemma tile_rest_filter:
  "distinct ivs \<Longrightarrow> tile_rest xp yp new_leaves ivs =
     new_leaves @ filter (\<lambda>a. a \<noteq> xp \<and> a \<noteq> yp \<and> a \<notin> set new_leaves) ivs"
proof (induction ivs arbitrary: new_leaves)
  case (Cons iv ivs)
  then have "filter (\<lambda>a. a \<noteq> xp \<and> a \<noteq> yp \<and> a \<notin> set (new_leaves @ [iv])) ivs =
      filter (\<lambda>a. a \<noteq> xp \<and> a \<noteq> yp \<and> a \<notin> set new_leaves) ivs"
    by (intro filter_cong) auto
  then show ?case using Cons by auto
qed simp

section \<open>The invariant\<close>

text \<open>
  Every stage has its own array of leaves, without duplicates, all of them among its axes, which
  are objects of the heap.
\<close>

definition sched_ok :: "'d sched_heap \<Rightarrow> bool" where
  "sched_ok h \<longleftrightarrow>
     (\<forall>a \<in> Map.dom (iters h) \<union> Map.dom (arrays h) \<union> Map.dom (stages_at h). a < fresh h) \<and>
     (\<forall>s nd. stages_at h s = Some nd \<longrightarrow> set (all_iter_vars nd) \<subseteq> Map.dom (iters h) \<and>
        (\<exists>leaves. arrays h (leaf_array nd) = Some leaves \<and> distinct leaves \<and>
           set leaves \<subseteq> set (all_iter_vars nd))) \<and>
     (\<forall>s s' nd nd'. stages_at h s = Some nd \<longrightarrow> stages_at h s' = Some nd' \<longrightarrow>
        leaf_array nd = leaf_array nd' \<longrightarrow> s = s')"

lemma sched_ok_stage:
  assumes "sched_ok h" "stages_at h s = Some nd"
  shows "set (all_iter_vars nd) \<subseteq> Map.dom (iters h)" "\<exists>leaves. arrays h (leaf_array nd) = Some leaves"
  using assms unfolding sched_ok_def by blast+

lemma sched_ok_leaves:
  assumes "sched_ok h" "stages_at h s = Some nd" "arrays h (leaf_array nd) = Some leaves"
  shows "distinct leaves" "set leaves \<subseteq> set (all_iter_vars nd)"
  using assms unfolding sched_ok_def by (metis option.inject)+

lemma sched_ok_fresh:
  "sched_ok h \<Longrightarrow> a \<in> Map.dom (iters h) \<Longrightarrow> a < fresh h"
  "sched_ok h \<Longrightarrow> a \<in> Map.dom (arrays h) \<Longrightarrow> a < fresh h"
  "sched_ok h \<Longrightarrow> a \<in> Map.dom (stages_at h) \<Longrightarrow> a < fresh h"
  unfolding sched_ok_def by blast+

lemma sched_ok_separate:
  "sched_ok h \<Longrightarrow> stages_at h s = Some nd \<Longrightarrow> stages_at h s' = Some nd' \<Longrightarrow>
   leaf_array nd = leaf_array nd' \<Longrightarrow> s = s'"
  unfolding sched_ok_def by blast

text \<open>Allocating axes changes nothing but the axes.\<close>

definition adds_iters :: "nat list \<Rightarrow> 'd sched_heap \<Rightarrow> 'd sched_heap \<Rightarrow> bool" where
  "adds_iters ns h h' \<longleftrightarrow>
     arrays h' = arrays h \<and> stages_at h' = stages_at h \<and> fresh h \<le> fresh h' \<and>
     Map.dom (iters h') = Map.dom (iters h) \<union> set ns \<and> distinct ns \<and> (\<forall>a \<in> set ns. fresh h \<le> a \<and> a < fresh h')"

lemma adds_iters_Nil: "adds_iters [] h h"
  by (simp add: adds_iters_def)

lemma adds_iters_append: "adds_iters ms h h1 \<Longrightarrow> adds_iters ns h1 h2 \<Longrightarrow> adds_iters (ms @ ns) h h2"
  unfolding adds_iters_def by (auto simp: Un_assoc) (meson leD le_less_trans order_trans less_le_trans)+

lemma new_iter_adds: "new_iter extent name h = (a, h') \<Longrightarrow> adds_iters [a] h h'"
  by (auto simp: new_iter_def Let_def adds_iters_def)

lemma more_iters_ok:
  assumes ok: "sched_ok h" and eq: "arrays h' = arrays h" "stages_at h' = stages_at h" "fresh h \<le> fresh h'"
    and more: "Map.dom (iters h) \<subseteq> Map.dom (iters h')" "\<forall>a \<in> Map.dom (iters h'). a < fresh h'"
  shows "sched_ok h'"
proof -
  have "\<forall>a \<in> Map.dom (iters h') \<union> Map.dom (arrays h') \<union> Map.dom (stages_at h'). a < fresh h'"
    unfolding eq(1,2) using sched_ok_fresh(2,3) [OF ok] eq(3) more(2) by (meson Un_iff less_le_trans)
  moreover have "set (all_iter_vars nd) \<subseteq> Map.dom (iters h')" if "stages_at h s = Some nd" for s nd
    using sched_ok_stage(1) [OF ok that] more(1) by blast
  ultimately show ?thesis
    using ok unfolding sched_ok_def eq by blast
qed

lemma adds_iters_ok:
  assumes ok: "sched_ok h" and adds: "adds_iters ns h h'"
  shows "sched_ok h'"
proof (rule more_iters_ok [OF ok])
  show "\<forall>a \<in> Map.dom (iters h'). a < fresh h'"
  proof
    fix a assume "a \<in> Map.dom (iters h')"
    then have "a \<in> Map.dom (iters h) \<or> a \<in> set ns" using adds by (auto simp: adds_iters_def)
    then show "a < fresh h'"
      using sched_ok_fresh(1) [OF ok] adds unfolding adds_iters_def by (meson less_le_trans)
  qed
qed (use adds in \<open>auto simp: adds_iters_def\<close>)

lemma update_stage_ok:
  assumes "sched_ok h" "stages_at h s = Some nd" "arrays h (leaf_array nd) = Some leaves"
    and "set ns \<subseteq> Map.dom (iters h)" "distinct leaves'" "set leaves' \<subseteq> set (all_iter_vars nd) \<union> set ns"
  shows "sched_ok (set_stage s (nd\<lparr>all_iter_vars := all_iter_vars nd @ ns\<rparr>) (set_array (leaf_array nd) leaves' h))"
proof -
  have sep: "leaf_array nd' \<noteq> leaf_array nd" if "stages_at h s' = Some nd'" "s' \<noteq> s" for s' nd'
    using sched_ok_separate [OF assms(1)] that assms(2) by metis
  have "set (all_iter_vars nd) \<subseteq> Map.dom (iters h)" using assms(1,2) unfolding sched_ok_def by blast
  then show ?thesis
    using assms sep unfolding sched_ok_def set_stage_def set_array_def
    by (auto split: if_splits; blast)
qed

section \<open>The primitives keep the invariant\<close>

lemma stage_splitE:
  assumes "stage_split s parent factor h = Some ((o1, i1), h')"
  obtains h1 nd leaves where "adds_iters [o1, i1] h h1" "stages_at h s = Some nd"
    "arrays h (leaf_array nd) = Some leaves"
    "h' = set_stage s (nd\<lparr>all_iter_vars := all_iter_vars nd @ [o1, i1]\<rparr>)
       (set_array (leaf_array nd) (split_leaf parent o1 i1 leaves) h1)"
proof -
  from assms obtain name where name: "iter_name h parent = Some name"
    by (auto simp: stage_split_def bind_eq_Some_conv)
  obtain o' h0 i' h1 where new: "new_iter zero32 (name @ ''.outer'') h = (o', h0)"
    "new_iter factor (name @ ''.inner'') h0 = (i', h1)" by (metis surj_pair)
  have adds: "adds_iters [o', i'] h h1"
    using adds_iters_append [OF new_iter_adds [OF new(1)] new_iter_adds [OF new(2)]] by simp
  then have "stages_at h1 = stages_at h" "arrays h1 = arrays h" by (simp_all add: adds_iters_def)
  then show thesis
    using assms adds that by (auto simp: stage_split_def name new Let_def bind_eq_Some_conv simp del: One_nat_def)
qed

lemma fresh_apart:
  assumes "sched_ok h" "adds_iters ns h h1" "stages_at h s = Some nd"
  shows "set ns \<inter> set (all_iter_vars nd) = {}" "set ns \<subseteq> Map.dom (iters h1)" "distinct ns"
proof -
  have "\<forall>a \<in> set (all_iter_vars nd). a < fresh h"
    using sched_ok_fresh(1) [OF assms(1)] sched_ok_stage(1) [OF assms(1,3)] by blast
  then show "set ns \<inter> set (all_iter_vars nd) = {}" using assms(2) by (fastforce simp: adds_iters_def)
qed (use assms(2) in \<open>auto simp: adds_iters_def\<close>)

lemma stage_split_ok:
  assumes "sched_ok h" "stage_split s parent factor h = Some ((o1, i1), h')"
  shows "sched_ok h'"
proof (rule stage_splitE [OF assms(2)])
  fix h1 nd leaves
  assume adds: "adds_iters [o1, i1] h h1" and nd: "stages_at h s = Some nd"
    and leaves: "arrays h (leaf_array nd) = Some leaves"
    and h': "h' = set_stage s (nd\<lparr>all_iter_vars := all_iter_vars nd @ [o1, i1]\<rparr>)
       (set_array (leaf_array nd) (split_leaf parent o1 i1 leaves) h1)"
  note l = sched_ok_leaves [OF assms(1) nd leaves]
  note apart = fresh_apart [OF assms(1) adds nd]
  have "o1 \<notin> set leaves" "i1 \<notin> set leaves" using apart(1) l(2) by auto
  note d = split_leaf_distinct [OF l(1) apart(3) this, of parent]
  have "stages_at h1 s = Some nd" "arrays h1 (leaf_array nd) = Some leaves"
    using adds nd leaves by (simp_all add: adds_iters_def)
  then show "sched_ok h'"
    unfolding h' by (rule update_stage_ok [OF adds_iters_ok [OF assms(1) adds] _ _ apart(2) d(1)]) (use d(2) l(2) in auto)
qed

lemma stage_fuse_ok:
  assumes ok: "sched_ok h" and fuse: "stage_fuse s outer inner h = Some (fused, h')"
  shows "sched_ok h'"
proof -
  from fuse obtain no ni where name: "iter_name h outer = Some no" "iter_name h inner = Some ni"
    by (auto simp: stage_fuse_def bind_eq_Some_conv)
  obtain f h1 where new: "new_iter zero32 (no @ ''.'' @ ni @ ''.fused'') h = (f, h1)" by (metis surj_pair)
  note adds = new_iter_adds [OF new]
  then have eq: "stages_at h1 = stages_at h" "arrays h1 = arrays h" by (simp_all add: adds_iters_def)
  obtain nd leaves where nd: "stages_at h s = Some nd" "arrays h (leaf_array nd) = Some leaves"
    and f: "f = fused"
    and h': "h' = set_stage s (nd\<lparr>all_iter_vars := all_iter_vars nd @ [fused]\<rparr>)
       (set_array (leaf_array nd) (fuse_leaves outer inner fused leaves) h1)"
    using fuse new by (auto simp: stage_fuse_def name eq Let_def bind_eq_Some_conv simp del: One_nat_def append_Cons split: prod.splits)
  note l = sched_ok_leaves [OF ok nd]
  note apart = fresh_apart [OF ok adds nd(1), unfolded f]
  have "fused \<notin> set leaves" using apart(1) l(2) by auto
  note d = fuse_leaves_distinct [OF l(1) this, of outer inner]
  show ?thesis
    unfolding h' by (rule update_stage_ok [OF adds_iters_ok [OF ok adds]]) (use d l(2) apart(2) nd eq in auto)
qed

text \<open>A new array of leaves for a stage.\<close>

lemma new_leaves_ok:
  assumes ok: "sched_ok h" and nd: "stages_at h s = Some nd"
    and leaves: "distinct leaves" "set leaves \<subseteq> set (all_iter_vars nd)"
  shows "sched_ok (set_stage s (nd\<lparr>leaf_array := fresh h\<rparr>)
    (h\<lparr>arrays := (arrays h)(fresh h \<mapsto> leaves), fresh := Suc (fresh h)\<rparr>))"
proof -
  have free: "leaf_array nd' \<noteq> fresh h" if "stages_at h s' = Some nd'" for s' nd'
  proof -
    note old = that
    obtain l where "arrays h (leaf_array nd') = Some l" using sched_ok_stage(2) [OF ok old] by blast
    then have "leaf_array nd' < fresh h" using sched_ok_fresh(2) [OF ok] by blast
    then show ?thesis by simp
  qed
  have "s < fresh h" using sched_ok_fresh(3) [OF ok] nd by blast
  have A: "\<forall>a \<in> Map.dom (iters h) \<union> Map.dom ((arrays h)(fresh h \<mapsto> leaves)) \<union>
      Map.dom ((stages_at h)(s \<mapsto> nd\<lparr>leaf_array := fresh h\<rparr>)). a < Suc (fresh h)"
    using sched_ok_fresh [OF ok] \<open>s < fresh h\<close> by (auto simp: less_Suc_eq; blast intro: domI)
  have B: "\<forall>s' nd'. ((stages_at h)(s \<mapsto> nd\<lparr>leaf_array := fresh h\<rparr>)) s' = Some nd' \<longrightarrow>
      set (all_iter_vars nd') \<subseteq> Map.dom (iters h) \<and>
      (\<exists>l. ((arrays h)(fresh h \<mapsto> leaves)) (leaf_array nd') = Some l \<and> distinct l \<and> set l \<subseteq> set (all_iter_vars nd'))"
  proof (intro allI impI)
    fix s' nd' assume a: "((stages_at h)(s \<mapsto> nd\<lparr>leaf_array := fresh h\<rparr>)) s' = Some nd'"
    show "set (all_iter_vars nd') \<subseteq> Map.dom (iters h) \<and>
      (\<exists>l. ((arrays h)(fresh h \<mapsto> leaves)) (leaf_array nd') = Some l \<and> distinct l \<and> set l \<subseteq> set (all_iter_vars nd'))"
    proof (cases "s' = s")
      case True
      then show ?thesis using a leaves sched_ok_stage(1) [OF ok nd] by auto
    next
      case False
      then have old: "stages_at h s' = Some nd'" using a by simp
      then show ?thesis
        using free [OF old] sched_ok_stage [OF ok old] sched_ok_leaves [OF ok old] by auto
    qed
  qed
  have C: "\<forall>s' s'' nd' nd''. ((stages_at h)(s \<mapsto> nd\<lparr>leaf_array := fresh h\<rparr>)) s' = Some nd' \<longrightarrow>
      ((stages_at h)(s \<mapsto> nd\<lparr>leaf_array := fresh h\<rparr>)) s'' = Some nd'' \<longrightarrow>
      leaf_array nd' = leaf_array nd'' \<longrightarrow> s' = s''"
  proof (intro allI impI)
    fix s' s'' nd' nd''
    assume a: "((stages_at h)(s \<mapsto> nd\<lparr>leaf_array := fresh h\<rparr>)) s' = Some nd'"
      "((stages_at h)(s \<mapsto> nd\<lparr>leaf_array := fresh h\<rparr>)) s'' = Some nd''" "leaf_array nd' = leaf_array nd''"
    show "s' = s''"
    proof (cases "s' = s")
      case True
      then have "leaf_array nd'' = fresh h" using a(1,3) by auto
      then have "s'' = s" using a(2) free [of s'' nd''] by (cases "s'' = s") simp_all
      then show ?thesis using True by simp
    next
      case False
      then have old: "stages_at h s' = Some nd'" using a(1) by simp
      then have "s'' \<noteq> s" using a(2,3) free [OF old] by auto
      then have "stages_at h s'' = Some nd''" using a(2) by simp
      then show ?thesis by (rule sched_ok_separate [OF ok old _ a(3)])
    qed
  qed
  let ?h = "set_stage s (nd\<lparr>leaf_array := fresh h\<rparr>)
    (h\<lparr>arrays := (arrays h)(fresh h \<mapsto> leaves), fresh := Suc (fresh h)\<rparr>)"
  have sel: "iters ?h = iters h" "arrays ?h = (arrays h)(fresh h \<mapsto> leaves)" "fresh ?h = Suc (fresh h)"
    "stages_at ?h = (stages_at h)(s \<mapsto> nd\<lparr>leaf_array := fresh h\<rparr>)"
    by (simp_all add: set_stage_def)
  show ?thesis unfolding sched_ok_def sel by (intro conjI) (fact A, fact B, fact C)
qed

lemma stage_reorder_ok:
  assumes "sched_ok h" "stage_leaves h s = Some leaves" "mset order = mset leaves"
    "new_array order h = (a, h1)" "stage_reorder s a h1 = Some h'"
  shows "sched_ok h'"
proof -
  obtain nd where nd: "stages_at h s = Some nd" "arrays h (leaf_array nd) = Some leaves"
    using assms(2) by (auto simp: stage_leaves_def bind_eq_Some_conv)
  have "distinct order" "set order \<subseteq> set (all_iter_vars nd)"
    using assms(3) sched_ok_leaves [OF assms(1) nd] mset_eq_imp_distinct_iff mset_eq_setD by metis+
  note ok = new_leaves_ok [OF assms(1) nd(1) this]
  show ?thesis
    using assms(4,5) nd(1) ok by (auto simp: new_array_def stage_reorder_def)
qed

text \<open>The stages, arrays and other axes of a heap do not change when an operation's axes come in.\<close>

lemma new_axis_iters_adds: "new_axis_iters vs h = (as, h') \<Longrightarrow> adds_iters as h h'"
proof (induction vs arbitrary: h as h')
  case (Cons v vs)
  obtain a h1 bs h2 where new: "new_iter zero32 (name_hint v) h = (a, h1)" "new_axis_iters vs h1 = (bs, h2)"
    by (metis surj_pair)
  then show ?case
    using Cons.prems adds_iters_append [OF new_iter_adds [OF new(1)] Cons.IH [OF new(2)]] by simp
qed (simp add: adds_iters_Nil)

lemma know_iters:
  "arrays (fold know_iter ivs h) = arrays h \<and> stages_at (fold know_iter ivs h) = stages_at h \<and>
   fresh (fold know_iter ivs h) = fresh h \<and>
   Map.dom (iters (fold know_iter ivs h)) = Map.dom (iters h) \<union> iv_addr ` set ivs"
  by (induction ivs arbitrary: h) (auto simp: know_iter_def)

text \<open>The axes an operation brings along were allocated before the stage.\<close>

definition op_axes_ok :: "'d te_operation \<Rightarrow> 'd sched_heap \<Rightarrow> bool" where
  "op_axes_ok op h \<longleftrightarrow>
     (case op of ComputeOp _ _ _ _ reduce_axes _ _ \<Rightarrow>
        distinct (map iv_addr reduce_axes) \<and> (\<forall>iv \<in> set reduce_axes. iv_addr iv < fresh h)
      | _ \<Rightarrow> True)"

lemma stage_axes_ok:
  assumes ok: "sched_ok h" and op: "op_axes_ok op h" and st: "stage_axes op h = (as, h')"
  shows "sched_ok h' \<and> distinct as \<and> set as \<subseteq> Map.dom (iters h')"
proof (cases op)
  case (ComputeOp a nm tag axis reduce_axes bd sh)
  obtain bs h1 where new: "new_axis_iters axis h = (bs, h1)" by (metis surj_pair)
  note adds = new_axis_iters_adds [OF new]
  have as: "as = bs @ map iv_addr reduce_axes" "h' = fold know_iter reduce_axes h1"
    using st by (simp_all add: ComputeOp new)
  have ok1: "sched_ok h1" by (rule adds_iters_ok [OF ok adds])
  have r: "\<forall>iv \<in> set reduce_axes. iv_addr iv < fresh h" "distinct (map iv_addr reduce_axes)"
    using op by (simp_all add: op_axes_ok_def ComputeOp)
  have b: "distinct bs" "\<forall>b \<in> set bs. fresh h \<le> b" "fresh h \<le> fresh h1" "set bs \<subseteq> Map.dom (iters h1)"
    using adds by (auto simp: adds_iters_def)
  have lt: "\<forall>iv \<in> set reduce_axes. iv_addr iv < fresh h1" using r(1) b(3) by (meson less_le_trans)
  have "set bs \<inter> iv_addr ` set reduce_axes = {}" using r(1) b(2) by (auto simp: not_le [symmetric])
  then have d: "distinct as" using r(2) b(1) by (simp add: as(1))
  have d': "set as \<subseteq> Map.dom (iters h')" using b(4) by (auto simp: as know_iters)
  have "sched_ok h'"
    unfolding as(2)
    by (rule more_iters_ok [OF ok1]) (use lt sched_ok_fresh(1) [OF ok1] in \<open>auto simp: know_iters\<close>)
  then show ?thesis using d d' by blast
qed (use assms in simp_all)

lemma Stage_new_ok:
  assumes "sched_ok h" "op_axes_ok op h" "Stage_new op h = (s, h')"
  shows "sched_ok h'"
proof -
  obtain as h1 where ax: "stage_axes op h = (as, h1)" by (metis surj_pair)
  from stage_axes_ok [OF assms(1,2) ax] have ok: "sched_ok h1" and as: "distinct as" "set as \<subseteq> Map.dom (iters h1)"
    by simp_all
  let ?nd = "\<lparr>stage_op = op, leaf_array = fresh h1, all_iter_vars = as\<rparr>"
  have h': "h' = h1\<lparr>arrays := (arrays h1)(fresh h1 \<mapsto> as),
      stages_at := (stages_at h1)(Suc (fresh h1) \<mapsto> ?nd), fresh := Suc (Suc (fresh h1))\<rparr>"
    using assms(3) [symmetric] by (simp add: Stage_new_def ax new_array_def)
  have free: "leaf_array nd' < fresh h1" "s' < fresh h1" if "stages_at h1 s' = Some nd'" for s' nd'
    using sched_ok_stage(2) [OF ok that] sched_ok_fresh [OF ok] that by blast+
  have "\<forall>a \<in> Map.dom (iters h') \<union> Map.dom (arrays h') \<union> Map.dom (stages_at h'). a < fresh h'"
    unfolding h' using sched_ok_fresh [OF ok] by (auto simp: less_Suc_eq; blast intro: domI)
  moreover have "set (all_iter_vars nd) \<subseteq> Map.dom (iters h') \<and>
      (\<exists>l. arrays h' (leaf_array nd) = Some l \<and> distinct l \<and> set l \<subseteq> set (all_iter_vars nd))"
    if "stages_at h' s' = Some nd" for s' nd
  proof (cases "s' = Suc (fresh h1)")
    case True
    then show ?thesis using that as by (auto simp: h')
  next
    case False
    then have old: "stages_at h1 s' = Some nd" using that by (simp add: h')
    then show ?thesis
      using free(1) [OF old] sched_ok_stage [OF ok old] sched_ok_leaves [OF ok old] by (auto simp: h')
  qed
  moreover have "s' = s''" if "stages_at h' s' = Some nd'" "stages_at h' s'' = Some nd''" "leaf_array nd' = leaf_array nd''"
    for s' s'' nd' nd''
    using that free sched_ok_separate [OF ok, of s' nd' s'' nd''] by (fastforce simp: h' split: if_splits)
  ultimately show ?thesis unfolding sched_ok_def by blast
qed

lemma annotate_ok:
  assumes "sched_ok h" "annotate f a h = Some h'"
  shows "sched_ok h'"
proof -
  from assms(2) obtain iv where iv: "iters h a = Some iv" "h' = h\<lparr>iters := (iters h)(a \<mapsto> f iv)\<rparr>"
    by (auto simp: annotate_def)
  then have dom: "Map.dom (iters h') = Map.dom (iters h)" by auto
  show ?thesis
    by (rule more_iters_ok [OF assms(1)]) (use dom sched_ok_fresh(1) [OF assms(1)] in \<open>simp_all add: iv(2) domI\<close>)
qed

lemma bind_thread_ok:
  fixes h :: "'d sched_heap"
  assumes "sched_ok h" "bind_thread a t h = Some h'"
  shows "sched_ok h'"
proof -
  from assms(2) obtain h1 and iv :: "'d te_iter_var" where "annotate (iv_type_update (\<lambda>_. kThreadIndex)) a h = Some h1"
    "annotate (iv_thread_tag_update (\<lambda>_. iv_thread_tag iv)) a h1 = Some h'"
    unfolding bind_thread_def bind_eq_Some_conv by blast
  then show ?thesis using annotate_ok assms(1) by blast
qed

section \<open>Tiling\<close>

lemma stage_split_facts:
  assumes "sched_ok h" "stage_split s parent factor h = Some ((o1, i1), h')"
  obtains nd nd' leaves where "stages_at h s = Some nd" "stages_at h' s = Some nd'"
    "all_iter_vars nd' = all_iter_vars nd @ [o1, i1]" "stage_leaves h s = Some leaves"
    "stage_leaves h' s = Some (split_leaf parent o1 i1 leaves)"
    "Map.dom (iters h') = Map.dom (iters h) \<union> {o1, i1}" "o1 \<noteq> i1" "o1 \<notin> Map.dom (iters h)" "i1 \<notin> Map.dom (iters h)"
proof (rule stage_splitE [OF assms(2)])
  fix h1 nd leaves
  assume adds: "adds_iters [o1, i1] h h1" and nd: "stages_at h s = Some nd"
    and leaves: "arrays h (leaf_array nd) = Some leaves"
    and h': "h' = set_stage s (nd\<lparr>all_iter_vars := all_iter_vars nd @ [o1, i1]\<rparr>)
       (set_array (leaf_array nd) (split_leaf parent o1 i1 leaves) h1)"
  have "fresh h \<le> o1" "fresh h \<le> i1" "o1 \<noteq> i1" "Map.dom (iters h1) = Map.dom (iters h) \<union> {o1, i1}"
    using adds by (simp_all add: adds_iters_def)
  moreover have "o1 \<notin> Map.dom (iters h)" "i1 \<notin> Map.dom (iters h)"
    using calculation(1,2) sched_ok_fresh(1) [OF assms(1)] by (meson leD)+
  ultimately show thesis
    using nd leaves
    by (intro that [of nd "nd\<lparr>all_iter_vars := all_iter_vars nd @ [o1, i1]\<rparr>" leaves]) (simp_all add: h' set_stage_def set_array_def stage_leaves_def)
qed

lemma filter_split_leaf:
  "\<not> P parent \<Longrightarrow> \<not> P o1 \<Longrightarrow> \<not> P i1 \<Longrightarrow> filter P (split_leaf parent o1 i1 xs) = filter P xs"
  by (induction xs) auto

lemma stage_tileE:
  assumes "sched_ok h" "stage_tile s xp yp xf yf h = Some ((xo, yo, xi, yi), h')"
  obtains h2 nd leaves where "sched_ok h2" "stages_at h2 s = Some nd" "stage_leaves h s = Some leaves"
    "{xo, yo, xi, yi} \<subseteq> set (all_iter_vars nd)" "distinct [xo, yo, xi, yi]"
    "{xo, yo, xi, yi} \<inter> Map.dom (iters h) = {}" "{xo, yo, xi, yi} \<subseteq> Map.dom (iters h2)"
    "set leaves \<subseteq> set (all_iter_vars nd)"
    "h' = set_stage s (nd\<lparr>leaf_array := fresh h2\<rparr>)
       (h2\<lparr>arrays := (arrays h2)(fresh h2 \<mapsto> [xo, yo, xi, yi] @ filter (\<lambda>a. a \<noteq> xp \<and> a \<noteq> yp) leaves),
           fresh := Suc (fresh h2)\<rparr>)"
proof -
  from assms(2) obtain h1 h2 where sp: "stage_split s xp xf h = Some ((xo, xi), h1)"
    "stage_split s yp yf h1 = Some ((yo, yi), h2)"
    by (auto simp: stage_tile_def bind_eq_Some_conv Let_def new_array_def)
  have ok: "sched_ok h1" "sched_ok h2"
    using stage_split_ok [OF assms(1) sp(1)] stage_split_ok [OF _ sp(2)] by blast+
  obtain nd nd1 leaves where 1: "stages_at h s = Some nd" "stages_at h1 s = Some nd1"
    "all_iter_vars nd1 = all_iter_vars nd @ [xo, xi]" "stage_leaves h s = Some leaves"
    "stage_leaves h1 s = Some (split_leaf xp xo xi leaves)"
    "Map.dom (iters h1) = Map.dom (iters h) \<union> {xo, xi}" "xo \<noteq> xi" "xo \<notin> Map.dom (iters h)" "xi \<notin> Map.dom (iters h)"
    by (rule stage_split_facts [OF assms(1) sp(1)])
  obtain nd2 where 2: "stages_at h2 s = Some nd2" "all_iter_vars nd2 = all_iter_vars nd1 @ [yo, yi]"
    "stage_leaves h2 s = Some (split_leaf yp yo yi (split_leaf xp xo xi leaves))"
    "Map.dom (iters h2) = Map.dom (iters h1) \<union> {yo, yi}" "yo \<noteq> yi" "yo \<notin> Map.dom (iters h1)" "yi \<notin> Map.dom (iters h1)"
    by (rule stage_split_facts [OF ok(1) sp(2)]) (use 1(2,5) in simp)
  have l: "distinct leaves" "set leaves \<subseteq> set (all_iter_vars nd)" "set (all_iter_vars nd) \<subseteq> Map.dom (iters h)"
    using sched_ok_leaves [OF assms(1) 1(1)] sched_ok_stage(1) [OF assms(1) 1(1)] 1(1,4)
    by (simp_all add: stage_leaves_def)
  let ?new = "[xo, yo, xi, yi]" and ?all = "split_leaf yp yo yi (split_leaf xp xo xi leaves)"
  have new: "set ?new \<inter> Map.dom (iters h) = {}" "distinct ?new" using 1 2 by auto
  have "distinct ?all"
    using sched_ok_leaves(1) [OF ok(2) 2(1)] 2(1,3) by (simp add: stage_leaves_def)
  then have "tile_rest xp yp ?new ?all = ?new @ filter (\<lambda>a. a \<noteq> xp \<and> a \<noteq> yp \<and> a \<notin> set ?new) ?all"
    by (rule tile_rest_filter)
  also have "filter (\<lambda>a. a \<noteq> xp \<and> a \<noteq> yp \<and> a \<notin> set ?new) ?all =
      filter (\<lambda>a. a \<noteq> xp \<and> a \<noteq> yp \<and> a \<notin> set ?new) leaves"
    by (simp add: filter_split_leaf)
  also have "\<dots> = filter (\<lambda>a. a \<noteq> xp \<and> a \<noteq> yp) leaves"
    using l new(1) by (intro filter_cong) auto
  finally have rest: "tile_rest xp yp ?new ?all = ?new @ filter (\<lambda>a. a \<noteq> xp \<and> a \<noteq> yp) leaves" .
  have "h' = set_stage s (nd2\<lparr>leaf_array := fresh h2\<rparr>)
       (h2\<lparr>arrays := (arrays h2)(fresh h2 \<mapsto> ?new @ filter (\<lambda>a. a \<noteq> xp \<and> a \<noteq> yp) leaves),
           fresh := Suc (fresh h2)\<rparr>)"
    using assms(2) [symmetric] unfolding stage_tile_def
    by (simp add: sp 2(3) rest new_array_def stage_reorder_def 2(1) set_stage_def set_array_def
      del: tile_rest.simps split_leaf.simps)
  then show thesis
    using that [OF ok(2) 2(1) 1(4)] 1 2 l(2) new by auto
qed

lemma stage_tile_ok:
  assumes "sched_ok h" "stage_tile s xp yp xf yf h = Some ((xo, yo, xi, yi), h')"
  shows "sched_ok h'"
proof (rule stage_tileE [OF assms])
  fix h2 nd leaves
  assume a: "sched_ok h2" "stages_at h2 s = Some nd" "stage_leaves h s = Some leaves"
    "{xo, yo, xi, yi} \<subseteq> set (all_iter_vars nd)" "distinct [xo, yo, xi, yi]"
    "{xo, yo, xi, yi} \<inter> Map.dom (iters h) = {}" "set leaves \<subseteq> set (all_iter_vars nd)"
    and h': "h' = set_stage s (nd\<lparr>leaf_array := fresh h2\<rparr>)
       (h2\<lparr>arrays := (arrays h2)(fresh h2 \<mapsto> [xo, yo, xi, yi] @ filter (\<lambda>a. a \<noteq> xp \<and> a \<noteq> yp) leaves),
           fresh := Suc (fresh h2)\<rparr>)"
  obtain nd0 where nd0: "stages_at h s = Some nd0" "arrays h (leaf_array nd0) = Some leaves"
    using a(3) by (auto simp: stage_leaves_def bind_eq_Some_conv)
  have l: "distinct leaves" "set leaves \<subseteq> Map.dom (iters h)"
    using sched_ok_leaves [OF assms(1) nd0] sched_ok_stage(1) [OF assms(1) nd0(1)] by auto
  show "sched_ok h'"
    unfolding h' by (rule new_leaves_ok [OF a(1,2)]) (use a(4-7) l in auto)
qed

section \<open>What scheduling guarantees\<close>

text \<open>
  The steps a client can take: making a stage, and the primitives. A client that reorders gives an
  array of its own with the current leaves.
\<close>

inductive sched_step :: "'d sched_heap \<Rightarrow> 'd sched_heap \<Rightarrow> bool" where
  stage: "Stage_new op h = (s, h') \<Longrightarrow> op_axes_ok op h \<Longrightarrow> sched_step h h'"
| split: "stage_split s parent factor h = Some ((o1, i1), h') \<Longrightarrow> sched_step h h'"
| fuse: "stage_fuse s outer inner h = Some (fused, h') \<Longrightarrow> sched_step h h'"
| reorder: "stage_leaves h s = Some leaves \<Longrightarrow> mset order = mset leaves \<Longrightarrow>
    new_array order h = (a, h1) \<Longrightarrow> stage_reorder s a h1 = Some h' \<Longrightarrow> sched_step h h'"
| tile: "stage_tile s xp yp xf yf h = Some ((xo, yo, xi, yi), h') \<Longrightarrow> sched_step h h'"
| vectorize: "vectorize a h = Some h' \<Longrightarrow> sched_step h h'"
| unroll: "unroll a h = Some h' \<Longrightarrow> sched_step h h'"
| parallel: "parallel a h = Some h' \<Longrightarrow> sched_step h h'"
| bind: "bind_thread a t h = Some h' \<Longrightarrow> sched_step h h'"

lemma sched_step_ok: "sched_step h h' \<Longrightarrow> sched_ok h \<Longrightarrow> sched_ok h'"
proof (induction rule: sched_step.induct)
  case (stage op h s h')
  then show ?case by (blast intro: Stage_new_ok)
next
  case (split s parent factor h o1 i1 h')
  then show ?case by (blast intro: stage_split_ok)
next
  case (fuse s outer inner h fused h')
  then show ?case by (blast intro: stage_fuse_ok)
next
  case (reorder h s leaves order a h1 h')
  then show ?case by (blast intro: stage_reorder_ok)
next
  case (tile s xp yp xf yf h xo yo xi yi h')
  then show ?case by (blast intro: stage_tile_ok)
next
  case (bind a t h h')
  then show ?case by (blast intro: bind_thread_ok)
qed (unfold vectorize_def unroll_def parallel_def, (blast intro: annotate_ok)+)

lemma sched_steps_ok: "rtranclp sched_step h h' \<Longrightarrow> sched_ok h \<Longrightarrow> sched_ok h'"
  by (induction rule: rtranclp_induct) (auto intro: sched_step_ok)

definition empty_heap :: "nat \<Rightarrow> 'd sched_heap" where
  "empty_heap n = \<lparr>iters = Map.empty, arrays = Map.empty, stages_at = Map.empty, fresh = n\<rparr>"

lemma empty_heap_ok: "sched_ok (empty_heap n)"
  by (simp add: sched_ok_def empty_heap_def)

text \<open>
Whatever primitives a client applies to the stages it has made, in any order, every stage has an
array of leaves of its own, without duplicates, and all of its leaves are among its axes, which are
live objects; two stages never share their leaves.
\<close>

lemma schedule_leaves_wf:
  assumes "rtranclp sched_step (empty_heap n) h" "stages_at h s = Some nd"
  shows "\<exists>leaves. stage_leaves h s = Some leaves \<and> distinct leaves \<and> set leaves \<subseteq> set (all_iter_vars nd) \<and>
    set (all_iter_vars nd) \<subseteq> Map.dom (iters h) \<and>
    (\<forall>s' nd'. stages_at h s' = Some nd' \<longrightarrow> s' \<noteq> s \<longrightarrow> leaf_array nd' \<noteq> leaf_array nd)"
proof -
  have ok: "sched_ok h" by (rule sched_steps_ok [OF assms(1) empty_heap_ok])
  obtain leaves where leaves: "arrays h (leaf_array nd) = Some leaves"
    using sched_ok_stage(2) [OF ok assms(2)] by blast
  then have "stage_leaves h s = Some leaves" by (simp add: stage_leaves_def assms(2))
  moreover have "leaf_array nd' \<noteq> leaf_array nd" if "stages_at h s' = Some nd'" "s' \<noteq> s" for s' nd'
    using sched_ok_separate [OF ok that(1) assms(2)] that(2) by blast
  ultimately show ?thesis
    using sched_ok_leaves [OF ok assms(2) leaves] sched_ok_stage(1) [OF ok assms(2)] by blast
qed

text \<open>A split of a live axis of a stage always returns.\<close>

lemma stage_split_defined:
  assumes "sched_ok h" "stages_at h s = Some nd" "parent \<in> Map.dom (iters h)"
  shows "\<exists>o1 i1 h'. stage_split s parent factor h = Some ((o1, i1), h')"
proof -
  obtain name where name: "iter_name h parent = Some name" using assms(3) by (auto simp: iter_name_def)
  obtain o1 h0 i1 h1 where new: "new_iter zero32 (name @ ''.outer'') h = (o1, h0)"
    "new_iter factor (name @ ''.inner'') h0 = (i1, h1)" by (metis surj_pair)
  have "stages_at h1 = stages_at h" "arrays h1 = arrays h"
    using new_iter_adds [OF new(1)] new_iter_adds [OF new(2)] by (simp_all add: adds_iters_def)
  then show ?thesis
    using sched_ok_stage(2) [OF assms(1,2)] assms(2)
    by (auto simp: stage_split_def name new Let_def simp del: One_nat_def append_Cons)
qed

lemma stage_tile_defined:
  assumes ok: "sched_ok h" and nd: "stages_at h s = Some nd"
    and "xp \<in> Map.dom (iters h)" "yp \<in> Map.dom (iters h)"
  shows "\<exists>xo yo xi yi h'. stage_tile s xp yp xf yf h = Some ((xo, yo, xi, yi), h')"
proof -
  obtain xo xi h1 where sp: "stage_split s xp xf h = Some ((xo, xi), h1)"
    using stage_split_defined [OF ok nd assms(3)] by blast
  note ok1 = stage_split_ok [OF ok sp]
  obtain nd1 where 1: "stages_at h1 s = Some nd1" "yp \<in> Map.dom (iters h1)"
    by (rule stage_split_facts [OF ok sp]) (use assms(4) in auto)
  obtain yo yi h2 where sp2: "stage_split s yp yf h1 = Some ((yo, yi), h2)"
    using stage_split_defined [OF ok1 1] by blast
  obtain nd2 leaves where 2: "stages_at h2 s = Some nd2" "stage_leaves h2 s = Some leaves"
    by (rule stage_split_facts [OF ok1 sp2])
  show ?thesis
    by (simp add: stage_tile_def sp sp2 2 new_array_def stage_reorder_def)
qed

text \<open>
C40. Tiling two live axes of a stage returns four new axes, and the leaves of the stage become those
four, the outer ones first, followed by the other leaves in their order.
\<close>

theorem tile_leaves:
  assumes "sched_ok h" "stage_leaves h s = Some leaves" "xp \<in> Map.dom (iters h)" "yp \<in> Map.dom (iters h)"
  shows "\<exists>xo yo xi yi h'. stage_tile s xp yp xf yf h = Some ((xo, yo, xi, yi), h') \<and>
    stage_leaves h' s = Some ([xo, yo, xi, yi] @ filter (\<lambda>a. a \<noteq> xp \<and> a \<noteq> yp) leaves) \<and>
    distinct [xo, yo, xi, yi] \<and> {xo, yo, xi, yi} \<inter> Map.dom (iters h) = {}"
proof -
  obtain nd0 where "stages_at h s = Some nd0" using assms(2) by (auto simp: stage_leaves_def bind_eq_Some_conv)
  then obtain xo yo xi yi h' where t: "stage_tile s xp yp xf yf h = Some ((xo, yo, xi, yi), h')"
    using stage_tile_defined [OF assms(1) _ assms(3,4)] by blast
  show ?thesis
  proof (rule stage_tileE [OF assms(1) t])
    fix h2 nd leaves'
    assume "stages_at h2 s = Some nd" "stage_leaves h s = Some leaves'" "distinct [xo, yo, xi, yi]"
      "{xo, yo, xi, yi} \<inter> Map.dom (iters h) = {}"
      "h' = set_stage s (nd\<lparr>leaf_array := fresh h2\<rparr>)
         (h2\<lparr>arrays := (arrays h2)(fresh h2 \<mapsto> [xo, yo, xi, yi] @ filter (\<lambda>a. a \<noteq> xp \<and> a \<noteq> yp) leaves'),
             fresh := Suc (fresh h2)\<rparr>)"
    then show ?thesis using t assms(2) by (auto simp: stage_leaves_def set_stage_def)
  qed
qed

section \<open>An example\<close>

text \<open>A stage with three axes, tiled over the first and the last.\<close>

definition ex_op :: "int te_operation" where
  "ex_op = ComputeOp 0 ''C'' [] [axis_var 1 0 0, axis_var 1 0 1, axis_var 1 0 2] [] [] []"

definition ex_heap :: "int sched_heap" where
  "ex_heap = snd (Stage_new ex_op (empty_heap 4))"

lemma ex_stage: "Stage_new ex_op (empty_heap 4) = (11, ex_heap)"
  by (simp add: ex_heap_def Stage_new_def ex_op_def new_iter_def new_array_def empty_heap_def)

lemma ex_heap_ok: "sched_ok ex_heap" "rtranclp sched_step (empty_heap 4) ex_heap"
proof -
  have op: "op_axes_ok ex_op (empty_heap 4)" by (simp add: op_axes_ok_def ex_op_def)
  show "sched_ok ex_heap" by (rule Stage_new_ok [OF empty_heap_ok op ex_stage])
  show "rtranclp sched_step (empty_heap 4) ex_heap" using sched_step.stage [OF ex_stage op] by blast
qed

lemma ex_leaves: "stage_leaves ex_heap 11 = Some [5, 7, 9]" "stages_at ex_heap 11 \<noteq> None"
  by (simp_all add: ex_heap_def Stage_new_def ex_op_def new_iter_def new_array_def empty_heap_def stage_leaves_def)

lemma ex_axes: "5 \<in> Map.dom (iters ex_heap)" "9 \<in> Map.dom (iters ex_heap)"
  by (simp_all add: ex_heap_def Stage_new_def ex_op_def new_iter_def new_array_def empty_heap_def)

abbreviation ex_tile :: "int sched_heap \<Rightarrow> ((nat \<times> nat \<times> nat \<times> nat) \<times> int sched_heap) option" where
  "ex_tile \<equiv> stage_tile 11 5 9 (IntImm 8 (dt_Int 32 1)) (IntImm 4 (dt_Int 32 1))"

lemma schedule_leaves_wf_witness:
  "\<exists>axes h nd leaves. ex_tile ex_heap = Some (axes, h) \<and> rtranclp sched_step (empty_heap 4) h \<and>
     stages_at h 11 = Some nd \<and> stage_leaves h 11 = Some leaves \<and> distinct leaves \<and>
     set leaves \<subseteq> set (all_iter_vars nd)"
proof -
  obtain nd0 where nd0: "stages_at ex_heap 11 = Some nd0" using ex_leaves(2) by blast
  obtain xo yo xi yi h' where t: "ex_tile ex_heap = Some ((xo, yo, xi, yi), h')"
    using stage_tile_defined [OF ex_heap_ok(1) nd0 ex_axes] by blast
  have steps: "rtranclp sched_step (empty_heap 4) h'"
    using ex_heap_ok(2) sched_step.tile [OF t] by (rule rtranclp.rtrancl_into_rtrancl)
  obtain nd where nd: "stages_at h' 11 = Some nd"
    by (rule stage_tileE [OF ex_heap_ok(1) t]) (simp add: set_stage_def)
  show ?thesis using schedule_leaves_wf [OF steps nd] nd steps t by blast
qed

theorem tile_leaves_witness:
  "\<exists>xo yo xi yi h'. ex_tile ex_heap = Some ((xo, yo, xi, yi), h') \<and>
     stage_leaves h' 11 = Some [xo, yo, xi, yi, 7]"
proof -
  obtain xo yo xi yi h' where "ex_tile ex_heap = Some ((xo, yo, xi, yi), h')"
    "stage_leaves h' 11 = Some ([xo, yo, xi, yi] @ filter (\<lambda>a. a \<noteq> 5 \<and> a \<noteq> 9) [5, 7, 9])"
    using tile_leaves [OF ex_heap_ok(1) ex_leaves(1) ex_axes, of "IntImm 8 (dt_Int 32 1)" "IntImm 4 (dt_Int 32 1)"]
    by (elim exE conjE)
  note t = this
  have "stage_leaves h' 11 = Some [xo, yo, xi, yi, 7]" using t(2) by simp
  with t(1) show ?thesis by (intro exI conjI)
qed

text \<open>
  When two stages are given the same array of axes, as in \<^verbatim>\<open>s1.reorder(order); s2.reorder(order)\<close>, they
  share it: a split of one of them changes the leaves of the other.
\<close>

lemma shared_order_splits_both:
  assumes "stages_at h s = Some nd" "stages_at h s' = Some nd'" "s \<noteq> s'" "arrays h order = Some leaves"
    and "stage_reorder s order h = Some h1" "stage_reorder s' order h1 = Some h2"
    and "stage_split s parent factor h2 = Some ((o1, i1), h3)" "parent \<in> set leaves"
  shows "stage_leaves h3 s' = Some (split_leaf parent o1 i1 leaves)"
proof (rule stage_splitE [OF assms(7)])
  fix h4 nd2 l
  assume adds: "adds_iters [o1, i1] h2 h4" and s: "stages_at h2 s = Some nd2" "arrays h2 (leaf_array nd2) = Some l"
    and h3: "h3 = set_stage s (nd2\<lparr>all_iter_vars := all_iter_vars nd2 @ [o1, i1]\<rparr>)
       (set_array (leaf_array nd2) (split_leaf parent o1 i1 l) h4)"
  have h2: "stages_at h2 = (stages_at h)(s \<mapsto> nd\<lparr>leaf_array := order\<rparr>, s' \<mapsto> nd'\<lparr>leaf_array := order\<rparr>)"
    "arrays h2 = arrays h"
  proof -
    have "h1 = set_stage s (nd\<lparr>leaf_array := order\<rparr>) h"
      using assms(5) by (simp add: stage_reorder_def assms(1))
    moreover from this have "h2 = set_stage s' (nd'\<lparr>leaf_array := order\<rparr>) h1"
      using assms(6) by (simp add: stage_reorder_def set_stage_def assms(2,3) not_sym [OF assms(3)])
    ultimately show "stages_at h2 = (stages_at h)(s \<mapsto> nd\<lparr>leaf_array := order\<rparr>, s' \<mapsto> nd'\<lparr>leaf_array := order\<rparr>)"
      "arrays h2 = arrays h"
      by (simp_all add: set_stage_def)
  qed
  have eq: "stages_at h4 = stages_at h2" "arrays h4 = arrays h2" using adds by (simp_all add: adds_iters_def)
  have nd2: "leaf_array nd2 = order" using s(1) assms(3) by (simp add: h2(1)) auto
  moreover have "l = leaves" using s(2) assms(4) by (simp add: h2(2) calculation)
  ultimately have l: "leaf_array nd2 = order" "l = leaves" by simp_all
  show "stage_leaves h3 s' = Some (split_leaf parent o1 i1 leaves)"
    using assms(3) by (simp add: h3 stage_leaves_def set_stage_def set_array_def eq h2 l)
qed

text \<open>Fusing an axis with itself erases it and puts nothing in its place.\<close>

lemma fuse_with_itself: "distinct leaves \<Longrightarrow> fuse_leaves a a fused leaves = remove1 a leaves"
  by (simp add: fuse_leaves_def Let_def remove1_idem)

text \<open>A schedule has one stage for each operation it is given, and none for the operations those read.\<close>

lemma add_stages_length:
  "length (sch_stages (fst (add_stages ops (sc, h)))) = length (sch_stages sc) + length ops"
  by (induction ops arbitrary: sc h) (simp_all split: prod.splits)

lemma create_schedule_stages: "length (sch_stages (fst (create_schedule ops h))) = length ops"
  by (simp add: create_schedule_def add_stages_length)

end
