(* ===== verification/Spec2Isabelle.thy ===== *)
theory Spec2Isabelle
  imports TIR_Pipeline Relay_Pipeline Relay_Passes Relay_InferProofs Relay_SpanProofs Runtime_Session
    Exec_PlanProofs Pass_ContextProofs Plan_Runs Lower_FuncProofs Topi_Ops TE_Schedule
begin

text \<open>
  A verification of the tensor compiler of this repository: its two intermediate languages with
  their passes, the lowering between them, the planning and execution of programs on several
  devices, and the adaptive runtime. Paths below are relative to \<^verbatim>\<open>src/\<close>.

  \<^bold>\<open>The program.\<close> A model is a Relay graph (\<^verbatim>\<open>include/relay/relay.h\<close>). The passes of
  \<^verbatim>\<open>src/relay/transforms\<close> infer types, fold and simplify, or annotate the graph.
  \<^verbatim>\<open>src/relay/backend/lower.cc\<close> turns it into tensor expressions (\<^verbatim>\<open>te\<close>, with the operator library
  \<^verbatim>\<open>te/topi\<close>) and these into one TIR function of loops and buffers. The passes of
  \<^verbatim>\<open>src/tir/transforms\<close> rewrite that function, and a code generator prints or compiles it. A graph
  whose nodes carry virtual devices becomes an execution plan instead (\<^verbatim>\<open>multi_device.cc\<close>), which is
  stored as JSON and executed by the interpreter under \<^verbatim>\<open>src/base/disco\<close>. The session under
  \<^verbatim>\<open>src/runtime\<close> runs compiled kernels, counts the shapes it sees, and compiles for the frequent ones
  on background threads.

  \<^bold>\<open>Shared theories.\<close>
  \<^item> \<open>Prelude\<close>: the collections of rewrite rules, the error monad (\<open>Inl\<close> an exception with its
    text, \<open>Inr\<close> a result), 32 and 64-bit wrap-around, printing of numbers.
  \<^item> \<open>Base_Device\<close>, \<open>Disco_Placement\<close>, \<open>Pass_Base\<close>: devices, targets, virtual devices
    (\<^verbatim>\<open>src/base/device.cc\<close>, \<^verbatim>\<open>target.cc\<close>), the placement of devices on workers
    (\<^verbatim>\<open>disco_placement.cc\<close>), and the context of a pass (\<^verbatim>\<open>pass.cc\<close>). A pass derives a context from
    the function before it visits anything and throws when a device has no backend; the entry points
    of all passes do so (\<open>MutatePrimFunc\<close> for TIR, \<open>MutateFunction\<close> for Relay).

  \<^bold>\<open>TIR.\<close>
  \<^item> \<open>TIR_IR\<close>, \<open>TIR_Pass\<close>, \<open>TIR_Utils\<close>: nodes, the mutator with its hooks, the shared helpers.
  \<^item> \<open>TIR_Semantics\<close>, \<open>TIR_Sound\<close>: the meaning of expressions and statements, and the locales that
    lift the correctness of one hook to whole functions (\<open>expr_rewriter\<close>, \<open>fresh_tracking\<close>,
    \<open>stmt_rewriter\<close>).
  \<^item> \<open>TIR_Fold\<close>, \<open>TIR_Simplify\<close>, \<open>TIR_Narrow\<close>, \<open>TIR_Loops\<close>, \<open>TIR_LoopProofs\<close>: the eight passes, one
    file of the source each, with a refinement theorem for each (stated, for the passes that do not
    keep every function, on the functions they do keep). The 64-bit folds are exact under their
    overflow tests.
  \<^item> \<open>TIR_Pipeline\<close>: the table of passes and the driver; what it throws, and that the default order
    preserves a function.

  \<^bold>\<open>Relay.\<close>
  \<^item> \<open>Relay_Types\<close>, \<open>Relay_TypeProofs\<close>, \<open>Relay_TypeLaws\<close>: types, the attribute classes, every type
    rule of \<^verbatim>\<open>type_infer.cc\<close> and the table of registered rules; soundness on partly unknown shapes
    (locale \<open>infer_rule\<close>, interpreted for each rule) and the shape laws of the operators.
  \<^item> \<open>Relay_IR\<close>, \<open>Relay_Visit\<close>, \<open>Relay_Utils\<close>: nodes with their addresses, the store of annotations,
    the mutator, the visitor, the helpers and the printer.
  \<^item> \<open>Relay_Transforms\<close>, \<open>Relay_Infer\<close>, \<open>Relay_Spans\<close>: the passes.
  \<^item> \<open>Relay_Semantics\<close>, \<open>Relay_Passes\<close>, \<open>Relay_InferProofs\<close>, \<open>Relay_SpanProofs\<close>: the value of a
    function, preservation by the rewriting passes (locale \<open>sound_hook\<close>), soundness of type inference
    through its memo table, termination and result of the dominator iteration.
  \<^item> \<open>Relay_Pipeline\<close>: the table and the driver, and the sequences of passes that preserve a function.

  \<^bold>\<open>Tensor expressions and lowering.\<close>
  \<^item> \<open>TE_Graph\<close>, \<open>TE_Topi\<close>, \<open>Topi_Ops\<close>: tensors and operations (\<^verbatim>\<open>te.h\<close>, \<^verbatim>\<open>te.cc\<close>), the library of
    tensor computations and the lowering hooks of the Relay operators.
  \<^item> \<open>TE_Schedule\<close>: stages and the schedule primitives on a heap in which leaf arrays can be shared.
  \<^item> \<open>Lower_TIR\<close>: the lowering (\<^verbatim>\<open>lower.cc\<close>); \<open>TE_Semantics\<close>: the elements of a tensor;
    \<open>Lower_Proofs\<close>, \<open>Lower_StmtProofs\<close>, \<open>Lower_FuncProofs\<close>: the lowered statement stores the
    elements of the output tensors.

  \<^bold>\<open>Several devices.\<close>
  \<^item> \<open>Pass_Context\<close>, \<open>Pass_ContextProofs\<close>: the placement pass, scopes, and the passage of a context
    through the attributes of a function.
  \<^item> \<open>Multi_Device\<close>, \<open>Multi_DeviceProofs\<close>, \<open>Plan_Builder\<close>: the insertion of device copies, the
    builder of plans, and the form of its plans.
  \<^item> \<open>Plan_Json\<close>, \<open>Plan_JsonProofs\<close>, \<open>Plan_Print\<close>, \<open>Exec_Plan\<close>, \<open>Exec_PlanProofs\<close>: the JSON parser,
    the text of a value, plans with their writer and reader, and what of a plan survives the way.
  \<^item> \<open>Disco_Session\<close>, \<open>Disco_CCL\<close>, \<open>Disco_CCLProofs\<close>, \<open>Disco_Collectives\<close>: arrays of bytes, register
    files, the CPU and NCCL backends; scatter, gather and reduction on a session.
  \<^item> \<open>Disco_Executor\<close>, \<open>Disco_ExecutorProofs\<close>, \<open>Plan_Runs\<close>: the interpreter, that it runs plans of
    kernels and copies to their end (locale \<open>copying_backend\<close>, interpreted for the CPU backend), and
    that the plans of the builder are such plans.

  \<^bold>\<open>Runtime.\<close>
  \<^item> \<open>Runtime_Cache\<close>: signatures, the predictor, the kernel cache (locale \<open>kernel_store\<close>) and runner.
  \<^item> \<open>Runtime_Background\<close>: workers, owner, mutex, condition variables and atomic counters as a step
    relation, with its invariants (locale \<open>step_invariant\<close>). Spurious wakeups are steps.
  \<^item> \<open>Runtime_Session\<close>: the adaptive session over these.

  \<^bold>\<open>Values and state.\<close> A C++ object that is only read is a value. Where the code compares addresses
  or writes into a node that others share, the node carries its address and the written part lives in
  a store indexed by it: the annotations of Relay nodes, the leaf arrays and stages of a schedule. An
  exception is a value of the result; the part of the state a call changed before it threw is then
  dropped. An access out of range that the C++ containers do not check is the exception \<open>OutOfRange\<close>
  of the model. Counters that are \<^verbatim>\<open>int\<close> in the source wrap around at 32 bits, and theorems about them
  say up to which bound they count. There are two models of an array: cells of its element type in
  Relay constants, which the passes read and write as numbers, and bytes in the distributed runtime,
  which the collectives cut and add.

  \<^bold>\<open>Meaning of programs.\<close> The meanings of TIR, of Relay and of tensors are partial: they are
  undefined where the compiled program may not go (overflow of the type of a node, division by zero,
  accesses out of bounds or to unset cells, unbound names). A pass preserves a function when every
  defined run of the function is a run of the result.

  \<^bold>\<open>Parameters and hypotheses.\<close> These stand for what is not in the repository, or is not modelled:
  the arithmetic of \<^verbatim>\<open>double\<close> (\<open>fp\<close>, \<open>host\<close>, \<open>te_host\<close>), the width of \<^verbatim>\<open>long double\<close> (\<open>ld_prec\<close>; the
  theorems on the integer folds need 64 bits, and fail with 53), the functions TIR calls and the
  operators of Relay (\<open>sem\<close>, \<open>rsem\<close>), what a device backend answers (\<open>device_api\<close>), the hash
  functions and the traversal order of hash sets, the registry of lowering hooks (with
  \<open>FRelayToTE_registry\<close> for those of the repository), and the compiler the runtime calls
  (\<open>compile\<close>, \<open>None\<close> when it throws). The insertion of copies keeps the meaning of a function in
  semantics where a copy is the identity and a collective means the same with its attributes
  normalised (\<open>comm_meaning\<close>). Each theorem with a hypothesis has a witness at a concrete input.

  \<^bold>\<open>Bounds.\<close> The JSON parser has fuel \<open>2 * length + 2\<close>, which its theorem of termination shows is
  never used up. The iteration of dominators is a \<^verbatim>\<open>while\<close> whose termination is proved. The name loop
  of \<^verbatim>\<open>MakeOutputVarName\<close> and the depth-first searches terminate by measures. Lowering is correct for
  shapes of fewer than 2^31 elements, the range of its 32-bit indices. In the
  background compiler, \<open>w\<close> workers with \<open>q\<close> queued tasks take at most \<open>6 q + 9 w + 3 + 2 k\<close> steps when
  \<open>k\<close> of their wakeups are spurious.

  \<^bold>\<open>What is not modelled.\<close> Object headers, reference counts and the foreign-function interface; the C
  and LLVM code generators, which need a semantics of C and of LLVM; memory and copies of CUDA
  devices; profiling, printing of TIR and files, which nothing modelled reads; the ONNX importer and
  the Python packages, which only build graphs of the modelled kind or call the library.

  \<^bold>\<open>Deviations found.\<close> Lemmas show where the code does not do what it means to: the folder under a
  53-bit \<^verbatim>\<open>long double\<close> (\<open>fold_inexact_on_53_bits\<close>), the sign of zero (\<open>simplify_loses_signed_zero\<close>),
  the bound that unrolled iterations read again (\<open>unroll_rereads_min\<close>), the bias of \<^verbatim>\<open>gemm\<close>
  (\<open>gemm_accepts_larger_bias\<close>), a lost wakeup (\<open>wait_all_lost_wakeup\<close>), colliding hashes
  (\<open>collision_never_scheduled\<close>), merged constants (\<open>cse_merges_constants\<close>), copied dimensions
  (\<open>remove_reshapes_copied_dimension\<close>), signs of \<^verbatim>\<open>int8\<close> (\<open>relay_fold_int8_sign_lost\<close>), counters that
  overflow (\<open>count_wraps\<close>), plans that cannot be read back (\<open>large_attribute_unreadable\<close>,
  \<open>null_worker_unreadable\<close>) or executed (\<open>execute_plan_without_inputs\<close>), and shared or lost axes of
  schedules (\<open>shared_order_splits_both\<close>, \<open>fuse_with_itself\<close>).
\<close>

end
